(* ===== verification/Prelude.thy ===== *)
theory Prelude
  imports Main "HOL-Library.Word"
begin

text \<open>
  Shared vocabulary of the development.

  \<^item> \<open>byte\<close> is C's \<open>unsigned char\<close>; C's \<open>int\<close> is read as \<open>int\<close> (every place where its 32 bits
    matter says so), \<open>size_t\<close> as \<open>nat\<close> or as a 64-bit word (LP64).
  \<^item> \<open>fault\<close> names the ways a C process stops or leaves defined behaviour; an operation that
    can do so returns \<open>fault + 'a\<close>.
  \<^item> \<open>peek\<close> and \<open>poke\<close> are \<open>memcpy\<close> out of and into one block of bytes; \<open>blk_read\<close> and
    \<open>blk_write\<close> add the bounds of the block, with an \<open>int\<close> address because the code computes
    addresses with signed offsets.
  \<^item> \<open>list_find\<close> and \<open>list_remove_by_condition\<close> are the operations of the so-commons list
    (\<open>t_list\<close>, a sequence); a \<open>t_list\<close> is represented by the sequence it holds, an HOL list.
\<close>

named_theorems codec \<open>encoders and decoders cancel\<close>
named_theorems blk \<open>reading and writing blocks of bytes\<close>

type_synonym byte = "8 word"

datatype fault =
    Buffer_Overflow   \<comment> \<open>a \<open>memcpy\<close> outside the block it addresses\<close>
  | Null_Deref        \<comment> \<open>a null pointer is dereferenced\<close>
  | Div_By_Zero       \<comment> \<open>an integer division by zero\<close>
  | Assert_Failure    \<comment> \<open>\<open>assert\<close> fails\<close>
  | Exit_Failure      \<comment> \<open>\<open>exit(EXIT_FAILURE)\<close>\<close>
  | Deadlock          \<comment> \<open>a non-recursive mutex is locked again by its holder\<close>
  | No_Return         \<comment> \<open>a loop that never ends\<close>
  | Use_After_Free    \<comment> \<open>a freed block is read\<close>
  | Uninitialised     \<comment> \<open>a variable that was never set is read\<close>
  | Bad_Unlock        \<comment> \<open>a mutex is unlocked that its thread does not hold\<close>
  | Desync            \<comment> \<open>a request was cut off, its connection is out of step\<close>

subsection \<open>Faults propagate\<close>

definition and_then :: "fault + 'a \<Rightarrow> ('a \<Rightarrow> fault + 'b) \<Rightarrow> fault + 'b" where
  "and_then x f = (case x of Inl e \<Rightarrow> Inl e | Inr a \<Rightarrow> f a)"

lemma and_then_simps [simp]: "and_then (Inl e) f = Inl e" "and_then (Inr a) f = f a"
  by (simp_all add: and_then_def)

lemma and_then_cong [fundef_cong]:
  "x = y \<Longrightarrow> (\<And>a. y = Inr a \<Longrightarrow> f a = g a) \<Longrightarrow> and_then x f = and_then y g"
  by (cases y) auto

lemma and_then_Inr_iff: "and_then x f = Inr b \<longleftrightarrow> (\<exists>a. x = Inr a \<and> f a = Inr b)"
  by (cases x) auto

lemma and_thenE:
  assumes "and_then x f = Inr b"
  obtains a where "x = Inr a" "f a = Inr b"
  using assms by (auto simp: and_then_Inr_iff)

lemma and_then_assoc: "and_then (and_then x f) g = and_then x (\<lambda>a. and_then (f a) g)"
  by (cases x) auto

subsection \<open>C integers\<close>

definition size_t_of_int :: "int \<Rightarrow> nat" where
  "size_t_of_int x = nat (x mod 2 ^ 64)"

text \<open>\<open>(int) x\<close> for a value of a wider type: two's complement truncation to 32 bits.\<close>

definition int_of_wide :: "int \<Rightarrow> int" where
  "int_of_wide x = (x + 2 ^ 31) mod 2 ^ 32 - 2 ^ 31"

text \<open>\<open>div()\<close> of stdlib.h (and C's \<open>/\<close> and \<open>%\<close>) truncate towards zero.\<close>

definition c_quot :: "int \<Rightarrow> int \<Rightarrow> int" where
  "c_quot a b = sgn a * sgn b * (\<bar>a\<bar> div \<bar>b\<bar>)"

definition c_rem :: "int \<Rightarrow> int \<Rightarrow> int" where
  "c_rem a b = a - c_quot a b * b"

lemma size_t_of_int_nonneg [simp]: "0 \<le> x \<Longrightarrow> x < 2 ^ 64 \<Longrightarrow> size_t_of_int x = nat x"
  by (simp add: size_t_of_int_def)

lemma size_t_of_int_neg: "- (2 ^ 63) \<le> x \<Longrightarrow> x < 0 \<Longrightarrow> 2 ^ 63 \<le> size_t_of_int x"
proof -
  assume a: "- (2 ^ 63) \<le> x" "x < 0"
  have "x mod 2 ^ 64 = (x + 2 ^ 64) mod 2 ^ 64" by simp
  also have "\<dots> = x + 2 ^ 64" using a by (intro mod_pos_pos_trivial) auto
  finally show ?thesis using a by (simp add: size_t_of_int_def)
qed

lemma int_of_wide_id [simp]: "- (2 ^ 31) \<le> x \<Longrightarrow> x < 2 ^ 31 \<Longrightarrow> int_of_wide x = x"
  by (simp add: int_of_wide_def)

lemma c_quot_nonneg: "0 \<le> a \<Longrightarrow> 0 < b \<Longrightarrow> c_quot a b = a div b"
  by (cases "a = 0") (auto simp: c_quot_def sgn_if)

lemma c_rem_nonneg: "0 \<le> a \<Longrightarrow> 0 < b \<Longrightarrow> c_rem a b = a mod b"
  by (simp add: c_rem_def c_quot_nonneg minus_div_mult_eq_mod)

lemma c_quot_rem: "c_quot a b * b + c_rem a b = a"
  by (simp add: c_rem_def)

text \<open>The numbers of errno.h that the code names.\<close>

definition ENOENT :: int where "ENOENT = 2"
definition ENOSPC :: int where "ENOSPC = 28"

subsection \<open>Blocks of bytes\<close>

definition peek :: "nat \<Rightarrow> nat \<Rightarrow> 'a list \<Rightarrow> 'a list" where
  "peek off n xs = take n (drop off xs)"

definition poke :: "nat \<Rightarrow> 'a list \<Rightarrow> 'a list \<Rightarrow> 'a list" where
  "poke off bs xs = take off xs @ bs @ drop (off + length bs) xs"

lemma length_peek [simp]: "off + n \<le> length xs \<Longrightarrow> length (peek off n xs) = n"
  by (simp add: peek_def)

lemma length_poke [simp]: "off + length bs \<le> length xs \<Longrightarrow> length (poke off bs xs) = length xs"
  by (simp add: poke_def)

lemma nth_poke:
  assumes "off + length bs \<le> length xs" "i < length xs"
  shows "poke off bs xs ! i = (if off \<le> i \<and> i < off + length bs then bs ! (i - off) else xs ! i)"
  using assms by (auto simp: poke_def nth_append min_def)

lemma nth_peek: "off + n \<le> length xs \<Longrightarrow> i < n \<Longrightarrow> peek off n xs ! i = xs ! (off + i)"
  by (simp add: peek_def)

lemma peek_poke_same [blk]:
  "off + length bs \<le> length xs \<Longrightarrow> n = length bs \<Longrightarrow> peek off n (poke off bs xs) = bs"
  by (simp add: peek_def poke_def)

lemma peek_poke_disjoint [blk]:
  assumes "off + length bs \<le> length xs" "a + n \<le> length xs" "a + n \<le> off \<or> off + length bs \<le> a"
  shows "peek a n (poke off bs xs) = peek a n xs"
  using assms by (intro nth_equalityI) (auto simp: nth_peek nth_poke)

text \<open>A write inside a sub-block, seen through that sub-block.\<close>

lemma peek_poke_inside [blk]:
  assumes "a + n \<le> length xs" "off + length bs \<le> n"
  shows "peek a n (poke (a + off) bs xs) = poke off bs (peek a n xs)"
  using assms by (intro nth_equalityI) (auto simp: nth_peek nth_poke)

lemma peek_peek [blk]: "b + m \<le> n \<Longrightarrow> peek b m (peek a n xs) = peek (a + b) m xs"
  by (simp add: peek_def add.commute take_drop min_def)

lemma poke_nil [simp]: "poke off [] xs = xs"
  by (simp add: poke_def)

lemma peek_all [simp]: "peek 0 (length xs) xs = xs"
  by (simp add: peek_def)

lemma peek_append: "peek a (n + m) xs = peek a n xs @ peek (a + n) m xs"
  by (simp add: peek_def take_add add.commute [of a n])

definition blk_read :: "byte list \<Rightarrow> int \<Rightarrow> nat \<Rightarrow> byte list option" where
  "blk_read xs a n =
     (if 0 \<le> a \<and> nat a + n \<le> length xs then Some (peek (nat a) n xs) else None)"

definition blk_write :: "byte list \<Rightarrow> int \<Rightarrow> byte list \<Rightarrow> byte list option" where
  "blk_write xs a bs =
     (if 0 \<le> a \<and> nat a + length bs \<le> length xs then Some (poke (nat a) bs xs) else None)"

lemma blk_read_in [simp]: "a + n \<le> length xs \<Longrightarrow> blk_read xs (int a) n = Some (peek a n xs)"
  by (simp add: blk_read_def)

lemma blk_write_in [simp]:
  "a + length bs \<le> length xs \<Longrightarrow> blk_write xs (int a) bs = Some (poke a bs xs)"
  by (simp add: blk_write_def)

lemma blk_write_length: "blk_write xs a bs = Some ys \<Longrightarrow> length ys = length xs"
  by (auto simp: blk_write_def split: if_splits)

text \<open>A \<open>u_int32_t\<close> and an \<open>int\<close> in memory, little-endian.\<close>

definition u32 :: "nat \<Rightarrow> byte list" where
  "u32 n = [of_nat n, of_nat (n div 256), of_nat (n div 65536), of_nat (n div 16777216)]"

definition u32_of :: "byte list \<Rightarrow> nat" where
  "u32_of bs = foldr (\<lambda>b v. unat b + 256 * v) (take 4 bs) 0"

definition i32 :: "int \<Rightarrow> byte list" where
  "i32 v = u32 (nat (v mod 2 ^ 32))"

definition i32_of :: "byte list \<Rightarrow> int" where
  "i32_of bs = int_of_wide (int (u32_of bs))"

lemma length_u32 [simp]: "length (u32 n) = 4"
  by (simp add: u32_def)

lemma length_i32 [simp]: "length (i32 v) = 4"
  by (simp add: i32_def)

lemma unat_byte: "unat (of_nat n :: byte) = n mod 256"
  by (simp add: unat_of_nat take_bit_eq_mod)

lemma u32_of_u32: "u32_of (u32 n @ r) = n mod 2 ^ 32"
proof -
  have e: "u32_of (u32 n @ r)
      = n mod 256 + 256 * (n div 256 mod 256 + 256 * (n div 65536 mod 256 + 256 * (n div 16777216 mod 256)))"
    by (simp add: u32_of_def u32_def unat_byte)
  have "n div 65536 = n div 256 div 256" "n div 16777216 = n div 256 div 256 div 256"
    by (simp_all add: div_mult2_eq [symmetric])
  moreover have "n mod 2 ^ 32 = n mod (256 * (256 * (256 * 256)))" by simp
  ultimately show ?thesis unfolding e by (simp only: mod_mult2_eq) simp
qed

lemma u32_round [codec]: "n < 2 ^ 32 \<Longrightarrow> u32_of (u32 n @ r) = n"
  by (simp add: u32_of_u32)

lemma i32_round [codec]: "- (2 ^ 31) \<le> v \<Longrightarrow> v < 2 ^ 31 \<Longrightarrow> i32_of (i32 v @ r) = v"
proof -
  assume v: "- (2 ^ 31) \<le> v" "v < 2 ^ 31"
  have "int (nat (v mod 2 ^ 32) mod 2 ^ 32) = v mod 2 ^ 32" by (simp add: zmod_int)
  then have "i32_of (i32 v @ r) = (v mod 2 ^ 32 + 2 ^ 31) mod 2 ^ 32 - 2 ^ 31"
    by (simp add: i32_of_def i32_def u32_of_u32 int_of_wide_def)
  also have "\<dots> = (v + 2 ^ 31) mod 2 ^ 32 - 2 ^ 31" by (simp only: mod_add_left_eq)
  also have "\<dots> = v" using v by simp
  finally show ?thesis .
qed

subsection \<open>The so-commons list\<close>

abbreviation list_find :: "('a \<Rightarrow> bool) \<Rightarrow> 'a list \<Rightarrow> 'a option" where
  "list_find \<equiv> List.find"

fun list_remove_by_condition :: "('a \<Rightarrow> bool) \<Rightarrow> 'a list \<Rightarrow> 'a option \<times> 'a list" where
  "list_remove_by_condition P [] = (None, [])"
| "list_remove_by_condition P (x # xs) =
     (if P x then (Some x, xs)
      else (case list_remove_by_condition P xs of (r, ys) \<Rightarrow> (r, x # ys)))"

lemma list_remove_by_condition_absent:
  "\<forall>x \<in> set xs. \<not> P x \<Longrightarrow> list_remove_by_condition P xs = (None, xs)"
  by (induction xs) auto

lemma list_remove_by_condition_split:
  "\<forall>u \<in> set us. \<not> P u \<Longrightarrow> P x \<Longrightarrow>
     list_remove_by_condition P (us @ x # vs) = (Some x, us @ vs)"
  by (induction us) auto

lemma list_remove_by_condition_find:
  "fst (list_remove_by_condition P xs) = List.find P xs"
  by (induction xs) (auto split: prod.splits)

lemma list_remove_by_condition_cases:
  obtains (absent) "\<forall>x \<in> set xs. \<not> P x" "list_remove_by_condition P xs = (None, xs)"
  | (found) us x vs where "xs = us @ x # vs" "P x" "\<forall>u \<in> set us. \<not> P u"
      "list_remove_by_condition P xs = (Some x, us @ vs)"
proof (cases "\<exists>x \<in> set xs. P x")
  case True
  then obtain us x vs where "xs = us @ x # vs" "P x" "\<forall>u \<in> set us. \<not> P u"
    by (auto dest!: split_list_first_prop)
  then show thesis using found list_remove_by_condition_split by metis
next
  case False
  then show thesis using absent list_remove_by_condition_absent by metis
qed

lemma find_in_set: "List.find P xs = Some x \<Longrightarrow> x \<in> set xs \<and> P x"
  by (induction xs) (auto split: if_splits)


subsection \<open>Numbered blocks in one byte array\<close>

text \<open>
  Both the frames of the RAM and the entries of the cache are blocks of \<open>fs\<close> bytes in one
  array. The table that says which block holds which page is known to its clients only as an
  injective lookup into the blocks; that is all they need to know that writing one page
  changes no other.
\<close>

definition block :: "nat \<Rightarrow> byte list \<Rightarrow> nat \<Rightarrow> byte list" where
  "block fs bytes f = peek (f * fs) fs bytes"

lemma block_fits: "f < n \<Longrightarrow> f * fs + fs \<le> n * (fs :: nat)"
  by (metis Suc_leI add.commute mult_Suc mult_le_mono1)

lemma length_block [simp]: "f < n \<Longrightarrow> length bytes = n * fs \<Longrightarrow> length (block fs bytes f) = fs"
  by (simp add: block_def block_fits)

lemma peek_block:
  "f < n \<Longrightarrow> length bytes = n * fs \<Longrightarrow> off + k \<le> fs \<Longrightarrow>
     peek (f * fs + off) k bytes = peek off k (block fs bytes f)"
  by (simp add: block_def peek_peek)

lemma block_in_bounds:
  "f < n \<Longrightarrow> length bytes = n * fs \<Longrightarrow> off + k \<le> fs \<Longrightarrow> f * fs + off + k \<le> length bytes"
  using block_fits [of f n fs] by simp

lemma block_poke_same:
  "f < n \<Longrightarrow> length bytes = n * fs \<Longrightarrow> off + length bs \<le> fs \<Longrightarrow>
     block fs (poke (f * fs + off) bs bytes) f = poke off bs (block fs bytes f)"
  using block_fits [of f n fs] by (simp add: block_def peek_poke_inside)

lemma block_poke_other:
  assumes "f < n" "g < n" "f \<noteq> g" "length bytes = n * fs" "off + length bs \<le> fs"
  shows "block fs (poke (f * fs + off) bs bytes) g = block fs bytes g"
proof -
  have "g * fs + fs \<le> f * fs \<or> f * fs + fs \<le> g * fs"
    using assms(3) by (metis Suc_leI add.commute linorder_neqE_nat mult_Suc mult_le_mono1)
  then show ?thesis
    unfolding block_def using assms block_fits [of f n fs] block_fits [of g n fs]
    by (intro peek_poke_disjoint) auto
qed

locale block_table =
  fixes look :: "'s \<Rightarrow> 'k \<Rightarrow> nat option"
    and cap :: "'s \<Rightarrow> nat"
    and ok :: "'s \<Rightarrow> bool"
  assumes look_bound: "ok s \<Longrightarrow> look s k = Some f \<Longrightarrow> f < cap s"
    and look_inj: "ok s \<Longrightarrow> look s k = Some f \<Longrightarrow> look s k' = Some f \<Longrightarrow> k = k'"
begin

lemma write_one_page:
  assumes "ok s" "look s k = Some f" "length bytes = cap s * fs" "off + length bs \<le> fs"
  shows "map_option (block fs (poke (f * fs + off) bs bytes)) (look s k') =
    (if k' = k then Some (poke off bs (block fs bytes f))
     else map_option (block fs bytes) (look s k'))"
proof (cases "k' = k")
  case True
  with assms show ?thesis by (simp add: block_poke_same [OF look_bound])
next
  case False
  show ?thesis
  proof (cases "look s k'")
    case (Some g)
    with False assms have "f \<noteq> g" using look_inj by metis
    with Some False assms show ?thesis
      by (simp add: block_poke_other [OF look_bound look_bound])
  qed (use False in simp)
qed

lemma page_length:
  "ok s \<Longrightarrow> length bytes = cap s * fs \<Longrightarrow> look s k = Some f \<Longrightarrow> length (block fs bytes f) = fs"
  using look_bound by (metis length_block)

end

subsection \<open>Circular probing\<close>

lemma circular_reaches:
  assumes "i < n" "t < n"
  obtains k where "k < n" "(i + k) mod n = (t :: nat)"
proof (cases "i \<le> t")
  case True
  with assms show thesis by (intro that [of "t - i"]) auto
next
  case False
  have "(i + (t + n - i)) mod n = t" using assms False by simp
  with assms False show thesis by (intro that [of "t + n - i"]) auto
qed

lemma circular_step [simp]: "(Suc i mod n + k) mod n = Suc (i + k) mod (n :: nat)"
  by (simp add: mod_add_left_eq)

lemma circular_tail:
  "\<forall>j < Suc k. P ((i + j) mod (n :: nat)) \<Longrightarrow> \<forall>j < k. P ((Suc i mod n + j) mod n)"
  by (metis Suc_less_eq add_Suc_right circular_step)

lemma first_in_circle:
  assumes "i < n" "t < n" "P (t :: nat)"
  obtains k where "k < n" "P ((i + k) mod n)" "\<forall>j < k. \<not> P ((i + j) mod n)"
proof -
  obtain k0 where "k0 < n" "(i + k0) mod n = t" using circular_reaches assms by metis
  moreover from this obtain m where "m \<le> k0" "\<forall>j < m. \<not> P ((i + j) mod n)" "P ((i + m) mod n)"
    using ex_least_nat_le [of "\<lambda>k. P ((i + k) mod n)" k0] assms(3) by auto
  ultimately show thesis using that [of m] by simp
qed

subsection \<open>Counting in a table\<close>

lemma length_filter_update:
  "i < length xs \<Longrightarrow>
     length (filter P (xs[i := x])) + (if P (xs ! i) then 1 else 0)
       = length (filter P xs) + (if P x then 1 else 0)"
proof (induction xs arbitrary: i)
  case (Cons a xs)
  then show ?case by (cases i) auto
qed simp

lemma length_filter_pos: "0 < length (filter P xs) \<longleftrightarrow> (\<exists>i < length xs. P (xs ! i))"
  by (simp add: filter_empty_conv) (metis in_set_conv_nth)

lemma foldl_max:
  "foldl (\<lambda>m x. if P x \<and> m < f x then f x else m) (m :: nat) xs
     = foldl (\<lambda>m x. max m (f x)) m (filter P xs)"
  by (induction xs arbitrary: m) (auto simp: max_def)

lemma foldl_max_ge:
  "m \<le> foldl (\<lambda>m x. max m (f x)) (m :: nat) xs
   \<and> (\<forall>x \<in> set xs. f x \<le> foldl (\<lambda>m x. max m (f x)) m xs)"
proof (induction xs arbitrary: m)
  case (Cons a xs)
  from Cons.IH [of "max m (f a)"] show ?case by auto
qed simp

lemma foldl_max_in:
  "foldl (\<lambda>m x. max m (f x)) (m :: nat) xs = m
   \<or> (\<exists>x \<in> set xs. foldl (\<lambda>m x. max m (f x)) m xs = f x)"
proof (induction xs arbitrary: m)
  case (Cons a xs)
  from Cons.IH [of "max m (f a)"] show ?case by (auto simp: max_def split: if_splits)
qed simp

end
