(* ===== verification/Sockets.thy ===== *)
theory Sockets
  imports Prelude
begin

text \<open>
  \<open>libSockets/send.c\<close> and \<open>libSockets/recv.c\<close> (the five processes carry identical copies;
  the Kernel's is the one mapped). Every message is framed by an 11-byte header holding the
  decimal rendering of a C \<open>int\<close>: an integer is its header alone, a blob is the header of its
  length followed by its bytes.

  A socket is the byte stream still to be received (\<open>rx\<close>), the bytes handed to the network
  (\<open>tx\<close>) and the number of bytes the network still takes before \<open>send\<close> comes up short
  (\<open>room\<close>). The two buffers of 11 bytes are never cleared: \<open>sjunk\<close> is what the sender's fresh
  \<open>malloc(11)\<close> held, \<open>rjunk\<close> what follows the receiver's 11 bytes in the heap, both arbitrary.
  \<open>crash\<close> records a segmentation fault of the process.
\<close>

record sock =
  rx :: "byte list"
  tx :: "byte list"
  room :: nat
  sjunk :: "nat \<Rightarrow> byte"
  rjunk :: "byte list"
  crash :: bool

subsection \<open>Decimal text: \<open>sprintf("%i")\<close> and \<open>atoi\<close>\<close>

fun dec_digits :: "nat \<Rightarrow> byte list" where
  "dec_digits n = (if n < 10 then [of_nat (48 + n)]
                   else dec_digits (n div 10) @ [of_nat (48 + n mod 10)])"

declare dec_digits.simps [simp del]

definition sprintf_i :: "int \<Rightarrow> byte list" where
  "sprintf_i v = (if v < 0 then 45 # dec_digits (nat (- v)) else dec_digits (nat v))"

definition is_digit :: "byte \<Rightarrow> bool" where
  "is_digit b \<longleftrightarrow> 48 \<le> unat b \<and> unat b \<le> 57"

definition is_space :: "byte \<Rightarrow> bool" where
  "is_space b \<longleftrightarrow> unat b = 32 \<or> (9 \<le> unat b \<and> unat b \<le> 13)"

fun atoi_digits :: "int \<Rightarrow> byte list \<Rightarrow> int" where
  "atoi_digits acc [] = acc"
| "atoi_digits acc (b # bs) =
     (if is_digit b then atoi_digits (10 * acc + (int (unat b) - 48)) bs else acc)"

definition atoi :: "byte list \<Rightarrow> int" where
  "atoi bs = (case dropWhile is_space bs of
      [] \<Rightarrow> 0
    | b # r \<Rightarrow> if b = 45 then - atoi_digits 0 r
               else if b = 43 then atoi_digits 0 r
               else atoi_digits 0 (b # r))"

subsection \<open>The system calls\<close>

definition sys_send :: "sock \<Rightarrow> byte list \<Rightarrow> int \<times> sock" where
  "sys_send s bs =
     (let n = min (length bs) (room s)
      in (int n, s\<lparr>tx := tx s @ take n bs, room := room s - n\<rparr>))"

definition sys_recv :: "sock \<Rightarrow> nat \<Rightarrow> byte list \<times> sock" where
  "sys_recv s n = (take n (rx s), s\<lparr>rx := drop n (rx s)\<rparr>)"

subsection \<open>send.c\<close>

text \<open>The header buffer after \<open>sprintf\<close>: the text, its NUL, and the old content behind them.\<close>

definition int_header :: "(nat \<Rightarrow> byte) \<Rightarrow> int \<Rightarrow> byte list" where
  "int_header junk v =
     take 11 (sprintf_i v @ 0 # map junk [length (sprintf_i v) + 1..<11])"

definition socket_send_int :: "sock \<Rightarrow> int \<Rightarrow> int \<times> sock" where
  "socket_send_int s v =
     (case sys_send s (int_header (sjunk s) v) of
        (n, s1) \<Rightarrow> if n = 11 then (4, s1) else (-1, s1))"

definition socket_send :: "sock \<Rightarrow> byte list \<Rightarrow> int \<times> sock" where
  "socket_send s bs =
     (case sys_send s (int_header (sjunk s) (int (length bs))) of
        (n, s1) \<Rightarrow>
          if n = 11 then
            (case sys_send s1 bs of
               (m, s2) \<Rightarrow> if m = int (length bs) then (int (length bs), s2) else (-1, s2))
          else (-1, s1))"

text \<open>A C string is given by its characters; \<open>string_length + 1\<close> bytes are sent.\<close>

definition socket_send_string :: "sock \<Rightarrow> byte list \<Rightarrow> int \<times> sock" where
  "socket_send_string s str = socket_send s (str @ [0])"

subsection \<open>recv.c\<close>

definition socket_recv_int :: "sock \<Rightarrow> int \<times> int \<times> sock" where
  "socket_recv_int s =
     (case sys_recv s 11 of
        (h, s1) \<Rightarrow> if length h = 11 then (4, atoi (h @ rjunk s), s1) else (-1, 0, s1))"

definition magicSocketNumber :: nat where
  "magicSocketNumber = 32768"

text \<open>The loop over the \<open>nPartes\<close> full parts; \<open>acc\<close> is \<open>bufAuxiliar\<close> so far.\<close>

fun recv_parts :: "nat \<Rightarrow> byte list \<Rightarrow> sock \<Rightarrow> byte list option \<times> sock" where
  "recv_parts 0 acc s = (Some acc, s)"
| "recv_parts (Suc k) acc s =
     (case sys_recv s magicSocketNumber of
        (b, s1) \<Rightarrow> if length b = magicSocketNumber then recv_parts k (acc @ b) s1 else (None, s1))"

text \<open>The branch for sizes above 32768: the full parts, then the rest.\<close>

definition recv_in_parts :: "nat \<Rightarrow> sock \<Rightarrow> byte list option \<times> sock" where
  "recv_in_parts sz s =
     (let nPartes = sz div magicSocketNumber; resto = sz mod magicSocketNumber
      in case recv_parts nPartes [] s of
           (None, s1) \<Rightarrow> (None, s1)
         | (Some b, s1) \<Rightarrow>
             if resto > 0 then
               (case sys_recv s1 resto of
                  (b', s2) \<Rightarrow> if length b' = resto then (Some (b @ b'), s2) else (None, s2))
             else (Some b, s1))"

text \<open>
  \<open>socket_recv\<close>: the size and the buffer (\<open>None\<close> on error). A negative size asks \<open>malloc\<close> for
  more than there is; \<open>recv\<close> into that null buffer returns \<open>-1\<close>, which for size \<open>-1\<close> passes the
  check, and the \<open>memcpy\<close> behind it crashes the process.
\<close>

definition socket_recv :: "sock \<Rightarrow> int \<times> byte list option \<times> sock" where
  "socket_recv s =
     (case sys_recv s 11 of
        (h, s1) \<Rightarrow>
          if length h = 11 then
            (let sz = atoi (h @ rjunk s) in
             if sz < 0 then (-1, None, s1\<lparr>crash := crash s1 \<or> sz = -1\<rparr>)
             else if sz \<le> int magicSocketNumber then
               (case sys_recv s1 (nat sz) of
                  (b, s2) \<Rightarrow> if int (length b) = sz then (sz, Some b, s2) else (-1, None, s2))
             else
               (case recv_in_parts (nat sz) s1 of
                  (None, s2) \<Rightarrow> (-1, None, s2)
                | (Some b, s2) \<Rightarrow> (sz, Some b, s2)))
          else (-1, None, s1))"

definition socket_recv_string :: "sock \<Rightarrow> int \<times> byte list option \<times> sock" where
  "socket_recv_string s = socket_recv s"

text \<open>What \<open>strcmp\<close> and \<open>string_length\<close> see of a received buffer.\<close>

definition cstr :: "byte list \<Rightarrow> byte list" where
  "cstr bs = takeWhile (\<lambda>b. b \<noteq> 0) bs"

definition str :: "string \<Rightarrow> byte list" where
  "str cs = map (\<lambda>c. of_nat (of_char c)) cs"


subsection \<open>Decimal text round-trips\<close>

lemma unat_digit [simp]: "d < 10 \<Longrightarrow> unat (of_nat (48 + d) :: byte) = 48 + d"
  by (simp only: unat_of_nat) (simp add: take_bit_nat_eq_self)

lemma dec_digits_are_digits: "\<forall>b \<in> set (dec_digits n). is_digit b"
proof (induction n rule: dec_digits.induct)
  case (1 n)
  show ?case
    by (subst dec_digits.simps) (use 1 in \<open>auto simp: is_digit_def simp del: of_nat_add\<close>)
qed

lemma dec_digits_nonempty: "dec_digits n \<noteq> []"
  by (subst dec_digits.simps) simp

lemma dec_digits_length: "0 < k \<Longrightarrow> n < 10 ^ k \<Longrightarrow> length (dec_digits n) \<le> k"
proof (induction n arbitrary: k rule: dec_digits.induct)
  case (1 n)
  show ?case
  proof (cases "n < 10")
    case True
    with 1 show ?thesis by (subst dec_digits.simps) simp
  next
    case False
    with "1.prems" have "k \<noteq> 1" by auto
    with "1.prems"(1) obtain j where k: "k = Suc j" "0 < j"
      by (cases k) auto
    with "1.prems" have "n div 10 < 10 ^ j" by (simp add: less_mult_imp_div_less mult.commute)
    with "1.IH" [OF False k(2)] False k show ?thesis by (subst dec_digits.simps) simp
  qed
qed

lemma atoi_digits_append:
  "\<forall>b \<in> set ds. is_digit b \<Longrightarrow> atoi_digits acc (ds @ r) = atoi_digits (atoi_digits acc ds) r"
  by (induction ds arbitrary: acc) auto

lemma atoi_digits_stop: "r = [] \<or> \<not> is_digit (hd r) \<Longrightarrow> atoi_digits acc r = acc"
  by (cases r) auto

lemma atoi_digits_dec: "atoi_digits 0 (dec_digits n) = int n"
proof (induction n rule: dec_digits.induct)
  case (1 n)
  show ?case
  proof (cases "n < 10")
    case True
    then show ?thesis
      by (subst dec_digits.simps) (simp add: is_digit_def del: of_nat_add)
  next
    case False
    have "atoi_digits 0 (dec_digits n)
        = atoi_digits (int (n div 10)) [of_nat (48 + n mod 10)]"
      using False 1 dec_digits_are_digits [of "n div 10"]
      by (subst dec_digits.simps) (simp add: atoi_digits_append del: of_nat_add atoi_digits.simps)
    also have "\<dots> = 10 * int (n div 10) + int (n mod 10)"
      by (simp add: is_digit_def del: of_nat_add)
    also have "\<dots> = int n" by (simp flip: of_nat_mult of_nat_add add: zdiv_int zmod_int)
    finally show ?thesis .
  qed
qed

lemma atoi_dec_digits:
  assumes "r = [] \<or> \<not> is_digit (hd r)"
  shows "atoi (dec_digits n @ r) = int n"
proof -
  obtain b bs where b: "dec_digits n = b # bs" using dec_digits_nonempty by (cases "dec_digits n") auto
  have "is_digit b" using dec_digits_are_digits [of n] b by simp
  then have nb: "\<not> is_space b" "b \<noteq> 45" "b \<noteq> 43" by (auto simp: is_digit_def is_space_def)
  have "atoi (dec_digits n @ r) = atoi_digits 0 (dec_digits n @ r)"
    using nb by (simp add: atoi_def b)
  also have "\<dots> = int n"
    using assms by (simp add: atoi_digits_append dec_digits_are_digits atoi_digits_dec atoi_digits_stop)
  finally show ?thesis .
qed

lemma atoi_sprintf:
  assumes "r = [] \<or> \<not> is_digit (hd r)"
  shows "atoi (sprintf_i v @ r) = v"
proof (cases "v < 0")
  case True
  then have "atoi (sprintf_i v @ r) = - atoi_digits 0 (dec_digits (nat (- v)) @ r)"
    by (simp add: atoi_def sprintf_i_def is_space_def)
  also have "\<dots> = v"
    using True assms
    by (simp add: atoi_digits_append dec_digits_are_digits atoi_digits_dec atoi_digits_stop)
  finally show ?thesis .
next
  case False
  with assms show ?thesis by (simp add: sprintf_i_def atoi_dec_digits)
qed

text \<open>The values whose text and NUL fit the 11-byte header.\<close>

definition header_fits :: "int \<Rightarrow> bool" where
  "header_fits v \<longleftrightarrow> - 1000000000 < v \<and> v < 10000000000"

lemma sprintf_i_length: "header_fits v \<Longrightarrow> length (sprintf_i v) \<le> 10"
proof (cases "v < 0")
  case True
  assume "header_fits v"
  with True have "nat (- v) < 10 ^ 9" by (simp add: header_fits_def)
  then have "length (dec_digits (nat (- v))) \<le> 9" by (rule dec_digits_length [rotated]) simp
  with True show ?thesis by (simp add: sprintf_i_def)
next
  case False
  assume "header_fits v"
  with False have "nat v < 10 ^ 10" by (simp add: header_fits_def)
  then have "length (dec_digits (nat v)) \<le> 10" by (rule dec_digits_length [rotated]) simp
  with False show ?thesis by (simp add: sprintf_i_def)
qed

lemma dec_digits_length_ge: "10 ^ k \<le> n \<Longrightarrow> k < length (dec_digits n)"
proof (induction n arbitrary: k rule: dec_digits.induct)
  case (1 n)
  show ?case
  proof (cases k)
    case (Suc j)
    with "1.prems" have "10 ^ j * 10 \<le> n" by (simp add: mult.commute)
    moreover have "(1 :: nat) \<le> 10 ^ j" by simp
    ultimately have n: "10 ^ j \<le> n div 10" "\<not> n < 10"
      by (simp add: less_eq_div_iff_mult_less_eq, linarith)
    with "1.IH" [OF n(2) n(1)] Suc show ?thesis by (subst dec_digits.simps) simp
  qed (use dec_digits_nonempty [of n] in simp)
qed

lemma sprintf_i_fits_iff:
  assumes "- (2 ^ 31) \<le> v" "v < 2 ^ 31"
  shows "length (sprintf_i v) \<le> 10 \<longleftrightarrow> - 1000000000 < v"
proof
  assume "- 1000000000 < v"
  with assms show "length (sprintf_i v) \<le> 10" by (intro sprintf_i_length) (simp add: header_fits_def)
next
  assume len: "length (sprintf_i v) \<le> 10"
  show "- 1000000000 < v"
  proof (rule ccontr)
    assume "\<not> - 1000000000 < v"
    then have "10 ^ 9 \<le> nat (- v)" "v < 0" by simp_all
    with dec_digits_length_ge [OF this(1)] len show False by (simp add: sprintf_i_def)
  qed
qed

lemma int_header_split:
  "header_fits v \<Longrightarrow>
     int_header junk v = sprintf_i v @ 0 # map junk [length (sprintf_i v) + 1..<11]"
  using sprintf_i_length [of v] by (simp add: int_header_def)

lemma length_int_header [simp]: "length (int_header junk v) = 11"
  by (simp add: int_header_def)

lemma int_header_not_nil [simp]: "int_header junk v \<noteq> []"
  by (metis length_int_header list.size(3) zero_neq_numeral)

lemma atoi_header [codec]: "header_fits v \<Longrightarrow> atoi (int_header junk v @ beyond) = v"
  using atoi_sprintf [of "0 # map junk [length (sprintf_i v) + 1..<11] @ beyond" v]
  by (simp add: int_header_split is_digit_def)

subsection \<open>Frames on the wire\<close>

definition blob_frame :: "(nat \<Rightarrow> byte) \<Rightarrow> byte list \<Rightarrow> byte list" where
  "blob_frame junk bs = int_header junk (int (length bs)) @ bs"

lemma length_blob_frame [simp]: "length (blob_frame junk bs) = 11 + length bs"
  by (simp add: blob_frame_def)

lemma socket_send_int_ok [codec]:
  "11 \<le> room s \<Longrightarrow> socket_send_int s v
     = (4, s\<lparr>tx := tx s @ int_header (sjunk s) v, room := room s - 11\<rparr>)"
  by (simp add: socket_send_int_def sys_send_def Let_def min_def)

lemma socket_send_ok [codec]:
  "11 + length bs \<le> room s \<Longrightarrow> socket_send s bs
     = (int (length bs), s\<lparr>tx := tx s @ blob_frame (sjunk s) bs, room := room s - (11 + length bs)\<rparr>)"
  by (auto simp: socket_send_def sys_send_def Let_def min_def blob_frame_def)

lemma socket_send_string_ok [codec]:
  "12 + length c \<le> room s \<Longrightarrow> socket_send_string s c
     = (int (length c + 1),
        s\<lparr>tx := tx s @ blob_frame (sjunk s) (c @ [0]), room := room s - (12 + length c)\<rparr>)"
  by (simp add: socket_send_string_def socket_send_ok)

text \<open>A failing send, whatever was taken before it, reports \<open>-1\<close>.\<close>

lemma socket_send_int_result: "fst (socket_send_int s v) = (if 11 \<le> room s then 4 else -1)"
  by (simp add: socket_send_int_def sys_send_def Let_def min_def)

lemma socket_send_result:
  "fst (socket_send s bs) = (if 11 + length bs \<le> room s then int (length bs) else -1)"
  by (auto simp: socket_send_def sys_send_def Let_def min_def)

lemma socket_recv_int_ok [codec]:
  "header_fits v \<Longrightarrow> rx s = int_header j v @ rest \<Longrightarrow>
     socket_recv_int s = (4, v, s\<lparr>rx := rest\<rparr>)"
  by (simp add: socket_recv_int_def sys_recv_def atoi_header)

lemma recv_parts_eq:
  "recv_parts k acc s =
     (if k * magicSocketNumber \<le> length (rx s)
      then (Some (acc @ take (k * magicSocketNumber) (rx s)),
            s\<lparr>rx := drop (k * magicSocketNumber) (rx s)\<rparr>)
      else (None, s\<lparr>rx := []\<rparr>))"
proof (induction k arbitrary: acc s)
  case (Suc k)
  show ?case
  proof (cases "magicSocketNumber \<le> length (rx s)")
    case True
    then show ?thesis
      by (simp add: sys_recv_def Suc.IH min_absorb2 take_add le_diff_conv2 add.commute)
  qed (simp add: sys_recv_def min_def)
qed simp

lemma recv_in_parts_eq:
  "recv_in_parts n s =
     (if n \<le> length (rx s) then (Some (take n (rx s)), s\<lparr>rx := drop n (rx s)\<rparr>)
      else (None, s\<lparr>rx := []\<rparr>))"
proof -
  define k r where "k = n div magicSocketNumber * magicSocketNumber" and "r = n mod magicSocketNumber"
  have n: "n = k + r" by (simp add: k_def r_def)
  have "recv_in_parts n s =
      (if k \<le> length (rx s) then
         if r > 0 then
           if r \<le> length (rx s) - k
           then (Some (take k (rx s) @ take r (drop k (rx s))), s\<lparr>rx := drop r (drop k (rx s))\<rparr>)
           else (None, s\<lparr>rx := drop r (drop k (rx s))\<rparr>)
         else (Some (take k (rx s)), s\<lparr>rx := drop k (rx s)\<rparr>)
       else (None, s\<lparr>rx := []\<rparr>))"
    by (auto simp: recv_in_parts_def Let_def recv_parts_eq sys_recv_def k_def [symmetric]
        r_def [symmetric])
  also have "\<dots> = (if n \<le> length (rx s) then (Some (take n (rx s)), s\<lparr>rx := drop n (rx s)\<rparr>)
      else (None, s\<lparr>rx := []\<rparr>))"
    by (auto simp: n take_add add.commute)
  finally show ?thesis .
qed

text \<open>The same transfer with one \<open>recv\<close>, which the parts of 32768 bytes replace.\<close>

definition recv_whole :: "sock \<Rightarrow> int \<times> byte list option \<times> sock" where
  "recv_whole s =
     (let h = take 11 (rx s); s1 = s\<lparr>rx := drop 11 (rx s)\<rparr>; sz = atoi (h @ rjunk s) in
      if length h < 11 then (-1, None, s1)
      else if sz < 0 then (-1, None, s1\<lparr>crash := crash s1 \<or> sz = -1\<rparr>)
      else if nat sz \<le> length (rx s1)
        then (sz, Some (take (nat sz) (rx s1)), s1\<lparr>rx := drop (nat sz) (rx s1)\<rparr>)
      else (-1, None, s1\<lparr>rx := []\<rparr>))"

lemma socket_recv_whole: "socket_recv s = recv_whole s"
  by (auto simp: socket_recv_def recv_whole_def sys_recv_def Let_def recv_in_parts_eq min_def
      nat_le_iff)

lemma socket_recv_ok [codec]:
  assumes "length bs < 2 ^ 31" "rx s = blob_frame j bs @ rest"
  shows "socket_recv s = (int (length bs), Some bs, s\<lparr>rx := rest\<rparr>)"
proof -
  have "header_fits (int (length bs))" using assms(1) by (simp add: header_fits_def)
  then show ?thesis
    using assms(2)
    by (simp add: socket_recv_whole recv_whole_def Let_def blob_frame_def atoi_header)
qed

lemma socket_recv_string_ok [codec]:
  "length c + 1 < 2 ^ 31 \<Longrightarrow> rx s = blob_frame j (c @ [0]) @ rest \<Longrightarrow>
     socket_recv_string s = (int (length c + 1), Some (c @ [0]), s\<lparr>rx := rest\<rparr>)"
  using socket_recv_ok [of "c @ [0]" s j rest] by (simp add: socket_recv_string_def)

lemma cstr_sent [simp]: "0 \<notin> set c \<Longrightarrow> cstr (c @ [0]) = c"
  by (induction c) (auto simp: cstr_def)

end
