(* ===== verification/Process_Control.thy ===== *)
theory Process_Control
  imports Prelude "HOL-Library.AList"
begin

text \<open>
  The process control block, \<open>t_pcb\<close>, and what hangs from it; \<open>commons/structures.h\<close> of the
  Kernel and of the CPU declare the same types.

  A \<open>t_dictionary\<close> of the so-commons library is the list of its entries in the order in which
  \<open>dictionary_iterator\<close> meets them, with distinct keys; that order belongs to the library, and
  nothing proved here depends on which one it is. \<open>processFileTable\<close> is created and never used,
  so it has no field.
\<close>

type_synonym cstring = "byte list"

type_synonym 'a t_dictionary = "(cstring \<times> 'a) list"

record t_position =
  pos_page :: int
  pos_off :: int
  pos_size :: int

record t_indiceDelStack =
  vars :: "t_position t_dictionary"
  argCount :: nat
  args :: "t_position list"
  retPos :: int
  retVar :: "t_position option"

record t_intructions =
  ins_start :: nat
  ins_offset :: nat

record t_pcb =
  pid :: int
  pc :: nat
  cantPagsCodigo :: nat
  indiceDeCodigoCant :: nat
  indiceDeCodigo :: "t_intructions list"
  indiceDeEtiquetasCant :: nat
  indiceDeEtiquetas :: "byte list"
  indiceDeStack :: "t_indiceDelStack list"
  stackPosition :: nat
  maxStackPosition :: nat
  exitCode :: int

subsection \<open>The so-commons dictionary\<close>

definition dictionary_put :: "cstring \<Rightarrow> 'a \<Rightarrow> 'a t_dictionary \<Rightarrow> 'a t_dictionary" where
  "dictionary_put k v d = AList.update k v d"

definition dictionary_get :: "'a t_dictionary \<Rightarrow> cstring \<Rightarrow> 'a option" where
  "dictionary_get d k = map_of d k"

definition dictionary_has_key :: "'a t_dictionary \<Rightarrow> cstring \<Rightarrow> bool" where
  "dictionary_has_key d k \<longleftrightarrow> map_of d k \<noteq> None"

definition dictionary_size :: "'a t_dictionary \<Rightarrow> nat" where
  "dictionary_size d = length d"

lemma dictionary_get_put [simp]:
  "dictionary_get (dictionary_put k v d) k' = (if k' = k then Some v else dictionary_get d k')"
  by (simp add: dictionary_get_def dictionary_put_def update_conv')

lemma dictionary_keys_put [simp]:
  "fst ` set (dictionary_put k v d) = insert k (fst ` set d)"
  by (simp add: dictionary_put_def dom_update)

lemma dictionary_put_distinct:
  "distinct (map fst d) \<Longrightarrow> distinct (map fst (dictionary_put k v d))"
  by (simp add: dictionary_put_def distinct_update)

lemma dictionary_put_new: "k \<notin> fst ` set d \<Longrightarrow> dictionary_put k v d = d @ [(k, v)]"
  unfolding dictionary_put_def by (induction d) auto

subsection \<open>Comparing strings\<close>

definition to_lower :: "byte \<Rightarrow> byte" where
  "to_lower b = (if 65 \<le> unat b \<and> unat b \<le> 90 then b + 32 else b)"

definition string_equals_ignore_case :: "cstring \<Rightarrow> cstring \<Rightarrow> bool" where
  "string_equals_ignore_case a b \<longleftrightarrow> map to_lower a = map to_lower b"

end
