(* ===== verification/FS_Tree.thy ===== *)
theory FS_Tree
  imports Sockets Process_Control
begin

text \<open>
  The files and directories the FileSystem process works on, as the calls of the C library see
  them: \<open>access\<close>, \<open>stat\<close>, \<open>fopen(.., "w+")\<close>, \<open>remove\<close>, \<open>opendir\<close>, and the memory mapping of a file.

  A \<open>tree\<close> lists what exists, each under the components of its path from the directory where
  paths start. Permissions, links and limits of the operating system are left out; a call that
  could fail only for such a reason succeeds.
\<close>

datatype node = Directory | Regular "byte list"

type_synonym tree = "(cstring list \<times> node) list"

abbreviation node_at :: "tree \<Rightarrow> cstring list \<Rightarrow> node option" where
  "node_at t p \<equiv> map_of t p"

subsection \<open>Paths\<close>

text \<open>The components of a path: what stands between slashes, the empty ones dropped.\<close>

fun split_slash :: "cstring \<Rightarrow> cstring \<Rightarrow> cstring list" where
  "split_slash acc [] = (if acc = [] then [] else [acc])"
| "split_slash acc (b # bs) =
     (if b = 47 then (if acc = [] then [] else [acc]) @ split_slash [] bs
      else split_slash (acc @ [b]) bs)"

definition components :: "cstring \<Rightarrow> cstring list" where
  "components path = split_slash [] path"

fun walk :: "tree \<Rightarrow> cstring list \<Rightarrow> cstring list \<Rightarrow> cstring list option" where
  "walk t here [] = Some here"
| "walk t here (c # cs) =
     (if here \<noteq> [] \<and> node_at t here \<noteq> Some Directory then None
      else if c = str ''.'' then walk t here cs
      else if c = str ''..'' then walk t (butlast here) cs
      else walk t (here @ [c]) cs)"

definition ends_with_slash :: "cstring \<Rightarrow> bool" where
  "ends_with_slash path \<longleftrightarrow> path \<noteq> [] \<and> last path = 47"

definition lookup_path :: "tree \<Rightarrow> cstring \<Rightarrow> node option" where
  "lookup_path t path =
     (case walk t [] (components path) of
        None \<Rightarrow> None
      | Some p \<Rightarrow>
          if p = [] then Some Directory
          else if ends_with_slash path \<and> node_at t p \<noteq> Some Directory then None
          else node_at t p)"

definition is_regular_file :: "tree \<Rightarrow> cstring \<Rightarrow> bool" where
  "is_regular_file t path \<longleftrightarrow> (case lookup_path t path of Some (Regular c) \<Rightarrow> True | _ \<Rightarrow> False)"

subsection \<open>Calls that change the tree\<close>

text \<open>\<open>fopen(path, "w+")\<close>, the text that is printed into the file, \<open>fclose\<close>. \<open>None\<close>: no file was opened.\<close>

definition write_text :: "cstring \<Rightarrow> byte list \<Rightarrow> tree \<Rightarrow> tree option" where
  "write_text path txt t =
     (case walk t [] (components path) of
        None \<Rightarrow> None
      | Some p \<Rightarrow>
          if p = [] \<or> ends_with_slash path \<or> node_at t p = Some Directory
             \<or> (butlast p \<noteq> [] \<and> node_at t (butlast p) \<noteq> Some Directory) then None
          else Some (AList.update p (Regular txt) t))"

definition has_entries :: "tree \<Rightarrow> cstring list \<Rightarrow> bool" where
  "has_entries t p \<longleftrightarrow> (\<exists>q \<in> set (map fst t). q \<noteq> [] \<and> butlast q = p)"

text \<open>\<open>remove\<close> of stdio.h: a file, or an empty directory.\<close>

definition posix_remove :: "cstring \<Rightarrow> tree \<Rightarrow> tree option" where
  "posix_remove path t =
     (case walk t [] (components path) of
        None \<Rightarrow> None
      | Some p \<Rightarrow>
          (case lookup_path t path of
             None \<Rightarrow> None
           | Some (Regular c) \<Rightarrow> Some (AList.delete p t)
           | Some Directory \<Rightarrow>
               if p = [] \<or> has_entries t p then None else Some (AList.delete p t)))"

definition posix_mkdir :: "cstring \<Rightarrow> tree \<Rightarrow> tree" where
  "posix_mkdir path t =
     (case walk t [] (components path) of
        None \<Rightarrow> t
      | Some p \<Rightarrow>
          if p = [] \<or> node_at t p \<noteq> None \<or> (butlast p \<noteq> [] \<and> node_at t (butlast p) \<noteq> Some Directory) then t
          else AList.update p Directory t)"

definition posix_rmdir :: "cstring \<Rightarrow> tree \<Rightarrow> tree" where
  "posix_rmdir path t =
     (if lookup_path t path = Some Directory then
        (case posix_remove path t of None \<Rightarrow> t | Some t' \<Rightarrow> t')
      else t)"

text \<open>A directory that cannot be opened counts as empty.\<close>

definition isDirectoryEmpty :: "cstring \<Rightarrow> tree \<Rightarrow> int" where
  "isDirectoryEmpty path t =
     (if lookup_path t path \<noteq> Some Directory then 1
      else case walk t [] (components path) of
             None \<Rightarrow> 1
           | Some p \<Rightarrow> if has_entries t p then 0 else 1)"

subsection \<open>Memory mappings of a file\<close>

text \<open>
  A mapping of \<open>n\<close> bytes covers whole pages. Behind the end of the file its last page holds zeros,
  which are not written back; the pages behind that one are not there.
\<close>

definition whole_pages :: "nat \<Rightarrow> nat \<Rightarrow> nat" where
  "whole_pages pg n = (n + pg - 1) div pg * pg"

definition mapped_limit :: "nat \<Rightarrow> nat \<Rightarrow> byte list \<Rightarrow> nat" where
  "mapped_limit pg n c = min (whole_pages pg n) (whole_pages pg (length c))"

definition mapped_read :: "nat \<Rightarrow> nat \<Rightarrow> byte list \<Rightarrow> int \<Rightarrow> nat \<Rightarrow> byte list option" where
  "mapped_read pg n c a k =
     (if 0 \<le> a \<and> nat a + k \<le> mapped_limit pg n c
      then Some (peek (nat a) k (c @ replicate (nat a + k) 0)) else None)"

definition mapped_write :: "nat \<Rightarrow> nat \<Rightarrow> byte list \<Rightarrow> int \<Rightarrow> byte list \<Rightarrow> byte list option" where
  "mapped_write pg n c a bs =
     (if 0 \<le> a \<and> nat a + length bs \<le> mapped_limit pg n c
      then Some (take (length c) (poke (nat a) bs (c @ replicate (nat a + length bs) 0))) else None)"

text \<open>What a mapping of an existing file leaves in it.\<close>

definition store_mapped :: "cstring \<Rightarrow> byte list \<Rightarrow> tree \<Rightarrow> tree" where
  "store_mapped path c t =
     (case walk t [] (components path) of None \<Rightarrow> t | Some p \<Rightarrow> AList.update p (Regular c) t)"

subsection \<open>Lemmas on paths\<close>

lemma split_slash_acc: "47 \<notin> set a \<Longrightarrow> split_slash acc (a @ r) = split_slash (acc @ a) r"
  by (induction a arbitrary: acc) auto

lemma split_slash_append: "split_slash acc (a @ 47 # b) = split_slash acc a @ split_slash [] b"
  by (induction a arbitrary: acc) auto

lemma components_join [simp]: "components (a @ 47 # b) = components a @ components b"
  by (simp add: components_def split_slash_append)

lemma components_slash_end [simp]: "components (a @ [47]) = components a"
  using components_join [of a "[]"] by (simp add: components_def)

lemma components_slash [simp]: "components (47 # b) = components b"
  by (simp add: components_def)

lemma components_name [simp]: "47 \<notin> set a \<Longrightarrow> components a = (if a = [] then [] else [a])"
  using split_slash_acc [of a "[]" "[]"] by (simp add: components_def)

lemma components_nonempty: "c \<in> set (components p) \<Longrightarrow> c \<noteq> [] \<and> 47 \<notin> set c"
proof -
  have "47 \<notin> set acc \<Longrightarrow> c \<in> set (split_slash acc p) \<Longrightarrow> c \<noteq> [] \<and> 47 \<notin> set c" for acc
    by (induction acc p rule: split_slash.induct) (auto split: if_splits)
  from this [of "[]"] show "c \<in> set (components p) \<Longrightarrow> c \<noteq> [] \<and> 47 \<notin> set c"
    by (simp add: components_def)
qed

definition plain :: "cstring list \<Rightarrow> bool" where
  "plain cs \<longleftrightarrow> (\<forall>c \<in> set cs. c \<noteq> str ''.'' \<and> c \<noteq> str ''..'')"

definition dirs_to :: "tree \<Rightarrow> cstring list \<Rightarrow> bool" where
  "dirs_to t p \<longleftrightarrow> (\<forall>k. 0 < k \<longrightarrow> k < length p \<longrightarrow> node_at t (take k p) = Some Directory)"

lemma walk_plain:
  "plain cs \<Longrightarrow> walk t here cs =
     (if \<forall>k < length cs. here @ take k cs \<noteq> [] \<longrightarrow> node_at t (here @ take k cs) = Some Directory
      then Some (here @ cs) else None)"
proof (induction cs arbitrary: here)
  case (Cons c cs)
  have all: "(\<forall>k < length (c # cs). here @ take k (c # cs) \<noteq> [] \<longrightarrow> node_at t (here @ take k (c # cs)) = Some Directory)
     \<longleftrightarrow> (here \<noteq> [] \<longrightarrow> node_at t here = Some Directory)
       \<and> (\<forall>k < length cs. (here @ [c]) @ take k cs \<noteq> [] \<longrightarrow> node_at t ((here @ [c]) @ take k cs) = Some Directory)"
    by (simp add: All_less_Suc2)
  show ?case using Cons.prems Cons.IH [of "here @ [c]"] unfolding all by (auto simp: plain_def)
qed simp

lemma walk_root: "plain cs \<Longrightarrow> walk t [] cs = (if dirs_to t cs then Some cs else None)"
  unfolding walk_plain dirs_to_def by (cases cs) (auto simp: less_Suc_eq_0_disj)

lemma dirs_to_append:
  "dirs_to t (p @ q) \<longleftrightarrow> dirs_to t p \<and> (p \<noteq> [] \<longrightarrow> q \<noteq> [] \<longrightarrow> node_at t p = Some Directory)
     \<and> (\<forall>k. 0 < k \<longrightarrow> k < length q \<longrightarrow> node_at t (p @ take k q) = Some Directory)"
proof
  assume a: "dirs_to t (p @ q)"
  show "dirs_to t p \<and> (p \<noteq> [] \<longrightarrow> q \<noteq> [] \<longrightarrow> node_at t p = Some Directory)
     \<and> (\<forall>k. 0 < k \<longrightarrow> k < length q \<longrightarrow> node_at t (p @ take k q) = Some Directory)"
  proof (intro conjI allI impI)
    show "dirs_to t p"
      unfolding dirs_to_def
    proof (intro allI impI)
      fix k assume "0 < k" "k < length p"
      then show "node_at t (take k p) = Some Directory" using a [unfolded dirs_to_def, rule_format, of k] by simp
    qed
  next
    assume "p \<noteq> []" "q \<noteq> []"
    then show "node_at t p = Some Directory" using a [unfolded dirs_to_def, rule_format, of "length p"] by simp
  next
    fix k assume "0 < k" "k < length q"
    then show "node_at t (p @ take k q) = Some Directory"
      using a [unfolded dirs_to_def, rule_format, of "length p + k"] by simp
  qed
next
  assume a: "dirs_to t p \<and> (p \<noteq> [] \<longrightarrow> q \<noteq> [] \<longrightarrow> node_at t p = Some Directory)
     \<and> (\<forall>k. 0 < k \<longrightarrow> k < length q \<longrightarrow> node_at t (p @ take k q) = Some Directory)"
  show "dirs_to t (p @ q)"
    unfolding dirs_to_def
  proof (intro allI impI)
    fix k assume k: "0 < k" "k < length (p @ q)"
    consider "k < length p" | "k = length p" | "length p < k" by linarith
    then show "node_at t (take k (p @ q)) = Some Directory"
    proof cases
      case 1 then show ?thesis using a k by (simp add: dirs_to_def)
    next
      case 2 then show ?thesis using a k by auto
    next
      case 3
      have "node_at t (p @ take (k - length p) q) = Some Directory"
        using a 3 k by auto
      then show ?thesis using 3 by simp
    qed
  qed
qed

lemma at_update [simp]: "node_at (AList.update p n t) q = (if q = p then Some n else node_at t q)"
  by (simp add: update_conv')

lemma at_delete [simp]: "node_at (AList.delete p t) q = (if q = p then None else node_at t q)"
  by (auto simp: delete_conv')

end
