(* ===== verification/FS_Disk.thy ===== *)
theory FS_Disk
  imports FS_Tree
begin

text \<open>
  The state of the FileSystem process and its helpers: \<open>FileSystem/src/commons/declarations.h\<close>,
  \<open>functions/bitmap.c\<close>, \<open>functions/auxiliares.c\<close>, and the reading and writing of a file's metadata
  in \<open>functions/config.c\<close>.

  The bitmap file is mapped for as long as the process runs: \<open>bitmap\<close> is its bits, of which the
  bit array of the commons library takes \<open>cantidadBloques / 8\<close> bytes; a bit outside the mapping
  is a fault. The block with number \<open>n\<close> is the file \<open>Bloques/n.bin\<close>, a file of the user has its
  size and the numbers of its blocks as text under \<open>Archivos\<close>.

  What is not in the repository is in \<open>fs_env\<close>: \<open>string_split\<close> and the configuration reader of the
  commons library, the shell behind \<open>system\<close>, and what memory holds before it is set.
  \<open>sprintf\<close> into the one byte of \<open>string_new\<close> is taken to fit, which \<open>malloc\<close>'s smallest block allows.
\<close>

record fs_env =
  string_split :: "cstring \<Rightarrow> cstring list"                \<comment> \<open>at the slashes\<close>
  config_get_int_value :: "byte list \<Rightarrow> cstring \<Rightarrow> int"
  config_get_array_value :: "byte list \<Rightarrow> cstring \<Rightarrow> cstring list"
  shell :: "cstring \<Rightarrow> tree \<Rightarrow> tree"
  page_bytes :: nat
  junk_int :: int
  junk_path :: cstring
  junk_mem :: "nat \<Rightarrow> byte"

record fs =
  fsenv :: fs_env
  punto_montaje :: cstring
  tamanioBloques :: int
  cantidadBloques :: int
  bitmap :: "bool list"
  tree :: tree
  socketKernel :: sock

record t_metadata_archivo =
  tamanio :: int
  bloques :: "int list"

subsection \<open>bitmap.c\<close>

definition bitarray_get_max_bit :: "fs \<Rightarrow> nat" where
  "bitarray_get_max_bit d = nat (cantidadBloques d div 8) * 8"

definition bitarray_test_bit :: "fs \<Rightarrow> int \<Rightarrow> fault + bool" where
  "bitarray_test_bit d i =
     (if 0 \<le> i \<and> nat i < length (bitmap d) then Inr (bitmap d ! nat i) else Inl Buffer_Overflow)"

definition bitarray_put_bit :: "bool \<Rightarrow> int \<Rightarrow> fs \<Rightarrow> fault + fs" where
  "bitarray_put_bit v i d =
     (if 0 \<le> i \<and> nat i < length (bitmap d) then Inr (d\<lparr>bitmap := (bitmap d)[nat i := v]\<rparr>)
      else Inl Buffer_Overflow)"

fun first_free :: "nat \<Rightarrow> int \<Rightarrow> fs \<Rightarrow> fault + int" where
  "first_free 0 posLibre d = Inr (-1)"
| "first_free (Suc n) posLibre d =
     and_then (bitarray_test_bit d posLibre) (\<lambda>used.
       if \<not> used then Inr posLibre else first_free n (posLibre + 1) d)"

definition encontrarUnBloqueLibre :: "fs \<Rightarrow> fault + int" where
  "encontrarUnBloqueLibre d = first_free (bitarray_get_max_bit d) 0 d"

fun count_up_to :: "int \<Rightarrow> nat \<Rightarrow> int \<Rightarrow> int \<Rightarrow> fs \<Rightarrow> fault + bool" where
  "count_up_to needed 0 i free d = Inr False"
| "count_up_to needed (Suc n) i free d =
     and_then (bitarray_test_bit d i) (\<lambda>used.
       if \<not> used \<and> free + 1 = needed then Inr True
       else count_up_to needed n (i + 1) (if used then free else free + 1) d)"

definition hayNBloquesLibres :: "int \<Rightarrow> fs \<Rightarrow> fault + bool" where
  "hayNBloquesLibres cantBloquesNecesitados d =
     count_up_to cantBloquesNecesitados (bitarray_get_max_bit d) 0 0 d"

definition ocuparBloqueLibre :: "int \<Rightarrow> fs \<Rightarrow> fault + fs" where
  "ocuparBloqueLibre posBloqueLibre d = bitarray_put_bit True posBloqueLibre d"

definition liberarBloqueDelBitmap :: "int \<Rightarrow> fs \<Rightarrow> fault + fs" where
  "liberarBloqueDelBitmap bloque d = bitarray_put_bit False bloque d"

fun count_unused :: "nat \<Rightarrow> int \<Rightarrow> int \<Rightarrow> fs \<Rightarrow> fault + int" where
  "count_unused 0 i bloquesLibres d = Inr bloquesLibres"
| "count_unused (Suc n) i bloquesLibres d =
     and_then (bitarray_test_bit d i) (\<lambda>used.
       count_unused n (i + 1) (if used then bloquesLibres else bloquesLibres + 1) d)"

definition cantBloquesLibresBitmap :: "fs \<Rightarrow> fault + int" where
  "cantBloquesLibresBitmap d = count_unused (nat (cantidadBloques d)) 0 0 d"

subsection \<open>Paths, auxiliares.c\<close>

definition armarPathMetadataFS :: "fs \<Rightarrow> cstring" where
  "armarPathMetadataFS d = punto_montaje d @ str ''Metadata/Metadata.bin''"

definition armarPathArchivo :: "cstring \<Rightarrow> fs \<Rightarrow> cstring" where
  "armarPathArchivo pathDelKernel d =
     punto_montaje d
     @ (if pathDelKernel \<noteq> [] \<and> hd pathDelKernel = 47 then str ''Archivos'' else str ''Archivos/'')
     @ pathDelKernel"

definition armarPathBloqueDatos :: "int \<Rightarrow> fs \<Rightarrow> cstring" where
  "armarPathBloqueDatos numeroBloque d =
     punto_montaje d @ str ''Bloques/'' @ sprintf_i numeroBloque @ str ''.bin''"

subsection \<open>A file's metadata\<close>

definition crearArchivo :: "cstring \<Rightarrow> int \<Rightarrow> fs \<Rightarrow> int \<times> fs" where
  "crearArchivo path posBloqueLibre d =
     (case write_text path (str ''TAMANIO=0'' @ [10] @ str ''BLOQUES=['' @ sprintf_i posBloqueLibre @ str '']'')
             (tree d) of
        Some t \<Rightarrow> (1, d\<lparr>tree := t\<rparr>)
      | None \<Rightarrow> (- ENOENT, d))"

definition read_fileMetadata :: "cstring \<Rightarrow> fs \<Rightarrow> fault + t_metadata_archivo" where
  "read_fileMetadata path d =
     (case lookup_path (tree d) path of
        Some (Regular c) \<Rightarrow>
          Inr \<lparr>tamanio = config_get_int_value (fsenv d) c (str ''TAMANIO''),
               bloques = map atoi (config_get_array_value (fsenv d) c (str ''BLOQUES''))\<rparr>
      | _ \<Rightarrow> Inl Null_Deref)"

text \<open>The last character, a comma when the file has a block, becomes the bracket.\<close>

definition metadata_text :: "t_metadata_archivo \<Rightarrow> byte list" where
  "metadata_text archivo =
     butlast (str ''TAMANIO='' @ sprintf_i (tamanio archivo) @ [10] @ str ''BLOQUES=[''
              @ concat (map (\<lambda>b. sprintf_i b @ str '','') (bloques archivo))) @ str '']''"

definition metadataFS_write :: "cstring \<Rightarrow> t_metadata_archivo \<Rightarrow> fs \<Rightarrow> fault + fs" where
  "metadataFS_write path archivo d =
     (case posix_remove path (tree d) of
        None \<Rightarrow> Inr d
      | Some t \<Rightarrow>
          (case write_text path (metadata_text archivo) t of
             None \<Rightarrow> Inl Null_Deref
           | Some t' \<Rightarrow> Inr (d\<lparr>tree := t'\<rparr>)))"

definition eliminarMetadataArchivo :: "cstring \<Rightarrow> fs \<Rightarrow> fs" where
  "eliminarMetadataArchivo path d =
     (case posix_remove path (tree d) of None \<Rightarrow> d | Some t \<Rightarrow> d\<lparr>tree := t\<rparr>)"

text \<open>\<open>list_get\<close> of the commons library answers \<open>NULL\<close> outside the list, here the number 0.\<close>

definition list_get :: "int list \<Rightarrow> int \<Rightarrow> int" where
  "list_get xs i = (if 0 \<le> i \<and> nat i < length xs then xs ! nat i else 0)"

definition avanzarBloque :: "t_metadata_archivo \<Rightarrow> int \<Rightarrow> int" where
  "avanzarBloque archivo desplazamientoHastaElBloque =
     (if int (length (bloques archivo)) > desplazamientoHastaElBloque
      then list_get (bloques archivo) desplazamientoHastaElBloque else -1)"

subsection \<open>Directories\<close>

definition run_shell :: "cstring \<Rightarrow> fs \<Rightarrow> fs" where
  "run_shell comando d = d\<lparr>tree := shell (fsenv d) comando (tree d)\<rparr>"

text \<open>The first \<open>n\<close> parts, each with a slash; the part behind the last one is null.\<close>

definition join_parts :: "cstring list \<Rightarrow> nat \<Rightarrow> fault + cstring" where
  "join_parts arrayPath n =
     (if n \<le> length arrayPath then Inr (concat (map (\<lambda>p. p @ str ''/'') (take n arrayPath)))
      else Inl Null_Deref)"

fun remove_upwards :: "cstring list \<Rightarrow> cstring \<Rightarrow> nat \<Rightarrow> fs \<Rightarrow> fault + fs" where
  "remove_upwards arrayPath directorioNoBorrable n d =
     and_then (join_parts arrayPath n) (\<lambda>dir.
       if directorioNoBorrable \<noteq> dir \<and> isDirectoryEmpty dir (tree d) = 1
       then (let d1 = run_shell (str ''rmdir '' @ dir) d in
             case n of 0 \<Rightarrow> Inr d1 | Suc m \<Rightarrow> remove_upwards arrayPath directorioNoBorrable m d1)
       else Inr d)"

text \<open>The counter of the directories starts at whatever its memory held.\<close>

definition borrarDirectorioSiEstaVacio :: "cstring \<Rightarrow> fs \<Rightarrow> fault + fs" where
  "borrarDirectorioSiEstaVacio pathConArchivo d =
     (let arrayPath = string_split (fsenv d) pathConArchivo in
      if arrayPath = [] then Inl Buffer_Overflow
      else let cant = junk_int (fsenv d) + int (length arrayPath - 1) in
           if cant < 0 then Inr d
           else remove_upwards arrayPath (punto_montaje d @ str ''Archivos/'') (nat cant) d)"

fun no_file_in_the_way :: "cstring \<Rightarrow> cstring list \<Rightarrow> fs \<Rightarrow> bool" where
  "no_file_in_the_way directorio (p # q # ps) d =
     (if is_regular_file (tree d) (directorio @ p) then False
      else no_file_in_the_way (directorio @ p @ str ''/'') (q # ps) d)"
| "no_file_in_the_way directorio _ d = True"

definition seVanAPoderCrearLosDirectoriosNecesarios :: "cstring \<Rightarrow> fs \<Rightarrow> fault + bool" where
  "seVanAPoderCrearLosDirectoriosNecesarios pathDelKernel d =
     (let parts = string_split (fsenv d) pathDelKernel in
      if parts = [] then Inl Buffer_Overflow
      else Inr (no_file_in_the_way (punto_montaje d @ str ''Archivos/'') parts d))"

fun make_directories :: "cstring \<Rightarrow> cstring list \<Rightarrow> fs \<Rightarrow> fs" where
  "make_directories directorio (p # q # ps) d =
     make_directories (directorio @ p @ str ''/'') (q # ps)
       (run_shell (str ''mkdir '' @ directorio @ p) d)"
| "make_directories directorio _ d = d"

definition crearDirectoriosNecesarios :: "cstring \<Rightarrow> fs \<Rightarrow> fault + fs" where
  "crearDirectoriosNecesarios pathDelKernel d =
     (let parts = string_split (fsenv d) pathDelKernel in
      if parts = [] then Inl Buffer_Overflow
      else Inr (make_directories (punto_montaje d @ str ''Archivos/'') parts d))"

end
