(* ===== verification/FS_Operations.thy ===== *)
theory FS_Operations
  imports FS_Disk "HOL-Library.Log_Nat"
begin

text \<open>
  The operations of the FileSystem process, \<open>functions/operaciones.c\<close>, and the requests of the
  Kernel, \<open>functions/handler.c\<close> and the loop of \<open>FileSystem.c\<close>.

  \<open>off_t\<close> and \<open>size_t\<close> have 64 bits; their sum is taken modulo \<open>2 ^ 64\<close>. The number of new blocks is
  computed in single precision: \<open>to_float a b\<close> is the quotient of two positive numbers rounded to
  24 significant bits, as a pair of a numerator and a binary exponent. The first test of
  \<open>guardarDatos\<close> is always true when a block has no bytes, so nothing behind it divides by zero.
\<close>

subsection \<open>Single precision\<close>

definition div_half_even :: "nat \<Rightarrow> nat \<Rightarrow> nat" where
  "div_half_even a b =
     (let q = a div b; r = a mod b in
      if 2 * r < b then q else if b < 2 * r then q + 1 else if even q then q else q + 1)"

text \<open>The quotient \<open>a / (b * 2 ^ e)\<close> with both sides scaled to natural numbers.\<close>

definition scaled :: "nat \<Rightarrow> nat \<Rightarrow> int \<Rightarrow> nat \<times> nat" where
  "scaled a b e = (if 0 \<le> e then (a, b * 2 ^ nat e) else (a * 2 ^ nat (- e), b))"

definition float_exponent :: "nat \<Rightarrow> nat \<Rightarrow> int" where
  "float_exponent a b =
     (let e = int (floorlog 2 a) - int (floorlog 2 b) - 24; (n, m) = scaled a b e
      in if 2 ^ 24 * m \<le> n then e + 1 else e)"

definition to_float :: "nat \<Rightarrow> nat \<Rightarrow> nat \<times> int" where
  "to_float a b =
     (if a = 0 then (0, 0)
      else let e = float_exponent a b; (n, m) = scaled a b e in (div_half_even n m, e))"

definition float_of_int :: "nat \<Rightarrow> nat" where
  "float_of_int x = (case to_float x 1 of (m, e) \<Rightarrow> if 0 \<le> e then m * 2 ^ nat e else m div 2 ^ nat (- e))"

definition ceil_float :: "nat \<times> int \<Rightarrow> nat" where
  "ceil_float v =
     (case v of (m, e) \<Rightarrow>
        if 0 \<le> e then m * 2 ^ nat e else (m + 2 ^ nat (- e) - 1) div 2 ^ nat (- e))"

definition ceil_quotient :: "nat \<Rightarrow> nat \<Rightarrow> nat" where
  "ceil_quotient x t = ceil_float (to_float (float_of_int x) (float_of_int t))"

subsection \<open>Finding, creating and deleting\<close>

definition validar :: "cstring \<Rightarrow> fs \<Rightarrow> int" where
  "validar path d = (if is_regular_file (tree d) path then 1 else - ENOENT)"

definition crear :: "cstring \<Rightarrow> cstring \<Rightarrow> fs \<Rightarrow> fault + int \<times> fs" where
  "crear path pathConPuntoMontaje d =
     (if validar pathConPuntoMontaje d = 1 then Inr (- ENOENT, d)
      else and_then (encontrarUnBloqueLibre d) (\<lambda>posBloqueLibre.
        if posBloqueLibre \<ge> 0 then
          and_then (ocuparBloqueLibre posBloqueLibre d) (\<lambda>d1.
            case crearArchivo pathConPuntoMontaje posBloqueLibre d1 of (made, d2) \<Rightarrow>
            if made = 1 then Inr (1, d2)
            else and_then (seVanAPoderCrearLosDirectoriosNecesarios path d2) (\<lambda>can.
              if can then and_then (crearDirectoriosNecesarios path d2) (\<lambda>d3.
                 Inr (1, snd (crearArchivo pathConPuntoMontaje posBloqueLibre d3)))
              else Inr (- ENOENT, snd (crearArchivo pathConPuntoMontaje posBloqueLibre d2))))
        else Inr (- ENOENT, d)))"

fun release_all :: "int list \<Rightarrow> fs \<Rightarrow> fault + fs" where
  "release_all [] d = Inr d"
| "release_all (b # bs) d = and_then (liberarBloqueDelBitmap b d) (release_all bs)"

definition borrar :: "cstring \<Rightarrow> fs \<Rightarrow> fault + int \<times> fs" where
  "borrar path d =
     (if validar path d = 1 then
        and_then (read_fileMetadata path d) (\<lambda>archivo.
        and_then (release_all (bloques archivo) d) (\<lambda>d1.
        and_then (borrarDirectorioSiEstaVacio path (eliminarMetadataArchivo path d1)) (\<lambda>d2.
          Inr (1, d2))))
      else Inr (- ENOENT, d))"

subsection \<open>Reading\<close>

text \<open>
  The size of the answer for a read of \<open>iSize\<close> bytes at \<open>offset\<close>; \<open>None\<close> when the offset is refused.
  The five branches of the code, which also allocate that many bytes.
\<close>

definition read_size :: "int \<Rightarrow> int \<Rightarrow> int \<Rightarrow> int option" where
  "read_size offset iSize fileSize =
     (if offset = 0 \<and> iSize \<le> fileSize then Some iSize
      else if offset = 0 \<and> iSize > fileSize then Some fileSize
      else if offset > 0 \<and> offset \<le> fileSize \<and> iSize + offset = fileSize then Some iSize
      else if offset > 0 \<and> offset \<le> fileSize \<and> iSize + offset > fileSize then Some (fileSize - offset)
      else if offset > 0 \<and> offset \<le> fileSize \<and> iSize + offset < fileSize then Some iSize
      else None)"

text \<open>
  How many bytes one turn copies, and what \<open>desplazamiento\<close> is behind it. In the last branch the
  code also takes the offset away from it.
\<close>

definition read_turn :: "int \<Rightarrow> int \<Rightarrow> int \<Rightarrow> int \<Rightarrow> int \<Rightarrow> int \<Rightarrow> int \<times> int" where
  "read_turn bs offset iSize fileSize byteComienzo desplazamiento =
     (if fileSize - desplazamiento - offset \<ge> bs - byteComienzo then
        (if iSize - desplazamiento \<ge> bs - byteComienzo
         then (bs - byteComienzo, desplazamiento + (bs - byteComienzo))
         else (iSize - desplazamiento, desplazamiento + (iSize - desplazamiento)))
      else (iSize - desplazamiento, desplazamiento + (iSize - desplazamiento - offset)))"

function read_blocks ::
    "fs \<Rightarrow> t_metadata_archivo \<Rightarrow> int \<Rightarrow> int \<Rightarrow> int \<Rightarrow> int \<Rightarrow> int \<Rightarrow> byte list \<Rightarrow> fault + byte list" where
  "read_blocks d archivo offset iSize byteComienzo desplazamiento pos buf =
     (if avanzarBloque archivo pos = -1 \<or> iSize - desplazamiento \<le> 0
         \<or> tamanio archivo - desplazamiento - offset \<le> 0 then Inr buf
      else case lookup_path (tree d) (armarPathBloqueDatos (avanzarBloque archivo pos) d) of
             Some (Regular c) \<Rightarrow>
               (case read_turn (tamanioBloques d) offset iSize (tamanio archivo) byteComienzo desplazamiento of
                  (n, desplazamiento') \<Rightarrow>
                  (case mapped_read (page_bytes (fsenv d)) (nat (tamanioBloques d)) c byteComienzo (nat n) of
                     None \<Rightarrow> Inl Buffer_Overflow
                   | Some bs \<Rightarrow>
                       (case blk_write buf desplazamiento bs of
                          None \<Rightarrow> Inl Buffer_Overflow
                        | Some buf' \<Rightarrow> read_blocks d archivo offset iSize 0 desplazamiento' (pos + 1) buf')))
           | _ \<Rightarrow> Inl Buffer_Overflow)"
  by pat_completeness auto
termination
  by (relation "measure (\<lambda>(d, archivo, offset, iSize, byteComienzo, desplazamiento, pos, buf).
        nat (int (length (bloques archivo)) - pos))") (auto simp: avanzarBloque_def split: if_splits)

declare read_blocks.simps [simp del]

definition obtenerDatos :: "cstring \<Rightarrow> int \<Rightarrow> int \<Rightarrow> fs \<Rightarrow> fault + int \<times> byte list" where
  "obtenerDatos path offset sz d =
     (if validar path d = 1 then
        and_then (read_fileMetadata path d) (\<lambda>archivo.
          if tamanioBloques d = 0 then Inl Div_By_Zero
          else let desplazamientoHastaElBloque = c_quot offset (tamanioBloques d) in
            case read_size offset sz (tamanio archivo) of
              None \<Rightarrow> Inr (-1, [])
            | Some iSize \<Rightarrow>
                and_then (read_blocks d archivo offset iSize
                    (offset - desplazamientoHastaElBloque * tamanioBloques d) 0 desplazamientoHastaElBloque
                    (map (junk_mem (fsenv d)) [0..<nat iSize]))
                  (\<lambda>buf. Inr (iSize, buf)))
      else Inr (- ENOENT, []))"

subsection \<open>Writing\<close>

definition ulong :: "int \<Rightarrow> int" where
  "ulong x = x mod 2 ^ 64"

definition new_blocks :: "int \<Rightarrow> int \<Rightarrow> nat \<Rightarrow> fs \<Rightarrow> int" where
  "new_blocks offset sz count d =
     (let fin = ulong (offset + sz); present = ulong (int count * tamanioBloques d) in
      if fin > present then int (ceil_quotient (nat (ulong (fin - present))) (nat (tamanioBloques d))) else 0)"

fun assign_blocks :: "nat \<Rightarrow> t_metadata_archivo \<Rightarrow> fs \<Rightarrow> fault + t_metadata_archivo \<times> fs" where
  "assign_blocks 0 archivo d = Inr (archivo, d)"
| "assign_blocks (Suc n) archivo d =
     and_then (encontrarUnBloqueLibre d) (\<lambda>pos.
     and_then (ocuparBloqueLibre pos d)
       (assign_blocks n (archivo\<lparr>bloques := bloques archivo @ [pos]\<rparr>)))"

text \<open>One turn of the loop: the bytes that go into the block, cut off at the end of the buffer's rest.\<close>

definition write_block ::
    "byte list \<Rightarrow> int \<Rightarrow> int \<Rightarrow> int \<Rightarrow> int \<Rightarrow> t_metadata_archivo \<Rightarrow> fs \<Rightarrow> fault + int option \<times> fs" where
  "write_block buffer sz byteComienzo sizeAux pos archivo d =
     (let path = armarPathBloqueDatos (list_get (bloques archivo) pos) d in
      case lookup_path (tree d) path of
        Some (Regular c) \<Rightarrow>
          if tamanioBloques d \<le> 0 then Inr (Some (- ENOENT), d)
          else
            let n = (if sizeAux \<le> tamanioBloques d then sizeAux else tamanioBloques d) in
            (case blk_read buffer (sz - sizeAux) (nat n) of
               None \<Rightarrow> Inl Buffer_Overflow
             | Some bs \<Rightarrow>
                 (case mapped_write (page_bytes (fsenv d)) (nat (tamanioBloques d)) c byteComienzo bs of
                    None \<Rightarrow> Inl Buffer_Overflow
                  | Some c' \<Rightarrow>
                      Inr (None, d\<lparr>tree := store_mapped path c' (tree d)\<rparr>)))
      | _ \<Rightarrow> Inr (Some (-1), d))"

function write_blocks ::
    "byte list \<Rightarrow> int \<Rightarrow> int \<Rightarrow> int \<Rightarrow> int \<Rightarrow> t_metadata_archivo \<Rightarrow> fs \<Rightarrow> fault + int option \<times> fs" where
  "write_blocks buffer sz byteComienzo sizeAux pos archivo d =
     (if sizeAux > 0 then
        and_then (write_block buffer sz byteComienzo sizeAux pos archivo d) (\<lambda>(failed, d1).
          case failed of
            Some r \<Rightarrow> Inr (Some r, d1)
          | None \<Rightarrow>
              write_blocks buffer sz 0 (sizeAux - (tamanioBloques d - byteComienzo)) (pos + 1) archivo d1)
      else Inr (None, d))"
  by pat_completeness auto
termination
  by (relation "measures
        [\<lambda>(buffer, sz, byteComienzo, sizeAux, pos, archivo, d). if byteComienzo = 0 then 0 else 1,
         \<lambda>(buffer, sz, byteComienzo, sizeAux, pos, archivo, d). nat sizeAux]")
    (auto simp: write_block_def Let_def split: option.splits node.splits if_splits)

declare write_blocks.simps [simp del]

definition guardarDatos :: "cstring \<Rightarrow> int \<Rightarrow> int \<Rightarrow> byte list \<Rightarrow> fs \<Rightarrow> fault + int \<times> fs" where
  "guardarDatos path offset sz buffer d =
     (if ulong (offset + sz) \<ge> ulong (cantidadBloques d * tamanioBloques d) then Inr (- ENOSPC, d)
      else if sz = 0 then Inr (- ENOENT, d)
      else if validar path d = 1 then
        and_then (read_fileMetadata path d) (\<lambda>archivo.
          let nuevos = new_blocks offset sz (length (bloques archivo)) d in
          and_then (if nuevos > 0 then hayNBloquesLibres nuevos d else Inr True) (\<lambda>room.
            if \<not> room then Inr (- ENOSPC, d)
            else let pos = c_quot offset (tamanioBloques d) in
              and_then (assign_blocks (nat nuevos) archivo d) (\<lambda>(archivo1, d1).
              and_then (write_blocks buffer sz (offset - pos * tamanioBloques d) (int_of_wide sz) pos archivo1 d1)
                (\<lambda>(failed, d2).
                  case failed of
                    Some r \<Rightarrow> Inr (r, d2)
                  | None \<Rightarrow>
                      let archivo2 = (if ulong (offset + sz) > ulong (tamanio archivo1)
                            then archivo1\<lparr>tamanio := int_of_wide (offset + sz)\<rparr> else archivo1) in
                      and_then (metadataFS_write path archivo2 d2) (\<lambda>d3. Inr (1, d3))))))
      else Inr (- ENOENT, d))"

subsection \<open>Requests of the Kernel\<close>

definition fs_recv_int :: "fs \<Rightarrow> int \<times> fs" where
  "fs_recv_int d =
     (case socket_recv_int (socketKernel d) of
        (n, v, s) \<Rightarrow> (if n > 0 then v else junk_int (fsenv d), d\<lparr>socketKernel := s\<rparr>))"

definition answer_int :: "int \<Rightarrow> fs \<Rightarrow> fs" where
  "answer_int v d = d\<lparr>socketKernel := snd (socket_send_int (socketKernel d) v)\<rparr>"

definition answer_blob :: "byte list \<Rightarrow> fs \<Rightarrow> fs" where
  "answer_blob bs d = d\<lparr>socketKernel := snd (socket_send (socketKernel d) bs)\<rparr>"

definition hacerLoQueCorresponda :: "cstring \<Rightarrow> fs \<Rightarrow> fault + fs" where
  "hacerLoQueCorresponda unMensajeDeOperacion d0 =
     (case socket_recv_string (socketKernel d0) of (_, received, s) \<Rightarrow>
      let path = (case received of Some b \<Rightarrow> cstr b | None \<Rightarrow> junk_path (fsenv d0));
          d = d0\<lparr>socketKernel := s\<rparr>;
          pathConPuntoMontaje = armarPathArchivo path d in
      if unMensajeDeOperacion = str ''VALIDAR'' then Inr (answer_int (validar pathConPuntoMontaje d) d)
      else if unMensajeDeOperacion = str ''CREAR'' then
        and_then (crear path pathConPuntoMontaje d) (\<lambda>(resultado, d1). Inr (answer_int resultado d1))
      else if unMensajeDeOperacion = str ''BORRAR'' then
        and_then (borrar pathConPuntoMontaje d) (\<lambda>(resultado, d1). Inr (answer_int resultado d1))
      else if unMensajeDeOperacion = str ''OBTENERDATOS'' then
        (case fs_recv_int d of (offset, d1) \<Rightarrow>
         case fs_recv_int d1 of (sz, d2) \<Rightarrow>
         and_then (obtenerDatos pathConPuntoMontaje offset sz d2) (\<lambda>(resultado, buffer).
           let d3 = answer_int resultado d2 in
           Inr (if resultado > 0 then answer_blob (take (nat resultado) buffer) d3 else d3)))
      else if unMensajeDeOperacion = str ''GUARDARDATOS'' then
        (case fs_recv_int d of (offset, d1) \<Rightarrow>
         case socket_recv (socketKernel d1) of (sz, received2, s2) \<Rightarrow>
         and_then (guardarDatos pathConPuntoMontaje offset sz
             (case received2 of Some b \<Rightarrow> b | None \<Rightarrow> []) (d1\<lparr>socketKernel := s2\<rparr>)) (\<lambda>(resultado, d2).
           Inr (answer_int resultado d2)))
      else Inr d)"

text \<open>One turn of the loop of \<open>FileSystem.c\<close>; \<open>None\<close> once the Kernel has gone away.\<close>

definition serve_kernel :: "fs \<Rightarrow> fault + fs option" where
  "serve_kernel d =
     (case socket_recv_string (socketKernel d) of
        (n, received, s) \<Rightarrow>
          if n > 0 then
            and_then (hacerLoQueCorresponda (case received of Some b \<Rightarrow> cstr b | None \<Rightarrow> [])
               (d\<lparr>socketKernel := s\<rparr>)) (\<lambda>d1. Inr (Some d1))
          else Inr None)"

end
