(* ===== verification/FS_Bitmap.thy ===== *)
theory FS_Bitmap
  imports FS_Operations
begin

text \<open>
  The bitmap of the FileSystem as a pool of blocks. \<open>block_pool\<close> is the interface: how to find a free
  block and how to take it; what is proved from it is that taking several blocks, one after the
  other, yields distinct free ones. The interpretation is \<open>bitmap.c\<close>.
\<close>

fun reserve :: "('s \<Rightarrow> fault + int) \<Rightarrow> (int \<Rightarrow> 's \<Rightarrow> fault + 's) \<Rightarrow> nat \<Rightarrow> 's \<Rightarrow> fault + int list \<times> 's" where
  "reserve find_block take_block 0 s = Inr ([], s)"
| "reserve find_block take_block (Suc n) s =
     and_then (find_block s) (\<lambda>b.
     and_then (take_block b s) (\<lambda>s1.
     and_then (reserve find_block take_block n s1) (\<lambda>(bs, s2). Inr (b # bs, s2))))"

locale block_pool =
  fixes find_block :: "'s \<Rightarrow> fault + int"
    and take_block :: "int \<Rightarrow> 's \<Rightarrow> fault + 's"
    and free :: "'s \<Rightarrow> int set"
    and ok :: "'s \<Rightarrow> bool"
  assumes finite_free: "ok s \<Longrightarrow> finite (free s)"
    and find_block_free: "ok s \<Longrightarrow> free s \<noteq> {} \<Longrightarrow> \<exists>b. find_block s = Inr b \<and> b \<in> free s"
    and take_block_free: "ok s \<Longrightarrow> b \<in> free s \<Longrightarrow>
      \<exists>s'. take_block b s = Inr s' \<and> ok s' \<and> free s' = free s - {b}"
begin

lemma reserve_fresh:
  "ok s \<Longrightarrow> n \<le> card (free s) \<Longrightarrow>
     \<exists>bs s'. reserve find_block take_block n s = Inr (bs, s') \<and> ok s' \<and> length bs = n
       \<and> distinct bs \<and> set bs \<subseteq> free s \<and> free s' = free s - set bs"
proof (induction n arbitrary: s)
  case (Suc n)
  have "free s \<noteq> {}" using Suc.prems(2) by auto
  then obtain b where b: "find_block s = Inr b" "b \<in> free s" using find_block_free Suc.prems(1) by blast
  obtain s1 where s1: "take_block b s = Inr s1" "ok s1" "free s1 = free s - {b}"
    using take_block_free [OF Suc.prems(1) b(2)] by blast
  have "n \<le> card (free s1)" using Suc.prems b(2) finite_free by (simp add: s1(3))
  from Suc.IH [OF s1(2) this] obtain bs s' where
    "reserve find_block take_block n s1 = Inr (bs, s')" "ok s'" "length bs = n"
    "distinct bs" "set bs \<subseteq> free s1" "free s' = free s1 - set bs" by blast
  then show ?case
    using b s1 by (intro exI [of _ "b # bs"] exI [of _ s']) auto
qed simp

end

subsection \<open>The bitmap\<close>

definition free_blocks :: "fs \<Rightarrow> int set" where
  "free_blocks d = {b. 0 \<le> b \<and> nat b < bitarray_get_max_bit d \<and> \<not> bitmap d ! nat b}"

definition bitmap_ok :: "fs \<Rightarrow> bool" where
  "bitmap_ok d \<longleftrightarrow> bitarray_get_max_bit d \<le> length (bitmap d)"

lemma finite_free_blocks: "finite (free_blocks d)"
proof -
  have "free_blocks d \<subseteq> {0..<int (bitarray_get_max_bit d)}" by (auto simp: free_blocks_def)
  then show ?thesis by (rule finite_subset) simp
qed

lemma first_free_spec:
  assumes "bitmap_ok d" "i + n = bitarray_get_max_bit d"
  shows "\<exists>b. first_free n (int i) d = Inr b
    \<and> (if \<exists>c \<in> free_blocks d. int i \<le> c then b \<in> free_blocks d \<and> (\<forall>c \<in> free_blocks d. int i \<le> c \<longrightarrow> b \<le> c)
       else b = -1)"
  using assms(2)
proof (induction n arbitrary: i)
  case 0
  then show ?case by (auto simp: free_blocks_def)
next
  case (Suc n)
  have "i < length (bitmap d)" using assms(1) Suc.prems by (simp add: bitmap_ok_def)
  then have t: "bitarray_test_bit d (int i) = Inr (bitmap d ! i)" by (simp add: bitarray_test_bit_def)
  show ?case
  proof (cases "bitmap d ! i")
    case True
    have "c \<in> free_blocks d \<Longrightarrow> int i \<le> c \<longleftrightarrow> int (Suc i) \<le> c" for c
      using True by (auto simp: free_blocks_def le_less nat_less_iff)
    then have eq: "(\<exists>c \<in> free_blocks d. int i \<le> c) \<longleftrightarrow> (\<exists>c \<in> free_blocks d. int (Suc i) \<le> c)"
      "(\<forall>c \<in> free_blocks d. int i \<le> c \<longrightarrow> b \<le> c) \<longleftrightarrow> (\<forall>c \<in> free_blocks d. int (Suc i) \<le> c \<longrightarrow> b \<le> c)" for b
      by blast+
    show ?thesis using Suc.IH [of "Suc i"] Suc.prems True t unfolding eq by (simp add: add.commute)
  next
    case False
    then have "int i \<in> free_blocks d" using Suc.prems by (simp add: free_blocks_def)
    with False t show ?thesis by auto
  qed
qed

lemma encontrar_spec:
  assumes "bitmap_ok d"
  shows "\<exists>b. encontrarUnBloqueLibre d = Inr b
    \<and> (if free_blocks d = {} then b = -1 else b \<in> free_blocks d \<and> (\<forall>c \<in> free_blocks d. b \<le> c))"
proof -
  obtain b where b: "first_free (bitarray_get_max_bit d) 0 d = Inr b"
    "if \<exists>c \<in> free_blocks d. 0 \<le> c then b \<in> free_blocks d \<and> (\<forall>c \<in> free_blocks d. 0 \<le> c \<longrightarrow> b \<le> c) else b = -1"
    using first_free_spec [OF assms, of 0] by auto
  have "c \<in> free_blocks d \<Longrightarrow> 0 \<le> c" for c by (simp add: free_blocks_def)
  with b show ?thesis by (auto simp: encontrarUnBloqueLibre_def split: if_splits)
qed

lemma ocupar_spec:
  assumes "bitmap_ok d" "b \<in> free_blocks d"
  shows "ocuparBloqueLibre b d = Inr (d\<lparr>bitmap := (bitmap d)[nat b := True]\<rparr>)"
    "bitmap_ok (d\<lparr>bitmap := (bitmap d)[nat b := True]\<rparr>)"
    "free_blocks (d\<lparr>bitmap := (bitmap d)[nat b := True]\<rparr>) = free_blocks d - {b}"
proof -
  have b: "0 \<le> b" "nat b < bitarray_get_max_bit d" "nat b < length (bitmap d)"
    using assms by (auto simp: free_blocks_def bitmap_ok_def)
  then show "ocuparBloqueLibre b d = Inr (d\<lparr>bitmap := (bitmap d)[nat b := True]\<rparr>)"
    by (simp add: ocuparBloqueLibre_def bitarray_put_bit_def)
  show "bitmap_ok (d\<lparr>bitmap := (bitmap d)[nat b := True]\<rparr>)"
    using assms(1) by (simp add: bitmap_ok_def bitarray_get_max_bit_def)
  show "free_blocks (d\<lparr>bitmap := (bitmap d)[nat b := True]\<rparr>) = free_blocks d - {b}"
    using b by (auto simp: free_blocks_def bitarray_get_max_bit_def nth_list_update nat_eq_iff2 split: if_splits)
qed

interpretation bitmap: block_pool encontrarUnBloqueLibre ocuparBloqueLibre free_blocks bitmap_ok
proof unfold_locales
  fix d b
  show "finite (free_blocks d)" by (rule finite_free_blocks)
  show "bitmap_ok d \<Longrightarrow> free_blocks d \<noteq> {} \<Longrightarrow> \<exists>b. encontrarUnBloqueLibre d = Inr b \<and> b \<in> free_blocks d"
    by (metis encontrar_spec)
  show "bitmap_ok d \<Longrightarrow> b \<in> free_blocks d \<Longrightarrow>
      \<exists>s'. ocuparBloqueLibre b d = Inr s' \<and> bitmap_ok s' \<and> free_blocks s' = free_blocks d - {b}"
    using ocupar_spec by blast
qed

text \<open>Counting stops as soon as there are enough.\<close>

lemma count_up_to_spec:
  assumes "bitmap_ok d" "i + n = bitarray_get_max_bit d" "free < needed"
  shows "count_up_to needed n (int i) free d
    = Inr (needed \<le> free + int (card {c \<in> free_blocks d. int i \<le> c}))"
  using assms(2,3)
proof (induction n arbitrary: i free)
  case 0
  then have "{c \<in> free_blocks d. int i \<le> c} = {}" by (auto simp: free_blocks_def)
  with 0 show ?case by (simp only: count_up_to.simps card.empty) simp
next
  case (Suc n)
  let ?C = "\<lambda>i. {c \<in> free_blocks d. int i \<le> c}"
  have "i < length (bitmap d)" using assms(1) Suc.prems by (simp add: bitmap_ok_def)
  then have t: "bitarray_test_bit d (int i) = Inr (bitmap d ! i)" by (simp add: bitarray_test_bit_def)
  show ?case
  proof (cases "bitmap d ! i")
    case True
    have "?C i = ?C (Suc i)"
      using True by (auto simp: free_blocks_def le_less nat_less_iff)
    with Suc.IH [of "Suc i" free] Suc.prems True t show ?thesis by (simp add: add.commute)
  next
    case False
    then have "int i \<in> free_blocks d" using Suc.prems by (simp add: free_blocks_def)
    then have C: "?C i = insert (int i) (?C (Suc i))" by auto
    have "card (?C i) = Suc (card (?C (Suc i)))" unfolding C using finite_free_blocks by (subst card_insert_disjoint) auto
    with Suc.IH [of "Suc i" "free + 1"] Suc.prems False t show ?thesis by (simp add: add.commute) linarith
  qed
qed

lemma hayN_spec:
  assumes "bitmap_ok d" "0 < n"
  shows "hayNBloquesLibres n d = Inr (n \<le> int (card (free_blocks d)))"
proof -
  have "{c \<in> free_blocks d. 0 \<le> c} = free_blocks d" by (auto simp: free_blocks_def)
  then show ?thesis
    using count_up_to_spec [OF assms(1), of 0 "bitarray_get_max_bit d" 0 n] assms(2)
    by (simp add: hayNBloquesLibres_def)
qed

text \<open>What \<open>guardarDatos\<close> does for the blocks it needs is taking them from the pool.\<close>

lemma assign_blocks_reserve:
  "assign_blocks n archivo d =
     and_then (reserve encontrarUnBloqueLibre ocuparBloqueLibre n d) (\<lambda>(bs, d').
       Inr (archivo\<lparr>bloques := bloques archivo @ bs\<rparr>, d'))"
proof (induction n arbitrary: archivo d)
  case (Suc n)
  have "assign_blocks n (archivo\<lparr>bloques := bloques archivo @ [pos]\<rparr>) d1 =
     and_then (reserve encontrarUnBloqueLibre ocuparBloqueLibre n d1) (\<lambda>(bs, d').
       Inr (archivo\<lparr>bloques := bloques archivo @ pos # bs\<rparr>, d'))" for pos d1
    using Suc by simp
  then have step: "assign_blocks n (archivo\<lparr>bloques := bloques archivo @ [pos]\<rparr>) =
     (\<lambda>d1. and_then (reserve encontrarUnBloqueLibre ocuparBloqueLibre n d1) (\<lambda>(bs, d').
       Inr (archivo\<lparr>bloques := bloques archivo @ pos # bs\<rparr>, d')))" for pos
    by blast
  show ?case unfolding assign_blocks.simps step
    by (simp add: and_then_assoc split_def)
qed simp

text \<open>Only the bits of the blocks taken change.\<close>

lemma reserve_bitmap:
  "reserve encontrarUnBloqueLibre ocuparBloqueLibre n d = Inr (bs, d') \<Longrightarrow>
     \<exists>m. d' = d\<lparr>bitmap := m\<rparr> \<and> length m = length (bitmap d)
       \<and> (\<forall>i. bitmap d ! i \<longrightarrow> i < length m \<longrightarrow> m ! i) \<and> (\<forall>b \<in> set bs. 0 \<le> b \<and> nat b < length m \<and> m ! nat b)"
proof (induction n arbitrary: d bs d')
  case 0
  then show ?case by (intro exI [of _ "bitmap d"]) simp
next
  case (Suc n)
  from Suc.prems obtain b d1 bs1 where b: "ocuparBloqueLibre b d = Inr d1"
    and r: "reserve encontrarUnBloqueLibre ocuparBloqueLibre n d1 = Inr (bs1, d')" and bs: "bs = b # bs1"
    by (auto elim!: and_thenE split: prod.split_asm)
  from b have d1: "d1 = d\<lparr>bitmap := (bitmap d)[nat b := True]\<rparr>" "0 \<le> b" "nat b < length (bitmap d)"
    by (auto simp: ocuparBloqueLibre_def bitarray_put_bit_def split: if_splits)
  from Suc.IH [OF r] obtain m where m: "d' = d1\<lparr>bitmap := m\<rparr>" "length m = length (bitmap d1)"
    "\<forall>i. bitmap d1 ! i \<longrightarrow> i < length m \<longrightarrow> m ! i" "\<forall>b \<in> set bs1. 0 \<le> b \<and> nat b < length m \<and> m ! nat b"
    by blast
  show ?case
  proof (intro exI [of _ m] conjI)
    show "\<forall>i. bitmap d ! i \<longrightarrow> i < length m \<longrightarrow> m ! i"
      using m(2,3) by (auto simp: d1 nth_list_update)
    have "m ! nat b" using m(2,3) d1 by (auto simp: nth_list_update)
    with m d1 show "\<forall>b \<in> set bs. 0 \<le> b \<and> nat b < length m \<and> m ! nat b" by (simp add: bs)
  qed (use m d1 in simp_all)
qed

end
