(* ===== verification/FS_Layout.thy ===== *)
theory FS_Layout
  imports FS_Bitmap
begin

text \<open>
  Where the FileSystem keeps things. \<open>block_key d n\<close> is the file of block \<open>n\<close>, \<open>file_key d path\<close> that of
  the user's file. \<open>fs_inv\<close> is the invariant of a disk that is in order: the directories and block
  files are there, every user file holds the text of some metadata whose blocks are marked in the
  bitmap and as many as its size needs, and no block belongs to two files.
\<close>

definition base :: "fs \<Rightarrow> cstring list" where
  "base d = components (punto_montaje d)"

definition archivos :: "fs \<Rightarrow> cstring list" where
  "archivos d = base d @ [str ''Archivos'']"

definition file_key :: "fs \<Rightarrow> cstring \<Rightarrow> cstring list" where
  "file_key d path = archivos d @ components path"

definition block_key :: "fs \<Rightarrow> int \<Rightarrow> cstring list" where
  "block_key d n = base d @ [str ''Bloques'', sprintf_i n @ str ''.bin'']"

definition block_size :: "fs \<Rightarrow> nat" where
  "block_size d = nat (tamanioBloques d)"

definition block_bytes :: "fs \<Rightarrow> int \<Rightarrow> byte list" where
  "block_bytes d n = (case node_at (tree d) (block_key d n) of Some (Regular c) \<Rightarrow> c | _ \<Rightarrow> [])"

text \<open>The bytes of a file's blocks, one after the other.\<close>

definition blocks_data :: "fs \<Rightarrow> int list \<Rightarrow> byte list" where
  "blocks_data d bl = concat (map (block_bytes d) bl)"

definition valid_block :: "fs \<Rightarrow> int \<Rightarrow> bool" where
  "valid_block d n \<longleftrightarrow> 0 \<le> n \<and> nat n < bitarray_get_max_bit d"

definition fs_ready :: "fs \<Rightarrow> bool" where
  "fs_ready d \<longleftrightarrow>
     ends_with_slash (punto_montaje d) \<and> plain (base d)
     \<and> 0 < tamanioBloques d \<and> 0 \<le> cantidadBloques d \<and> cantidadBloques d * tamanioBloques d < 2 ^ 31
     \<and> 0 < page_bytes (fsenv d) \<and> bitmap_ok d
     \<and> (\<forall>x. dirs_to (tree d) (archivos d @ [x])) \<and> (\<forall>x. dirs_to (tree d) (base d @ [str ''Bloques'', x]))
     \<and> (\<forall>n. valid_block d n \<longrightarrow>
           (\<exists>c. node_at (tree d) (block_key d n) = Some (Regular c) \<and> length c = block_size d))"

definition good_file :: "fs \<Rightarrow> t_metadata_archivo \<Rightarrow> bool" where
  "good_file d a \<longleftrightarrow>
     bloques a \<noteq> [] \<and> distinct (bloques a)
     \<and> (\<forall>b \<in> set (bloques a). valid_block d b \<and> bitmap d ! nat b)
     \<and> 0 \<le> tamanio a \<and> tamanio a \<le> int (length (bloques a)) * tamanioBloques d
     \<and> (length (bloques a) = 1 \<or> int (length (bloques a) - 1) * tamanioBloques d < tamanio a)"

text \<open>The abstract directory \<open>M\<close>: what each user file, by its path under \<open>Archivos\<close>, holds.\<close>

definition files_ok :: "fs \<Rightarrow> (cstring list \<rightharpoonup> t_metadata_archivo) \<Rightarrow> bool" where
  "files_ok d M \<longleftrightarrow>
     (\<forall>q a. M q = Some a \<longrightarrow> node_at (tree d) (archivos d @ q) = Some (Regular (metadata_text a)) \<and> good_file d a)
     \<and> (\<forall>q c. node_at (tree d) (archivos d @ q) = Some (Regular c) \<longrightarrow> M q \<noteq> None)
     \<and> (\<forall>q r a b. M q = Some a \<longrightarrow> M r = Some b \<longrightarrow> q \<noteq> r \<longrightarrow> set (bloques a) \<inter> set (bloques b) = {})"

definition fs_inv :: "fs \<Rightarrow> (cstring list \<rightharpoonup> t_metadata_archivo) \<Rightarrow> bool" where
  "fs_inv d M \<longleftrightarrow> fs_ready d \<and> files_ok d M"

text \<open>The configuration reader of the commons library reads back what was written.\<close>

definition reads_metadata :: "fs_env \<Rightarrow> bool" where
  "reads_metadata E \<longleftrightarrow>
     (\<forall>a. bloques a \<noteq> [] \<longrightarrow> 0 \<le> tamanio a \<longrightarrow> tamanio a < 2 ^ 31 \<longrightarrow> (\<forall>b \<in> set (bloques a). 0 \<le> b \<and> b < 2 ^ 31) \<longrightarrow>
        config_get_int_value E (metadata_text a) (str ''TAMANIO'') = tamanio a
        \<and> map atoi (config_get_array_value E (metadata_text a) (str ''BLOQUES'')) = bloques a)"

subsection \<open>Keys\<close>

lemma str_append [simp]: "str (a @ b) = str a @ str b"
  by (simp add: str_def)

lemma sprintf_no_slash: "47 \<notin> set (sprintf_i v)"
proof -
  have "47 \<notin> set (dec_digits n)" for n using dec_digits_are_digits [of n] by (auto simp: is_digit_def)
  then show ?thesis by (simp add: sprintf_i_def)
qed

lemma sprintf_inj: "sprintf_i v = sprintf_i w \<Longrightarrow> v = w"
  using atoi_sprintf [of "[]"] by (metis append_Nil2)

lemma components_montaje:
  assumes "ends_with_slash (punto_montaje d)"
  shows "components (punto_montaje d @ r) = base d @ components r"
proof -
  obtain m where m: "punto_montaje d = m @ [47]"
    using assms unfolding ends_with_slash_def by (metis append_butlast_last_id)
  show ?thesis using components_join [of m r] by (simp add: base_def m)
qed

lemma components_block:
  assumes "ends_with_slash (punto_montaje d)"
  shows "components (armarPathBloqueDatos n d) = block_key d n"
proof -
  have n: "47 \<notin> set (sprintf_i n @ str ''.bin'')" using sprintf_no_slash by (auto simp: str_def)
  have b: "str ''Bloques/'' @ x = str ''Bloques'' @ 47 # x" for x by (simp add: str_def)
  have "components (str ''Bloques/'' @ sprintf_i n @ str ''.bin'')
      = components (str ''Bloques'') @ components (sprintf_i n @ str ''.bin'')"
    unfolding b by (rule components_join)
  also have "\<dots> = [str ''Bloques'', sprintf_i n @ str ''.bin'']"
    using n by (subst (1 2) components_name) (auto simp: str_def)
  finally show ?thesis
    unfolding armarPathBloqueDatos_def components_montaje [OF assms] by (simp add: block_key_def)
qed

lemma components_archivo:
  assumes "ends_with_slash (punto_montaje d)"
  shows "components (armarPathArchivo path d) = file_key d path"
proof -
  have b: "str ''Archivos/'' @ x = str ''Archivos'' @ 47 # x" for x by (simp add: str_def)
  have a: "components (str ''Archivos'') = [str ''Archivos'']" by (subst components_name) (auto simp: str_def)
  show ?thesis
  proof (cases "path \<noteq> [] \<and> hd path = 47")
    case True
    then obtain r where r: "path = 47 # r" by (cases path) auto
    then show ?thesis
      using components_join [of "str ''Archivos''" r] a
      by (simp add: armarPathArchivo_def components_montaje [OF assms] file_key_def archivos_def)
  next
    case False
    then have "armarPathArchivo path d = punto_montaje d @ str ''Archivos'' @ 47 # path"
      using b [of path] by (simp add: armarPathArchivo_def)
    then show ?thesis
      using components_join [of "str ''Archivos''" path] a
      by (simp add: components_montaje [OF assms] file_key_def archivos_def)
  qed
qed

lemma block_key_inj [simp]: "block_key d n = block_key d m \<longleftrightarrow> n = m"
  using sprintf_inj by (auto simp: block_key_def)

lemma block_key_not_file [simp]: "block_key d n \<noteq> archivos d @ q" "archivos d @ q \<noteq> block_key d n"
  by (auto simp: block_key_def archivos_def str_def)

lemma block_key_not_file_key [simp]: "block_key d n \<noteq> file_key d path" "file_key d path \<noteq> block_key d n"
  by (simp_all add: file_key_def)

lemma block_size_pos: "fs_ready d \<Longrightarrow> 0 < block_size d"
  by (simp add: fs_ready_def block_size_def)

lemma plain_block_key: "plain (base d) \<Longrightarrow> plain (block_key d n)"
  by (auto simp: plain_def block_key_def str_def append_eq_Cons_conv)

lemma no_slash_end_block: "\<not> ends_with_slash (armarPathBloqueDatos n d)"
  by (simp add: ends_with_slash_def armarPathBloqueDatos_def str_def)

lemma walk_block:
  assumes "fs_ready d"
  shows "walk (tree d) [] (components (armarPathBloqueDatos n d)) = Some (block_key d n)"
proof -
  have "plain (block_key d n)" using assms plain_block_key by (simp add: fs_ready_def)
  moreover have "dirs_to (tree d) (block_key d n)" using assms by (simp add: fs_ready_def block_key_def)
  ultimately show ?thesis using assms by (simp add: components_block fs_ready_def walk_root)
qed

lemma lookup_block:
  assumes "fs_ready d"
  shows "lookup_path (tree d) (armarPathBloqueDatos n d) = node_at (tree d) (block_key d n)"
  by (simp add: lookup_path_def walk_block [OF assms] no_slash_end_block) (simp add: block_key_def)

lemma lookup_valid_block:
  assumes "fs_ready d" "valid_block d n"
  shows "lookup_path (tree d) (armarPathBloqueDatos n d) = Some (Regular (block_bytes d n))"
    "length (block_bytes d n) = block_size d"
    "node_at (tree d) (block_key d n) = Some (Regular (block_bytes d n))"
proof -
  from assms obtain c where "node_at (tree d) (block_key d n) = Some (Regular c)" "length c = block_size d"
    unfolding fs_ready_def by blast
  then show "lookup_path (tree d) (armarPathBloqueDatos n d) = Some (Regular (block_bytes d n))"
    "length (block_bytes d n) = block_size d"
    "node_at (tree d) (block_key d n) = Some (Regular (block_bytes d n))"
    using assms(1) by (simp_all add: lookup_block block_bytes_def)
qed

lemma store_block:
  assumes "fs_ready d"
  shows "store_mapped (armarPathBloqueDatos n d) c (tree d) = AList.update (block_key d n) (Regular c) (tree d)"
  by (simp add: store_mapped_def walk_block [OF assms])

subsection \<open>User files\<close>

definition plain_path :: "cstring \<Rightarrow> bool" where
  "plain_path path \<longleftrightarrow> plain (components path)"

lemma plain_file_key: "fs_ready d \<Longrightarrow> plain_path path \<Longrightarrow> plain (file_key d path)"
  by (auto simp: plain_def plain_path_def file_key_def archivos_def fs_ready_def str_def)

lemma walk_file:
  assumes "fs_ready d" "plain_path path"
  shows "walk (tree d) [] (components (armarPathArchivo path d))
    = (if dirs_to (tree d) (file_key d path) then Some (file_key d path) else None)"
  using assms plain_file_key by (simp add: components_archivo fs_ready_def walk_root)

lemma file_key_nonempty [simp]: "file_key d path \<noteq> []"
  by (simp add: file_key_def archivos_def)

lemma is_regular_iff:
  assumes "fs_ready d" "plain_path path"
  shows "lookup_path (tree d) (armarPathArchivo path d) = Some (Regular c) \<longleftrightarrow>
     dirs_to (tree d) (file_key d path) \<and> \<not> ends_with_slash (armarPathArchivo path d)
     \<and> node_at (tree d) (file_key d path) = Some (Regular c)"
  using walk_file [OF assms] by (auto simp: lookup_path_def)

lemma validar_iff:
  "validar p d = 1 \<longleftrightarrow> (\<exists>c. lookup_path (tree d) p = Some (Regular c))"
  by (auto simp: validar_def is_regular_file_def ENOENT_def split: option.splits node.splits)

lemma validar_file:
  assumes "fs_inv d M" "plain_path path" "validar (armarPathArchivo path d) d = 1"
  obtains a where "M (components path) = Some a"
    "lookup_path (tree d) (armarPathArchivo path d) = Some (Regular (metadata_text a))" "good_file d a"
    "node_at (tree d) (file_key d path) = Some (Regular (metadata_text a))"
    "dirs_to (tree d) (file_key d path)" "\<not> ends_with_slash (armarPathArchivo path d)"
proof -
  have r: "fs_ready d" using assms(1) by (simp add: fs_inv_def)
  obtain c where c: "lookup_path (tree d) (armarPathArchivo path d) = Some (Regular c)"
    using assms(3) validar_iff by blast
  note n = c [unfolded is_regular_iff [OF r assms(2)]]
  then obtain a where a: "M (components path) = Some a" using assms(1) unfolding fs_inv_def files_ok_def file_key_def by fast
  then have "node_at (tree d) (file_key d path) = Some (Regular (metadata_text a))" "good_file d a"
    using assms(1) unfolding fs_inv_def files_ok_def file_key_def by blast+
  with that a c n show thesis by fastforce
qed

lemma valid_block_bound: "fs_ready d \<Longrightarrow> valid_block d b \<Longrightarrow> 0 \<le> b \<and> b < cantidadBloques d"
proof -
  assume a: "fs_ready d" "valid_block d b"
  then have "0 \<le> b" "nat b < nat (cantidadBloques d div 8) * 8"
    by (simp_all add: valid_block_def bitarray_get_max_bit_def)
  then have "b < int (nat (cantidadBloques d div 8) * 8)" by linarith
  moreover have "int (nat (cantidadBloques d div 8) * 8) \<le> cantidadBloques d"
  proof -
    have "0 \<le> cantidadBloques d" using a(1) by (simp add: fs_ready_def)
    moreover from this have "cantidadBloques d div 8 * 8 + cantidadBloques d mod 8 = cantidadBloques d"
      "0 \<le> cantidadBloques d mod 8" by simp_all
    ultimately show ?thesis by linarith
  qed
  ultimately show ?thesis using \<open>0 \<le> b\<close> by simp
qed

lemma good_file_bounds:
  assumes "fs_ready d" "good_file d a"
  shows "tamanio a \<le> cantidadBloques d * tamanioBloques d" "tamanio a < 2 ^ 31"
    "\<forall>b \<in> set (bloques a). 0 \<le> b \<and> b < 2 ^ 31"
    "int (length (bloques a)) \<le> cantidadBloques d"
proof -
  have "set (bloques a) \<subseteq> {0..<cantidadBloques d}"
    using assms valid_block_bound by (auto simp: good_file_def)
  then have "card (set (bloques a)) \<le> card {0..<cantidadBloques d}" by (intro card_mono) auto
  then have "length (bloques a) \<le> nat (cantidadBloques d)"
    using assms(2) by (simp add: good_file_def distinct_card)
  then show len: "int (length (bloques a)) \<le> cantidadBloques d"
    using assms(1) by (simp add: fs_ready_def nat_le_iff le_nat_iff)
  have tam: "0 < tamanioBloques d" "cantidadBloques d * tamanioBloques d < 2 ^ 31"
    using assms(1) by (simp_all add: fs_ready_def)
  have "int (length (bloques a)) * tamanioBloques d \<le> cantidadBloques d * tamanioBloques d"
    using len tam(1) by simp
  then show "tamanio a \<le> cantidadBloques d * tamanioBloques d" using assms(2) by (simp add: good_file_def)
  with tam(2) show "tamanio a < 2 ^ 31" by simp
  have "cantidadBloques d \<le> cantidadBloques d * tamanioBloques d"
    using tam(1) assms(1) by (simp add: fs_ready_def mult_le_cancel_left1)
  then show "\<forall>b \<in> set (bloques a). 0 \<le> b \<and> b < 2 ^ 31"
  proof (intro ballI)
    fix b assume "b \<in> set (bloques a)"
    then have "valid_block d b" using assms(2) by (simp add: good_file_def)
    from valid_block_bound [OF assms(1) this] show "0 \<le> b \<and> b < 2 ^ 31"
      using \<open>cantidadBloques d \<le> _\<close> tam(2) by linarith
  qed
qed

lemma read_metadata:
  assumes "fs_ready d" "reads_metadata (fsenv d)" "good_file d a"
    "lookup_path (tree d) p = Some (Regular (metadata_text a))"
  shows "read_fileMetadata p d = Inr a"
proof -
  note bounds = good_file_bounds [OF assms(1,3)]
  have "bloques a \<noteq> []" "0 \<le> tamanio a" using assms(3) by (simp_all add: good_file_def)
  with bounds assms(2,4) show ?thesis
    unfolding reads_metadata_def read_fileMetadata_def by simp
qed

subsection \<open>What keeps the disk ready\<close>

lemma fs_ready_change:
  assumes "fs_ready d" "length m = length (bitmap d)"
    and "\<And>p. node_at (tree d) p = Some Directory \<Longrightarrow> node_at t p = Some Directory"
    and "\<And>n. valid_block d n \<Longrightarrow> \<exists>c. node_at t (block_key d n) = Some (Regular c) \<and> length c = block_size d"
  shows "fs_ready (d\<lparr>bitmap := m, tree := t\<rparr>)"
proof -
  let ?d = "d\<lparr>bitmap := m, tree := t\<rparr>"
  have key: "base ?d = base d" "archivos ?d = archivos d" "block_key ?d = block_key d" "block_size ?d = block_size d"
    "valid_block ?d = valid_block d"
    by (simp_all add: base_def archivos_def block_key_def block_size_def valid_block_def fun_eq_iff bitarray_get_max_bit_def)
  have "dirs_to (tree d) p \<Longrightarrow> dirs_to t p" for p using assms(3) by (simp add: dirs_to_def)
  with assms(1,2,4) show ?thesis
    unfolding fs_ready_def key by (simp add: bitmap_ok_def bitarray_get_max_bit_def)
qed

end
