(* ===== verification/FS_Data.thy ===== *)
theory FS_Data
  imports FS_Layout
begin

text \<open>
  Reading and writing the blocks of a file, seen as one sequence of bytes: the loop of
  \<open>obtenerDatos\<close> copies out of \<open>blocks_data\<close>, the loop of \<open>guardarDatos\<close> overlays the buffer on it.
\<close>

subsection \<open>Sequences of equally long blocks\<close>

lemma length_concat_blocks: "\<forall>x \<in> set xss. length x = T \<Longrightarrow> length (concat xss) = length xss * T"
  by (induction xss) simp_all

lemma peek_concat:
  "\<forall>x \<in> set xss. length x = T \<Longrightarrow> i < length xss \<Longrightarrow> b + k \<le> T \<Longrightarrow>
     peek (i * T + b) k (concat xss) = peek b k (xss ! i)"
proof (induction xss arbitrary: i)
  case (Cons x xss)
  show ?case
  proof (cases i)
    case 0
    with Cons.prems show ?thesis by (simp add: peek_def)
  next
    case (Suc j)
    have "peek (i * T + b) k (x @ concat xss) = peek (j * T + b) k (concat xss)"
      using Cons.prems(1) by (simp add: peek_def Suc add.assoc)
    with Cons Suc show ?thesis by simp
  qed
qed simp

lemma poke_concat:
  "\<forall>x \<in> set xss. length x = T \<Longrightarrow> i < length xss \<Longrightarrow> b + length bs \<le> T \<Longrightarrow>
     concat (xss[i := poke b bs (xss ! i)]) = poke (i * T + b) bs (concat xss)"
proof (induction xss arbitrary: i)
  case (Cons x xss)
  show ?case
  proof (cases i)
    case 0
    with Cons.prems show ?thesis by (simp add: poke_def)
  next
    case (Suc j)
    have "poke (i * T + b) bs (x @ concat xss) = x @ poke (j * T + b) bs (concat xss)"
      using Cons.prems(1) by (simp add: poke_def Suc add.assoc)
    with Cons Suc show ?thesis by simp
  qed
qed simp

lemma poke_poke_next:
  assumes "o1 + length xs + length ys \<le> length zs"
  shows "poke (o1 + length xs) ys (poke o1 xs zs) = poke o1 (xs @ ys) zs"
  using assms by (simp add: poke_def ac_simps)

lemma take_poke: "off + length bs \<le> length xs \<Longrightarrow> take (off + length bs) (poke off bs xs) = take off xs @ bs"
  by (simp add: poke_def)

subsection \<open>Mappings of whole blocks\<close>

lemma whole_pages_ge: "0 < pg \<Longrightarrow> n \<le> whole_pages pg n"
proof -
  assume pg: "0 < pg"
  have "n + pg - 1 < pg + (n + pg - 1) div pg * pg" using pg by (rule dividend_less_div_times)
  then show ?thesis by (simp add: whole_pages_def)
qed

lemma mapped_read_block:
  assumes "0 < pg" "length c = n" "a + k \<le> n"
  shows "mapped_read pg n c (int a) k = Some (peek a k c)"
proof -
  have "a + k \<le> mapped_limit pg n c" using assms whole_pages_ge [OF assms(1), of n] by (simp add: mapped_limit_def)
  then show ?thesis using assms by (simp add: mapped_read_def peek_def)
qed

lemma mapped_write_block:
  assumes "length c = n" "a \<le> n" "a + length bs \<le> whole_pages pg n"
  shows "mapped_write pg n c (int a) bs = Some (poke a (take (n - a) bs) c)"
proof -
  have "take n (poke a bs (c @ replicate (a + length bs) 0)) = poke a (take (n - a) bs) c"
  proof (cases "length bs \<le> n - a")
    case True
    then show ?thesis using assms by (simp add: poke_def)
  next
    case False
    then show ?thesis using assms by (simp add: poke_def)
  qed
  then show ?thesis using assms by (simp add: mapped_write_def mapped_limit_def)
qed

subsection \<open>Reading\<close>

lemma length_blocks_data:
  "fs_ready d \<Longrightarrow> \<forall>b \<in> set bl. valid_block d b \<Longrightarrow> length (blocks_data d bl) = length bl * block_size d"
  unfolding blocks_data_def using length_concat_blocks [of "map (block_bytes d) bl" "block_size d"]
  by (simp add: lookup_valid_block(2))

lemma peek_blocks_data:
  "fs_ready d \<Longrightarrow> \<forall>b \<in> set bl. valid_block d b \<Longrightarrow> i < length bl \<Longrightarrow> b + k \<le> block_size d \<Longrightarrow>
     peek (i * block_size d + b) k (blocks_data d bl) = peek b k (block_bytes d (bl ! i))"
  unfolding blocks_data_def using peek_concat [of "map (block_bytes d) bl" "block_size d" i b k]
  by (simp add: lookup_valid_block(2))

lemma avanzar_in: "pos < length (bloques a) \<Longrightarrow> avanzarBloque a (int pos) = bloques a ! pos"
  by (simp add: avanzarBloque_def list_get_def)

lemma avanzar_out: "length (bloques a) \<le> pos \<Longrightarrow> avanzarBloque a (int pos) = -1"
  by (simp add: avanzarBloque_def)

text \<open>The step of the loop, once its block is known to be there.\<close>

lemma read_blocks_step:
  assumes "fs_ready d" "valid_block d (bloques a ! pos)" "pos < length (bloques a)"
    "desp < isz" "int off + int desp < tamanio a"
    "read_turn (tamanioBloques d) (int off) (int isz) (tamanio a) (int b) (int desp) = (int n, desp')"
    "b + n \<le> block_size d" "desp + n \<le> length buf"
  shows "read_blocks d a (int off) (int isz) (int b) (int desp) (int pos) buf
    = read_blocks d a (int off) (int isz) 0 desp' (int (Suc pos))
        (poke desp (peek b n (block_bytes d (bloques a ! pos))) buf)"
proof -
  note l = lookup_valid_block [OF assms(1,2)]
  have "bloques a ! pos \<noteq> -1" using assms(2) by (simp add: valid_block_def)
  moreover have "mapped_read (page_bytes (fsenv d)) (nat (tamanioBloques d)) (block_bytes d (bloques a ! pos)) (int b) n
      = Some (peek b n (block_bytes d (bloques a ! pos)))"
    using assms(1,7) l(2) by (intro mapped_read_block) (simp_all add: fs_ready_def block_size_def)
  moreover have "length (peek b n (block_bytes d (bloques a ! pos))) = n" using assms(7) l(2) by simp
  then have "blk_write buf (int desp) (peek b n (block_bytes d (bloques a ! pos)))
      = Some (poke desp (peek b n (block_bytes d (bloques a ! pos))) buf)"
    using assms(8) by (intro blk_write_in) simp
  ultimately show ?thesis
    using assms(4,5,6) l(1) by (subst read_blocks.simps) (simp add: avanzar_in [OF assms(3)] add.commute)
qed

lemma read_blocks_spec:
  assumes r: "fs_ready d" and v: "\<forall>b \<in> set (bloques a). valid_block d b"
    and size: "int (isz + off) \<le> tamanio a" "tamanio a \<le> int (length (bloques a)) * tamanioBloques d"
      "length (bloques a) = 1 \<or> int (length (bloques a) - 1) * tamanioBloques d < tamanio a"
  shows "pos * block_size d + b = off + desp \<Longrightarrow> b < block_size d \<or> desp = isz \<Longrightarrow> desp \<le> isz \<Longrightarrow> length buf = isz \<Longrightarrow>
     read_blocks d a (int off) (int isz) (int b) (int desp) (int pos) buf
       = Inr (take desp buf @ peek (off + desp) (isz - desp) (blocks_data d (bloques a)))"
proof (induction "length (bloques a) - pos" arbitrary: pos b desp buf rule: less_induct)
  case less
  define T where "T = block_size d"
  have T: "tamanioBloques d = int T" "0 < T" using r by (simp_all add: T_def block_size_def fs_ready_def)
  show ?case
  proof (cases "desp = isz")
    case True
    then show ?thesis using less.prems by (subst read_blocks.simps) (simp add: peek_def)
  next
    case False
    then have desp: "desp < isz" and b: "b < T" using less.prems by (simp_all add: T_def)
    have "int (pos * T + b) < int (length (bloques a)) * int T"
      using size(1,2) desp less.prems(1) by (simp add: T T_def [symmetric])
    then have "pos * T + b < length (bloques a) * T" by (simp flip: of_nat_mult)
    then have "pos * T < length (bloques a) * T" by linarith
    then have pos: "pos < length (bloques a)" using mult_less_cancel2 by blast
    then have vp: "valid_block d (bloques a ! pos)" using v by simp
    have tam: "int off + int desp < tamanio a" using size(1) desp by simp
    let ?c = "block_bytes d (bloques a ! pos)"
    have peek: "peek b n ?c = peek (off + desp) n (blocks_data d (bloques a))" if "b + n \<le> T" for n
      using peek_blocks_data [OF r v pos, of b n] that less.prems(1) by (simp add: T_def)
    note step = read_blocks_step [OF r vp pos desp tam]
    show ?thesis
    proof (cases "tamanio a - int desp - int off \<ge> int T - int b \<and> isz - desp \<ge> T - b")
      case True
      have turn: "read_turn (tamanioBloques d) (int off) (int isz) (tamanio a) (int b) (int desp)
          = (int (T - b), int (desp + (T - b)))"
        using True b desp by (auto simp: read_turn_def T)
      have fit: "desp + (T - b) \<le> isz" using True desp by linarith
      have len: "length (peek b (T - b) ?c) = T - b"
        using lookup_valid_block(2) [OF r vp] b by (simp add: T_def)
      let ?buf = "poke desp (peek b (T - b) ?c) buf"
      have "read_blocks d a (int off) (int isz) (int b) (int desp) (int pos) buf
          = read_blocks d a (int off) (int isz) (int 0) (int (desp + (T - b))) (int (Suc pos)) ?buf"
        using step [OF turn, of buf] b fit less.prems(4) by (simp add: T_def)
      also have "\<dots> = Inr (take (desp + (T - b)) ?buf
          @ peek (off + (desp + (T - b))) (isz - (desp + (T - b))) (blocks_data d (bloques a)))"
      proof (rule less.hyps)
        show "length (bloques a) - Suc pos < length (bloques a) - pos" using pos by simp
        show "Suc pos * block_size d + 0 = off + (desp + (T - b))" using less.prems(1) b by (simp add: T_def [symmetric])
        show "0 < block_size d \<or> desp + (T - b) = isz" using T(2) by (simp add: T_def)
        show "length ?buf = isz" using len fit less.prems(4) by simp
      qed (use fit in simp)
      also have "take (desp + (T - b)) ?buf = take desp buf @ peek (off + desp) (T - b) (blocks_data d (bloques a))"
        using take_poke [of desp "peek b (T - b) ?c" buf] len fit less.prems(4) peek [of "T - b"] b by simp
      finally show ?thesis
        using fit by (simp add: add.assoc [symmetric] peek_append [symmetric])
    next
      case False
      let ?n = "isz - desp"
      have n: "b + ?n \<le> T"
        using False size(1) desp b by auto
      have turn: "\<exists>desp'. read_turn (tamanioBloques d) (int off) (int isz) (tamanio a) (int b) (int desp) = (int ?n, desp')
          \<and> (desp' = int isz \<or> length (bloques a) \<le> Suc pos)"
      proof (cases "tamanio a - int desp - int off \<ge> int T - int b")
        case True
        then show ?thesis using False b desp by (auto simp: read_turn_def T)
      next
        case short: False
        have "tamanio a < int (Suc pos * T)"
          using short arg_cong [OF less.prems(1), of int] by (simp add: T_def [symmetric])
        with size(3) have "length (bloques a) = 1 \<or> int (length (bloques a) - 1) * int T < int (Suc pos * T)"
          unfolding T by linarith
        then have "length (bloques a) = 1 \<or> (length (bloques a) - 1) * T < Suc pos * T" 
          by (simp only: of_nat_less_iff flip: of_nat_mult)
        then have "length (bloques a) = 1 \<or> length (bloques a) - 1 < Suc pos" by (auto simp only: mult_less_cancel2)
        then have "length (bloques a) \<le> Suc pos" using pos by auto
        with short show ?thesis using desp by (auto simp: read_turn_def T)
      qed
      then obtain desp' where turn: "read_turn (tamanioBloques d) (int off) (int isz) (tamanio a) (int b) (int desp) = (int ?n, desp')"
        and last: "desp' = int isz \<or> length (bloques a) \<le> Suc pos" by blast
      let ?buf = "poke desp (peek b ?n ?c) buf"
      have len: "length (peek b ?n ?c) = ?n"
        using lookup_valid_block(2) [OF r vp] n by (simp add: T_def)
      have "read_blocks d a (int off) (int isz) (int b) (int desp) (int pos) buf
          = read_blocks d a (int off) (int isz) 0 desp' (int (Suc pos)) ?buf"
        using step [OF turn, of buf] n less.prems(3,4) by (simp add: T_def)
      also have "\<dots> = Inr ?buf"
        using last avanzar_out [of a "Suc pos"] by (subst read_blocks.simps) auto
      also have "?buf = take desp buf @ peek (off + desp) ?n (blocks_data d (bloques a))"
        using take_poke [of desp "peek b ?n ?c" buf] len desp less.prems(4) peek [OF n] by (simp add: poke_def)
      finally show ?thesis .
    qed
  qed
qed

end
