(* ===== verification/FS_Single.thy ===== *)
theory FS_Single
  imports FS_Operations
begin

text \<open>
  The number of blocks \<open>guardarDatos\<close> computes in single precision is exact as long as the write
  ends less than \<open>2 ^ 24\<close> bytes behind the blocks the file has; from there on it can be one short.
\<close>

lemma div_half_even_le: "n \<le> k * t \<Longrightarrow> 0 < t \<Longrightarrow> div_half_even n t \<le> k"
proof -
  assume a: "n \<le> k * t" "0 < t"
  have q: "n div t \<le> k" using a by (metis div_le_mono nonzero_mult_div_cancel_right not_gr_zero)
  show ?thesis
  proof (cases "n div t = k")
    case True
    then have "k * t + n mod t = n" by (metis div_mult_mod_eq)
    with a have "n mod t = 0" by simp
    with True show ?thesis using a by (simp add: div_half_even_def Let_def)
  next
    case False
    with q show ?thesis by (auto simp: div_half_even_def Let_def)
  qed
qed

lemma div_half_even_gt: "2 * (j * t) + t < 2 * n \<Longrightarrow> 0 < t \<Longrightarrow> j < div_half_even n t"
proof -
  assume a: "2 * (j * t) + t < 2 * n" "0 < t"
  have "j * t \<le> n" using a by simp
  then have q: "j \<le> n div t" using a by (simp add: less_eq_div_iff_mult_less_eq)
  show ?thesis
  proof (cases "n div t = j")
    case True
    have "n mod t = n - j * t" by (metis True minus_div_mult_eq_mod)
    then have "t < 2 * (n mod t)" using a by simp
    with True show ?thesis by (simp add: div_half_even_def Let_def)
  next
    case False
    with q show ?thesis by (auto simp: div_half_even_def Let_def)
  qed
qed

lemma floorlog_two: "0 < a \<Longrightarrow> 2 ^ (floorlog 2 a - 1) \<le> a \<and> a < 2 ^ floorlog 2 a \<and> 0 < floorlog 2 a"
  using floorlog_bounds [of a 2] by (simp add: compute_floorlog)

text \<open>Below \<open>2 ^ 24\<close> the exponent is not positive, and the scaled quotient has 24 bits.\<close>

lemma float_exponent_small:
  assumes "0 < x" "x < 2 ^ 24" "0 < t"
  obtains s where "float_exponent x t = - int s" "2 ^ 23 * t \<le> x * 2 ^ s" "x * 2 ^ s < 2 ^ 24 * t"
proof -
  define L M where "L = floorlog 2 x" and "M = floorlog 2 t"
  have L: "2 ^ (L - 1) \<le> x" "x < 2 ^ L" "0 < L" using floorlog_two [OF assms(1)] by (simp_all add: L_def)
  have M: "2 ^ (M - 1) \<le> t" "t < 2 ^ M" "0 < M" using floorlog_two [OF assms(3)] by (simp_all add: M_def)
  have "(2::nat) ^ (L - 1) < 2 ^ 24" using L(1) assms(2) by linarith
  then have "L - 1 < 24" by (rule power_less_imp_less_exp [rotated]) simp
  then have L24: "L \<le> 24" by simp
  define k where "k = M + 24 - L"
  have e0: "int (floorlog 2 x) - int (floorlog 2 t) - 24 = - int k" "0 < k"
    using L24 M(3) by (simp_all add: k_def L_def [symmetric] M_def [symmetric])
  have lo: "2 ^ 23 * t \<le> x * 2 ^ k"
  proof -
    have "2 ^ 23 * t \<le> 2 ^ (23 + M)" using M(2) by (simp add: power_add)
    also have "\<dots> = 2 ^ (L - 1) * 2 ^ k" using L(3) L24 by (simp add: k_def power_add [symmetric])
    also have "\<dots> \<le> x * 2 ^ k" using L(1) by simp
    finally show ?thesis .
  qed
  have hi: "x * 2 ^ k < 2 ^ 25 * t"
  proof -
    have "x * 2 ^ k < 2 ^ L * 2 ^ k" using L(2) by simp
    also have "\<dots> = 2 ^ (25 + (M - 1))" using M(3) L24 by (simp add: k_def power_add [symmetric])
    also have "\<dots> = 2 ^ 25 * 2 ^ (M - 1)" by (rule power_add)
    also have "\<dots> \<le> 2 ^ 25 * t" using M(1) by simp
    finally show ?thesis .
  qed
  have sc: "scaled x t (- int k) = (x * 2 ^ k, t)" using e0(2) by (simp add: scaled_def)
  show thesis
  proof (cases "2 ^ 24 * t \<le> x * 2 ^ k")
    case True
    obtain j where j: "k = Suc j" using e0(2) by (cases k) auto
    have "float_exponent x t = - int j"
      using True sc unfolding float_exponent_def Let_def e0(1) by (simp add: j)
    moreover have "2 ^ 23 * t \<le> x * 2 ^ j" "x * 2 ^ j < 2 ^ 24 * t" using True hi by (simp_all add: j)
    ultimately show thesis using that by blast
  next
    case False
    have "float_exponent x t = - int k"
      using False sc unfolding float_exponent_def Let_def e0(1) by simp
    with False lo show thesis using that [of k] by simp
  qed
qed

lemma scaled_neg: "scaled x t (- int s) = (x * 2 ^ s, t)"
  by (simp add: scaled_def)

lemma float_of_int_small: "x < 2 ^ 24 \<Longrightarrow> float_of_int x = x"
proof (cases "x = 0")
  case False
  assume x: "x < 2 ^ 24"
  from False obtain s where s: "float_exponent x 1 = - int s"
    using float_exponent_small [of x 1] x by auto
  have "div_half_even (x * 2 ^ s) 1 = x * 2 ^ s" by (simp add: div_half_even_def)
  then have "to_float x 1 = (x * 2 ^ s, - int s)"
    using False unfolding to_float_def Let_def s scaled_neg by simp
  then show ?thesis by (simp add: float_of_int_def)
qed (simp add: float_of_int_def to_float_def)

lemma ceil_quotient_exact:
  assumes "0 < x" "x < 2 ^ 24" "0 < t" "t < 2 ^ 24"
  shows "ceil_quotient x t = (x + t - 1) div t"
proof -
  obtain s where s: "float_exponent x t = - int s" "2 ^ 23 * t \<le> x * 2 ^ s" "x * 2 ^ s < 2 ^ 24 * t"
    using float_exponent_small [OF assms(1-3)] by blast
  define m where "m = div_half_even (x * 2 ^ s) t"
  define k where "k = (x + t - 1) div t"
  have "x + t - 1 < k * t + t" using assms(3) dividend_less_div_times [of t "x + t - 1"]
    by (simp add: k_def add.commute)
  then have up: "x \<le> k * t" by simp
  have "t div t \<le> k" unfolding k_def using assms(1) by (intro div_le_mono) simp
  then have k1: "0 < k" using assms(3) by simp
  have "k * t \<le> x + t - 1" by (simp add: k_def)
  then have low: "(k - 1) * t + 1 \<le> x" using k1 assms(1,3) by (simp add: diff_mult_distrib)
  have m_le: "m \<le> k * 2 ^ s"
    unfolding m_def using up assms(3) by (intro div_half_even_le) (simp_all add: mult.commute mult.left_commute)
  have "x * 2 ^ s < 2 ^ 24 * 2 ^ s" using assms(2) by simp
  with s(2) have "2 ^ 23 * t < 2 ^ 24 * 2 ^ s" by (rule le_less_trans)
  then have t: "t < 2 * 2 ^ s" by simp
  have "((k - 1) * t + 1) * 2 ^ s \<le> x * 2 ^ s" using low by (rule mult_le_mono1)
  then have "2 * (((k - 1) * 2 ^ s) * t) + t < 2 * (x * 2 ^ s)"
    using t by (simp add: algebra_simps)
  then have m_gt: "(k - 1) * 2 ^ s < m" unfolding m_def using assms(3) by (rule div_half_even_gt)
  have "(m + 2 ^ s - 1) div 2 ^ s = k"
  proof (rule div_nat_eqI)
    show "2 ^ s * k \<le> m + 2 ^ s - 1"
      using m_gt k1 by (simp add: diff_mult_distrib mult.commute)
    show "m + 2 ^ s - 1 < 2 ^ s * Suc k"
      using m_le by (simp add: mult.commute less_diff_conv2 Suc_le_eq add.commute le_imp_less_Suc)
  qed
  moreover have "to_float x t = (m, - int s)"
    using assms(1) unfolding to_float_def Let_def s(1) scaled_neg m_def by simp
  then have "ceil_quotient x t = (m + 2 ^ s - 1) div 2 ^ s"
    unfolding ceil_quotient_def float_of_int_small [OF assms(2)] float_of_int_small [OF assms(4)]
    by (simp add: ceil_float_def)
  ultimately show ?thesis by (simp add: k_def)
qed

lemma ceil_quotient_short: "ceil_quotient (2 ^ 24 + 1) 64 = 2 ^ 18"
  by (simp add: ceil_quotient_def float_of_int_def to_float_def float_exponent_def scaled_def
      compute_floorlog div_half_even_def ceil_float_def)

end
