(* ===== verification/FS_Laws.thy ===== *)
theory FS_Laws
  imports FS_Data FS_Single
begin

text \<open>
  The four operations of \<open>operaciones.c\<close> on a disk that is in order. \<open>file_bytes d a\<close> is what the user
  sees of a file: the first \<open>tamanio\<close> bytes of its blocks.
\<close>

definition file_bytes :: "fs \<Rightarrow> t_metadata_archivo \<Rightarrow> byte list" where
  "file_bytes d a = take (nat (tamanio a)) (blocks_data d (bloques a))"

subsection \<open>Reading\<close>

lemma read_size_nat:
  assumes "0 \<le> t"
  shows "read_size (int off) (int sz) t = (if int off \<le> t then Some (int (min sz (nat t - off))) else None)"
  using assms by (auto simp: read_size_def min_def)

lemma peek_content:
  assumes "off \<le> nat (tamanio a)"
  shows "peek off (min sz (nat (tamanio a) - off)) (blocks_data d (bloques a)) = take sz (drop off (file_bytes d a))"
  by (simp add: peek_def file_bytes_def drop_take)

lemma obtener_spec:
  assumes inv: "fs_inv d M" and E: "reads_metadata (fsenv d)" and path: "plain_path path"
    and v: "validar (armarPathArchivo path d) d = 1"
  obtains a where "M (components path) = Some a"
    "obtenerDatos (armarPathArchivo path d) (int off) (int sz) d =
       Inr (if int off \<le> tamanio a
            then (int (min sz (nat (tamanio a) - off)), take sz (drop off (file_bytes d a))) else (-1, []))"
proof -
  have r: "fs_ready d" using inv by (simp add: fs_inv_def)
  obtain a where a: "M (components path) = Some a"
    "lookup_path (tree d) (armarPathArchivo path d) = Some (Regular (metadata_text a))" "good_file d a"
    using validar_file [OF inv path v] by metis
  define T where "T = block_size d"
  have T: "tamanioBloques d = int T" "0 < T" using r by (simp_all add: T_def block_size_def fs_ready_def)
  have t0: "0 \<le> tamanio a" using a(3) by (simp add: good_file_def)
  have q: "c_quot (int off) (int T) = int (off div T)"
    using T by (simp add: c_quot_nonneg zdiv_int)
  have b: "int off - int (off div T) * int T = int (off mod T)"
    using T by (simp add: zmod_int zdiv_int minus_div_mult_eq_mod)
  note md = read_metadata [OF r E a(3,2)]
  have res: "obtenerDatos (armarPathArchivo path d) (int off) (int sz) d =
       Inr (if int off \<le> tamanio a
            then (int (min sz (nat (tamanio a) - off)), take sz (drop off (file_bytes d a))) else (-1, []))"
  proof (cases "int off \<le> tamanio a")
    case True
    define k where "k = min sz (nat (tamanio a) - off)"
    have "read_blocks d a (int off) (int k) (int (off mod T)) (int 0) (int (off div T))
        (map (junk_mem (fsenv d)) [0..<k])
      = Inr (take 0 (map (junk_mem (fsenv d)) [0..<k]) @ peek (off + 0) (k - 0) (blocks_data d (bloques a)))"
    proof (rule read_blocks_spec [OF r])
      show "int (k + off) \<le> tamanio a" using True t0 by (auto simp: k_def min_def)
      show "off div T * block_size d + off mod T = off + 0" by (simp add: T_def)
      show "off mod T < block_size d \<or> 0 = k" using T by (simp add: T_def)
    qed (use a(3) in \<open>simp_all add: good_file_def\<close>)
    then have "read_blocks d a (int off) (int k) (int (off mod T)) 0 (int (off div T))
        (map (junk_mem (fsenv d)) [0..<k]) = Inr (take sz (drop off (file_bytes d a)))"
      using peek_content [of off a sz d] True t0 by (simp add: k_def)
    then show ?thesis
      using T by (simp add: obtenerDatos_def v md read_size_nat [OF t0] True q b k_def [symmetric] Let_def
        del: of_nat_diff)
  next
    case False
    then show ?thesis using T by (simp add: obtenerDatos_def v md read_size_nat [OF t0] Let_def)
  qed
  from a(1) res show thesis by (rule that)
qed

subsection \<open>Writing one block\<close>

definition set_block :: "fs \<Rightarrow> int \<Rightarrow> byte list \<Rightarrow> fs" where
  "set_block d n c = d\<lparr>tree := AList.update (block_key d n) (Regular c) (tree d)\<rparr>"

lemma set_block_keys [simp]:
  "base (set_block d n c) = base d" "archivos (set_block d n c) = archivos d"
  "block_key (set_block d n c) = block_key d" "block_size (set_block d n c) = block_size d"
  "valid_block (set_block d n c) = valid_block d" "tamanioBloques (set_block d n c) = tamanioBloques d"
  "bitmap (set_block d n c) = bitmap d" "fsenv (set_block d n c) = fsenv d"
  "file_key (set_block d n c) = file_key d" "armarPathArchivo p (set_block d n c) = armarPathArchivo p d"
  by (simp_all add: set_block_def base_def archivos_def block_key_def block_size_def valid_block_def
      fun_eq_iff bitarray_get_max_bit_def file_key_def armarPathArchivo_def)

lemma set_block_bytes [simp]: "block_bytes (set_block d n c) m = (if m = n then c else block_bytes d m)"
  unfolding block_bytes_def set_block_keys by (simp add: set_block_def)

lemma set_block_at: "node_at (tree (set_block d n c)) p = (if p = block_key d n then Some (Regular c) else node_at (tree d) p)"
  by (simp add: set_block_def)

lemma set_block_ready:
  assumes "fs_ready d" "valid_block d n" "length c = block_size d"
  shows "fs_ready (set_block d n c)"
proof -
  have "fs_ready (d\<lparr>bitmap := bitmap d, tree := AList.update (block_key d n) (Regular c) (tree d)\<rparr>)"
    using assms lookup_valid_block [OF assms(1)] by (intro fs_ready_change) auto
  then show ?thesis by (simp add: set_block_def)
qed

lemma write_block_eq:
  assumes r: "fs_ready d" and v: "valid_block d (bloques a ! pos)" and pos: "pos < length (bloques a)"
    and s: "0 < s" "s \<le> length buffer"
  shows "write_block buffer (int (length buffer)) (int b) (int s) (int pos) a d
    = (case mapped_write (page_bytes (fsenv d)) (block_size d) (block_bytes d (bloques a ! pos)) (int b)
          (take (min s (block_size d)) (drop (length buffer - s) buffer)) of
         None \<Rightarrow> Inl Buffer_Overflow
       | Some c \<Rightarrow> Inr (None, set_block d (bloques a ! pos) c))"
proof -
  define T where "T = block_size d"
  have T: "tamanioBloques d = int T" "0 < T" using r by (simp_all add: T_def block_size_def fs_ready_def)
  define k where "k = min s T"
  have rd: "blk_read buffer (int (length buffer) - int s) k = Some (take k (drop (length buffer - s) buffer))"
    using blk_read_in [of "length buffer - s" k buffer] s by (simp add: of_nat_diff peek_def k_def)
  have n: "(if int s \<le> int T then int s else int T) = int k" by (simp add: k_def min_def)
  show ?thesis
    unfolding write_block_def Let_def set_block_def
    using lookup_valid_block(1) [OF r v] rd T pos
    by (simp only: list_get_def store_block [OF r] T_def [symmetric] k_def [symmetric] T(1) n) (simp cong: option.case_cong)
qed

lemma write_block_spec:
  assumes "fs_ready d" "valid_block d (bloques a ! pos)" "pos < length (bloques a)"
    "0 < s" "s \<le> length buffer" "b < block_size d"
    "b + min s (block_size d) \<le> whole_pages (page_bytes (fsenv d)) (block_size d)"
  shows "write_block buffer (int (length buffer)) (int b) (int s) (int pos) a d
    = Inr (None, set_block d (bloques a ! pos)
        (poke b (take (block_size d - b) (drop (length buffer - s) buffer)) (block_bytes d (bloques a ! pos))))"
proof -
  let ?rest = "drop (length buffer - s) buffer"
  have "mapped_write (page_bytes (fsenv d)) (block_size d) (block_bytes d (bloques a ! pos)) (int b)
      (take (min s (block_size d)) ?rest)
    = Some (poke b (take (block_size d - b) (take (min s (block_size d)) ?rest)) (block_bytes d (bloques a ! pos)))"
    using lookup_valid_block(2) [OF assms(1,2)] assms by (intro mapped_write_block) simp_all
  moreover have "take (block_size d - b) (take (min s (block_size d)) ?rest) = take (block_size d - b) ?rest"
    using assms(4,5) by (simp add: min_def)
  ultimately show ?thesis by (simp add: write_block_eq [OF assms(1-5)])
qed

subsection \<open>The writing loop\<close>

text \<open>Only the files of the given blocks change, and the disk stays ready.\<close>

definition only_blocks :: "int set \<Rightarrow> fs \<Rightarrow> fs \<Rightarrow> bool" where
  "only_blocks S d d' \<longleftrightarrow> (\<exists>t. d' = d\<lparr>tree := t\<rparr>) \<and> fs_ready d'
     \<and> (\<forall>p. (\<forall>n \<in> S. p \<noteq> block_key d n) \<longrightarrow> node_at (tree d') p = node_at (tree d) p)"

lemma only_blocks_refl: "fs_ready d \<Longrightarrow> only_blocks S d d"
  unfolding only_blocks_def by (auto intro: exI [of _ "tree d"])

lemma only_blocks_set:
  "fs_ready d \<Longrightarrow> valid_block d n \<Longrightarrow> length c = block_size d \<Longrightarrow> n \<in> S \<Longrightarrow>
     only_blocks S (set_block d n c) d' \<Longrightarrow> only_blocks S d d'"
  unfolding only_blocks_def set_block_keys by (auto simp: set_block_at) (auto simp: set_block_def)

lemma only_blocks_bytes:
  "only_blocks S d d' \<Longrightarrow> n \<notin> S \<Longrightarrow> block_bytes d' n = block_bytes d n"
proof -
  assume a: "only_blocks S d d'" "n \<notin> S"
  then have "\<forall>m \<in> S. block_key d n \<noteq> block_key d m" by auto
  with a(1) have "node_at (tree d') (block_key d n) = node_at (tree d) (block_key d n)"
    unfolding only_blocks_def by blast
  moreover have "block_key d' n = block_key d n" using a(1) by (auto simp: only_blocks_def block_key_def base_def)
  ultimately show ?thesis by (simp add: block_bytes_def)
qed

lemma blocks_data_set:
  assumes "fs_ready d" "\<forall>n \<in> set bl. valid_block d n" "distinct bl" "i < length bl" "b + length bs \<le> block_size d"
  shows "blocks_data (set_block d (bl ! i) (poke b bs (block_bytes d (bl ! i)))) bl
    = poke (i * block_size d + b) bs (blocks_data d bl)"
proof -
  let ?c = "poke b bs (block_bytes d (bl ! i))"
  have eq: "map (block_bytes (set_block d (bl ! i) ?c)) bl = (map (block_bytes d) bl)[i := poke b bs (map (block_bytes d) bl ! i)]"
    using assms(3,4) by (intro nth_equalityI) (auto simp: nth_list_update nth_eq_iff_index_eq)
  show ?thesis
    unfolding blocks_data_def eq
    using assms lookup_valid_block(2) by (intro poke_concat) auto
qed

lemma write_blocks_spec:
  assumes "fs_ready d" "\<forall>n \<in> set (bloques a). valid_block d n" "distinct (bloques a)"
    "s \<le> length buffer" "b < block_size d"
    "b + min s (block_size d) \<le> whole_pages (page_bytes (fsenv d)) (block_size d)"
    "pos * block_size d + b + s \<le> length (bloques a) * block_size d"
  shows "\<exists>d'. write_blocks buffer (int (length buffer)) (int b) (int s) (int pos) a d = Inr (None, d')
    \<and> only_blocks (set (bloques a)) d d'
    \<and> blocks_data d' (bloques a)
        = poke (pos * block_size d + b) (drop (length buffer - s) buffer) (blocks_data d (bloques a))"
  using assms
proof (induction s arbitrary: d b pos rule: less_induct)
  case (less s)
  define T where "T = block_size d"
  have T: "tamanioBloques d = int T" "0 < T"
    using less.prems(1) by (simp_all add: T_def block_size_def fs_ready_def)
  show ?case
  proof (cases "s = 0")
    case True
    then show ?thesis using less.prems(1) by (subst write_blocks.simps) (simp add: only_blocks_refl)
  next
    case False
    have "pos * T < length (bloques a) * T" using less.prems(7) False unfolding T_def by linarith
    then have pos: "pos < length (bloques a)" using mult_less_cancel2 by blast
    define n where "n = bloques a ! pos"
    have n: "n \<in> set (bloques a)" "valid_block d n" using pos less.prems(2) by (simp_all add: n_def)
    define rest where "rest = drop (length buffer - s) buffer"
    have rest: "length rest = s" using less.prems(4) by (simp add: rest_def)
    define d1 where "d1 = set_block d n (poke b (take (T - b) rest) (block_bytes d n))"
    have len: "length (poke b (take (T - b) rest) (block_bytes d n)) = block_size d"
      using lookup_valid_block(2) [OF less.prems(1) n(2)] less.prems(5) by (simp add: T_def)
    have w: "write_block buffer (int (length buffer)) (int b) (int s) (int pos) a d = Inr (None, d1)"
      using write_block_spec [OF less.prems(1) _ pos _ less.prems(4,5,6)] n False
      by (simp add: d1_def n_def rest_def T_def)
    have d1: "fs_ready d1" "blocks_data d1 (bloques a) = poke (pos * T + b) (take (T - b) rest) (blocks_data d (bloques a))"
      using set_block_ready [OF less.prems(1) n(2) len]
        blocks_data_set [OF less.prems(1,2,3) pos, of b "take (T - b) rest"] less.prems(5)
      by (simp_all add: d1_def n_def T_def)
    have keys: "block_size d1 = T" "valid_block d1 = valid_block d" "fsenv d1 = fsenv d" "tamanioBloques d1 = int T"
      by (simp_all add: d1_def T_def [symmetric] T(1))
    have step: "write_blocks buffer (int (length buffer)) (int b) (int s) (int pos) a d
        = write_blocks buffer (int (length buffer)) 0 (int s - (int T - int b)) (int (Suc pos)) a d1"
      using False w by (subst write_blocks.simps) (simp add: T add.commute)
    show ?thesis
    proof (cases "T - b < s")
      case True
      let ?s = "s - (T - b)"
      have int_s: "int s - (int T - int b) = int ?s" using True less.prems(5) by (simp add: T_def of_nat_diff)
      have "\<exists>d'. write_blocks buffer (int (length buffer)) (int 0) (int ?s) (int (Suc pos)) a d1 = Inr (None, d')
          \<and> only_blocks (set (bloques a)) d1 d'
          \<and> blocks_data d' (bloques a)
              = poke (Suc pos * block_size d1 + 0) (drop (length buffer - ?s) buffer) (blocks_data d1 (bloques a))"
      proof (rule less.IH)
        show "?s < s" using less.prems(5) False by (simp add: T_def)
        show "0 + min ?s (block_size d1) \<le> whole_pages (page_bytes (fsenv d1)) (block_size d1)"
          unfolding keys using whole_pages_ge [of "page_bytes (fsenv d)" T] less.prems(1) by (auto simp: fs_ready_def min_def)
        show "Suc pos * block_size d1 + 0 + ?s \<le> length (bloques a) * block_size d1"
          unfolding keys using less.prems(5,7) True by (simp add: T_def [symmetric])
      qed (use d1 keys less.prems T(2) in simp_all)
      then obtain d' where d': "write_blocks buffer (int (length buffer)) 0 (int ?s) (int (Suc pos)) a d1 = Inr (None, d')"
        "only_blocks (set (bloques a)) d1 d'"
        "blocks_data d' (bloques a) = poke (Suc pos * T) (drop (length buffer - ?s) buffer) (blocks_data d1 (bloques a))"
        by (auto simp: keys)
      have tail: "drop (length buffer - ?s) buffer = drop (T - b) rest"
        using less.prems(4) True by (simp add: rest_def add.commute)
      have at: "Suc pos * T = (pos * T + b) + length (take (T - b) rest)"
        using True less.prems(5) rest by (simp add: T_def [symmetric])
      have fit: "(pos * T + b) + length (take (T - b) rest) + length (drop (T - b) rest) \<le> length (blocks_data d (bloques a))"
        using less.prems(7) rest by (simp add: length_blocks_data [OF less.prems(1,2)] T_def [symmetric])
      have "blocks_data d' (bloques a) = poke (pos * T + b) rest (blocks_data d (bloques a))"
        unfolding d'(3) tail d1(2) at using poke_poke_next [OF fit] by simp
      moreover have "only_blocks (set (bloques a)) d d'"
        using only_blocks_set [OF less.prems(1) n(2) len n(1)] d'(2) by (simp add: d1_def)
      ultimately show ?thesis using step d'(1) int_s by (simp add: rest_def T_def)
    next
      case False
      have "write_blocks buffer (int (length buffer)) 0 (int s - (int T - int b)) (int (Suc pos)) a d1 = Inr (None, d1)"
      proof -
        have "\<not> 0 < int s - (int T - int b)" using False less.prems(5) unfolding T_def by linarith
        then show ?thesis by (subst write_blocks.simps) simp
      qed
      moreover have "take (T - b) rest = rest" using False rest by simp
      moreover have "only_blocks (set (bloques a)) d d1"
        using only_blocks_set [OF less.prems(1) n(2) len n(1)] only_blocks_refl [OF d1(1)] by (simp add: d1_def)
      ultimately show ?thesis using step d1(2) by (simp add: rest_def T_def)
    qed
  qed
qed

end
