(* ===== verification/FS_Files.thy ===== *)
theory FS_Files
  imports FS_Laws
begin

text \<open>
  What \<open>guardarDatos\<close>, \<open>crear\<close> and \<open>borrar\<close> make of the disk: the abstract directory and the contents
  afterwards, the error answers, and what goes wrong.
\<close>

subsection \<open>The metadata of a file\<close>

lemma archivos_directory:
  assumes "fs_ready d"
  shows "node_at (tree d) (archivos d) = Some Directory"
proof -
  have "dirs_to (tree d) (archivos d @ [[]])" using assms by (simp add: fs_ready_def)
  then show ?thesis unfolding dirs_to_append by (simp add: archivos_def)
qed

lemma file_parent:
  assumes "dirs_to (tree d) (file_key d path)" "components path \<noteq> []"
  shows "node_at (tree d) (butlast (file_key d path)) = Some Directory"
proof -
  have "0 < length (file_key d path) - 1" "length (file_key d path) - 1 < length (file_key d path)"
    using assms(2) by (auto simp: file_key_def archivos_def)
  then show ?thesis using assms(1) unfolding butlast_conv_take dirs_to_def by blast
qed

lemma file_key_dir:
  assumes "fs_ready d" "node_at (tree d) (file_key d path) = Some (Regular c)" "dirs_to (tree d) (file_key d path)"
  shows "node_at (tree d) (butlast (file_key d path)) = Some Directory"
proof (rule file_parent [OF assms(3)])
  show "components path \<noteq> []" using archivos_directory [OF assms(1)] assms(2) by (auto simp: file_key_def)
qed

lemma dirs_to_other: "dirs_to t p \<Longrightarrow> \<forall>q. length q < length p \<longrightarrow> node_at t' q = node_at t q \<Longrightarrow> dirs_to t' p"
  by (simp add: dirs_to_def)

lemma lookup_regular_walk:
  assumes "fs_ready d" "plain_path path" "lookup_path (tree d) (armarPathArchivo path d) = Some (Regular c)"
  shows "walk (tree d) [] (components (armarPathArchivo path d)) = Some (file_key d path)"
    "dirs_to (tree d) (file_key d path)" "\<not> ends_with_slash (armarPathArchivo path d)"
    "node_at (tree d) (file_key d path) = Some (Regular c)"
  using assms(3) unfolding is_regular_iff [OF assms(1,2)] by (simp_all add: walk_file [OF assms(1,2)])

lemma write_text_file:
  assumes "fs_ready d" "plain_path path" "lookup_path (tree d) (armarPathArchivo path d) = Some (Regular c)"
  shows "posix_remove (armarPathArchivo path d) (tree d) = Some (AList.delete (file_key d path) (tree d))"
    "write_text (armarPathArchivo path d) txt (AList.delete (file_key d path) (tree d))
      = Some (AList.update (file_key d path) (Regular txt) (AList.delete (file_key d path) (tree d)))"
proof -
  note l = lookup_regular_walk [OF assms]
  show "posix_remove (armarPathArchivo path d) (tree d) = Some (AList.delete (file_key d path) (tree d))"
    by (simp add: posix_remove_def l(1) assms(3))
  let ?t = "AList.delete (file_key d path) (tree d)"
  have dirs: "dirs_to ?t (file_key d path)" using dirs_to_other [OF l(2), of ?t] by auto
  have comp: "components (armarPathArchivo path d) = file_key d path"
    using assms(1) by (simp add: components_archivo fs_ready_def)
  have walk: "walk ?t [] (components (armarPathArchivo path d)) = Some (file_key d path)"
    using dirs plain_file_key [OF assms(1,2)] by (simp add: comp walk_root)
  have "butlast (file_key d path) \<noteq> file_key d path"
    by (metis append_butlast_last_id append_self_conv file_key_nonempty not_Cons_self2)
  with file_key_dir [OF assms(1) l(4,2)] l(3) show
    "write_text (armarPathArchivo path d) txt ?t = Some (AList.update (file_key d path) (Regular txt) ?t)"
    by (simp add: write_text_def walk)
qed

lemma metadata_write:
  assumes "fs_ready d" "plain_path path" "lookup_path (tree d) (armarPathArchivo path d) = Some (Regular c)"
  shows "metadataFS_write (armarPathArchivo path d) a d = Inr (d\<lparr>tree :=
      AList.update (file_key d path) (Regular (metadata_text a)) (AList.delete (file_key d path) (tree d))\<rparr>)"
  by (simp add: metadataFS_write_def write_text_file [OF assms])

subsection \<open>The invariant\<close>

lemma good_file_mono:
  assumes "good_file d a" "valid_block d' = valid_block d" "tamanioBloques d' = tamanioBloques d"
    "\<And>b. valid_block d b \<Longrightarrow> bitmap d ! nat b \<Longrightarrow> bitmap d' ! nat b"
  shows "good_file d' a"
  using assms by (simp add: good_file_def)

lemma file_blocks_used: "fs_inv d M \<Longrightarrow> M q = Some a \<Longrightarrow> set (bloques a) \<inter> free_blocks d = {}"
  by (auto simp: fs_inv_def files_ok_def good_file_def free_blocks_def)

lemma change_keys [simp]:
  "archivos (d\<lparr>bitmap := m, tree := t\<rparr>) = archivos d" "valid_block (d\<lparr>bitmap := m, tree := t\<rparr>) = valid_block d"
  "block_key (d\<lparr>bitmap := m, tree := t\<rparr>) = block_key d" "block_size (d\<lparr>bitmap := m, tree := t\<rparr>) = block_size d" "file_key (d\<lparr>bitmap := m, tree := t\<rparr>) = file_key d"
  "armarPathArchivo p (d\<lparr>bitmap := m, tree := t\<rparr>) = armarPathArchivo p d"
  "archivos (d\<lparr>bitmap := m\<rparr>) = archivos d" "valid_block (d\<lparr>bitmap := m\<rparr>) = valid_block d"
  "block_key (d\<lparr>bitmap := m\<rparr>) = block_key d" "block_size (d\<lparr>bitmap := m\<rparr>) = block_size d" "file_key (d\<lparr>bitmap := m\<rparr>) = file_key d"
  "armarPathArchivo p (d\<lparr>bitmap := m\<rparr>) = armarPathArchivo p d"
  "archivos (d\<lparr>tree := t\<rparr>) = archivos d" "valid_block (d\<lparr>tree := t\<rparr>) = valid_block d"
  "block_key (d\<lparr>tree := t\<rparr>) = block_key d" "block_size (d\<lparr>tree := t\<rparr>) = block_size d" "file_key (d\<lparr>tree := t\<rparr>) = file_key d"
  "armarPathArchivo p (d\<lparr>tree := t\<rparr>) = armarPathArchivo p d"
  by (simp_all add: archivos_def base_def valid_block_def bitarray_get_max_bit_def block_key_def block_size_def
      file_key_def armarPathArchivo_def fun_eq_iff)

lemma file_change_inv:
  assumes inv: "fs_inv d M" and m: "length m = length (bitmap d)" "\<forall>i. bitmap d ! i \<longrightarrow> i < length m \<longrightarrow> m ! i"
    and ready: "fs_ready (d\<lparr>bitmap := m, tree := t\<rparr>)"
    and others: "\<forall>r. r \<noteq> q \<longrightarrow> node_at t (archivos d @ r) = node_at (tree d) (archivos d @ r)"
    and at_q: "node_at t (archivos d @ q) = Some (Regular (metadata_text a))"
    and good: "good_file (d\<lparr>bitmap := m, tree := t\<rparr>) a"
    and blocks: "set (bloques a) \<subseteq> (case M q of Some a0 \<Rightarrow> set (bloques a0) | None \<Rightarrow> {}) \<union> free_blocks d"
  shows "fs_inv (d\<lparr>bitmap := m, tree := t\<rparr>) (M(q \<mapsto> a))"
proof -
  let ?d = "d\<lparr>bitmap := m, tree := t\<rparr>"
  have ok: "files_ok d M" using inv by (simp add: fs_inv_def)
  have mono: "good_file d b \<Longrightarrow> good_file ?d b" for b
  proof (rule good_file_mono)
    fix n assume "valid_block d n" "bitmap d ! nat n"
    moreover have "bitmap_ok d" using inv by (simp add: fs_inv_def fs_ready_def)
    ultimately show "bitmap ?d ! nat n" using m by (auto simp: bitmap_ok_def valid_block_def)
  qed simp_all
  have apart: "set (bloques a) \<inter> set (bloques b) = {}" if b: "r \<noteq> q" "M r = Some b" for r b
  proof -
    have "set (bloques b) \<inter> free_blocks d = {}" by (rule file_blocks_used [OF inv b(2)])
    moreover have "set (bloques a0) \<inter> set (bloques b) = {}" if "M q = Some a0" for a0
      using ok that b unfolding files_ok_def by blast
    ultimately show ?thesis using blocks by (auto split: option.splits)
  qed
  have "files_ok ?d (M(q \<mapsto> a))"
    unfolding files_ok_def change_keys
  proof (intro conjI allI impI)
    fix r b assume "(M(q \<mapsto> a)) r = Some b"
    then show "node_at (tree ?d) (archivos d @ r) = Some (Regular (metadata_text b))" "good_file ?d b"
      using ok at_q good others mono unfolding files_ok_def by (auto split: if_splits)
  next
    fix r c assume "node_at (tree ?d) (archivos d @ r) = Some (Regular c)"
    then show "(M(q \<mapsto> a)) r \<noteq> None" using ok others unfolding files_ok_def by auto
  next
    fix r s b c assume "(M(q \<mapsto> a)) r = Some b" "(M(q \<mapsto> a)) s = Some c" "r \<noteq> s"
    then show "set (bloques b) \<inter> set (bloques c) = {}"
      using apart [of r b] apart [of s c] ok [unfolded files_ok_def] by (cases "r = q"; cases "s = q") auto
  qed
  with ready show ?thesis by (simp add: fs_inv_def)
qed

subsection \<open>Writing\<close>

definition missing_blocks :: "fs \<Rightarrow> t_metadata_archivo \<Rightarrow> nat \<Rightarrow> nat" where
  "missing_blocks d a fin = (fin - length (bloques a) * block_size d + block_size d - 1) div block_size d"

lemma missing_blocks_cover:
  assumes "0 < block_size d" "bloques a \<noteq> []"
  shows "fin \<le> (length (bloques a) + missing_blocks d a fin) * block_size d"
    "0 < missing_blocks d a fin \<Longrightarrow> (length (bloques a) + missing_blocks d a fin - 1) * block_size d < fin"
proof -
  define T x k where "T = block_size d" and "x = fin - length (bloques a) * T" and "k = (x + T - 1) div T"
  have T: "0 < T" using assms by (simp add: T_def)
  have k: "missing_blocks d a fin = k" by (simp add: missing_blocks_def k_def x_def T_def)
  have "x + T - 1 < k * T + T" using dividend_less_div_times [OF T, of "x + T - 1"] by (simp add: k_def add.commute)
  then show "fin \<le> (length (bloques a) + missing_blocks d a fin) * block_size d"
    unfolding k by (simp add: T_def [symmetric] x_def add_mult_distrib)
  show "(length (bloques a) + missing_blocks d a fin - 1) * block_size d < fin" if "0 < missing_blocks d a fin"
  proof -
    obtain j where j: "k = Suc j" using \<open>0 < missing_blocks d a fin\<close> k by (cases k) auto
    have "k * T \<le> x + T - 1" by (simp add: k_def)
    then have "j * T < x" using T by (simp add: j)
    then show ?thesis unfolding k by (simp add: j T_def [symmetric] x_def add_mult_distrib)
  qed
qed

lemma ulong_small [simp]: "0 \<le> x \<Longrightarrow> x < 2 ^ 64 \<Longrightarrow> ulong x = x"
  by (simp add: ulong_def)

lemma new_blocks_exact:
  assumes r: "fs_ready d" and fin: "fin = off + len" "int fin < cantidadBloques d * tamanioBloques d"
    and small: "cantidadBloques d * tamanioBloques d < 2 ^ 24" and n: "int (length (bloques a)) \<le> cantidadBloques d"
  shows "new_blocks (int off) (int len) (length (bloques a)) d = int (missing_blocks d a fin)"
proof -
  define T H where "T = block_size d" and "H = length (bloques a) * T"
  have T: "tamanioBloques d = int T" "0 < T" using r by (simp_all add: T_def block_size_def fs_ready_def)
  have "int fin < 2 ^ 24" using fin(2) small by linarith
  then have fin24: "fin < 2 ^ 24" by simp
  have "0 < cantidadBloques d * int T" using fin(2) unfolding T(1) by linarith
  then have cant: "0 < cantidadBloques d" using T(2) by (simp add: zero_less_mult_iff)
  have "int H \<le> cantidadBloques d * int T" unfolding H_def of_nat_mult using n by (intro mult_right_mono) simp_all
  then have h: "int H < 2 ^ 24" using small unfolding T(1) by linarith
  have "1 * int T \<le> cantidadBloques d * int T" using cant by (intro mult_right_mono) simp_all
  then have "int T < 2 ^ 24" using small unfolding T(1) by linarith
  then have T24: "T < 2 ^ 24" by simp
  have u: "ulong (int off + int len) = int fin" "ulong (int (length (bloques a)) * tamanioBloques d) = int H"
    "ulong (int (length (bloques a)) * int T) = int H"
    using fin24 h by (simp_all add: fin(1) T(1) H_def flip: of_nat_mult of_nat_add)
  show ?thesis
  proof (cases "H < fin")
    case True
    then have "ulong (int fin - int H) = int (fin - H)" "nat (int fin - int H) = fin - H"
      using fin24 by (simp_all add: of_nat_diff nat_diff_distrib)
    then show ?thesis
      using True fin24 ceil_quotient_exact [of "fin - H" T] T T24
      by (simp add: new_blocks_def Let_def u missing_blocks_def T_def [symmetric] H_def [symmetric])
  next
    case False
    then show ?thesis
      using T(2) by (simp add: new_blocks_def Let_def u missing_blocks_def T_def [symmetric] H_def [symmetric])
  qed
qed

lemma only_blocks_directory:
  assumes "fs_ready d" "\<forall>n \<in> S. valid_block d n" "only_blocks S d d'" "node_at (tree d) p = Some Directory"
  shows "node_at (tree d') p = Some Directory"
proof -
  have "\<forall>n \<in> S. p \<noteq> block_key d n" using assms(2,4) lookup_valid_block(3) [OF assms(1)] by fastforce
  with assms(3,4) show ?thesis unfolding only_blocks_def by metis
qed

lemma content_poke:
  assumes "off \<le> nat (tamanio a)" "nat (tamanio a) \<le> length (blocks_data d (bloques a))"
    "off + length bs \<le> length D" "D = blocks_data d (bloques a) @ fresh"
  shows "take (max (nat (tamanio a)) (off + length bs)) (poke off bs D)
    = take off (file_bytes d a) @ bs @ drop (off + length bs) (file_bytes d a)"
  using assms by (auto simp: poke_def file_bytes_def max_def min_def drop_take)

subsection \<open>A write request that is served\<close>

text \<open>The file is there, there is something to write, and it ends before the end of a disk below 16 MiB.\<close>

definition writes_to :: "fs \<Rightarrow> (cstring list \<rightharpoonup> t_metadata_archivo) \<Rightarrow> cstring \<Rightarrow> t_metadata_archivo \<Rightarrow> nat \<Rightarrow> byte list \<Rightarrow> bool"
  where
  "writes_to d M path a off bs \<longleftrightarrow>
     fs_inv d M \<and> reads_metadata (fsenv d) \<and> plain_path path
     \<and> validar (armarPathArchivo path d) d = 1 \<and> M (components path) = Some a
     \<and> bs \<noteq> [] \<and> int (off + length bs) < cantidadBloques d * tamanioBloques d
     \<and> cantidadBloques d * tamanioBloques d < 2 ^ 24"

definition grown :: "t_metadata_archivo \<Rightarrow> nat \<Rightarrow> int list \<Rightarrow> t_metadata_archivo" where
  "grown a fin new = \<lparr>tamanio = max (tamanio a) (int fin), bloques = bloques a @ new\<rparr>"

lemma writes_to_facts:
  assumes "writes_to d M path a off bs"
  shows "fs_inv d M" "fs_ready d" "plain_path path" "good_file d a" "M (components path) = Some a"
    "lookup_path (tree d) (armarPathArchivo path d) = Some (Regular (metadata_text a))"
    "read_fileMetadata (armarPathArchivo path d) d = Inr a" "off + length bs < 2 ^ 24"
    "validar (armarPathArchivo path d) d = 1" "bs \<noteq> []"
    "int (off + length bs) < cantidadBloques d * tamanioBloques d" "cantidadBloques d * tamanioBloques d < 2 ^ 24"
proof -
  note w = assms [unfolded writes_to_def]
  show "fs_inv d M" "plain_path path" and M: "M (components path) = Some a"
    and "validar (armarPathArchivo path d) d = 1" "bs \<noteq> []"
    "int (off + length bs) < cantidadBloques d * tamanioBloques d" "cantidadBloques d * tamanioBloques d < 2 ^ 24"
    using w by blast+
  show r: "fs_ready d" using w by (simp add: fs_inv_def)
  obtain a' where "M (components path) = Some a'"
    "lookup_path (tree d) (armarPathArchivo path d) = Some (Regular (metadata_text a'))" "good_file d a'"
    using validar_file [of d M path] w by metis
  with M show l: "lookup_path (tree d) (armarPathArchivo path d) = Some (Regular (metadata_text a))"
    and g: "good_file d a" by simp_all
  show "read_fileMetadata (armarPathArchivo path d) d = Inr a" using read_metadata [OF r _ g l] w by blast
  have "int (off + length bs) < 2 ^ 24" using w by linarith
  then show "off + length bs < 2 ^ 24" by simp
qed

lemma block_quotient:
  assumes "fs_ready d"
  shows "c_quot (int off) (tamanioBloques d) = int (off div block_size d)"
    "int off - int (off div block_size d) * tamanioBloques d = int (off mod block_size d)"
proof -
  have T: "tamanioBloques d = int (block_size d)" "0 < block_size d"
    using assms by (simp_all add: block_size_def fs_ready_def)
  show "c_quot (int off) (tamanioBloques d) = int (off div block_size d)"
    using T(2) by (simp add: T(1) c_quot_nonneg zdiv_int)
  show "int off - int (off div block_size d) * tamanioBloques d = int (off mod block_size d)"
    using T(2) by (simp add: T(1) zmod_int zdiv_int minus_div_mult_eq_mod)
qed

text \<open>What is left of \<open>guardarDatos\<close> once its guards have passed.\<close>

lemma guardar_guards:
  assumes w: "writes_to d M path a off bs"
  defines "fin \<equiv> off + length bs" and "p \<equiv> armarPathArchivo path d"
  shows "guardarDatos p (int off) (int (length bs)) bs d =
    (if missing_blocks d a fin \<le> card (free_blocks d) then
       and_then (assign_blocks (missing_blocks d a fin) a d) (\<lambda>(archivo1, d1).
       and_then (write_blocks bs (int (length bs)) (int (off mod block_size d)) (int (length bs))
          (int (off div block_size d)) archivo1 d1)
         (\<lambda>(failed, d2). case failed of Some r \<Rightarrow> Inr (r, d2)
          | None \<Rightarrow> and_then (metadataFS_write p
              (if ulong (int fin) > ulong (tamanio archivo1)
               then archivo1\<lparr>tamanio := int_of_wide (int fin)\<rparr> else archivo1) d2)
              (\<lambda>d3. Inr (1, d3))))
     else Inr (- ENOSPC, d))"
proof -
  note f = writes_to_facts [OF w]
  let ?k = "missing_blocks d a fin"
  have nb: "new_blocks (int off) (int (length bs)) (length (bloques a)) d = int ?k"
    using new_blocks_exact [OF f(2) meta_eq_to_obj_eq [OF fin_def] _ f(12), of a] f(11) good_file_bounds(4) [OF f(2,4)] by (simp add: fin_def)
  have "bitmap_ok d" using f(2) by (simp add: fs_ready_def)
  then have hay: "0 < ?k \<Longrightarrow> hayNBloquesLibres (int ?k) d = Inr (?k \<le> card (free_blocks d))"
    using hayN_spec [of d "int ?k"] by simp
  have wide: "int_of_wide (int (length bs)) = int (length bs)" using f(8) by simp
  have disk: "ulong (cantidadBloques d * tamanioBloques d) = cantidadBloques d * tamanioBloques d"
    using f(11,12) by simp
  have sum: "int off + int (length bs) = int fin" by (simp add: fin_def)
  have guard: "\<not> ulong (cantidadBloques d * tamanioBloques d) \<le> ulong (int fin)"
    using f(8,11) unfolding disk by (simp add: fin_def)
  note q = block_quotient [OF f(2), of off]
  show ?thesis
    unfolding guardarDatos_def Let_def sum
    using guard f(7,9,10) nb hay
    by (cases "?k = 0") (simp_all add: p_def [symmetric] q wide del: assign_blocks.simps)
qed

lemma assign_blocks_spec:
  assumes "fs_inv d M" "M q = Some a" "k \<le> card (free_blocks d)"
  obtains new m where "assign_blocks k a d = Inr (a\<lparr>bloques := bloques a @ new\<rparr>, d\<lparr>bitmap := m\<rparr>)"
    "length new = k" "set new \<subseteq> free_blocks d" "distinct (bloques a @ new)" "length m = length (bitmap d)"
    "\<forall>i. bitmap d ! i \<longrightarrow> i < length m \<longrightarrow> m ! i"
    "\<forall>b \<in> set (bloques a @ new). valid_block d b \<and> m ! nat b" "fs_ready (d\<lparr>bitmap := m\<rparr>)"
proof -
  have r: "fs_ready d" and ok: "bitmap_ok d" using assms(1) by (simp_all add: fs_inv_def fs_ready_def)
  have g: "good_file d a" using assms(1,2) by (simp add: fs_inv_def files_ok_def)
  obtain new d1 where res: "reserve encontrarUnBloqueLibre ocuparBloqueLibre k d = Inr (new, d1)"
    "length new = k" "distinct new" "set new \<subseteq> free_blocks d"
    using bitmap.reserve_fresh [OF ok assms(3)] by blast
  obtain m where m: "d1 = d\<lparr>bitmap := m\<rparr>" "length m = length (bitmap d)"
    "\<forall>i. bitmap d ! i \<longrightarrow> i < length m \<longrightarrow> m ! i" "\<forall>b \<in> set new. 0 \<le> b \<and> nat b < length m \<and> m ! nat b"
    using reserve_bitmap [OF res(1)] by blast
  have "m ! nat b" if b: "b \<in> set (bloques a)" for b
  proof -
    have "bitmap d ! nat b" "nat b < length m"
      using b g ok m(2) by (auto simp: good_file_def valid_block_def bitmap_ok_def intro: less_le_trans)
    then show ?thesis using m(3) by blast
  qed
  then have marked: "\<forall>b \<in> set (bloques a @ new). valid_block d b \<and> m ! nat b"
    using g res(4) m(4) by (auto simp: good_file_def free_blocks_def valid_block_def)
  have "fs_ready (d\<lparr>bitmap := m, tree := tree d\<rparr>)"
    using lookup_valid_block [OF r] by (intro fs_ready_change [OF r m(2)]) auto
  moreover have "distinct (bloques a @ new)"
    using g res(3,4) file_blocks_used [OF assms(1,2)] by (auto simp: good_file_def)
  ultimately show thesis
    using that [of new m] res marked m by (simp add: assign_blocks_reserve)
qed

lemma grown_good:
  assumes g: "good_file d a" and r: "fs_ready d" and new: "length new = missing_blocks d a fin"
    and "distinct (bloques a @ new)" "\<forall>b \<in> set (bloques a @ new). valid_block d b \<and> m ! nat b"
  shows "good_file (d\<lparr>bitmap := m, tree := t\<rparr>) (grown a fin new)"
proof -
  define T where "T = block_size d"
  have T: "tamanioBloques d = int T" "0 < T" using r by (simp_all add: T_def block_size_def fs_ready_def)
  have ne: "bloques a \<noteq> []" "0 \<le> tamanio a" using g by (simp_all add: good_file_def)
  note cover = missing_blocks_cover [OF _ ne(1), of d fin, folded T_def new, OF T(2)]
  have "int fin \<le> int ((length (bloques a) + length new) * T)" using cover(1) by (simp only: of_nat_le_iff)
  moreover have "tamanio a \<le> int (length (bloques a) * T)" using g T(1) by (simp add: good_file_def)
  moreover have "int (length (bloques a) * T) \<le> int ((length (bloques a) + length new) * T)"
    by (simp only: of_nat_le_iff) simp
  ultimately have up: "max (tamanio a) (int fin) \<le> int ((length (bloques a) + length new) * T)" by linarith
  have low: "length (bloques a) + length new = 1
    \<or> int (length (bloques a) + length new - 1) * int T < max (tamanio a) (int fin)"
  proof (cases "length new = 0")
    case True
    then show ?thesis using g T(1) by (auto simp: good_file_def)
  next
    case False
    then have "int ((length (bloques a) + length new - 1) * T) < int fin" using cover(2) by (simp only: of_nat_less_iff)
    then have "int ((length (bloques a) + length new - 1) * T) < max (tamanio a) (int fin)" by linarith
    then show ?thesis by simp
  qed
  from up low assms(4,5) ne show ?thesis by (simp add: good_file_def grown_def T(1))
qed

text \<open>Only bits and files change: the directories are still there.\<close>

definition same_place :: "fs \<Rightarrow> fs \<Rightarrow> bool" where
  "same_place d d' \<longleftrightarrow> d' = d\<lparr>bitmap := bitmap d', tree := tree d'\<rparr>
     \<and> (\<forall>q. node_at (tree d) q = Some Directory \<longrightarrow> node_at (tree d') q = Some Directory)"

text \<open>The new metadata in place of the old: the invariant holds of the new directory.\<close>

lemma store_metadata:
  assumes inv: "fs_inv d M" and path: "plain_path path"
    and look: "lookup_path (tree d) (armarPathArchivo path d) = Some (Regular c)"
    and m: "length m = length (bitmap d)" "\<forall>i. bitmap d ! i \<longrightarrow> i < length m \<longrightarrow> m ! i"
    and S: "\<forall>n \<in> S. valid_block d n" and ob: "only_blocks S (d\<lparr>bitmap := m\<rparr>) d2"
    and good: "\<And>t. good_file (d\<lparr>bitmap := m, tree := t\<rparr>) a2"
    and blocks: "set (bloques a2) \<subseteq> (case M (components path) of Some a0 \<Rightarrow> set (bloques a0) | None \<Rightarrow> {}) \<union> free_blocks d"
  obtains d3 where "metadataFS_write (armarPathArchivo path d) a2 d2 = Inr d3"
    "fs_inv d3 (M(components path \<mapsto> a2))" "block_bytes d3 = block_bytes d2" "same_place d d3"
proof -
  have r: "fs_ready d" using inv by (simp add: fs_inv_def)
  note was = lookup_regular_walk [OF r path look]
  obtain t where t: "d2 = d\<lparr>bitmap := m, tree := t\<rparr>" using ob unfolding only_blocks_def by auto
  have r2: "fs_ready d2" using ob by (simp add: only_blocks_def)
  have same: "node_at t (archivos d @ q) = node_at (tree d) (archivos d @ q)" for q
    using ob unfolding only_blocks_def t by simp
  have rm: "fs_ready (d\<lparr>bitmap := m, tree := tree d\<rparr>)"
    using lookup_valid_block [OF r] by (intro fs_ready_change [OF r m(1)]) auto
  have dir: "node_at (tree d) q = Some Directory \<Longrightarrow> node_at t q = Some Directory" for q
    using only_blocks_directory [OF rm, of S d2 q] S ob by (simp add: t)
  have "lookup_path (tree d2) (armarPathArchivo path d2) = Some (Regular c)"
    unfolding is_regular_iff [OF r2 path]
    using was dir same [of "components path"] by (simp add: t dirs_to_def file_key_def)
  from metadata_write [OF r2 path this, of a2]
  obtain d3 where d3: "metadataFS_write (armarPathArchivo path d) a2 d2 = Inr d3"
    "d3 = d\<lparr>bitmap := m, tree := AList.update (file_key d path) (Regular (metadata_text a2))
      (AList.delete (file_key d path) t)\<rparr>"
    by (simp add: t)
  let ?t = "AList.update (file_key d path) (Regular (metadata_text a2)) (AList.delete (file_key d path) t)"
  have dir3: "node_at ?t q = Some Directory" if q: "node_at (tree d) q = Some Directory" for q
  proof -
    have "q \<noteq> file_key d path" using q was(4) by auto
    with dir [OF q] show ?thesis by simp
  qed
  have "fs_ready (d\<lparr>bitmap := m, tree := ?t\<rparr>)"
  proof (rule fs_ready_change [OF r m(1)])
    fix q assume "node_at (tree d) q = Some Directory"
    then show "node_at ?t q = Some Directory" by (rule dir3)
  next
    fix n assume "valid_block d n"
    then have "valid_block d2 n" by (simp add: t)
    then show "\<exists>c. node_at ?t (block_key d n) = Some (Regular c) \<and> length c = block_size d"
      using lookup_valid_block [OF r2] by (auto simp: t)
  qed
  then have "fs_inv (d\<lparr>bitmap := m, tree := ?t\<rparr>) (M(components path \<mapsto> a2))"
    using same good blocks by (intro file_change_inv [OF inv m]) (simp_all add: file_key_def)
  moreover have "block_bytes d3 = block_bytes d2"
    by (simp add: block_bytes_def d3(2) t fun_eq_iff)
  moreover have "same_place d d3" unfolding same_place_def using dir3 by (simp add: d3(2))
  ultimately show thesis using that d3 by blast
qed

text \<open>
  A write that fits answers 1, gives the file the blocks it needs out of the free ones, overlays
  the buffer on the file's bytes, and leaves every other block alone.
\<close>

lemma guardar_spec:
  assumes w: "writes_to d M path a off bs"
    and room: "missing_blocks d a (off + length bs) \<le> card (free_blocks d)"
    and page: "off mod block_size d + min (length bs) (block_size d) \<le> whole_pages (page_bytes (fsenv d)) (block_size d)"
  obtains d' new where "guardarDatos (armarPathArchivo path d) (int off) (int (length bs)) bs d = Inr (1, d')"
    "length new = missing_blocks d a (off + length bs)" "set new \<subseteq> free_blocks d"
    "fs_inv d' (M(components path \<mapsto> grown a (off + length bs) new))"
    "blocks_data d' (bloques a @ new) = poke off bs (blocks_data d (bloques a @ new))"
    "\<forall>n. n \<notin> set (bloques a @ new) \<longrightarrow> block_bytes d' n = block_bytes d n"
    "\<forall>b \<in> set (bloques a @ new). valid_block d b" "same_place d d'"
proof -
  define fin T where "fin = off + length bs" and "T = block_size d"
  note f = writes_to_facts [OF w]
  have T: "tamanioBloques d = int T" "0 < T" using f(2) by (simp_all add: T_def block_size_def fs_ready_def)
  have ne: "bloques a \<noteq> []" using f(4) by (simp add: good_file_def)
  note cover = missing_blocks_cover [OF _ ne, of d fin, folded T_def, OF T(2)]
  obtain new m where as: "assign_blocks (missing_blocks d a fin) a d
      = Inr (a\<lparr>bloques := bloques a @ new\<rparr>, d\<lparr>bitmap := m\<rparr>)"
    "length new = missing_blocks d a fin" "set new \<subseteq> free_blocks d" "distinct (bloques a @ new)"
    "length m = length (bitmap d)" "\<forall>i. bitmap d ! i \<longrightarrow> i < length m \<longrightarrow> m ! i"
    "\<forall>b \<in> set (bloques a @ new). valid_block d b \<and> m ! nat b" "fs_ready (d\<lparr>bitmap := m\<rparr>)"
    using assign_blocks_spec [OF f(1,5) room] unfolding fin_def by metis
  let ?a1 = "a\<lparr>bloques := bloques a @ new\<rparr>" and ?d1 = "d\<lparr>bitmap := m\<rparr>"
  have bytes1: "block_bytes ?d1 = block_bytes d" by (simp add: fun_eq_iff block_bytes_def)
  have "\<exists>d2. write_blocks bs (int (length bs)) (int (off mod T)) (int (length bs)) (int (off div T)) ?a1 ?d1 = Inr (None, d2)
    \<and> only_blocks (set (bloques ?a1)) ?d1 d2
    \<and> blocks_data d2 (bloques ?a1)
        = poke (off div T * block_size ?d1 + off mod T) (drop (length bs - length bs) bs) (blocks_data ?d1 (bloques ?a1))"
  proof (rule write_blocks_spec [OF as(8)])
    show "off div T * block_size ?d1 + off mod T + length bs \<le> length (bloques ?a1) * block_size ?d1"
      using cover(1) as(2) by (simp add: T_def [symmetric] fin_def)
    show "off mod T + min (length bs) (block_size ?d1) \<le> whole_pages (page_bytes (fsenv ?d1)) (block_size ?d1)"
      using page by (simp add: T_def)
    show "off mod T < block_size ?d1" using T(2) by (simp add: T_def)
  qed (use as in simp_all)
  then obtain d2 where d2: "write_blocks bs (int (length bs)) (int (off mod T)) (int (length bs)) (int (off div T)) ?a1 ?d1 = Inr (None, d2)"
    "only_blocks (set (bloques a @ new)) ?d1 d2"
    "blocks_data d2 (bloques a @ new) = poke off bs (blocks_data d (bloques a @ new))"
    by (auto simp: blocks_data_def bytes1 T_def)
  have good: "good_file (d\<lparr>bitmap := m, tree := t\<rparr>) (grown a fin new)" for t
    by (rule grown_good [OF f(4,2) as(2,4,7)])
  obtain d3 where d3: "metadataFS_write (armarPathArchivo path d) (grown a fin new) d2 = Inr d3"
    "fs_inv d3 (M(components path \<mapsto> grown a fin new))" "block_bytes d3 = block_bytes d2" "same_place d d3"
    using store_metadata [OF f(1,3,6) as(5,6) _ d2(2) good] as(3,7) f(5) by (auto simp: grown_def)
  have t0: "0 \<le> tamanio a" "tamanio a < 2 ^ 31" using f(4) good_file_bounds [OF f(2,4)] by (simp_all add: good_file_def)
  have size: "(if ulong (int fin) > ulong (tamanio ?a1) then ?a1\<lparr>tamanio := int_of_wide (int fin)\<rparr> else ?a1) = grown a fin new"
    using f(8) t0 by (auto simp: grown_def max_def fin_def)
  have "guardarDatos (armarPathArchivo path d) (int off) (int (length bs)) bs d = Inr (1, d3)"
    unfolding guardar_guards [OF w] fin_def [symmetric] T_def [symmetric]
    using room as(1) d2(1) d3(1) size by (simp add: fin_def [symmetric])
  moreover have "\<forall>n. n \<notin> set (bloques a @ new) \<longrightarrow> block_bytes d3 n = block_bytes d n"
    using only_blocks_bytes [OF d2(2)] by (simp add: d3(3) bytes1)
  moreover have "blocks_data d3 (bloques a @ new) = poke off bs (blocks_data d (bloques a @ new))"
    using d2(3) by (simp add: blocks_data_def d3(3))
  ultimately show thesis using that as(2,3,7) d3(2,4) by (simp add: fin_def)
qed

subsection \<open>What the users of the files see\<close>

lemma content_other:
  assumes "fs_inv d M" "M r = Some b" "\<forall>n \<in> set (bloques b). block_bytes d' n = block_bytes d n"
  shows "file_bytes d' b = file_bytes d b"
proof -
  have "map (block_bytes d') (bloques b) = map (block_bytes d) (bloques b)" using assms(3) by simp
  then show ?thesis unfolding file_bytes_def blocks_data_def by (simp only:)
qed

lemma content_grown:
  assumes g: "good_file d a" and r: "fs_ready d" and off: "int off \<le> tamanio a"
    and new: "length new = missing_blocks d a (off + length bs)" "\<forall>b \<in> set (bloques a @ new). valid_block d b"
    and data: "blocks_data d' (bloques a @ new) = poke off bs (blocks_data d (bloques a @ new))"
  shows "file_bytes d' (grown a (off + length bs) new)
    = take off (file_bytes d a) @ bs @ drop (off + length bs) (file_bytes d a)"
proof -
  have ne: "bloques a \<noteq> []" "0 \<le> tamanio a" using g by (simp_all add: good_file_def)
  note cover = missing_blocks_cover(1) [OF block_size_pos [OF r] ne(1), of "off + length bs", folded new(1)]
  have T: "tamanioBloques d = int (block_size d)" using r by (simp add: block_size_def fs_ready_def)
  have "tamanio a \<le> int (length (bloques a) * block_size d)" using g T by (simp add: good_file_def)
  then have len: "nat (tamanio a) \<le> length (blocks_data d (bloques a))"
    using length_blocks_data [OF r] new(2) by (simp add: nat_le_iff)
  have "length (blocks_data d (bloques a @ new)) = (length (bloques a) + length new) * block_size d"
    using length_blocks_data [OF r new(2)] by simp
  then have "off + length bs \<le> length (blocks_data d (bloques a @ new))" using cover by simp
  moreover have "off \<le> nat (tamanio a)" using off by simp
  moreover have "blocks_data d (bloques a @ new) = blocks_data d (bloques a) @ blocks_data d new"
    by (simp add: blocks_data_def)
  ultimately have "take (max (nat (tamanio a)) (off + length bs)) (poke off bs (blocks_data d (bloques a @ new)))
      = take off (file_bytes d a) @ bs @ drop (off + length bs) (file_bytes d a)"
    using len by (intro content_poke)
  moreover have "nat (max (tamanio a) (int (off + length bs))) = max (nat (tamanio a)) (off + length bs)"
    by (cases "tamanio a \<le> int (off + length bs)") (simp_all add: max_def nat_le_iff)
  ultimately show ?thesis by (simp add: file_bytes_def [of d'] grown_def data)
qed

lemma guardar_content:
  assumes w: "writes_to d M path a off bs" and off: "int off \<le> tamanio a"
    and room: "missing_blocks d a (off + length bs) \<le> card (free_blocks d)"
    and page: "off mod block_size d + min (length bs) (block_size d) \<le> whole_pages (page_bytes (fsenv d)) (block_size d)"
  obtains d' a' where "guardarDatos (armarPathArchivo path d) (int off) (int (length bs)) bs d = Inr (1, d')"
    "fs_inv d' (M(components path \<mapsto> a'))" "tamanio a' = max (tamanio a) (int (off + length bs))"
    "file_bytes d' a' = take off (file_bytes d a) @ bs @ drop (off + length bs) (file_bytes d a)"
    "\<forall>r b. M r = Some b \<longrightarrow> r \<noteq> components path \<longrightarrow> file_bytes d' b = file_bytes d b" "same_place d d'"
proof -
  note f = writes_to_facts [OF w]
  obtain d' new where d': "guardarDatos (armarPathArchivo path d) (int off) (int (length bs)) bs d = Inr (1, d')"
    "length new = missing_blocks d a (off + length bs)" "set new \<subseteq> free_blocks d"
    "fs_inv d' (M(components path \<mapsto> grown a (off + length bs) new))"
    "blocks_data d' (bloques a @ new) = poke off bs (blocks_data d (bloques a @ new))"
    "\<forall>n. n \<notin> set (bloques a @ new) \<longrightarrow> block_bytes d' n = block_bytes d n"
    "\<forall>b \<in> set (bloques a @ new). valid_block d b" "same_place d d'"
    using guardar_spec [OF w room page] by metis
  have "file_bytes d' b = file_bytes d b" if b: "M r = Some b" "r \<noteq> components path" for r b
  proof (rule content_other [OF f(1) b(1)])
    have "set (bloques b) \<inter> set (bloques a) = {}"
      using f(1,5) b unfolding fs_inv_def files_ok_def by blast
    moreover have "set (bloques b) \<inter> set new = {}" using file_blocks_used [OF f(1) b(1)] d'(3) by blast
    ultimately show "\<forall>n \<in> set (bloques b). block_bytes d' n = block_bytes d n" using d'(6) by auto
  qed
  moreover have "tamanio (grown a (off + length bs) new) = max (tamanio a) (int (off + length bs))"
    by (simp add: grown_def)
  ultimately show thesis using that d'(1,4,8) content_grown [OF f(4,2) off d'(2,7,5)] by blast
qed

subsection \<open>Writes that are refused, and a write that crashes\<close>

lemma guardar_full:
  assumes "writes_to d M path a off bs" "card (free_blocks d) < missing_blocks d a (off + length bs)"
  shows "guardarDatos (armarPathArchivo path d) (int off) (int (length bs)) bs d = Inr (- ENOSPC, d)"
  unfolding guardar_guards [OF assms(1)] using assms(2) by simp

lemma guardar_beyond_disk:
  assumes "0 < tamanioBloques d" "0 \<le> cantidadBloques d" "cantidadBloques d * tamanioBloques d \<le> int (off + len)"
    "off + len < 2 ^ 63"
  shows "guardarDatos p (int off) (int len) bs d = Inr (- ENOSPC, d)"
proof -
  have "0 \<le> cantidadBloques d * tamanioBloques d" using assms by simp
  then have "ulong (cantidadBloques d * tamanioBloques d) \<le> ulong (int off + int len)"
    using assms(3,4) by (simp flip: of_nat_add)
  then show ?thesis by (simp add: guardarDatos_def)
qed

text \<open>The copy is as long as a block whatever its start: past a block that ends with its page, it faults.\<close>

lemma guardar_crashes:
  assumes w: "writes_to d M path a off bs"
    and room: "missing_blocks d a (off + length bs) \<le> card (free_blocks d)"
    and page: "whole_pages (page_bytes (fsenv d)) (block_size d) < off mod block_size d + min (length bs) (block_size d)"
  shows "guardarDatos (armarPathArchivo path d) (int off) (int (length bs)) bs d = Inl Buffer_Overflow"
proof -
  note f = writes_to_facts [OF w]
  define T pos where "T = block_size d" and "pos = off div T"
  have T: "tamanioBloques d = int T" "0 < T" using f(2) by (simp_all add: T_def block_size_def fs_ready_def)
  have ne: "bloques a \<noteq> []" using f(4) by (simp add: good_file_def)
  obtain new m where as: "assign_blocks (missing_blocks d a (off + length bs)) a d
      = Inr (a\<lparr>bloques := bloques a @ new\<rparr>, d\<lparr>bitmap := m\<rparr>)"
    "length new = missing_blocks d a (off + length bs)"
    "\<forall>b \<in> set (bloques a @ new). valid_block d b \<and> m ! nat b" "fs_ready (d\<lparr>bitmap := m\<rparr>)"
    using assign_blocks_spec [OF f(1,5) room] by metis
  let ?a1 = "a\<lparr>bloques := bloques a @ new\<rparr>" and ?d1 = "d\<lparr>bitmap := m\<rparr>"
  have "0 < length bs" using f(10) by simp
  moreover have "off + length bs \<le> (length (bloques a) + length new) * T"
    using missing_blocks_cover(1) [OF _ ne, of d "off + length bs"] T(2) as(2) by (simp add: T_def)
  ultimately have "off < (length (bloques a) + length new) * T" by linarith
  then have "pos * T < (length (bloques a) + length new) * T"
    unfolding pos_def using div_mult_mod_eq [of off T] by linarith
  then have "pos < length (bloques a) + length new" using mult_less_cancel2 by blast
  then have pos: "pos < length (bloques ?a1)" by simp
  then have "bloques ?a1 ! pos \<in> set (bloques ?a1)" by (rule nth_mem)
  then have "bloques ?a1 ! pos \<in> set (bloques a @ new)" by simp
  then have v: "valid_block ?d1 (bloques ?a1 ! pos)" using as(3) unfolding change_keys by blast
  note l = lookup_valid_block [OF as(4) v]
  have "mapped_write (page_bytes (fsenv d)) T (block_bytes ?d1 (bloques ?a1 ! pos)) (int (off mod T))
      (take (min (length bs) T) bs) = None"
    using page by (simp add: mapped_write_def mapped_limit_def l(2) T_def)
  then have "write_block bs (int (length bs)) (int (off mod T)) (int (length bs)) (int pos) ?a1 ?d1 = Inl Buffer_Overflow"
    using write_block_eq [OF as(4) v pos \<open>0 < length bs\<close> order_refl, of "off mod T"] by (simp add: T_def)
  then have "write_blocks bs (int (length bs)) (int (off mod T)) (int (length bs)) (int pos) ?a1 ?d1 = Inl Buffer_Overflow"
    using f(10) by (subst write_blocks.simps) simp
  then show ?thesis
    unfolding guardar_guards [OF w] T_def [symmetric] using room as(1) by (simp add: pos_def)
qed

end
