(* ===== verification/FS_Lifecycle.thy ===== *)
theory FS_Lifecycle
  imports FS_Files
begin

text \<open>
  Creating and deleting files: \<open>crear\<close> and \<open>borrar\<close> on a disk that is in order, the block that is
  lost when a file cannot be created, and the counter that starts from whatever memory held.
\<close>

subsection \<open>Creating\<close>

definition empty_file :: "int \<Rightarrow> t_metadata_archivo" where
  "empty_file b = \<lparr>tamanio = 0, bloques = [b]\<rparr>"

lemma empty_file_text:
  "str ''TAMANIO=0'' @ [10] @ str ''BLOQUES=['' @ sprintf_i b @ str '']'' = metadata_text (empty_file b)"
proof -
  have "sprintf_i 0 = str ''0''" by (subst sprintf_i_def, subst dec_digits.simps) (simp add: str_def)
  then show ?thesis by (simp add: metadata_text_def empty_file_def butlast_append str_def)
qed

text \<open>A path at which a file can be made: its directory is there, and nothing else is.\<close>

definition vacant :: "fs \<Rightarrow> cstring \<Rightarrow> bool" where
  "vacant d path \<longleftrightarrow> plain_path path \<and> components path \<noteq> [] \<and> \<not> ends_with_slash (armarPathArchivo path d)
     \<and> dirs_to (tree d) (file_key d path) \<and> node_at (tree d) (file_key d path) = None"

lemma vacant_not_valid: "fs_ready d \<Longrightarrow> vacant d path \<Longrightarrow> validar (armarPathArchivo path d) d \<noteq> 1"
  unfolding vacant_def validar_iff using is_regular_iff by fastforce

lemma vacant_write:
  assumes "fs_ready d" "vacant d path"
  shows "write_text (armarPathArchivo path d) txt (tree d)
    = Some (AList.update (file_key d path) (Regular txt) (tree d))"
proof -
  note v = assms(2) [unfolded vacant_def]
  have "walk (tree d) [] (components (armarPathArchivo path d)) = Some (file_key d path)"
    using walk_file [OF assms(1)] v by simp
  then show ?thesis using v file_parent by (simp add: write_text_def)
qed

lemma crear_spec:
  assumes inv: "fs_inv d M" and v: "vacant d path" and free: "free_blocks d \<noteq> {}"
  obtains b d' where "crear path (armarPathArchivo path d) d = Inr (1, d')" "b \<in> free_blocks d"
    "\<forall>c \<in> free_blocks d. b \<le> c" "fs_inv d' (M(components path \<mapsto> empty_file b))"
    "free_blocks d' = free_blocks d - {b}" "block_bytes d' = block_bytes d"
proof -
  have r: "fs_ready d" and ok: "bitmap_ok d" using inv by (simp_all add: fs_inv_def fs_ready_def)
  obtain b where b: "encontrarUnBloqueLibre d = Inr b" "b \<in> free_blocks d" "\<forall>c \<in> free_blocks d. b \<le> c"
    using encontrar_spec [OF ok] free by auto
  note oc = ocupar_spec [OF ok b(2)]
  let ?m = "(bitmap d)[nat b := True]" and ?t = "AList.update (file_key d path) (Regular (metadata_text (empty_file b))) (tree d)"
  let ?d' = "d\<lparr>bitmap := ?m, tree := ?t\<rparr>"
  have "0 \<le> b" using b(2) by (simp add: free_blocks_def)
  have made: "crearArchivo (armarPathArchivo path d) b (d\<lparr>bitmap := ?m\<rparr>) = (1, ?d')"
    unfolding crearArchivo_def empty_file_text using vacant_write [OF r v] by simp
  have run: "crear path (armarPathArchivo path d) d = Inr (1, ?d')"
    using vacant_not_valid [OF r v] b(1) \<open>0 \<le> b\<close> oc(1) made by (simp add: crear_def)
  have vb: "valid_block d b" "nat b < length (bitmap d)"
    using b(2) ok by (auto simp: free_blocks_def valid_block_def bitmap_ok_def)
  have inv': "fs_inv ?d' (M(components path \<mapsto> empty_file b))"
  proof (rule file_change_inv [OF inv])
    show "\<forall>i. bitmap d ! i \<longrightarrow> i < length ?m \<longrightarrow> ?m ! i"
      using vb(2) by (simp add: nth_list_update)
    show "fs_ready ?d'"
    proof (rule fs_ready_change [OF r])
      fix p assume "node_at (tree d) p = Some Directory"
      then show "node_at ?t p = Some Directory" using v by (auto simp: vacant_def)
    next
      fix n assume "valid_block d n"
      then show "\<exists>c. node_at ?t (block_key d n) = Some (Regular c) \<and> length c = block_size d"
        using lookup_valid_block [OF r] by auto
    qed simp
    show "good_file ?d' (empty_file b)"
      using vb r by (simp add: good_file_def empty_file_def fs_ready_def)
    show "set (bloques (empty_file b)) \<subseteq>
        (case M (components path) of Some a0 \<Rightarrow> set (bloques a0) | None \<Rightarrow> {}) \<union> free_blocks d"
      using b(2) by (simp add: empty_file_def)
  qed (simp_all add: file_key_def)
  have "free_blocks ?d' = free_blocks (d\<lparr>bitmap := ?m\<rparr>)"
    by (simp add: free_blocks_def bitarray_get_max_bit_def)
  then have "free_blocks ?d' = free_blocks d - {b}" using oc(3) by simp
  moreover have "block_bytes ?d' = block_bytes d" by (simp add: fun_eq_iff block_bytes_def)
  ultimately show thesis using that run b(2,3) inv' by blast
qed

lemma crear_refused:
  assumes "bitmap_ok d" "validar p d = 1 \<or> free_blocks d = {}"
  shows "crear path p d = Inr (- ENOENT, d)"
  using assms encontrar_spec [OF assms(1)] by (auto simp: crear_def)

text \<open>A file in the way of a directory: the answer is an error, and the block stays marked.\<close>

lemma crear_leaks:
  assumes ok: "bitmap_ok d" and "validar p d \<noteq> 1" "free_blocks d \<noteq> {}"
    and no_write: "\<And>txt. write_text p txt (tree d) = None"
    and parts: "string_split (fsenv d) path = parts" "parts \<noteq> []"
    and way: "\<And>m. \<not> no_file_in_the_way (punto_montaje d @ str ''Archivos/'') parts (d\<lparr>bitmap := m\<rparr>)"
  obtains b d' where "crear path p d = Inr (- ENOENT, d')" "b \<in> free_blocks d"
    "free_blocks d' = free_blocks d - {b}" "tree d' = tree d"
proof -
  obtain b where b: "encontrarUnBloqueLibre d = Inr b" "b \<in> free_blocks d"
    using encontrar_spec [OF ok] assms(3) by auto
  note oc = ocupar_spec [OF ok b(2)]
  let ?d = "d\<lparr>bitmap := (bitmap d)[nat b := True]\<rparr>"
  have "0 \<le> b" using b(2) by (simp add: free_blocks_def)
  moreover have "crearArchivo p b ?d = (- ENOENT, ?d)" by (simp add: crearArchivo_def no_write)
  moreover have "seVanAPoderCrearLosDirectoriosNecesarios path ?d = Inr False"
    using parts way by (simp add: seVanAPoderCrearLosDirectoriosNecesarios_def Let_def)
  ultimately have "crear path p d = Inr (- ENOENT, ?d)"
    using assms(2) b(1) oc(1) by (simp add: crear_def ENOENT_def)
  then show thesis using that b(2) oc(3) by simp
qed

subsection \<open>Deleting\<close>

lemma release_all_spec:
  assumes "\<forall>b \<in> set bl. 0 \<le> b \<and> nat b < length (bitmap d)"
  shows "\<exists>m. release_all bl d = Inr (d\<lparr>bitmap := m\<rparr>) \<and> length m = length (bitmap d)
    \<and> (\<forall>i < length m. m ! i = (bitmap d ! i \<and> int i \<notin> set bl))"
  using assms
proof (induction bl arbitrary: d)
  case Nil
  then show ?case by (auto intro: exI [of _ "bitmap d"])
next
  case (Cons b bl)
  let ?d = "d\<lparr>bitmap := (bitmap d)[nat b := False]\<rparr>"
  have b: "0 \<le> b" "nat b < length (bitmap d)" using Cons.prems by simp_all
  obtain m where m: "release_all bl ?d = Inr (?d\<lparr>bitmap := m\<rparr>)" "length m = length (bitmap d)"
    "\<forall>i < length m. m ! i = (bitmap ?d ! i \<and> int i \<notin> set bl)"
    using Cons.IH [of ?d] Cons.prems by auto
  moreover have "liberarBloqueDelBitmap b d = Inr ?d" using b by (simp add: liberarBloqueDelBitmap_def bitarray_put_bit_def)
  ultimately show ?case using b by (intro exI [of _ m]) (auto simp: nth_list_update)
qed

text \<open>Up to the directories: the file is gone, its blocks are free, everything else is as it was.\<close>

lemma borrar_spec:
  assumes inv: "fs_inv d M" and E: "reads_metadata (fsenv d)" and path: "plain_path path"
    and v: "validar (armarPathArchivo path d) d = 1" and a: "M (components path) = Some a"
  obtains d1 where "fs_inv d1 (M(components path := None))" "free_blocks d1 = free_blocks d \<union> set (bloques a)"
    "block_bytes d1 = block_bytes d" "fsenv d1 = fsenv d"
    "borrar (armarPathArchivo path d) d =
       and_then (borrarDirectorioSiEstaVacio (armarPathArchivo path d) d1) (\<lambda>d2. Inr (1, d2))"
proof -
  have r: "fs_ready d" and ok: "bitmap_ok d" and fo: "files_ok d M" using inv by (simp_all add: fs_inv_def fs_ready_def)
  obtain a' where a': "M (components path) = Some a'"
    "lookup_path (tree d) (armarPathArchivo path d) = Some (Regular (metadata_text a'))" "good_file d a'"
    using validar_file [OF inv path v] by metis
  have look: "lookup_path (tree d) (armarPathArchivo path d) = Some (Regular (metadata_text a))"
    and g: "good_file d a" using a a' by simp_all
  note was = lookup_regular_walk [OF r path look]
  have used: "\<forall>b \<in> set (bloques a). 0 \<le> b \<and> nat b < length (bitmap d)"
    using g ok by (auto simp: good_file_def valid_block_def bitmap_ok_def intro: less_le_trans)
  obtain m where m: "release_all (bloques a) d = Inr (d\<lparr>bitmap := m\<rparr>)" "length m = length (bitmap d)"
    "\<forall>i < length m. m ! i = (bitmap d ! i \<and> int i \<notin> set (bloques a))"
    using release_all_spec [OF used] by blast
  let ?t = "AList.delete (file_key d path) (tree d)"
  let ?d1 = "d\<lparr>bitmap := m, tree := ?t\<rparr>"
  have del: "eliminarMetadataArchivo (armarPathArchivo path d) (d\<lparr>bitmap := m\<rparr>) = ?d1"
    using write_text_file(1) [OF r path look] by (simp add: eliminarMetadataArchivo_def)
  have run: "borrar (armarPathArchivo path d) d =
       and_then (borrarDirectorioSiEstaVacio (armarPathArchivo path d) ?d1) (\<lambda>d2. Inr (1, d2))"
    using v read_metadata [OF r E g look] m(1) by (simp add: borrar_def del)
  have ready: "fs_ready ?d1"
  proof (rule fs_ready_change [OF r m(2)])
    fix p assume "node_at (tree d) p = Some Directory"
    then show "node_at ?t p = Some Directory" using was(4) by auto
  next
    fix n assume "valid_block d n"
    then show "\<exists>c. node_at ?t (block_key d n) = Some (Regular c) \<and> length c = block_size d"
      using lookup_valid_block [OF r] by auto
  qed
  have bits: "valid_block d b \<Longrightarrow> m ! nat b = (bitmap d ! nat b \<and> b \<notin> set (bloques a))" for b
    using m(2,3) ok by (auto simp: valid_block_def bitmap_ok_def)
  have kept: "good_file ?d1 b" if b: "M q = Some b" "q \<noteq> components path" for q b
  proof -
    have "set (bloques b) \<inter> set (bloques a) = {}" "good_file d b"
      using fo a b unfolding files_ok_def by blast+
    then show ?thesis using bits by (auto simp: good_file_def)
  qed
  have "files_ok ?d1 (M(components path := None))"
    unfolding files_ok_def change_keys
  proof (intro conjI allI impI)
    fix q b assume q: "(M(components path := None)) q = Some b"
    then have b: "M q = Some b" "q \<noteq> components path" by (auto split: if_splits)
    then show "node_at (tree ?d1) (archivos d @ q) = Some (Regular (metadata_text b))"
      using fo by (simp add: files_ok_def file_key_def)
    show "good_file ?d1 b" using kept b by blast
  next
    fix q c assume "node_at (tree ?d1) (archivos d @ q) = Some (Regular c)"
    then show "(M(components path := None)) q \<noteq> None"
      using fo by (auto simp: files_ok_def file_key_def split: if_splits)
  next
    fix q s b c assume "(M(components path := None)) q = Some b" "(M(components path := None)) s = Some c" "q \<noteq> s"
    then show "set (bloques b) \<inter> set (bloques c) = {}"
      using fo unfolding files_ok_def by (metis fun_upd_apply option.distinct(1))
  qed
  with ready have inv1: "fs_inv ?d1 (M(components path := None))" by (simp add: fs_inv_def)
  have "free_blocks ?d1 = free_blocks d \<union> set (bloques a)"
    using bits g by (auto simp: free_blocks_def bitarray_get_max_bit_def valid_block_def good_file_def)
  moreover have "block_bytes ?d1 = block_bytes d" by (simp add: fun_eq_iff block_bytes_def)
  ultimately show thesis using that inv1 run by simp
qed

text \<open>The counter of the directories: from 2 on the loop runs past the end of the parts.\<close>

lemma borrar_directorio_crashes:
  assumes "string_split (fsenv d) p \<noteq> []" "2 \<le> junk_int (fsenv d)"
  shows "borrarDirectorioSiEstaVacio p d = Inl Null_Deref"
proof -
  let ?parts = "string_split (fsenv d) p"
  have "length ?parts < nat (junk_int (fsenv d) + int (length ?parts - 1))"
    using assms by (cases ?parts) auto
  then have "join_parts ?parts (nat (junk_int (fsenv d) + int (length ?parts - 1))) = Inl Null_Deref"
    by (simp add: join_parts_def)
  then have "remove_upwards ?parts nb (nat (junk_int (fsenv d) + int (length ?parts - 1))) d = Inl Null_Deref" for nb
    by (subst remove_upwards.simps) simp
  then show ?thesis using assms by (simp add: borrarDirectorioSiEstaVacio_def Let_def)
qed

end
