(* ===== verification/FS_Client.thy ===== *)
theory FS_Client
  imports Sockets Process_Control
begin

text \<open>
  The Kernel's stubs for the FileSystem process, \<open>Kernel/src/interface/filesystem.c\<close>, on the bytes
  of the connection. A request is its name, the path and its numbers; the answer is an integer,
  and after a read that found something, a blob.

  \<open>filesystem_delete\<close> and \<open>filesystem_create\<close> return an integer that was never set when the answer
  does not come; \<open>junk\<close> is what it held.
\<close>

definition send_then :: "(sock \<Rightarrow> int \<times> sock) \<Rightarrow> sock \<Rightarrow> sock" where
  "send_then f s = snd (f s)"

abbreviation "say_string c \<equiv> send_then (\<lambda>s. socket_send_string s c)"
abbreviation "say_int v \<equiv> send_then (\<lambda>s. socket_send_int s v)"
abbreviation "say_blob b \<equiv> send_then (\<lambda>s. socket_send s b)"

subsection \<open>Reading\<close>

text \<open>What \<open>*buffer\<close> is after the call: still null, the data, or a block that was not filled.\<close>

datatype read_buffer = No_Buffer | Filled "byte list" | Unfilled

definition recv_buffer :: "sock \<Rightarrow> int \<times> read_buffer \<times> sock" where
  "recv_buffer s =
     (case socket_recv s of
        (n, Some b, s') \<Rightarrow> (n, Filled b, s')
      | (n, None, s') \<Rightarrow>
          (n, if 11 \<le> length (rx s) \<and> 0 \<le> atoi (take 11 (rx s) @ rjunk s) then Unfilled else No_Buffer, s'))"

definition filesystem_read :: "cstring \<Rightarrow> nat \<Rightarrow> int \<Rightarrow> sock \<Rightarrow> int \<times> read_buffer \<times> sock" where
  "filesystem_read path offset sz s =
     (case socket_send_string s (str ''OBTENERDATOS'') of (n1, s1) \<Rightarrow>
      if n1 = -1 then (-20, No_Buffer, s1) else
      (case socket_send_string s1 path of (n2, s2) \<Rightarrow>
      if n2 = -1 then (-20, No_Buffer, s2) else
      (case socket_send_int s2 (int_of_wide (int offset)) of (n3, s3) \<Rightarrow>
      if n3 = -1 then (-20, No_Buffer, s3) else
      (case socket_send_int s3 sz of (n4, s4) \<Rightarrow>
      if n4 = -1 then (-20, No_Buffer, s4) else
      (case socket_recv_int s4 of (n5, readCount, s5) \<Rightarrow>
      if n5 = -1 then (-20, No_Buffer, s5)
      else if readCount > 0 then
        (case recv_buffer s5 of (bufferSize, buffer, s6) \<Rightarrow>
           if bufferSize = -1 then (-20, buffer, s6) else (readCount, buffer, s6))
      else (readCount, No_Buffer, s5))))))"

subsection \<open>Writing, deleting, creating, validating, closing\<close>

definition filesystem_write :: "cstring \<Rightarrow> int \<Rightarrow> byte list \<Rightarrow> sock \<Rightarrow> int \<times> sock" where
  "filesystem_write path offset buffer s =
     (case socket_recv_int (say_blob buffer (say_int offset (say_string path
             (say_string (str ''GUARDARDATOS'') s)))) of
        (n, respuestaFromFS, s') \<Rightarrow> (if n > 0 then respuestaFromFS else -1, s'))"

definition filesystem_close :: "sock \<Rightarrow> int \<times> sock" where
  "filesystem_close s = (0, say_string (str ''CERRAR'') s)"

definition filesystem_delete :: "int \<Rightarrow> cstring \<Rightarrow> sock \<Rightarrow> int \<times> sock" where
  "filesystem_delete junk path s =
     (case socket_recv_int (say_string path (say_string (str ''BORRAR'') s)) of
        (n, resp, s') \<Rightarrow> (if n > 0 then resp else junk, s'))"

definition filesystem_create :: "int \<Rightarrow> cstring \<Rightarrow> sock \<Rightarrow> int \<times> sock" where
  "filesystem_create junk path s =
     (case socket_recv_int (say_string path (say_string (str ''CREAR'') s)) of
        (n, resp, s') \<Rightarrow> (if n > 0 then resp else junk, s'))"

definition filesystem_validate :: "cstring \<Rightarrow> sock \<Rightarrow> int \<times> sock" where
  "filesystem_validate path s =
     (case socket_send_string s (str ''VALIDAR'') of (n1, s1) \<Rightarrow>
      if n1 \<le> 0 then (0, s1) else
      (case socket_send_string s1 path of (n2, s2) \<Rightarrow>
      if n2 \<le> 0 then (0, s2) else
      (case socket_recv_int s2 of (n3, respuesta, s3) \<Rightarrow>
      if n3 \<le> 0 then (0, s3) else (respuesta, s3))))"

subsection \<open>The exchange when the connection works\<close>

definition said :: "sock \<Rightarrow> byte list \<Rightarrow> sock" where
  "said s bs = s\<lparr>tx := tx s @ bs, room := room s - length bs\<rparr>"

lemma said_simps [simp]:
  "tx (said s bs) = tx s @ bs" "room (said s bs) = room s - length bs" "rx (said s bs) = rx s"
  "sjunk (said s bs) = sjunk s" "rjunk (said s bs) = rjunk s" "said (said s a) b = said s (a @ b)"
  "(said s bs)\<lparr>rx := r\<rparr> = said (s\<lparr>rx := r\<rparr>) bs"
  by (simp_all add: said_def)

lemma say_string_ok [simp]: "12 + length c \<le> room s \<Longrightarrow>
    say_string c s = said s (blob_frame (sjunk s) (c @ [0]))"
  by (simp add: send_then_def socket_send_string_ok said_def)

lemma say_int_ok [simp]: "11 \<le> room s \<Longrightarrow> say_int v s = said s (int_header (sjunk s) v)"
  by (simp add: send_then_def socket_send_int_ok said_def)

lemma say_blob_ok [simp]: "11 + length b \<le> room s \<Longrightarrow>
    say_blob b s = said s (blob_frame (sjunk s) b)"
  by (simp add: send_then_def socket_send_ok said_def)

text \<open>The bytes of a read request.\<close>

definition read_request :: "sock \<Rightarrow> cstring \<Rightarrow> int \<Rightarrow> int \<Rightarrow> byte list" where
  "read_request s path offset sz =
     blob_frame (sjunk s) (str ''OBTENERDATOS'' @ [0]) @ blob_frame (sjunk s) (path @ [0])
     @ int_header (sjunk s) offset @ int_header (sjunk s) sz"

lemma filesystem_read_ok:
  assumes "58 + length path \<le> room s" "int offset < 2 ^ 31"
    and "rx s = int_header j (int (length bs)) @ blob_frame j bs @ rest" "bs \<noteq> []"
    "length bs < 2 ^ 31"
  shows "filesystem_read path offset sz s
    = (int (length bs), Filled bs, said (s\<lparr>rx := rest\<rparr>) (read_request s path (int offset) sz))"
proof -
  have fits: "header_fits (int (length bs))" using assms(5) by (simp add: header_fits_def)
  have len: "length (str ''OBTENERDATOS'') = 12" by (simp add: str_def)
  define s4 where "s4 = said s (read_request s path (int offset) sz)"
  have recv: "socket_recv_int s4 = (4, int (length bs), s4\<lparr>rx := blob_frame j bs @ rest\<rparr>)"
    using socket_recv_int_ok [OF fits, of s4 j "blob_frame j bs @ rest"] assms(3) by (simp add: s4_def)
  have "recv_buffer (s4\<lparr>rx := blob_frame j bs @ rest\<rparr>) = (int (length bs), Filled bs, s4\<lparr>rx := rest\<rparr>)"
    using socket_recv_ok [of bs "s4\<lparr>rx := blob_frame j bs @ rest\<rparr>" j rest] assms(5)
    by (simp add: recv_buffer_def)
  with recv assms(1,2,4) len show ?thesis
    by (simp add: filesystem_read_def socket_send_string_ok socket_send_int_ok
        said_def [symmetric] s4_def read_request_def del: said_simps(7))
       (simp add: said_def)
qed

end
