(* ===== verification/FS_Exchange.thy ===== *)
theory FS_Exchange
  imports FS_Lifecycle FS_Client
begin

text \<open>
  The Kernel's stubs and the FileSystem process together: the bytes of a request of \<open>FS_Client\<close> go
  through one turn of \<open>serve_kernel\<close>, and the stub reads the bytes of the answer.
\<close>

text \<open>The answer: what one turn added to the bytes sent.\<close>

definition answer_bytes :: "fs \<Rightarrow> fs \<Rightarrow> byte list" where
  "answer_bytes d d' = drop (length (tx (socketKernel d))) (tx (socketKernel d'))"

definition request_fits :: "cstring \<Rightarrow> bool" where
  "request_fits path \<longleftrightarrow> 0 \<notin> set path \<and> length path + 1 < 2 ^ 31"

subsection \<open>The connection is no part of the disk\<close>

lemma socket_keys [simp]:
  "archivos (d\<lparr>socketKernel := s\<rparr>) = archivos d" "valid_block (d\<lparr>socketKernel := s\<rparr>) = valid_block d"
  "block_key (d\<lparr>socketKernel := s\<rparr>) = block_key d" "block_size (d\<lparr>socketKernel := s\<rparr>) = block_size d"
  "file_key (d\<lparr>socketKernel := s\<rparr>) = file_key d" "base (d\<lparr>socketKernel := s\<rparr>) = base d"
  "armarPathArchivo p (d\<lparr>socketKernel := s\<rparr>) = armarPathArchivo p d"
  "free_blocks (d\<lparr>socketKernel := s\<rparr>) = free_blocks d" "block_bytes (d\<lparr>socketKernel := s\<rparr>) = block_bytes d"
  "bitarray_get_max_bit (d\<lparr>socketKernel := s\<rparr>) = bitarray_get_max_bit d"
  "validar p (d\<lparr>socketKernel := s\<rparr>) = validar p d"
  by (simp_all add: archivos_def base_def valid_block_def bitarray_get_max_bit_def block_key_def block_size_def
      file_key_def armarPathArchivo_def free_blocks_def block_bytes_def validar_def fun_eq_iff)

lemma socket_ready [simp]: "fs_ready (d\<lparr>socketKernel := s\<rparr>) = fs_ready d"
  by (simp add: fs_ready_def bitmap_ok_def)

lemma socket_good [simp]: "good_file (d\<lparr>socketKernel := s\<rparr>) = good_file d"
  by (simp add: good_file_def fun_eq_iff)

lemma socket_inv [simp]: "fs_inv (d\<lparr>socketKernel := s\<rparr>) M = fs_inv d M"
  by (simp add: fs_inv_def files_ok_def)

lemma socket_content [simp]: "file_bytes (d\<lparr>socketKernel := s\<rparr>) = file_bytes d"
  by (simp add: file_bytes_def blocks_data_def fun_eq_iff)

lemma socket_missing [simp]: "missing_blocks (d\<lparr>socketKernel := s\<rparr>) = missing_blocks d"
  by (simp add: missing_blocks_def fun_eq_iff)

lemma socket_vacant [simp]: "vacant (d\<lparr>socketKernel := s\<rparr>) p = vacant d p"
  by (simp add: vacant_def)

lemma socket_writes [simp]: "writes_to (d\<lparr>socketKernel := s\<rparr>) = writes_to d"
  by (simp add: writes_to_def fun_eq_iff)

subsection \<open>Receiving a request\<close>

lemma operation_names [simp]:
  "0 \<notin> set (str ''VALIDAR'')" "0 \<notin> set (str ''CREAR'')" "0 \<notin> set (str ''BORRAR'')"
  "0 \<notin> set (str ''OBTENERDATOS'')" "0 \<notin> set (str ''GUARDARDATOS'')"
  by (simp_all add: str_def)

lemma serve_operation:
  assumes "rx (socketKernel d) = blob_frame j (oper @ [0]) @ more_bytes" "0 \<notin> set oper" "length oper + 1 < 2 ^ 31"
  shows "serve_kernel d = and_then (hacerLoQueCorresponda oper (d\<lparr>socketKernel := (socketKernel d)\<lparr>rx := more_bytes\<rparr>\<rparr>))
    (\<lambda>d1. Inr (Some d1))"
  using socket_recv_string_ok [OF assms(3,1)] assms(2) by (simp add: serve_kernel_def)

lemma fs_recv_int_ok:
  "header_fits v \<Longrightarrow> rx (socketKernel d) = int_header j v @ more_bytes \<Longrightarrow>
     fs_recv_int d = (v, d\<lparr>socketKernel := (socketKernel d)\<lparr>rx := more_bytes\<rparr>\<rparr>)"
  by (simp add: fs_recv_int_def socket_recv_int_ok)

lemma answer_int_ok:
  "11 \<le> room (socketKernel d) \<Longrightarrow>
     answer_int v d = d\<lparr>socketKernel := said (socketKernel d) (int_header (sjunk (socketKernel d)) v)\<rparr>"
  by (simp add: answer_int_def socket_send_int_ok said_def)

lemma answer_blob_ok:
  "11 + length bs \<le> room (socketKernel d) \<Longrightarrow>
     answer_blob bs d = d\<lparr>socketKernel := said (socketKernel d) (blob_frame (sjunk (socketKernel d)) bs)\<rparr>"
  by (simp add: answer_blob_def socket_send_ok said_def)

subsection \<open>A read through the connection\<close>

lemma serve_read:
  assumes inv: "fs_inv d M" and E: "reads_metadata (fsenv d)" and path: "plain_path path" "request_fits path"
    and v: "validar (armarPathArchivo path d) d = 1" and M: "M (components path) = Some a"
    and rx: "rx (socketKernel d) = read_request s path (int off) (int sz) @ more_bytes"
    and small: "off < 2 ^ 31" "sz < 2 ^ 31" and off: "int off \<le> tamanio a"
    and space: "22 + sz \<le> room (socketKernel d)"
  defines "bs \<equiv> take sz (drop off (file_bytes d a))" and "j \<equiv> sjunk (socketKernel d)"
  shows "serve_kernel d = Inr (Some (d\<lparr>socketKernel := said ((socketKernel d)\<lparr>rx := more_bytes\<rparr>)
    (int_header j (int (length bs)) @ (if bs = [] then [] else blob_frame j bs))\<rparr>))"
proof -
  let ?k = "socketKernel d"
  let ?at = "\<lambda>r. d\<lparr>socketKernel := ?k\<lparr>rx := r\<rparr>\<rparr>"
  have fits: "header_fits (int off)" "header_fits (int sz)" using small by (simp_all add: header_fits_def)
  have len: "length (str ''OBTENERDATOS'') = 12" by (simp add: str_def)
  have r: "fs_ready d" using inv by (simp add: fs_inv_def)
  define n where "n = min sz (nat (tamanio a) - off)"
  obtain a' where a': "M (components path) = Some a'"
    "obtenerDatos (armarPathArchivo path d) (int off) (int sz) (?at more_bytes) =
       Inr (if int off \<le> tamanio a' then (int (min sz (nat (tamanio a') - off)), take sz (drop off (file_bytes d a'))) else (-1, []))"
    by (rule obtener_spec [of "?at more_bytes" M path off sz, unfolded socket_keys socket_content socket_inv, OF inv _ path(1) v])
      (use E in simp, blast)
  then have get: "obtenerDatos (armarPathArchivo path d) (int off) (int sz) (?at more_bytes) = Inr (int n, bs)"
    using M off by (simp add: n_def bs_def)
  have g: "good_file d a" using inv M by (simp add: fs_inv_def files_ok_def)
  have "nat (tamanio a) \<le> length (blocks_data d (bloques a))"
    using g length_blocks_data [OF r, of "bloques a"] r
    by (auto simp: good_file_def block_size_def fs_ready_def nat_le_iff)
  then have n: "length bs = n" by (simp add: bs_def file_bytes_def n_def min_def)
  have names: "str ''OBTENERDATOS'' \<noteq> str ''VALIDAR''" "str ''OBTENERDATOS'' \<noteq> str ''CREAR''" "str ''OBTENERDATOS'' \<noteq> str ''BORRAR''"
    by (simp_all add: str_def)
  have got: "socket_recv_string (?k\<lparr>rx := blob_frame (sjunk s) (path @ [0]) @ int_header (sjunk s) (int off) @ int_header (sjunk s) (int sz) @ more_bytes\<rparr>)
    = (int (length path + 1), Some (path @ [0]), ?k\<lparr>rx := int_header (sjunk s) (int off) @ int_header (sjunk s) (int sz) @ more_bytes\<rparr>)"
    using path(2) by (subst socket_recv_string_ok) (simp_all add: request_fits_def)
  have i1: "fs_recv_int (?at (int_header (sjunk s) (int off) @ int_header (sjunk s) (int sz) @ more_bytes))
    = (int off, ?at (int_header (sjunk s) (int sz) @ more_bytes))"
    using fits by (subst fs_recv_int_ok) simp_all
  have i2: "fs_recv_int (?at (int_header (sjunk s) (int sz) @ more_bytes)) = (int sz, ?at more_bytes)"
    using fits by (subst fs_recv_int_ok) simp_all
  have pc: "cstr (path @ [0]) = path" using path(2) by (simp add: request_fits_def)
  have "n \<le> sz" by (simp add: n_def)
  then have ans: "(let d3 = answer_int (int n) (?at more_bytes) in
      if int n > 0 then answer_blob (take (nat (int n)) bs) d3 else d3)
    = d\<lparr>socketKernel := said (?k\<lparr>rx := more_bytes\<rparr>)
    (int_header j (int (length bs)) @ (if bs = [] then [] else blob_frame j bs))\<rparr>"
    using space n by (cases "n = 0") (auto simp: answer_int_ok answer_blob_ok j_def)
  have "hacerLoQueCorresponda (str ''OBTENERDATOS'') (?at (blob_frame (sjunk s) (path @ [0]) @ int_header (sjunk s) (int off) @ int_header (sjunk s) (int sz) @ more_bytes))
    = Inr (d\<lparr>socketKernel := said (?k\<lparr>rx := more_bytes\<rparr>)
    (int_header j (int (length bs)) @ (if bs = [] then [] else blob_frame j bs))\<rparr>)"
    unfolding hacerLoQueCorresponda_def using got pc i1 i2 get ans names by (simp add: Let_def)
  note handled = this
  have "rx (socketKernel d) = blob_frame (sjunk s) (str ''OBTENERDATOS'' @ [0])
      @ blob_frame (sjunk s) (path @ [0]) @ int_header (sjunk s) (int off) @ int_header (sjunk s) (int sz) @ more_bytes"
    using rx by (simp add: read_request_def)
  from serve_operation [OF this operation_names(4)] len handled show ?thesis by simp
qed

lemma said_answer [simp]: "answer_bytes d (d\<lparr>socketKernel := said ((socketKernel d)\<lparr>rx := r\<rparr>) bs\<rparr>) = bs"
  by (simp add: answer_bytes_def)

text \<open>The stub behind the answer of \<open>serve_read\<close>.\<close>

lemma stub_reads:
  assumes "58 + length path \<le> room s" "off < 2 ^ 31" "length bs < 2 ^ 31"
  shows "filesystem_read path off sz (s\<lparr>rx := int_header j (int (length bs)) @ (if bs = [] then [] else blob_frame j bs)\<rparr>)
    = (int (length bs), if bs = [] then No_Buffer else Filled bs, said (s\<lparr>rx := []\<rparr>) (read_request s path (int off) sz))"
proof (cases "bs = []")
  case True
  have len: "length (str ''OBTENERDATOS'') = 12" by (simp add: str_def)
  have fits: "header_fits 0" by (simp add: header_fits_def)
  define s4 where "s4 = said (s\<lparr>rx := int_header j 0\<rparr>) (read_request s path (int off) sz)"
  have "socket_recv_int s4 = (4, 0, s4\<lparr>rx := []\<rparr>)"
    using socket_recv_int_ok [OF fits, of s4 j "[]"] by (simp add: s4_def)
  then show ?thesis using True assms len
    by (simp add: filesystem_read_def socket_send_string_ok socket_send_int_ok
        said_def [symmetric] s4_def read_request_def del: said_simps(7))
       (simp add: said_def)
next
  case False
  then show ?thesis
    using filesystem_read_ok [of path "s\<lparr>rx := int_header j (int (length bs)) @ blob_frame j bs\<rparr>" off j bs "[]" sz] assms
    by (simp add: read_request_def)
qed

subsection \<open>A write through the connection\<close>

definition write_request :: "sock \<Rightarrow> cstring \<Rightarrow> int \<Rightarrow> byte list \<Rightarrow> byte list" where
  "write_request s path offset buffer =
     blob_frame (sjunk s) (str ''GUARDARDATOS'' @ [0]) @ blob_frame (sjunk s) (path @ [0])
     @ int_header (sjunk s) offset @ blob_frame (sjunk s) buffer"

lemma assign_blocks_socket: "assign_blocks n a d = Inr (a', d') \<Longrightarrow> socketKernel d' = socketKernel d"
proof (induction n arbitrary: a d)
  case (Suc n)
  then show ?case
    by (fastforce simp: and_then_Inr_iff ocuparBloqueLibre_def bitarray_put_bit_def split: if_splits)
qed simp

lemma write_block_socket: "write_block buffer sz b s pos a d = Inr (r, d') \<Longrightarrow> socketKernel d' = socketKernel d"
  by (auto simp: write_block_def Let_def split: option.splits node.splits if_splits)

lemma write_blocks_socket: "write_blocks buffer sz b s pos a d = Inr (r, d') \<Longrightarrow> socketKernel d' = socketKernel d"
proof (induction buffer sz b s pos a d arbitrary: r d' rule: write_blocks.induct)
  case (1 buffer sz b s pos a d)
  show ?case
  proof (cases "s > 0")
    case True
    have "write_blocks buffer sz b s pos a d = Inr (r, d')" by (rule "1.prems")
    then have "and_then (write_block buffer sz b s pos a d) (\<lambda>(failed, d1). case failed of Some r \<Rightarrow> Inr (Some r, d1)
        | None \<Rightarrow> write_blocks buffer sz 0 (s - (tamanioBloques d - b)) (pos + 1) a d1) = Inr (r, d')"
      using True by (subst (asm) write_blocks.simps) simp
    then obtain o1 d1 where x: "write_block buffer sz b s pos a d = Inr (o1, d1)"
      "(case o1 of Some r \<Rightarrow> Inr (Some r, d1)
        | None \<Rightarrow> write_blocks buffer sz 0 (s - (tamanioBloques d - b)) (pos + 1) a d1) = Inr (r, d')"
      by (elim and_thenE) (auto split: prod.splits)
    have d1: "socketKernel d1 = socketKernel d" by (rule write_block_socket [OF x(1)])
    show ?thesis
    proof (cases o1)
      case None
      with x(2) have "write_blocks buffer sz 0 (s - (tamanioBloques d - b)) (pos + 1) a d1 = Inr (r, d')" by simp
      from "1.IH" [OF True x(1) refl None this] d1 show ?thesis by simp
    next
      case (Some v)
      then show ?thesis using x(2) d1 by simp
    qed
  next
    case False
    then show ?thesis using "1.prems" by (subst (asm) write_blocks.simps) simp
  qed
qed

lemma metadataFS_write_socket: "metadataFS_write p a d = Inr d' \<Longrightarrow> socketKernel d' = socketKernel d"
  by (auto simp: metadataFS_write_def split: option.splits)

lemma and_then_socket:
  "(\<And>x. m = Inr x \<Longrightarrow> \<forall>r d'. f x = Inr (r, d') \<longrightarrow> socketKernel d' = k) \<Longrightarrow>
     \<forall>r d'. and_then m f = Inr (r, d') \<longrightarrow> socketKernel d' = k"
  by (cases m) auto

lemma if_socket:
  "(b \<Longrightarrow> \<forall>r d'. x = Inr (r, d') \<longrightarrow> socketKernel d' = k) \<Longrightarrow> (\<not> b \<Longrightarrow> \<forall>r d'. y = Inr (r, d') \<longrightarrow> socketKernel d' = k) \<Longrightarrow>
     \<forall>r d'. (if b then x else y) = Inr (r, d') \<longrightarrow> socketKernel d' = k"
  by simp

lemma guardar_socket: "guardarDatos p off sz buf d = Inr (r, d') \<Longrightarrow> socketKernel d' = socketKernel d"
proof -
  have "\<forall>r d'. guardarDatos p off sz buf d = Inr (r, d') \<longrightarrow> socketKernel d' = socketKernel d"
    unfolding guardarDatos_def Let_def split_def
  proof (intro if_socket and_then_socket; (simp; fail)?)
    fix archivo x y
    assume a: "assign_blocks (nat (new_blocks off sz (length (bloques archivo)) d)) archivo d = Inr x"
      "write_blocks buf sz (off - c_quot off (tamanioBloques d) * tamanioBloques d) (int_of_wide sz)
         (c_quot off (tamanioBloques d)) (fst x) (snd x) = Inr y"
    have k: "socketKernel (snd y) = socketKernel d"
      using assign_blocks_socket [of _ _ _ "fst x" "snd x"] write_blocks_socket [of _ _ _ _ _ _ _ "fst y" "snd y"] a
      by simp
    show "\<forall>r d'. (case fst y of
          None \<Rightarrow> and_then (metadataFS_write p (if ulong (tamanio (fst x)) < ulong (off + sz)
            then (fst x)\<lparr>tamanio := int_of_wide (off + sz)\<rparr> else fst x) (snd y)) (\<lambda>d3. Inr (1, d3))
        | Some r \<Rightarrow> Inr (r, snd y)) = Inr (r, d') \<longrightarrow> socketKernel d' = socketKernel d"
      using k metadataFS_write_socket by (auto simp: and_then_Inr_iff split: option.splits)
  qed
  then show "guardarDatos p off sz buf d = Inr (r, d') \<Longrightarrow> socketKernel d' = socketKernel d" by blast
qed

lemma serve_write:
  assumes path: "request_fits path"
    and rx: "rx (socketKernel d) = write_request s path (int off) buf @ more_bytes"
    and small: "off < 2 ^ 31" "length buf < 2 ^ 31" and space: "11 \<le> room (socketKernel d)"
    and run: "guardarDatos (armarPathArchivo path d) (int off) (int (length buf)) buf
      (d\<lparr>socketKernel := (socketKernel d)\<lparr>rx := more_bytes\<rparr>\<rparr>) = Inr (v, d1)"
  shows "serve_kernel d = Inr (Some (d1\<lparr>socketKernel := said ((socketKernel d)\<lparr>rx := more_bytes\<rparr>)
    (int_header (sjunk (socketKernel d)) v)\<rparr>))"
proof -
  let ?k = "socketKernel d" and ?j = "sjunk s"
  let ?at = "\<lambda>r. d\<lparr>socketKernel := ?k\<lparr>rx := r\<rparr>\<rparr>"
  have fits: "header_fits (int off)" using small by (simp add: header_fits_def)
  have len: "length (str ''GUARDARDATOS'') = 12" by (simp add: str_def)
  have names: "str ''GUARDARDATOS'' \<noteq> str ''VALIDAR''" "str ''GUARDARDATOS'' \<noteq> str ''CREAR''"
    "str ''GUARDARDATOS'' \<noteq> str ''BORRAR''" "str ''GUARDARDATOS'' \<noteq> str ''OBTENERDATOS''"
    by (simp_all add: str_def)
  have got: "socket_recv_string (?k\<lparr>rx := blob_frame ?j (path @ [0]) @ int_header ?j (int off) @ blob_frame ?j buf @ more_bytes\<rparr>)
    = (int (length path + 1), Some (path @ [0]), ?k\<lparr>rx := int_header ?j (int off) @ blob_frame ?j buf @ more_bytes\<rparr>)"
    using path by (subst socket_recv_string_ok) (simp_all add: request_fits_def)
  have i1: "fs_recv_int (?at (int_header ?j (int off) @ blob_frame ?j buf @ more_bytes)) = (int off, ?at (blob_frame ?j buf @ more_bytes))"
    using fits by (subst fs_recv_int_ok) simp_all
  have b: "socket_recv (?k\<lparr>rx := blob_frame ?j buf @ more_bytes\<rparr>) = (int (length buf), Some buf, ?k\<lparr>rx := more_bytes\<rparr>)"
    using small by (subst socket_recv_ok) simp_all
  have pc: "cstr (path @ [0]) = path" using path by (simp add: request_fits_def)
  have k1: "socketKernel d1 = ?k\<lparr>rx := more_bytes\<rparr>" using guardar_socket [OF run] by simp
  have ans: "answer_int v d1 = d1\<lparr>socketKernel := said (?k\<lparr>rx := more_bytes\<rparr>) (int_header (sjunk ?k) v)\<rparr>"
    using space by (simp add: answer_int_ok k1)
  have "hacerLoQueCorresponda (str ''GUARDARDATOS'')
      (?at (blob_frame ?j (path @ [0]) @ int_header ?j (int off) @ blob_frame ?j buf @ more_bytes)) = Inr (answer_int v d1)"
    unfolding hacerLoQueCorresponda_def using got pc i1 b run names by (simp add: Let_def)
  note handled = this [unfolded ans]
  have "rx ?k = blob_frame ?j (str ''GUARDARDATOS'' @ [0])
      @ blob_frame ?j (path @ [0]) @ int_header ?j (int off) @ blob_frame ?j buf @ more_bytes"
    using rx by (simp add: write_request_def)
  from serve_operation [OF this operation_names(5)] len handled show ?thesis by simp
qed

lemma stub_writes:
  assumes "58 + length path + length buf \<le> room s" "header_fits v"
  shows "filesystem_write path off buf (s\<lparr>rx := int_header j v\<rparr>) = (v, said (s\<lparr>rx := []\<rparr>) (write_request s path off buf))"
proof -
  have len: "length (str ''GUARDARDATOS'') = 12" by (simp add: str_def)
  define s4 where "s4 = said (s\<lparr>rx := int_header j v\<rparr>) (write_request s path off buf)"
  have "say_blob buf (say_int off (say_string path (say_string (str ''GUARDARDATOS'') (s\<lparr>rx := int_header j v\<rparr>)))) = s4"
    using assms(1) len by (simp add: s4_def write_request_def)
  moreover have "socket_recv_int s4 = (4, v, said (s\<lparr>rx := []\<rparr>) (write_request s path off buf))"
    using socket_recv_int_ok [OF assms(2), of s4 j "[]"] by (simp add: s4_def)
  ultimately show ?thesis by (simp add: filesystem_write_def)
qed

subsection \<open>A write, and the read behind it\<close>

lemma length_content:
  assumes "fs_inv d M" "M q = Some a"
  shows "length (file_bytes d a) = nat (tamanio a)"
proof -
  have r: "fs_ready d" and g: "good_file d a" using assms by (simp_all add: fs_inv_def files_ok_def)
  have "nat (tamanio a) \<le> length (blocks_data d (bloques a))"
    using g length_blocks_data [OF r, of "bloques a"] r
    by (auto simp: good_file_def block_size_def fs_ready_def nat_le_iff)
  then show ?thesis by (simp add: file_bytes_def)
qed

lemma still_valid:
  assumes inv: "fs_inv d M" and path: "plain_path path" and v: "validar (armarPathArchivo path d) d = 1"
    and same: "same_place d d'" and inv': "fs_inv d' M'" and M': "M' (components path) = Some a'"
  shows "validar (armarPathArchivo path d') d' = 1"
proof -
  have r: "fs_ready d" "fs_ready d'" using inv inv' by (simp_all add: fs_inv_def)
  obtain c where "lookup_path (tree d) (armarPathArchivo path d) = Some (Regular c)" using v validar_iff by blast
  note was = lookup_regular_walk [OF r(1) path this]
  have "archivos d' = archivos d" "armarPathArchivo path d' = armarPathArchivo path d"
    using same by (simp_all add: same_place_def archivos_def base_def armarPathArchivo_def)
      (metis fs.select_convs(2) fs.surjective fs.update_convs(5,6))+
  moreover from this have "dirs_to (tree d') (file_key d' path)"
    using was(2) same by (simp add: dirs_to_def same_place_def file_key_def)
  moreover have "node_at (tree d') (file_key d' path) = Some (Regular (metadata_text a'))"
    using inv' M' by (simp add: fs_inv_def files_ok_def file_key_def)
  ultimately show ?thesis using was(3) is_regular_iff [OF r(2) path] validar_iff by metis
qed

lemma write_then_read:
  assumes w: "writes_to d M path a off bs" and off: "int off \<le> tamanio a" and fits: "request_fits path"
    and room: "missing_blocks d a (off + length bs) \<le> card (free_blocks d)"
    and page: "off mod block_size d + min (length bs) (block_size d) \<le> whole_pages (page_bytes (fsenv d)) (block_size d)"
    and rx: "rx (socketKernel d) = write_request s path (int off) bs @ read_request s path (int off) (int (length bs)) @ more_bytes"
    and space: "33 + length bs \<le> room (socketKernel d)"
  defines "j \<equiv> sjunk (socketKernel d)"
  obtains d1 d2 where "serve_kernel d = Inr (Some d1)" "serve_kernel d1 = Inr (Some d2)"
    "answer_bytes d d1 = int_header j 1" "answer_bytes d1 d2 = int_header j (int (length bs)) @ blob_frame j bs"
    "tree d2 = tree d1" "bitmap d2 = bitmap d1"
    "socketKernel d2 = said ((socketKernel d)\<lparr>rx := more_bytes\<rparr>) (int_header j 1 @ int_header j (int (length bs)) @ blob_frame j bs)"
proof -
  note f = writes_to_facts [OF w]
  let ?k = "socketKernel d" and ?n = "length bs"
  let ?tail = "read_request s path (int off) (int ?n) @ more_bytes"
  let ?d0 = "d\<lparr>socketKernel := ?k\<lparr>rx := ?tail\<rparr>\<rparr>"
  have w0: "writes_to ?d0 M path a off bs" using w by simp
  have room0: "missing_blocks ?d0 a (off + ?n) \<le> card (free_blocks ?d0)" using room by simp
  have page0: "off mod block_size ?d0 + min ?n (block_size ?d0) \<le> whole_pages (page_bytes (fsenv ?d0)) (block_size ?d0)"
    using page by simp
  obtain d' a' where d': "guardarDatos (armarPathArchivo path d) (int off) (int ?n) bs ?d0 = Inr (1, d')"
    "fs_inv d' (M(components path \<mapsto> a'))" "tamanio a' = max (tamanio a) (int (off + ?n))"
    "file_bytes d' a' = take off (file_bytes d a) @ bs @ drop (off + ?n) (file_bytes d a)" "same_place ?d0 d'"
    using guardar_content [OF w0 off room0 page0] unfolding socket_keys socket_content by metis
  have k': "socketKernel d' = ?k\<lparr>rx := ?tail\<rparr>" using guardar_socket [OF d'(1)] by simp
  have env: "fsenv d' = fsenv d" "armarPathArchivo path d' = armarPathArchivo path d"
    using d'(5) by (simp_all add: same_place_def armarPathArchivo_def)
      (metis fs.select_convs(1,2) fs.surjective fs.update_convs(5,6,7))+
  define d1 where "d1 = d'\<lparr>socketKernel := said (?k\<lparr>rx := ?tail\<rparr>) (int_header j 1)\<rparr>"
  have first: "serve_kernel d = Inr (Some d1)"
    unfolding d1_def j_def using serve_write [OF fits rx _ _ _ d'(1)] f(8) space by simp
  have off': "off \<le> length (file_bytes d a)" using off length_content [OF f(1,5)] by (simp add: le_nat_iff)
  have got: "take ?n (drop off (file_bytes d1 a')) = bs"
    unfolding d1_def socket_content using off' by (simp add: d'(4))
  have v: "validar (armarPathArchivo path d1) d1 = 1"
    unfolding d1_def socket_keys
    by (rule still_valid [OF _ f(3) _ d'(5,2)]) (use f(1,9) in simp_all)
  have kd1: "rx (socketKernel d1) = ?tail" "sjunk (socketKernel d1) = j" "room (socketKernel d1) = room ?k - 11"
    by (simp_all add: d1_def j_def)
  define d2 where "d2 = d1\<lparr>socketKernel := said ((socketKernel d1)\<lparr>rx := more_bytes\<rparr>)
    (int_header j (int ?n) @ blob_frame j bs)\<rparr>"
  have "serve_kernel d1 = Inr (Some d2)"
  proof -
    have "fs_inv d1 (M(components path \<mapsto> a'))" using d'(2) by (simp add: d1_def)
    note inv1 = this
    have E1: "reads_metadata (fsenv d1)" using w by (simp add: d1_def env writes_to_def)
    have M1: "(M(components path \<mapsto> a')) (components path) = Some a'" by simp
    have small: "off < 2 ^ 31" "?n < 2 ^ 31" using f(8) by simp_all
    have "int off \<le> tamanio a'" unfolding d'(3) by simp
    moreover have "22 + ?n \<le> room (socketKernel d1)" using space unfolding kd1(3) by linarith
    ultimately show ?thesis
      using serve_read [OF inv1 E1 f(3) fits v M1 kd1(1) small, unfolded got kd1(2)] f(10) by (simp add: d2_def)
  qed
  moreover have "answer_bytes d d1 = int_header j 1" by (simp add: answer_bytes_def d1_def)
  moreover have "answer_bytes d1 d2 = int_header j (int ?n) @ blob_frame j bs" by (simp add: d2_def)
  ultimately show thesis using that first by (simp add: d2_def d1_def)
qed

end
