(* ===== verification/FS_Samples.thy ===== *)
theory FS_Samples
  imports FS_Exchange
begin

text \<open>
  Concrete disks: a reader of metadata that satisfies \<open>reads_metadata\<close>, and a disk of 16 blocks of 8
  bytes with one file of 5 bytes, in order, for every size of a page. The instances of the properties
  run on them.
\<close>

subsection \<open>A reader of metadata\<close>

fun value_text :: "byte list \<Rightarrow> byte list \<Rightarrow> byte list" where
  "value_text key [] = []"
| "value_text key (b # bs) =
     (if take (length key + 1) (b # bs) = key @ [61] then drop (length key + 1) (b # bs) else value_text key bs)"

fun split_commas :: "byte list \<Rightarrow> byte list \<Rightarrow> cstring list" where
  "split_commas acc [] = [acc]"
| "split_commas acc (b # bs) =
     (if b = 93 then [acc] else if b = 44 then acc # split_commas [] bs else split_commas (acc @ [b]) bs)"

definition sample_env :: "nat \<Rightarrow> int \<Rightarrow> fs_env" where
  "sample_env page junk =
     \<lparr>string_split = split_slash [],
      config_get_int_value = (\<lambda>c key. atoi (value_text key c)),
      config_get_array_value = (\<lambda>c key. split_commas [] (drop 1 (value_text key c))),
      shell = (\<lambda>command t. t), page_bytes = page, junk_int = junk, junk_path = [], junk_mem = (\<lambda>i. 0)\<rparr>"

lemma value_text_at: "value_text key (key @ 61 # r) = r"
  by (cases key) simp_all

lemma value_text_skip: "key \<noteq> [] \<Longrightarrow> hd key \<notin> set pre \<Longrightarrow> value_text key (pre @ key @ 61 # r) = r"
proof (induction pre)
  case Nil
  then show ?case using value_text_at by simp
next
  case (Cons b pre)
  have "take (length key + 1) (b # pre @ key @ 61 # r) \<noteq> key @ [61]"
    using Cons.prems by (cases key) auto
  with Cons show ?case by simp
qed

lemma split_commas_name: "44 \<notin> set w \<Longrightarrow> 93 \<notin> set w \<Longrightarrow> split_commas acc (w @ r) = split_commas (acc @ w) r"
  by (induction w arbitrary: acc) auto

lemma sprintf_plain: "44 \<notin> set (sprintf_i v)" "93 \<notin> set (sprintf_i v)" "66 \<notin> set (sprintf_i v)"
proof -
  have "\<forall>b \<in> set (dec_digits n). is_digit b" for n by (rule dec_digits_are_digits)
  then have "44 \<notin> set (dec_digits n)" "93 \<notin> set (dec_digits n)" "66 \<notin> set (dec_digits n)" for n
    by (force simp: is_digit_def)+
  then show "44 \<notin> set (sprintf_i v)" "93 \<notin> set (sprintf_i v)" "66 \<notin> set (sprintf_i v)"
    by (simp_all add: sprintf_i_def)
qed

lemma split_commas_list:
  "bl \<noteq> [] \<Longrightarrow> split_commas [] (butlast (concat (map (\<lambda>b. sprintf_i b @ [44]) bl)) @ [93]) = map sprintf_i bl"
proof (induction bl)
  case (Cons b bl)
  show ?case
  proof (cases "bl = []")
    case True
    then show ?thesis using split_commas_name [of "sprintf_i b" "[]" "[93]"] sprintf_plain by (simp add: butlast_append)
  next
    case False
    then have "concat (map (\<lambda>b. sprintf_i b @ [44]) bl) \<noteq> []" by (cases bl) simp_all
    then show ?thesis
      using Cons.IH [OF False] split_commas_name [of "sprintf_i b" "[]"] sprintf_plain by (simp add: butlast_append)
  qed
qed simp

lemma metadata_text_parts:
  assumes "bloques a \<noteq> []"
  shows "metadata_text a = str ''TAMANIO'' @ 61 # sprintf_i (tamanio a) @ [10] @ str ''BLOQUES'' @ 61 #
    [91] @ butlast (concat (map (\<lambda>b. sprintf_i b @ [44]) (bloques a))) @ [93]"
proof -
  have "concat (map (\<lambda>b. sprintf_i b @ [44]) (bloques a)) \<noteq> []" using assms by (cases "bloques a") simp_all
  then show ?thesis by (simp add: metadata_text_def str_def butlast_append)
qed

lemma sample_reads: "reads_metadata (sample_env page junk)"
proof -
  have "config_get_int_value (sample_env page junk) (metadata_text a) (str ''TAMANIO'') = tamanio a"
    "map atoi (config_get_array_value (sample_env page junk) (metadata_text a) (str ''BLOQUES'')) = bloques a"
    if a: "bloques a \<noteq> []" for a
  proof -
    let ?bl = "[91] @ butlast (concat (map (\<lambda>b. sprintf_i b @ [44]) (bloques a))) @ [93]"
    note m = metadata_text_parts [OF a]
    have "value_text (str ''TAMANIO'') (metadata_text a) = sprintf_i (tamanio a) @ [10] @ str ''BLOQUES'' @ 61 # ?bl"
      unfolding m by (rule value_text_at)
    then show "config_get_int_value (sample_env page junk) (metadata_text a) (str ''TAMANIO'') = tamanio a"
      using atoi_sprintf [of "[10] @ str ''BLOQUES'' @ 61 # ?bl" "tamanio a"]
      by (simp add: sample_env_def is_digit_def)
    have "value_text (str ''BLOQUES'') ((str ''TAMANIO'' @ 61 # sprintf_i (tamanio a) @ [10]) @ str ''BLOQUES'' @ 61 # ?bl) = ?bl"
      using sprintf_plain(3) by (intro value_text_skip) (simp_all add: str_def)
    then have "value_text (str ''BLOQUES'') (metadata_text a) = ?bl" unfolding m by simp
    moreover have "atoi \<circ> sprintf_i = (\<lambda>v. v)" using atoi_sprintf [of "[]"] by (simp add: fun_eq_iff)
    ultimately show "map atoi (config_get_array_value (sample_env page junk) (metadata_text a) (str ''BLOQUES'')) = bloques a"
      using split_commas_list [OF a] by (simp add: sample_env_def)
  qed
  then show ?thesis by (simp add: reads_metadata_def)
qed

subsection \<open>A disk with one file\<close>

definition sample_file :: t_metadata_archivo where
  "sample_file = \<lparr>tamanio = 5, bloques = [0]\<rparr>"

lemma sample_file_fields [simp]: "tamanio sample_file = 5" "bloques sample_file = [0]"
  by (simp_all add: sample_file_def)

definition sample_dirs :: tree where
  "sample_dirs =
     [([str ''m''], Directory), ([str ''m'', str ''Archivos''], Directory), ([str ''m'', str ''Bloques''], Directory),
      ([str ''m'', str ''Archivos'', str ''a''], Regular (metadata_text sample_file))]"

definition sample_block :: "nat \<Rightarrow> cstring list \<times> node" where
  "sample_block n = ([str ''m'', str ''Bloques'', sprintf_i (int n) @ str ''.bin''], Regular [1, 2, 3, 4, 5, 0, 0, 0])"

definition sample_disk :: "nat \<Rightarrow> int \<Rightarrow> sock \<Rightarrow> fs" where
  "sample_disk page junk s =
     \<lparr>fsenv = sample_env page junk, punto_montaje = str ''m/'', tamanioBloques = 8, cantidadBloques = 16,
      bitmap = True # replicate 15 False, tree = sample_dirs @ map sample_block [0..<16], socketKernel = s\<rparr>"

definition sample_files :: "cstring list \<rightharpoonup> t_metadata_archivo" where
  "sample_files = [[str ''a''] \<mapsto> sample_file]"

lemma map_of_keys: "map_of (map (\<lambda>n. (f n, v)) xs) k = (if k \<in> f ` set xs then Some v else None)"
  by (induction xs) auto

lemma sample_tree_at:
  "node_at (tree (sample_disk page junk s)) p =
     (case node_at sample_dirs p of Some x \<Rightarrow> Some x
      | None \<Rightarrow> if p \<in> (\<lambda>n. [str ''m'', str ''Bloques'', sprintf_i (int n) @ str ''.bin'']) ` {0..<16}
                then Some (Regular [1, 2, 3, 4, 5, 0, 0, 0]) else None)"
proof -
  have b: "sample_block = (\<lambda>n. ([str ''m'', str ''Bloques'', sprintf_i (int n) @ str ''.bin''], Regular [1, 2, 3, 4, 5, 0, 0, 0]))"
    by (simp add: fun_eq_iff sample_block_def)
  show ?thesis
    unfolding sample_disk_def fs.simps b map_of_append map_of_keys map_add_def
    by (simp split: option.splits)
qed

lemma sample_keys [simp]:
  "base (sample_disk page junk s) = [str ''m'']" "archivos (sample_disk page junk s) = [str ''m'', str ''Archivos'']"
  "block_key (sample_disk page junk s) n = [str ''m'', str ''Bloques'', sprintf_i n @ str ''.bin'']"
  "block_size (sample_disk page junk s) = 8" "bitarray_get_max_bit (sample_disk page junk s) = 16"
proof -
  have "components (str ''m/'') = [str ''m'']" by (simp add: components_def str_def)
  then show b: "base (sample_disk page junk s) = [str ''m'']" by (simp add: base_def sample_disk_def)
  then show "archivos (sample_disk page junk s) = [str ''m'', str ''Archivos'']"
    "block_key (sample_disk page junk s) n = [str ''m'', str ''Bloques'', sprintf_i n @ str ''.bin'']"
    by (simp_all add: archivos_def block_key_def)
  show "block_size (sample_disk page junk s) = 8" "bitarray_get_max_bit (sample_disk page junk s) = 16"
    by (simp_all add: block_size_def bitarray_get_max_bit_def sample_disk_def)
qed

lemma sample_fields [simp]:
  "fsenv (sample_disk page junk s) = sample_env page junk" "tamanioBloques (sample_disk page junk s) = 8"
  "cantidadBloques (sample_disk page junk s) = 16" "bitmap (sample_disk page junk s) = True # replicate 15 False"
  "punto_montaje (sample_disk page junk s) = str ''m/''" "socketKernel (sample_disk page junk s) = s"
  by (simp_all add: sample_disk_def)

lemma sample_free [simp]: "free_blocks (sample_disk page junk s) = {1..<16}"
proof (rule set_eqI)
  fix x
  show "x \<in> free_blocks (sample_disk page junk s) \<longleftrightarrow> x \<in> {1..<16}"
    by (cases "nat x") (auto simp: free_blocks_def)
qed

lemma dirs_to_three: "dirs_to t [a, b, x] \<longleftrightarrow> node_at t [a] = Some Directory \<and> node_at t [a, b] = Some Directory"
proof -
  have "dirs_to t [a, b, x] \<longleftrightarrow> (\<forall>k \<in> {1, 2}. node_at t (take k [a, b, x]) = Some Directory)"
    unfolding dirs_to_def by (auto simp: numeral_3_eq_3 less_Suc_eq)
  then show ?thesis by simp
qed

lemma sample_ready: "0 < page \<Longrightarrow> fs_ready (sample_disk page junk s)"
proof -
  assume "0 < page"
  let ?d = "sample_disk page junk s"
  have blocks: "node_at (tree ?d) (block_key ?d n) = Some (Regular [1, 2, 3, 4, 5, 0, 0, 0])"
    if "valid_block ?d n" for n
  proof -
    have "n = int (nat n)" "nat n \<in> {0..<16}" using that by (simp_all add: valid_block_def)
    then have "block_key ?d n \<in> (\<lambda>n. [str ''m'', str ''Bloques'', sprintf_i (int n) @ str ''.bin'']) ` {0..<16}"
      by (intro image_eqI [where x = "nat n"]) simp_all
    then show ?thesis by (simp add: sample_tree_at sample_dirs_def str_def)
  qed
  have dirs: "dirs_to (tree ?d) [str ''m'', str ''Archivos'', x]" "dirs_to (tree ?d) [str ''m'', str ''Bloques'', x]" for x
    by (simp_all add: dirs_to_three sample_tree_at) (simp_all add: sample_dirs_def str_def)
  show "fs_ready ?d"
    unfolding fs_ready_def
  proof (intro conjI allI impI)
    show "ends_with_slash (punto_montaje ?d)" "plain (base ?d)" by (simp_all add: ends_with_slash_def str_def plain_def)
    show "bitmap_ok ?d" by (simp add: bitmap_ok_def)
    show "dirs_to (tree ?d) (archivos ?d @ [x])" "dirs_to (tree ?d) (base ?d @ [str ''Bloques'', x])" for x
      using dirs [of x] by simp_all
    show "\<exists>c. node_at (tree ?d) (block_key ?d n) = Some (Regular c) \<and> length c = block_size ?d"
      if "valid_block ?d n" for n
      using blocks [OF that] unfolding sample_keys(4) by simp
  qed (use \<open>0 < page\<close> in \<open>simp_all add: sample_env_def\<close>)
qed

lemma sample_inv: "0 < page \<Longrightarrow> fs_inv (sample_disk page junk s) sample_files"
proof -
  assume page: "0 < page"
  let ?d = "sample_disk page junk s"
  have "files_ok ?d sample_files"
    unfolding files_ok_def
  proof (intro conjI allI impI)
    fix q a assume "sample_files q = Some a"
    then have q: "q = [str ''a'']" "a = sample_file" by (auto simp: sample_files_def split: if_splits)
    show "node_at (tree ?d) (archivos ?d @ q) = Some (Regular (metadata_text a))"
      by (simp add: q sample_tree_at sample_dirs_def str_def)
    show "good_file ?d a" by (simp add: q good_file_def sample_file_def valid_block_def)
  next
    fix q c assume "node_at (tree ?d) (archivos ?d @ q) = Some (Regular c)"
    then show "sample_files q \<noteq> None"
      by (auto simp: sample_tree_at sample_dirs_def sample_files_def str_def split: if_splits option.splits)
  next
    fix q r a b assume "sample_files q = Some a" "sample_files r = Some b" "q \<noteq> r"
    then show "set (bloques a) \<inter> set (bloques b) = {}" by (auto simp: sample_files_def split: if_splits)
  qed
  with sample_ready [OF page] show "fs_inv ?d sample_files" by (simp add: fs_inv_def)
qed

subsection \<open>The file of the disk\<close>

definition sock_of :: "byte list \<Rightarrow> nat \<Rightarrow> sock" where
  "sock_of bs n = \<lparr>rx = bs, tx = [], room = n, sjunk = (\<lambda>i. 0), rjunk = [], crash = False\<rparr>"

lemma sample_plain: "plain_path (str ''a'')"
  by (simp add: plain_path_def plain_def components_def str_def)

lemma sample_components: "components (str ''a'') = [str ''a'']"
  by (simp add: components_def str_def)

lemma sample_named: "sample_files (components (str ''a'')) = Some sample_file"
  by (simp add: sample_files_def sample_components)

lemma sample_key: "file_key (sample_disk page junk s) (str ''a'') = [str ''m'', str ''Archivos'', str ''a'']"
  by (simp add: file_key_def sample_components)

lemma sample_path: "armarPathArchivo (str ''a'') (sample_disk page junk s) = str ''m/Archivos/a''"
  by (simp add: armarPathArchivo_def str_def)

lemma sample_valid: "validar (armarPathArchivo (str ''a'') (sample_disk page junk s)) (sample_disk page junk s) = 1"
proof -
  let ?t = "tree (sample_disk page junk s)"
  have "components (str ''m/Archivos/a'') = [str ''m'', str ''Archivos'', str ''a'']"
    by (simp add: components_def str_def)
  moreover have "dirs_to ?t [str ''m'', str ''Archivos'', str ''a'']"
    by (simp add: dirs_to_three sample_tree_at) (simp add: sample_dirs_def str_def)
  moreover have "plain [str ''m'', str ''Archivos'', str ''a'']" by (simp add: plain_def str_def)
  moreover have "node_at ?t [str ''m'', str ''Archivos'', str ''a''] = Some (Regular (metadata_text sample_file))"
    by (simp add: sample_tree_at sample_dirs_def str_def)
  moreover have "\<not> ends_with_slash (str ''m/Archivos/a'')" by (simp add: ends_with_slash_def str_def)
  ultimately show ?thesis
    unfolding validar_iff sample_path lookup_path_def by (simp add: walk_root del: walk.simps)
qed

lemma sample_bytes: "0 \<le> n \<Longrightarrow> n < 16 \<Longrightarrow> block_bytes (sample_disk page junk s) n = [1, 2, 3, 4, 5, 0, 0, 0]"
proof -
  assume n: "0 \<le> n" "n < 16"
  then have "block_key (sample_disk page junk s) n \<in> (\<lambda>n. [str ''m'', str ''Bloques'', sprintf_i (int n) @ str ''.bin'']) ` {0..<16}"
    by (intro image_eqI [where x = "nat n"]) simp_all
  then have "node_at (tree (sample_disk page junk s)) (block_key (sample_disk page junk s) n) = Some (Regular [1, 2, 3, 4, 5, 0, 0, 0])"
    by (simp add: sample_tree_at sample_dirs_def str_def)
  then show ?thesis by (simp only: block_bytes_def option.case node.case)
qed

lemma sample_content: "file_bytes (sample_disk page junk s) sample_file = [1, 2, 3, 4, 5]"
  by (simp add: file_bytes_def blocks_data_def sample_file_def sample_bytes)

lemma sample_writes:
  "0 < page \<Longrightarrow> bs \<noteq> [] \<Longrightarrow> off + length bs < 128 \<Longrightarrow>
     writes_to (sample_disk page junk s) sample_files (str ''a'') sample_file off bs"
  by (simp add: writes_to_def sample_inv sample_reads sample_plain sample_valid sample_named)

lemma sample_parts: "string_split (fsenv (sample_disk page junk s)) (armarPathArchivo (str ''a'') (sample_disk page junk s))
    = [str ''m'', str ''Archivos'', str ''a'']"
  unfolding sample_path by (simp add: sample_env_def str_def)

subsection \<open>A free name, and a file in the way\<close>

lemma sample_vacant: "vacant (sample_disk page junk s) (str ''/b'')"
proof -
  have c: "components (str ''/b'') = [str ''b'']" by (simp add: components_def str_def)
  have "\<not> ends_with_slash (armarPathArchivo (str ''/b'') (sample_disk page junk s))"
    by (simp add: ends_with_slash_def armarPathArchivo_def str_def)
  moreover have "dirs_to (tree (sample_disk page junk s)) [str ''m'', str ''Archivos'', str ''b'']"
    by (simp add: dirs_to_three sample_tree_at) (simp add: sample_dirs_def str_def)
  moreover have "node_at (tree (sample_disk page junk s)) [str ''m'', str ''Archivos'', str ''b''] = None"
    by (auto simp: sample_tree_at sample_dirs_def str_def)
  ultimately show ?thesis by (simp add: vacant_def plain_path_def plain_def c file_key_def) (simp add: str_def)
qed

lemma sample_in_the_way:
  fixes page junk s
  defines "d \<equiv> sample_disk page junk s"
  shows "validar (armarPathArchivo (str ''a/b'') d) d \<noteq> 1"
    "write_text (armarPathArchivo (str ''a/b'') d) txt (tree d) = None"
    "string_split (fsenv d) (str ''a/b'') \<noteq> []"
    "\<not> no_file_in_the_way (punto_montaje d @ str ''Archivos/'') (string_split (fsenv d) (str ''a/b'')) (d\<lparr>bitmap := m\<rparr>)"
proof -
  have p: "armarPathArchivo (str ''a/b'') d = str ''m/Archivos/a/b''" by (simp add: d_def armarPathArchivo_def str_def)
  have c: "components (str ''m/Archivos/a/b'') = [str ''m'', str ''Archivos'', str ''a'', str ''b'']"
    by (simp add: components_def str_def)
  have a: "node_at (tree d) [str ''m'', str ''Archivos'', str ''a''] = Some (Regular (metadata_text sample_file))"
    by (simp add: d_def sample_tree_at sample_dirs_def str_def)
  have "\<not> dirs_to (tree d) [str ''m'', str ''Archivos'', str ''a'', str ''b'']"
    unfolding dirs_to_def using a by (auto intro!: exI [of _ 3])
  moreover have "plain [str ''m'', str ''Archivos'', str ''a'', str ''b'']" by (simp add: plain_def str_def)
  ultimately have w: "walk (tree d) [] (components (str ''m/Archivos/a/b'')) = None" by (simp add: c walk_root del: walk.simps)
  then show "validar (armarPathArchivo (str ''a/b'') d) d \<noteq> 1"
    unfolding validar_iff p by (simp add: lookup_path_def)
  show "write_text (armarPathArchivo (str ''a/b'') d) txt (tree d) = None" unfolding p by (simp add: write_text_def w)
  have s: "string_split (fsenv d) (str ''a/b'') = [str ''a'', str ''b'']" by (simp add: d_def sample_env_def str_def)
  then show "string_split (fsenv d) (str ''a/b'') \<noteq> []" by simp
  have "is_regular_file (tree d) (str ''m/Archivos/a'')"
    using sample_valid [of page junk s, folded d_def] unfolding d_def sample_path
    by (auto simp: validar_def ENOENT_def split: if_splits)
  moreover have "punto_montaje d @ str ''Archivos/'' @ str ''a'' = str ''m/Archivos/a''" by (simp add: d_def str_def)
  ultimately show "\<not> no_file_in_the_way (punto_montaje d @ str ''Archivos/'') (string_split (fsenv d) (str ''a/b'')) (d\<lparr>bitmap := m\<rparr>)"
    by (simp add: s)
qed

subsection \<open>A disk with a write and a read on the way, and a full one\<close>

definition sample_served :: fs where
  "sample_served = sample_disk 64 0
     (sock_of (write_request (sock_of [] 200) (str ''a'') 3 [9, 9, 9, 9, 9, 9, 9] @ read_request (sock_of [] 200) (str ''a'') 3 7) 100)"

definition sample_full :: fs where
  "sample_full = (sample_disk 64 0 (sock_of [] 0))\<lparr>bitmap := replicate 16 True\<rparr>"

lemma sample_full_free [simp]: "free_blocks sample_full = {}"
  by (auto simp: free_blocks_def sample_full_def bitarray_get_max_bit_def nat_less_iff)

lemma sample_full_size [simp]: "block_size sample_full = 8" "tamanioBloques sample_full = 8" "cantidadBloques sample_full = 16"
  by (simp_all add: sample_full_def block_size_def)

lemma sample_full_writes: "writes_to sample_full sample_files (str ''a'') sample_file 3 [9, 9, 9, 9, 9, 9, 9]"
proof -
  let ?d = "sample_disk 64 0 (sock_of [] 0)"
  have r: "fs_ready ?d" and ok: "files_ok ?d sample_files" using sample_inv [of 64] by (simp_all add: fs_inv_def)
  have "fs_ready (?d\<lparr>bitmap := replicate 16 True, tree := tree ?d\<rparr>)"
    using lookup_valid_block [OF r] by (intro fs_ready_change [OF r]) auto
  then have "fs_ready sample_full" by (simp add: sample_full_def)
  moreover have "files_ok sample_full sample_files"
    unfolding files_ok_def
  proof (intro conjI allI impI)
    fix q a assume q: "sample_files q = Some a"
    then show "node_at (tree sample_full) (archivos sample_full @ q) = Some (Regular (metadata_text a))"
      using ok by (simp add: files_ok_def sample_full_def change_keys)
    have "good_file ?d a" using ok q by (simp add: files_ok_def)
    then show "good_file sample_full a"
      by (rule good_file_mono) (simp_all add: sample_full_def change_keys valid_block_def nat_less_iff)
  qed (use ok in \<open>auto simp: files_ok_def sample_full_def change_keys\<close>)
  moreover have "validar (armarPathArchivo (str ''a'') sample_full) sample_full = 1"
    using sample_valid [of 64 0 "sock_of [] 0"] by (simp add: sample_full_def validar_def)
  ultimately show ?thesis
    using sample_writes [of 64 "[9, 9, 9, 9, 9, 9, 9]" 3 0 "sock_of [] 0"]
    by (simp add: writes_to_def fs_inv_def sample_full_def)
qed

end
