(* ===== verification/Hash_Function.thy ===== *)
theory Hash_Function
  imports Prelude
begin

text \<open>
  \<open>Memory/src/functions/hash_function.c\<close>: the four hash functions of a process page. All of
  them compute in \<open>size_t\<close>, a 64-bit word; \<open>hash\<close> of \<open>ram.c\<close> is a pointer to one of them, so the
  page table takes the hash function as an argument of type \<open>hash_function\<close>.
\<close>

unbundle bit_operations_syntax

type_synonym hash_function = "int \<Rightarrow> 64 word \<Rightarrow> 64 word"

text \<open>The little-endian bytes of an \<open>n\<close>-byte integer in memory.\<close>

definition le_bytes :: "nat \<Rightarrow> 'a::len word \<Rightarrow> byte list" where
  "le_bytes n w = map (\<lambda>i. ucast (drop_bit (8 * i) w)) [0..<n]"

definition PIDPageToChar :: "int \<Rightarrow> 64 word \<Rightarrow> byte list" where
  "PIDPageToChar PID page = le_bytes 4 (word_of_int PID :: 32 word) @ le_bytes 8 page"

definition xor_hash :: hash_function where
  "xor_hash PID page = foldl (\<lambda>hash p. hash XOR ucast p) 0 (PIDPageToChar PID page)"

definition rot_hash :: hash_function where
  "rot_hash PID page =
     foldl (\<lambda>hash p. (push_bit 4 hash XOR drop_bit 28 hash) XOR ucast p) 0
       (PIDPageToChar PID page)"

definition bernstein_hash :: hash_function where
  "bernstein_hash PID page =
     foldl (\<lambda>hash p. (33 * hash) XOR ucast p) 0 (PIDPageToChar PID page)"

text \<open>
  \<open>ayudante_hash\<close> divides by \<open>proccessPageCount\<close>; C's division by zero is excluded where the
  page table calls it (it takes the result modulo the same count).
\<close>

definition ayudante_hash :: "nat \<Rightarrow> nat \<Rightarrow> hash_function" where
  "ayudante_hash proccessPageCount frameSize PID page =
     (word_of_int PID * of_nat proccessPageCount + page * of_nat frameSize)
       div of_nat proccessPageCount"

text \<open>
  While nothing wraps, \<open>ayudante_hash\<close> starts every process at its own frame number and spreads
  the pages of a process by \<open>frameSize / proccessPageCount\<close>.
\<close>

lemma ayudante_hash_value:
  assumes "0 < n" "0 \<le> PID"
    and "nat PID * n + unat page * fs < 2 ^ 64" "n < 2 ^ 64" "fs < 2 ^ 64" "PID < 2 ^ 64"
  shows "unat (ayudante_hash n fs PID page) = nat PID + unat page * fs div n"
proof -
  let ?P = "word_of_int PID :: 64 word"
  have P: "unat ?P = nat PID"
    using assms by (simp add: unsigned_of_int take_bit_int_eq_self)
  have n: "unat (of_nat n :: 64 word) = n" and f: "unat (of_nat fs :: 64 word) = fs"
    using assms by (simp_all add: unsigned_of_nat take_bit_nat_eq_self)
  have a: "unat (?P * of_nat n) = nat PID * n"
    using assms by (simp add: unat_mult_lem [THEN iffD1] P n)
  have b: "unat (page * of_nat fs) = unat page * fs"
    using assms by (simp add: unat_mult_lem [THEN iffD1] f)
  have "unat (?P * of_nat n + page * of_nat fs) = nat PID * n + unat page * fs"
    using assms a b by (simp add: unat_add_lem [THEN iffD1])
  then show ?thesis
    using assms by (simp add: ayudante_hash_def unat_div n div_add1_eq)
qed

end
