(* ===== verification/Ram.thy ===== *)
theory Ram
  imports Hash_Function
begin

text \<open>
  The frame table of the Memory process: \<open>Memory/src/functions/ram.c\<close>, \<open>frame.c\<close> and
  \<open>utils.c\<close>. One block of \<open>frameCount * frameSize\<close> bytes holds the inverted page table
  (\<open>sizeof(t_pageTableEntry)\<close> = 12 bytes an entry) and, from the next frame boundary on, the
  frames. A page of a process is found by open addressing: the hash gives the first frame to
  probe and the probe goes on circularly.

  \<open>pageTable\<close> is the list of all \<open>frameCount\<close> entries, of which the code uses the first
  \<open>proccessPageCount\<close>; \<open>proccessPages\<close> is the flat block of the frames, so that an address is an
  index into it and a \<open>memcpy\<close> with a bad offset lands in a neighbouring frame as it does in C.
  An operation runs alone: the spin locks and \<open>freeFrameMutex\<close> are left out.
\<close>

record t_memory =
  frameCount :: nat
  frameSize :: nat
  cacheEntryCount :: nat
  cachePerProccess :: nat
  responseDelay :: int

record t_pageTableEntry =
  pte_PID :: int
  pte_page :: int

record ram =
  pageTable :: "t_pageTableEntry list"
  proccessPageCount :: nat
  freeFrameCount :: nat
  proccessPages :: "byte list"

subsection \<open>\<open>frame.c\<close> and \<open>utils.c\<close>\<close>

definition is_frame_free :: "t_pageTableEntry \<Rightarrow> bool" where
  "is_frame_free e \<longleftrightarrow> pte_PID e = -1"

definition is_frame_occupied :: "t_pageTableEntry \<Rightarrow> bool" where
  "is_frame_occupied e \<longleftrightarrow> pte_PID e \<noteq> -1"

definition entry_has_PID_page :: "t_pageTableEntry \<Rightarrow> int \<Rightarrow> int \<Rightarrow> bool" where
  "entry_has_PID_page e PID page \<longleftrightarrow> pte_PID e = PID \<and> pte_page e = page"

definition bytes_to_pages :: "t_memory \<Rightarrow> nat \<Rightarrow> nat" where
  "bytes_to_pages cfg byteCount =
     (let fullPages = byteCount div frameSize cfg
      in if byteCount mod frameSize cfg > 0 then fullPages + 1 else fullPages)"

subsection \<open>Start-up\<close>

definition ERROR_MEMORY :: int where "ERROR_MEMORY = -5"
definition ERROR_NO_PAGES_FOR_PROCESS :: int where "ERROR_NO_PAGES_FOR_PROCESS = -9"

definition sizeof_pageTableEntry :: nat where "sizeof_pageTableEntry = 12"

definition free_entry :: t_pageTableEntry where
  "free_entry = \<lparr>pte_PID = -1, pte_page = -1\<rparr>"

text \<open>
  \<open>ram_init\<close> divides by \<open>frameSize\<close> (in \<open>bytes_to_pages\<close>) and writes the table into the block it
  allocated: with frames smaller than an entry the table does not fit. \<open>mem0\<close> is what the fresh
  block holds.
\<close>

definition ram_init :: "t_memory \<Rightarrow> (nat \<Rightarrow> byte) \<Rightarrow> fault + ram" where
  "ram_init cfg mem0 =
     (let tableSizeInBytes = sizeof_pageTableEntry * frameCount cfg;
          adminSizeInPages = bytes_to_pages cfg tableSizeInBytes;
          count = frameCount cfg - adminSizeInPages
      in if tableSizeInBytes > frameCount cfg * frameSize cfg then Inl Buffer_Overflow
         else if frameSize cfg = 0 then Inl Div_By_Zero
         else Inr \<lparr>pageTable = replicate (frameCount cfg) free_entry,
                   proccessPageCount = count, freeFrameCount = count,
                   proccessPages = map (\<lambda>i. mem0 (adminSizeInPages * frameSize cfg + i))
                     [0..<count * frameSize cfg]\<rparr>)"

definition get_frame :: "t_memory \<Rightarrow> nat \<Rightarrow> nat" where
  "get_frame cfg i = i * frameSize cfg"

subsection \<open>Insertion\<close>

text \<open>
  The \<open>while\<close> of \<open>insert_proccess_page\<close> probes until it meets a free frame, for ever when
  there is none: \<open>None\<close> is not returning.
\<close>

partial_function (option) probe_free :: "t_pageTableEntry list \<Rightarrow> nat \<Rightarrow> nat \<Rightarrow> nat option" where
  "probe_free tbl n i =
     (if is_frame_free (tbl ! i) then Some i else probe_free tbl n ((i + 1) mod n))"

definition hash_frame :: "hash_function \<Rightarrow> ram \<Rightarrow> int \<Rightarrow> int \<Rightarrow> nat" where
  "hash_frame h r PID page = unat (h PID (word_of_int page)) mod proccessPageCount r"

definition insert_proccess_page :: "hash_function \<Rightarrow> ram \<Rightarrow> int \<Rightarrow> int \<Rightarrow> fault + nat \<times> ram" where
  "insert_proccess_page h r PID page =
     (if proccessPageCount r = 0 then Inl Div_By_Zero
      else case probe_free (pageTable r) (proccessPageCount r) (hash_frame h r PID page) of
             None \<Rightarrow> Inl No_Return
           | Some frameIndex \<Rightarrow>
               Inr (frameIndex,
                 r\<lparr>pageTable := (pageTable r)[frameIndex := \<lparr>pte_PID = PID, pte_page = page\<rparr>]\<rparr>))"

text \<open>The loop of \<open>ram_get_pages_for_proccess\<close>: \<open>k\<close> pages from number \<open>page\<close> (a \<open>size_t\<close>) on.\<close>

fun insert_pages :: "hash_function \<Rightarrow> ram \<Rightarrow> int \<Rightarrow> nat \<Rightarrow> nat \<Rightarrow> fault + ram" where
  "insert_pages h r PID 0 page = Inr r"
| "insert_pages h r PID (Suc k) page =
     (case insert_proccess_page h r PID (int_of_wide (int page)) of
        Inl e \<Rightarrow> Inl e
      | Inr (_, r') \<Rightarrow> insert_pages h r' PID k (page + 1))"

definition ram_get_pages_for_proccess ::
    "hash_function \<Rightarrow> ram \<Rightarrow> int \<Rightarrow> nat \<Rightarrow> nat \<Rightarrow> fault + int \<times> ram" where
  "ram_get_pages_for_proccess h r PID pageCount startPage =
     (if freeFrameCount r < pageCount then Inr (ERROR_NO_PAGES_FOR_PROCESS, r)
      else case insert_pages h (r\<lparr>freeFrameCount := freeFrameCount r - pageCount\<rparr>)
                  PID pageCount startPage of
             Inl e \<Rightarrow> Inl e
           | Inr r' \<Rightarrow> Inr (0, r'))"

definition ram_program_init :: "hash_function \<Rightarrow> ram \<Rightarrow> int \<Rightarrow> nat \<Rightarrow> fault + int \<times> ram" where
  "ram_program_init h r PID pageCount = ram_get_pages_for_proccess h r PID pageCount 0"

text \<open>\<open>pageTable[i].page > pageMax\<close> compares as \<open>size_t\<close>.\<close>

definition proccess_page_max :: "ram \<Rightarrow> int \<Rightarrow> nat" where
  "proccess_page_max r PID =
     foldl (\<lambda>pageMax e. if pte_PID e = PID \<and> size_t_of_int (pte_page e) > pageMax
                        then size_t_of_int (pte_page e) else pageMax)
       0 (take (proccessPageCount r) (pageTable r))"

definition ram_get_pages :: "hash_function \<Rightarrow> ram \<Rightarrow> int \<Rightarrow> nat \<Rightarrow> fault + int \<times> ram" where
  "ram_get_pages h r PID pageCount =
     ram_get_pages_for_proccess h r PID pageCount (proccess_page_max r PID + 1)"

subsection \<open>Removal\<close>

definition ram_program_end :: "ram \<Rightarrow> int \<Rightarrow> ram" where
  "ram_program_end r PID =
     (let used = take (proccessPageCount r) (pageTable r);
          rest = drop (proccessPageCount r) (pageTable r);
          pageCount = length (filter (\<lambda>e. pte_PID e = PID) used)
      in r\<lparr>pageTable := map (\<lambda>e. if pte_PID e = PID then free_entry else e) used @ rest,
           freeFrameCount := freeFrameCount r + pageCount\<rparr>)"

subsection \<open>Lookup\<close>

text \<open>The \<open>while\<close> of \<open>ram_frame_index_lookup\<close>: index and collision count where it stops.\<close>

function lookup_probe ::
    "t_pageTableEntry list \<Rightarrow> nat \<Rightarrow> int \<Rightarrow> int \<Rightarrow> nat \<Rightarrow> nat \<Rightarrow> nat \<times> nat" where
  "lookup_probe tbl n PID page i c =
     (if \<not> entry_has_PID_page (tbl ! i) PID page \<and> c < n
      then lookup_probe tbl n PID page ((i + 1) mod n) (c + 1)
      else (i, c))"
  by pat_completeness auto
termination
  by (relation "measure (\<lambda>(tbl, n, PID, page, i, c). n - c)") auto

declare lookup_probe.simps [simp del]

definition ram_frame_index_lookup ::
    "hash_function \<Rightarrow> ram \<Rightarrow> int \<Rightarrow> int \<Rightarrow> fault + int \<times> nat" where
  "ram_frame_index_lookup h r PID page =
     (let n = proccessPageCount r in
      if n = 0 then Inl Div_By_Zero
      else case lookup_probe (pageTable r) n PID page (hash_frame h r PID page) 0 of
             (frameIndex, collisionCount) \<Rightarrow>
               if collisionCount < n then Inr (0, frameIndex)
               else if list_all (\<lambda>e. \<not> entry_has_PID_page e PID page) (take n (pageTable r))
               then Inr (-1, n)
               else Inl Assert_Failure)"

definition ram_frame_lookup ::
    "t_memory \<Rightarrow> hash_function \<Rightarrow> ram \<Rightarrow> int \<Rightarrow> int \<Rightarrow> fault + nat option" where
  "ram_frame_lookup cfg h r PID page =
     (case ram_frame_index_lookup h r PID page of
        Inl e \<Rightarrow> Inl e
      | Inr (result, frameIndex) \<Rightarrow>
          Inr (if result = 0 then Some (get_frame cfg frameIndex) else None))"

definition ram_free_page :: "hash_function \<Rightarrow> ram \<Rightarrow> int \<Rightarrow> int \<Rightarrow> fault + int \<times> ram" where
  "ram_free_page h r PID page =
     (case ram_frame_index_lookup h r PID page of
        Inl e \<Rightarrow> Inl e
      | Inr (result, frameIndex) \<Rightarrow>
          Inr (result,
            if result = 0
            then r\<lparr>pageTable := (pageTable r)[frameIndex := free_entry],
                   freeFrameCount := freeFrameCount r + 1\<rparr>
            else r))"

definition frame_count :: "ram \<Rightarrow> (t_pageTableEntry \<Rightarrow> bool) \<Rightarrow> nat" where
  "frame_count r framePredicate =
     length (filter framePredicate (take (proccessPageCount r) (pageTable r)))"


subsection \<open>What the probes compute\<close>

text \<open>
  The frame of a page, by the contents of the table alone. The process id \<open>-1\<close> marks free
  frames and is no process.
\<close>

definition frame_of :: "ram \<Rightarrow> int \<times> int \<Rightarrow> nat option" where
  "frame_of r k =
     (if fst k = -1 then None
      else List.find (\<lambda>i. entry_has_PID_page (pageTable r ! i) (fst k) (snd k))
             [0..<proccessPageCount r])"

lemma lookup_probe_found:
  assumes "entry_has_PID_page (tbl ! ((i + k) mod n)) PID page" "c + k < n" "i < n"
    "\<forall>j < k. \<not> entry_has_PID_page (tbl ! ((i + j) mod n)) PID page"
  shows "lookup_probe tbl n PID page i c = ((i + k) mod n, c + k)"
  using assms
proof (induction k arbitrary: i c)
  case 0
  then show ?case by (subst lookup_probe.simps) simp
next
  case (Suc k)
  have "\<not> entry_has_PID_page (tbl ! i) PID page"
    using Suc.prems(3,4) by (metis add.right_neutral mod_less zero_less_Suc)
  moreover have "lookup_probe tbl n PID page (Suc i mod n) (Suc c)
      = ((Suc i mod n + k) mod n, Suc c + k)"
  proof (rule Suc.IH)
    show "\<forall>j < k. \<not> entry_has_PID_page (tbl ! ((Suc i mod n + j) mod n)) PID page"
      using Suc.prems(4) by (rule circular_tail)
  qed (use Suc.prems in auto)
  ultimately show ?case
    using Suc.prems by (subst lookup_probe.simps) simp
qed

lemma lookup_probe_missing:
  assumes "\<forall>t < n. \<not> entry_has_PID_page (tbl ! t) PID page" "i < n" "c \<le> n"
  shows "snd (lookup_probe tbl n PID page i c) = n"
  using assms
proof (induction tbl n PID page i c rule: lookup_probe.induct)
  case (1 tbl n PID page i c)
  then show ?case by (subst lookup_probe.simps) (auto simp: Suc_le_eq)
qed

lemma probe_free_found:
  assumes "is_frame_free (tbl ! ((i + k) mod n))" "i < n"
    "\<forall>j < k. \<not> is_frame_free (tbl ! ((i + j) mod n))"
  shows "probe_free tbl n i = Some ((i + k) mod n)"
  using assms
proof (induction k arbitrary: i)
  case 0
  then show ?case by (subst probe_free.simps) simp
next
  case (Suc k)
  have "\<not> is_frame_free (tbl ! i)"
    using Suc.prems(2,3) by (metis add.right_neutral mod_less zero_less_Suc)
  moreover have "probe_free tbl n (Suc i mod n) = Some ((Suc i mod n + k) mod n)"
  proof (rule Suc.IH)
    show "\<forall>j < k. \<not> is_frame_free (tbl ! ((Suc i mod n + j) mod n))"
      using Suc.prems(3) by (rule circular_tail)
  qed (use Suc.prems in auto)
  ultimately show ?case
    by (subst probe_free.simps) simp
qed

lemma probe_free_some:
  assumes "i < n" "t < n" "is_frame_free (tbl ! t)"
  shows "\<exists>f < n. probe_free tbl n i = Some f \<and> is_frame_free (tbl ! f)"
proof -
  obtain k where k: "k < n" "is_frame_free (tbl ! ((i + k) mod n))"
      "\<forall>j < k. \<not> is_frame_free (tbl ! ((i + j) mod n))"
    using first_in_circle [of i n t "\<lambda>t. is_frame_free (tbl ! t)"] assms by metis
  have "(i + k) mod n < n" using k(1) by (intro mod_less_divisor) simp
  then show ?thesis using probe_free_found [OF k(2) assms(1) k(3)] k(2) by blast
qed

lemma lookup_probe_some:
  assumes "i < n" "t < n" "entry_has_PID_page (tbl ! t) PID page"
  shows "\<exists>f c. lookup_probe tbl n PID page i 0 = (f, c) \<and> f < n \<and> c < n
    \<and> entry_has_PID_page (tbl ! f) PID page"
proof -
  obtain k where k: "k < n" "entry_has_PID_page (tbl ! ((i + k) mod n)) PID page"
      "\<forall>j < k. \<not> entry_has_PID_page (tbl ! ((i + j) mod n)) PID page"
    using first_in_circle [of i n t "\<lambda>t. entry_has_PID_page (tbl ! t) PID page"] assms by metis
  have "lookup_probe tbl n PID page i 0 = ((i + k) mod n, k)"
    using lookup_probe_found [OF k(2) _ assms(1) k(3), of 0] k(1) by simp
  moreover have "(i + k) mod n < n" using k(1) by (intro mod_less_divisor) simp
  ultimately show ?thesis using k(1,2) by blast
qed

subsection \<open>The invariant of the frame table\<close>

definition unique_pages :: "ram \<Rightarrow> bool" where
  "unique_pages r \<longleftrightarrow>
     (\<forall>i < proccessPageCount r. \<forall>j < proccessPageCount r.
        is_frame_occupied (pageTable r ! i) \<longrightarrow> pageTable r ! i = pageTable r ! j \<longrightarrow> i = j)"

definition ram_shape :: "t_memory \<Rightarrow> ram \<Rightarrow> bool" where
  "ram_shape cfg r \<longleftrightarrow>
     0 < frameSize cfg \<and> 0 < proccessPageCount r \<and> proccessPageCount r \<le> length (pageTable r)
     \<and> length (proccessPages r) = proccessPageCount r * frameSize cfg"

definition small_pages :: "ram \<Rightarrow> bool" where
  "small_pages r \<longleftrightarrow>
     (\<forall>i < proccessPageCount r. is_frame_occupied (pageTable r ! i) \<longrightarrow>
        0 \<le> pte_page (pageTable r ! i) \<and> pte_page (pageTable r ! i) < 2 ^ 31)"

definition ram_inv :: "t_memory \<Rightarrow> ram \<Rightarrow> bool" where
  "ram_inv cfg r \<longleftrightarrow> ram_shape cfg r \<and> unique_pages r \<and> small_pages r
     \<and> freeFrameCount r = frame_count r is_frame_free"

lemma ram_invD:
  "ram_inv cfg r \<Longrightarrow> ram_shape cfg r \<and> unique_pages r \<and> small_pages r
     \<and> freeFrameCount r = frame_count r is_frame_free"
  by (simp add: ram_inv_def)

lemma free_count_irrelevant [simp]:
  "frame_of (r\<lparr>freeFrameCount := x\<rparr>) = frame_of r"
  "frame_count (r\<lparr>freeFrameCount := x\<rparr>) = frame_count r"
  "unique_pages (r\<lparr>freeFrameCount := x\<rparr>) = unique_pages r"
  "small_pages (r\<lparr>freeFrameCount := x\<rparr>) = small_pages r"
  "ram_shape cfg (r\<lparr>freeFrameCount := x\<rparr>) = ram_shape cfg r"
  by (simp_all add: frame_of_def frame_count_def unique_pages_def small_pages_def ram_shape_def
      fun_eq_iff)

lemma contents_irrelevant [simp]:
  "frame_of (r\<lparr>proccessPages := b\<rparr>) = frame_of r"
  "frame_count (r\<lparr>proccessPages := b\<rparr>) = frame_count r"
  "unique_pages (r\<lparr>proccessPages := b\<rparr>) = unique_pages r"
  "small_pages (r\<lparr>proccessPages := b\<rparr>) = small_pages r"
  by (simp_all add: frame_of_def frame_count_def unique_pages_def small_pages_def fun_eq_iff)

lemma ram_inv_contents:
  "ram_inv cfg r \<Longrightarrow> length b = length (proccessPages r) \<Longrightarrow> ram_inv cfg (r\<lparr>proccessPages := b\<rparr>)"
  by (simp add: ram_inv_def) (simp add: ram_shape_def)

lemma hash_frame_bound: "0 < proccessPageCount r \<Longrightarrow> hash_frame h r PID page < proccessPageCount r"
  by (simp add: hash_frame_def)

lemma entry_eqI: "entry_has_PID_page e PID page \<Longrightarrow> entry_has_PID_page e' PID page \<Longrightarrow> e = e'"
  by (cases e; cases e') (simp add: entry_has_PID_page_def)

lemma frame_of_SomeD:
  "frame_of r k = Some i \<Longrightarrow>
     i < proccessPageCount r \<and> entry_has_PID_page (pageTable r ! i) (fst k) (snd k) \<and> fst k \<noteq> -1"
  by (auto simp: frame_of_def dest: find_in_set split: if_splits)

lemma frame_of_None_iff:
  "fst k \<noteq> -1 \<Longrightarrow> frame_of r k = None \<longleftrightarrow>
     (\<forall>i < proccessPageCount r. \<not> entry_has_PID_page (pageTable r ! i) (fst k) (snd k))"
  by (auto simp: frame_of_def find_None_iff)

lemma frame_of_eqI:
  assumes "unique_pages r" "fst k \<noteq> -1" "i < proccessPageCount r"
    "entry_has_PID_page (pageTable r ! i) (fst k) (snd k)"
  shows "frame_of r k = Some i"
proof (cases "frame_of r k")
  case None
  with assms show ?thesis by (simp add: frame_of_None_iff)
next
  case (Some j)
  then have j: "j < proccessPageCount r" "entry_has_PID_page (pageTable r ! j) (fst k) (snd k)"
    by (simp_all add: frame_of_SomeD)
  then have "pageTable r ! i = pageTable r ! j" using assms(4) by (rule_tac entry_eqI)
  moreover have "is_frame_occupied (pageTable r ! i)"
    using assms(2,4) by (simp add: is_frame_occupied_def entry_has_PID_page_def)
  ultimately have "i = j" using assms(1,3) j(1) by (simp add: unique_pages_def)
  with Some show ?thesis by simp
qed

lemma frame_of_iff:
  "unique_pages r \<Longrightarrow> frame_of r k = Some i \<longleftrightarrow>
     fst k \<noteq> -1 \<and> i < proccessPageCount r
     \<and> entry_has_PID_page (pageTable r ! i) (fst k) (snd k)"
  using frame_of_eqI frame_of_SomeD by blast

lemma frame_of_inj:
  "frame_of r k = Some f \<Longrightarrow> frame_of r k' = Some f \<Longrightarrow> k = k'"
  by (auto dest!: frame_of_SomeD simp: entry_has_PID_page_def prod_eq_iff)

interpretation frames: block_table frame_of proccessPageCount "\<lambda>r. True"
  by unfold_locales (blast dest: frame_of_SomeD frame_of_inj)+

lemma ram_frame_index_lookup_eq:
  assumes "ram_shape cfg r" "unique_pages r" "PID \<noteq> -1"
  shows "ram_frame_index_lookup h r PID page =
    Inr (case frame_of r (PID, page) of Some f \<Rightarrow> (0, f) | None \<Rightarrow> (-1, proccessPageCount r))"
proof -
  let ?n = "proccessPageCount r"
  have n: "0 < ?n" "?n \<le> length (pageTable r)" using assms(1) by (simp_all add: ram_shape_def)
  note i = hash_frame_bound [OF n(1), of h PID page]
  show ?thesis
  proof (cases "frame_of r (PID, page)")
    case None
    then have miss: "\<forall>t < ?n. \<not> entry_has_PID_page (pageTable r ! t) PID page"
      using assms(3) by (simp add: frame_of_None_iff)
    then have "snd (lookup_probe (pageTable r) ?n PID page (hash_frame h r PID page) 0) = ?n"
      using i by (intro lookup_probe_missing) auto
    moreover have "list_all (\<lambda>e. \<not> entry_has_PID_page e PID page) (take ?n (pageTable r))"
      using miss n(2) by (auto simp: list_all_length)
    ultimately show ?thesis
      using None n(1) by (simp add: ram_frame_index_lookup_def Let_def split_beta)
  next
    case (Some t)
    then obtain f c where f: "lookup_probe (pageTable r) ?n PID page (hash_frame h r PID page) 0 = (f, c)"
        "f < ?n" "c < ?n" "entry_has_PID_page (pageTable r ! f) PID page"
      using lookup_probe_some [OF i, of t "pageTable r" PID page] frame_of_SomeD [OF Some] by auto
    with assms have "frame_of r (PID, page) = Some f" by (intro frame_of_eqI) auto
    with f n(1) show ?thesis by (simp add: ram_frame_index_lookup_def)
  qed
qed

lemma ram_frame_lookup_eq:
  assumes "ram_shape cfg r" "unique_pages r" "PID \<noteq> -1"
  shows "ram_frame_lookup cfg h r PID page = Inr (map_option (get_frame cfg) (frame_of r (PID, page)))"
  by (simp add: ram_frame_lookup_def ram_frame_index_lookup_eq [OF assms] split: option.split)

subsection \<open>Writing one entry of the table\<close>

definition set_entry :: "nat \<Rightarrow> t_pageTableEntry \<Rightarrow> ram \<Rightarrow> ram" where
  "set_entry f e r = r\<lparr>pageTable := (pageTable r)[f := e]\<rparr>"

lemma set_entry_simps [simp]:
  "pageTable (set_entry f e r) = (pageTable r)[f := e]"
  "proccessPageCount (set_entry f e r) = proccessPageCount r"
  "freeFrameCount (set_entry f e r) = freeFrameCount r"
  "proccessPages (set_entry f e r) = proccessPages r"
  by (simp_all add: set_entry_def)

lemma ram_shape_set_entry [simp]: "ram_shape cfg (set_entry f e r) = ram_shape cfg r"
  by (simp add: ram_shape_def)

lemma frame_count_set_entry:
  assumes "ram_shape cfg r" "f < proccessPageCount r"
  shows "frame_count (set_entry f e r) P + (if P (pageTable r ! f) then 1 else 0)
    = frame_count r P + (if P e then 1 else 0)"
proof -
  have "f < length (take (proccessPageCount r) (pageTable r))"
    using assms by (simp add: ram_shape_def)
  from length_filter_update [OF this, of P e] show ?thesis
    using assms by (simp add: frame_count_def take_update_swap)
qed

lemma unique_pages_occupy:
  assumes "ram_shape cfg r" "unique_pages r" "f < proccessPageCount r" "PID \<noteq> -1"
    "frame_of r (PID, page) = None"
  shows "unique_pages (set_entry f \<lparr>pte_PID = PID, pte_page = page\<rparr> r)"
proof -
  have "\<forall>i < proccessPageCount r. pageTable r ! i \<noteq> \<lparr>pte_PID = PID, pte_page = page\<rparr>"
    using assms(4,5) by (auto simp: frame_of_None_iff entry_has_PID_page_def)
  then show ?thesis
    using assms(1-3) by (auto simp: unique_pages_def nth_list_update ram_shape_def)
qed

lemma frame_of_occupy:
  assumes "ram_shape cfg r" "unique_pages r" "f < proccessPageCount r" "PID \<noteq> -1"
    "frame_of r (PID, page) = None" "is_frame_free (pageTable r ! f)"
  shows "frame_of (set_entry f \<lparr>pte_PID = PID, pte_page = page\<rparr> r) = (frame_of r)((PID, page) \<mapsto> f)"
proof
  fix k
  let ?r = "set_entry f \<lparr>pte_PID = PID, pte_page = page\<rparr> r"
  note u = unique_pages_occupy [OF assms(1-5)]
  have len: "f < length (pageTable r)" using assms(1,3) by (simp add: ram_shape_def)
  have "frame_of ?r k = Some i \<longleftrightarrow> ((frame_of r)((PID, page) \<mapsto> f)) k = Some i" for i
    using assms len
    by (auto simp: frame_of_iff [OF u] frame_of_iff [OF assms(2)] nth_list_update
        entry_has_PID_page_def is_frame_free_def frame_of_None_iff prod_eq_iff)
  then show "frame_of ?r k = ((frame_of r)((PID, page) \<mapsto> f)) k"
    by (metis not_None_eq)
qed

subsection \<open>Insertion extends the page map\<close>

lemma insert_proccess_page_eq:
  assumes "ram_shape cfg r" "unique_pages r" "PID \<noteq> -1" "frame_of r (PID, page) = None"
    and free: "0 < frame_count r is_frame_free"
  obtains f where "insert_proccess_page h r PID page
      = Inr (f, set_entry f \<lparr>pte_PID = PID, pte_page = page\<rparr> r)"
    "f < proccessPageCount r" "is_frame_free (pageTable r ! f)"
proof -
  let ?n = "proccessPageCount r"
  have n: "0 < ?n" "?n \<le> length (pageTable r)" using assms(1) by (simp_all add: ram_shape_def)
  obtain t where "t < ?n" "is_frame_free (pageTable r ! t)"
    using free n by (auto simp: frame_count_def length_filter_pos simp del: length_greater_0_conv)
  then obtain f where "f < ?n" "probe_free (pageTable r) ?n (hash_frame h r PID page) = Some f"
      "is_frame_free (pageTable r ! f)"
    using probe_free_some [OF hash_frame_bound [OF n(1)]] by metis
  with n(1) show thesis
    by (intro that [of f]) (simp_all add: insert_proccess_page_def set_entry_def)
qed

text \<open>What one successful insertion leaves for the next one.\<close>

lemma after_occupy:
  assumes "ram_shape cfg r" "unique_pages r" "small_pages r" "PID \<noteq> -1"
    "frame_of r (PID, page) = None" "f < proccessPageCount r" "is_frame_free (pageTable r ! f)"
    "0 \<le> page" "page < 2 ^ 31"
    and r': "r' = set_entry f \<lparr>pte_PID = PID, pte_page = page\<rparr> r"
  shows "ram_shape cfg r'" "unique_pages r'" "small_pages r'"
    "frame_count r is_frame_free = frame_count r' is_frame_free + 1"
    "frame_of r' = (frame_of r)((PID, page) \<mapsto> f)"
proof -
  show "ram_shape cfg r'" using assms(1) r' by simp
  show "unique_pages r'" using assms by (simp add: unique_pages_occupy)
  show "frame_of r' = (frame_of r)((PID, page) \<mapsto> f)" using assms by (simp add: frame_of_occupy)
  show "small_pages r'"
    using assms by (auto simp: small_pages_def nth_list_update ram_shape_def)
  show "frame_count r is_frame_free = frame_count r' is_frame_free + 1"
    using frame_count_set_entry [OF assms(1,6), of "\<lparr>pte_PID = PID, pte_page = page\<rparr>" is_frame_free]
      assms(4,7) r' by (simp add: is_frame_free_def)
qed

definition new_pages :: "int \<Rightarrow> nat \<Rightarrow> nat \<Rightarrow> (int \<times> int) set" where
  "new_pages PID start k = {(PID, int (start + i)) | i. i < k}"

lemma new_pages_Suc: "new_pages PID start (Suc k) = insert (PID, int start) (new_pages PID (start + 1) k)"
proof -
  have "{..<Suc k} = insert 0 (Suc ` {..<k})" by (rule lessThan_Suc_eq_insert_0)
  then have "(\<lambda>i. (PID, int (start + i))) ` {..<Suc k}
      = insert (PID, int start) ((\<lambda>i. (PID, int (start + 1 + i))) ` {..<k})"
    by (simp add: image_image add.assoc add.left_commute)
  then show ?thesis by (auto simp: new_pages_def image_def)
qed

lemma new_pages_0 [simp]: "new_pages PID start 0 = {}"
  by (simp add: new_pages_def)

lemma insert_pages_spec:
  assumes "ram_shape cfg r" "unique_pages r" "small_pages r" "PID \<noteq> -1"
    "k \<le> frame_count r is_frame_free" "start + k \<le> 2 ^ 31"
    "dom (frame_of r) \<inter> new_pages PID start k = {}"
  shows "\<exists>r'. insert_pages h r PID k start = Inr r'
    \<and> ram_shape cfg r' \<and> unique_pages r' \<and> small_pages r'
    \<and> frame_count r is_frame_free = frame_count r' is_frame_free + k
    \<and> freeFrameCount r' = freeFrameCount r \<and> proccessPages r' = proccessPages r
    \<and> proccessPageCount r' = proccessPageCount r
    \<and> dom (frame_of r') = dom (frame_of r) \<union> new_pages PID start k
    \<and> frame_of r \<subseteq>\<^sub>m frame_of r'"
  using assms
proof (induction k arbitrary: r start)
  case 0
  then show ?case by simp
next
  case (Suc k)
  let ?p = "int start"
  have p: "int_of_wide (int start) = ?p" "0 \<le> ?p" "?p < 2 ^ 31" using Suc.prems(6) by simp_all
  have none: "frame_of r (PID, ?p) = None"
    using Suc.prems(7) by (auto simp: new_pages_Suc)
  obtain f where f: "insert_proccess_page h r PID ?p
      = Inr (f, set_entry f \<lparr>pte_PID = PID, pte_page = ?p\<rparr> r)"
      "f < proccessPageCount r" "is_frame_free (pageTable r ! f)"
    using insert_proccess_page_eq [OF Suc.prems(1,2,4) none] Suc.prems(5) by auto
  define r1 where "r1 = set_entry f \<lparr>pte_PID = PID, pte_page = ?p\<rparr> r"
  note r1 = after_occupy [OF Suc.prems(1-4) none f(2,3) p(2,3) r1_def]
  have fresh: "dom (frame_of r1) \<inter> new_pages PID (start + 1) k = {}"
    using Suc.prems(7) by (auto simp: r1(5) new_pages_Suc) (auto simp: new_pages_def)
  obtain r' where r': "insert_pages h r1 PID k (start + 1) = Inr r'"
      "ram_shape cfg r'" "unique_pages r'" "small_pages r'"
      "frame_count r1 is_frame_free = frame_count r' is_frame_free + k"
      "freeFrameCount r' = freeFrameCount r1" "proccessPages r' = proccessPages r1"
      "proccessPageCount r' = proccessPageCount r1"
      "dom (frame_of r') = dom (frame_of r1) \<union> new_pages PID (start + 1) k"
      "frame_of r1 \<subseteq>\<^sub>m frame_of r'"
    using Suc.IH [OF r1(1-3) Suc.prems(4) _ _ fresh] r1(4) Suc.prems(5,6) by auto
  have "frame_of r \<subseteq>\<^sub>m frame_of r1" using none by (simp add: r1(5) map_le_def dom_def)
  from this r'(10) have "frame_of r \<subseteq>\<^sub>m frame_of r'" by (rule map_le_trans)
  with r' r1(4) f(1) p(1) show ?case
    by (simp add: r1_def [symmetric] r1(5) new_pages_Suc) (simp add: r1_def)
qed

lemma ram_get_pages_for_proccess_spec:
  assumes "ram_inv cfg r" "PID \<noteq> -1" "start + k \<le> 2 ^ 31"
    "dom (frame_of r) \<inter> new_pages PID start k = {}"
  shows "\<exists>r'. ram_get_pages_for_proccess h r PID k start
      = Inr (if k \<le> freeFrameCount r then 0 else ERROR_NO_PAGES_FOR_PROCESS, r')
    \<and> ram_inv cfg r' \<and> proccessPages r' = proccessPages r
    \<and> proccessPageCount r' = proccessPageCount r
    \<and> frame_of r \<subseteq>\<^sub>m frame_of r'
    \<and> (if k \<le> freeFrameCount r
       then dom (frame_of r') = dom (frame_of r) \<union> new_pages PID start k
         \<and> freeFrameCount r = freeFrameCount r' + k
       else r' = r)"
proof (cases "k \<le> freeFrameCount r")
  case True
  let ?r = "r\<lparr>freeFrameCount := freeFrameCount r - k\<rparr>"
  have "ram_shape cfg ?r" "unique_pages ?r" "small_pages ?r" "k \<le> frame_count ?r is_frame_free"
    using assms(1) True
    by (simp_all add: ram_inv_def)
  with assms(2-4) obtain r' where r': "insert_pages h ?r PID k start = Inr r'"
      "ram_shape cfg r'" "unique_pages r'" "small_pages r'"
      "frame_count r is_frame_free = frame_count r' is_frame_free + k"
      "freeFrameCount r' = freeFrameCount r - k" "proccessPages r' = proccessPages r"
      "proccessPageCount r' = proccessPageCount r"
      "dom (frame_of r') = dom (frame_of r) \<union> new_pages PID start k" "frame_of r \<subseteq>\<^sub>m frame_of r'"
    using insert_pages_spec [of cfg ?r PID k start h] by auto
  with True assms(1) show ?thesis
    by (simp add: ram_get_pages_for_proccess_def ram_inv_def)
next
  case False
  with assms(1) show ?thesis by (simp add: ram_get_pages_for_proccess_def)
qed

subsection \<open>Growing a process\<close>

text \<open>The largest page number of a process, 0 when it has none.\<close>

lemma proccess_page_max_bound:
  assumes "ram_inv cfg r" "PID \<noteq> -1" "frame_of r (PID, page) = Some f"
  shows "page \<le> int (proccess_page_max r PID)"
proof -
  let ?used = "take (proccessPageCount r) (pageTable r)"
  have f: "f < proccessPageCount r" "pte_PID (pageTable r ! f) = PID" "pte_page (pageTable r ! f) = page"
    using frame_of_SomeD [OF assms(3)] by (simp_all add: entry_has_PID_page_def)
  with assms(1,2) have small: "0 \<le> page" "page < 2 ^ 31"
    by (auto simp: ram_inv_def small_pages_def is_frame_occupied_def)
  have "pageTable r ! f \<in> set ?used"
    using f(1) assms(1) by (auto simp: ram_inv_def ram_shape_def in_set_conv_nth)
  then have "size_t_of_int (pte_page (pageTable r ! f)) \<le> proccess_page_max r PID"
    unfolding proccess_page_max_def foldl_max
    using foldl_max_ge [where m = 0 and f = "\<lambda>e. size_t_of_int (pte_page e)"
        and xs = "filter (\<lambda>e. pte_PID e = PID) ?used"] f(2)
    by auto
  with f(3) small show ?thesis by simp
qed

lemma proccess_page_max_small:
  assumes "ram_inv cfg r" "PID \<noteq> -1"
  shows "proccess_page_max r PID < 2 ^ 31"
proof -
  let ?xs = "filter (\<lambda>e. pte_PID e = PID) (take (proccessPageCount r) (pageTable r))"
  have "\<forall>e \<in> set ?xs. size_t_of_int (pte_page e) < 2 ^ 31"
    using assms by (auto simp: ram_inv_def small_pages_def is_frame_occupied_def in_set_conv_nth)
  then show ?thesis
    unfolding proccess_page_max_def foldl_max
    using foldl_max_in [where m = 0 and f = "\<lambda>e. size_t_of_int (pte_page e)" and xs = ?xs] by auto
qed

lemma ram_get_pages_spec:
  assumes "ram_inv cfg r" "PID \<noteq> -1" "proccess_page_max r PID + 1 + k \<le> 2 ^ 31"
  shows "\<exists>r'. ram_get_pages h r PID k
      = Inr (if k \<le> freeFrameCount r then 0 else ERROR_NO_PAGES_FOR_PROCESS, r')
    \<and> ram_inv cfg r' \<and> proccessPages r' = proccessPages r
    \<and> proccessPageCount r' = proccessPageCount r
    \<and> frame_of r \<subseteq>\<^sub>m frame_of r'
    \<and> (if k \<le> freeFrameCount r
       then dom (frame_of r') = dom (frame_of r) \<union> new_pages PID (proccess_page_max r PID + 1) k
         \<and> freeFrameCount r = freeFrameCount r' + k
       else r' = r)"
proof -
  have "dom (frame_of r) \<inter> new_pages PID (proccess_page_max r PID + 1) k = {}"
    using proccess_page_max_bound [OF assms(1,2)] by (force simp: new_pages_def)
  from ram_get_pages_for_proccess_spec [OF assms this] show ?thesis
    unfolding ram_get_pages_def .
qed

subsection \<open>Releasing pages\<close>

lemma nth_program_end:
  assumes "ram_shape cfg r" "i < proccessPageCount r"
  shows "pageTable (ram_program_end r PID) ! i
    = (if pte_PID (pageTable r ! i) = PID then free_entry else pageTable r ! i)"
  using assms by (simp add: ram_program_end_def Let_def nth_append ram_shape_def)

lemma ram_program_end_spec:
  assumes "ram_inv cfg r" "PID \<noteq> -1"
  shows "ram_inv cfg (ram_program_end r PID)"
    and "frame_of (ram_program_end r PID) = (\<lambda>k. if fst k = PID then None else frame_of r k)"
    and "proccessPages (ram_program_end r PID) = proccessPages r"
    and "proccessPageCount (ram_program_end r PID) = proccessPageCount r"
proof -
  let ?r = "ram_program_end r PID" and ?used = "take (proccessPageCount r) (pageTable r)"
  have shape: "ram_shape cfg r" and uniq: "unique_pages r" using assms(1) by (simp_all add: ram_inv_def)
  note nth = nth_program_end [OF shape, of _ PID]
  show n: "proccessPageCount ?r = proccessPageCount r" "proccessPages ?r = proccessPages r"
    by (simp_all add: ram_program_end_def Let_def)
  have shape': "ram_shape cfg ?r"
    using shape by (simp add: ram_program_end_def Let_def ram_shape_def)
  have uniq': "unique_pages ?r"
    using uniq by (auto simp: unique_pages_def n nth is_frame_occupied_def free_entry_def)
  have small': "small_pages ?r"
    using assms(1) by (auto simp: ram_inv_def small_pages_def n nth is_frame_occupied_def free_entry_def)
  have "take (proccessPageCount r) (pageTable ?r) = map (\<lambda>e. if pte_PID e = PID then free_entry else e) ?used"
    using shape by (simp add: ram_program_end_def Let_def ram_shape_def)
  moreover have "length (filter is_frame_free (map (\<lambda>e. if pte_PID e = PID then free_entry else e) xs))
      = length (filter is_frame_free xs) + length (filter (\<lambda>e. pte_PID e = PID) xs)" for xs
    using assms(2) by (induction xs) (auto simp: is_frame_free_def free_entry_def)
  ultimately have "frame_count ?r is_frame_free
      = frame_count r is_frame_free + length (filter (\<lambda>e. pte_PID e = PID) ?used)"
    by (simp add: frame_count_def n)
  with assms(1) shape' uniq' small' show "ram_inv cfg ?r"
    by (simp add: ram_inv_def) (simp add: ram_program_end_def Let_def)
  show "frame_of ?r = (\<lambda>k. if fst k = PID then None else frame_of r k)"
  proof
    fix k
    have "frame_of ?r (p, q) = Some i \<longleftrightarrow> p \<noteq> PID \<and> frame_of r (p, q) = Some i" for p q i
      using assms(2)
      by (auto simp: frame_of_iff [OF uniq'] frame_of_iff [OF uniq] n nth entry_has_PID_page_def
          free_entry_def split: if_splits)
    from this [of "fst k" "snd k"]
    have "frame_of ?r k = Some i \<longleftrightarrow> fst k \<noteq> PID \<and> frame_of r k = Some i" for i by simp
    then show "frame_of ?r k = (if fst k = PID then None else frame_of r k)"
      by (metis not_None_eq)
  qed
qed

lemma ram_free_page_spec:
  assumes "ram_inv cfg r" "PID \<noteq> -1"
  shows "\<exists>r'. ram_free_page h r PID page = Inr (if frame_of r (PID, page) = None then -1 else 0, r')
    \<and> ram_inv cfg r' \<and> frame_of r' = (frame_of r)((PID, page) := None)
    \<and> proccessPages r' = proccessPages r \<and> proccessPageCount r' = proccessPageCount r
    \<and> (frame_of r (PID, page) = None \<longrightarrow> r' = r)"
proof -
  have shape: "ram_shape cfg r" and uniq: "unique_pages r" and small: "small_pages r"
    and count: "freeFrameCount r = frame_count r is_frame_free"
    using assms(1) by (simp_all add: ram_inv_def)
  show ?thesis
  proof (cases "frame_of r (PID, page)")
    case None
    then have "frame_of r = (frame_of r)((PID, page) := None)" by (simp add: fun_eq_iff)
    with None assms show ?thesis
      by (simp add: ram_free_page_def ram_frame_index_lookup_eq [OF shape uniq assms(2)])
  next
    case (Some f)
    define r1 where "r1 = set_entry f free_entry r"
    have f: "f < proccessPageCount r" "entry_has_PID_page (pageTable r ! f) PID page"
      using frame_of_SomeD [OF Some] by simp_all
    then have len: "f < length (pageTable r)" using shape by (simp add: ram_shape_def)
    have occ: "\<not> is_frame_free (pageTable r ! f)"
      using f(2) assms(2) by (simp add: is_frame_free_def entry_has_PID_page_def)
    have u1: "unique_pages r1"
      using uniq len by (auto simp: r1_def unique_pages_def nth_list_update is_frame_occupied_def
          free_entry_def)
    have s1: "small_pages r1"
      using small len by (auto simp: r1_def small_pages_def nth_list_update is_frame_occupied_def
          free_entry_def)
    have c1: "frame_count r1 is_frame_free = frame_count r is_frame_free + 1"
      using frame_count_set_entry [OF shape f(1), of free_entry is_frame_free] occ
      by (simp add: r1_def is_frame_free_def free_entry_def)
    have nth1: "pageTable r1 ! i = (if i = f then free_entry else pageTable r ! i)" for i
      using len by (simp add: r1_def nth_list_update)
    have n1: "proccessPageCount r1 = proccessPageCount r" by (simp add: r1_def)
    have "frame_of r1 (p, q) = Some i \<longleftrightarrow> (p, q) \<noteq> (PID, page) \<and> frame_of r (p, q) = Some i" for p q i
    proof (cases "i = f")
      case True
      then show ?thesis
        using f by (auto simp: frame_of_iff [OF u1] frame_of_iff [OF uniq] nth1 n1
            entry_has_PID_page_def free_entry_def)
    next
      case False
      then have "\<not> (i < proccessPageCount r \<and> entry_has_PID_page (pageTable r ! i) PID page)"
        using frame_of_eqI [OF uniq, of "(PID, page)" i] Some assms(2) by auto
      with False show ?thesis
        by (auto simp: frame_of_iff [OF u1] frame_of_iff [OF uniq] nth1 n1)
    qed
    then have "frame_of r1 k = Some i \<longleftrightarrow> k \<noteq> (PID, page) \<and> frame_of r k = Some i" for k i
      by (cases k) metis
    then have m1: "frame_of r1 = (frame_of r)((PID, page) := None)"
      by (intro ext) (metis fun_upd_apply not_None_eq)
    have "ram_free_page h r PID page = Inr (0, r1\<lparr>freeFrameCount := freeFrameCount r + 1\<rparr>)"
      by (simp add: ram_free_page_def ram_frame_index_lookup_eq [OF shape uniq assms(2)] Some r1_def
          set_entry_def)
    with Some u1 s1 c1 m1 count shape show ?thesis
      by (simp add: ram_inv_def) (simp add: r1_def)
  qed
qed

subsection \<open>The layout of the block\<close>

text \<open>
  With frames of at least 12 bytes the table and the frames lie in the allocated block, one
  behind the other.
\<close>

lemma bytes_to_pages_bounds:
  assumes "0 < frameSize cfg"
  shows "b \<le> bytes_to_pages cfg b * frameSize cfg"
    and "bytes_to_pages cfg b * frameSize cfg < b + frameSize cfg"
proof -
  let ?f = "frameSize cfg"
  define q m where "q = b div ?f" and "m = b mod ?f"
  have b: "b = q * ?f + m" and m: "m < ?f" using assms by (simp_all add: q_def m_def)
  have "bytes_to_pages cfg b = (if m > 0 then q + 1 else q)"
    by (simp add: bytes_to_pages_def q_def m_def)
  with b m show "b \<le> bytes_to_pages cfg b * ?f" "bytes_to_pages cfg b * ?f < b + ?f"
    by auto
qed

lemma ram_init_spec:
  assumes "sizeof_pageTableEntry \<le> frameSize cfg"
  shows "\<exists>r. ram_init cfg mem0 = Inr r
    \<and> sizeof_pageTableEntry * frameCount cfg
        \<le> bytes_to_pages cfg (sizeof_pageTableEntry * frameCount cfg) * frameSize cfg
    \<and> bytes_to_pages cfg (sizeof_pageTableEntry * frameCount cfg) + proccessPageCount r = frameCount cfg
    \<and> freeFrameCount r = frame_count r is_frame_free
    \<and> frame_of r = Map.empty
    \<and> (proccessPageCount r > 0 \<longrightarrow> ram_inv cfg r)"
proof -
  let ?t = "sizeof_pageTableEntry * frameCount cfg"
  let ?a = "bytes_to_pages cfg ?t"
  have fs: "0 < frameSize cfg" using assms by (simp add: sizeof_pageTableEntry_def)
  have fits: "?t \<le> frameCount cfg * frameSize cfg" using assms by (simp add: mult.commute)
  have "?a * frameSize cfg < (frameCount cfg + 1) * frameSize cfg"
    using bytes_to_pages_bounds(2) [OF fs, of ?t] fits unfolding add_mult_distrib by linarith
  then have "?a < frameCount cfg + 1" by (rule mult_less_cancel2 [THEN iffD1, THEN conjunct2])
  then have a: "?a \<le> frameCount cfg" by simp
  obtain r where r: "ram_init cfg mem0 = Inr r"
      "pageTable r = replicate (frameCount cfg) free_entry"
      "proccessPageCount r = frameCount cfg - ?a" "freeFrameCount r = frameCount cfg - ?a"
      "length (proccessPages r) = (frameCount cfg - ?a) * frameSize cfg"
    using fs assms by (simp add: ram_init_def Let_def)
  have "filter is_frame_free (replicate n free_entry) = replicate n free_entry" for n
    by (induction n) (simp_all add: is_frame_free_def free_entry_def)
  then have c: "frame_count r is_frame_free = frameCount cfg - ?a"
    by (simp add: frame_count_def r take_replicate min_def)
  have e: "frame_of r = Map.empty"
    by (auto simp: fun_eq_iff frame_of_def find_None_iff r entry_has_PID_page_def free_entry_def)
  have "ram_inv cfg r" if "proccessPageCount r > 0"
    using that r c fs a
    by (simp add: ram_inv_def ram_shape_def unique_pages_def small_pages_def is_frame_occupied_def
        free_entry_def)
  with r a c e bytes_to_pages_bounds(1) [OF fs, of ?t] show ?thesis by auto
qed

end
