(* ===== verification/Cache.thy ===== *)
theory Cache
  imports Ram
begin

text \<open>
  The page cache of the Memory process: \<open>Memory/src/functions/cache.c\<close>. \<open>cacheEntryCount\<close>
  entries share one block \<open>cacheContent\<close>; entry \<open>i\<close> owns the \<open>i\<close>-th \<open>frameSize\<close> bytes of it. For
  the LRU replacement the cache keeps, per process, the list of the entries it uses
  (\<open>t_proccessEntries\<close>); a pointer to an entry is represented by the entry's index.

  The readings of \<open>clock()\<close> and \<open>time(NULL)\<close> come from the environment: \<open>clock_src\<close> and
  \<open>time_src\<close> give them as functions of \<open>tick\<close>, the number of \<open>clock()\<close> calls so far.
\<close>

record t_cache_entry =
  ce_PID :: int
  ce_page :: int
  ce_lastAccess :: int

record t_proccessEntries =
  pe_PID :: int
  pe_entries :: "nat list"

record cache =
  entries :: "t_cache_entry list"
  cacheContent :: "byte list"
  proccessesCacheEntries :: "t_proccessEntries list"
  cacheUseCount :: int
  tick :: nat
  clock_src :: "nat \<Rightarrow> int"
  time_src :: "nat \<Rightarrow> int"

subsection \<open>Start-up and flush\<close>

definition unused_entry :: t_cache_entry where
  "unused_entry = \<lparr>ce_PID = -1, ce_page = -1, ce_lastAccess = 0\<rparr>"

text \<open>
  \<open>mem0\<close> is what the fresh \<open>cacheContent\<close> holds, \<open>acc0\<close> the uninitialised \<open>lastAccess\<close> fields.
\<close>

definition cache_init ::
    "t_memory \<Rightarrow> (nat \<Rightarrow> byte) \<Rightarrow> (nat \<Rightarrow> int) \<Rightarrow> (nat \<Rightarrow> int) \<Rightarrow> (nat \<Rightarrow> int) \<Rightarrow> cache" where
  "cache_init cfg mem0 acc0 clk tim =
     \<lparr>entries = map (\<lambda>i. \<lparr>ce_PID = -1, ce_page = -1, ce_lastAccess = acc0 i\<rparr>)
        [0..<cacheEntryCount cfg],
      cacheContent = map mem0 [0..<cacheEntryCount cfg * frameSize cfg],
      proccessesCacheEntries = [], cacheUseCount = 0,
      tick = 0, clock_src = clk, time_src = tim\<rparr>"

definition cache_flush :: "t_memory \<Rightarrow> cache \<Rightarrow> cache" where
  "cache_flush cfg c =
     c\<lparr>entries := replicate (cacheEntryCount cfg) unused_entry,
       cacheContent := replicate (cacheEntryCount cfg * frameSize cfg) 0,
       proccessesCacheEntries := [], cacheUseCount := 0\<rparr>"

subsection \<open>Search\<close>

definition cached_as :: "int \<Rightarrow> int \<Rightarrow> t_cache_entry \<Rightarrow> bool" where
  "cached_as PID page e \<longleftrightarrow> ce_PID e = PID \<and> ce_page e = page"

definition find_entry :: "cache \<Rightarrow> int \<Rightarrow> int \<Rightarrow> nat option" where
  "find_entry c PID page =
     List.find (\<lambda>i. cached_as PID page (entries c ! i)) [0..<length (entries c)]"

text \<open>Reading \<open>clock()\<close> into an entry's \<open>lastAccess\<close>.\<close>

definition touch :: "nat \<Rightarrow> cache \<Rightarrow> cache" where
  "touch i c =
     c\<lparr>entries := (entries c)[i := (entries c ! i)\<lparr>ce_lastAccess := clock_src c (tick c)\<rparr>],
       tick := tick c + 1\<rparr>"

definition cache_search :: "cache \<Rightarrow> int \<Rightarrow> int \<Rightarrow> nat option \<times> cache" where
  "cache_search c PID page =
     (case find_entry c PID page of
        None \<Rightarrow> (None, c)
      | Some i \<Rightarrow> (Some i, touch i c))"

subsection \<open>Least recently used\<close>

text \<open>\<open>selectLru\<close> over the entries of a process: \<open>(lruTime, lruEntry)\<close>.\<close>

definition select_lru :: "cache \<Rightarrow> int \<times> nat option \<Rightarrow> nat \<Rightarrow> int \<times> nat option" where
  "select_lru c acc i =
     (if ce_lastAccess (entries c ! i) < fst acc \<or> snd acc = None
      then (ce_lastAccess (entries c ! i), Some i) else acc)"

definition lruProccess :: "cache \<Rightarrow> t_proccessEntries \<Rightarrow> nat option" where
  "lruProccess c p = snd (foldl (select_lru c) (time_src c (tick c), None) (pe_entries p))"

definition unusedEntry :: "cache \<Rightarrow> nat option \<times> cache" where
  "unusedEntry c = cache_search c (-1) (-1)"

definition select_lru_any :: "cache \<Rightarrow> int \<times> nat option \<Rightarrow> t_proccessEntries \<Rightarrow> int \<times> nat option" where
  "select_lru_any c acc p =
     (if length (pe_entries p) < 1 then acc
      else case lruProccess c p of
             None \<Rightarrow> acc
           | Some i \<Rightarrow> if ce_lastAccess (entries c ! i) < fst acc
                       then (ce_lastAccess (entries c ! i), Some i) else acc)"

definition lruAnyProccess :: "cache \<Rightarrow> nat option" where
  "lruAnyProccess c =
     snd (foldl (select_lru_any c) (time_src c (tick c), None) (proccessesCacheEntries c))"

definition lru :: "t_memory \<Rightarrow> cache \<Rightarrow> t_proccessEntries \<Rightarrow> nat option \<times> cache" where
  "lru cfg c p =
     (if length (pe_entries p) = cachePerProccess cfg then (lruProccess c p, c)
      else if cacheUseCount c < int (cacheEntryCount cfg) then unusedEntry c
      else (lruAnyProccess c, c))"

subsection \<open>Caching a page\<close>

fun upd_first :: "('a \<Rightarrow> bool) \<Rightarrow> ('a \<Rightarrow> 'a) \<Rightarrow> 'a list \<Rightarrow> 'a list" where
  "upd_first P f [] = []"
| "upd_first P f (x # xs) = (if P x then f x # xs else x # upd_first P f xs)"

definition has_PID :: "int \<Rightarrow> t_proccessEntries \<Rightarrow> bool" where
  "has_PID PID p \<longleftrightarrow> pe_PID p = PID"

definition add_entry :: "nat \<Rightarrow> t_proccessEntries \<Rightarrow> t_proccessEntries" where
  "add_entry i p = p\<lparr>pe_entries := pe_entries p @ [i]\<rparr>"

definition drop_entry :: "nat \<Rightarrow> t_proccessEntries \<Rightarrow> t_proccessEntries" where
  "drop_entry i p = p\<lparr>pe_entries := snd (list_remove_by_condition (\<lambda>j. j = i) (pe_entries p))\<rparr>"

text \<open>The process lists after \<open>PID\<close> took entry \<open>i\<close>, which belonged to \<open>owner\<close>.\<close>

definition reassign :: "cache \<Rightarrow> int \<Rightarrow> nat \<Rightarrow> fault + cache" where
  "reassign c PID i =
     (let owner = ce_PID (entries c ! i); ps = proccessesCacheEntries c in
      if owner = -1 then
        Inr (c\<lparr>cacheUseCount := cacheUseCount c + 1,
               proccessesCacheEntries := upd_first (has_PID PID) (add_entry i) ps\<rparr>)
      else if owner \<noteq> PID then
        (case list_find (has_PID owner) ps of
           None \<Rightarrow> Inl Null_Deref
         | Some _ \<Rightarrow>
             Inr (c\<lparr>proccessesCacheEntries :=
               upd_first (has_PID PID) (add_entry i) (upd_first (has_PID owner) (drop_entry i) ps)\<rparr>))
      else Inr c)"

definition cache_cache_contents ::
    "t_memory \<Rightarrow> cache \<Rightarrow> int \<Rightarrow> int \<Rightarrow> byte list \<Rightarrow> fault + nat option \<times> cache" where
  "cache_cache_contents cfg c PID page content =
     (let c1 = (if list_find (has_PID PID) (proccessesCacheEntries c) = None
                then c\<lparr>proccessesCacheEntries := proccessesCacheEntries c
                         @ [\<lparr>pe_PID = PID, pe_entries = []\<rparr>]\<rparr>
                else c) in
      case list_find (has_PID PID) (proccessesCacheEntries c1) of
        None \<Rightarrow> Inl Null_Deref
      | Some p \<Rightarrow>
          (case lru cfg c1 p of
             (None, c2) \<Rightarrow> Inr (None, c2)
           | (Some i, c2) \<Rightarrow>
               (case reassign c2 PID i of
                  Inl e \<Rightarrow> Inl e
                | Inr c3 \<Rightarrow>
                    (case blk_write (cacheContent c3) (int (i * frameSize cfg)) content of
                       None \<Rightarrow> Inl Buffer_Overflow
                     | Some b \<Rightarrow>
                         Inr (Some i,
                           c3\<lparr>entries := (entries c3)[i := \<lparr>ce_PID = PID, ce_page = page,
                                ce_lastAccess = clock_src c3 (tick c3)\<rparr>],
                              tick := tick c3 + 1, cacheContent := b\<rparr>)))))"

subsection \<open>A process ends\<close>

definition cache_program_end :: "cache \<Rightarrow> int \<Rightarrow> fault + cache" where
  "cache_program_end c PID =
     (let used = length (filter (\<lambda>e. ce_PID e = PID) (entries c));
          c' = c\<lparr>entries := map (\<lambda>e. if ce_PID e = PID
                     then e\<lparr>ce_PID := -1, ce_page := -1\<rparr> else e) (entries c),
                 cacheUseCount := cacheUseCount c - int used,
                 proccessesCacheEntries :=
                   snd (list_remove_by_condition (has_PID PID) (proccessesCacheEntries c))\<rparr>
      in if cacheUseCount c' \<ge> 0 then Inr c' else Inl Assert_Failure)"

subsection \<open>The keys of the entries\<close>

text \<open>Everything but the LRU choice depends on the entries through their keys only.\<close>

definition keys :: "cache \<Rightarrow> (int \<times> int) list" where
  "keys c = map (\<lambda>e. (ce_PID e, ce_page e)) (entries c)"

definition cached_at :: "cache \<Rightarrow> int \<times> int \<Rightarrow> nat option" where
  "cached_at c k = (if fst k = -1 then None
     else List.find (\<lambda>i. keys c ! i = k) [0..<length (keys c)])"

lemma length_keys [simp]: "length (keys c) = length (entries c)"
  by (simp add: keys_def)

lemma nth_keys: "i < length (entries c) \<Longrightarrow> keys c ! i = (ce_PID (entries c ! i), ce_page (entries c ! i))"
  by (simp add: keys_def)

lemma keys_cong [simp]:
  "keys (c\<lparr>cacheContent := b\<rparr>) = keys c"
  "keys (c\<lparr>proccessesCacheEntries := ps\<rparr>) = keys c"
  "keys (c\<lparr>cacheUseCount := n\<rparr>) = keys c"
  "keys (c\<lparr>tick := t\<rparr>) = keys c"
  by (simp_all add: keys_def)

lemma keys_touch [simp]: "keys (touch i c) = keys c"
proof -
  have "map (\<lambda>e. (ce_PID e, ce_page e)) ((entries c)[i := (entries c ! i)\<lparr>ce_lastAccess := x\<rparr>])
      = map (\<lambda>e. (ce_PID e, ce_page e)) (entries c)" for x
  proof (cases "i < length (entries c)")
    case True
    then show ?thesis by (intro nth_equalityI) (auto simp: nth_list_update)
  next
    case False
    then show ?thesis by (simp add: list_update_beyond)
  qed
  then show ?thesis by (simp add: keys_def touch_def)
qed

lemma touch_simps [simp]:
  "cacheContent (touch i c) = cacheContent c"
  "proccessesCacheEntries (touch i c) = proccessesCacheEntries c"
  "cacheUseCount (touch i c) = cacheUseCount c"
  "time_src (touch i c) = time_src c"
  "clock_src (touch i c) = clock_src c"
  "length (entries (touch i c)) = length (entries c)"
  by (simp_all add: touch_def)

lemma cached_at_touch [simp]: "cached_at (touch i c) = cached_at c"
  by (simp add: cached_at_def fun_eq_iff)

lemma find_cong_set: "(\<And>x. x \<in> set xs \<Longrightarrow> P x = Q x) \<Longrightarrow> List.find P xs = List.find Q xs"
  by (induction xs) auto

lemma find_entry_keys:
  "find_entry c PID page = List.find (\<lambda>i. keys c ! i = (PID, page)) [0..<length (keys c)]"
  unfolding find_entry_def length_keys
  by (rule find_cong_set) (auto simp: cached_as_def nth_keys)

lemma find_entry_cached: "PID \<noteq> -1 \<Longrightarrow> find_entry c PID page = cached_at c (PID, page)"
  by (simp add: find_entry_keys cached_at_def)

lemma cache_search_eq:
  "PID \<noteq> -1 \<Longrightarrow> cache_search c PID page =
     (case cached_at c (PID, page) of None \<Rightarrow> (None, c) | Some i \<Rightarrow> (Some i, touch i c))"
  by (simp add: cache_search_def find_entry_cached)

lemma cached_at_SomeD:
  "cached_at c k = Some i \<Longrightarrow> i < length (entries c) \<and> keys c ! i = k \<and> fst k \<noteq> -1"
  by (auto simp: cached_at_def dest: find_in_set split: if_splits)

lemma cached_at_None_iff:
  "fst k \<noteq> -1 \<Longrightarrow> cached_at c k = None \<longleftrightarrow> (\<forall>i < length (entries c). keys c ! i \<noteq> k)"
  by (auto simp: cached_at_def find_None_iff)

definition unique_keys :: "(int \<times> int) list \<Rightarrow> bool" where
  "unique_keys ks \<longleftrightarrow>
     (\<forall>i < length ks. \<forall>j < length ks. fst (ks ! i) \<noteq> -1 \<longrightarrow> ks ! i = ks ! j \<longrightarrow> i = j)"

lemma cached_at_iff:
  assumes "unique_keys (keys c)"
  shows "cached_at c k = Some i \<longleftrightarrow> fst k \<noteq> -1 \<and> i < length (entries c) \<and> keys c ! i = k"
proof
  assume a: "fst k \<noteq> -1 \<and> i < length (entries c) \<and> keys c ! i = k"
  then obtain j where j: "cached_at c k = Some j" using cached_at_None_iff by blast
  then have "j = i" using a assms cached_at_SomeD [OF j] by (auto simp: unique_keys_def)
  with j show "cached_at c k = Some i" by simp
qed (use cached_at_SomeD in blast)

lemma cached_at_inj: "cached_at c k = Some f \<Longrightarrow> cached_at c k' = Some f \<Longrightarrow> k = k'"
  by (auto dest!: cached_at_SomeD)

interpretation centries: block_table cached_at "\<lambda>c. length (entries c)" "\<lambda>c. True"
  by unfold_locales (blast dest: cached_at_SomeD cached_at_inj)+

subsection \<open>The invariant\<close>

definition lists_ok :: "(int \<times> int) list \<Rightarrow> t_proccessEntries list \<Rightarrow> nat \<Rightarrow> bool" where
  "lists_ok ks ps bound \<longleftrightarrow>
     distinct (map pe_PID ps) \<and> -1 \<notin> pe_PID ` set ps
     \<and> (\<forall>p \<in> set ps. distinct (pe_entries p) \<and> length (pe_entries p) \<le> bound
          \<and> set (pe_entries p) = {i. i < length ks \<and> fst (ks ! i) = pe_PID p})
     \<and> (\<forall>i < length ks. fst (ks ! i) \<noteq> -1 \<longrightarrow> fst (ks ! i) \<in> pe_PID ` set ps)"

definition used_count :: "(int \<times> int) list \<Rightarrow> nat" where
  "used_count ks = length (filter (\<lambda>k. fst k \<noteq> -1) ks)"

definition idle_ok :: "(int \<times> int) list \<Rightarrow> bool" where
  "idle_ok ks \<longleftrightarrow> (\<forall>i < length ks. fst (ks ! i) = -1 \<longrightarrow> ks ! i = (-1, -1))"

definition cache_inv :: "t_memory \<Rightarrow> cache \<Rightarrow> bool" where
  "cache_inv cfg c \<longleftrightarrow>
     length (entries c) = cacheEntryCount cfg
     \<and> length (cacheContent c) = cacheEntryCount cfg * frameSize cfg
     \<and> unique_keys (keys c) \<and> idle_ok (keys c)
     \<and> cacheUseCount c = int (used_count (keys c))
     \<and> lists_ok (keys c) (proccessesCacheEntries c) (cachePerProccess cfg)"

lemma cache_inv_touch [simp]: "cache_inv cfg (touch i c) = cache_inv cfg c"
  by (simp add: cache_inv_def)

lemma upd_first_map:
  "distinct (map pe_PID ps) \<Longrightarrow>
     upd_first (has_PID PID) f ps = map (\<lambda>p. if pe_PID p = PID then f p else p) ps"
proof (induction ps)
  case (Cons p ps)
  then have "\<forall>q \<in> set ps. pe_PID q \<noteq> pe_PID p" by (auto simp: image_iff)
  then have "pe_PID p = PID \<Longrightarrow> map (\<lambda>q. if pe_PID q = PID then f q else q) ps = ps"
    by (intro map_idI) auto
  with Cons show ?case by (auto simp: has_PID_def)
qed simp

lemma remove_index_eq: "snd (list_remove_by_condition (\<lambda>j. j = i) xs) = remove1 i xs"
  by (induction xs) (auto split: prod.splits)

lemma pe_PID_edit [simp]: "pe_PID (add_entry i p) = pe_PID p" "pe_PID (drop_entry i p) = pe_PID p"
  by (simp_all add: add_entry_def drop_entry_def)

lemma pe_entries_edit [simp]:
  "pe_entries (add_entry i p) = pe_entries p @ [i]"
  "pe_entries (drop_entry i p) = remove1 i (pe_entries p)"
  by (simp_all add: add_entry_def drop_entry_def remove_index_eq)

text \<open>Entry \<open>i\<close> changes hands: from \<open>owner\<close> (nobody when \<open>-1\<close>) to \<open>PID\<close>.\<close>

definition hand_over :: "int \<Rightarrow> int \<Rightarrow> nat \<Rightarrow> t_proccessEntries \<Rightarrow> t_proccessEntries" where
  "hand_over owner PID i p =
     (if pe_PID p = PID then add_entry i p else if pe_PID p = owner then drop_entry i p else p)"

lemma pe_PID_hand_over [simp]: "pe_PID (hand_over owner PID i p) = pe_PID p"
  by (simp add: hand_over_def)

lemma lists_ok_hand_over:
  assumes ok: "lists_ok ks ps bound" and i: "i < length ks" "fst (ks ! i) = owner" "owner \<noteq> PID"
    and p: "\<forall>p \<in> set ps. pe_PID p = PID \<longrightarrow> length (pe_entries p) < bound" "PID \<in> pe_PID ` set ps"
  shows "lists_ok (ks[i := (PID, page)]) (map (hand_over owner PID i) ps) bound"
proof -
  have each: "distinct (pe_entries q) \<and> length (pe_entries q) \<le> bound
      \<and> set (pe_entries q) = {j. j < length ks \<and> fst (ks ! j) = pe_PID q}" if "q \<in> set ps" for q
    using ok that unfolding lists_ok_def by blast
  have set_q: "set (pe_entries (hand_over owner PID i q))
      = {j. j < length ks \<and> fst (ks[i := (PID, page)] ! j) = pe_PID q}" if "q \<in> set ps" for q
  proof (rule set_eqI)
    fix j
    have d: "distinct (pe_entries q)"
      and m: "j \<in> set (pe_entries q) \<longleftrightarrow> j < length ks \<and> fst (ks ! j) = pe_PID q"
      using each [OF that] by blast+
    show "j \<in> set (pe_entries (hand_over owner PID i q)) \<longleftrightarrow>
        j \<in> {j. j < length ks \<and> fst (ks[i := (PID, page)] ! j) = pe_PID q}"
      using d m i by (cases "j = i") (simp_all add: hand_over_def)
  qed
  have rest: "distinct (pe_entries (hand_over owner PID i q))
      \<and> length (pe_entries (hand_over owner PID i q)) \<le> bound" if "q \<in> set ps" for q
    using each [OF that] p(1) that i by (auto simp: hand_over_def length_remove1)
  have "map pe_PID (map (hand_over owner PID i) ps) = map pe_PID ps" by simp
  moreover have "pe_PID ` set (map (hand_over owner PID i) ps) = pe_PID ` set ps"
    by (simp add: image_image)
  moreover have "fst (ks[i := (PID, page)] ! j) \<in> pe_PID ` set ps"
    if "j < length ks" "fst (ks[i := (PID, page)] ! j) \<noteq> -1" for j
    using ok p(2) that i(1) by (auto simp: lists_ok_def nth_list_update split: if_splits)
  ultimately show ?thesis
    using ok unfolding lists_ok_def length_list_update
    by (intro conjI) (auto simp only: set_map ball_simps pe_PID_hand_over image_iff rest set_q)
qed

lemma used_count_update:
  "i < length ks \<Longrightarrow> PID \<noteq> -1 \<Longrightarrow>
     used_count (ks[i := (PID, page)]) = used_count ks + (if fst (ks ! i) = -1 then 1 else 0)"
  using length_filter_update [of i ks "\<lambda>k. fst k \<noteq> -1" "(PID, page)"]
  by (auto simp: used_count_def split: if_splits)

lemma unique_keys_update:
  "unique_keys ks \<Longrightarrow> \<forall>j < length ks. ks ! j \<noteq> k \<Longrightarrow> unique_keys (ks[i := k])"
  by (cases "i < length ks") (auto simp: unique_keys_def nth_list_update)

lemma idle_ok_update: "idle_ok ks \<Longrightarrow> fst k \<noteq> -1 \<Longrightarrow> idle_ok (ks[i := k])"
  by (cases "i < length ks") (auto simp: idle_ok_def nth_list_update)

subsection \<open>The LRU choice\<close>

definition last_access :: "cache \<Rightarrow> nat \<Rightarrow> int" where
  "last_access c i = ce_lastAccess (entries c ! i)"

text \<open>Once an entry is selected, the fold keeps a minimum of what it has seen.\<close>

lemma select_lru_fold:
  "foldl (select_lru c) (last_access c m, Some m) xs = (v, r) \<Longrightarrow>
     \<exists>i \<in> insert m (set xs). r = Some i \<and> v = last_access c i
       \<and> (\<forall>j \<in> insert m (set xs). v \<le> last_access c j)"
proof (induction xs arbitrary: m)
  case (Cons x xs)
  show ?case
  proof (cases "last_access c x < last_access c m")
    case True
    then have "select_lru c (last_access c m, Some m) x = (last_access c x, Some x)"
      by (simp add: select_lru_def last_access_def)
    with Cons.prems have "foldl (select_lru c) (last_access c x, Some x) xs = (v, r)" by simp
    from Cons.IH [OF this] True show ?thesis by force
  next
    case False
    then have "select_lru c (last_access c m, Some m) x = (last_access c m, Some m)"
      by (simp add: select_lru_def last_access_def)
    with Cons.prems have "foldl (select_lru c) (last_access c m, Some m) xs = (v, r)" by simp
    from Cons.IH [OF this] False show ?thesis by force
  qed
qed simp

lemma lruProccess_empty: "pe_entries p = [] \<Longrightarrow> lruProccess c p = None"
  by (simp add: lruProccess_def)

lemma lruProccess_min:
  assumes "pe_entries p \<noteq> []"
  obtains i where "lruProccess c p = Some i" "i \<in> set (pe_entries p)"
    "\<forall>j \<in> set (pe_entries p). last_access c i \<le> last_access c j"
proof -
  obtain x xs where p: "pe_entries p = x # xs" using assms by (cases "pe_entries p") auto
  obtain v r where f: "foldl (select_lru c) (last_access c x, Some x) xs = (v, r)" by fastforce
  have "lruProccess c p = r"
    using f by (simp add: lruProccess_def p select_lru_def last_access_def)
  with select_lru_fold [OF f] p that show thesis by auto
qed

text \<open>Over all processes only entries older than \<open>time(NULL)\<close> are eligible.\<close>

lemma select_lru_any_fold:
  "foldl (select_lru_any c) (t, r0) ps = (v, r) \<Longrightarrow>
     v \<le> t \<and> (\<forall>p \<in> set ps. \<forall>j \<in> set (pe_entries p). v \<le> last_access c j)
     \<and> (r = r0 \<and> v = t
        \<or> (\<exists>p \<in> set ps. \<exists>i \<in> set (pe_entries p). r = Some i \<and> v = last_access c i \<and> v < t))"
proof (induction ps arbitrary: t r0)
  case (Cons p ps)
  show ?case
  proof (cases "pe_entries p = []")
    case True
    then have "select_lru_any c (t, r0) p = (t, r0)" by (simp add: select_lru_any_def)
    with Cons.prems have "foldl (select_lru_any c) (t, r0) ps = (v, r)" by simp
    from Cons.IH [OF this] True show ?thesis by auto
  next
    case False
    then obtain i where i: "lruProccess c p = Some i" "i \<in> set (pe_entries p)"
        "\<forall>j \<in> set (pe_entries p). last_access c i \<le> last_access c j"
      by (rule lruProccess_min)
    show ?thesis
    proof (cases "last_access c i < t")
      case True
      with False i have "select_lru_any c (t, r0) p = (last_access c i, Some i)"
        by (simp add: select_lru_any_def last_access_def)
      with Cons.prems have "foldl (select_lru_any c) (last_access c i, Some i) ps = (v, r)" by simp
      from Cons.IH [OF this] True i show ?thesis by force
    next
      case False
      with \<open>pe_entries p \<noteq> []\<close> i have "select_lru_any c (t, r0) p = (t, r0)"
        by (simp add: select_lru_any_def last_access_def)
      with Cons.prems have "foldl (select_lru_any c) (t, r0) ps = (v, r)" by simp
      from Cons.IH [OF this] False i show ?thesis by force
    qed
  qed
qed simp

lemma lruAnyProccess_Some:
  assumes "lruAnyProccess c = Some i"
  shows "(\<exists>p \<in> set (proccessesCacheEntries c). i \<in> set (pe_entries p))
    \<and> (\<forall>p \<in> set (proccessesCacheEntries c). \<forall>j \<in> set (pe_entries p). last_access c i \<le> last_access c j)"
proof -
  obtain v r where f: "foldl (select_lru_any c) (time_src c (tick c), None) (proccessesCacheEntries c) = (v, r)"
    by fastforce
  with assms have "r = Some i" by (simp add: lruAnyProccess_def)
  with select_lru_any_fold [OF f] show ?thesis by auto
qed

lemma lruAnyProccess_None:
  assumes "lruAnyProccess c = None" "p \<in> set (proccessesCacheEntries c)" "j \<in> set (pe_entries p)"
  shows "time_src c (tick c) \<le> last_access c j"
proof -
  obtain v r where f: "foldl (select_lru_any c) (time_src c (tick c), None) (proccessesCacheEntries c) = (v, r)"
    by fastforce
  with assms(1) have "r = None" by (simp add: lruAnyProccess_def)
  with select_lru_any_fold [OF f] assms(2,3) show ?thesis by auto
qed

subsection \<open>Where a page is cached next\<close>

lemma lists_okD:
  assumes "lists_ok ks ps bound" "p \<in> set ps"
  shows "distinct (pe_entries p)" "length (pe_entries p) \<le> bound"
    "i \<in> set (pe_entries p) \<longleftrightarrow> i < length ks \<and> fst (ks ! i) = pe_PID p" "pe_PID p \<noteq> -1"
proof -
  have each: "distinct (pe_entries p)" "length (pe_entries p) \<le> bound"
      "set (pe_entries p) = {i. i < length ks \<and> fst (ks ! i) = pe_PID p}"
    and no: "-1 \<notin> pe_PID ` set ps"
    using assms unfolding lists_ok_def by blast+
  show "distinct (pe_entries p)" "length (pe_entries p) \<le> bound" by (fact each)+
  show "i \<in> set (pe_entries p) \<longleftrightarrow> i < length ks \<and> fst (ks ! i) = pe_PID p"
    unfolding each(3) by (rule mem_Collect_eq)
  show "pe_PID p \<noteq> -1" using no assms(2) by (metis imageI)
qed

lemma lists_ok_owner:
  assumes "lists_ok ks ps bound" "i < length ks" "fst (ks ! i) \<noteq> -1"
  obtains p where "p \<in> set ps" "pe_PID p = fst (ks ! i)"
proof -
  have "fst (ks ! i) \<in> pe_PID ` set ps" using assms unfolding lists_ok_def by blast
  then show thesis by (metis imageE that)
qed

lemma used_count_less:
  "used_count ks < length ks \<Longrightarrow> \<exists>i < length ks. fst (ks ! i) = -1"
proof (rule ccontr)
  assume u: "used_count ks < length ks" and "\<not> (\<exists>i < length ks. fst (ks ! i) = -1)"
  then have "\<forall>k \<in> set ks. fst k \<noteq> -1" by (metis in_set_conv_nth)
  then have "filter (\<lambda>k. fst k \<noteq> -1) ks = ks" by simp
  with u show False by (simp add: used_count_def)
qed

lemma unusedEntry_eq:
  assumes "cache_inv cfg c" "cacheUseCount c < int (cacheEntryCount cfg)"
  obtains i where "unusedEntry c = (Some i, touch i c)" "i < length (entries c)" "fst (keys c ! i) = -1"
proof -
  have idle: "idle_ok (keys c)" and "used_count (keys c) < length (keys c)"
    using assms by (simp_all add: cache_inv_def)
  from used_count_less [OF this(2)] idle obtain j where "j < length (entries c)" "keys c ! j = (-1, -1)"
    by (auto simp: idle_ok_def)
  then have "find_entry c (-1) (-1) \<noteq> None" by (auto simp: find_entry_keys find_None_iff)
  then obtain i where i: "find_entry c (-1) (-1) = Some i" by auto
  then have "i < length (entries c)" "keys c ! i = (-1, -1)"
    by (auto simp: find_entry_keys dest: find_in_set)
  moreover from this have "fst (keys c ! i) = -1" by (metis fst_conv)
  ultimately show thesis using i by (intro that [of i]) (simp_all add: unusedEntry_def cache_search_def)
qed

lemma lru_choice:
  assumes inv: "cache_inv cfg c" and p: "p \<in> set (proccessesCacheEntries c)"
    and "lru cfg c p = (r, c2)"
  shows "(r = None \<longrightarrow> c2 = c)
    \<and> (\<forall>i. r = Some i \<longrightarrow> i < length (entries c) \<and> (c2 = c \<or> c2 = touch i c)
        \<and> (fst (keys c ! i) \<noteq> pe_PID p \<longrightarrow> length (pe_entries p) < cachePerProccess cfg))"
proof -
  have ok: "lists_ok (keys c) (proccessesCacheEntries c) (cachePerProccess cfg)"
    using inv by (simp add: cache_inv_def)
  note d = lists_okD [OF ok]
  consider (own) "length (pe_entries p) = cachePerProccess cfg"
    | (unused) "length (pe_entries p) \<noteq> cachePerProccess cfg" "cacheUseCount c < int (cacheEntryCount cfg)"
    | (any) "length (pe_entries p) \<noteq> cachePerProccess cfg" "\<not> cacheUseCount c < int (cacheEntryCount cfg)"
    by blast
  then show ?thesis
  proof cases
    case own
    then have e: "r = lruProccess c p" "c2 = c" using assms(3) by (auto simp: lru_def)
    show ?thesis
    proof (cases "pe_entries p = []")
      case True
      with e show ?thesis by (simp add: lruProccess_empty)
    next
      case False
      then obtain i where "lruProccess c p = Some i" "i \<in> set (pe_entries p)" by (rule lruProccess_min)
      with e d(3) [OF p, of i] show ?thesis by auto
    qed
  next
    case unused
    then obtain i where "lru cfg c p = (Some i, touch i c)" "i < length (entries c)"
      using unusedEntry_eq [OF inv] by (metis lru_def)
    with unused d(2) [OF p] assms(3) show ?thesis by auto
  next
    case any
    then have e: "r = lruAnyProccess c" "c2 = c" using assms(3) by (auto simp: lru_def)
    have "i < length (entries c)" if "r = Some i" for i
      using lruAnyProccess_Some [of c i] e that d(3) by auto
    with any d(2) [OF p] e show ?thesis by auto
  qed
qed

text \<open>The choice fails only for want of entries, or of entries older than \<open>time(NULL)\<close>.\<close>

lemma lru_succeeds:
  assumes inv: "cache_inv cfg c" and p: "p \<in> set (proccessesCacheEntries c)"
    and "0 < cachePerProccess cfg" "0 < cacheEntryCount cfg"
    and "\<forall>i < length (entries c). last_access c i < time_src c (tick c)"
  shows "fst (lru cfg c p) \<noteq> None"
proof -
  have ok: "lists_ok (keys c) (proccessesCacheEntries c) (cachePerProccess cfg)"
    and n: "length (entries c) = cacheEntryCount cfg"
    and u: "cacheUseCount c = int (used_count (keys c))"
    using inv by (simp_all add: cache_inv_def)
  show ?thesis
  proof (cases "length (pe_entries p) = cachePerProccess cfg")
    case True
    with assms(3) have "pe_entries p \<noteq> []" by auto
    then obtain i where "lruProccess c p = Some i" by (rule lruProccess_min)
    with True show ?thesis by (simp add: lru_def)
  next
    case False
    show ?thesis
    proof (cases "cacheUseCount c < int (cacheEntryCount cfg)")
      case True
      obtain i where "unusedEntry c = (Some i, touch i c)" using unusedEntry_eq [OF inv True] by blast
      with True False show ?thesis by (simp add: lru_def)
    next
      case full: False
      then have "\<not> length (filter (\<lambda>k. fst k \<noteq> -1) (keys c)) < length (keys c)"
        by (simp add: u n used_count_def)
      then have "fst k \<noteq> -1" if "k \<in> set (keys c)" for k
        using length_filter_less [OF that, of "\<lambda>k. fst k \<noteq> -1"] by blast
      moreover have "keys c ! 0 \<in> set (keys c)" using assms(4) n by (intro nth_mem) simp
      ultimately have "fst (keys c ! 0) \<noteq> -1" by blast
      then obtain q where q: "q \<in> set (proccessesCacheEntries c)" "fst (keys c ! 0) = pe_PID q"
        using lists_ok_owner [OF ok, of 0] assms(4) n by (metis length_keys)
      then have "0 \<in> set (pe_entries q)" using lists_okD(3) [OF ok q(1), of 0] assms(4) n by simp
      with q(1) have "lruAnyProccess c \<noteq> None"
        using lruAnyProccess_None [of c q 0] assms(4,5) n by force
      with full False show ?thesis by (simp add: lru_def)
    qed
  qed
qed

subsection \<open>Caching a page keeps the invariant\<close>

lemma lists_ok_new_process:
  assumes "lists_ok ks ps bound" "PID \<notin> pe_PID ` set ps" "PID \<noteq> -1"
  shows "lists_ok ks (ps @ [\<lparr>pe_PID = PID, pe_entries = []\<rparr>]) bound"
proof -
  have "\<not> (i < length ks \<and> fst (ks ! i) = PID)" for i
    using assms unfolding lists_ok_def by blast
  then show ?thesis using assms unfolding lists_ok_def by auto
qed

lemma lists_ok_same_owner:
  assumes "lists_ok ks ps bound" "fst (ks ! i) = PID"
  shows "lists_ok (ks[i := (PID, page)]) ps bound"
proof -
  have "fst (ks[i := (PID, page)] ! j) = fst (ks ! j)" for j
    using assms(2) by (cases "i < length ks"; cases "i = j") (auto simp: list_update_beyond)
  with assms(1) show ?thesis by (simp add: lists_ok_def)
qed

lemma find_has_PID:
  "distinct (map pe_PID ps) \<Longrightarrow> p \<in> set ps \<Longrightarrow> List.find (has_PID (pe_PID p)) ps = Some p"
  by (induction ps) (auto simp: has_PID_def)

lemma find_has_PID_None: "List.find (has_PID PID) ps = None \<longleftrightarrow> PID \<notin> pe_PID ` set ps"
  by (auto simp: find_None_iff has_PID_def)

lemma reassign_spec:
  assumes inv: "cache_inv cfg c" and p: "p \<in> set (proccessesCacheEntries c)" "pe_PID p = PID"
    and i: "i < length (entries c)"
    and room: "fst (keys c ! i) \<noteq> PID \<longrightarrow> length (pe_entries p) < cachePerProccess cfg"
  shows "\<exists>n ps. reassign c PID i = Inr (c\<lparr>cacheUseCount := n, proccessesCacheEntries := ps\<rparr>)
    \<and> n = int (used_count ((keys c)[i := (PID, page)]))
    \<and> lists_ok ((keys c)[i := (PID, page)]) ps (cachePerProccess cfg)"
proof -
  let ?ps = "proccessesCacheEntries c" and ?o = "fst (keys c ! i)"
  have ok: "lists_ok (keys c) ?ps (cachePerProccess cfg)"
    and u: "cacheUseCount c = int (used_count (keys c))"
    using inv by (simp_all add: cache_inv_def)
  have dist: "distinct (map pe_PID ?ps)" and no: "\<forall>q \<in> set ?ps. pe_PID q \<noteq> -1"
    using ok lists_okD(4) [OF ok] by (auto simp: lists_ok_def)
  have o: "ce_PID (entries c ! i) = ?o" using i by (simp add: nth_keys)
  have PID: "PID \<noteq> -1" "PID \<in> pe_PID ` set ?ps" using no p by auto
  have room': "\<forall>q \<in> set ?ps. pe_PID q = PID \<longrightarrow> length (pe_entries q) < cachePerProccess cfg"
    if "?o \<noteq> PID"
    using room that p dist find_has_PID [OF dist] by (metis option.inject)
  have upd: "used_count ((keys c)[i := (PID, page)]) = used_count (keys c) + (if ?o = -1 then 1 else 0)"
    using used_count_update [of i "keys c" PID page] i PID(1) by simp
  have moved: "lists_ok ((keys c)[i := (PID, page)]) (map (hand_over ?o PID i) ?ps) (cachePerProccess cfg)"
    if "?o \<noteq> PID"
    using lists_ok_hand_over [OF ok _ refl that room' [OF that] PID(2)] i by simp
  consider (idle) "?o = -1" | (other) "?o \<noteq> -1" "?o \<noteq> PID" | (own) "?o = PID" "?o \<noteq> -1" by blast
  then show ?thesis
  proof cases
    case idle
    then have "upd_first (has_PID PID) (add_entry i) ?ps = map (hand_over ?o PID i) ?ps"
      using no by (simp add: upd_first_map [OF dist] hand_over_def)
    with idle moved PID(1) u upd o show ?thesis
      by (intro exI [of _ "cacheUseCount c + 1"] exI [of _ "map (hand_over ?o PID i) ?ps"])
        (simp add: reassign_def)
  next
    case other
    obtain q where q: "q \<in> set ?ps" "pe_PID q = ?o"
      using lists_ok_owner [OF ok, of i] other(1) i by (metis length_keys)
    have "distinct (map pe_PID (upd_first (has_PID ?o) (drop_entry i) ?ps))"
      using dist by (simp add: upd_first_map [OF dist] o_def if_distrib cong: if_cong)
    from upd_first_map [OF this, of PID "add_entry i"] other(2)
    have "upd_first (has_PID PID) (add_entry i) (upd_first (has_PID ?o) (drop_entry i) ?ps)
        = map (hand_over ?o PID i) ?ps"
      by (simp add: upd_first_map [OF dist] hand_over_def)
    with other moved u upd o find_has_PID [OF dist q(1)] q(2) show ?thesis
      by (intro exI [of _ "cacheUseCount c"] exI [of _ "map (hand_over ?o PID i) ?ps"])
        (simp add: reassign_def)
  next
    case own
    with u upd o lists_ok_same_owner [OF ok own(1), of page] show ?thesis
      by (intro exI [of _ "cacheUseCount c"] exI [of _ ?ps]) (simp add: reassign_def)
  qed
qed

lemma cached_at_update:
  assumes "unique_keys (keys c)" "unique_keys (keys c')" "i < length (entries c)"
    "keys c' = (keys c)[i := k]" "fst k \<noteq> -1"
  shows "cached_at c' = (cached_at c)(keys c ! i := None, k \<mapsto> i)"
proof
  fix q
  have len: "length (entries c') = length (entries c)" using assms(4) by (metis length_keys length_list_update)
  have "cached_at c' q = Some j \<longleftrightarrow> ((cached_at c)(keys c ! i := None, k \<mapsto> i)) q = Some j" for j
  proof (cases "q = k")
    case True
    with assms show ?thesis using cached_at_iff [OF assms(2), of k i] len by auto
  next
    case False
    with assms(3,4) show ?thesis
      by (auto simp: cached_at_iff [OF assms(1)] cached_at_iff [OF assms(2)] len nth_list_update)
        (metis assms(1) cached_at_iff option.inject)
  qed
  then show "cached_at c' q = ((cached_at c)(keys c ! i := None, k \<mapsto> i)) q"
    by (metis not_None_eq)
qed

lemma cache_cache_contents_spec:
  assumes inv: "cache_inv cfg c" and PID: "PID \<noteq> -1" and new: "cached_at c (PID, page) = None"
    and len: "length content = frameSize cfg"
  shows "\<exists>r c'. cache_cache_contents cfg c PID page content = Inr (r, c') \<and> cache_inv cfg c'
    \<and> clock_src c' = clock_src c \<and> time_src c' = time_src c
    \<and> (case r of
         None \<Rightarrow> cached_at c' = cached_at c \<and> cacheContent c' = cacheContent c
       | Some i \<Rightarrow> i < length (entries c)
           \<and> cached_at c' = (cached_at c)(keys c ! i := None, (PID, page) \<mapsto> i)
           \<and> cacheContent c' = poke (i * frameSize cfg) content (cacheContent c))
    \<and> (0 < cachePerProccess cfg \<longrightarrow> 0 < cacheEntryCount cfg \<longrightarrow>
         (\<forall>i < length (entries c). last_access c i < time_src c (tick c)) \<longrightarrow> r \<noteq> None)"
proof -
  define c1 where "c1 = (if list_find (has_PID PID) (proccessesCacheEntries c) = None
      then c\<lparr>proccessesCacheEntries := proccessesCacheEntries c @ [\<lparr>pe_PID = PID, pe_entries = []\<rparr>]\<rparr>
      else c)"
  have ok: "lists_ok (keys c) (proccessesCacheEntries c) (cachePerProccess cfg)"
    using inv by (simp add: cache_inv_def)
  have e1: "entries c1 = entries c" "cacheContent c1 = cacheContent c" "tick c1 = tick c"
      "time_src c1 = time_src c" "clock_src c1 = clock_src c" by (simp_all add: c1_def)
  have k1: "keys c1 = keys c" "cached_at c1 = cached_at c" "last_access c1 = last_access c"
    by (simp_all add: keys_def e1 cached_at_def last_access_def fun_eq_iff)
  have inv1: "cache_inv cfg c1"
    using inv PID lists_ok_new_process [OF ok _ PID]
    by (simp add: cache_inv_def c1_def find_has_PID_None)
  then have ok1: "lists_ok (keys c1) (proccessesCacheEntries c1) (cachePerProccess cfg)"
    by (simp add: cache_inv_def)
  have "PID \<in> pe_PID ` set (proccessesCacheEntries c1)"
    by (simp add: c1_def find_has_PID_None)
  then obtain p where p: "p \<in> set (proccessesCacheEntries c1)" "pe_PID p = PID" by auto
  have find1: "list_find (has_PID PID) (proccessesCacheEntries c1) = Some p"
    using find_has_PID [OF _ p(1)] ok1 p(2) by (simp add: lists_ok_def)
  obtain r c2 where l: "lru cfg c1 p = (r, c2)" by fastforce
  note choice = lru_choice [OF inv1 p(1) l]
  have unfold: "cache_cache_contents cfg c PID page content =
      (case r of None \<Rightarrow> Inr (None, c2)
       | Some i \<Rightarrow> (case reassign c2 PID i of Inl e \<Rightarrow> Inl e
          | Inr c3 \<Rightarrow> (case blk_write (cacheContent c3) (int (i * frameSize cfg)) content of
               None \<Rightarrow> Inl Buffer_Overflow
             | Some b \<Rightarrow> Inr (Some i, c3\<lparr>entries := (entries c3)[i := \<lparr>ce_PID = PID, ce_page = page,
                                ce_lastAccess = clock_src c3 (tick c3)\<rparr>],
                              tick := tick c3 + 1, cacheContent := b\<rparr>))))"
    by (simp add: cache_cache_contents_def Let_def c1_def [symmetric] find1 l split: option.split)
  show ?thesis
  proof (cases r)
    case None
    with choice have "c2 = c1" by simp
    with None inv1 k1 e1 unfold lru_succeeds [OF inv1 p(1)] l show ?thesis by auto
  next
    case (Some i)
    with choice have i: "i < length (entries c)" "c2 = c1 \<or> c2 = touch i c1"
      "fst (keys c ! i) \<noteq> PID \<longrightarrow> length (pe_entries p) < cachePerProccess cfg"
      by (simp_all add: e1 k1 p(2))
    then have e2: "length (entries c2) = length (entries c)" "cacheContent c2 = cacheContent c"
        "time_src c2 = time_src c" "clock_src c2 = clock_src c" "keys c2 = keys c"
        "proccessesCacheEntries c2 = proccessesCacheEntries c1" "cache_inv cfg c2"
      using e1 k1 inv1 by auto
    obtain n ps where re: "reassign c2 PID i = Inr (c2\<lparr>cacheUseCount := n, proccessesCacheEntries := ps\<rparr>)"
        "n = int (used_count ((keys c)[i := (PID, page)]))"
        "lists_ok ((keys c)[i := (PID, page)]) ps (cachePerProccess cfg)"
      using reassign_spec [OF e2(7) _ p(2), of i page] p(1) i(1,3) e2 by auto
    have nc: "length (entries c) = cacheEntryCount cfg"
        "length (cacheContent c) = cacheEntryCount cfg * frameSize cfg"
      and uk: "unique_keys (keys c)" and idle: "idle_ok (keys c)"
      using inv by (simp_all add: cache_inv_def)
    have fits: "i * frameSize cfg + length content \<le> length (cacheContent c)"
      using block_fits [of i "cacheEntryCount cfg" "frameSize cfg"] i(1) nc len by simp
    define c' where "c' = c2\<lparr>cacheUseCount := n, proccessesCacheEntries := ps,
        entries := (entries c2)[i := \<lparr>ce_PID = PID, ce_page = page,
          ce_lastAccess = clock_src c2 (tick c2)\<rparr>], tick := tick c2 + 1,
        cacheContent := poke (i * frameSize cfg) content (cacheContent c)\<rparr>"
    have res: "cache_cache_contents cfg c PID page content = Inr (Some i, c')"
      using fits unfolding unfold
      by (simp add: Some re(1) e2 c'_def blk_write_in del: of_nat_mult)
    have k': "keys c' = (keys c)[i := (PID, page)]"
      using e2(5) by (simp add: keys_def c'_def map_update)
    have absent: "\<forall>j < length (keys c). keys c ! j \<noteq> (PID, page)"
      using new PID cached_at_None_iff by simp
    have uk': "unique_keys (keys c')" unfolding k' using uk absent by (rule unique_keys_update)
    have "cache_inv cfg c'"
      using uk' idle_ok_update [OF idle, of "(PID, page)" i] PID re(2,3) nc e2(1) fits
      by (simp add: cache_inv_def k') (simp add: c'_def)
    moreover have "cached_at c' = (cached_at c)(keys c ! i := None, (PID, page) \<mapsto> i)"
      using cached_at_update [OF uk uk' i(1) k'] PID by simp
    ultimately show ?thesis using res i(1) e2 by (auto simp: c'_def)
  qed
qed

subsection \<open>Start-up, flush and the end of a process\<close>

lemma cached_at_idle: "(\<forall>i < length (entries c). fst (keys c ! i) = -1) \<Longrightarrow> cached_at c = Map.empty"
  by (auto simp: cached_at_def fun_eq_iff find_None_iff)

lemma used_count_idle: "(\<forall>i < length ks. fst (ks ! i) = -1) \<Longrightarrow> used_count ks = 0"
proof -
  assume "\<forall>i < length ks. fst (ks ! i) = -1"
  then have "\<forall>k \<in> set ks. fst k = -1" by (metis in_set_conv_nth)
  then show ?thesis by (simp add: used_count_def filter_empty_conv)
qed

lemma keys_init [simp]: "keys (cache_init cfg mem0 acc0 clk tim) = replicate (cacheEntryCount cfg) (-1, -1)"
  by (simp add: cache_init_def keys_def map_replicate_const comp_def)

lemma cache_init_spec:
  "cache_inv cfg (cache_init cfg mem0 acc0 clk tim)"
  "cached_at (cache_init cfg mem0 acc0 clk tim) = Map.empty"
proof -
  let ?c = "cache_init cfg mem0 acc0 clk tim"
  have "used_count (replicate (cacheEntryCount cfg) (-1, -1)) = 0"
    by (rule used_count_idle) simp
  then show "cache_inv cfg ?c"
    unfolding cache_inv_def keys_init
    by (simp add: unique_keys_def idle_ok_def lists_ok_def) (simp add: cache_init_def)
  show "cached_at ?c = Map.empty"
    by (rule cached_at_idle) (simp add: cache_init_def keys_def)
qed

lemma keys_flush [simp]: "keys (cache_flush cfg c) = replicate (cacheEntryCount cfg) (-1, -1)"
  by (simp add: cache_flush_def keys_def unused_entry_def)

lemma cache_flush_spec:
  "cache_inv cfg (cache_flush cfg c)" "cached_at (cache_flush cfg c) = Map.empty"
proof -
  have "used_count (replicate (cacheEntryCount cfg) (-1, -1)) = 0"
    by (rule used_count_idle) simp
  then show "cache_inv cfg (cache_flush cfg c)"
    unfolding cache_inv_def keys_flush
    by (simp add: unique_keys_def idle_ok_def lists_ok_def) (simp add: cache_flush_def)
  show "cached_at (cache_flush cfg c) = Map.empty"
    by (rule cached_at_idle) (simp add: cache_flush_def keys_def unused_entry_def)
qed

definition forget :: "int \<Rightarrow> int \<times> int \<Rightarrow> int \<times> int" where
  "forget PID k = (if fst k = PID then (-1, -1) else k)"

lemma lists_ok_forget:
  assumes ok: "lists_ok ks ps bound"
  shows "lists_ok (map (forget PID) ks) (filter (\<lambda>p. pe_PID p \<noteq> PID) ps) bound"
proof -
  have d: "distinct (map pe_PID (filter (\<lambda>p. pe_PID p \<noteq> PID) ps))"
    using ok by (simp add: lists_ok_def distinct_map_filter)
  have no: "-1 \<notin> pe_PID ` set ps" using ok by (simp add: lists_ok_def)
  have each: "\<forall>p \<in> set (filter (\<lambda>p. pe_PID p \<noteq> PID) ps).
      distinct (pe_entries p) \<and> length (pe_entries p) \<le> bound
      \<and> set (pe_entries p) = {i. i < length (map (forget PID) ks)
          \<and> fst (map (forget PID) ks ! i) = pe_PID p}"
  proof
    fix p assume "p \<in> set (filter (\<lambda>p. pe_PID p \<noteq> PID) ps)"
    then have p: "p \<in> set ps" "pe_PID p \<noteq> PID" by auto
    have same: "fst (map (forget PID) ks ! i) = pe_PID p \<longleftrightarrow> fst (ks ! i) = pe_PID p"
      if "i < length ks" for i
      using that p no by (auto simp: forget_def)
    have "set (pe_entries p) = {i. i < length (map (forget PID) ks)
          \<and> fst (map (forget PID) ks ! i) = pe_PID p}"
      using lists_okD(3) [OF ok p(1)] same by (simp only: length_map set_eq_iff mem_Collect_eq) metis
    then show "distinct (pe_entries p) \<and> length (pe_entries p) \<le> bound
      \<and> set (pe_entries p) = {i. i < length (map (forget PID) ks)
          \<and> fst (map (forget PID) ks ! i) = pe_PID p}"
      using lists_okD(1,2) [OF ok p(1)] by blast
  qed
  have own: "fst (map (forget PID) ks ! i) \<in> pe_PID ` set (filter (\<lambda>p. pe_PID p \<noteq> PID) ps)"
    if i: "i < length ks" "fst (map (forget PID) ks ! i) \<noteq> -1" for i
  proof -
    have f: "fst (ks ! i) \<noteq> PID" "fst (map (forget PID) ks ! i) = fst (ks ! i)"
      using i by (auto simp: forget_def split: if_splits)
    then have "fst (ks ! i) \<noteq> -1" using i(2) by metis
    then obtain p where p: "p \<in> set ps" "fst (ks ! i) = pe_PID p"
      using lists_ok_owner [OF ok] i(1) by (metis length_map)
    then have "p \<in> set (filter (\<lambda>p. pe_PID p \<noteq> PID) ps)" using f(1) by simp
    then show ?thesis unfolding f(2) p(2) by (rule imageI)
  qed
  have no': "-1 \<notin> pe_PID ` set (filter (\<lambda>p. pe_PID p \<noteq> PID) ps)" using no by auto
  show ?thesis unfolding lists_ok_def 
    using own by (intro conjI d no' each) (metis length_map)
qed

lemma used_count_forget:
  "PID \<noteq> -1 \<Longrightarrow>
     used_count (map (forget PID) ks) + length (filter (\<lambda>k. fst k = PID) ks) = used_count ks"
  by (induction ks) (auto simp: used_count_def forget_def)

lemma remove_has_PID:
  "distinct (map pe_PID ps) \<Longrightarrow>
     snd (list_remove_by_condition (has_PID PID) ps) = filter (\<lambda>p. pe_PID p \<noteq> PID) ps"
proof (induction ps)
  case (Cons p ps)
  then have "pe_PID p = PID \<Longrightarrow> filter (\<lambda>q. pe_PID q \<noteq> PID) ps = ps"
    by (auto simp: filter_id_conv image_iff)
  with Cons show ?case by (auto simp: has_PID_def split: prod.splits)
qed simp

lemma cache_program_end_spec:
  assumes inv: "cache_inv cfg c" and PID: "PID \<noteq> -1"
  shows "\<exists>c'. cache_program_end c PID = Inr c' \<and> cache_inv cfg c'
    \<and> cached_at c' = (\<lambda>k. if fst k = PID then None else cached_at c k)
    \<and> cacheContent c' = cacheContent c"
proof -
  define c' where "c' = c\<lparr>entries := map (\<lambda>e. if ce_PID e = PID
                     then e\<lparr>ce_PID := -1, ce_page := -1\<rparr> else e) (entries c),
                 cacheUseCount := cacheUseCount c - int (length (filter (\<lambda>e. ce_PID e = PID) (entries c))),
                 proccessesCacheEntries :=
                   snd (list_remove_by_condition (has_PID PID) (proccessesCacheEntries c))\<rparr>"
  have k': "keys c' = map (forget PID) (keys c)"
    by (simp add: keys_def c'_def forget_def)
  have uk: "unique_keys (keys c)" and ok: "lists_ok (keys c) (proccessesCacheEntries c) (cachePerProccess cfg)"
    and idle: "idle_ok (keys c)"
    using inv by (simp_all add: cache_inv_def)
  have len: "length (entries c') = length (entries c)" by (simp add: c'_def)
  have "length (filter (\<lambda>e. ce_PID e = PID) (entries c)) = length (filter (\<lambda>k. fst k = PID) (keys c))"
    by (simp add: keys_def filter_map comp_def)
  with used_count_forget [OF PID, of "keys c"] inv
  have u': "cacheUseCount c' = int (used_count (keys c'))"
    unfolding k' by (simp add: cache_inv_def) (simp add: c'_def)
  have uk': "unique_keys (keys c')"
    using uk unfolding k' by (auto simp: unique_keys_def forget_def split: if_splits)
  have idle': "idle_ok (keys c')"
    using idle unfolding k' by (auto simp: idle_ok_def forget_def)
  have ok': "lists_ok (keys c') (proccessesCacheEntries c') (cachePerProccess cfg)"
    using lists_ok_forget [OF ok, of PID] ok unfolding k'
    by (simp add: c'_def remove_has_PID lists_ok_def)
  have inv': "cache_inv cfg c'"
    using inv u' uk' idle' ok' len by (simp add: cache_inv_def) (simp add: c'_def)
  have at: "cached_at c' (p, q) = Some j \<longleftrightarrow> p \<noteq> PID \<and> cached_at c (p, q) = Some j" for p q j
    using PID by (auto simp: cached_at_iff [OF uk'] cached_at_iff [OF uk] len k' forget_def split: if_splits)
  have "cached_at c' k = (if fst k = PID then None else cached_at c k)" for k
    using at [of "fst k" "snd k"] by (simp only: prod.collapse) (metis not_None_eq)
  moreover have "cache_program_end c PID = Inr c'"
  proof -
    have "0 \<le> cacheUseCount c'" using u' by simp
    then show ?thesis by (simp only: cache_program_end_def Let_def c'_def [symmetric] if_True)
  qed
  ultimately show ?thesis using inv' by (auto simp: c'_def)
qed

end
