(* ===== verification/Memory_Ops.thy ===== *)
theory Memory_Ops
  imports Cache
begin

text \<open>
  \<open>Memory/src/functions/memory.c\<close>: the RAM and the cache together. Every write goes to both
  (write-through), every read is served by the cache where it can be. \<open>offset\<close> and \<open>size\<close> are C
  \<open>int\<close>s that arrive over the network, so addresses are signed here. The delay of a cache miss
  (\<open>usleep\<close>) and the log are not modelled; the locks make each operation on the cache atomic.

  The contract is that of a flat byte-addressed space per process: \<open>byte_at m PID a\<close>.
\<close>

record mem =
  mram :: ram
  mcache :: cache

definition memory_init ::
    "t_memory \<Rightarrow> (nat \<Rightarrow> byte) \<Rightarrow> (nat \<Rightarrow> byte) \<Rightarrow> (nat \<Rightarrow> int) \<Rightarrow> (nat \<Rightarrow> int) \<Rightarrow> (nat \<Rightarrow> int) \<Rightarrow> fault + mem"
  where
  "memory_init cfg rmem0 cmem0 acc0 clk tim =
     (case ram_init cfg rmem0 of
        Inl e \<Rightarrow> Inl e
      | Inr r \<Rightarrow> Inr \<lparr>mram = r, mcache = cache_init cfg cmem0 acc0 clk tim\<rparr>)"

definition program_end :: "mem \<Rightarrow> int \<Rightarrow> fault + mem" where
  "program_end m PID =
     (case cache_program_end (mcache m) PID of
        Inl e \<Rightarrow> Inl e
      | Inr c \<Rightarrow> Inr \<lparr>mram = ram_program_end (mram m) PID, mcache = c\<rparr>)"

text \<open>\<open>memcpy\<close> with an \<open>int\<close> sz: a negative one converts to a huge \<open>size_t\<close>.\<close>

definition mem_get :: "byte list \<Rightarrow> int \<Rightarrow> int \<Rightarrow> byte list option" where
  "mem_get bytes a n = (if n < 0 then None else blk_read bytes a (nat n))"

definition currentPageSize :: "t_memory \<Rightarrow> int \<Rightarrow> int \<Rightarrow> int" where
  "currentPageSize cfg offset sz =
     (if sz < int (frameSize cfg) - offset then sz else int (frameSize cfg) - offset)"

subsection \<open>Reading\<close>

text \<open>One iteration of the loop of \<open>memory_read\<close>; no bytes when the page has no frame.\<close>

definition read_page ::
    "t_memory \<Rightarrow> hash_function \<Rightarrow> mem \<Rightarrow> int \<Rightarrow> int \<Rightarrow> int \<Rightarrow> int \<Rightarrow> fault + byte list option \<times> mem" where
  "read_page cfg h m PID page offset n =
     (case cache_search (mcache m) PID page of
        (Some i, c) \<Rightarrow>
          (case mem_get (cacheContent c) (int (i * frameSize cfg) + offset) n of
             None \<Rightarrow> Inl Buffer_Overflow
           | Some bs \<Rightarrow> Inr (Some bs, m\<lparr>mcache := c\<rparr>))
      | (None, c) \<Rightarrow>
          (case ram_frame_lookup cfg h (mram m) PID page of
             Inl e \<Rightarrow> Inl e
           | Inr None \<Rightarrow> Inr (None, m\<lparr>mcache := c\<rparr>)
           | Inr (Some ramFrame) \<Rightarrow>
               (case blk_read (proccessPages (mram m)) (int ramFrame) (frameSize cfg) of
                  None \<Rightarrow> Inl Buffer_Overflow
                | Some content \<Rightarrow>
                    (case cache_cache_contents cfg c PID page content of
                       Inl e \<Rightarrow> Inl e
                     | Inr (_, c') \<Rightarrow>
                         (case mem_get (proccessPages (mram m)) (int ramFrame + offset) n of
                            None \<Rightarrow> Inl Buffer_Overflow
                          | Some bs \<Rightarrow> Inr (Some bs, m\<lparr>mcache := c'\<rparr>))))))"

lemma mem_get_nonneg: "mem_get bytes a n = Some bs \<Longrightarrow> 0 \<le> n"
  by (simp add: mem_get_def split: if_splits)

lemma read_page_nonneg:
  assumes "read_page cfg h m PID page offset n = Inr (Some bs, m')" shows "0 \<le> n"
  using assms unfolding read_page_def
  by (auto split: prod.splits option.splits sum.splits dest: mem_get_nonneg)

text \<open>
  \<open>ram_init\<close> does not return when \<open>frameSize\<close> is 0, so the guard on it never applies in a
  running process; without it the loop would not end.
\<close>

function memory_read_loop ::
    "t_memory \<Rightarrow> hash_function \<Rightarrow> mem \<Rightarrow> int \<Rightarrow> int \<Rightarrow> int \<Rightarrow> int \<Rightarrow> byte list \<Rightarrow>
       fault + byte list option \<times> mem" where
  "memory_read_loop cfg h m PID page offset sz buffer =
     (if sz \<le> 0 then Inr (Some buffer, m)
      else if frameSize cfg = 0 then Inl Div_By_Zero
      else case read_page cfg h m PID page offset (currentPageSize cfg offset sz) of
             Inl e \<Rightarrow> Inl e
           | Inr (None, m') \<Rightarrow> Inr (None, m')
           | Inr (Some bs, m') \<Rightarrow>
               memory_read_loop cfg h m' PID (page + 1) 0
                 (sz - currentPageSize cfg offset sz) (buffer @ bs))"
  by pat_completeness auto
termination
  by (relation "measures [\<lambda>(cfg, h, m, PID, page, offset, sz, buffer). nat sz,
       \<lambda>(cfg, h, m, PID, page, offset, sz, buffer). if offset = int (frameSize cfg) then 1 else 0]")
    (auto dest!: read_page_nonneg simp: currentPageSize_def split: if_splits)

declare memory_read_loop.simps [simp del]

definition memory_read ::
    "t_memory \<Rightarrow> hash_function \<Rightarrow> mem \<Rightarrow> int \<Rightarrow> int \<Rightarrow> int \<Rightarrow> int \<Rightarrow> fault + byte list option \<times> mem" where
  "memory_read cfg h m PID page offset sz =
     (if sz < 0 then Inr (None, m) else memory_read_loop cfg h m PID page offset sz [])"

subsection \<open>Writing\<close>

definition mem_put :: "byte list \<Rightarrow> int \<Rightarrow> byte list option \<Rightarrow> byte list option" where
  "mem_put bytes a data = (case data of None \<Rightarrow> None | Some bs \<Rightarrow> blk_write bytes a bs)"

text \<open>
  One iteration of the loop of \<open>memory_write\<close>: \<open>data\<close> is what \<open>buffer + wroteSize\<close> holds
  (\<open>None\<close> when the range is not in the buffer). The result is \<open>None\<close> for \<open>ERROR_MEMORY\<close>.
\<close>

definition write_cached ::
    "t_memory \<Rightarrow> cache \<Rightarrow> int \<Rightarrow> int \<Rightarrow> byte list \<Rightarrow> int \<Rightarrow> byte list option \<Rightarrow> fault + cache" where
  "write_cached cfg c PID page frame offset data =
     (let update = (\<lambda>i c. case mem_put (cacheContent c) (int (i * frameSize cfg) + offset) data of
                            None \<Rightarrow> Inl Buffer_Overflow
                          | Some b \<Rightarrow> Inr (c\<lparr>cacheContent := b\<rparr>)) in
      case cache_search c PID page of
        (Some i, c1) \<Rightarrow> update i c1
      | (None, c1) \<Rightarrow>
          (case cache_cache_contents cfg c1 PID page frame of
             Inl e \<Rightarrow> Inl e
           | Inr (Some i, c2) \<Rightarrow> update i c2
           | Inr (None, c2) \<Rightarrow> if cachePerProccess cfg = 0 then Inr c2 else Inl Assert_Failure))"

definition write_page ::
    "t_memory \<Rightarrow> hash_function \<Rightarrow> mem \<Rightarrow> int \<Rightarrow> int \<Rightarrow> int \<Rightarrow> byte list option \<Rightarrow> fault + mem option" where
  "write_page cfg h m PID page offset data =
     (case ram_frame_lookup cfg h (mram m) PID page of
        Inl e \<Rightarrow> Inl e
      | Inr None \<Rightarrow> Inr None
      | Inr (Some frame) \<Rightarrow>
          (case blk_read (proccessPages (mram m)) (int frame) (frameSize cfg) of
             None \<Rightarrow> Inl Buffer_Overflow
           | Some content \<Rightarrow>
               (case write_cached cfg (mcache m) PID page content offset data of
                  Inl e \<Rightarrow> Inl e
                | Inr c \<Rightarrow>
                    (case mem_put (proccessPages (mram m)) (int frame + offset) data of
                       None \<Rightarrow> Inl Buffer_Overflow
                     | Some b \<Rightarrow>
                         Inr (Some \<lparr>mram = (mram m)\<lparr>proccessPages := b\<rparr>, mcache = c\<rparr>)))))"

lemma write_page_some:
  assumes "write_page cfg h m PID page offset data = Inr (Some m')" shows "data \<noteq> None"
  using assms unfolding write_page_def
  by (auto simp: mem_put_def split: prod.splits option.splits sum.splits)

function memory_write_loop ::
    "t_memory \<Rightarrow> hash_function \<Rightarrow> mem \<Rightarrow> int \<Rightarrow> int \<Rightarrow> int \<Rightarrow> int \<Rightarrow> byte list \<Rightarrow> int \<Rightarrow> fault + int \<times> mem"
  where
  "memory_write_loop cfg h m PID page offset sz buffer wroteSize =
     (if sz \<le> 0 then Inr (wroteSize, m)
      else if frameSize cfg = 0 then Inl Div_By_Zero
      else let n = currentPageSize cfg offset sz in
           case write_page cfg h m PID page offset (mem_get buffer wroteSize n) of
             Inl e \<Rightarrow> Inl e
           | Inr None \<Rightarrow> Inr (ERROR_MEMORY, m)
           | Inr (Some m') \<Rightarrow>
               memory_write_loop cfg h m' PID (page + 1) 0 (sz - n) buffer (wroteSize + n))"
  by pat_completeness auto
termination
  by (relation "measures [\<lambda>(cfg, h, m, PID, page, offset, sz, buffer, wroteSize). nat sz,
       \<lambda>(cfg, h, m, PID, page, offset, sz, buffer, wroteSize).
         if offset = int (frameSize cfg) then 1 else 0]")
    (auto dest!: write_page_some mem_get_nonneg simp: currentPageSize_def split: if_splits)

declare memory_write_loop.simps [simp del]

definition memory_write ::
    "t_memory \<Rightarrow> hash_function \<Rightarrow> mem \<Rightarrow> int \<Rightarrow> int \<Rightarrow> int \<Rightarrow> int \<Rightarrow> byte list \<Rightarrow> fault + int \<times> mem" where
  "memory_write cfg h m PID page offset sz buffer =
     memory_write_loop cfg h m PID page offset sz buffer 0"

subsection \<open>Coherence\<close>

definition page_at :: "t_memory \<Rightarrow> mem \<Rightarrow> int \<times> int \<Rightarrow> byte list option" where
  "page_at cfg m k = map_option (block (frameSize cfg) (proccessPages (mram m))) (frame_of (mram m) k)"

definition coherent :: "t_memory \<Rightarrow> mem \<Rightarrow> bool" where
  "coherent cfg m \<longleftrightarrow> (\<forall>k i. cached_at (mcache m) k = Some i \<longrightarrow>
     page_at cfg m k = Some (block (frameSize cfg) (cacheContent (mcache m)) i))"

definition mem_inv :: "t_memory \<Rightarrow> mem \<Rightarrow> bool" where
  "mem_inv cfg m \<longleftrightarrow> ram_inv cfg (mram m) \<and> cache_inv cfg (mcache m) \<and> coherent cfg m"

text \<open>
  The LRU choice compares \<open>clock()\<close> with \<open>time(NULL)\<close>; it finds a victim as long as the former
  stays below the latter.
\<close>

definition lru_ready :: "t_memory \<Rightarrow> cache \<Rightarrow> bool" where
  "lru_ready cfg c \<longleftrightarrow> cachePerProccess cfg = 0 \<or>
     (0 < cacheEntryCount cfg \<and> (\<forall>n t. clock_src c n < time_src c t)
      \<and> (\<forall>i < length (entries c). \<forall>t. last_access c i < time_src c t))"

subsection \<open>Time stamps are readings of the clock\<close>

definition aged :: "cache \<Rightarrow> cache \<Rightarrow> bool" where
  "aged c c' \<longleftrightarrow> clock_src c' = clock_src c \<and> time_src c' = time_src c
     \<and> length (entries c') = length (entries c)
     \<and> (\<forall>i < length (entries c). last_access c' i = last_access c i
          \<or> (\<exists>n. last_access c' i = clock_src c n))"

lemma aged_same: "entries c' = entries c \<Longrightarrow> clock_src c' = clock_src c \<Longrightarrow> time_src c' = time_src c
    \<Longrightarrow> aged c c'"
  by (simp add: aged_def last_access_def)

lemma aged_trans: "aged a b \<Longrightarrow> aged b c \<Longrightarrow> aged a c"
  unfolding aged_def by metis

lemma aged_touch: "aged c (touch i c)"
proof -
  have "last_access (touch i c) j = last_access c j \<or> last_access (touch i c) j = clock_src c (tick c)"
    if "j < length (entries c)" for j
    using that by (cases "i = j") (simp_all add: last_access_def touch_def)
  then show ?thesis by (auto simp: aged_def)
qed

lemma aged_search: "cache_search c PID page = (r, c') \<Longrightarrow> aged c c'"
  by (auto simp: cache_search_def aged_same aged_touch split: option.splits)

lemma aged_lru: "lru cfg c p = (r, c') \<Longrightarrow> aged c c'"
  unfolding lru_def unusedEntry_def by (auto simp: aged_same aged_search split: if_splits)

lemma aged_reassign: "reassign c PID i = Inr c' \<Longrightarrow> aged c c'"
  unfolding reassign_def Let_def by (auto simp: aged_same split: if_splits option.splits)

lemma aged_stamp:
  "aged c (c\<lparr>entries := (entries c)[i := \<lparr>ce_PID = PID, ce_page = page,
      ce_lastAccess = clock_src c (tick c)\<rparr>], tick := t, cacheContent := b\<rparr>)"
    (is "aged c ?c")
proof -
  have "last_access ?c j = last_access c j \<or> last_access ?c j = clock_src c (tick c)"
    if "j < length (entries c)" for j
    using that by (cases "i = j") (simp_all add: last_access_def)
  then show ?thesis by (auto simp: aged_def)
qed

lemma aged_caching:
  assumes "cache_cache_contents cfg c PID page content = Inr (r, c')" shows "aged c c'"
proof -
  define c1 where "c1 = (if list_find (has_PID PID) (proccessesCacheEntries c) = None
      then c\<lparr>proccessesCacheEntries := proccessesCacheEntries c @ [\<lparr>pe_PID = PID, pe_entries = []\<rparr>]\<rparr>
      else c)"
  have c1: "aged c c1" by (rule aged_same) (simp_all add: c1_def)
  obtain p where p: "list_find (has_PID PID) (proccessesCacheEntries c1) = Some p"
    using assms by (auto simp: cache_cache_contents_def Let_def c1_def [symmetric] split: option.splits)
  obtain r0 c2 where l: "lru cfg c1 p = (r0, c2)" by fastforce
  note c2 = aged_trans [OF c1 aged_lru [OF l]]
  have a: "(case r0 of None \<Rightarrow> Inr (None, c2)
       | Some i \<Rightarrow> (case reassign c2 PID i of Inl e \<Rightarrow> Inl e
          | Inr c3 \<Rightarrow> (case blk_write (cacheContent c3) (int (i * frameSize cfg)) content of
               None \<Rightarrow> Inl Buffer_Overflow
             | Some b \<Rightarrow> Inr (Some i, c3\<lparr>entries := (entries c3)[i := \<lparr>ce_PID = PID, ce_page = page,
                                ce_lastAccess = clock_src c3 (tick c3)\<rparr>],
                              tick := tick c3 + 1, cacheContent := b\<rparr>)))) = Inr (r, c')"
    using assms by (simp add: cache_cache_contents_def Let_def c1_def [symmetric] p l)
  show ?thesis
  proof (cases r0)
    case None
    with a c2 show ?thesis by simp
  next
    case (Some i)
    with a obtain c3 b where c3: "reassign c2 PID i = Inr c3"
      and c': "c' = c3\<lparr>entries := (entries c3)[i := \<lparr>ce_PID = PID, ce_page = page,
                                ce_lastAccess = clock_src c3 (tick c3)\<rparr>],
                              tick := tick c3 + 1, cacheContent := b\<rparr>"
      by (auto split: sum.splits option.splits)
    show ?thesis
      unfolding c' by (rule aged_trans [OF aged_trans [OF c2 aged_reassign [OF c3]] aged_stamp])
  qed
qed

lemma lru_ready_aged: "aged c c' \<Longrightarrow> lru_ready cfg c \<Longrightarrow> lru_ready cfg c'"
  unfolding aged_def lru_ready_def by metis

subsection \<open>One page\<close>

lemma page_at_length: "ram_inv cfg (mram m) \<Longrightarrow> page_at cfg m k = Some b \<Longrightarrow> length b = frameSize cfg"
  by (auto simp: page_at_def ram_inv_def ram_shape_def intro: frames.page_length)

lemma cached_page:
  assumes "mem_inv cfg m" "cached_at (mcache m) k = Some i"
  shows "i < length (entries (mcache m))"
    "length (cacheContent (mcache m)) = length (entries (mcache m)) * frameSize cfg"
    "page_at cfg m k = Some (block (frameSize cfg) (cacheContent (mcache m)) i)"
  using assms cached_at_SomeD [OF assms(2)]
  by (simp_all add: mem_inv_def cache_inv_def) (simp add: coherent_def del: split_paired_All)

lemma mem_inv_ram:
  assumes "mem_inv cfg m" "frame_of (mram m) k = Some f"
  shows "f < proccessPageCount (mram m)"
    "length (proccessPages (mram m)) = proccessPageCount (mram m) * frameSize cfg"
    "page_at cfg m k = Some (block (frameSize cfg) (proccessPages (mram m)) f)"
  using assms frame_of_SomeD [OF assms(2)]
  by (auto simp: mem_inv_def ram_inv_def ram_shape_def page_at_def)

lemma mem_get_block:
  assumes "f < n" "length bytes = n * fs" "0 \<le> off" "0 \<le> k" "off + k \<le> int fs"
  shows "mem_get bytes (int (f * fs) + off) k = Some (peek (nat off) (nat k) (block fs bytes f))"
proof -
  have "int (f * fs) + off = int (f * fs + nat off)" using assms(3) by simp
  moreover have "f * fs + nat off + nat k \<le> length bytes"
    by (rule block_in_bounds [OF assms(1,2)]) (use assms(3-5) in linarith)
  ultimately have "mem_get bytes (int (f * fs) + off) k = Some (peek (f * fs + nat off) (nat k) bytes)"
    using assms(4) unfolding mem_get_def by (simp only: blk_read_in) simp
  then show ?thesis using peek_block [OF assms(1,2), of "nat off" "nat k"] assms(3-5) by simp
qed

lemma blk_write_block:
  assumes "f < n" "length bytes = n * fs" "0 \<le> off" "off + int (length bs) \<le> int fs"
  shows "blk_write bytes (int (f * fs) + off) bs = Some (poke (f * fs + nat off) bs bytes)"
proof -
  have "int (f * fs) + off = int (f * fs + nat off)" using assms(3) by simp
  moreover have "f * fs + nat off + length bs \<le> length bytes"
    by (rule block_in_bounds [OF assms(1,2)]) (use assms(3,4) in linarith)
  ultimately show ?thesis by (simp only: blk_write_in)
qed

text \<open>Bringing the page of a frame into the cache.\<close>

lemma caching_coherent:
  assumes inv: "mem_inv cfg m" and PID: "PID \<noteq> -1" and miss: "cached_at (mcache m) (PID, page) = None"
    and pg: "page_at cfg m (PID, page) = Some b"
  obtains r c' where "cache_cache_contents cfg (mcache m) PID page b = Inr (r, c')"
    "mem_inv cfg (m\<lparr>mcache := c'\<rparr>)"
    "case r of None \<Rightarrow> cached_at c' (PID, page) = None | Some i \<Rightarrow> cached_at c' (PID, page) = Some i"
    "lru_ready cfg (mcache m) \<Longrightarrow> lru_ready cfg c' \<and> (r = None \<longrightarrow> cachePerProccess cfg = 0)"
proof -
  let ?c = "mcache m" and ?fs = "frameSize cfg"
  have ci: "cache_inv cfg ?c" and co: "coherent cfg m" using inv by (simp_all add: mem_inv_def)
  have len: "length b = ?fs" using page_at_length pg inv by (auto simp: mem_inv_def)
  obtain r c' where s: "cache_cache_contents cfg ?c PID page b = Inr (r, c')" "cache_inv cfg c'"
    "case r of
         None \<Rightarrow> cached_at c' = cached_at ?c \<and> cacheContent c' = cacheContent ?c
       | Some i \<Rightarrow> i < length (entries ?c)
           \<and> cached_at c' = (cached_at ?c)(keys ?c ! i := None, (PID, page) \<mapsto> i)
           \<and> cacheContent c' = poke (i * ?fs) b (cacheContent ?c)"
    "0 < cachePerProccess cfg \<longrightarrow> 0 < cacheEntryCount cfg \<longrightarrow>
         (\<forall>i < length (entries ?c). last_access ?c i < time_src ?c (tick ?c)) \<longrightarrow> r \<noteq> None"
    using cache_cache_contents_spec [OF ci PID miss len] by (elim exE conjE) (rule that; assumption)
  have ready: "lru_ready cfg c' \<and> (r = None \<longrightarrow> cachePerProccess cfg = 0)" if "lru_ready cfg ?c"
    using that s(4) lru_ready_aged [OF aged_caching [OF s(1)] that] by (auto simp: lru_ready_def)
  have pa: "page_at cfg (m\<lparr>mcache := c'\<rparr>) = page_at cfg m" by (simp add: page_at_def fun_eq_iff)
  have "coherent cfg (m\<lparr>mcache := c'\<rparr>)"
  proof (cases r)
    case None
    with s(3) co show ?thesis by (simp add: coherent_def pa)
  next
    case (Some i)
    with s(3) have i: "i < length (entries ?c)"
        "cached_at c' = (cached_at ?c)(keys ?c ! i := None, (PID, page) \<mapsto> i)"
        "cacheContent c' = poke (i * ?fs) b (cacheContent ?c)" by simp_all
    have n: "length (cacheContent ?c) = length (entries ?c) * ?fs"
      using ci by (simp add: cache_inv_def)
    have "page_at cfg m k = Some (block ?fs (cacheContent c') j)" if k: "cached_at c' k = Some j" for k j
    proof (cases "k = (PID, page)")
      case True
      with k i(2) have "j = i" by simp
      with True block_poke_same [OF i(1) n, of 0 b] len i(1) n show ?thesis
        by (simp add: pg i(3) poke_def)
    next
      case False
      with k i(2) have k': "cached_at ?c k = Some j" "k \<noteq> keys ?c ! i" by (auto split: if_splits)
      then have j: "j < length (entries ?c)" "j \<noteq> i" using cached_at_SomeD [OF k'(1)] by auto
      then have "block ?fs (cacheContent c') j = block ?fs (cacheContent ?c) j"
        using block_poke_other [OF i(1) j(1) _ n, of 0 b] len by (simp add: i(3))
      with k'(1) co show ?thesis by (simp add: coherent_def del: split_paired_All)
    qed
    then show ?thesis by (simp add: coherent_def pa)
  qed
  with inv s(2) have "mem_inv cfg (m\<lparr>mcache := c'\<rparr>)" by (simp add: mem_inv_def)
  moreover have "case r of None \<Rightarrow> cached_at c' (PID, page) = None | Some i \<Rightarrow> cached_at c' (PID, page) = Some i"
    using s(3) miss by (simp split: option.splits)
  ultimately show thesis using that s(1) ready by blast
qed

lemma mem_inv_touch:
  "mem_inv cfg m \<Longrightarrow> mem_inv cfg (m\<lparr>mcache := touch i (mcache m)\<rparr>)"
  by (simp add: mem_inv_def coherent_def page_at_def)

lemma page_at_cache [simp]: "page_at cfg (m\<lparr>mcache := c\<rparr>) = page_at cfg m"
  by (simp add: page_at_def fun_eq_iff)

lemma ram_lookup:
  "mem_inv cfg m \<Longrightarrow> PID \<noteq> -1 \<Longrightarrow>
     ram_frame_lookup cfg h (mram m) PID page
       = Inr (map_option (get_frame cfg) (frame_of (mram m) (PID, page)))"
  by (intro ram_frame_lookup_eq) (simp_all add: mem_inv_def ram_inv_def)

lemma frame_contents:
  assumes "mem_inv cfg m" "frame_of (mram m) k = Some f"
  shows "blk_read (proccessPages (mram m)) (int (get_frame cfg f)) (frameSize cfg) = page_at cfg m k"
  using mem_inv_ram [OF assms] block_fits [of f "proccessPageCount (mram m)" "frameSize cfg"]
  by (simp add: get_frame_def block_def del: of_nat_mult)

lemma read_page_spec:
  assumes inv: "mem_inv cfg m" and PID: "PID \<noteq> -1"
    and off: "0 \<le> off" "0 \<le> n" "off + n \<le> int (frameSize cfg)"
  shows "\<exists>m'. read_page cfg h m PID page off n
      = Inr (map_option (peek (nat off) (nat n)) (page_at cfg m (PID, page)), m')
    \<and> mem_inv cfg m' \<and> mram m' = mram m
    \<and> (lru_ready cfg (mcache m) \<longrightarrow> lru_ready cfg (mcache m'))"
proof (cases "cached_at (mcache m) (PID, page)")
  case (Some i)
  let ?m = "m\<lparr>mcache := touch i (mcache m)\<rparr>"
  note c = cached_page [OF inv Some]
  have "read_page cfg h m PID page off n
      = Inr (map_option (peek (nat off) (nat n)) (page_at cfg m (PID, page)), ?m)"
    using mem_get_block [OF c(1,2) off] by (simp add: read_page_def cache_search_eq [OF PID] Some c(3))
  then show ?thesis using mem_inv_touch [OF inv] lru_ready_aged [OF aged_touch] by fastforce
next
  case miss: None
  show ?thesis
  proof (cases "frame_of (mram m) (PID, page)")
    case None
    then have "read_page cfg h m PID page off n = Inr (None, m)" "page_at cfg m (PID, page) = None"
      by (simp_all add: read_page_def cache_search_eq [OF PID] miss ram_lookup [OF inv PID] page_at_def)
    then show ?thesis using inv by simp
  next
    case (Some f)
    note c = mem_inv_ram [OF inv Some]
    obtain r c' where cc: "cache_cache_contents cfg (mcache m) PID page
          (block (frameSize cfg) (proccessPages (mram m)) f) = Inr (r, c')"
      and c': "mem_inv cfg (m\<lparr>mcache := c'\<rparr>)" "lru_ready cfg (mcache m) \<Longrightarrow> lru_ready cfg c'"
      using caching_coherent [OF inv PID miss c(3)] by metis
    have "read_page cfg h m PID page off n
        = Inr (map_option (peek (nat off) (nat n)) (page_at cfg m (PID, page)), m\<lparr>mcache := c'\<rparr>)"
      using mem_get_block [OF c(1,2) off] frame_contents [OF inv Some]
      by (simp add: read_page_def cache_search_eq [OF PID] miss ram_lookup [OF inv PID] Some c(3) cc
          get_frame_def del: of_nat_mult)
    with c' show ?thesis by auto
  qed
qed

text \<open>Updating a cached page and its frame together.\<close>

lemma write_both:
  assumes inv: "mem_inv cfg m" and f: "frame_of (mram m) k = Some f"
    and off: "0 \<le> off" "off + int (length bs) \<le> int (frameSize cfg)"
    and b: "page_at cfg m k = Some b"
    and c: "case cached_at (mcache m) k of None \<Rightarrow> c = mcache m
      | Some i \<Rightarrow> c = (mcache m)\<lparr>cacheContent :=
          poke (i * frameSize cfg + nat off) bs (cacheContent (mcache m))\<rparr>"
  defines "m' \<equiv> \<lparr>mram = (mram m)\<lparr>proccessPages :=
      poke (f * frameSize cfg + nat off) bs (proccessPages (mram m))\<rparr>, mcache = c\<rparr>"
  shows "mem_inv cfg m'" "page_at cfg m' = (page_at cfg m)(k \<mapsto> poke (nat off) bs b)"
    "aged (mcache m) (mcache m')"
proof -
  let ?fs = "frameSize cfg" and ?c = "mcache m" and ?r = "mram m"
  note r = mem_inv_ram [OF inv f]
  have o: "nat off + length bs \<le> ?fs" using off by simp
  have fits: "f * ?fs + nat off + length bs \<le> length (proccessPages ?r)"
    by (rule block_in_bounds [OF r(1,2) o])
  show pa: "page_at cfg m' = (page_at cfg m)(k \<mapsto> poke (nat off) bs b)"
  proof
    fix k'
    show "page_at cfg m' k' = ((page_at cfg m)(k \<mapsto> poke (nat off) bs b)) k'"
      using frames.write_one_page [OF TrueI f r(2) o, of k'] b f
      by (simp add: page_at_def m'_def)
  qed
  have ram': "ram_inv cfg (mram m')"
    using inv fits by (simp add: m'_def mem_inv_def ram_inv_contents)
  have ci: "cache_inv cfg ?c" and co: "coherent cfg m" using inv by (simp_all add: mem_inv_def)
  have n: "length (cacheContent ?c) = length (entries ?c) * ?fs" using ci by (simp add: cache_inv_def)
  have len: "i * ?fs + nat off + length bs \<le> length (cacheContent ?c)" if "i < length (entries ?c)" for i
    by (rule block_in_bounds [OF that n o])
  have ck: "keys c = keys ?c" "cached_at c = cached_at ?c" "entries c = entries ?c"
    using c by (auto simp: keys_def cached_at_def fun_eq_iff split: option.splits)
  have "cache_inv cfg c"
    using c ci len cached_at_SomeD [of ?c k] by (auto simp: cache_inv_def split: option.splits)
  moreover have "page_at cfg m' k' = Some (block ?fs (cacheContent c) j)"
    if "cached_at c k' = Some j" for k' j
  proof (cases "k' = k")
    case True
    with that ck have j: "cached_at ?c k = Some j" by simp
    then have "b = block ?fs (cacheContent ?c) j" using cached_page(3) [OF inv j] b by simp
    with True j c cached_at_SomeD [OF j] show ?thesis
      by (simp add: pa block_poke_same [OF _ n o])
  next
    case False
    have j: "cached_at ?c k' = Some j" using that ck by simp
    have "block ?fs (cacheContent c) j = block ?fs (cacheContent ?c) j"
    proof (cases "cached_at ?c k")
      case (Some i)
      with j False have "i \<noteq> j" using cached_at_inj by metis
      with Some c cached_at_SomeD [OF Some] cached_at_SomeD [OF j] show ?thesis
        by (simp add: block_poke_other [OF _ _ _ n o])
    qed (use c in simp)
    with False cached_page(3) [OF inv j] show ?thesis by (simp add: pa)
  qed
  ultimately show "mem_inv cfg m'" using ram' by (simp add: mem_inv_def coherent_def m'_def)
  show "aged ?c (mcache m')"
    using c by (auto simp: m'_def intro!: aged_same split: option.splits)
qed

lemma write_page_spec:
  assumes inv: "mem_inv cfg m" and PID: "PID \<noteq> -1" and ready: "lru_ready cfg (mcache m)"
    and off: "0 \<le> off" "off + int (length bs) \<le> int (frameSize cfg)"
  shows "case page_at cfg m (PID, page) of
      None \<Rightarrow> write_page cfg h m PID page off (Some bs) = Inr None
    | Some b \<Rightarrow> (\<exists>m'. write_page cfg h m PID page off (Some bs) = Inr (Some m')
        \<and> mem_inv cfg m' \<and> lru_ready cfg (mcache m') \<and> frame_of (mram m') = frame_of (mram m)
        \<and> page_at cfg m' = (page_at cfg m)((PID, page) \<mapsto> poke (nat off) bs b))"
proof (cases "frame_of (mram m) (PID, page)")
  case None
  then show ?thesis by (simp add: page_at_def write_page_def ram_lookup [OF inv PID])
next
  case (Some f)
  let ?fs = "frameSize cfg" and ?c = "mcache m"
  note r = mem_inv_ram [OF inv Some]
  let ?b = "block ?fs (proccessPages (mram m)) f"
  let ?ram = "(mram m)\<lparr>proccessPages := poke (f * ?fs + nat off) bs (proccessPages (mram m))\<rparr>"
  note put = blk_write_block [OF r(1,2) off]
  have step: "write_page cfg h m PID page off (Some bs)
      = (case write_cached cfg ?c PID page ?b off (Some bs) of
           Inl e \<Rightarrow> Inl e | Inr c \<Rightarrow> Inr (Some \<lparr>mram = ?ram, mcache = c\<rparr>))"
    using frame_contents [OF inv Some] put
    by (simp add: write_page_def ram_lookup [OF inv PID] Some r(3) mem_put_def get_frame_def
        del: of_nat_mult split: sum.split)
  define cached where "cached m0 c \<longleftrightarrow> write_cached cfg ?c PID page ?b off (Some bs) = Inr c
      \<and> mem_inv cfg m0 \<and> mram m0 = mram m \<and> lru_ready cfg (mcache m0)
      \<and> (case cached_at (mcache m0) (PID, page) of None \<Rightarrow> c = mcache m0
         | Some i \<Rightarrow> c = (mcache m0)\<lparr>cacheContent :=
             poke (i * ?fs + nat off) bs (cacheContent (mcache m0))\<rparr>)" for m0 c
  have "\<exists>m0 c. cached m0 c"
  proof (cases "cached_at ?c (PID, page)")
    case hit: (Some i)
    let ?m = "m\<lparr>mcache := touch i ?c\<rparr>"
    note ci = cached_page [OF inv hit]
    have "write_cached cfg ?c PID page ?b off (Some bs)
        = Inr ((touch i ?c)\<lparr>cacheContent := poke (i * ?fs + nat off) bs (cacheContent (touch i ?c))\<rparr>)"
      using blk_write_block [OF ci(1,2) off]
      by (simp add: write_cached_def cache_search_eq [OF PID] hit mem_put_def)
    then show ?thesis
      using mem_inv_touch [OF inv] lru_ready_aged [OF aged_touch ready] hit
      by (intro exI [of _ ?m] exI) (simp add: cached_def)
  next
    case miss: None
    obtain q c' where cc: "cache_cache_contents cfg ?c PID page ?b = Inr (q, c')"
      and c': "mem_inv cfg (m\<lparr>mcache := c'\<rparr>)" "lru_ready cfg c' \<and> (q = None \<longrightarrow> cachePerProccess cfg = 0)"
        "case q of None \<Rightarrow> cached_at c' (PID, page) = None | Some i \<Rightarrow> cached_at c' (PID, page) = Some i"
      using caching_coherent [OF inv PID miss r(3)] ready by metis
    show ?thesis
    proof (cases q)
      case None
      with cc c' miss show ?thesis
        by (intro exI [of _ "m\<lparr>mcache := c'\<rparr>"] exI [of _ c'])
          (simp add: cached_def write_cached_def cache_search_eq [OF PID])
    next
      case new: (Some i)
      with c'(3) have i: "cached_at (mcache (m\<lparr>mcache := c'\<rparr>)) (PID, page) = Some i" by simp
      note ci = cached_page [OF c'(1) i]
      have "write_cached cfg ?c PID page ?b off (Some bs)
          = Inr (c'\<lparr>cacheContent := poke (i * ?fs + nat off) bs (cacheContent c')\<rparr>)"
        using blk_write_block [of i, OF _ _ off] ci(1,2) cc new
        by (simp add: write_cached_def cache_search_eq [OF PID] miss mem_put_def)
      with c' i show ?thesis
        by (intro exI [of _ "m\<lparr>mcache := c'\<rparr>"] exI) (simp add: cached_def)
    qed
  qed
  then obtain m0 c where w: "write_cached cfg ?c PID page ?b off (Some bs) = Inr c"
    and m0: "mem_inv cfg m0" "mram m0 = mram m" "lru_ready cfg (mcache m0)"
    and c: "case cached_at (mcache m0) (PID, page) of None \<Rightarrow> c = mcache m0
         | Some i \<Rightarrow> c = (mcache m0)\<lparr>cacheContent :=
             poke (i * ?fs + nat off) bs (cacheContent (mcache m0))\<rparr>"
    unfolding cached_def by blast
  have pa: "page_at cfg m0 = page_at cfg m" using m0(2) by (simp add: page_at_def fun_eq_iff)
  have f0: "frame_of (mram m0) (PID, page) = Some f" and b0: "page_at cfg m0 (PID, page) = Some ?b"
    using Some r(3) m0(2) pa by simp_all
  note both = write_both [OF m0(1) f0 off b0 c]
  show ?thesis
    using both(1,2) lru_ready_aged [OF both(3) m0(3)] by (simp add: step w r(3) m0(2) pa)
qed

subsection \<open>The flat address space of a process\<close>

text \<open>\<open>byte_at cfg m PID a\<close>: the byte at linear address \<open>a = page * frameSize + offset\<close>.\<close>

definition byte_at :: "t_memory \<Rightarrow> mem \<Rightarrow> int \<Rightarrow> int \<Rightarrow> byte option" where
  "byte_at cfg m PID a =
     map_option (\<lambda>b. b ! nat (a mod int (frameSize cfg)))
       (page_at cfg m (PID, a div int (frameSize cfg)))"

definition bytes_at :: "t_memory \<Rightarrow> mem \<Rightarrow> int \<Rightarrow> int \<Rightarrow> nat \<Rightarrow> byte list option" where
  "bytes_at cfg m PID a n = those (map (\<lambda>i. byte_at cfg m PID (a + int i)) [0..<n])"

lemma those_append:
  "those (xs @ ys) = (case those xs of None \<Rightarrow> None | Some a \<Rightarrow> map_option ((@) a) (those ys))"
proof (induction xs)
  case Nil
  then show ?case by (cases "those ys") auto
next
  case (Cons x xs)
  then show ?case by (cases "those ys") (auto split: option.splits)
qed

lemma those_some: "those (map (\<lambda>i. Some (f i)) xs) = Some (map f xs)"
  by (induction xs) auto

lemma those_None_iff: "those xs = None \<longleftrightarrow> None \<in> set xs"
  by (induction xs) (auto split: option.splits)

lemma bytes_at_0 [simp]: "bytes_at cfg m PID a 0 = Some []"
  by (simp add: bytes_at_def)

lemma bytes_at_split:
  "bytes_at cfg m PID a (n + k) = (case bytes_at cfg m PID a n of None \<Rightarrow> None
     | Some x \<Rightarrow> map_option ((@) x) (bytes_at cfg m PID (a + int n) k))"
proof -
  have "[0..<n + k] = [0..<n] @ map (\<lambda>i. n + i) [0..<k]"
    by (induction k) simp_all
  then show ?thesis
    unfolding bytes_at_def by (simp add: those_append comp_def add.assoc split: option.split)
qed

lemma in_page:
  assumes "0 \<le> off" "off < (fs :: int)"
  shows "(page * fs + off) div fs = page" "(page * fs + off) mod fs = off"
  using assms by (simp_all add: div_pos_pos_trivial mod_pos_pos_trivial)

lemma byte_at_in_page:
  "0 \<le> off \<Longrightarrow> off < int (frameSize cfg) \<Longrightarrow>
     byte_at cfg m PID (page * int (frameSize cfg) + off) = map_option (\<lambda>b. b ! nat off) (page_at cfg m (PID, page))"
  by (simp add: byte_at_def in_page)

lemma bytes_at_page:
  assumes "ram_inv cfg (mram m)" "0 \<le> off" "off + int n \<le> int (frameSize cfg)" "0 < n"
  shows "bytes_at cfg m PID (page * int (frameSize cfg) + off) n
    = map_option (peek (nat off) n) (page_at cfg m (PID, page))"
proof -
  have at: "byte_at cfg m PID (page * int (frameSize cfg) + off + int i)
      = map_option (\<lambda>b. b ! (nat off + i)) (page_at cfg m (PID, page))" if "i < n" for i
    using byte_at_in_page [of "off + int i" cfg m PID page] assms that
    by (simp add: add.assoc nat_add_distrib)
  show ?thesis
  proof (cases "page_at cfg m (PID, page)")
    case None
    have "[0..<n] = 0 # [1..<n]" using assms(4) by (simp add: upt_conv_Cons)
    with at [OF assms(4)] None show ?thesis by (simp add: bytes_at_def)
  next
    case (Some b)
    have len: "length b = frameSize cfg" using page_at_length [OF assms(1) Some] .
    have "map (\<lambda>i. byte_at cfg m PID (page * int (frameSize cfg) + off + int i)) [0..<n]
        = map (\<lambda>i. Some (b ! (nat off + i))) [0..<n]"
      using at Some by simp
    moreover have "map (\<lambda>i. b ! (nat off + i)) [0..<n] = peek (nat off) n b"
      using assms(2,3) len by (intro nth_equalityI) (auto simp: nth_peek)
    ultimately show ?thesis unfolding bytes_at_def by (simp only: those_some Some option.map)
  qed
qed

lemma byte_at_write:
  assumes "ram_inv cfg (mram m)" "page_at cfg m (PID, page) = Some b"
    "page_at cfg m' = (page_at cfg m)((PID, page) \<mapsto> poke (nat off) bs b)"
    "0 \<le> off" "off + int (length bs) \<le> int (frameSize cfg)"
  shows "byte_at cfg m' P x =
    (let a = page * int (frameSize cfg) + off in
     if P = PID \<and> a \<le> x \<and> x < a + int (length bs) then Some (bs ! nat (x - a)) else byte_at cfg m P x)"
proof -
  let ?fs = "int (frameSize cfg)"
  have fs: "0 < ?fs" using assms(1) by (simp add: ram_inv_def ram_shape_def)
  define q r where "q = x div ?fs" and "r = x mod ?fs"
  have x: "x = q * ?fs + r" "0 \<le> r" "r < ?fs" using fs by (simp_all add: q_def r_def)
  have len: "length b = frameSize cfg" using page_at_length assms(1,2) .
  have b': "byte_at cfg m' P x = map_option (\<lambda>b. b ! nat r) (page_at cfg m' (P, q))"
    and b0: "byte_at cfg m P x = map_option (\<lambda>b. b ! nat r) (page_at cfg m (P, q))"
    using byte_at_in_page x by simp_all
  show ?thesis
  proof (cases "P = PID \<and> q = page")
    case True
    have "poke (nat off) bs b ! nat r = (if off \<le> r \<and> r < off + int (length bs)
        then bs ! nat (r - off) else b ! nat r)"
      using assms(4,5) x(2,3) len by (subst nth_poke) (auto simp: nat_diff_distrib)
    moreover have "page * ?fs + off \<le> x \<longleftrightarrow> off \<le> r"
        "x < page * ?fs + off + int (length bs) \<longleftrightarrow> r < off + int (length bs)"
        "nat (x - (page * ?fs + off)) = nat (r - off)"
      using True x(1) by auto
    ultimately show ?thesis using True unfolding b' b0 by (simp only: Let_def) (simp add: assms(2,3))
  next
    case False
    have no: "\<not> (P = PID \<and> page * ?fs + off \<le> x \<and> x < page * ?fs + off + int (length bs))"
    proof
      assume a: "P = PID \<and> page * ?fs + off \<le> x \<and> x < page * ?fs + off + int (length bs)"
      have "x div ?fs = page"
      proof -
        have "x = page * ?fs + (x - page * ?fs)" by simp
        moreover have "0 \<le> x - page * ?fs" "x - page * ?fs < ?fs" using a assms(4,5) by linarith+
        ultimately show ?thesis using in_page(1) by metis
      qed
      with a False show False by (simp add: q_def)
    qed
    show ?thesis using False unfolding b' b0 Let_def assms(3) if_not_P [OF no] by auto
  qed
qed

subsection \<open>Reading and writing across pages\<close>

lemma memory_read_loop_spec:
  assumes "mem_inv cfg m" "PID \<noteq> -1" "0 \<le> off" "off < int (frameSize cfg)"
  shows "\<exists>m'. memory_read_loop cfg h m PID page off (int n) acc
      = Inr (map_option ((@) acc) (bytes_at cfg m PID (page * int (frameSize cfg) + off) n), m')
    \<and> mem_inv cfg m' \<and> mram m' = mram m
    \<and> (lru_ready cfg (mcache m) \<longrightarrow> lru_ready cfg (mcache m'))"
  using assms
proof (induction n arbitrary: m page off acc rule: less_induct)
  case (less n)
  let ?fs = "int (frameSize cfg)" and ?a = "page * int (frameSize cfg) + off"
  show ?case
  proof (cases n)
    case 0
    with less.prems show ?thesis by (simp add: memory_read_loop.simps)
  next
    case (Suc n0)
    define k where "k = currentPageSize cfg off (int n)"
    have k: "0 < k" "off + k \<le> ?fs" "k \<le> int n" "k < int n \<Longrightarrow> off + k = ?fs"
      using Suc less.prems(3,4) by (auto simp: k_def currentPageSize_def)
    have inv: "mem_inv cfg m" and ri: "ram_inv cfg (mram m)" and fs: "frameSize cfg \<noteq> 0"
      using less.prems by (auto simp: mem_inv_def)
    obtain m1 where m1: "read_page cfg h m PID page off k
        = Inr (map_option (peek (nat off) (nat k)) (page_at cfg m (PID, page)), m1)"
      "mem_inv cfg m1" "mram m1 = mram m" "lru_ready cfg (mcache m) \<longrightarrow> lru_ready cfg (mcache m1)"
      using read_page_spec [OF inv less.prems(2,3) _ k(2)] k(1) by force
    have "bytes_at cfg m PID ?a (nat k) = map_option (peek (nat off) (nat k)) (page_at cfg m (PID, page))"
      using bytes_at_page [OF ri less.prems(3)] k by simp
    with m1(1) have rd: "read_page cfg h m PID page off k = Inr (bytes_at cfg m PID ?a (nat k), m1)"
      by simp
    have split: "bytes_at cfg m PID ?a n = (case bytes_at cfg m PID ?a (nat k) of None \<Rightarrow> None
       | Some x \<Rightarrow> map_option ((@) x) (bytes_at cfg m PID (?a + k) (n - nat k)))"
    proof -
      have e: "int (nat k) = k" "nat k + (n - nat k) = n" using k(1,3) by simp_all
      show ?thesis using bytes_at_split [of cfg m PID ?a "nat k" "n - nat k"] unfolding e .
    qed
    have rest: "int n - k = int (n - nat k)" using k by simp
    note loop = memory_read_loop.simps [of cfg h m PID page off "int n" acc, folded k_def]
    have "int n > 0" using Suc by simp
    show ?thesis
    proof (cases "bytes_at cfg m PID ?a (nat k)")
      case None
      with rd split m1 \<open>int n > 0\<close> fs show ?thesis
        by (intro exI [of _ m1]) (simp add: loop)
    next
      case (Some bs)
      have "bytes_at cfg m PID (?a + k) (n - nat k)
          = bytes_at cfg m1 PID ((page + 1) * ?fs + 0) (n - nat k)"
      proof (cases "k < int n")
        case True
        then have "?a + k = (page + 1) * ?fs + 0" using k(4) by (simp add: distrib_right)
        moreover have "page_at cfg m1 = page_at cfg m" using m1(3) by (simp add: page_at_def fun_eq_iff)
        ultimately show ?thesis by (simp add: bytes_at_def byte_at_def)
      next
        case False
        then have "n - nat k = 0" using k by simp
        then show ?thesis by (simp only: bytes_at_0)
      qed
      moreover have "n - nat k < n" using k by linarith
      from less.IH [OF this m1(2) less.prems(2), of 0 "page + 1" "acc @ bs"] fs
      obtain m' where "memory_read_loop cfg h m1 PID (page + 1) 0 (int (n - nat k)) (acc @ bs)
          = Inr (map_option (\<lambda>z. acc @ bs @ z) (bytes_at cfg m1 PID ((page + 1) * ?fs + 0) (n - nat k)), m')"
        "mem_inv cfg m'" "mram m' = mram m1" "lru_ready cfg (mcache m1) \<longrightarrow> lru_ready cfg (mcache m')"
        by (simp add: comp_def) blast
      ultimately show ?thesis
        using rd [unfolded Some] split [unfolded Some] m1(2-4) \<open>int n > 0\<close> fs
        by (intro exI [of _ m']) (simp add: loop rest option.map_comp comp_def)
    qed
  qed
qed

lemma memory_read_spec:
  assumes "mem_inv cfg m" "PID \<noteq> -1" "0 \<le> off" "off < int (frameSize cfg)" "0 \<le> n"
  shows "\<exists>m'. memory_read cfg h m PID page off n
      = Inr (bytes_at cfg m PID (page * int (frameSize cfg) + off) (nat n), m')
    \<and> mem_inv cfg m' \<and> mram m' = mram m
    \<and> (lru_ready cfg (mcache m) \<longrightarrow> lru_ready cfg (mcache m'))"
proof -
  have "map_option ((@) []) x = x" for x :: "byte list option" by (cases x) auto
  then show ?thesis
    using memory_read_loop_spec [OF assms(1-4), of h page "nat n" "[]"] assms(5)
    by (simp add: memory_read_def)
qed

text \<open>
  A write stores its bytes at consecutive addresses; when it runs into a page without a frame
  it reports \<open>ERROR_MEMORY\<close>, the pages before it already written.
\<close>

definition write_effect :: "t_memory \<Rightarrow> mem \<Rightarrow> mem \<Rightarrow> int \<Rightarrow> int \<Rightarrow> byte list \<Rightarrow> bool" where
  "write_effect cfg m m' PID a bs \<longleftrightarrow>
     (\<forall>P x. byte_at cfg m' P x =
        (if P = PID \<and> a \<le> x \<and> x < a + int (length bs) then Some (bs ! nat (x - a))
         else byte_at cfg m P x))"

lemma write_effect_Nil:
  "write_effect cfg m m' PID a [] \<longleftrightarrow> (\<forall>P x. byte_at cfg m' P x = byte_at cfg m P x)"
  by (auto simp: write_effect_def)

lemma write_effect_nil [simp]: "write_effect cfg m m PID a []"
  by (simp add: write_effect_Nil)

lemma write_effect_append:
  assumes "write_effect cfg m m1 PID a bs" "write_effect cfg m1 m' PID (a + int (length bs)) cs"
  shows "write_effect cfg m m' PID a (bs @ cs)"
  unfolding write_effect_def
proof (intro allI)
  fix P x
  have m1: "byte_at cfg m1 P x = (if P = PID \<and> a \<le> x \<and> x < a + int (length bs)
      then Some (bs ! nat (x - a)) else byte_at cfg m P x)"
    using assms(1) by (simp add: write_effect_def)
  have m': "byte_at cfg m' P x = (if P = PID \<and> a + int (length bs) \<le> x
      \<and> x < a + int (length bs) + int (length cs)
      then Some (cs ! nat (x - (a + int (length bs)))) else byte_at cfg m1 P x)"
    using assms(2) by (simp add: write_effect_def)
  have "nat (x - a) - length bs = nat (x - (a + int (length bs)))" by simp
  then show "byte_at cfg m' P x = (if P = PID \<and> a \<le> x \<and> x < a + int (length (bs @ cs))
      then Some ((bs @ cs) ! nat (x - a)) else byte_at cfg m P x)"
    unfolding m' m1 by (auto simp: nth_append)
qed

definition written_spec ::
    "t_memory \<Rightarrow> mem \<Rightarrow> int \<Rightarrow> int \<Rightarrow> byte list \<Rightarrow> int \<Rightarrow> mem \<Rightarrow> bool" where
  "written_spec cfg m PID a bs r m' \<longleftrightarrow>
     mem_inv cfg m' \<and> lru_ready cfg (mcache m') \<and> frame_of (mram m') = frame_of (mram m)
     \<and> (if bytes_at cfg m PID a (length bs) \<noteq> None
        then r = int (length bs) \<and> write_effect cfg m m' PID a bs
        else r = ERROR_MEMORY \<and> (\<exists>k < length bs. write_effect cfg m m' PID a (take k bs)))"

lemma memory_write_loop_spec:
  assumes "mem_inv cfg m" "lru_ready cfg (mcache m)" "PID \<noteq> -1" "0 \<le> off" "off < int (frameSize cfg)"
  shows "\<exists>r m'. memory_write_loop cfg h m PID page off (int (length bs)) (done @ bs) (int (length done))
      = Inr (if r = ERROR_MEMORY then r else int (length done) + r, m')
    \<and> written_spec cfg m PID (page * int (frameSize cfg) + off) bs r m'"
  using assms
proof (induction "length bs" arbitrary: m page off bs "done" rule: less_induct)
  case less
  let ?fs = "int (frameSize cfg)" and ?a = "page * int (frameSize cfg) + off" and ?n = "length bs"
  show ?case
  proof (cases bs)
    case Nil
    with less.prems show ?thesis
      by (intro exI [of _ 0] exI [of _ m]) (simp add: memory_write_loop.simps written_spec_def ERROR_MEMORY_def)
  next
    case (Cons b0 bs0)
    define k where "k = nat (currentPageSize cfg off (int ?n))"
    have k: "0 < k" "off + int k \<le> ?fs" "k \<le> ?n" "k < ?n \<Longrightarrow> off + int k = ?fs"
        "currentPageSize cfg off (int ?n) = int k"
      using Cons less.prems(4,5) by (auto simp: k_def currentPageSize_def)
    have inv: "mem_inv cfg m" and ri: "ram_inv cfg (mram m)" and fs: "frameSize cfg \<noteq> 0"
      using less.prems by (auto simp: mem_inv_def)
    have "mem_get (done @ bs) (int (length done)) (int k) = Some (take k bs)"
      using k(3) by (simp add: mem_get_def blk_read_def peek_def)
    then have loop: "memory_write_loop cfg h m PID page off (int ?n) (done @ bs) (int (length done))
      = (case write_page cfg h m PID page off (Some (take k bs)) of Inl e \<Rightarrow> Inl e
         | Inr None \<Rightarrow> Inr (ERROR_MEMORY, m)
         | Inr (Some m') \<Rightarrow> memory_write_loop cfg h m' PID (page + 1) 0 (int ?n - int k) (done @ bs)
              (int (length done) + int k))"
      using Cons fs k(5) by (subst memory_write_loop.simps) (simp add: Let_def)
    have len: "length (take k bs) = k" using k(3) by simp
    have at: "bytes_at cfg m PID ?a k = map_option (peek (nat off) k) (page_at cfg m (PID, page))"
      using bytes_at_page [OF ri less.prems(4) k(2,1)] .
    have split: "bytes_at cfg m PID ?a ?n = (case bytes_at cfg m PID ?a k of None \<Rightarrow> None
       | Some x \<Rightarrow> map_option ((@) x) (bytes_at cfg m PID (?a + int k) (?n - k)))"
      using bytes_at_split [of cfg m PID ?a k "?n - k"] k(3) by simp
    note w = write_page_spec [OF inv less.prems(3,2,4), of "take k bs" h page, unfolded len, OF k(2)]
    show ?thesis
    proof (cases "page_at cfg m (PID, page)")
      case None
      have "bs \<noteq> []" using Cons by simp
      with None w at split less.prems show ?thesis
        by (intro exI [of _ ERROR_MEMORY] exI [of _ m])
          (auto simp: loop written_spec_def intro!: exI [of _ 0])
    next
      case (Some b)
      with w obtain m1 where m1: "write_page cfg h m PID page off (Some (take k bs)) = Inr (Some m1)"
        "mem_inv cfg m1" "lru_ready cfg (mcache m1)" "frame_of (mram m1) = frame_of (mram m)"
        "page_at cfg m1 = (page_at cfg m)((PID, page) \<mapsto> poke (nat off) (take k bs) b)"
        by auto
      have eff: "write_effect cfg m m1 PID ?a (take k bs)"
        using byte_at_write [OF ri Some m1(5) less.prems(4)] k(2) len
        by (simp add: write_effect_def Let_def)
      have next_page: "?a + int k = (page + 1) * ?fs + 0" if "k < ?n"
        using k(4) [OF that] by (simp add: distrib_right)
      define r where "r = drop k bs"
      have rest: "length r < length bs" "int (length bs) - int k = int (length r)"
          "done @ bs = (done @ take k bs) @ r" "int (length done) + int k = int (length (done @ take k bs))"
        using k(1,3) by (simp_all add: r_def)
      obtain q m' where q: "memory_write_loop cfg h m1 PID (page + 1) 0 (int (length r))
            ((done @ take k bs) @ r) (int (length (done @ take k bs)))
          = Inr (if q = ERROR_MEMORY then q else int (length (done @ take k bs)) + q, m')"
        and sp: "written_spec cfg m1 PID ((page + 1) * ?fs + 0) r q m'"
        using less.hyps [OF rest(1) m1(2,3) less.prems(3), of 0 "page + 1" "done @ take k bs"] fs by auto
      have "byte_at cfg m1 PID y = None \<longleftrightarrow> byte_at cfg m PID y = None" for y
        using m1(4) by (simp add: byte_at_def page_at_def)
      then have mapped: "bytes_at cfg m1 PID x j = None \<longleftrightarrow> bytes_at cfg m PID x j = None" for x j
        unfolding bytes_at_def those_None_iff by (auto simp: image_iff eq_commute [of None])
      have start: "bytes_at cfg m1 PID ((page + 1) * ?fs + 0) (length r) = bytes_at cfg m1 PID (?a + int k) (length r)"
        "write_effect cfg m1 m' PID ((page + 1) * ?fs + 0) (take j r)
          \<longleftrightarrow> write_effect cfg m1 m' PID (?a + int k) (take j r)" for j
        using next_page by (cases "k < ?n"; simp add: r_def write_effect_Nil)+
      have whole: "bytes_at cfg m PID ?a ?n = None \<longleftrightarrow> bytes_at cfg m1 PID (?a + int k) (length r) = None"
        unfolding split mapped using at Some by (simp add: r_def)
      have cat: "write_effect cfg m m' PID ?a (take (k + j) bs)"
        if "write_effect cfg m1 m' PID (?a + int k) (take j r)" for j
        using write_effect_append [OF eff, of m' "take j r"] that len by (simp add: take_add r_def)
      have out: "memory_write_loop cfg h m PID page off (int ?n) (done @ bs) (int (length done))
          = Inr (if q = ERROR_MEMORY then q else int (length done) + (int k + q), m')"
      proof -
        have "memory_write_loop cfg h m PID page off (int ?n) (done @ bs) (int (length done))
            = memory_write_loop cfg h m1 PID (page + 1) 0 (int (length r))
                ((done @ take k bs) @ r) (int (length (done @ take k bs)))"
          unfolding loop m1(1) by (simp only: sum.case option.case rest(2-4))
        then show ?thesis unfolding q using rest(4) by auto
      qed
      show ?thesis
      proof (cases "bytes_at cfg m PID ?a ?n = None")
        case True
        then obtain j where "j < length r" "write_effect cfg m1 m' PID (?a + int k) (take j r)" "q = ERROR_MEMORY"
          using sp whole start by (auto simp: written_spec_def)
        with cat [of j] True sp m1(4) out show ?thesis
          by (intro exI [of _ ERROR_MEMORY] exI [of _ m'])
            (auto simp: written_spec_def r_def intro!: exI [of _ "k + j"])
      next
        case False
        then have "write_effect cfg m1 m' PID (?a + int k) (take (length r) r)" "q = int (length r)"
          using sp whole start(1) start(2) [of "length r"] by (simp_all add: written_spec_def)
        with cat [of "length r"] False sp m1(4) out k(3) show ?thesis
          by (intro exI [of _ "int ?n"] exI [of _ m'])
            (auto simp: written_spec_def r_def ERROR_MEMORY_def)
      qed
    qed
  qed
qed

lemma memory_write_spec:
  assumes "mem_inv cfg m" "lru_ready cfg (mcache m)" "PID \<noteq> -1" "0 \<le> off" "off < int (frameSize cfg)"
  shows "\<exists>r m'. memory_write cfg h m PID page off (int (length bs)) bs = Inr (r, m')
    \<and> written_spec cfg m PID (page * int (frameSize cfg) + off) bs r m'"
proof -
  have "(if r = ERROR_MEMORY then r else int (length ([] :: byte list)) + r) = r" for r by simp
  then show ?thesis
    using memory_write_loop_spec [OF assms, of h page bs "[]"]
    unfolding memory_write_def by (simp del: split_paired_Ex)
qed

subsection \<open>Start-up, growth and the end of a process\<close>

lemma cache_init_ready:
  "cachePerProccess cfg = 0 \<or> 0 < cacheEntryCount cfg \<and> (\<forall>n t. clk n < tim t)
     \<and> (\<forall>i t. acc0 i < tim t) \<Longrightarrow> lru_ready cfg (cache_init cfg cmem0 acc0 clk tim)"
  by (auto simp: lru_ready_def cache_init_def last_access_def)

lemma memory_init_spec:
  assumes "memory_init cfg rmem0 cmem0 acc0 clk tim = Inr m" "0 < proccessPageCount (mram m)"
  shows "mem_inv cfg m" "byte_at cfg m PID a = None"
    "freeFrameCount (mram m) = proccessPageCount (mram m)"
proof -
  obtain r where r: "ram_init cfg rmem0 = Inr r" "m = \<lparr>mram = r, mcache = cache_init cfg cmem0 acc0 clk tim\<rparr>"
    using assms(1) by (auto simp: memory_init_def split: sum.splits)
  have ram: "pageTable r = replicate (frameCount cfg) free_entry"
      "freeFrameCount r = proccessPageCount r" "proccessPageCount r \<le> frameCount cfg"
      "length (proccessPages r) = proccessPageCount r * frameSize cfg" "0 < frameSize cfg"
    using r(1) by (auto simp: ram_init_def Let_def split: if_splits)
  have e: "frame_of r = Map.empty"
    using ram(1,3) by (auto simp: fun_eq_iff frame_of_def find_None_iff entry_has_PID_page_def free_entry_def)
  have "filter is_frame_free (replicate n free_entry) = replicate n free_entry" for n
    by (induction n) (simp_all add: is_frame_free_def free_entry_def)
  then have "ram_inv cfg r"
    using ram assms(2) r(2)
    by (simp add: ram_inv_def ram_shape_def unique_pages_def small_pages_def is_frame_occupied_def
        free_entry_def frame_count_def take_replicate min_def)
  then show "mem_inv cfg m"
    using cache_init_spec [of cfg cmem0 acc0 clk tim] by (simp add: r(2) mem_inv_def coherent_def)
  show "byte_at cfg m PID a = None" by (simp add: byte_at_def page_at_def r(2) e)
  show "freeFrameCount (mram m) = proccessPageCount (mram m)" using ram(2) r(2) by simp
qed

lemma page_at_eq:
  "frame_of (mram m') k = frame_of (mram m) k \<Longrightarrow> proccessPages (mram m') = proccessPages (mram m)
     \<Longrightarrow> page_at cfg m' k = page_at cfg m k"
  by (simp add: page_at_def)

lemma program_end_spec:
  assumes "mem_inv cfg m" "PID \<noteq> -1"
  shows "\<exists>m'. program_end m PID = Inr m' \<and> mem_inv cfg m'
    \<and> (\<forall>P a. byte_at cfg m' P a = (if P = PID then None else byte_at cfg m P a))
    \<and> frame_of (mram m') = (\<lambda>k. if fst k = PID then None else frame_of (mram m) k)"
proof -
  let ?r = "ram_program_end (mram m) PID"
  have inv: "ram_inv cfg (mram m)" "cache_inv cfg (mcache m)" "coherent cfg m"
    using assms(1) by (simp_all add: mem_inv_def)
  note r = ram_program_end_spec [OF inv(1) assms(2)]
  obtain c where c: "cache_program_end (mcache m) PID = Inr c" "cache_inv cfg c"
      "cached_at c = (\<lambda>k. if fst k = PID then None else cached_at (mcache m) k)"
      "cacheContent c = cacheContent (mcache m)"
    using cache_program_end_spec [OF inv(2) assms(2)] by blast
  let ?m = "\<lparr>mram = ?r, mcache = c\<rparr>"
  have pa: "page_at cfg ?m k = (if fst k = PID then None else page_at cfg m k)" for k
    by (simp add: page_at_def r(2,3))
  have "coherent cfg ?m"
    using inv(3) by (simp add: coherent_def pa c(3,4) del: split_paired_All)
  then show ?thesis
    using c r by (intro exI [of _ ?m]) (simp add: program_end_def mem_inv_def byte_at_def pa)
qed

text \<open>New frames disturb nothing that is mapped already.\<close>

lemma mem_inv_grow:
  assumes "mem_inv cfg m" "ram_inv cfg r" "frame_of (mram m) \<subseteq>\<^sub>m frame_of r"
    "proccessPages r = proccessPages (mram m)"
  shows "mem_inv cfg (m\<lparr>mram := r\<rparr>)"
    "byte_at cfg m PID a = Some b \<Longrightarrow> byte_at cfg (m\<lparr>mram := r\<rparr>) PID a = Some b"
proof -
  have pa: "page_at cfg (m\<lparr>mram := r\<rparr>) k = Some b" if "page_at cfg m k = Some b" for k b
  proof -
    from that obtain f where f: "frame_of (mram m) k = Some f"
        "b = block (frameSize cfg) (proccessPages (mram m)) f" by (auto simp: page_at_def)
    then have "frame_of r k = Some f" using assms(3) unfolding map_le_def by (metis domI)
    with f assms(4) show ?thesis by (simp add: page_at_def)
  qed
  then show "mem_inv cfg (m\<lparr>mram := r\<rparr>)"
    using assms(1,2) by (simp add: mem_inv_def coherent_def del: split_paired_All)
  show "byte_at cfg (m\<lparr>mram := r\<rparr>) PID a = Some b" if "byte_at cfg m PID a = Some b"
    using that pa by (auto simp: byte_at_def)
qed

text \<open>
  \<open>ram_free_page\<close> leaves the cache alone: coherence survives it exactly when the page is not
  cached.
\<close>

lemma free_page_coherent:
  assumes "mem_inv cfg m" "PID \<noteq> -1" "frame_of (mram m) (PID, page) \<noteq> None"
    "ram_free_page h (mram m) PID page = Inr (q, r)"
  shows "mem_inv cfg (m\<lparr>mram := r\<rparr>) \<longleftrightarrow> cached_at (mcache m) (PID, page) = None"
proof -
  have r: "ram_inv cfg r" "frame_of r = (frame_of (mram m))((PID, page) := None)"
      "proccessPages r = proccessPages (mram m)"
    using ram_free_page_spec [of cfg "mram m" PID h page] assms by (auto simp: mem_inv_def)
  have pa: "page_at cfg (m\<lparr>mram := r\<rparr>) k = (if k = (PID, page) then None else page_at cfg m k)" for k
    by (simp add: page_at_def r(2,3))
  have "coherent cfg (m\<lparr>mram := r\<rparr>) \<longleftrightarrow> cached_at (mcache m) (PID, page) = None"
    using assms(1) by (auto simp: coherent_def pa mem_inv_def simp del: split_paired_All split_paired_Ex
        split: if_splits)
  then show ?thesis using r(1) assms(1) by (simp add: mem_inv_def)
qed

lemma read_page_hit:
  assumes "mem_inv cfg m" "PID \<noteq> -1" "cached_at (mcache m) (PID, page) = Some i"
    "0 \<le> off" "0 \<le> n" "off + n \<le> int (frameSize cfg)"
  shows "\<exists>m'. read_page cfg h (m\<lparr>mram := r\<rparr>) PID page off n
    = Inr (map_option (peek (nat off) (nat n)) (page_at cfg m (PID, page)), m')"
proof -
  note c = cached_page [OF assms(1,3)]
  from mem_get_block [OF c(1,2) assms(4-6)] show ?thesis
    by (simp add: read_page_def cache_search_eq [OF assms(2)] assms(3) c(3))
qed

lemma freed_page_read:
  assumes inv: "mem_inv cfg m" and PID: "PID \<noteq> -1" and hit: "cached_at (mcache m) (PID, page) = Some i"
    and free: "ram_free_page h (mram m) PID page = Inr (q, r)"
  shows "byte_at cfg (m\<lparr>mram := r\<rparr>) PID (page * int (frameSize cfg)) = None"
    and "\<exists>b m'. page_at cfg m (PID, page) = Some b
      \<and> memory_read cfg h (m\<lparr>mram := r\<rparr>) PID page 0 (int (frameSize cfg)) = Inr (Some b, m')"
proof -
  have ri: "ram_inv cfg (mram m)" using inv by (simp add: mem_inv_def)
  then have fs: "0 < frameSize cfg" by (simp add: ram_inv_def ram_shape_def)
  have "frame_of r = (frame_of (mram m))((PID, page) := None)"
    using ram_free_page_spec [OF ri PID, of h page] free by auto
  then show "byte_at cfg (m\<lparr>mram := r\<rparr>) PID (page * int (frameSize cfg)) = None"
    using byte_at_in_page [of 0 cfg "m\<lparr>mram := r\<rparr>" PID page] fs by (simp add: page_at_def)
  obtain b where b: "page_at cfg m (PID, page) = Some b" using cached_page(3) [OF inv hit] by blast
  have "peek 0 (frameSize cfg) b = b" using page_at_length [OF ri b] peek_all [of b] by simp
  moreover obtain m' where "read_page cfg h (m\<lparr>mram := r\<rparr>) PID page 0 (int (frameSize cfg))
      = Inr (map_option (peek 0 (frameSize cfg)) (page_at cfg m (PID, page)), m')"
    using read_page_hit [OF inv PID hit, of 0 "int (frameSize cfg)" h r] by auto
  ultimately have "read_page cfg h (m\<lparr>mram := r\<rparr>) PID page 0 (int (frameSize cfg)) = Inr (Some b, m')"
    using b by simp
  then show "\<exists>b m'. page_at cfg m (PID, page) = Some b
      \<and> memory_read cfg h (m\<lparr>mram := r\<rparr>) PID page 0 (int (frameSize cfg)) = Inr (Some b, m')"
    using fs b by (simp add: memory_read_def memory_read_loop.simps currentPageSize_def)
qed

end
