(* ===== verification/Memory_Server.thy ===== *)
theory Memory_Server
  imports Memory_Ops Sockets
begin

text \<open>
  The request side of the Memory process: \<open>Memory/src/threads/handlers.c\<close> and \<open>request.c\<close>.
  Each client has a thread that reads commands from its socket and runs their handlers; a
  handler receives its arguments, does the operation and sends the result. Here one thread runs
  alone: the interleaving of the threads inside an operation is not modelled.

  A handler returns the C result (negative: the thread ends), the memory and the socket.
\<close>

type_synonym handler = "mem \<Rightarrow> sock \<Rightarrow> fault + int \<times> mem \<times> sock"

subsection \<open>\<open>handlers.c\<close>\<close>

definition handle_page_request ::
    "(ram \<Rightarrow> int \<Rightarrow> nat \<Rightarrow> fault + int \<times> ram) \<Rightarrow> handler" where
  "handle_page_request page_request_handler m s =
     (case socket_recv_int s of (n1, PID, s1) \<Rightarrow>
      if n1 \<le> 0 then Inr (-1, m, s1)
      else case socket_recv_int s1 of (n2, pageCount, s2) \<Rightarrow>
      if n2 \<le> 0 then Inr (-1, m, s2)
      else case page_request_handler (mram m) PID (size_t_of_int pageCount) of
             Inl e \<Rightarrow> Inl e
           | Inr (success, r) \<Rightarrow>
               (case socket_send_int s2 success of (_, s3) \<Rightarrow> Inr (0, m\<lparr>mram := r\<rparr>, s3)))"

definition handle_init :: "hash_function \<Rightarrow> handler" where
  "handle_init h = handle_page_request (ram_program_init h)"

definition handle_get_pages :: "hash_function \<Rightarrow> handler" where
  "handle_get_pages h = handle_page_request (ram_get_pages h)"

definition handle_free_page :: "hash_function \<Rightarrow> handler" where
  "handle_free_page h m s =
     (case socket_recv_int s of (n1, PID, s1) \<Rightarrow>
      if n1 \<le> 0 then Inr (-1, m, s1)
      else case socket_recv_int s1 of (n2, page, s2) \<Rightarrow>
      if n2 \<le> 0 then Inr (-1, m, s2)
      else case ram_free_page h (mram m) PID page of
             Inl e \<Rightarrow> Inl e
           | Inr (success, r) \<Rightarrow>
               (case socket_send_int s2 success of (nBytes, s3) \<Rightarrow>
                Inr (if nBytes \<le> 0 then -1 else 0, m\<lparr>mram := r\<rparr>, s3)))"

definition handle_end :: handler where
  "handle_end m s =
     (case socket_recv_int s of (n1, PID, s1) \<Rightarrow>
      if n1 \<le> 0 then Inr (-1, m, s1)
      else case program_end m PID of
             Inl e \<Rightarrow> Inl e
           | Inr m' \<Rightarrow> Inr (0, m', s1))"

definition handle_read :: "t_memory \<Rightarrow> hash_function \<Rightarrow> handler" where
  "handle_read cfg h m s =
     (case socket_recv_int s of (n1, PID, s1) \<Rightarrow>
      if n1 \<le> 0 then Inr (-1, m, s1)
      else case socket_recv_int s1 of (n2, page, s2) \<Rightarrow>
      if n2 \<le> 0 then Inr (-1, m, s2)
      else case socket_recv_int s2 of (n3, offset, s3) \<Rightarrow>
      if n3 \<le> 0 then Inr (-1, m, s3)
      else case socket_recv_int s3 of (n4, sz, s4) \<Rightarrow>
      if n4 \<le> 0 then Inr (-1, m, s4)
      else case memory_read cfg h m PID page offset sz of
             Inl e \<Rightarrow> Inl e
           | Inr (data, m') \<Rightarrow>
               (case socket_send_int s4 (if data = None then -5 else sz) of (n5, s5) \<Rightarrow>
                if n5 \<le> 0 then Inr (-1, m', s5)
                else case data of
                       None \<Rightarrow> Inr (0, m', s5)
                     | Some bs \<Rightarrow>
                         (case socket_send s5 bs of (nBytes, s6) \<Rightarrow>
                          Inr (if nBytes = -1 then -1 else 0, m', s6))))"

definition handle_write :: "t_memory \<Rightarrow> hash_function \<Rightarrow> handler" where
  "handle_write cfg h m s =
     (case socket_recv_int s of (n1, PID, s1) \<Rightarrow>
      if n1 \<le> 0 then Inr (-1, m, s1)
      else case socket_recv_int s1 of (n2, page, s2) \<Rightarrow>
      if n2 \<le> 0 then Inr (-1, m, s2)
      else case socket_recv_int s2 of (n3, offset, s3) \<Rightarrow>
      if n3 \<le> 0 then Inr (-1, m, s3)
      else case socket_recv s3 of
        (sz, None, s4) \<Rightarrow> Inr (-1, m, s4)
      | (sz, Some buffer, s4) \<Rightarrow>
          if sz \<le> 0 then Inr (-1, m, s4)
          else (case memory_write cfg h m PID page offset sz buffer of
             Inl e \<Rightarrow> Inl e
           | Inr (writeResult, m') \<Rightarrow>
               (case socket_send_int s4 writeResult of (nBytes, s5) \<Rightarrow>
                Inr (if nBytes \<le> 0 then -1 else 0, m', s5))))"

definition handle_frame_size :: "t_memory \<Rightarrow> handler" where
  "handle_frame_size cfg m s =
     (case socket_send_int s (int (frameSize cfg)) of (nBytes, s1) \<Rightarrow>
      Inr (if nBytes \<le> 0 then -1 else 0, m, s1))"

subsection \<open>\<open>request.c\<close>\<close>

text \<open>
  The chain of \<open>strcmp\<close>s. \<open>response\<close> is the variable of \<open>socket_thread_requests\<close>: an unknown
  command leaves it as it was, and before the first command it is uninitialised.
\<close>

definition dispatch :: "t_memory \<Rightarrow> hash_function \<Rightarrow> int \<Rightarrow> byte list \<Rightarrow> handler" where
  "dispatch cfg h response command m s =
     (if command = str ''read'' then handle_read cfg h m s
      else if command = str ''write'' then handle_write cfg h m s
      else if command = str ''init'' then handle_init h m s
      else if command = str ''end'' then handle_end m s
      else if command = str ''get_pages'' then handle_get_pages h m s
      else if command = str ''free_page'' then handle_free_page h m s
      else if command = str ''frame_size'' then handle_frame_size cfg m s
      else Inr (response, m, s))"

lemma sys_recv_rx: "sys_recv s n = (b, s') \<Longrightarrow> length (rx s') = length (rx s) - n \<and> length b = min n (length (rx s))"
  by (auto simp: sys_recv_def)

lemma socket_recv_int_rx: "socket_recv_int s = (n, v, s') \<Longrightarrow> length (rx s') \<le> length (rx s)"
  by (auto simp: socket_recv_int_def sys_recv_def split: if_splits)

lemma socket_recv_rx: "socket_recv s = (n, b, s') \<Longrightarrow> length (rx s') \<le> length (rx s)"
  by (auto simp: socket_recv_whole recv_whole_def Let_def split: if_splits)

lemma socket_recv_rx_less:
  "socket_recv s = (n, b, s') \<Longrightarrow> 0 < n \<Longrightarrow> length (rx s') < length (rx s)"
  by (auto simp: socket_recv_whole recv_whole_def Let_def split: if_splits)

lemma socket_send_int_rx: "socket_send_int s v = (n, s') \<Longrightarrow> rx s' = rx s"
  by (auto simp: socket_send_int_def sys_send_def Let_def split: if_splits)

lemma socket_send_rx: "socket_send s v = (n, s') \<Longrightarrow> rx s' = rx s"
  by (auto simp: socket_send_def sys_send_def Let_def split: if_splits)

lemmas socket_rx = socket_send_int_rx socket_send_rx socket_recv_int_rx socket_recv_rx

lemma handle_page_request_rx:
  "handle_page_request f m s = Inr (n, m', s') \<Longrightarrow> length (rx s') \<le> length (rx s)"
  unfolding handle_page_request_def
  by (auto dest!: socket_rx split: prod.splits if_splits sum.splits)

lemma handle_free_page_rx:
  "handle_free_page h m s = Inr (n, m', s') \<Longrightarrow> length (rx s') \<le> length (rx s)"
  unfolding handle_free_page_def
  by (auto dest!: socket_rx split: prod.splits if_splits sum.splits)

lemma handle_end_rx: "handle_end m s = Inr (n, m', s') \<Longrightarrow> length (rx s') \<le> length (rx s)"
  unfolding handle_end_def
  by (auto dest!: socket_rx split: prod.splits if_splits sum.splits)

lemma handle_read_rx: "handle_read cfg h m s = Inr (n, m', s') \<Longrightarrow> length (rx s') \<le> length (rx s)"
  unfolding handle_read_def
  by (auto dest!: socket_rx split: prod.splits if_splits sum.splits option.splits)

lemma handle_write_rx: "handle_write cfg h m s = Inr (n, m', s') \<Longrightarrow> length (rx s') \<le> length (rx s)"
  unfolding handle_write_def
  by (auto dest!: socket_rx split: prod.splits if_splits sum.splits option.splits)

lemma dispatch_rx:
  "dispatch cfg h response command m s = Inr (n, m', s') \<Longrightarrow> length (rx s') \<le> length (rx s)"
  unfolding dispatch_def handle_init_def handle_get_pages_def handle_frame_size_def
  by (auto dest!: handle_page_request_rx handle_free_page_rx handle_end_rx handle_read_rx
      handle_write_rx socket_rx split: if_splits prod.splits)

lemma next_request:
  assumes "dispatch cfg h response command m s = Inr (response', m', s')"
    "socket_recv_string s' = (n, b, s'')"
  shows "length (rx s'') \<le> length (rx s) \<and> (0 < n \<longrightarrow> length (rx s'') < length (rx s))"
  using dispatch_rx [OF assms(1)] socket_recv_rx [of s' n b s''] socket_recv_rx_less [of s' n b s'']
    assms(2) by (auto simp: socket_recv_string_def)

text \<open>
  The \<open>while\<close> of \<open>socket_thread_requests\<close>. The bytes still to come bound the number of
  requests, so it ends when the client closes the connection.
\<close>

function socket_thread_requests ::
    "t_memory \<Rightarrow> hash_function \<Rightarrow> int \<Rightarrow> byte list \<Rightarrow> int \<Rightarrow> mem \<Rightarrow> sock \<Rightarrow> fault + mem \<times> sock" where
  "socket_thread_requests cfg h response command nBytes m s =
     (if nBytes \<le> 0 then Inr (m, s)
      else case dispatch cfg h response command m s of
             Inl e \<Rightarrow> Inl e
           | Inr (response', m', s') \<Rightarrow>
               if response' < 0 then Inr (m', s')
               else case socket_recv_string s' of
                      (nBytes', None, s'') \<Rightarrow> Inr (m', s'')
                    | (nBytes', Some b, s'') \<Rightarrow>
                        socket_thread_requests cfg h response' (cstr b) nBytes' m' s'')"
  by pat_completeness auto
termination
  by (relation "measures [\<lambda>(cfg, h, response, command, nBytes, m, s). length (rx s),
       \<lambda>(cfg, h, response, command, nBytes, m, s). if 0 < nBytes then 1 else 0]")
    (auto dest: next_request [OF _ sym])

declare socket_thread_requests.simps [simp del]

end
