(* ===== verification/Memory_Client.thy ===== *)
theory Memory_Client
  imports Memory_Server
begin

text \<open>
  The clients of the Memory process: \<open>Kernel/src/interface/memory.c\<close> (a mutex around each
  exchange) and \<open>CPU/src/functions/memory.c\<close> (no mutex). A stub sends the command and its
  arguments, then reads the answer; the lemmas show that a stub and the server's handler
  together compute what the operation of the Memory process computes.

  \<open>t_socket\<close> is the Kernel's connection with its mutex. A thread that finds the mutex held by a
  call that will never release it waits for ever: \<open>Deadlock\<close>.
\<close>

record t_socket =
  socket :: sock
  mutex_held :: bool

subsection \<open>Requests\<close>

datatype msg = MStr "byte list" | MInt int | MBlob "byte list"

fun send_msg :: "sock \<Rightarrow> msg \<Rightarrow> int \<times> sock" where
  "send_msg s (MStr c) = socket_send_string s c"
| "send_msg s (MInt v) = socket_send_int s v"
| "send_msg s (MBlob b) = socket_send s b"

text \<open>Sends in a row; a result \<open><= 0\<close> of one ends the stub.\<close>

fun send_all :: "sock \<Rightarrow> msg list \<Rightarrow> bool \<times> sock" where
  "send_all s [] = (True, s)"
| "send_all s (m # ms) =
     (case send_msg s m of (n, s1) \<Rightarrow> if n \<le> 0 then (False, s1) else send_all s1 ms)"

text \<open>
  \<open>body\<close> between \<open>pthread_mutex_lock\<close> and the return; it says whether it unlocked.
\<close>

definition with_memoryServer :: "(sock \<Rightarrow> 'a \<times> bool \<times> sock) \<Rightarrow> t_socket \<Rightarrow> fault + 'a \<times> t_socket" where
  "with_memoryServer body k =
     (if mutex_held k then Inl Deadlock
      else case body (socket k) of
             (a, unlocked, s) \<Rightarrow> Inr (a, \<lparr>socket = s, mutex_held = \<not> unlocked\<rparr>))"

text \<open>The shape that most stubs share: send the request, receive an \<open>int\<close>.\<close>

definition request_int :: "msg list \<Rightarrow> sock \<Rightarrow> int \<times> bool \<times> sock" where
  "request_int ms s =
     (case send_all s ms of
        (False, s1) \<Rightarrow> (-20, True, s1)
      | (True, s1) \<Rightarrow>
          (case socket_recv_int s1 of
             (n, respuesta, s2) \<Rightarrow> if n \<le> 0 then (-20, True, s2) else (respuesta, True, s2)))"

subsection \<open>The Kernel's stubs\<close>

definition k_memory_frame_size :: "t_socket \<Rightarrow> fault + int \<times> t_socket" where
  "k_memory_frame_size = with_memoryServer (request_int [MStr (str ''frame_size'')])"

definition k_memory_init :: "int \<Rightarrow> int \<Rightarrow> t_socket \<Rightarrow> fault + int \<times> t_socket" where
  "k_memory_init PID cantPaginas =
     with_memoryServer (request_int [MStr (str ''init''), MInt PID, MInt cantPaginas])"

definition k_memory_get_pages :: "int \<Rightarrow> int \<Rightarrow> t_socket \<Rightarrow> fault + int \<times> t_socket" where
  "k_memory_get_pages PID cantPaginas =
     with_memoryServer (request_int [MStr (str ''get_pages''), MInt PID, MInt cantPaginas])"

definition k_memory_free_page :: "int \<Rightarrow> int \<Rightarrow> t_socket \<Rightarrow> fault + int \<times> t_socket" where
  "k_memory_free_page PID page =
     with_memoryServer (request_int [MStr (str ''free_page''), MInt PID, MInt page])"

definition k_memory_end_program :: "int \<Rightarrow> t_socket \<Rightarrow> fault + unit \<times> t_socket" where
  "k_memory_end_program PID =
     with_memoryServer (\<lambda>s. case socket_send_string s (str ''end'') of
        (n, s1) \<Rightarrow>
          if n = -1 then ((), True, s1)
          else case socket_send_int s1 PID of (_, s2) \<Rightarrow> ((), True, s2))"

definition k_memory_read ::
    "int \<Rightarrow> int \<Rightarrow> int \<Rightarrow> int \<Rightarrow> t_socket \<Rightarrow> fault + (int \<times> byte list option) \<times> t_socket" where
  "k_memory_read PID page offset sz =
     with_memoryServer (\<lambda>s.
       case send_all s [MStr (str ''read''), MInt PID, MInt page, MInt offset, MInt sz] of
         (False, s1) \<Rightarrow> ((-20, None), True, s1)
       | (True, s1) \<Rightarrow>
           (case socket_recv_int s1 of
              (n, readResult, s2) \<Rightarrow>
                if n \<le> 0 then ((-20, None), True, s2)
                else if readResult \<noteq> sz then ((readResult, None), False, s2)
                else case socket_recv s2 of
                       (nbytes, buffer, s3) \<Rightarrow>
                         if nbytes \<le> 0 then ((-20, buffer), True, s3)
                         else ((nbytes, buffer), True, s3)))"

definition k_memory_write ::
    "int \<Rightarrow> int \<Rightarrow> int \<Rightarrow> byte list \<Rightarrow> t_socket \<Rightarrow> fault + int \<times> t_socket" where
  "k_memory_write PID page offset buffer =
     with_memoryServer (request_int
       [MStr (str ''write''), MInt PID, MInt page, MInt offset, MBlob buffer])"

subsection \<open>The CPU's stubs\<close>

definition cpu_memory_read ::
    "int \<Rightarrow> int \<Rightarrow> int \<Rightarrow> int \<Rightarrow> sock \<Rightarrow> byte list option \<times> sock" where
  "cpu_memory_read PID page offset sz s =
     (case send_all s [MStr (str ''read''), MInt PID, MInt page, MInt offset, MInt sz] of
        (False, s1) \<Rightarrow> (None, s1)
      | (True, s1) \<Rightarrow>
          (case socket_recv_int s1 of
             (n, readResult, s2) \<Rightarrow>
               if n = 4 \<and> readResult = sz
               then (case socket_recv s2 of
                       (nbytes, data, s3) \<Rightarrow> (if nbytes = sz then data else None, s3))
               else (None, s2)))"

definition cpu_memory_write ::
    "int \<Rightarrow> int \<Rightarrow> int \<Rightarrow> byte list \<Rightarrow> sock \<Rightarrow> int \<times> sock" where
  "cpu_memory_write PID page offset buffer s =
     (case send_all s [MStr (str ''write''), MInt PID, MInt page, MInt offset] of
        (False, s1) \<Rightarrow> (-1, s1)
      | (True, s1) \<Rightarrow>
          (case socket_send s1 buffer of
             (n, s2) \<Rightarrow>
               if n = int (length buffer)
               then (case socket_recv_int s2 of
                       (recvResult, writeResult, s3) \<Rightarrow>
                         (if recvResult = -1 then -1 else writeResult, s3))
               else (-1, s2)))"

definition cpu_memory_frame_size :: "sock \<Rightarrow> int \<times> sock" where
  "cpu_memory_frame_size s =
     (case socket_send_string s (str ''frame_size'') of
        (n, s1) \<Rightarrow>
          if n = -1 then (-1, s1)
          else case socket_recv_int s1 of (n', v, s2) \<Rightarrow> (if n' = -1 then -1 else v, s2))"

subsection \<open>The bytes of a request\<close>

fun msg_bytes :: "(nat \<Rightarrow> byte) \<Rightarrow> msg \<Rightarrow> byte list" where
  "msg_bytes junk (MStr c) = blob_frame junk (c @ [0])"
| "msg_bytes junk (MInt v) = int_header junk v"
| "msg_bytes junk (MBlob b) = blob_frame junk b"

definition request_bytes :: "(nat \<Rightarrow> byte) \<Rightarrow> msg list \<Rightarrow> byte list" where
  "request_bytes junk ms = concat (map (msg_bytes junk) ms)"

definition sent :: "sock \<Rightarrow> byte list \<Rightarrow> sock" where
  "sent s bs = s\<lparr>tx := tx s @ bs, room := room s - length bs\<rparr>"

lemma sent_simps [simp]:
  "rx (sent s bs) = rx s" "tx (sent s bs) = tx s @ bs" "room (sent s bs) = room s - length bs"
  "sjunk (sent s bs) = sjunk s" "rjunk (sent s bs) = rjunk s" "crash (sent s bs) = crash s"
  "sent (s\<lparr>rx := r\<rparr>) bs = (sent s bs)\<lparr>rx := r\<rparr>"
  by (simp_all add: sent_def)

lemma sent_sent [simp]: "sent (sent s a) b = sent s (a @ b)"
  by (simp add: sent_def)

lemma sent_nil [simp]: "sent s [] = s"
  by (simp add: sent_def)

lemma request_bytes_simps [simp]:
  "request_bytes junk [] = []"
  "request_bytes junk (m # ms) = msg_bytes junk m @ request_bytes junk ms"
  by (simp_all add: request_bytes_def)

lemma send_int_sent:
  "11 \<le> room s \<Longrightarrow> socket_send_int s v = (4, sent s (int_header (sjunk s) v))"
  by (simp add: socket_send_int_ok sent_def)

lemma send_msg_ok:
  assumes "length (msg_bytes (sjunk s) m) \<le> room s" "m \<noteq> MBlob []"
  shows "\<exists>n > 0. send_msg s m = (n, sent s (msg_bytes (sjunk s) m))"
proof (cases m)
  case (MBlob b)
  with assms show ?thesis by (cases b) (simp_all add: socket_send_ok sent_def)
qed (use assms in \<open>simp_all add: codec sent_def\<close>)

lemma send_all_ok:
  "length (request_bytes (sjunk s) ms) \<le> room s \<Longrightarrow> MBlob [] \<notin> set ms \<Longrightarrow>
     send_all s ms = (True, sent s (request_bytes (sjunk s) ms))"
proof (induction ms arbitrary: s)
  case (Cons m ms)
  from Cons.prems obtain n where "n > 0" "send_msg s m = (n, sent s (msg_bytes (sjunk s) m))"
    using send_msg_ok [of s m] by auto
  with Cons show ?case by simp
qed simp

subsection \<open>What a handler does with a request\<close>

text \<open>The next command of a thread: the \<open>socket_recv_string\<close> and the \<open>strcmp\<close>s.\<close>

definition answer :: "t_memory \<Rightarrow> hash_function \<Rightarrow> int \<Rightarrow> handler" where
  "answer cfg h response m s =
     (case socket_recv_string s of
        (n, None, s1) \<Rightarrow> Inr (n, m, s1)
      | (n, Some b, s1) \<Rightarrow> dispatch cfg h response (cstr b) m s1)"

definition commands :: "string set" where
  "commands = {''read'', ''write'', ''init'', ''end'', ''get_pages'', ''free_page'', ''frame_size''}"

lemma commands_ok: "cmd \<in> commands \<Longrightarrow> 0 \<notin> set (str cmd) \<and> length cmd < 100"
  by (auto simp: commands_def str_def)

lemma answer_command:
  assumes "cmd \<in> commands" "rx s = blob_frame j (str cmd @ [0]) @ rest"
  shows "answer cfg h response m s = dispatch cfg h response (str cmd) m (s\<lparr>rx := rest\<rparr>)"
proof -
  have "socket_recv_string s = (int (length cmd + 1), Some (str cmd @ [0]), s\<lparr>rx := rest\<rparr>)"
    using socket_recv_string_ok [of "str cmd" s j rest] commands_ok [OF assms(1)] assms(2)
    by (simp add: str_def)
  then show ?thesis using commands_ok [OF assms(1)] by (simp add: answer_def)
qed

definition sendable :: "int \<Rightarrow> bool" where
  "sendable v \<longleftrightarrow> - 1000000000 < v \<and> v < 2 ^ 31"

lemma sendable_fits: "sendable v \<Longrightarrow> header_fits v"
  by (simp add: sendable_def header_fits_def)

lemmas recv_int = socket_recv_int_ok [OF sendable_fits]

text \<open>
  A round trip, as a relation between a request \<open>ms\<close>, what the server does (\<open>m\<close> to \<open>m'\<close>) and
  the bytes of its answer: any server thread that finds the request next in its stream does
  exactly that, and goes on with the next command.
\<close>

definition served ::
    "t_memory \<Rightarrow> hash_function \<Rightarrow> mem \<Rightarrow> msg list \<Rightarrow> mem \<Rightarrow> ((nat \<Rightarrow> byte) \<Rightarrow> byte list) \<Rightarrow> bool" where
  "served cfg h m ms m' reply \<longleftrightarrow>
     (\<forall>s j rest response.
        rx s = request_bytes j ms @ rest \<longrightarrow> length (reply (sjunk s)) \<le> room s \<longrightarrow>
        answer cfg h response m s = Inr (0, m', (sent s (reply (sjunk s)))\<lparr>rx := rest\<rparr>))"

lemma str_eq [simp]: "str a = str b \<longleftrightarrow> a = b"
proof -
  have "c = d" if "(of_nat (of_char c) :: byte) = of_nat (of_char d)" for c d :: char
  proof -
    have "(of_char c :: nat) = of_char d"
      using that by (simp add: word_of_nat_eq_iff take_bit_nat_def)
    then show ?thesis by simp
  qed
  then have "inj (\<lambda>c :: char. of_nat (of_char c) :: byte)" by (rule injI)
  then show ?thesis by (simp add: str_def inj_map_eq_map)
qed

lemma command_in:
  "''read'' \<in> commands" "''write'' \<in> commands" "''init'' \<in> commands" "''end'' \<in> commands"
  "''get_pages'' \<in> commands" "''free_page'' \<in> commands" "''frame_size'' \<in> commands"
  by (simp_all add: commands_def)

lemma dispatch_simps:
  "dispatch cfg h r (str ''read'') = handle_read cfg h"
  "dispatch cfg h r (str ''write'') = handle_write cfg h"
  "dispatch cfg h r (str ''init'') = handle_init h"
  "dispatch cfg h r (str ''end'') = handle_end"
  "dispatch cfg h r (str ''get_pages'') = handle_get_pages h"
  "dispatch cfg h r (str ''free_page'') = handle_free_page h"
  "dispatch cfg h r (str ''frame_size'') = handle_frame_size cfg"
  by (simp_all add: dispatch_def fun_eq_iff)

lemma served_pages:
  assumes "f (mram m) PID (size_t_of_int n) = Inr (q, r)" "sendable PID" "sendable n"
    and cmd: "cmd \<in> commands" "\<And>r. dispatch cfg h r (str cmd) = handle_page_request f"
  shows "served cfg h m [MStr (str cmd), MInt PID, MInt n] (m\<lparr>mram := r\<rparr>) (\<lambda>j. int_header j q)"
  unfolding served_def
proof (intro allI impI)
  fix s :: sock and j rest response
  assume rx: "rx s = request_bytes j [MStr (str cmd), MInt PID, MInt n] @ rest"
    and room: "length (int_header (sjunk s) q) \<le> room s"
  show "answer cfg h response m s
      = Inr (0, m\<lparr>mram := r\<rparr>, (sent s (int_header (sjunk s) q))\<lparr>rx := rest\<rparr>)"
    using rx room assms(1)
    by (simp add: answer_command [OF cmd(1)] cmd(2) handle_page_request_def
        recv_int [OF assms(2)] recv_int [OF assms(3)] send_int_sent)
qed

lemma served_init:
  "ram_program_init h (mram m) PID (size_t_of_int n) = Inr (q, r) \<Longrightarrow> sendable PID \<Longrightarrow> sendable n
   \<Longrightarrow> served cfg h m [MStr (str ''init''), MInt PID, MInt n] (m\<lparr>mram := r\<rparr>) (\<lambda>j. int_header j q)"
  by (rule served_pages [where f = "ram_program_init h"])
    (simp_all add: dispatch_simps handle_init_def commands_def)

lemma served_get_pages:
  "ram_get_pages h (mram m) PID (size_t_of_int n) = Inr (q, r) \<Longrightarrow> sendable PID \<Longrightarrow> sendable n
   \<Longrightarrow> served cfg h m [MStr (str ''get_pages''), MInt PID, MInt n] (m\<lparr>mram := r\<rparr>) (\<lambda>j. int_header j q)"
  by (rule served_pages [where f = "ram_get_pages h"])
    (simp_all add: dispatch_simps handle_get_pages_def commands_def)

lemma served_free_page:
  assumes "ram_free_page h (mram m) PID page = Inr (q, r)" "sendable PID" "sendable page"
  shows "served cfg h m [MStr (str ''free_page''), MInt PID, MInt page] (m\<lparr>mram := r\<rparr>)
    (\<lambda>j. int_header j q)"
  unfolding served_def
  using assms
  by (auto simp: answer_command [where cmd = "''free_page''", OF command_in(6)] dispatch_simps
      handle_free_page_def recv_int send_int_sent)

lemma served_end:
  assumes "program_end m PID = Inr m'" "sendable PID"
  shows "served cfg h m [MStr (str ''end''), MInt PID] m' (\<lambda>j. [])"
  unfolding served_def
  using assms
  by (auto simp: answer_command [where cmd = "''end''", OF command_in(4)] dispatch_simps
      handle_end_def recv_int)

lemma served_frame_size:
  "served cfg h m [MStr (str ''frame_size'')] m (\<lambda>j. int_header j (int (frameSize cfg)))"
  unfolding served_def
  by (auto simp: answer_command [where cmd = "''frame_size''", OF command_in(7)] dispatch_simps
      handle_frame_size_def send_int_sent)

definition read_reply :: "int \<Rightarrow> byte list option \<Rightarrow> (nat \<Rightarrow> byte) \<Rightarrow> byte list" where
  "read_reply sz data j =
     (case data of None \<Rightarrow> int_header j (-5) | Some bs \<Rightarrow> int_header j sz @ blob_frame j bs)"

lemma served_read:
  assumes "memory_read cfg h m PID page off sz = Inr (data, m')"
    "sendable PID" "sendable page" "sendable off" "sendable sz"
  shows "served cfg h m [MStr (str ''read''), MInt PID, MInt page, MInt off, MInt sz] m'
    (read_reply sz data)"
  unfolding served_def
  using assms
  by (auto simp: answer_command [where cmd = "''read''", OF command_in(1)] dispatch_simps
      handle_read_def recv_int send_int_sent read_reply_def socket_send_ok
      sent_def split: option.splits)

lemma served_write:
  assumes "memory_write cfg h m PID page off (int (length bs)) bs = Inr (q, m')" "bs \<noteq> []"
    "length bs < 2 ^ 31" "sendable PID" "sendable page" "sendable off"
  shows "served cfg h m [MStr (str ''write''), MInt PID, MInt page, MInt off, MBlob bs] m'
    (\<lambda>j. int_header j q)"
  unfolding served_def
  using assms
  by (auto simp: answer_command [where cmd = "''write''", OF command_in(2)] dispatch_simps
      handle_write_def recv_int send_int_sent socket_recv_ok)

subsection \<open>What a stub makes of the answer\<close>

definition exchanged :: "sock \<Rightarrow> msg list \<Rightarrow> byte list \<Rightarrow> sock" where
  "exchanged s ms rest = (sent s (request_bytes (sjunk s) ms))\<lparr>rx := rest\<rparr>"

definition can_send :: "sock \<Rightarrow> msg list \<Rightarrow> bool" where
  "can_send s ms \<longleftrightarrow> length (request_bytes (sjunk s) ms) \<le> room s \<and> MBlob [] \<notin> set ms"

lemma request_int_ok:
  assumes "can_send s ms" "header_fits q" "rx s = int_header j q @ rest"
  shows "request_int ms s = (q, True, exchanged s ms rest)"
  using assms
  by (simp add: request_int_def send_all_ok socket_recv_int_ok can_send_def exchanged_def)

lemma with_memoryServer_held: "mutex_held k \<Longrightarrow> with_memoryServer body k = Inl Deadlock"
  by (simp add: with_memoryServer_def)

lemma stub_int_ok:
  assumes "\<not> mutex_held k" "can_send (socket k) ms" "header_fits q"
    "rx (socket k) = int_header j q @ rest"
  shows "with_memoryServer (request_int ms) k
    = Inr (q, \<lparr>socket = exchanged (socket k) ms rest, mutex_held = False\<rparr>)"
  using request_int_ok [OF assms(2-4)] assms(1) by (simp add: with_memoryServer_def)

abbreviation read_msgs :: "int \<Rightarrow> int \<Rightarrow> int \<Rightarrow> int \<Rightarrow> msg list" where
  "read_msgs PID page offset sz \<equiv>
     [MStr (str ''read''), MInt PID, MInt page, MInt offset, MInt sz]"

lemma recv_error: "rx s = int_header j (-5) @ rest \<Longrightarrow> socket_recv_int s = (4, -5, s\<lparr>rx := rest\<rparr>)"
  by (rule socket_recv_int_ok) (simp add: header_fits_def)

lemma k_memory_read_ok:
  assumes "\<not> mutex_held k" "can_send (socket k) (read_msgs PID page off sz)"
    "0 < sz" "sendable sz" "\<And>bs. data = Some bs \<Longrightarrow> int (length bs) = sz"
    "rx (socket k) = read_reply sz data j @ rest"
  shows "k_memory_read PID page off sz k
    = Inr (case data of None \<Rightarrow> (-5, None) | Some bs \<Rightarrow> (sz, Some bs),
           \<lparr>socket = exchanged (socket k) (read_msgs PID page off sz) rest,
            mutex_held = (data = None)\<rparr>)"
proof -
  have sa: "send_all (socket k) (read_msgs PID page off sz)
      = (True, sent (socket k) (request_bytes (sjunk (socket k)) (read_msgs PID page off sz)))"
    using assms(2) by (intro send_all_ok) (simp_all add: can_send_def)
  show ?thesis
  proof (cases data)
    case None
    then show ?thesis
      using assms(1,3,6) sa
      by (simp add: k_memory_read_def with_memoryServer_def read_reply_def exchanged_def
          recv_error del: send_all.simps request_bytes_simps)
  next
    case (Some bs)
    with assms(4,5) have "int (length bs) = sz" "length bs < 2 ^ 31" by (auto simp: sendable_def)
    with Some show ?thesis
      using assms(1,3,6) sa recv_int [OF assms(4)]
      by (simp add: k_memory_read_def with_memoryServer_def read_reply_def exchanged_def
          socket_recv_ok del: send_all.simps request_bytes_simps)
  qed
qed

lemma cpu_memory_read_ok:
  assumes "can_send s (read_msgs PID page off sz)"
    "0 < sz" "sendable sz" "\<And>bs. data = Some bs \<Longrightarrow> int (length bs) = sz"
    "rx s = read_reply sz data j @ rest"
  shows "cpu_memory_read PID page off sz s = (data, exchanged s (read_msgs PID page off sz) rest)"
proof -
  have sa: "send_all s (read_msgs PID page off sz)
      = (True, sent s (request_bytes (sjunk s) (read_msgs PID page off sz)))"
    using assms(1) by (intro send_all_ok) (simp_all add: can_send_def)
  show ?thesis
  proof (cases data)
    case None
    then show ?thesis
      using assms(2,5) sa
      by (simp add: cpu_memory_read_def read_reply_def exchanged_def recv_error
          del: send_all.simps request_bytes_simps)
  next
    case (Some bs)
    with assms(3,4) have "int (length bs) = sz" "length bs < 2 ^ 31" by (auto simp: sendable_def)
    with Some show ?thesis
      using assms(2,5) sa recv_int [OF assms(3)]
      by (simp add: cpu_memory_read_def read_reply_def exchanged_def socket_recv_ok
          del: send_all.simps request_bytes_simps)
  qed
qed

subsection \<open>Remote calls compute what the Memory process computes\<close>

lemma bytes_at_length: "bytes_at cfg m PID a n = Some bs \<Longrightarrow> length bs = n"
proof -
  have "those xs = Some ys \<Longrightarrow> length ys = length xs" for xs :: "byte option list" and ys
    by (induction xs arbitrary: ys) (auto split: option.splits)
  then show "bytes_at cfg m PID a n = Some bs \<Longrightarrow> length bs = n"
    unfolding bytes_at_def by (metis length_map length_upt minus_nat.diff_0)
qed

lemma remote_read:
  assumes "mem_inv cfg m" "PID \<noteq> -1" "0 \<le> off" "off < int (frameSize cfg)" "0 < sz"
    "sendable PID" "sendable page" "sendable off" "sendable sz"
  defines "data \<equiv> bytes_at cfg m PID (page * int (frameSize cfg) + off) (nat sz)"
  obtains m' where "served cfg h m (read_msgs PID page off sz) m' (read_reply sz data)"
    "mem_inv cfg m'" "mram m' = mram m"
    "\<And>bs. data = Some bs \<Longrightarrow> int (length bs) = sz"
proof -
  have "0 \<le> sz" using assms(5) by simp
  from memory_read_spec [OF assms(1-4) this, of h page] obtain m' where
    m': "memory_read cfg h m PID page off sz = Inr (data, m')" "mem_inv cfg m'" "mram m' = mram m"
    unfolding data_def by blast
  have "int (length bs) = sz" if "data = Some bs" for bs
    using that assms(5) bytes_at_length unfolding data_def by fastforce
  then show thesis using that m' served_read [OF m'(1) assms(6-9)] by blast
qed

lemma remote_write:
  assumes "mem_inv cfg m" "lru_ready cfg (mcache m)" "PID \<noteq> -1" "0 \<le> off" "off < int (frameSize cfg)"
    "bs \<noteq> []" "length bs < 2 ^ 31" "sendable PID" "sendable page" "sendable off"
  obtains q m' where
    "served cfg h m [MStr (str ''write''), MInt PID, MInt page, MInt off, MBlob bs] m'
       (\<lambda>j. int_header j q)"
    "header_fits q" "written_spec cfg m PID (page * int (frameSize cfg) + off) bs q m'"
proof -
  obtain q m' where w: "memory_write cfg h m PID page off (int (length bs)) bs = Inr (q, m')"
    "written_spec cfg m PID (page * int (frameSize cfg) + off) bs q m'"
    using memory_write_spec [OF assms(1-5)] by blast
  have "q = int (length bs) \<or> q = ERROR_MEMORY"
    using w(2) unfolding written_spec_def by (meson)
  then have "header_fits q" using assms(7) by (auto simp: header_fits_def ERROR_MEMORY_def)
  with w served_write [OF w(1) assms(6-10)] show thesis by (intro that) auto
qed

end
