(* ===== verification/Remote_Memory.thy ===== *)
theory Remote_Memory
  imports Memory_Client
begin

text \<open>
  The Memory process as the Kernel sees it through its stubs when the connection works: each
  call is one operation of the Memory process (theory \<open>Memory_Ops\<close>), with the stub's result
  codes. \<open>rlocked\<close> is the stub mutex left locked: \<open>memory_read\<close> returns without unlocking it when
  the Memory process could not read, and the next call waits for ever. The lemma
  \<open>remote_read_stub\<close> ties this view to the bytes on the wire.
\<close>

record remote =
  rcfg :: t_memory
  rhash :: hash_function
  rmem :: mem
  rlocked :: bool

definition remote_frame_size :: "remote \<Rightarrow> fault + int \<times> remote" where
  "remote_frame_size r = (if rlocked r then Inl Deadlock else Inr (int (frameSize (rcfg r)), r))"

definition remote_init :: "remote \<Rightarrow> int \<Rightarrow> int \<Rightarrow> fault + int \<times> remote" where
  "remote_init r PID cantPaginas =
     (if rlocked r then Inl Deadlock
      else and_then (ram_program_init (rhash r) (mram (rmem r)) PID (size_t_of_int cantPaginas))
        (\<lambda>(q, ram). Inr (q, r\<lparr>rmem := (rmem r)\<lparr>mram := ram\<rparr>\<rparr>)))"

definition remote_get_pages :: "remote \<Rightarrow> int \<Rightarrow> int \<Rightarrow> fault + int \<times> remote" where
  "remote_get_pages r PID cantPaginas =
     (if rlocked r then Inl Deadlock
      else and_then (ram_get_pages (rhash r) (mram (rmem r)) PID (size_t_of_int cantPaginas))
        (\<lambda>(q, ram). Inr (q, r\<lparr>rmem := (rmem r)\<lparr>mram := ram\<rparr>\<rparr>)))"

definition remote_free_page :: "remote \<Rightarrow> int \<Rightarrow> int \<Rightarrow> fault + int \<times> remote" where
  "remote_free_page r PID page =
     (if rlocked r then Inl Deadlock
      else and_then (ram_free_page (rhash r) (mram (rmem r)) PID page)
        (\<lambda>(q, ram). Inr (q, r\<lparr>rmem := (rmem r)\<lparr>mram := ram\<rparr>\<rparr>)))"

definition remote_end_program :: "remote \<Rightarrow> int \<Rightarrow> fault + remote" where
  "remote_end_program r PID =
     (if rlocked r then Inl Deadlock
      else and_then (program_end (rmem r) PID) (\<lambda>m. Inr (r\<lparr>rmem := m\<rparr>)))"

definition remote_read ::
    "remote \<Rightarrow> int \<Rightarrow> int \<Rightarrow> int \<Rightarrow> int \<Rightarrow> fault + (int \<times> byte list option) \<times> remote" where
  "remote_read r PID page offset sz =
     (if rlocked r then Inl Deadlock
      else and_then (memory_read (rcfg r) (rhash r) (rmem r) PID page offset sz) (\<lambda>(data, m).
        case data of
          None \<Rightarrow> Inr ((-5, None), r\<lparr>rmem := m, rlocked := (sz \<noteq> -5)\<rparr>)
        | Some bs \<Rightarrow> Inr ((if sz = 0 then -20 else sz, Some bs), r\<lparr>rmem := m\<rparr>)))"

definition remote_write ::
    "remote \<Rightarrow> int \<Rightarrow> int \<Rightarrow> int \<Rightarrow> byte list \<Rightarrow> fault + int \<times> remote" where
  "remote_write r PID page offset buffer =
     (if rlocked r then Inl Deadlock
      else if buffer = [] then Inr (-20, r)
      else and_then (memory_write (rcfg r) (rhash r) (rmem r) PID page offset
             (int (length buffer)) buffer) (\<lambda>(q, m). Inr (q, r\<lparr>rmem := m\<rparr>)))"

subsection \<open>What the calls do to the bytes of a process\<close>

definition rbyte :: "remote \<Rightarrow> int \<Rightarrow> int \<Rightarrow> byte option" where
  "rbyte r = byte_at (rcfg r) (rmem r)"

definition rbytes :: "remote \<Rightarrow> int \<Rightarrow> int \<Rightarrow> nat \<Rightarrow> byte list option" where
  "rbytes r = bytes_at (rcfg r) (rmem r)"

definition pageSize :: "remote \<Rightarrow> int" where
  "pageSize r = int (frameSize (rcfg r))"

definition remote_ok :: "remote \<Rightarrow> bool" where
  "remote_ok r \<longleftrightarrow> mem_inv (rcfg r) (rmem r) \<and> lru_ready (rcfg r) (mcache (rmem r)) \<and> \<not> rlocked r"

definition same_remote :: "remote \<Rightarrow> remote \<Rightarrow> bool" where
  "same_remote r r' \<longleftrightarrow> rcfg r' = rcfg r \<and> rhash r' = rhash r \<and> mram (rmem r') = mram (rmem r)"

lemma rbytes_rbyte: "rbytes r PID a n = those (map (\<lambda>i. rbyte r PID (a + int i)) [0..<n])"
  by (simp add: rbytes_def rbyte_def bytes_at_def)

lemma rbytes_cong:
  "(\<And>x. a \<le> x \<Longrightarrow> x < a + int n \<Longrightarrow> rbyte r' PID x = rbyte r PID x) \<Longrightarrow>
     rbytes r' PID a n = rbytes r PID a n"
  unfolding rbytes_rbyte by (auto intro!: arg_cong [where f = those])

lemma same_remote_view:
  assumes "same_remote r r'" shows "rbyte r' = rbyte r" "rbytes r' = rbytes r" "pageSize r' = pageSize r"
  using assms
  by (simp_all add: same_remote_def rbyte_def rbytes_def pageSize_def fun_eq_iff byte_at_def bytes_at_def
      page_at_def)

lemma same_remote_refl [simp]: "same_remote r r"
  by (simp add: same_remote_def)

lemma same_remote_trans: "same_remote a b \<Longrightarrow> same_remote b c \<Longrightarrow> same_remote a c"
  by (simp add: same_remote_def)

lemma rbytes_length: "rbytes r PID a n = Some bs \<Longrightarrow> length bs = n"
  unfolding rbytes_def by (rule bytes_at_length)

lemma remote_read_ok:
  assumes "remote_ok r" "PID \<noteq> -1" "0 \<le> off" "off < pageSize r" "0 < n"
    "rbytes r PID (page * pageSize r + off) n = Some bs"
  obtains r' where "remote_read r PID page off (int n) = Inr ((int n, Some bs), r')"
    "remote_ok r'" "same_remote r r'"
proof -
  have "mem_inv (rcfg r) (rmem r)" using assms(1) by (simp add: remote_ok_def)
  from memory_read_spec [OF this assms(2,3), of "int n" "rhash r" page] assms(4) obtain m' where
    "memory_read (rcfg r) (rhash r) (rmem r) PID page off (int n)
       = Inr (bytes_at (rcfg r) (rmem r) PID (page * pageSize r + off) n, m')"
    "mem_inv (rcfg r) m'" "mram m' = mram (rmem r)"
    "lru_ready (rcfg r) (mcache (rmem r)) \<longrightarrow> lru_ready (rcfg r) (mcache m')"
    by (auto simp: pageSize_def)
  then show thesis
    using assms(1,5,6)
    by (intro that [of "r\<lparr>rmem := m'\<rparr>"])
      (auto simp: remote_read_def remote_ok_def same_remote_def rbytes_def)
qed

text \<open>A read that meets an unmapped page fails, and every call after it deadlocks.\<close>

lemma remote_read_fails:
  assumes "remote_ok r" "PID \<noteq> -1" "0 \<le> off" "off < pageSize r" "0 < n"
    "rbytes r PID (page * pageSize r + off) n = None"
  obtains r' where "remote_read r PID page off (int n) = Inr ((-5, None), r')" "rlocked r'"
proof -
  have "mem_inv (rcfg r) (rmem r)" using assms(1) by (simp add: remote_ok_def)
  from memory_read_spec [OF this assms(2,3), of "int n" "rhash r" page] assms(4) obtain m' where
    "memory_read (rcfg r) (rhash r) (rmem r) PID page off (int n)
       = Inr (bytes_at (rcfg r) (rmem r) PID (page * pageSize r + off) n, m')"
    by (auto simp: pageSize_def)
  then show thesis
    using assms(1,5,6)
    by (intro that [of "r\<lparr>rmem := m', rlocked := True\<rparr>"])
      (auto simp: remote_read_def remote_ok_def rbytes_def)
qed

definition stores :: "remote \<Rightarrow> remote \<Rightarrow> int \<Rightarrow> int \<Rightarrow> byte list \<Rightarrow> bool" where
  "stores r r' PID a bs \<longleftrightarrow> rcfg r' = rcfg r \<and> rhash r' = rhash r
     \<and> frame_of (mram (rmem r')) = frame_of (mram (rmem r))
     \<and> (\<forall>P x. rbyte r' P x = (if P = PID \<and> a \<le> x \<and> x < a + int (length bs)
            then Some (bs ! nat (x - a)) else rbyte r P x))"

lemma remote_write_ok:
  assumes "remote_ok r" "PID \<noteq> -1" "0 \<le> off" "off < pageSize r" "bs \<noteq> []"
    "rbytes r PID (page * pageSize r + off) (length bs) \<noteq> None"
  obtains r' where "remote_write r PID page off bs = Inr (int (length bs), r')"
    "remote_ok r'" "stores r r' PID (page * pageSize r + off) bs"
proof -
  let ?m = "rmem r"
  have inv: "mem_inv (rcfg r) ?m" "lru_ready (rcfg r) (mcache ?m)" "\<not> rlocked r"
    using assms(1) by (simp_all add: remote_ok_def)
  have "off < int (frameSize (rcfg r))" using assms(4) by (simp add: pageSize_def)
  from memory_write_spec [OF inv(1,2) assms(2,3) this, of "rhash r" page bs] obtain q m' where
    w: "memory_write (rcfg r) (rhash r) ?m PID page off (int (length bs)) bs = Inr (q, m')"
      "written_spec (rcfg r) ?m PID (page * pageSize r + off) bs q m'"
    unfolding pageSize_def by blast
  then have "q = int (length bs)" "mem_inv (rcfg r) m'" "lru_ready (rcfg r) (mcache m')"
      "write_effect (rcfg r) ?m m' PID (page * pageSize r + off) bs"
      "frame_of (mram m') = frame_of (mram ?m)"
    using assms(6) by (auto simp: written_spec_def rbytes_def)
  with w(1) inv(3) assms(5) show thesis
    by (intro that [of "r\<lparr>rmem := m'\<rparr>"])
      (auto simp: remote_write_def remote_ok_def stores_def rbyte_def write_effect_def)
qed

text \<open>A write that meets an unmapped page is refused, part of the bytes perhaps written.\<close>

lemma remote_write_fails:
  assumes "remote_ok r" "PID \<noteq> -1" "0 \<le> off" "off < pageSize r" "bs \<noteq> []"
    "rbytes r PID (page * pageSize r + off) (length bs) = None"
  obtains r' where "remote_write r PID page off bs = Inr (ERROR_MEMORY, r')"
proof -
  let ?m = "rmem r"
  have inv: "mem_inv (rcfg r) ?m" "lru_ready (rcfg r) (mcache ?m)" "\<not> rlocked r"
    using assms(1) by (simp_all add: remote_ok_def)
  have "off < int (frameSize (rcfg r))" using assms(4) by (simp add: pageSize_def)
  from memory_write_spec [OF inv(1,2) assms(2,3) this, of "rhash r" page bs] obtain q m' where
    w: "memory_write (rcfg r) (rhash r) ?m PID page off (int (length bs)) bs = Inr (q, m')"
      "written_spec (rcfg r) ?m PID (page * pageSize r + off) bs q m'"
    unfolding pageSize_def by blast
  then have "q = ERROR_MEMORY" using assms(6) by (auto simp: written_spec_def rbytes_def)
  with w(1) inv(3) assms(5) show thesis
    by (intro that [of "r\<lparr>rmem := m'\<rparr>"]) (simp add: remote_write_def)
qed

lemma stores_rbytes:
  assumes "stores r r' PID a bs"
  shows "rbytes r' PID a (length bs) = Some bs"
    and "P \<noteq> PID \<or> b + int n \<le> a \<or> a + int (length bs) \<le> b \<Longrightarrow> rbytes r' P b n = rbytes r P b n"
    and "pageSize r' = pageSize r"
proof -
  have "map (\<lambda>i. rbyte r' PID (a + int i)) [0..<length bs] = map (\<lambda>i. Some (bs ! i)) [0..<length bs]"
    using assms by (simp add: stores_def)
  then show "rbytes r' PID a (length bs) = Some bs"
    unfolding rbytes_rbyte by (simp only: those_some map_nth)
  show "rbytes r' P b n = rbytes r P b n" if "P \<noteq> PID \<or> b + int n \<le> a \<or> a + int (length bs) \<le> b"
    using that assms by (intro rbytes_cong) (auto simp: stores_def)
  show "pageSize r' = pageSize r" using assms by (simp add: stores_def pageSize_def)
qed

lemma stores_mapped:
  assumes "stores r r' PID a bs"
  shows "rbytes r' P b n = None \<longleftrightarrow> rbytes r P b n = None"
proof -
  have e: "rcfg r' = rcfg r" "frame_of (mram (rmem r')) = frame_of (mram (rmem r))"
    using assms by (simp_all add: stores_def)
  have "rbyte r' P x = None \<longleftrightarrow> rbyte r P x = None" for x
    by (simp add: rbyte_def byte_at_def page_at_def e)
  then show ?thesis
    unfolding rbytes_rbyte those_None_iff by (auto simp: image_iff eq_commute [of None])
qed

subsection \<open>The view agrees with the wire\<close>

lemma remote_read_stub:
  assumes r: "remote_read r PID page off sz = Inr (res, r')" "0 < sz"
    and "mem_inv (rcfg r) (rmem r)" "PID \<noteq> -1" "0 \<le> off" "off < pageSize r"
    and "sendable PID" "sendable page" "sendable off" "sendable sz"
  obtains reply where
    "served (rcfg r) (rhash r) (rmem r) (read_msgs PID page off sz) (rmem r') reply"
    "\<And>k j rest. \<not> mutex_held k \<Longrightarrow> can_send (socket k) (read_msgs PID page off sz) \<Longrightarrow>
       rx (socket k) = reply j @ rest \<Longrightarrow>
       k_memory_read PID page off sz k
         = Inr (res, \<lparr>socket = exchanged (socket k) (read_msgs PID page off sz) rest,
                      mutex_held = rlocked r'\<rparr>)"
proof -
  obtain data m' where d: "memory_read (rcfg r) (rhash r) (rmem r) PID page off sz = Inr (data, m')"
    and res: "res = (case data of None \<Rightarrow> (-5, None) | Some bs \<Rightarrow> (sz, Some bs))"
    and r': "rmem r' = m'" "rlocked r' = (data = None)"
    using r by (auto simp: remote_read_def and_then_Inr_iff split: if_splits option.splits)
  have "off < int (frameSize (rcfg r))" "0 \<le> sz" using assms(2,6) by (simp_all add: pageSize_def)
  from memory_read_spec [OF assms(3-5) this, of "rhash r" page] d
  have "data = bytes_at (rcfg r) (rmem r) PID (page * int (frameSize (rcfg r)) + off) (nat sz)" by auto
  then have len: "int (length bs) = sz" if "data = Some bs" for bs
    using that bytes_at_length [of "rcfg r" "rmem r" PID _ "nat sz" bs] assms(2) by auto
  show thesis
  proof (rule that [of "read_reply sz data"])
    show "served (rcfg r) (rhash r) (rmem r) (read_msgs PID page off sz) (rmem r') (read_reply sz data)"
      unfolding r'(1) by (rule served_read [OF d assms(7-10)])
  next
    fix k :: t_socket and j rest
    assume "\<not> mutex_held k" "can_send (socket k) (read_msgs PID page off sz)"
      "rx (socket k) = read_reply sz data j @ rest"
    from k_memory_read_ok [OF this(1,2) assms(2,10) len this(3)]
    show "k_memory_read PID page off sz k
         = Inr (res, \<lparr>socket = exchanged (socket k) (read_msgs PID page off sz) rest,
                      mutex_held = rlocked r'\<rparr>)"
      unfolding res r'(2) .
  qed
qed

end
