(* ===== verification/Kernel_Structures.thy ===== *)
theory Kernel_Structures
  imports Process_Control
begin

text \<open>
  The Kernel's own structures, \<open>Kernel/src/commons/structures.h\<close>, and its error codes. A global
  file descriptor is shared by the descriptors of several processes, so \<open>fd_global\<close> is a pointer
  (\<open>ptr\<close>) into the store of theory \<open>Kernel_State\<close>; the other parts of a program are owned by it.
\<close>

type_synonym ptr = nat

record t_stat =
  rafagas :: int
  syscallEjecutadas :: int
  syscallPrivilegiadas :: int
  cantCallAlloc :: int
  cantCallFree :: int
  bytesAlloc :: int
  bytesFree :: int

record t_heap_page =
  hp_page :: int
  hp_freeSpace :: int

record t_fd =
  fd_value :: int
  fd_cursor :: int
  fd_permissions :: cstring
  fd_global :: ptr

record t_global_fd =
  gfd_path :: cstring
  gfd_open :: int

record t_program =
  p_socket :: int
  pcb :: t_pcb
  interruptionCode :: int
  codeSize :: int
  p_code :: "byte list"
  waiting :: int
  waitingReason :: "cstring option"
  fileDescriptors :: "t_fd list"
  incrementalFD :: int
  quantum :: int
  heapPages :: "t_heap_page list"
  stats :: t_stat

record t_cpu =
  cpu_socket :: int
  cpu_program :: "ptr option"
  cpu_disconnected :: int

record t_semaforo =
  sem_nombre :: cstring
  sem_value :: int

record t_sharedVar =
  sv_nombre :: cstring
  sv_value :: int
  sv_locked :: bool   \<comment> \<open>its \<open>mutex\<close>\<close>

record t_kernel =
  cfg_quantum :: int
  algoritmo :: cstring
  grado_multiprog :: int
  semaforos :: "t_semaforo list"
  shared_vars :: "t_sharedVar list"
  stack_size :: int
  quantum_sleep :: int
  ip_fs :: cstring
  ip_memoria :: cstring
  puerto_cpu :: cstring
  puerto_fs :: cstring
  puerto_memoria :: cstring
  puerto_prog :: cstring

subsection \<open>\<open>error_codes.h\<close>\<close>

definition ERROR_NO_RESOURCES :: int where "ERROR_NO_RESOURCES = -1"
definition ERROR_FILE_NO_READ_PERMISION :: int where "ERROR_FILE_NO_READ_PERMISION = -3"
definition ERROR_FILE_NO_WRITE_PERMISION :: int where "ERROR_FILE_NO_WRITE_PERMISION = -4"
definition ERROR_MEMORY_K :: int where "ERROR_MEMORY_K = -5"
definition ERROR_CONSOLE_DISCONNECTED :: int where "ERROR_CONSOLE_DISCONNECTED = -6"
definition ERROR_CONSOLE_FINISH_COMMAND :: int where "ERROR_CONSOLE_FINISH_COMMAND = -7"
definition ERROR_ALLOC_BIGGER_THAN_PAGE_SIZE :: int where "ERROR_ALLOC_BIGGER_THAN_PAGE_SIZE = -8"
definition ERROR_NO_PAGES :: int where "ERROR_NO_PAGES = -9"
definition ERROR_FILE_BAD_DELETE :: int where "ERROR_FILE_BAD_DELETE = -10"
definition ERROR_FD_DOES_NOT_EXIST :: int where "ERROR_FD_DOES_NOT_EXIST = -11"
definition ERROR_FILE_CREATE_PERMISION :: int where "ERROR_FILE_CREATE_PERMISION = -12"
definition ERROR_FS_OPERATION :: int where "ERROR_FS_OPERATION = -13"
definition ERROR_SEM_DOES_NOT_EXIST :: int where "ERROR_SEM_DOES_NOT_EXIST = -14"
definition ERROR_SHARED_VAR_DOES_NOT_EXIST :: int where "ERROR_SHARED_VAR_DOES_NOT_EXIST = -15"
definition ERROR_CPU_DISCONNECTED :: int where "ERROR_CPU_DISCONNECTED = -16"
definition INTERRUPT_KERNEL_CONSOLE :: int where "INTERRUPT_KERNEL_CONSOLE = -17"

end
