(* ===== verification/Heap.thy ===== *)
theory Heap
  imports Remote_Memory Kernel_Structures
begin

text \<open>
  The heap of a process: \<open>Kernel/src/functions/heap.c\<close> and the entry points of
  \<open>Kernel/src/interface/memory.c\<close>. A heap page is tiled by blocks, each an 8-byte
  \<open>t_heapmetadata\<close> (size, \<open>isFree\<close>, three bytes of padding) followed by its bytes, and the Kernel
  reads and writes the metadata in the memory of the process through the stubs. \<open>t_program\<close>
  keeps the heap pages with their free bytes.

  Sizes of blocks are \<open>u_int32_t\<close>; offsets are \<open>int\<close>, cut back to 32 bits where the code adds a
  size to them. The walks end when they reach the page size; a corrupted header can send them
  back for ever (\<open>No_Return\<close>).
\<close>

record t_heapmetadata =
  md_size :: nat
  md_isFree :: bool
  md_pad :: "byte list"

definition sizeof_t_heapmetadata :: int where "sizeof_t_heapmetadata = 8"

definition meta_bytes :: "t_heapmetadata \<Rightarrow> byte list" where
  "meta_bytes md = u32 (md_size md) @ (if md_isFree md then 1 else 0) # md_pad md"

definition meta_of :: "byte list \<Rightarrow> t_heapmetadata" where
  "meta_of bs = \<lparr>md_size = u32_of bs, md_isFree = (bs ! 4 \<noteq> 0), md_pad = take 3 (drop 5 bs)\<rparr>"

text \<open>\<open>memory_read\<close> and \<open>memory_write\<close> of one header.\<close>

definition read_meta :: "remote \<Rightarrow> int \<Rightarrow> int \<Rightarrow> int \<Rightarrow> fault + t_heapmetadata option \<times> remote" where
  "read_meta r PID page offset =
     and_then (remote_read r PID page offset sizeof_t_heapmetadata) (\<lambda>((n, buffer), r').
       Inr (if n = sizeof_t_heapmetadata then map_option meta_of buffer else None, r'))"

definition write_meta :: "remote \<Rightarrow> int \<Rightarrow> int \<Rightarrow> int \<Rightarrow> t_heapmetadata \<Rightarrow> fault + remote" where
  "write_meta r PID page offset md =
     and_then (remote_write r PID page offset (meta_bytes md)) (\<lambda>(n, r').
       if n \<noteq> sizeof_t_heapmetadata then Inl Exit_Failure else Inr r')"

subsection \<open>New pages\<close>

definition heap_max_page_num :: "t_kernel \<Rightarrow> t_program \<Rightarrow> int" where
  "heap_max_page_num config p =
     foldl (\<lambda>m hp. if hp_page hp > m then hp_page hp else m)
       (int (cantPagsCodigo (pcb p)) + stack_size config - 1) (heapPages p)"

definition heap_new_page ::
    "t_kernel \<Rightarrow> t_program \<Rightarrow> remote \<Rightarrow> fault + int \<times> t_program \<times> remote" where
  "heap_new_page config p r =
     and_then (remote_get_pages r (pid (pcb p)) 1) (\<lambda>(resp, r1).
     if resp \<noteq> 0 then Inr (resp, p\<lparr>interruptionCode := resp\<rparr>, r1)
     else let page = heap_max_page_num config p + 1;
              free = pageSize r - sizeof_t_heapmetadata in
       and_then (write_meta r1 (pid (pcb p)) page 0
           \<lparr>md_size = nat free, md_isFree = True, md_pad = [0, 0, 0]\<rparr>) (\<lambda>r2.
       Inr (page, p\<lparr>heapPages := heapPages p @ [\<lparr>hp_page = page, hp_freeSpace = free\<rparr>]\<rparr>, r2)))"

subsection \<open>First fit\<close>

definition fits :: "nat \<Rightarrow> t_heapmetadata \<Rightarrow> bool" where
  "fits sz md \<longleftrightarrow> md_isFree md \<and> (sz = md_size md \<or> sz + 8 \<le> md_size md)"

text \<open>The \<open>while\<close> of \<open>_hasFreeSpace\<close>: the offset of the first block that fits.\<close>

partial_function (option) find_in_page ::
    "remote \<Rightarrow> int \<Rightarrow> int \<Rightarrow> nat \<Rightarrow> int \<Rightarrow> (fault + int option \<times> remote) option" where
  "find_in_page r PID page sz currentOffset =
     (if currentOffset < pageSize r then
        (case read_meta r PID page currentOffset of
           Inl e \<Rightarrow> Some (Inl e)
         | Inr (md, r') \<Rightarrow>
             (case md of
                None \<Rightarrow> Some (Inl Exit_Failure)
              | Some md \<Rightarrow>
                  if fits sz md then Some (Inr (Some currentOffset, r'))
                  else find_in_page r' PID page sz (int_of_wide (currentOffset + int (md_size md) + 8))))
      else Some (Inr (None, r)))"

definition returns :: "(fault + 'a) option \<Rightarrow> fault + 'a" where
  "returns x = (case x of None \<Rightarrow> Inl No_Return | Some y \<Rightarrow> y)"

fun heap_find_pages ::
    "remote \<Rightarrow> int \<Rightarrow> nat \<Rightarrow> t_heap_page list \<Rightarrow> fault + (int \<times> int) option \<times> remote" where
  "heap_find_pages r PID sz [] = Inr (None, r)"
| "heap_find_pages r PID sz (hp # hps) =
     (if hp_freeSpace hp \<ge> int sz then
        and_then (returns (find_in_page r PID (hp_page hp) sz 0)) (\<lambda>(res, r').
        case res of
          Some off \<Rightarrow> Inr (Some (hp_page hp, off), r')
        | None \<Rightarrow> heap_find_pages r' PID sz hps)
      else heap_find_pages r PID sz hps)"

definition heap_find_space_available ::
    "t_program \<Rightarrow> nat \<Rightarrow> remote \<Rightarrow> fault + (int \<times> int) option \<times> remote" where
  "heap_find_space_available p sz r = heap_find_pages r (pid (pcb p)) sz (heapPages p)"

subsection \<open>Merging free blocks\<close>

text \<open>
  The \<open>while\<close> of \<open>heap_defrag\<close>, from the block behind \<open>prev\<close> on. The header of \<open>prev\<close> is
  rewritten where the code computes it to be, \<open>offset - 8 - prev->size\<close> in \<open>size_t\<close> cut to
  \<open>int\<close>. The result is the number of merges, each of which adds 8 to \<open>freeSpace\<close>.
\<close>

partial_function (option) defrag_loop ::
    "remote \<Rightarrow> int \<Rightarrow> int \<Rightarrow> t_heapmetadata \<Rightarrow> int \<Rightarrow> nat \<Rightarrow> (fault + nat \<times> remote) option" where
  "defrag_loop r PID page prev offset merges =
     (if offset < pageSize r then
        (case read_meta r PID page offset of
           Inl e \<Rightarrow> Some (Inl e)
         | Inr (cur, r1) \<Rightarrow>
             (case cur of
                None \<Rightarrow> Some (Inl Exit_Failure)
              | Some cur \<Rightarrow>
                  if md_isFree cur \<and> md_isFree prev then
                    (let offset' = int_of_wide (offset + 8 + int (md_size cur));
                         prev' = prev\<lparr>md_size := (md_size prev + 8 + md_size cur) mod 2 ^ 32\<rparr> in
                     case write_meta r1 PID page (int_of_wide (offset' - 8 - int (md_size prev'))) prev' of
                       Inl e \<Rightarrow> Some (Inl e)
                     | Inr r2 \<Rightarrow> defrag_loop r2 PID page prev' offset' (merges + 1))
                  else defrag_loop r1 PID page cur
                         (int_of_wide (offset + 8 + int (md_size cur))) merges))
      else Some (Inr (merges, r)))"

definition upd_heapPage :: "int \<Rightarrow> (t_heap_page \<Rightarrow> t_heap_page) \<Rightarrow> t_program \<Rightarrow> t_program" where
  "upd_heapPage page f p = p\<lparr>heapPages := upd_first (\<lambda>hp. hp_page hp = page) f (heapPages p)\<rparr>"

definition add_free :: "int \<Rightarrow> t_heap_page \<Rightarrow> t_heap_page" where
  "add_free n hp = hp\<lparr>hp_freeSpace := hp_freeSpace hp + n\<rparr>"

definition find_heapPage :: "int \<Rightarrow> t_program \<Rightarrow> t_heap_page option" where
  "find_heapPage page p = list_find (\<lambda>hp. hp_page hp = page) (heapPages p)"

text \<open>\<open>heapPage\<close> is the first entry of the page, which the callers looked up.\<close>

definition heap_defrag ::
    "t_program \<Rightarrow> int \<Rightarrow> remote \<Rightarrow> fault + t_program \<times> remote" where
  "heap_defrag p page r =
     (case find_heapPage page p of
        None \<Rightarrow> Inl Null_Deref
      | Some _ \<Rightarrow>
          and_then (read_meta r (pid (pcb p)) page 0) (\<lambda>(md, r1).
          case md of
            None \<Rightarrow> Inl Exit_Failure
          | Some prev \<Rightarrow>
              and_then (returns (defrag_loop r1 (pid (pcb p)) page prev
                  (int_of_wide (8 + int (md_size prev))) 0)) (\<lambda>(merges, r2).
              let p1 = upd_heapPage page (add_free (8 * int merges)) p in
              if map_option hp_freeSpace (find_heapPage page p1) = Some (pageSize r - sizeof_t_heapmetadata)
              then and_then (remote_free_page r2 (pid (pcb p)) page) (\<lambda>(resp, r3).
                   Inr (if resp \<noteq> 0 then p1\<lparr>interruptionCode := resp\<rparr> else p1, r3))
              else Inr (p1, r2))))"

subsection \<open>Allocation and release\<close>

definition heap_alloc ::
    "t_program \<Rightarrow> nat \<Rightarrow> int \<Rightarrow> int \<Rightarrow> remote \<Rightarrow> fault + t_program \<times> remote" where
  "heap_alloc p sz page offset r =
     (let PID = pid (pcb p) in
      and_then (read_meta r PID page offset) (\<lambda>(md, r1).
      and_then
        (case md of
           None \<Rightarrow> Inr (p, r1)
         | Some md \<Rightarrow>
             if sz = md_size md then
               and_then (write_meta r1 PID page offset (md\<lparr>md_isFree := False\<rparr>)) (\<lambda>r2.
               if find_heapPage page p = None then Inl Null_Deref
               else Inr (upd_heapPage page (add_free (- int (md_size md))) p, r2))
             else if sz < md_size md then
               and_then (write_meta r1 PID page offset
                   \<lparr>md_size = sz, md_isFree = False, md_pad = [0, 0, 0]\<rparr>) (\<lambda>r2.
               if find_heapPage page p = None then Inl Null_Deref
               else and_then (write_meta r2 PID page (offset + 8 + int sz)
                   (md\<lparr>md_size := nat ((int (md_size md) - int sz - 8) mod 2 ^ 32)\<rparr>)) (\<lambda>r3.
               Inr (upd_heapPage page (add_free (- int sz - 8)) p, r3)))
             else Inl Exit_Failure)
        (\<lambda>(p1, r2). heap_defrag p1 page r2)))"

definition heap_free ::
    "t_program \<Rightarrow> int \<Rightarrow> int \<Rightarrow> remote \<Rightarrow> fault + int \<times> t_program \<times> remote" where
  "heap_free p page offset r =
     (let PID = pid (pcb p) in
      if 0 \<le> offset \<and> offset < sizeof_t_heapmetadata
      then Inr (0, p\<lparr>interruptionCode := ERROR_MEMORY_K\<rparr>, r)
      else and_then (read_meta r PID page (offset - 8)) (\<lambda>(md, r1).
        case md of
          None \<Rightarrow> Inl Exit_Failure
        | Some md \<Rightarrow>
            let p1 = p\<lparr>stats := (stats p)\<lparr>bytesFree := bytesFree (stats p) + int (md_size md)\<rparr>\<rparr> in
            and_then (write_meta r1 PID page (offset - 8) (md\<lparr>md_isFree := True\<rparr>)) (\<lambda>r2.
            if find_heapPage page p1 = None then Inl Null_Deref
            else and_then (heap_defrag (upd_heapPage page (add_free (int (md_size md))) p1) page r2)
              (\<lambda>(p2, r3). Inr (1, p2, r3)))))"

text \<open>
  \<open>memory_heap_alloc\<close>: the guard compares as \<open>size_t\<close>, so it also rejects negative sizes.
\<close>

definition memory_heap_alloc ::
    "t_kernel \<Rightarrow> t_program \<Rightarrow> int \<Rightarrow> remote \<Rightarrow> fault + int \<times> t_program \<times> remote" where
  "memory_heap_alloc config p sz r =
     (if size_t_of_int sz > size_t_of_int (pageSize r - sizeof_t_heapmetadata)
      then Inr (ERROR_ALLOC_BIGGER_THAN_PAGE_SIZE,
                p\<lparr>interruptionCode := ERROR_ALLOC_BIGGER_THAN_PAGE_SIZE\<rparr>, r)
      else and_then (heap_find_space_available p (nat sz) r) (\<lambda>(found, r1).
        case found of
          Some (page, offset) \<Rightarrow>
            and_then (heap_alloc p (nat sz) page offset r1) (\<lambda>(p1, r2).
            Inr (page * pageSize r + offset + sizeof_t_heapmetadata, p1, r2))
        | None \<Rightarrow>
            and_then (heap_new_page config p r1) (\<lambda>(newPageResult, p1, r2).
            if newPageResult < 0
            then Inr (ERROR_NO_PAGES, p1\<lparr>interruptionCode := ERROR_NO_PAGES\<rparr>, r2)
            else and_then (heap_alloc p1 (nat sz) newPageResult 0 r2) (\<lambda>(p2, r3).
              Inr (newPageResult * pageSize r + sizeof_t_heapmetadata, p2, r3)))))"

definition memory_heap_free ::
    "t_program \<Rightarrow> int \<Rightarrow> int \<Rightarrow> remote \<Rightarrow> fault + t_program \<times> remote" where
  "memory_heap_free p page offset r =
     (if find_heapPage page p = None then Inr (p\<lparr>interruptionCode := ERROR_MEMORY_K\<rparr>, r)
      else if offset < 0 \<or> offset > pageSize r - 1
      then Inr (p\<lparr>interruptionCode := ERROR_MEMORY_K\<rparr>, r)
      else and_then (heap_free p page offset r) (\<lambda>(_, p1, r1). Inr (p1, r1)))"

subsection \<open>Headers\<close>

lemma length_meta_bytes [simp]: "length (meta_bytes md) = 5 + length (md_pad md)"
  by (simp add: meta_bytes_def)

lemma meta_round [codec]:
  "md_size md < 2 ^ 32 \<Longrightarrow> length (md_pad md) = 3 \<Longrightarrow> meta_of (meta_bytes md) = md"
  by (simp add: meta_of_def meta_bytes_def u32_round nth_append)

definition header :: "remote \<Rightarrow> int \<Rightarrow> int \<Rightarrow> int \<Rightarrow> t_heapmetadata \<Rightarrow> bool" where
  "header r PID page off md \<longleftrightarrow>
     rbytes r PID (page * pageSize r + off) 8 = Some (meta_bytes md)
     \<and> length (md_pad md) = 3 \<and> md_size md < 2 ^ 31"

definition heap_ready :: "remote \<Rightarrow> int \<Rightarrow> bool" where
  "heap_ready r PID \<longleftrightarrow> remote_ok r \<and> PID \<noteq> -1 \<and> pageSize r < 2 ^ 31"

lemma heap_ready_same: "heap_ready r PID \<Longrightarrow> remote_ok r' \<Longrightarrow> same_remote r r' \<Longrightarrow> heap_ready r' PID"
  by (simp add: heap_ready_def same_remote_view)

lemma read_meta_ok:
  assumes "heap_ready r PID" "header r PID page off md" "0 \<le> off" "off < pageSize r"
  obtains r' where "read_meta r PID page off = Inr (Some md, r')" "remote_ok r'" "same_remote r r'"
proof -
  have h: "rbytes r PID (page * pageSize r + off) 8 = Some (meta_bytes md)"
    and md: "length (md_pad md) = 3" "md_size md < 2 ^ 31"
    using assms(2) by (simp_all add: header_def)
  obtain r' where "remote_read r PID page off (int 8) = Inr ((int 8, Some (meta_bytes md)), r')"
    "remote_ok r'" "same_remote r r'"
    using remote_read_ok [OF _ _ assms(3,4) _ h] assms(1) by (auto simp: heap_ready_def)
  then show thesis
    using md by (intro that [of r']) (simp_all add: read_meta_def sizeof_t_heapmetadata_def meta_round)
qed

lemma write_meta_ok:
  assumes "heap_ready r PID" "0 \<le> off" "off < pageSize r" "length (md_pad md) = 3"
    "rbytes r PID (page * pageSize r + off) 8 \<noteq> None"
  obtains r' where "write_meta r PID page off md = Inr r'" "remote_ok r'"
    "stores r r' PID (page * pageSize r + off) (meta_bytes md)"
proof -
  have "meta_bytes md \<noteq> []" by (simp add: meta_bytes_def)
  moreover have "rbytes r PID (page * pageSize r + off) (length (meta_bytes md)) \<noteq> None"
    using assms(4,5) by simp
  ultimately obtain r' where "remote_write r PID page off (meta_bytes md) = Inr (int (length (meta_bytes md)), r')"
    "remote_ok r'" "stores r r' PID (page * pageSize r + off) (meta_bytes md)"
    using remote_write_ok assms(1-3) unfolding heap_ready_def by metis
  then show thesis
    using assms(4) by (intro that [of r']) (simp_all add: write_meta_def sizeof_t_heapmetadata_def)
qed

lemma header_stored:
  assumes "stores r r' PID (page * pageSize r + off) (meta_bytes md)" "length (md_pad md) = 3"
    "md_size md < 2 ^ 31"
  shows "header r' PID page off md"
  using stores_rbytes(1) [OF assms(1)] stores_rbytes(3) [OF assms(1)] assms(2,3)
  by (simp add: header_def)

lemma header_same: "same_remote r r' \<Longrightarrow> header r' PID page off md = header r PID page off md"
  by (simp add: header_def same_remote_view)

lemma heap_ready_stores:
  "heap_ready r PID \<Longrightarrow> remote_ok r' \<Longrightarrow> stores r r' P a bs \<Longrightarrow> heap_ready r' PID"
  by (simp add: heap_ready_def stores_rbytes(3))

subsection \<open>The tiling of a page\<close>

text \<open>
  \<open>layout r PID page off bl\<close>: from offset \<open>off\<close> to its end the page consists of the blocks \<open>bl\<close>,
  each given by its size and whether it is free.
\<close>

type_synonym blocks = "(nat \<times> bool) list"

fun layout :: "remote \<Rightarrow> int \<Rightarrow> int \<Rightarrow> int \<Rightarrow> blocks \<Rightarrow> bool" where
  "layout r PID page off [] \<longleftrightarrow> off = pageSize r"
| "layout r PID page off ((n, f) # bl) \<longleftrightarrow>
     (\<exists>pad. header r PID page off \<lparr>md_size = n, md_isFree = f, md_pad = pad\<rparr>)
     \<and> layout r PID page (off + 8 + int n) bl"

lemma layout_end: "layout r PID page off bl \<Longrightarrow> off \<le> pageSize r"
  by (induction bl arbitrary: off) fastforce+

lemma layout_Cons_bounds:
  "layout r PID page off ((n, f) # bl) \<Longrightarrow> off + 8 + int n \<le> pageSize r"
  using layout_end by fastforce

lemma layout_same: "same_remote r r' \<Longrightarrow> layout r' PID page off bl = layout r PID page off bl"
  by (induction bl arbitrary: off) (auto simp: header_same same_remote_view)

text \<open>\<open>agree\<close> on the addresses in \<open>S\<close>: the two memories hold the same bytes there.\<close>

definition agree :: "remote \<Rightarrow> remote \<Rightarrow> int \<Rightarrow> int set \<Rightarrow> bool" where
  "agree r r' PID S \<longleftrightarrow> (\<forall>x \<in> S. rbyte r' PID x = rbyte r PID x)"

lemma agree_trans: "agree a b PID S \<Longrightarrow> agree b c PID S \<Longrightarrow> agree a c PID S"
  by (simp add: agree_def)

lemma agree_mono: "agree a b PID S \<Longrightarrow> T \<subseteq> S \<Longrightarrow> agree a b PID T"
  by (auto simp: agree_def)

lemma agree_same: "same_remote r r' \<Longrightarrow> agree r r' PID S"
  by (simp add: agree_def same_remote_view)

lemma agree_stores:
  "stores r r' PID a bs \<Longrightarrow> S \<inter> {a..<a + int (length bs)} = {} \<Longrightarrow> agree r r' PID S"
  by (auto simp: agree_def stores_def)

lemma agree_rbytes:
  assumes "agree r r' PID S" "{a..<a + int n} \<subseteq> S"
  shows "rbytes r' PID a n = rbytes r PID a n"
  by (rule rbytes_cong) (use assms in \<open>auto simp: agree_def\<close>)

lemma layout_agree:
  assumes "agree r r' PID {page * pageSize r + off..<page * pageSize r + pageSize r}"
    "pageSize r' = pageSize r"
  shows "layout r PID page off bl \<Longrightarrow> layout r' PID page off bl"
  using assms
proof (induction bl arbitrary: off)
  case (Cons b bl)
  obtain n f where b: "b = (n, f)" by (cases b)
  let ?a = "page * pageSize r + off"
  have e: "off + 8 + int n \<le> pageSize r" using Cons.prems(1) b layout_Cons_bounds by blast
  have "rbytes r' PID ?a 8 = rbytes r PID ?a 8"
    by (rule agree_rbytes [OF Cons.prems(2)]) (use e in auto)
  then have "header r' PID page off md \<longleftrightarrow> header r PID page off md" for md
    by (simp add: header_def Cons.prems(3))
  moreover have "layout r' PID page (off + 8 + int n) bl"
    using Cons.prems b by (intro Cons.IH) (auto elim!: agree_mono)
  ultimately show ?case using Cons.prems(1) b by auto
qed simp

text \<open>The addresses of the payloads of the blocks in use, the first block starting at \<open>a\<close>.\<close>

fun used_bytes :: "int \<Rightarrow> blocks \<Rightarrow> int set" where
  "used_bytes a [] = {}"
| "used_bytes a ((n, f) # bl) =
     (if f then {} else {a + 8..<a + 8 + int n}) \<union> used_bytes (a + 8 + int n) bl"

lemma used_bytes_above: "x \<in> used_bytes a bl \<Longrightarrow> a + 8 \<le> x"
proof (induction bl arbitrary: a)
  case (Cons b bl)
  obtain n f where b: "b = (n, f)" by (cases b)
  from Cons.prems have "(\<not> f \<and> a + 8 \<le> x) \<or> x \<in> used_bytes (a + 8 + int n) bl"
    by (auto simp: b split: if_splits)
  then show ?case using Cons.IH [of "a + 8 + int n"] by auto
qed simp

fun free_bytes :: "blocks \<Rightarrow> int" where
  "free_bytes [] = 0"
| "free_bytes ((n, f) # bl) = (if f then int n else 0) + free_bytes bl"

fun span :: "blocks \<Rightarrow> int" where
  "span [] = 0"
| "span ((n, f) # bl) = 8 + int n + span bl"

lemma layout_span: "layout r PID page off bl \<Longrightarrow> off + span bl = pageSize r"
proof (induction bl arbitrary: off)
  case (Cons b bl)
  obtain n f where b: "b = (n, f)" by (cases b)
  with Cons.prems have "layout r PID page (off + 8 + int n) bl" by simp
  from Cons.IH [OF this] show ?case by (simp add: b)
qed simp

lemma span_append [simp]: "span (xs @ ys) = span xs + span ys"
  by (induction xs rule: span.induct) auto

lemma free_bytes_append [simp]: "free_bytes (xs @ ys) = free_bytes xs + free_bytes ys"
  by (induction xs rule: free_bytes.induct) auto

lemma span_nonneg: "0 \<le> span bl"
  by (induction bl rule: span.induct) auto

text \<open>The headers of some blocks in a row.\<close>

fun headers :: "remote \<Rightarrow> int \<Rightarrow> int \<Rightarrow> int \<Rightarrow> blocks \<Rightarrow> bool" where
  "headers r PID page off [] \<longleftrightarrow> True"
| "headers r PID page off ((n, f) # bl) \<longleftrightarrow>
     (\<exists>pad. header r PID page off \<lparr>md_size = n, md_isFree = f, md_pad = pad\<rparr>)
     \<and> headers r PID page (off + 8 + int n) bl"

lemma layout_append:
  "layout r PID page off (xs @ ys) \<longleftrightarrow>
     headers r PID page off xs \<and> layout r PID page (off + span xs) ys"
  by (induction xs arbitrary: off rule: span.induct) (auto simp: add.assoc)

lemma headers_agree:
  assumes "agree r r' PID {page * pageSize r + off..<page * pageSize r + off + span bl}"
    "pageSize r' = pageSize r"
  shows "headers r PID page off bl \<Longrightarrow> headers r' PID page off bl"
  using assms
proof (induction bl arbitrary: off)
  case (Cons b bl)
  obtain n f where b: "b = (n, f)" by (cases b)
  let ?a = "page * pageSize r + off"
  have "rbytes r' PID ?a 8 = rbytes r PID ?a 8"
    by (rule agree_rbytes [OF Cons.prems(2)]) (use span_nonneg [of bl] in \<open>auto simp: b\<close>)
  then have "header r' PID page off md \<longleftrightarrow> header r PID page off md" for md
    by (simp add: header_def Cons.prems(3))
  moreover have "headers r' PID page (off + 8 + int n) bl"
    using Cons.prems b by (intro Cons.IH) (auto elim!: agree_mono)
  ultimately show ?case using Cons.prems(1) b by auto
qed simp

subsection \<open>First fit on the tiling\<close>

fun first_fit :: "nat \<Rightarrow> int \<Rightarrow> blocks \<Rightarrow> int option" where
  "first_fit sz off [] = None"
| "first_fit sz off ((n, f) # bl) =
     (if f \<and> (sz = n \<or> sz + 8 \<le> n) then Some off else first_fit sz (off + 8 + int n) bl)"

lemma find_in_page_spec:
  assumes "heap_ready r PID" "layout r PID page off bl" "0 \<le> off"
  obtains r' where "find_in_page r PID page sz off = Some (Inr (first_fit sz off bl, r'))"
    "remote_ok r'" "same_remote r r'"
proof -
  have "\<exists>r'. find_in_page r PID page sz off = Some (Inr (first_fit sz off bl, r'))
      \<and> remote_ok r' \<and> same_remote r r'"
    using assms
  proof (induction bl arbitrary: r off)
    case Nil
    then show ?case by (subst find_in_page.simps) (simp add: heap_ready_def)
  next
    case (Cons b bl)
    obtain n f where b: "b = (n, f)" by (cases b)
    obtain pad where h: "header r PID page off \<lparr>md_size = n, md_isFree = f, md_pad = pad\<rparr>"
      and l: "layout r PID page (off + 8 + int n) bl"
      using Cons.prems(2) b by auto
    have e: "off + 8 + int n \<le> pageSize r" using l layout_end by blast
    then have lt: "off < pageSize r" by linarith
    obtain r1 where r1: "read_meta r PID page off = Inr (Some \<lparr>md_size = n, md_isFree = f, md_pad = pad\<rparr>, r1)"
      "remote_ok r1" "same_remote r r1"
      using read_meta_ok [OF Cons.prems(1) h Cons.prems(3) lt] .
    have w: "int_of_wide (off + int n + 8) = off + 8 + int n"
      using e Cons.prems(1,3) by (subst int_of_wide_id) (auto simp: heap_ready_def)
    show ?case
    proof (cases "f \<and> (sz = n \<or> sz + 8 \<le> n)")
      case True
      then show ?thesis
        using r1 lt by (subst find_in_page.simps) (auto simp: b fits_def)
    next
      case False
      obtain r' where "find_in_page r1 PID page sz (off + 8 + int n)
          = Some (Inr (first_fit sz (off + 8 + int n) bl, r'))" "remote_ok r'" "same_remote r1 r'"
        using Cons.IH [OF heap_ready_same [OF Cons.prems(1) r1(2,3)], of "off + 8 + int n"]
          l Cons.prems(3) by (auto simp: layout_same [OF r1(3)])
      then show ?thesis
        using False r1 lt w same_remote_trans [OF r1(3)]
        by (subst find_in_page.simps) (auto simp: b fits_def)
    qed
  qed
  then show thesis using that by blast
qed

subsection \<open>Edits\<close>

text \<open>
  \<open>edits r r' PID lo hi U\<close>: at most bytes of \<open>PID\<close> in \<open>{lo..<hi} - U\<close> differ, and the page table
  is the same.
\<close>

definition edits :: "remote \<Rightarrow> remote \<Rightarrow> int \<Rightarrow> int \<Rightarrow> int \<Rightarrow> int set \<Rightarrow> bool" where
  "edits r r' PID lo hi U \<longleftrightarrow> rcfg r' = rcfg r \<and> rhash r' = rhash r
     \<and> frame_of (mram (rmem r')) = frame_of (mram (rmem r))
     \<and> (\<forall>P x. P \<noteq> PID \<or> x < lo \<or> hi \<le> x \<or> x \<in> U \<longrightarrow> rbyte r' P x = rbyte r P x)"

lemma edits_same: "same_remote r r' \<Longrightarrow> edits r r' PID lo hi U"
  by (simp add: edits_def same_remote_view) (simp add: same_remote_def)

lemma edits_trans: "edits a b PID lo hi U \<Longrightarrow> edits b c PID lo hi U \<Longrightarrow> edits a c PID lo hi U"
  by (simp add: edits_def)

lemma edits_mono:
  assumes "edits r r' PID lo hi U" "lo' \<le> lo" "hi \<le> hi'"
    "\<And>x. x \<in> V \<Longrightarrow> x < lo \<or> hi \<le> x \<or> x \<in> U"
  shows "edits r r' PID lo' hi' V"
proof -
  have "P \<noteq> PID \<or> x < lo \<or> hi \<le> x \<or> x \<in> U" if "P \<noteq> PID \<or> x < lo' \<or> hi' \<le> x \<or> x \<in> V" for P x
    using that assms(2-4) by force
  with assms(1) show ?thesis unfolding edits_def by blast
qed

lemma edits_stores:
  assumes "stores r r' PID a bs" "lo \<le> a" "a + int (length bs) \<le> hi" "U \<inter> {a..<a + int (length bs)} = {}"
  shows "edits r r' PID lo hi U"
proof -
  have "\<not> (a \<le> x \<and> x < a + int (length bs))" if "x < lo \<or> hi \<le> x \<or> x \<in> U" for x
    using that assms(2-4) by auto
  then show ?thesis using assms(1) by (auto simp: edits_def stores_def)
qed

lemma edits_agree:
  "edits r r' PID lo hi U \<Longrightarrow> (\<And>x. x \<in> S \<Longrightarrow> x < lo \<or> hi \<le> x \<or> x \<in> U) \<Longrightarrow> agree r r' PID S"
  unfolding edits_def agree_def by blast

lemma edits_pageSize: "edits r r' PID lo hi U \<Longrightarrow> pageSize r' = pageSize r"
  by (simp add: edits_def pageSize_def)

lemma edits_ready: "edits r r' PID lo hi U \<Longrightarrow> heap_ready r P \<Longrightarrow> remote_ok r' \<Longrightarrow> heap_ready r' P"
  by (simp add: heap_ready_def edits_pageSize)

lemma edits_mapped_byte: "edits r r' PID lo hi U \<Longrightarrow> rbyte r' P x = None \<longleftrightarrow> rbyte r P x = None"
  by (simp add: edits_def rbyte_def byte_at_def page_at_def)

lemma edits_mapped: "edits r r' PID lo hi U \<Longrightarrow> rbytes r' P b n = None \<longleftrightarrow> rbytes r P b n = None"
  using edits_mapped_byte unfolding rbytes_rbyte those_None_iff
  by (fastforce simp: image_iff eq_commute [of None])

subsection \<open>Merging\<close>

fun coalesce :: "nat \<times> bool \<Rightarrow> blocks \<Rightarrow> blocks" where
  "coalesce p [] = [p]"
| "coalesce (n, f) ((m, g) # bl) =
     (if f \<and> g then coalesce (n + 8 + m, True) bl else (n, f) # coalesce (m, g) bl)"

lemma coalesce_span: "span (coalesce p bl) = span (p # bl)"
  by (induction p bl rule: coalesce.induct) auto

lemma coalesce_free:
  "free_bytes (coalesce p bl)
     = free_bytes (p # bl) + 8 * (1 + int (length bl) - int (length (coalesce p bl)))"
  by (induction p bl rule: coalesce.induct) auto

lemma coalesce_length: "length (coalesce p bl) \<le> 1 + length bl"
  by (induction p bl rule: coalesce.induct) auto

text \<open>No two free blocks in a row.\<close>

fun merged :: "blocks \<Rightarrow> bool" where
  "merged ((n, f) # (m, g) # bl) \<longleftrightarrow> \<not> (f \<and> g) \<and> merged ((m, g) # bl)"
| "merged _ \<longleftrightarrow> True"

lemma coalesce_head: "\<exists>n bl'. coalesce p bl = (n, snd p) # bl'"
  by (induction p bl rule: coalesce.induct) auto

lemma coalesce_merged: "merged (coalesce p bl)"
proof (induction p bl rule: coalesce.induct)
  case (2 n f m g bl)
  obtain k bl' where "coalesce (m, g) bl = (k, g) # bl'" using coalesce_head [of "(m, g)" bl] by auto
  with 2 show ?case by auto
qed simp

lemma coalesce_used: "used_bytes a (coalesce p bl) = used_bytes a (p # bl)"
  by (induction p bl arbitrary: a rule: coalesce.induct) (auto simp: add.assoc)

lemma defrag_loop_spec:
  assumes "heap_ready r PID"
    "header r PID page off \<lparr>md_size = n, md_isFree = f, md_pad = pad\<rparr>"
    "layout r PID page (off + 8 + int n) bl" "0 \<le> off"
  shows "\<exists>r'. defrag_loop r PID page \<lparr>md_size = n, md_isFree = f, md_pad = pad\<rparr> (off + 8 + int n) k
      = Some (Inr (k + (1 + length bl - length (coalesce (n, f) bl)), r'))
    \<and> remote_ok r' \<and> layout r' PID page off (coalesce (n, f) bl)
    \<and> edits r r' PID (page * pageSize r + off) (page * pageSize r + pageSize r)
        (used_bytes (page * pageSize r + off) ((n, f) # bl))"
  using assms
proof (induction bl arbitrary: r off n f pad k)
  case Nil
  then show ?case
    by (subst defrag_loop.simps) (auto simp: heap_ready_def intro!: edits_same)
next
  case (Cons b bl)
  obtain m g where b: "b = (m, g)" by (cases b)
  let ?off = "off + 8 + int n" and ?base = "page * pageSize r"
  obtain pad' where h: "header r PID page ?off \<lparr>md_size = m, md_isFree = g, md_pad = pad'\<rparr>"
    and l: "layout r PID page (?off + 8 + int m) bl"
    using Cons.prems(3) b by auto
  have e: "?off + 8 + int m \<le> pageSize r" using l layout_end by blast
  then have lt: "?off < pageSize r" by linarith
  have small: "pageSize r < 2 ^ 31" using Cons.prems(1) by (simp add: heap_ready_def)
  have padl: "length pad = 3" using Cons.prems(2) by (simp add: header_def)
  have "0 \<le> ?off" using Cons.prems(4) by simp
  obtain r1 where r1: "read_meta r PID page ?off
      = Inr (Some \<lparr>md_size = m, md_isFree = g, md_pad = pad'\<rparr>, r1)" "remote_ok r1" "same_remote r r1"
    using read_meta_ok [OF Cons.prems(1) h \<open>0 \<le> ?off\<close> lt] .
  have ready1: "heap_ready r1 PID" by (rule heap_ready_same [OF Cons.prems(1) r1(2,3)])
  have ps1: "pageSize r1 = pageSize r" by (rule same_remote_view(3) [OF r1(3)])
  have w: "int_of_wide (?off + 8 + int m) = ?off + 8 + int m"
    using e small Cons.prems(4) by (intro int_of_wide_id) linarith+
  have l1: "layout r1 PID page (?off + 8 + int m) bl" using l by (simp add: layout_same [OF r1(3)])
  show ?case
  proof (cases "f \<and> g")
    case True
    define md where "md = \<lparr>md_size = n + 8 + m, md_isFree = True, md_pad = pad\<rparr>"
    have nm: "(n + 8 + m) mod 2 ^ 32 = n + 8 + m" "n + 8 + m < 2 ^ 31"
      using e small Cons.prems(4) by auto
    have at: "int_of_wide (?off + 8 + int m - 8 - int (md_size md)) = off"
    proof -
      have "?off + 8 + int m - 8 - int (md_size md) = off" by (simp add: md_def)
      then show ?thesis using e small Cons.prems(4) by (simp only:) (intro int_of_wide_id; linarith)
    qed
    have mapped: "rbytes r1 PID (page * pageSize r1 + off) 8 \<noteq> None"
      using Cons.prems(2) by (simp add: header_def same_remote_view [OF r1(3)])
    have ltoff: "off < pageSize r1" using e ps1 by linarith
    obtain r2 where r2: "write_meta r1 PID page off md = Inr r2" "remote_ok r2"
      "stores r1 r2 PID (page * pageSize r1 + off) (meta_bytes md)"
      using write_meta_ok [OF ready1 Cons.prems(4) ltoff _ mapped, of md] padl by (auto simp: md_def)
    have h2: "header r2 PID page off md"
      by (rule header_stored [OF r2(3)]) (use nm padl in \<open>simp_all add: md_def\<close>)
    have ed: "edits r1 r2 PID (?base + off) (?base + pageSize r) (used_bytes (?base + off) ((n, f) # b # bl))"
    proof (rule edits_stores [OF r2(3)])
      show "used_bytes (?base + off) ((n, f) # b # bl) \<inter>
          {page * pageSize r1 + off..<page * pageSize r1 + off + int (length (meta_bytes md))} = {}"
        using used_bytes_above [of _ "?base + off" "(n, f) # b # bl"] padl
        by (force simp: ps1 md_def simp del: used_bytes.simps)
    qed (use e padl ps1 in \<open>simp_all add: md_def\<close>)
    have l2: "layout r2 PID page (off + 8 + int (n + 8 + m)) bl"
    proof -
      have "agree r1 r2 PID {page * pageSize r1 + (?off + 8 + int m)..<page * pageSize r1 + pageSize r1}"
        using r2(3) padl by (intro agree_stores) (auto simp: md_def)
      from layout_agree [OF this _ l1] stores_rbytes(3) [OF r2(3)] show ?thesis by (simp add: add.assoc)
    qed
    have ready2: "heap_ready r2 PID" by (rule heap_ready_stores [OF ready1 r2(2,3)])
    have ps2: "pageSize r2 = pageSize r" using stores_rbytes(3) [OF r2(3)] ps1 by simp
    obtain r' where r': "defrag_loop r2 PID page md (off + 8 + int (n + 8 + m)) (Suc k)
        = Some (Inr (Suc k + (1 + length bl - length (coalesce (n + 8 + m, True) bl)), r'))"
      "remote_ok r'" "layout r' PID page off (coalesce (n + 8 + m, True) bl)"
      "edits r2 r' PID (?base + off) (?base + pageSize r) (used_bytes (?base + off) ((n + 8 + m, True) # bl))"
      using Cons.IH [OF ready2 h2 [unfolded md_def] l2 Cons.prems(4), of "Suc k"] by (auto simp: ps2 md_def)
    have "used_bytes (?base + off) ((n + 8 + m, True) # bl) = used_bytes (?base + off) ((n, f) # b # bl)"
      using True b by (simp add: add.assoc)
    then have "edits r r' PID (?base + off) (?base + pageSize r) (used_bytes (?base + off) ((n, f) # b # bl))"
      using edits_trans [OF edits_trans [OF edits_same [OF r1(3)] ed]] r'(4) by simp
    moreover have "defrag_loop r PID page \<lparr>md_size = n, md_isFree = f, md_pad = pad\<rparr> ?off k
        = defrag_loop r2 PID page md (off + 8 + int (n + 8 + m)) (Suc k)"
    proof -
      have "\<lparr>md_size = (n + 8 + m) mod 2 ^ 32, md_isFree = True, md_pad = pad\<rparr> = md"
        using nm by (simp add: md_def)
      moreover have "?off + 8 + int m = off + 8 + int (n + 8 + m)" by simp
      ultimately show ?thesis
        using True lt r1(1) w at r2(1) by (subst defrag_loop.simps) (simp add: Let_def ac_simps)
    qed
    ultimately show ?thesis
      using r' True b coalesce_length [of "(n + 8 + m, True)" bl] by (auto simp: Suc_diff_le)
  next
    case False
    have "header r1 PID page ?off \<lparr>md_size = m, md_isFree = g, md_pad = pad'\<rparr>"
      using h by (simp add: header_same [OF r1(3)])
    from Cons.IH [OF ready1 this l1 \<open>0 \<le> ?off\<close>, of k] obtain r' where
      r': "defrag_loop r1 PID page \<lparr>md_size = m, md_isFree = g, md_pad = pad'\<rparr> (?off + 8 + int m) k
        = Some (Inr (k + (1 + length bl - length (coalesce (m, g) bl)), r'))"
      "remote_ok r'" "layout r' PID page ?off (coalesce (m, g) bl)"
      "edits r1 r' PID (?base + ?off) (?base + pageSize r) (used_bytes (?base + ?off) (b # bl))"
      by (auto simp: ps1 b)
    have ag: "agree r r' PID {..<?base + ?off}"
    proof (rule agree_trans [OF agree_same [OF r1(3)]])
      show "agree r1 r' PID {..<?base + ?off}" using r'(4) by (rule edits_agree) auto
    qed
    have ps': "pageSize r' = pageSize r" using edits_pageSize [OF r'(4)] ps1 by simp
    have "rbytes r' PID (?base + off) 8 = rbytes r PID (?base + off) 8"
      by (rule agree_rbytes [OF ag]) auto
    then have h': "header r' PID page off \<lparr>md_size = n, md_isFree = f, md_pad = pad\<rparr>"
      using Cons.prems(2) by (simp add: header_def ps')
    have "edits r r' PID (?base + off) (?base + pageSize r) (used_bytes (?base + off) ((n, f) # b # bl))"
    proof -
      have "edits r1 r' PID (?base + off) (?base + pageSize r) (used_bytes (?base + off) ((n, f) # b # bl))"
      proof (rule edits_mono [OF r'(4)])
        fix x assume "x \<in> used_bytes (?base + off) ((n, f) # b # bl)"
        then show "x < ?base + ?off \<or> ?base + pageSize r \<le> x \<or> x \<in> used_bytes (?base + ?off) (b # bl)"
          by (auto simp: add.assoc split: if_splits)
      qed auto
      with edits_same [OF r1(3)] show ?thesis by (rule edits_trans)
    qed
    with r' h' False lt r1(1) w b show ?thesis
      by (subst defrag_loop.simps) auto
  qed
qed

subsection \<open>The entry of a page in the program\<close>

definition set_free :: "int \<Rightarrow> t_heap_page \<Rightarrow> t_heap_page" where
  "set_free n hp = hp\<lparr>hp_freeSpace := n\<rparr>"

lemma upd_first_find:
  "List.find P xs = Some x \<Longrightarrow> P (f x) \<Longrightarrow> List.find P (upd_first P f xs) = Some (f x)"
  by (induction xs) (auto split: if_splits)

lemma upd_first_upd_first:
  "(\<And>x. P x \<Longrightarrow> P (f x)) \<Longrightarrow> upd_first P g (upd_first P f xs) = upd_first P (\<lambda>x. g (f x)) xs"
  by (induction xs) auto

lemma upd_first_cong:
  "List.find P xs = Some x \<Longrightarrow> f x = g x \<Longrightarrow> upd_first P f xs = upd_first P g xs"
  by (induction xs) (auto split: if_splits)

lemma find_upd_heapPage:
  assumes "find_heapPage page p = Some hp" "\<And>h. hp_page (f h) = hp_page h"
  shows "find_heapPage page (upd_heapPage page f p) = Some (f hp)"
  using upd_first_find [of "\<lambda>hp. hp_page hp = page" "heapPages p" hp f] assms
    find_in_set [of "\<lambda>hp. hp_page hp = page" "heapPages p" hp]
  by (simp add: find_heapPage_def upd_heapPage_def)

lemma upd_heapPage_twice:
  "(\<And>h. hp_page (f h) = hp_page h) \<Longrightarrow>
     upd_heapPage page g (upd_heapPage page f p) = upd_heapPage page (\<lambda>h. g (f h)) p"
  by (simp add: upd_heapPage_def upd_first_upd_first)

lemma upd_heapPage_set_free:
  assumes "find_heapPage page p = Some hp" "f hp = set_free n hp"
  shows "upd_heapPage page f p = upd_heapPage page (set_free n) p"
  using upd_first_cong [of "\<lambda>hp. hp_page hp = page" "heapPages p" hp f "set_free n"] assms
  by (simp add: find_heapPage_def upd_heapPage_def)

lemma free_keeps_page [simp]:
  "hp_page (add_free k hp) = hp_page hp" "hp_page (set_free k hp) = hp_page hp"
  "hp_freeSpace (add_free k hp) = hp_freeSpace hp + k" "hp_freeSpace (set_free k hp) = k"
  by (simp_all add: add_free_def set_free_def)

lemma upd_heapPage_pcb [simp]:
  "pcb (upd_heapPage page f p) = pcb p" "interruptionCode (upd_heapPage page f p) = interruptionCode p"
  by (simp_all add: upd_heapPage_def)

lemma free_bytes_le: "free_bytes bl + 8 * int (length bl) \<le> span bl"
  by (induction bl rule: span.induct) auto

lemma free_bytes_full:
  assumes "span bl = ps" "bl \<noteq> []" "free_bytes bl = ps - 8" "8 < ps"
  shows "bl = [(nat (ps - 8), True)]"
proof -
  have "length bl \<le> 1" using free_bytes_le [of bl] assms(1,3) by linarith
  with assms(2) obtain n f where "bl = [(n, f)]" by (cases bl) auto
  with assms show ?thesis by (auto split: if_splits)
qed

subsection \<open>\<open>heap_defrag\<close>\<close>

fun coalesced :: "blocks \<Rightarrow> blocks" where
  "coalesced [] = []"
| "coalesced (b # bl) = coalesce b bl"

lemma coalesced_span: "span (coalesced bl) = span bl"
  by (cases bl) (simp_all add: coalesce_span del: span.simps)

lemma coalesced_used: "used_bytes a (coalesced bl) = used_bytes a bl"
  by (cases bl) (simp_all add: coalesce_used del: used_bytes.simps)

lemma coalesced_merged: "merged (coalesced bl)"
  by (cases bl) (simp_all add: coalesce_merged)

lemma coalesce_keeps_used: "(k, False) \<in> set (p # bl) \<Longrightarrow> (k, False) \<in> set (coalesce p bl)"
  by (induction p bl rule: coalesce.induct) (auto split: if_splits)

lemma coalesced_keeps_used: "(k, False) \<in> set bl \<Longrightarrow> (k, False) \<in> set (coalesced bl)"
  using coalesce_keeps_used by (cases bl) (auto simp del: set_simps)

lemma coalesced_nonempty:
  assumes "bl \<noteq> []" shows "coalesced bl \<noteq> []"
proof (cases bl)
  case (Cons b bl0)
  then show ?thesis using coalesce_head [of b bl0] by auto
qed (use assms in simp)

lemma heap_defrag_spec:
  assumes ready: "heap_ready r (pid (pcb p))" and l: "layout r (pid (pcb p)) page 0 bl" "bl \<noteq> []"
    and hp: "find_heapPage page p = Some hp" "hp_freeSpace hp = free_bytes bl"
  obtains r' where "remote_ok r'" "layout r' (pid (pcb p)) page 0 (coalesced bl)"
    "edits r r' (pid (pcb p)) (page * pageSize r) (page * pageSize r + pageSize r)
        (used_bytes (page * pageSize r) bl)"
    "heap_defrag p page r =
      (let p1 = upd_heapPage page (set_free (free_bytes (coalesced bl))) p in
       if free_bytes (coalesced bl) = pageSize r - 8
       then and_then (remote_free_page r' (pid (pcb p)) page) (\<lambda>(resp, r3).
              Inr (if resp \<noteq> 0 then p1\<lparr>interruptionCode := resp\<rparr> else p1, r3))
       else Inr (p1, r'))"
proof -
  let ?PID = "pid (pcb p)"
  obtain n f bl0 where b: "bl = (n, f) # bl0" using l(2) by (cases bl) auto
  obtain pad where h: "header r ?PID page 0 \<lparr>md_size = n, md_isFree = f, md_pad = pad\<rparr>"
    and l0: "layout r ?PID page (0 + 8 + int n) bl0" using l(1) b by auto
  have e: "8 + int n \<le> pageSize r" using layout_end [OF l0] by simp
  then have "0 < pageSize r" by linarith
  then obtain r1 where r1: "read_meta r ?PID page 0
      = Inr (Some \<lparr>md_size = n, md_isFree = f, md_pad = pad\<rparr>, r1)" "remote_ok r1" "same_remote r r1"
    using read_meta_ok [OF ready h, of thesis] by simp
  have h1: "header r1 ?PID page 0 \<lparr>md_size = n, md_isFree = f, md_pad = pad\<rparr>"
    and l1: "layout r1 ?PID page (0 + 8 + int n) bl0" and ps1: "pageSize r1 = pageSize r"
    using h l0 by (simp_all add: header_same [OF r1(3)] layout_same [OF r1(3)] same_remote_view [OF r1(3)])
  obtain r' where r': "defrag_loop r1 ?PID page \<lparr>md_size = n, md_isFree = f, md_pad = pad\<rparr> (8 + int n) 0
      = Some (Inr (1 + length bl0 - length (coalesce (n, f) bl0), r'))"
    "remote_ok r'" "layout r' ?PID page 0 (coalesce (n, f) bl0)"
    "edits r1 r' ?PID (page * pageSize r) (page * pageSize r + pageSize r)
       (used_bytes (page * pageSize r) ((n, f) # bl0))"
    using defrag_loop_spec [OF heap_ready_same [OF ready r1(2,3)] h1 l1, of 0] by (auto simp: ps1)
  let ?k = "1 + length bl0 - length (coalesce (n, f) bl0)"
  have w: "int_of_wide (8 + int n) = 8 + int n"
    using e ready by (intro int_of_wide_id) (auto simp: heap_ready_def)
  have free: "hp_freeSpace hp + 8 * int ?k = free_bytes (coalesced bl)"
    using coalesce_free [of "(n, f)" bl0] coalesce_length [of "(n, f)" bl0] hp(2)
    by (simp add: b of_nat_diff)
  then have u: "upd_heapPage page (add_free (8 * int ?k)) p
      = upd_heapPage page (set_free (free_bytes (coalesced bl))) p"
    by (intro upd_heapPage_set_free [OF hp(1)]) (simp add: add_free_def set_free_def)
  have "find_heapPage page (upd_heapPage page (set_free (free_bytes (coalesced bl))) p)
      = Some (set_free (free_bytes (coalesced bl)) hp)"
    by (rule find_upd_heapPage [OF hp(1)]) simp
  then have "heap_defrag p page r =
      (let p1 = upd_heapPage page (set_free (free_bytes (coalesced bl))) p in
       if free_bytes (coalesced bl) = pageSize r - 8
       then and_then (remote_free_page r' ?PID page) (\<lambda>(resp, r3).
              Inr (if resp \<noteq> 0 then p1\<lparr>interruptionCode := resp\<rparr> else p1, r3))
       else Inr (p1, r'))"
    by (simp only: heap_defrag_def hp(1) option.case r1(1) and_then_simps prod.case
        t_heapmetadata.simps w r'(1) returns_def u Let_def sizeof_t_heapmetadata_def)
      simp
  then show thesis
    using that [of r'] r'(2-4) edits_trans [OF edits_same [OF r1(3)] r'(4)] b by simp
qed

subsection \<open>Allocation\<close>

lemma used_bytes_append:
  "used_bytes a (xs @ ys) = used_bytes a xs \<union> used_bytes (a + span xs) ys"
  by (induction xs arbitrary: a rule: span.induct) (auto simp: add.assoc)

lemma used_bytes_below: "x \<in> used_bytes a bl \<Longrightarrow> x < a + span bl"
proof (induction bl arbitrary: a)
  case (Cons b bl)
  obtain n f where b: "b = (n, f)" by (cases b)
  from Cons.prems have "(\<not> f \<and> x < a + 8 + int n) \<or> x \<in> used_bytes (a + 8 + int n) bl"
    by (auto simp: b split: if_splits)
  then show ?case using Cons.IH [of "a + 8 + int n"] span_nonneg [of bl] by (auto simp: b)
qed simp

text \<open>The free block of \<open>n\<close> bytes after \<open>sz\<close> of them are taken.\<close>

definition take_block :: "nat \<Rightarrow> nat \<Rightarrow> blocks" where
  "take_block n sz = (if sz = n then [(n, False)] else [(sz, False), (n - sz - 8, True)])"

lemma take_block_span: "sz = n \<or> sz + 8 \<le> n \<Longrightarrow> span (take_block n sz) = 8 + int n"
  by (auto simp: take_block_def of_nat_diff)

lemma take_block_used:
  "sz = n \<or> sz + 8 \<le> n \<Longrightarrow> used_bytes a (take_block n sz) = {a + 8..<a + 8 + int sz}"
  by (auto simp: take_block_def)

lemma layout_middle:
  assumes "layout r PID page 0 (xs @ (n, f) # ys)"
  obtains pad where "header r PID page (span xs) \<lparr>md_size = n, md_isFree = f, md_pad = pad\<rparr>"
    "headers r PID page 0 xs" "layout r PID page (span xs + 8 + int n) ys"
    "span xs + 8 + int n \<le> pageSize r" "0 \<le> span xs"
  using assms layout_end span_nonneg [of xs] by (auto simp: layout_append)

text \<open>Rewriting headers inside one block leaves the blocks around it.\<close>

lemma around_edit:
  assumes "edits r r' PID (page * pageSize r + span xs) (page * pageSize r + span xs + k) U"
    "headers r PID page 0 xs" "layout r PID page (span xs + k) ys" "0 \<le> k"
  shows "headers r' PID page 0 xs" "layout r' PID page (span xs + k) ys"
proof -
  note ps = edits_pageSize [OF assms(1)]
  have "agree r r' PID {page * pageSize r + 0..<page * pageSize r + 0 + span xs}"
    using assms(1) by (rule edits_agree) auto
  from headers_agree [OF this ps assms(2)] show "headers r' PID page 0 xs" .
  have "agree r r' PID {page * pageSize r + (span xs + k)..<page * pageSize r + pageSize r}"
    using assms(1) by (rule edits_agree) auto
  from layout_agree [OF this ps assms(3)] show "layout r' PID page (span xs + k) ys" .
qed

lemma write_header_in:
  assumes ready: "heap_ready r PID" and off: "0 \<le> off" "off < pageSize r"
    and md: "length (md_pad md) = 3" "md_size md < 2 ^ 31"
    and mapped: "rbytes r PID (page * pageSize r + off) 8 \<noteq> None"
  obtains r' where "write_meta r PID page off md = Inr r'" "remote_ok r'" "heap_ready r' PID"
    "header r' PID page off md"
    "\<And>lo hi. lo \<le> page * pageSize r + off \<Longrightarrow> page * pageSize r + off + 8 \<le> hi \<Longrightarrow>
       edits r r' PID lo hi (- {page * pageSize r + off..<page * pageSize r + off + 8})"
proof -
  obtain r' where r': "write_meta r PID page off md = Inr r'" "remote_ok r'"
    "stores r r' PID (page * pageSize r + off) (meta_bytes md)"
    using write_meta_ok [OF ready off md(1) mapped] .
  have "edits r r' PID lo hi (- {page * pageSize r + off..<page * pageSize r + off + 8})"
    if "lo \<le> page * pageSize r + off" "page * pageSize r + off + 8 \<le> hi" for lo hi
    using that md(1) by (intro edits_stores [OF r'(3)]) auto
  then show thesis
    using that r'(1,2) heap_ready_stores [OF ready r'(2,3)] header_stored [OF r'(3) md] by blast
qed

lemma page_mapped:
  assumes "\<And>off. 0 \<le> off \<Longrightarrow> off + 8 \<le> pageSize r \<Longrightarrow> rbytes r PID (page * pageSize r + off) 8 \<noteq> None"
    "edits r r' PID lo hi U"
  shows "0 \<le> off \<Longrightarrow> off + 8 \<le> pageSize r \<Longrightarrow> rbytes r' PID (page * pageSize r + off) 8 \<noteq> None"
  using assms edits_mapped by blast

lemma header_maps_page:
  assumes "header r PID page off0 md" "0 \<le> off0" "off0 + 8 \<le> pageSize r" "remote_ok r"
    "0 \<le> off" "off + 8 \<le> pageSize r"
  shows "rbytes r PID (page * pageSize r + off) 8 \<noteq> None"
proof -
  have ri: "ram_inv (rcfg r) (mram (rmem r))" using assms(4) by (simp add: remote_ok_def mem_inv_def)
  have at: "rbytes r PID (page * pageSize r + o') 8
      = map_option (peek (nat o') 8) (page_at (rcfg r) (rmem r) (PID, page))"
    if "0 \<le> o'" "o' + 8 \<le> pageSize r" for o'
    using bytes_at_page [OF ri that(1), of 8 PID page] that by (simp add: rbytes_def pageSize_def)
  from assms(1) have "rbytes r PID (page * pageSize r + off0) 8 \<noteq> None" by (simp add: header_def)
  then show ?thesis using at [OF assms(2,3)] at [OF assms(5,6)] by auto
qed

lemma carve:
  assumes ready: "heap_ready r PID" and l: "layout r PID page 0 (xs @ (n, True) # ys)"
    and h: "header r PID page (span xs) \<lparr>md_size = n, md_isFree = True, md_pad = pad\<rparr>"
    and sz: "sz = n \<or> sz + 8 \<le> n"
  obtains r2 r3 where
    "write_meta r PID page (span xs) (if sz = n then \<lparr>md_size = n, md_isFree = False, md_pad = pad\<rparr>
        else \<lparr>md_size = sz, md_isFree = False, md_pad = [0, 0, 0]\<rparr>) = Inr r2"
    "if sz = n then r3 = r2 else write_meta r2 PID page (span xs + 8 + int sz)
        \<lparr>md_size = n - sz - 8, md_isFree = True, md_pad = pad\<rparr> = Inr r3"
    "heap_ready r3 PID" "layout r3 PID page 0 (xs @ take_block n sz @ ys)"
    "edits r r3 PID (page * pageSize r) (page * pageSize r + pageSize r)
      (used_bytes (page * pageSize r) (xs @ (n, True) # ys))"
proof -
  note finish = that
  let ?base = "page * pageSize r" and ?off = "span xs"
  from l obtain hs: "headers r PID page 0 xs" and lt: "layout r PID page (?off + 8 + int n) ys"
    and e: "?off + 8 + int n \<le> pageSize r" and o: "0 \<le> ?off"
    by (rule layout_middle)
  have small: "pageSize r < 2 ^ 31" and rok: "remote_ok r" using ready by (simp_all add: heap_ready_def)
  have n31: "n < 2 ^ 31" "length pad = 3" using h by (simp_all add: header_def)
  have mapped: "rbytes r PID (?base + x) 8 \<noteq> None" if "0 \<le> x" "x + 8 \<le> pageSize r" for x
    using header_maps_page [OF h o _ rok that] e by simp
  define md where "md = (if sz = n then \<lparr>md_size = n, md_isFree = False, md_pad = pad\<rparr>
        else \<lparr>md_size = sz, md_isFree = False, md_pad = [0, 0, 0]\<rparr>)"
  have md: "length (md_pad md) = 3" "md_size md < 2 ^ 31" using n31 sz by (auto simp: md_def)
  have offlt: "?off < pageSize r" "?off + 8 \<le> pageSize r" using e by linarith+
  obtain r2 where r2: "write_meta r PID page ?off md = Inr r2" "heap_ready r2 PID"
    "header r2 PID page ?off md"
    and ed2: "\<And>lo hi. lo \<le> ?base + ?off \<Longrightarrow> ?base + ?off + 8 \<le> hi \<Longrightarrow>
       edits r r2 PID lo hi (- {?base + ?off..<?base + ?off + 8})"
    using write_header_in [OF ready o offlt(1) md mapped [OF o offlt(2)]] by metis
  note ps2 = edits_pageSize [OF ed2 [OF order_refl order_refl]]
  have U: "used_bytes ?base (xs @ (n, True) # ys) \<subseteq> - {?base + ?off..<?base + ?off + 8 + int n}"
    using used_bytes_above [of _ "?base + ?off + 8 + int n" ys] used_bytes_below [of _ ?base xs]
    by (fastforce simp: used_bytes_append add.assoc)
  have fin: thesis if r3: "heap_ready r3 PID" "headers r3 PID page ?off (take_block n sz)"
      "edits r r3 PID (?base + ?off) (?base + ?off + (8 + int n)) (- {?base + ?off..<?base + ?off + 8 + int n})"
      "if sz = n then r3 = r2 else write_meta r2 PID page (?off + 8 + int sz)
        \<lparr>md_size = n - sz - 8, md_isFree = True, md_pad = pad\<rparr> = Inr r3" for r3
  proof (rule finish [of r2 r3])
    have lt': "layout r PID page (?off + (8 + int n)) ys" using lt by (simp add: add.assoc)
    have "headers r3 PID page 0 xs" "layout r3 PID page (?off + (8 + int n)) ys"
      using around_edit [OF r3(3) hs lt'] by simp_all
    then show "layout r3 PID page 0 (xs @ take_block n sz @ ys)"
      using r3(2) take_block_span [OF sz] by (simp add: layout_append)
    show "edits r r3 PID ?base (?base + pageSize r) (used_bytes ?base (xs @ (n, True) # ys))"
    proof (rule edits_mono [OF r3(3)])
      fix x assume "x \<in> used_bytes ?base (xs @ (n, True) # ys)"
      with U show "x < ?base + ?off \<or> ?base + ?off + (8 + int n) \<le> x
          \<or> x \<in> - {?base + ?off..<?base + ?off + 8 + int n}" by blast
    qed (use o e in linarith)+
  qed (use r2(1) r3(1,4) in \<open>auto simp: md_def\<close>)
  show thesis
  proof (cases "sz = n")
    case True
    show thesis
    proof (rule fin [of r2])
      show "headers r2 PID page ?off (take_block n sz)"
        using r2(3) True by (auto simp: take_block_def md_def)
      have "edits r r2 PID (?base + ?off) (?base + ?off + (8 + int n)) (- {?base + ?off..<?base + ?off + 8})"
        by (rule ed2) auto
      then show "edits r r2 PID (?base + ?off) (?base + ?off + (8 + int n)) (- {?base + ?off..<?base + ?off + 8 + int n})"
        by (rule edits_mono) auto
    qed (use r2(2) True in auto)
  next
    case False
    with sz have sz': "sz + 8 \<le> n" by simp
    let ?off2 = "?off + 8 + int sz"
    define md2 where "md2 = \<lparr>md_size = n - sz - 8, md_isFree = True, md_pad = pad\<rparr>"
    have md2: "length (md_pad md2) = 3" "md_size md2 < 2 ^ 31" using n31 by (auto simp: md2_def)
    have o2: "0 \<le> ?off2" "?off2 + 8 \<le> pageSize r2" "?off2 < pageSize r2"
      using o e sz' ps2 by linarith+
    have "rbytes r2 PID (page * pageSize r2 + ?off2) 8 \<noteq> None"
      using mapped [of ?off2] o2 edits_mapped [OF ed2 [OF order_refl order_refl]] ps2 by simp
    from write_header_in [OF r2(2) o2(1,3) md2 this] obtain r3 where
      r3: "write_meta r2 PID page ?off2 md2 = Inr r3" "heap_ready r3 PID" "header r3 PID page ?off2 md2"
      and ed3: "\<And>lo hi. lo \<le> page * pageSize r2 + ?off2 \<Longrightarrow> page * pageSize r2 + ?off2 + 8 \<le> hi \<Longrightarrow>
       edits r2 r3 PID lo hi (- {page * pageSize r2 + ?off2..<page * pageSize r2 + ?off2 + 8})"
      by metis
    note ps3 = edits_pageSize [OF ed3 [OF order_refl order_refl]]
    show thesis
    proof (rule fin [of r3])
      have "agree r2 r3 PID {?base + ?off..<?base + ?off + 8}"
        using ed3 [OF order_refl order_refl] by (rule edits_agree) (auto simp: ps2)
      then have "rbytes r3 PID (?base + ?off) 8 = rbytes r2 PID (?base + ?off) 8"
        by (rule agree_rbytes) simp
      then have "header r3 PID page ?off md" using r2(3) by (simp add: header_def ps2 ps3)
      then show "headers r3 PID page ?off (take_block n sz)"
        using r3(3) False by (auto simp: take_block_def md_def md2_def)
      have a: "edits r r2 PID (?base + ?off) (?base + ?off + (8 + int n)) (- {?base + ?off..<?base + ?off + 8})"
        by (rule ed2) auto
      have b: "edits r2 r3 PID (?base + ?off) (?base + ?off + (8 + int n))
          (- {page * pageSize r2 + ?off2..<page * pageSize r2 + ?off2 + 8})"
        by (rule ed3) (use sz' ps2 in auto)
      show "edits r r3 PID (?base + ?off) (?base + ?off + (8 + int n)) (- {?base + ?off..<?base + ?off + 8 + int n})"
        by (rule edits_trans [OF edits_mono [OF a] edits_mono [OF b]]) (use sz' ps2 in auto)
    qed (use r3 False in \<open>auto simp: md2_def\<close>)
  qed
qed

lemma heap_alloc_spec:
  assumes ready: "heap_ready r (pid (pcb p))" and ps: "8 < pageSize r"
    and l: "layout r (pid (pcb p)) page 0 (xs @ (n, True) # ys)"
    and hp: "find_heapPage page p = Some hp" "hp_freeSpace hp = free_bytes (xs @ (n, True) # ys)"
    and sz: "sz = n \<or> sz + 8 \<le> n"
  defines "bl' \<equiv> coalesced (xs @ take_block n sz @ ys)"
  obtains r' where "heap_alloc p sz page (span xs) r
      = Inr (upd_heapPage page (set_free (free_bytes bl')) p, r')"
    "remote_ok r'" "layout r' (pid (pcb p)) page 0 bl'"
    "edits r r' (pid (pcb p)) (page * pageSize r) (page * pageSize r + pageSize r)
       (used_bytes (page * pageSize r) (xs @ (n, True) # ys))"
proof -
  let ?PID = "pid (pcb p)" and ?base = "page * pageSize r" and ?off = "span xs"
    and ?bl = "xs @ (n, True) # ys" and ?bl1 = "xs @ take_block n sz @ ys"
  from l obtain pad where h: "header r ?PID page ?off \<lparr>md_size = n, md_isFree = True, md_pad = pad\<rparr>"
    and e: "?off + 8 + int n \<le> pageSize r" and o: "0 \<le> ?off"
    by (rule layout_middle)
  have n31: "n < 2 ^ 31" using h by (simp add: header_def)
  have "?off < pageSize r" using e by linarith
  then obtain r1 where r1: "read_meta r ?PID page ?off
      = Inr (Some \<lparr>md_size = n, md_isFree = True, md_pad = pad\<rparr>, r1)" "remote_ok r1" "same_remote r r1"
    using read_meta_ok [OF ready h o] by metis
  have ps1: "pageSize r1 = pageSize r" by (rule same_remote_view(3) [OF r1(3)])
  have l1: "layout r1 ?PID page 0 ?bl" and h1: "header r1 ?PID page ?off \<lparr>md_size = n, md_isFree = True, md_pad = pad\<rparr>"
    using l h by (simp_all only: layout_same [OF r1(3)] header_same [OF r1(3)])
  obtain r2 r3 where
    w: "write_meta r1 ?PID page ?off (if sz = n then \<lparr>md_size = n, md_isFree = False, md_pad = pad\<rparr>
        else \<lparr>md_size = sz, md_isFree = False, md_pad = [0, 0, 0]\<rparr>) = Inr r2"
      "if sz = n then r3 = r2 else write_meta r2 ?PID page (?off + 8 + int sz)
        \<lparr>md_size = n - sz - 8, md_isFree = True, md_pad = pad\<rparr> = Inr r3"
    and r3: "heap_ready r3 ?PID" "layout r3 ?PID page 0 ?bl1"
      "edits r1 r3 ?PID ?base (?base + pageSize r) (used_bytes ?base ?bl)"
    using carve [OF heap_ready_same [OF ready r1(2,3)] l1 h1 sz] unfolding ps1 by metis
  define p1 where "p1 = upd_heapPage page (add_free (if sz = n then - int n else - int sz - 8)) p"
  have fb: "free_bytes ?bl1 = free_bytes ?bl + (if sz = n then - int n else - int sz - 8)"
    using sz by (auto simp: take_block_def of_nat_diff)
  have "(int n - int sz - 8) mod 4294967296 = int n - int sz - 8" if "sz + 8 \<le> n"
    using that n31 by (intro mod_pos_pos_trivial) auto
  then have md2: "nat ((int n - int sz - 8) mod 4294967296) = n - sz - 8"
      "nat (int n - int sz - 8) = n - sz - 8" if "sz + 8 \<le> n"
    using that by (simp_all add: nat_diff_distrib)
  have step: "heap_alloc p sz page ?off r = heap_defrag p1 page r3"
  proof (cases "sz = n")
    case True
    then show ?thesis
      using r1(1) w hp(1) by (simp add: heap_alloc_def Let_def p1_def)
  next
    case False
    with sz have "sz < n" "sz + 8 \<le> n" by auto
    with False md2 show ?thesis
      using r1(1) w hp(1) by (simp add: heap_alloc_def Let_def p1_def)
  qed
  have p1: "find_heapPage page p1 = Some (add_free (if sz = n then - int n else - int sz - 8) hp)"
    unfolding p1_def by (rule find_upd_heapPage [OF hp(1)]) simp
  have PID1: "pid (pcb p1) = ?PID" by (simp add: p1_def)
  have ps3: "pageSize r3 = pageSize r" using edits_pageSize [OF r3(3)] ps1 by simp
  have ne: "?bl1 \<noteq> []" by (simp add: take_block_def)
  obtain r' where r': "remote_ok r'" "layout r' ?PID page 0 bl'"
    "edits r3 r' ?PID ?base (?base + pageSize r) (used_bytes ?base ?bl1)"
    "heap_defrag p1 page r3 =
      (let p2 = upd_heapPage page (set_free (free_bytes bl')) p1 in
       if free_bytes bl' = pageSize r - 8
       then and_then (remote_free_page r' ?PID page) (\<lambda>(resp, r3).
              Inr (if resp \<noteq> 0 then p2\<lparr>interruptionCode := resp\<rparr> else p2, r3))
       else Inr (p2, r'))"
    using heap_defrag_spec [of r3 p1 page ?bl1 "add_free (if sz = n then - int n else - int sz - 8) hp" thesis, OF _ _ ne p1] r3(1,2) hp(2) fb
    unfolding PID1 ps3 bl'_def by auto
  have notfull: "free_bytes bl' \<noteq> pageSize r - 8"
  proof
    assume f: "free_bytes bl' = pageSize r - 8"
    have "span bl' = pageSize r" using layout_span [OF r'(2)] edits_pageSize [OF r'(3)] ps3 by simp
    moreover have "bl' \<noteq> []" unfolding bl'_def by (rule coalesced_nonempty [OF ne])
    ultimately have b: "bl' = [(nat (pageSize r - 8), True)]" using free_bytes_full f ps by blast
    have "(sz, False) \<in> set ?bl1" by (auto simp: take_block_def)
    then have "(sz, False) \<in> set bl'" unfolding bl'_def by (rule coalesced_keeps_used)
    with b show False by simp
  qed
  have "upd_heapPage page (set_free (free_bytes bl')) p1 = upd_heapPage page (set_free (free_bytes bl')) p"
    unfolding p1_def by (subst upd_heapPage_twice) (simp_all add: add_free_def set_free_def [abs_def])
  then have "heap_alloc p sz page ?off r = Inr (upd_heapPage page (set_free (free_bytes bl')) p, r')"
    using r'(4) notfull step by (simp add: Let_def)
  moreover have "edits r r' ?PID ?base (?base + pageSize r) (used_bytes ?base ?bl)"
  proof -
    have "used_bytes ?base ?bl \<subseteq> used_bytes ?base ?bl1"
      using take_block_span [OF sz] by (auto simp: used_bytes_append add.assoc)
    then have "edits r3 r' ?PID ?base (?base + pageSize r) (used_bytes ?base ?bl)"
      by (intro edits_mono [OF r'(3)]) auto
    then show ?thesis using edits_trans [OF edits_trans [OF edits_same [OF r1(3)] r3(3)]] by blast
  qed
  ultimately show thesis using that r'(1,2) by blast
qed

subsection \<open>Release\<close>

definition count_free :: "nat \<Rightarrow> t_program \<Rightarrow> t_program" where
  "count_free n p = p\<lparr>stats := (stats p)\<lparr>bytesFree := bytesFree (stats p) + int n\<rparr>\<rparr>"

lemma count_free_simps [simp]:
  "pcb (count_free n p) = pcb p" "heapPages (count_free n p) = heapPages p"
  "find_heapPage page (count_free n p) = find_heapPage page p"
  by (simp_all add: count_free_def find_heapPage_def)

lemma heap_free_spec:
  assumes ready: "heap_ready r (pid (pcb p))"
    and l: "layout r (pid (pcb p)) page 0 (xs @ (n, False) # ys)"
    and hp: "find_heapPage page p = Some hp" "hp_freeSpace hp = free_bytes (xs @ (n, False) # ys)"
  defines "bl' \<equiv> coalesced (xs @ (n, True) # ys)"
  obtains r' where "remote_ok r'" "layout r' (pid (pcb p)) page 0 bl'"
    "edits r r' (pid (pcb p)) (page * pageSize r) (page * pageSize r + pageSize r)
       (used_bytes (page * pageSize r) (xs @ (n, True) # ys))"
    "heap_free p page (span xs + 8) r =
      (let p1 = upd_heapPage page (set_free (free_bytes bl')) (count_free n p) in
       if free_bytes bl' = pageSize r - 8
       then and_then (remote_free_page r' (pid (pcb p)) page) (\<lambda>(resp, r3).
              Inr (1, if resp \<noteq> 0 then p1\<lparr>interruptionCode := resp\<rparr> else p1, r3))
       else Inr (1, p1, r'))"
proof -
  note finish = that
  let ?PID = "pid (pcb p)" and ?base = "page * pageSize r" and ?off = "span xs"
    and ?bl1 = "xs @ (n, True) # ys"
  from l obtain pad where h: "header r ?PID page ?off \<lparr>md_size = n, md_isFree = False, md_pad = pad\<rparr>"
    and hs: "headers r ?PID page 0 xs" and lt: "layout r ?PID page (?off + 8 + int n) ys"
    and e: "?off + 8 + int n \<le> pageSize r" and o: "0 \<le> ?off"
    by (rule layout_middle)
  have offlt: "?off < pageSize r" using e by linarith
  obtain r1 where r1: "read_meta r ?PID page ?off
      = Inr (Some \<lparr>md_size = n, md_isFree = False, md_pad = pad\<rparr>, r1)" "remote_ok r1" "same_remote r r1"
    using read_meta_ok [OF ready h o offlt] by metis
  have ps1: "pageSize r1 = pageSize r" by (rule same_remote_view(3) [OF r1(3)])
  define md where "md = \<lparr>md_size = n, md_isFree = True, md_pad = pad\<rparr>"
  have md: "length (md_pad md) = 3" "md_size md < 2 ^ 31" using h by (simp_all add: md_def header_def)
  have mapped: "rbytes r1 ?PID (page * pageSize r1 + ?off) 8 \<noteq> None"
    using h by (simp add: header_def same_remote_view [OF r1(3)])
  obtain r2 where r2: "write_meta r1 ?PID page ?off md = Inr r2" "heap_ready r2 ?PID"
    "header r2 ?PID page ?off md"
    and ed: "\<And>lo hi. lo \<le> ?base + ?off \<Longrightarrow> ?base + ?off + 8 \<le> hi \<Longrightarrow>
       edits r1 r2 ?PID lo hi (- {?base + ?off..<?base + ?off + 8})"
    using write_header_in [OF heap_ready_same [OF ready r1(2,3)] o _ md mapped] offlt
    unfolding ps1 by metis
  have ps2: "pageSize r2 = pageSize r" using edits_pageSize [OF ed [OF order_refl order_refl]] ps1 by simp
  have ed2: "edits r r2 ?PID (?base + ?off) (?base + ?off + (8 + int n)) (- {?base + ?off..<?base + ?off + 8})"
    by (rule edits_trans [OF edits_same [OF r1(3)] ed]) auto
  have lt': "layout r ?PID page (?off + (8 + int n)) ys" using lt by (simp add: add.assoc)
  have l2: "layout r2 ?PID page 0 ?bl1"
    using around_edit [OF ed2 hs lt'] r2(3) by (auto simp: layout_append md_def add.assoc)
  let ?p2 = "upd_heapPage page (add_free (int n)) (count_free n p)"
  have hp2: "find_heapPage page ?p2 = Some (add_free (int n) hp)"
    by (rule find_upd_heapPage) (use hp(1) in simp_all)
  obtain r' where r': "remote_ok r'" "layout r' ?PID page 0 bl'"
    "edits r2 r' ?PID ?base (?base + pageSize r) (used_bytes ?base ?bl1)"
    "heap_defrag ?p2 page r2 =
      (let p1 = upd_heapPage page (set_free (free_bytes bl')) ?p2 in
       if free_bytes bl' = pageSize r - 8
       then and_then (remote_free_page r' ?PID page) (\<lambda>(resp, r3).
              Inr (if resp \<noteq> 0 then p1\<lparr>interruptionCode := resp\<rparr> else p1, r3))
       else Inr (p1, r'))"
    unfolding bl'_def
    by (rule heap_defrag_spec [of r2 ?p2 page ?bl1 "add_free (int n) hp",
          unfolded upd_heapPage_pcb count_free_simps ps2, OF r2(2) l2 _ hp2])
      (use hp(2) in \<open>simp_all del: Let_def\<close>)
  have twice: "upd_heapPage page (set_free (free_bytes bl')) ?p2
      = upd_heapPage page (set_free (free_bytes bl')) (count_free n p)"
    by (subst upd_heapPage_twice) (simp_all add: add_free_def set_free_def [abs_def])
  have step: "heap_free p page (?off + 8) r =
      and_then (heap_defrag ?p2 page r2) (\<lambda>(p2, r3). Inr (1, p2, r3))"
    using o r1(1) r2(1) hp(1)
    by (simp add: heap_free_def Let_def sizeof_t_heapmetadata_def md_def count_free_def find_heapPage_def)
  show thesis
  proof (rule finish [OF r'(1,2)])
    have "edits r r2 ?PID ?base (?base + pageSize r) (used_bytes ?base ?bl1)"
    proof (rule edits_mono [OF ed2])
      fix x assume x: "x \<in> used_bytes ?base ?bl1"
      then have "x < ?base + ?off \<or> ?base + ?off + (8 + int n) \<le> x"
        using used_bytes_above [of _ "?base + ?off + 8 + int n" ys] used_bytes_below [of _ ?base xs]
        by (fastforce simp: used_bytes_append add.assoc)
      then show "x < ?base + ?off \<or> ?base + ?off + (8 + int n) \<le> x
          \<or> x \<in> - {?base + ?off..<?base + ?off + 8}" by blast
    qed (use o e in linarith)+
    then show "edits r r' ?PID ?base (?base + pageSize r) (used_bytes ?base ?bl1)"
      using r'(3) by (rule edits_trans)
    show "heap_free p page (?off + 8) r =
      (let p1 = upd_heapPage page (set_free (free_bytes bl')) (count_free n p) in
       if free_bytes bl' = pageSize r - 8
       then and_then (remote_free_page r' ?PID page) (\<lambda>(resp, r3).
              Inr (1, if resp \<noteq> 0 then p1\<lparr>interruptionCode := resp\<rparr> else p1, r3))
       else Inr (1, p1, r'))"
      unfolding step r'(4) twice by (simp add: Let_def and_then_assoc split_beta')
  qed
qed

subsection \<open>All pages of a process\<close>

definition page_ok :: "remote \<Rightarrow> int \<Rightarrow> t_heap_page \<Rightarrow> blocks \<Rightarrow> bool" where
  "page_ok r PID hp bl \<longleftrightarrow>
     layout r PID (hp_page hp) 0 bl \<and> bl \<noteq> [] \<and> merged bl \<and> hp_freeSpace hp = free_bytes bl"

definition heap_inv :: "t_program \<Rightarrow> remote \<Rightarrow> bool" where
  "heap_inv p r \<longleftrightarrow> heap_ready r (pid (pcb p)) \<and> 8 < pageSize r
     \<and> distinct (map hp_page (heapPages p))
     \<and> (\<forall>hp \<in> set (heapPages p). \<exists>bl. page_ok r (pid (pcb p)) hp bl)"

text \<open>The payloads in use on all pages.\<close>

definition live :: "t_program \<Rightarrow> remote \<Rightarrow> int set" where
  "live p r = {x. \<exists>hp \<in> set (heapPages p). \<exists>bl. layout r (pid (pcb p)) (hp_page hp) 0 bl
      \<and> x \<in> used_bytes (hp_page hp * pageSize r) bl}"

lemma layout_unique:
  "layout r PID page off bl \<Longrightarrow> layout r PID page off bl' \<Longrightarrow> bl' = bl"
proof (induction bl arbitrary: off bl')
  case Nil
  then have "\<not> off + 8 \<le> pageSize r" by simp
  then show ?case using Nil(2) by (cases bl') (auto dest!: layout_Cons_bounds simp del: layout.simps)
next
  case (Cons b bl)
  obtain n f where b: "b = (n, f)" by (cases b)
  have e: "off + 8 + int n \<le> pageSize r" using Cons.prems(1) b layout_Cons_bounds by blast
  show ?case
  proof (cases bl')
    case Nil
    with Cons.prems(2) e show ?thesis by simp
  next
    case (Cons b' bl0)
    obtain n' f' where b': "b' = (n', f')" by (cases b')
    obtain pad pad' where
      h: "header r PID page off \<lparr>md_size = n, md_isFree = f, md_pad = pad\<rparr>"
        "header r PID page off \<lparr>md_size = n', md_isFree = f', md_pad = pad'\<rparr>"
      using Cons.prems b b' \<open>bl' = b' # bl0\<close> by auto
    then have "meta_of (meta_bytes \<lparr>md_size = n, md_isFree = f, md_pad = pad\<rparr>)
        = meta_of (meta_bytes \<lparr>md_size = n', md_isFree = f', md_pad = pad'\<rparr>)"
      by (simp add: header_def)
    moreover have "meta_of (meta_bytes \<lparr>md_size = n, md_isFree = f, md_pad = pad\<rparr>)
        = \<lparr>md_size = n, md_isFree = f, md_pad = pad\<rparr>"
      "meta_of (meta_bytes \<lparr>md_size = n', md_isFree = f', md_pad = pad'\<rparr>)
        = \<lparr>md_size = n', md_isFree = f', md_pad = pad'\<rparr>"
      by (rule meta_round; use h in \<open>simp add: header_def\<close>)+
    ultimately have "n' = n \<and> f' = f" by simp
    with Cons.IH [of "off + 8 + int n" bl0] Cons.prems b b' \<open>bl' = b' # bl0\<close> show ?thesis by auto
  qed
qed

lemma first_fit_split:
  assumes "first_fit sz off bl = Some o'"
  obtains xs n ys where "bl = xs @ (n, True) # ys" "o' = off + span xs" "sz = n \<or> sz + 8 \<le> n"
proof -
  have "\<exists>xs n ys. bl = xs @ (n, True) # ys \<and> o' = off + span xs \<and> (sz = n \<or> sz + 8 \<le> n)"
    using assms
  proof (induction bl arbitrary: off)
    case (Cons b bl)
    obtain n f where b: "b = (n, f)" by (cases b)
    show ?case
    proof (cases "f \<and> (sz = n \<or> sz + 8 \<le> n)")
      case True
      with Cons.prems b show ?thesis by (intro exI [of _ "[]"] exI [of _ n] exI [of _ bl]) auto
    next
      case False
      with Cons.prems b have "first_fit sz (off + 8 + int n) bl = Some o'" by simp
      from Cons.IH [OF this] obtain xs m ys where
        "bl = xs @ (m, True) # ys" "o' = off + 8 + int n + span xs" "sz = m \<or> sz + 8 \<le> m" by blast
      with b show ?thesis by (intro exI [of _ "b # xs"] exI [of _ m] exI [of _ ys]) auto
    qed
  qed simp
  then show thesis using that by blast
qed

lemma heap_find_pages_spec:
  assumes "heap_ready r PID" "\<forall>hp \<in> set hps. \<exists>bl. page_ok r PID hp bl"
  obtains res r' where "heap_find_pages r PID sz hps = Inr (res, r')" "remote_ok r'" "same_remote r r'"
    "\<And>page off. res = Some (page, off) \<Longrightarrow>
       \<exists>hp \<in> set hps. \<exists>bl. hp_page hp = page \<and> page_ok r PID hp bl \<and> first_fit sz 0 bl = Some off"
    "\<And>hp bl. res = None \<Longrightarrow> hp \<in> set hps \<Longrightarrow> page_ok r PID hp bl \<Longrightarrow>
       hp_freeSpace hp < int sz \<or> first_fit sz 0 bl = None"
proof -
  have "\<exists>res r'. heap_find_pages r PID sz hps = Inr (res, r') \<and> remote_ok r' \<and> same_remote r r'
    \<and> (\<forall>page off. res = Some (page, off) \<longrightarrow>
       (\<exists>hp \<in> set hps. \<exists>bl. hp_page hp = page \<and> page_ok r PID hp bl \<and> first_fit sz 0 bl = Some off))
    \<and> (res = None \<longrightarrow> (\<forall>hp \<in> set hps. \<forall>bl. page_ok r PID hp bl \<longrightarrow>
       hp_freeSpace hp < int sz \<or> first_fit sz 0 bl = None))"
    using assms
  proof (induction hps arbitrary: r)
    case Nil
    then show ?case by (auto simp: heap_ready_def)
  next
    case (Cons hp hps)
    have same: "page_ok r' PID h bl = page_ok r PID h bl" if "same_remote r r'" for r' h bl
      using that by (simp add: page_ok_def layout_same)
    show ?case
    proof (cases "hp_freeSpace hp \<ge> int sz")
      case True
      obtain bl where bl: "page_ok r PID hp bl" using Cons.prems(2) by auto
      then obtain r1 where r1: "find_in_page r PID (hp_page hp) sz 0 = Some (Inr (first_fit sz 0 bl, r1))"
        "remote_ok r1" "same_remote r r1"
        using find_in_page_spec [OF Cons.prems(1), of "hp_page hp" 0 bl sz thesis] by (auto simp: page_ok_def)
      have uniq: "bl' = bl" if "page_ok r PID hp bl'" for bl'
        using that bl layout_unique by (auto simp: page_ok_def)
      show ?thesis
      proof (cases "first_fit sz 0 bl")
        case None
        have "\<forall>hp \<in> set hps. \<exists>bl. page_ok r1 PID hp bl" using Cons.prems(2) same [OF r1(3)] by auto
        from Cons.IH [OF heap_ready_same [OF Cons.prems(1) r1(2,3)] this] obtain res r' where
          "heap_find_pages r1 PID sz hps = Inr (res, r')" "remote_ok r'" "same_remote r1 r'"
          "\<forall>page off. res = Some (page, off) \<longrightarrow>
             (\<exists>hp \<in> set hps. \<exists>bl. hp_page hp = page \<and> page_ok r PID hp bl \<and> first_fit sz 0 bl = Some off)"
          "res = None \<longrightarrow> (\<forall>hp \<in> set hps. \<forall>bl. page_ok r PID hp bl \<longrightarrow>
             hp_freeSpace hp < int sz \<or> first_fit sz 0 bl = None)"
          unfolding same [OF r1(3)] by blast
        then show ?thesis
          using True r1 None uniq same_remote_trans [OF r1(3)]
          by (intro exI [of _ res] exI [of _ r']) (auto simp: returns_def)
      next
        case (Some off)
        with True r1 bl show ?thesis
          by (intro exI [of _ "Some (hp_page hp, off)"] exI [of _ r1]) (auto simp: returns_def)
      qed
    next
      case False
      with Cons show ?thesis by fastforce
    qed
  qed
  then obtain res r' where e: "heap_find_pages r PID sz hps = Inr (res, r')" "remote_ok r'" "same_remote r r'"
    and e4: "\<forall>page off. res = Some (page, off) \<longrightarrow>
       (\<exists>hp \<in> set hps. \<exists>bl. hp_page hp = page \<and> page_ok r PID hp bl \<and> first_fit sz 0 bl = Some off)"
    and e5: "res = None \<longrightarrow> (\<forall>hp \<in> set hps. \<forall>bl. page_ok r PID hp bl \<longrightarrow>
       hp_freeSpace hp < int sz \<or> first_fit sz 0 bl = None)"
    by blast
  show thesis
  proof (rule that [OF e])
    show "hp_freeSpace hp < int sz \<or> first_fit sz 0 bl = None"
      if "res = None" "hp \<in> set hps" "page_ok r PID hp bl" for hp bl
      using e5 that by metis
  qed (use e4 in blast)
qed

subsection \<open>The heap of a process after one operation on one page\<close>

lemma page_disjoint:
  assumes "x \<in> {q * ps..<q * ps + ps}" "(q :: int) \<noteq> page" "0 < ps"
  shows "x < page * ps \<or> page * ps + ps \<le> x"
proof (cases "q < page")
  case True
  then have "(q + 1) * ps \<le> page * ps" using assms(3) by (intro mult_right_mono) auto
  then show ?thesis using assms(1) by (simp add: distrib_right)
next
  case False
  then have "(page + 1) * ps \<le> q * ps" using assms(2,3) by (intro mult_right_mono) auto
  then show ?thesis using assms(1) by (simp add: distrib_right)
qed

lemma layout_other_page:
  assumes "edits r r' PID (page * pageSize r) (page * pageSize r + pageSize r) U" "q \<noteq> page"
    "0 < pageSize r" "layout r PID q 0 bl"
  shows "layout r' PID q 0 bl"
proof -
  have "agree r r' PID {q * pageSize r + 0..<q * pageSize r + pageSize r}"
    using assms(1) by (rule edits_agree) (use page_disjoint [OF _ assms(2,3)] in auto)
  from layout_agree [OF this edits_pageSize [OF assms(1)] assms(4)] show ?thesis .
qed

lemma used_in_page:
  assumes "layout r PID page 0 bl" "x \<in> used_bytes (page * pageSize r) bl"
  shows "x \<in> {page * pageSize r..<page * pageSize r + pageSize r}"
  using used_bytes_above [OF assms(2)] used_bytes_below [OF assms(2)] layout_span [OF assms(1)] by auto

lemma upd_first_map_page:
  "distinct (map hp_page hps) \<Longrightarrow>
     upd_first (\<lambda>hp. hp_page hp = page) f hps = map (\<lambda>hp. if hp_page hp = page then f hp else hp) hps"
proof (induction hps)
  case (Cons h hps)
  then have "\<forall>q \<in> set hps. hp_page q \<noteq> hp_page h" by (auto simp: image_iff)
  then have "hp_page h = page \<Longrightarrow> map (\<lambda>q. if hp_page q = page then f q else q) hps = hps"
    by (auto intro: map_idI)
  with Cons show ?case by simp
qed simp

lemma find_by_key:
  "distinct (map f xs) \<Longrightarrow> x \<in> set xs \<Longrightarrow> List.find (\<lambda>y. f y = f x) xs = Some x"
  by (induction xs) (auto simp: image_iff)

lemma find_heapPage_in:
  "distinct (map hp_page (heapPages p)) \<Longrightarrow> hp \<in> set (heapPages p) \<Longrightarrow>
     find_heapPage (hp_page hp) p = Some hp"
  unfolding find_heapPage_def by (rule find_by_key)

lemma heap_inv_update:
  assumes inv: "heap_inv p r" and hp: "hp \<in> set (heapPages p)"
    and l: "layout r (pid (pcb p)) (hp_page hp) 0 bl" "layout r' (pid (pcb p)) (hp_page hp) 0 bl'"
    and bl': "bl' \<noteq> []" "merged bl'" and rok: "remote_ok r'"
    and ed: "edits r r' (pid (pcb p)) (hp_page hp * pageSize r) (hp_page hp * pageSize r + pageSize r) U"
    and p': "pcb p' = pcb p" "heapPages p' = heapPages (upd_heapPage (hp_page hp) (set_free (free_bytes bl')) p)"
  shows "heap_inv p' r'"
    "live p' r' = (live p r - used_bytes (hp_page hp * pageSize r) bl) \<union> used_bytes (hp_page hp * pageSize r) bl'"
proof -
  let ?PID = "pid (pcb p)" and ?page = "hp_page hp"
  have dist: "distinct (map hp_page (heapPages p))" and ready: "heap_ready r ?PID" and ps: "8 < pageSize r"
    and each: "\<forall>hp \<in> set (heapPages p). \<exists>bl. page_ok r ?PID hp bl"
    using inv by (simp_all add: heap_inv_def)
  note ps' = edits_pageSize [OF ed]
  have pages: "heapPages p' = map (\<lambda>h. if hp_page h = ?page then set_free (free_bytes bl') h else h) (heapPages p)"
    using p'(2) upd_first_map_page [OF dist] by (simp add: upd_heapPage_def)
  have same: "map hp_page (heapPages p') = map hp_page (heapPages p)" by (simp add: pages)
  have psets: "hp_page ` set (heapPages p') = hp_page ` set (heapPages p)"
    using same by (metis set_map)
  have other: "layout r' ?PID q 0 b" if "layout r ?PID q 0 b" "q \<noteq> ?page" for q b
    using layout_other_page [OF ed that(2) _ that(1)] ps by simp
  have "\<exists>b. page_ok r' ?PID h' b" if h': "h' \<in> set (heapPages p')" for h'
  proof -
    obtain h where h: "h \<in> set (heapPages p)"
        "h' = (if hp_page h = ?page then set_free (free_bytes bl') h else h)"
      using h' by (auto simp: pages)
    show ?thesis
    proof (cases "hp_page h = ?page")
      case True
      with h l(2) bl' show ?thesis by (auto simp: page_ok_def)
    next
      case False
      with each h obtain b where "page_ok r ?PID h b" by blast
      with False h other show ?thesis by (auto simp: page_ok_def)
    qed
  qed
  then show "heap_inv p' r'"
    using edits_ready [OF ed ready rok] ps dist by (simp add: heap_inv_def p'(1) ps' same)
  have lays: "(\<exists>b. layout r' ?PID q 0 b \<and> x \<in> used_bytes (q * pageSize r) b) \<longleftrightarrow>
      (if q = ?page then x \<in> used_bytes (?page * pageSize r) bl'
       else (\<exists>b. layout r ?PID q 0 b \<and> x \<in> used_bytes (q * pageSize r) b))"
    if q: "q \<in> hp_page ` set (heapPages p)" for q x
  proof (cases "q = ?page")
    case True
    have "b = bl'" if "layout r' ?PID ?page 0 b" for b using layout_unique [OF l(2) that] .
    with True l(2) show ?thesis by metis
  next
    case False
    obtain h where "h \<in> set (heapPages p)" "q = hp_page h" using q by blast
    with each obtain b where b: "layout r ?PID q 0 b" by (metis page_ok_def)
    with other False layout_unique show ?thesis by metis
  qed
  have U: "used_bytes (?page * pageSize r) bl \<inter> used_bytes (q * pageSize r) b = {}"
    if "layout r ?PID q 0 b" "q \<noteq> ?page" for q b
  proof -
    have "\<not> (x \<in> used_bytes (?page * pageSize r) bl \<and> x \<in> used_bytes (q * pageSize r) b)" for x
      using used_in_page [OF l(1), of x] used_in_page [OF that(1), of x] page_disjoint [OF _ that(2), of x "pageSize r"] ps
      by auto
    then show ?thesis by blast
  qed
  have liv: "x \<in> live q' R \<longleftrightarrow> (\<exists>k \<in> hp_page ` set (heapPages q'). \<exists>b. layout R (pid (pcb q')) k 0 b
      \<and> x \<in> used_bytes (k * pageSize R) b)" for x q' R
    by (auto simp: live_def)
  have mem: "?page \<in> hp_page ` set (heapPages p)" using hp by simp
  have "x \<in> live p' r' \<longleftrightarrow> x \<in> (live p r - used_bytes (?page * pageSize r) bl) \<union> used_bytes (?page * pageSize r) bl'" for x
  proof -
    have "x \<in> live p' r' \<longleftrightarrow> x \<in> used_bytes (?page * pageSize r) bl'
        \<or> (\<exists>k \<in> hp_page ` set (heapPages p) - {?page}. \<exists>b. layout r ?PID k 0 b \<and> x \<in> used_bytes (k * pageSize r) b)"
      unfolding liv psets p'(1) ps' using lays mem by (auto split: if_splits)
    moreover have "x \<in> live p r - used_bytes (?page * pageSize r) bl \<longleftrightarrow>
        (\<exists>k \<in> hp_page ` set (heapPages p) - {?page}. \<exists>b. layout r ?PID k 0 b \<and> x \<in> used_bytes (k * pageSize r) b)"
      unfolding Diff_iff liv
    proof (intro iffI; elim conjE bexE exE)
      fix k b assume k: "k \<in> hp_page ` set (heapPages p)" and b: "layout r ?PID k 0 b"
        "x \<in> used_bytes (k * pageSize r) b" and no: "x \<notin> used_bytes (?page * pageSize r) bl"
      have "k \<noteq> ?page"
      proof
        assume e: "k = ?page"
        then have "b = bl" using layout_unique [OF l(1)] b(1) by simp
        with b(2) no e show False by simp
      qed
      with k b show "\<exists>k \<in> hp_page ` set (heapPages p) - {?page}. \<exists>b. layout r ?PID k 0 b
          \<and> x \<in> used_bytes (k * pageSize r) b" by blast
    next
      fix k b assume k: "k \<in> hp_page ` set (heapPages p) - {?page}" and b: "layout r ?PID k 0 b"
        "x \<in> used_bytes (k * pageSize r) b"
      then have "x \<notin> used_bytes (?page * pageSize r) bl" using U by blast
      with k b show "(\<exists>k \<in> hp_page ` set (heapPages p). \<exists>b. layout r ?PID k 0 b
          \<and> x \<in> used_bytes (k * pageSize r) b) \<and> x \<notin> used_bytes (?page * pageSize r) bl" by blast
    qed
    ultimately show ?thesis by blast
  qed
  then show "live p' r' = (live p r - used_bytes (?page * pageSize r) bl) \<union> used_bytes (?page * pageSize r) bl'"
    by blast
qed

subsection \<open>Allocation in the whole heap\<close>

text \<open>What an operation for \<open>p\<close> leaves alone: the other processes and the payloads in \<open>L\<close>.\<close>

definition keeps :: "remote \<Rightarrow> remote \<Rightarrow> int \<Rightarrow> int set \<Rightarrow> bool" where
  "keeps r r' PID L \<longleftrightarrow> (\<forall>P x b. P \<noteq> PID \<or> x \<in> L \<longrightarrow> rbyte r P x = Some b \<longrightarrow> rbyte r' P x = Some b)"

lemma keeps_trans: "keeps a b PID L \<Longrightarrow> keeps b c PID L \<Longrightarrow> keeps a c PID L"
  unfolding keeps_def by blast

lemma keeps_mono: "keeps a b PID L \<Longrightarrow> M \<subseteq> L \<Longrightarrow> keeps a b PID M"
  unfolding keeps_def by blast

lemma edits_keeps:
  "edits r r' PID lo hi U \<Longrightarrow> (\<And>x. x \<in> L \<Longrightarrow> x < lo \<or> hi \<le> x \<or> x \<in> U) \<Longrightarrow> keeps r r' PID L"
  unfolding edits_def keeps_def by metis

lemma keeps_same: "same_remote r r' \<Longrightarrow> keeps r r' PID L"
  by (simp add: keeps_def same_remote_view)

lemma live_outside:
  assumes "heap_inv p r" "hp \<in> set (heapPages p)" "layout r (pid (pcb p)) (hp_page hp) 0 bl"
    "x \<in> live p r"
  shows "x < hp_page hp * pageSize r \<or> hp_page hp * pageSize r + pageSize r \<le> x
    \<or> x \<in> used_bytes (hp_page hp * pageSize r) bl"
proof -
  obtain h b where h: "h \<in> set (heapPages p)" "layout r (pid (pcb p)) (hp_page h) 0 b"
    "x \<in> used_bytes (hp_page h * pageSize r) b"
    using assms(4) by (auto simp: live_def)
  have ps: "0 < pageSize r" using assms(1) by (simp add: heap_inv_def)
  show ?thesis
  proof (cases "hp_page h = hp_page hp")
    case True
    have "b = bl" using layout_unique [OF assms(3), of b] h(2) True by simp
    with h(3) True show ?thesis by simp
  next
    case False
    with used_in_page [OF h(2,3)] show ?thesis using page_disjoint [OF _ _ ps] by blast
  qed
qed

lemma alloc_in_page:
  assumes inv: "heap_inv p r" and hp: "hp \<in> set (heapPages p)"
    and ok: "page_ok r (pid (pcb p)) hp (xs @ (n, True) # ys)" and sz: "sz = n \<or> sz + 8 \<le> n"
  defines "a \<equiv> hp_page hp * pageSize r + span xs + 8"
  obtains p' r' where "heap_alloc p sz (hp_page hp) (span xs) r = Inr (p', r')"
    "heap_inv p' r'" "live p' r' = live p r \<union> {a..<a + int sz}" "live p r \<inter> {a..<a + int sz} = {}"
    "keeps r r' (pid (pcb p)) (live p r)" "interruptionCode p' = interruptionCode p" "pcb p' = pcb p"
    "pageSize r' = pageSize r"
proof -
  note finish = that
  let ?PID = "pid (pcb p)" and ?page = "hp_page hp" and ?base = "hp_page hp * pageSize r"
    and ?bl = "xs @ (n, True) # ys"
  have ready: "heap_ready r ?PID" and ps: "8 < pageSize r" and dist: "distinct (map hp_page (heapPages p))"
    using inv by (simp_all add: heap_inv_def)
  have l: "layout r ?PID ?page 0 ?bl" and fb: "hp_freeSpace hp = free_bytes ?bl"
    using ok by (simp_all add: page_ok_def)
  define bl' where "bl' = coalesced (xs @ take_block n sz @ ys)"
  obtain r' where r': "heap_alloc p sz ?page (span xs) r
      = Inr (upd_heapPage ?page (set_free (free_bytes bl')) p, r')"
    "remote_ok r'" "layout r' ?PID ?page 0 bl'"
    "edits r r' ?PID ?base (?base + pageSize r) (used_bytes ?base ?bl)"
    unfolding bl'_def
    by (rule heap_alloc_spec [OF ready ps l find_heapPage_in [OF dist hp] fb sz])
  have bl': "bl' \<noteq> []" "merged bl'"
    unfolding bl'_def by (auto intro!: coalesced_nonempty coalesced_merged simp: take_block_def)
  note upd = heap_inv_update [OF inv hp l r'(3) bl' r'(2,4), of "upd_heapPage ?page (set_free (free_bytes bl')) p"]
  have u: "used_bytes ?base bl' = used_bytes ?base ?bl \<union> {a..<a + int sz}"
    using take_block_span [OF sz] take_block_used [OF sz, of "?base + span xs"]
    by (auto simp: bl'_def coalesced_used used_bytes_append a_def add.assoc)
  have le: "int sz \<le> int n" using sz by auto
  have fresh: "x \<notin> used_bytes ?base ?bl" if "x \<in> {a..<a + int sz}" for x
    using that le used_bytes_above [of x "?base + span xs + 8 + int n" ys] used_bytes_below [of x ?base xs]
    by (auto simp: used_bytes_append a_def add.assoc)
  have "span ?bl = pageSize r" using layout_span [OF l] by simp
  then have inpage: "?base \<le> x \<and> x < ?base + pageSize r" if "x \<in> {a..<a + int sz}" for x
    using that le span_nonneg [of xs] span_nonneg [of ys] by (auto simp: a_def)
  show thesis
  proof (rule finish [OF r'(1)])
    show "heap_inv (upd_heapPage ?page (set_free (free_bytes bl')) p) r'" by (rule upd(1)) simp_all
    have "used_bytes ?base ?bl \<subseteq> live p r" using hp l by (auto simp: live_def)
    then show "live (upd_heapPage ?page (set_free (free_bytes bl')) p) r' = live p r \<union> {a..<a + int sz}"
      using upd(2) u by auto
    show "live p r \<inter> {a..<a + int sz} = {}"
      using live_outside [OF inv hp l] fresh inpage by fastforce
    show "keeps r r' ?PID (live p r)" by (rule edits_keeps [OF r'(4) live_outside [OF inv hp l]])
    show "pageSize r' = pageSize r" by (rule edits_pageSize [OF r'(4)])
  qed simp_all
qed

subsection \<open>A new heap page\<close>

lemma those_Some_iff: "those xs = Some ys \<longleftrightarrow> xs = map Some ys"
  by (induction xs arbitrary: ys) (auto split: option.splits)

lemma rbytes_mono:
  assumes "rbytes r PID a n = Some bs" "\<And>x b. rbyte r PID x = Some b \<Longrightarrow> rbyte r1 PID x = Some b"
  shows "rbytes r1 PID a n = Some bs"
proof -
  have e: "map (\<lambda>i. rbyte r PID (a + int i)) [0..<n] = map Some bs"
    using assms(1) unfolding rbytes_rbyte those_Some_iff .
  then have len: "length bs = n" by (metis length_map length_upt minus_nat.diff_0)
  have "rbyte r1 PID (a + int i) = Some (bs ! i)" if "i < n" for i
  proof -
    have "map (\<lambda>i. rbyte r PID (a + int i)) [0..<n] ! i = map Some bs ! i" using e by simp
    then have "rbyte r PID (a + int i) = Some (bs ! i)" using that len by simp
    then show ?thesis by (rule assms(2))
  qed
  then have "map (\<lambda>i. rbyte r1 PID (a + int i)) [0..<n] = map Some bs"
    using len by (intro nth_equalityI) auto
  then show ?thesis unfolding rbytes_rbyte those_Some_iff .
qed

lemma header_mono:
  assumes "\<And>x b. rbyte r PID x = Some b \<Longrightarrow> rbyte r1 PID x = Some b" "pageSize r1 = pageSize r"
    "header r PID page off md"
  shows "header r1 PID page off md"
proof -
  have h: "rbytes r PID (page * pageSize r + off) 8 = Some (meta_bytes md)"
    using assms(3) by (simp add: header_def)
  have "rbytes r1 PID (page * pageSize r + off) 8 = Some (meta_bytes md)"
    by (rule rbytes_mono [OF h assms(1)])
  then show ?thesis using assms(3) by (simp add: header_def assms(2))
qed

lemma layout_mono:
  assumes "\<And>x b. rbyte r PID x = Some b \<Longrightarrow> rbyte r1 PID x = Some b" "pageSize r1 = pageSize r"
  shows "layout r PID page off bl \<Longrightarrow> layout r1 PID page off bl"
proof (induction bl arbitrary: off)
  case (Cons b bl)
  obtain n f where b: "b = (n, f)" by (cases b)
  from Cons.prems obtain pad where
    "header r PID page off \<lparr>md_size = n, md_isFree = f, md_pad = pad\<rparr>" by (auto simp: b)
  from header_mono [OF assms this] Cons show ?case by (auto simp: b)
qed (simp add: assms(2))

text \<open>
  The Kernel numbers the new page one above all pages it knows of, the Memory process one above
  the pages it holds for the process. The two agree as long as no heap page above the others
  was given back.
\<close>

definition in_step :: "t_kernel \<Rightarrow> t_program \<Rightarrow> remote \<Rightarrow> bool" where
  "in_step config p r \<longleftrightarrow>
     int (proccess_page_max (mram (rmem r)) (pid (pcb p))) = heap_max_page_num config p
     \<and> proccess_page_max (mram (rmem r)) (pid (pcb p)) + 2 \<le> 2 ^ 31"

lemma heap_max_page_num_ge:
  "hp \<in> set (heapPages p) \<Longrightarrow> hp_page hp \<le> heap_max_page_num config p"
proof -
  have "m \<le> foldl (\<lambda>m hp. if hp_page hp > m then hp_page hp else m) m hps
      \<and> (\<forall>hp \<in> set hps. hp_page hp \<le> foldl (\<lambda>m hp. if hp_page hp > m then hp_page hp else m) m hps)"
    for m :: int and hps :: "t_heap_page list"
  proof (induction hps arbitrary: m)
    case (Cons h hps)
    from Cons.IH [of "if hp_page h > m then hp_page h else m"] show ?case by auto
  qed simp
  then show "hp \<in> set (heapPages p) \<Longrightarrow> hp_page hp \<le> heap_max_page_num config p"
    unfolding heap_max_page_num_def by blast
qed

lemma remote_get_page_ok:
  assumes rok: "remote_ok r" and PID: "PID \<noteq> -1"
    and small: "proccess_page_max (mram (rmem r)) PID + 2 \<le> 2 ^ 31"
  shows "if freeFrameCount (mram (rmem r)) = 0
    then remote_get_pages r PID 1 = Inr (ERROR_NO_PAGES_FOR_PROCESS, r)
    else \<exists>r'. remote_get_pages r PID 1 = Inr (0, r') \<and> remote_ok r' \<and> pageSize r' = pageSize r
      \<and> (\<forall>P x b. rbyte r P x = Some b \<longrightarrow> rbyte r' P x = Some b)
      \<and> dom (frame_of (mram (rmem r')))
          = insert (PID, int (proccess_page_max (mram (rmem r)) PID) + 1) (dom (frame_of (mram (rmem r))))"
proof -
  let ?R = "mram (rmem r)" and ?mx = "proccess_page_max (mram (rmem r)) PID"
  have inv: "mem_inv (rcfg r) (rmem r)" and lk: "\<not> rlocked r" using rok by (simp_all add: remote_ok_def)
  then have ri: "ram_inv (rcfg r) ?R" by (simp add: mem_inv_def)
  have "?mx + 1 + 1 \<le> 2 ^ 31" using small by simp
  from ram_get_pages_spec [OF ri PID this, of "rhash r"] obtain R' where
    R: "ram_get_pages (rhash r) ?R PID 1
      = Inr (if 1 \<le> freeFrameCount ?R then 0 else ERROR_NO_PAGES_FOR_PROCESS, R')"
      "ram_inv (rcfg r) R'" "proccessPages R' = proccessPages ?R" "frame_of ?R \<subseteq>\<^sub>m frame_of R'"
      "if 1 \<le> freeFrameCount ?R
       then dom (frame_of R') = dom (frame_of ?R) \<union> new_pages PID (?mx + 1) 1
         \<and> freeFrameCount ?R = freeFrameCount R' + 1
       else R' = ?R" by blast
  show ?thesis
  proof (cases "freeFrameCount ?R = 0")
    case True
    then have "R' = ?R" using R(5) by simp
    then show ?thesis using True R(1) lk by (simp add: remote_get_pages_def)
  next
    case False
    let ?r = "r\<lparr>rmem := (rmem r)\<lparr>mram := R'\<rparr>\<rparr>"
    note grow = mem_inv_grow [OF inv R(2,4,3)]
    have "remote_ok ?r" using rok grow(1) by (simp add: remote_ok_def)
    moreover have "rbyte ?r P x = Some b" if "rbyte r P x = Some b" for P x b
      using grow(2) that by (simp add: rbyte_def)
    moreover have "dom (frame_of R') = insert (PID, int ?mx + 1) (dom (frame_of ?R))"
      using R(5) False new_pages_Suc [of PID "?mx + 1" 0] by (simp add: add.commute)
    ultimately show ?thesis
      using False R(1) lk by (intro if_not_P [THEN iffD2] exI [of _ ?r] conjI)
        (auto simp: remote_get_pages_def pageSize_def)
  qed
qed

lemma heap_new_page_full:
  assumes "heap_inv p r" "in_step config p r" "freeFrameCount (mram (rmem r)) = 0"
  shows "heap_new_page config p r = Inr (ERROR_NO_PAGES_FOR_PROCESS,
    p\<lparr>interruptionCode := ERROR_NO_PAGES_FOR_PROCESS\<rparr>, r)"
  using remote_get_page_ok [of r "pid (pcb p)"] assms
  by (auto simp: heap_new_page_def heap_inv_def heap_ready_def in_step_def ERROR_NO_PAGES_FOR_PROCESS_def)

lemma heap_new_page_spec:
  assumes inv: "heap_inv p r" and step: "in_step config p r"
    and free: "freeFrameCount (mram (rmem r)) \<noteq> 0"
  defines "page \<equiv> heap_max_page_num config p + 1"
  obtains r' where "heap_new_page config p r = Inr (page,
      p\<lparr>heapPages := heapPages p @ [\<lparr>hp_page = page, hp_freeSpace = pageSize r - 8\<rparr>]\<rparr>, r')"
    "heap_inv (p\<lparr>heapPages := heapPages p @ [\<lparr>hp_page = page, hp_freeSpace = pageSize r - 8\<rparr>]\<rparr>) r'"
    "page_ok r' (pid (pcb p)) \<lparr>hp_page = page, hp_freeSpace = pageSize r - 8\<rparr> [(nat (pageSize r - 8), True)]"
    "live (p\<lparr>heapPages := heapPages p @ [\<lparr>hp_page = page, hp_freeSpace = pageSize r - 8\<rparr>]\<rparr>) r' = live p r"
    "keeps r r' (pid (pcb p)) (live p r)" "pageSize r' = pageSize r"
    "rbyte r' (pid (pcb p)) ((page + 1) * pageSize r) = None"
proof -
  note finish = that
  let ?PID = "pid (pcb p)" and ?new = "\<lparr>hp_page = page, hp_freeSpace = pageSize r - 8\<rparr>"
  let ?p = "p\<lparr>heapPages := heapPages p @ [?new]\<rparr>"
  have ready: "heap_ready r ?PID" and ps: "8 < pageSize r" and dist: "distinct (map hp_page (heapPages p))"
    and each: "\<forall>hp \<in> set (heapPages p). \<exists>bl. page_ok r ?PID hp bl"
    using inv by (simp_all add: heap_inv_def)
  have PID: "?PID \<noteq> -1" and rok: "remote_ok r" and small: "pageSize r < 2 ^ 31"
    using ready by (simp_all add: heap_ready_def)
  have pm: "int (proccess_page_max (mram (rmem r)) ?PID) + 1 = page"
    using step by (simp add: in_step_def page_def)
  obtain r1 where r1: "remote_get_pages r ?PID 1 = Inr (0, r1)" "remote_ok r1" "pageSize r1 = pageSize r"
    "\<And>P x b. rbyte r P x = Some b \<Longrightarrow> rbyte r1 P x = Some b"
    "dom (frame_of (mram (rmem r1))) = insert (?PID, page) (dom (frame_of (mram (rmem r))))"
    using remote_get_page_ok [OF rok PID] step free pm by (auto simp: in_step_def)
  have ri: "ram_inv (rcfg r) (mram (rmem r))" "ram_inv (rcfg r1) (mram (rmem r1))"
    using rok r1(2) by (simp_all add: remote_ok_def mem_inv_def)
  have ready1: "heap_ready r1 ?PID" using ready r1(2,3) by (simp add: heap_ready_def)
  have "page_at (rcfg r1) (rmem r1) (?PID, page) \<noteq> None" using r1(5) by (auto simp: page_at_def)
  moreover note ri(2)
  ultimately have mapped: "rbytes r1 ?PID (page * pageSize r1 + 0) 8 \<noteq> None"
    using bytes_at_page [of "rcfg r1" "rmem r1" 0 8 ?PID page] ps r1(3)
    by (simp add: rbytes_def pageSize_def)
  let ?md = "\<lparr>md_size = nat (pageSize r - 8), md_isFree = True, md_pad = [0, 0, 0]\<rparr>"
  have md: "length (md_pad ?md) = 3" "md_size ?md < 2 ^ 31" using small ps by auto
  have zero: "(0::int) \<le> 0" "0 < pageSize r1" using ps r1(3) by simp_all
  obtain r2 where r2: "write_meta r1 ?PID page 0 ?md = Inr r2" "remote_ok r2" "heap_ready r2 ?PID"
    "header r2 ?PID page 0 ?md"
    and ed: "\<And>lo hi. lo \<le> page * pageSize r1 + 0 \<Longrightarrow> page * pageSize r1 + 0 + 8 \<le> hi \<Longrightarrow>
       edits r1 r2 ?PID lo hi (- {page * pageSize r1 + 0..<page * pageSize r1 + 0 + 8})"
    by (rule write_header_in [OF ready1 zero md mapped]) blast
  have ps2: "pageSize r2 = pageSize r" using edits_pageSize [OF ed [OF order_refl order_refl]] r1(3) by simp
  have next2: "rbyte r2 ?PID ((page + 1) * pageSize r) = None"
  proof -
    have "frame_of (mram (rmem r)) (?PID, page + 1) = None"
      using proccess_page_max_bound [OF ri(1) PID, of "page + 1"] pm by force
    then have "page_at (rcfg r1) (rmem r1) (?PID, page + 1) = None"
      using arg_cong [OF r1(5), of "\<lambda>S. (?PID, page + 1) \<in> S"] by (simp add: page_at_def domIff)
    then have "rbyte r1 ?PID ((page + 1) * pageSize r1) = None"
      using byte_at_in_page [of 0 "rcfg r1" "rmem r1" ?PID "page + 1"] ps r1(3)
      by (simp add: rbyte_def pageSize_def)
    then show ?thesis using edits_mapped_byte [OF ed [OF order_refl order_refl]] r1(3) by simp
  qed
  have new_ok: "page_ok r2 ?PID ?new [(nat (pageSize r - 8), True)]"
    using r2(4) ps by (auto simp: page_ok_def ps2)
  have edp: "edits r1 r2 ?PID (page * pageSize r1) (page * pageSize r1 + pageSize r1)
      (- {page * pageSize r1 + 0..<page * pageSize r1 + 0 + 8})"
    by (rule ed) (use ps r1(3) in simp_all)
  have above: "hp_page hp < page" if "hp \<in> set (heapPages p)" for hp
    using heap_max_page_num_ge [OF that, of config] by (simp add: page_def)
  have old: "layout r2 ?PID (hp_page hp) 0 bl" if "hp \<in> set (heapPages p)" "layout r ?PID (hp_page hp) 0 bl" for hp bl
    using layout_other_page [OF edp _ _ layout_mono [OF r1(4,3) that(2)]] above [OF that(1)] ps r1(3) by auto
  have pages: "\<forall>hp \<in> set (heapPages ?p). \<exists>bl. page_ok r2 ?PID hp bl"
  proof
    fix hp assume "hp \<in> set (heapPages ?p)"
    then consider "hp \<in> set (heapPages p)" | "hp = ?new" by auto
    then show "\<exists>bl. page_ok r2 ?PID hp bl"
    proof cases
      case 1
      with each obtain b where "page_ok r ?PID hp b" by blast
      then have "page_ok r2 ?PID hp b" using old [OF 1] by (simp add: page_ok_def)
      then show ?thesis ..
    next
      case 2
      with new_ok show ?thesis by blast
    qed
  qed
  have "page \<notin> hp_page ` set (heapPages p)" using above by auto
  then have inv': "heap_inv ?p r2"
    unfolding heap_inv_def using pages dist ps2 ps r2(3) by (simp del: layout.simps)
  have unused: "used_bytes a [(nat (pageSize r - 8), True)] = {}" for a by simp
  have "x \<in> live ?p r2 \<longleftrightarrow> x \<in> live p r" for x
  proof
    assume "x \<in> live ?p r2"
    then have "\<exists>hp \<in> set (heapPages ?p). \<exists>bl. layout r2 ?PID (hp_page hp) 0 bl
      \<and> x \<in> used_bytes (hp_page hp * pageSize r2) bl" by (simp add: live_def)
    then obtain hp bl where hp: "hp \<in> set (heapPages ?p)" "layout r2 ?PID (hp_page hp) 0 bl"
      "x \<in> used_bytes (hp_page hp * pageSize r2) bl" by blast
    show "x \<in> live p r"
    proof (cases "hp \<in> set (heapPages p)")
      case True
      with each obtain b where b: "layout r ?PID (hp_page hp) 0 b" by (auto simp: page_ok_def)
      then have "bl = b" using layout_unique [OF old [OF True b]] hp(2) by blast
      with True b hp(3) show ?thesis by (auto simp: live_def ps2)
    next
      case False
      with hp(1) have "hp = ?new" by auto
      then have "bl = [(nat (pageSize r - 8), True)]"
        using layout_unique [of r2 ?PID page 0 "[(nat (pageSize r - 8), True)]" bl] new_ok hp(2)
        by (simp add: page_ok_def del: layout.simps)
      with hp(3) unused show ?thesis by simp
    qed
  next
    assume "x \<in> live p r"
    then show "x \<in> live ?p r2" using old by (fastforce simp: live_def ps2)
  qed
  then have liv: "live ?p r2 = live p r" by blast
  have "keeps r r1 ?PID (live p r)" using r1(4) by (auto simp: keeps_def)
  moreover have "keeps r1 r2 ?PID (live p r)"
  proof (rule edits_keeps [OF edp])
    fix x assume "x \<in> live p r"
    then obtain hp bl where hp: "hp \<in> set (heapPages p)" "layout r ?PID (hp_page hp) 0 bl"
      "x \<in> used_bytes (hp_page hp * pageSize r) bl" by (auto simp: live_def)
    have "x < page * pageSize r \<or> page * pageSize r + pageSize r \<le> x"
      using page_disjoint [OF used_in_page [OF hp(2,3)], of page] above [OF hp(1)] ps by simp
    then show "x < page * pageSize r1 \<or> page * pageSize r1 + pageSize r1 \<le> x
        \<or> x \<in> - {page * pageSize r1 + 0..<page * pageSize r1 + 0 + 8}" unfolding r1(3) by blast
  qed
  ultimately have kp: "keeps r r2 ?PID (live p r)" by (rule keeps_trans)
  have "heap_new_page config p r = Inr (page, ?p, r2)"
    using r1(1,3) r2(1) by (simp add: heap_new_page_def page_def Let_def sizeof_t_heapmetadata_def)
  then show thesis using finish inv' new_ok liv kp ps2 next2 by blast
qed

subsection \<open>The two entry points\<close>

text \<open>
  An allocation that finds no fitting block takes a new page. There the code does not ask
  whether the rest of the page can hold a header: sizes within 8 bytes of the whole page are
  excluded here and shown to fail in \<open>memory_heap_alloc_gap\<close>.
\<close>

definition fits_new_page :: "remote \<Rightarrow> int \<Rightarrow> bool" where
  "fits_new_page r sz \<longleftrightarrow> 0 \<le> sz \<and> (sz = pageSize r - 8 \<or> sz + 16 \<le> pageSize r)"

lemma alloc_guard:
  assumes "8 < pageSize r" "pageSize r < 2 ^ 31" "- (2 ^ 31) \<le> sz" "sz < 2 ^ 31"
  shows "size_t_of_int sz > size_t_of_int (pageSize r - sizeof_t_heapmetadata)
    \<longleftrightarrow> sz < 0 \<or> sz > pageSize r - 8"
proof (cases "sz < 0")
  case True
  with assms(3) have "2 ^ 63 \<le> size_t_of_int sz" by (intro size_t_of_int_neg) simp_all
  then show ?thesis using assms True by (auto simp: sizeof_t_heapmetadata_def)
qed (use assms in \<open>auto simp: sizeof_t_heapmetadata_def\<close>)

lemma memory_heap_alloc_rejects:
  assumes "8 < pageSize r" "pageSize r < 2 ^ 31" "- (2 ^ 31) \<le> sz" "sz < 2 ^ 31"
    "sz < 0 \<or> sz > pageSize r - 8"
  shows "memory_heap_alloc config p sz r
      = Inr (ERROR_ALLOC_BIGGER_THAN_PAGE_SIZE,
             p\<lparr>interruptionCode := ERROR_ALLOC_BIGGER_THAN_PAGE_SIZE\<rparr>, r)"
  using alloc_guard [OF assms(1-4)] assms(5) by (simp add: memory_heap_alloc_def)

definition allocated :: "t_program \<Rightarrow> remote \<Rightarrow> int \<Rightarrow> int \<Rightarrow> t_program \<Rightarrow> remote \<Rightarrow> bool" where
  "allocated p r sz a p' r' \<longleftrightarrow>
     heap_inv p' r' \<and> live p' r' = live p r \<union> {a..<a + sz} \<and> live p r \<inter> {a..<a + sz} = {}
     \<and> keeps r r' (pid (pcb p)) (live p r) \<and> pcb p' = pcb p
     \<and> interruptionCode p' = interruptionCode p"

lemma same_heap:
  assumes "heap_inv p r" "remote_ok r'" "same_remote r r'"
  shows "heap_inv p r'" "live p r' = live p r" "in_step config p r' = in_step config p r"
    "page_ok r' P hp bl = page_ok r P hp bl"
proof -
  have l: "layout r' P q o' bl = layout r P q o' bl" for P q o' bl
    by (rule layout_same [OF assms(3)])
  have ps: "pageSize r' = pageSize r" by (rule same_remote_view(3) [OF assms(3)])
  have ok: "page_ok r' P hp bl = page_ok r P hp bl" for P hp bl unfolding page_ok_def l ..
  show "page_ok r' P hp bl = page_ok r P hp bl" by (rule ok)
  show "live p r' = live p r" unfolding live_def l ps ..
  show "in_step config p r' = in_step config p r" using assms(3) by (simp add: in_step_def same_remote_def)
  have "heap_ready r (pid (pcb p))" using assms(1) by (simp add: heap_inv_def)
  from heap_ready_same [OF this assms(2,3)] show "heap_inv p r'"
    using assms(1) unfolding heap_inv_def ok ps by blast
qed

lemma memory_heap_alloc_spec:
  assumes inv: "heap_inv p r" and step: "in_step config p r" and sz: "fits_new_page r sz"
  obtains (got) a p' r' where "memory_heap_alloc config p sz r = Inr (a, p', r')"
      "allocated p r sz a p' r'"
  | (full) r' where "memory_heap_alloc config p sz r
      = Inr (ERROR_NO_PAGES, p\<lparr>interruptionCode := ERROR_NO_PAGES\<rparr>, r')"
      "same_remote r r'" "freeFrameCount (mram (rmem r)) = 0"
proof -
  note succeeds = that(1) and fails = that(2)
  let ?PID = "pid (pcb p)"
  have ready: "heap_ready r ?PID" and ps: "8 < pageSize r" "pageSize r < 2 ^ 31"
    and each: "\<forall>hp \<in> set (heapPages p). \<exists>bl. page_ok r ?PID hp bl"
    using inv by (simp_all add: heap_inv_def heap_ready_def)
  have s0: "0 \<le> sz" "sz \<le> pageSize r - 8" and fit: "nat sz = nat (pageSize r - 8) \<or> nat sz + 8 \<le> nat (pageSize r - 8)"
    using sz by (auto simp: fits_new_page_def)
  have guard: "\<not> size_t_of_int sz > size_t_of_int (pageSize r - sizeof_t_heapmetadata)"
    using alloc_guard [OF ps, of sz] s0 ps by auto
  obtain res r1 where f: "heap_find_pages r ?PID (nat sz) (heapPages p) = Inr (res, r1)"
    "remote_ok r1" "same_remote r r1"
    "\<And>page off. res = Some (page, off) \<Longrightarrow> \<exists>hp \<in> set (heapPages p). \<exists>bl. hp_page hp = page
       \<and> page_ok r ?PID hp bl \<and> first_fit (nat sz) 0 bl = Some off"
    using heap_find_pages_spec [OF ready each, of "nat sz"] by metis
  note same = same_heap [OF inv f(2,3)]
  have ps1: "pageSize r1 = pageSize r" using f(3) by (simp add: same_remote_view)
  have k1: "keeps r r1 ?PID (live p r)" using f(3) by (rule keeps_same)
  show thesis
  proof (cases res)
    case (Some po)
    then obtain page off where po: "res = Some (page, off)" by (cases po) simp
    from f(4) [OF this] obtain hp bl where hp: "hp \<in> set (heapPages p)" "hp_page hp = page"
      "page_ok r ?PID hp bl" "first_fit (nat sz) 0 bl = Some off" by blast
    obtain xs n ys where s: "bl = xs @ (n, True) # ys" "off = 0 + span xs" "nat sz = n \<or> nat sz + 8 \<le> n"
      using first_fit_split [OF hp(4)] .
    have ok: "page_ok r1 ?PID hp (xs @ (n, True) # ys)" using hp(3) s(1) same(4) by simp
    obtain p' r' where a: "heap_alloc p (nat sz) page (span xs) r1 = Inr (p', r')" "heap_inv p' r'"
      "live p' r' = live p r \<union> {page * pageSize r + span xs + 8..<page * pageSize r + span xs + 8 + sz}"
      "live p r \<inter> {page * pageSize r + span xs + 8..<page * pageSize r + span xs + 8 + sz} = {}"
      "keeps r1 r' ?PID (live p r)" "interruptionCode p' = interruptionCode p" "pcb p' = pcb p"
      using alloc_in_page [OF same(1) hp(1) ok s(3)] hp(2) same(2) ps1 s0(1) by (metis int_nat_eq)
    show thesis
      by (rule succeeds [of "page * pageSize r + off + 8" p' r'])
        (use guard f(1) po a s(2) keeps_trans [OF k1 a(5)] in
          \<open>auto simp: memory_heap_alloc_def heap_find_space_available_def allocated_def sizeof_t_heapmetadata_def\<close>)
  next
    case None
    show thesis
    proof (cases "freeFrameCount (mram (rmem r)) = 0")
      case True
      then have "freeFrameCount (mram (rmem r1)) = 0" using f(3) by (simp add: same_remote_def)
      with same(1,3) step have "heap_new_page config p r1
        = Inr (ERROR_NO_PAGES_FOR_PROCESS, p\<lparr>interruptionCode := ERROR_NO_PAGES_FOR_PROCESS\<rparr>, r1)"
        by (intro heap_new_page_full) simp_all
      then show thesis
        using guard f(1,3) None True
        by (intro fails [of r1]) (auto simp: memory_heap_alloc_def heap_find_space_available_def
            ERROR_NO_PAGES_FOR_PROCESS_def)
    next
      case False
      then have free: "freeFrameCount (mram (rmem r1)) \<noteq> 0" using f(3) by (simp add: same_remote_def)
      define page where "page = heap_max_page_num config p + 1"
      let ?new = "\<lparr>hp_page = page, hp_freeSpace = pageSize r1 - 8\<rparr>"
      let ?p = "p\<lparr>heapPages := heapPages p @ [?new]\<rparr>"
      obtain r2 where n: "heap_new_page config p r1 = Inr (page, ?p, r2)" "heap_inv ?p r2"
        "page_ok r2 ?PID ?new ([] @ (nat (pageSize r1 - 8), True) # [])"
        "live ?p r2 = live p r" "keeps r1 r2 ?PID (live p r)" "pageSize r2 = pageSize r"
        using heap_new_page_spec [OF same(1) _ free, of config] same(2,3) step ps1
        unfolding page_def [symmetric] by (metis append_Nil)
      have fit1: "nat sz = nat (pageSize r1 - 8) \<or> nat sz + 8 \<le> nat (pageSize r1 - 8)"
        using fit ps1 by simp
      have new: "?new \<in> set (heapPages ?p)" by simp
      have ok: "page_ok r2 (pid (pcb ?p)) ?new ([] @ (nat (pageSize r1 - 8), True) # [])"
        using n(3) by simp
      note a = alloc_in_page [OF n(2) new ok fit1]
      obtain p' r' where a: "heap_alloc ?p (nat sz) (hp_page ?new) (span []) r2 = Inr (p', r')" "heap_inv p' r'"
        "live p' r' = live ?p r2 \<union> {hp_page ?new * pageSize r2 + span [] + 8
           ..<hp_page ?new * pageSize r2 + span [] + 8 + int (nat sz)}"
        "live ?p r2 \<inter> {hp_page ?new * pageSize r2 + span [] + 8
           ..<hp_page ?new * pageSize r2 + span [] + 8 + int (nat sz)} = {}"
        "keeps r2 r' (pid (pcb ?p)) (live ?p r2)" "interruptionCode p' = interruptionCode ?p" "pcb p' = pcb ?p"
        by (rule a)
      have addr: "hp_page ?new * pageSize r2 + span [] + 8 = page * pageSize r + 8"
        "int (nat sz) = sz" "hp_page ?new = page" "span [] = 0" using n(6) s0(1) by simp_all
      have kp: "keeps r r' ?PID (live p r)"
        using keeps_trans [OF keeps_trans [OF k1 n(5)]] a(5) n(4) by simp
      have al: "allocated p r sz (page * pageSize r + 8) p' r'"
        unfolding allocated_def using a(2,3,4,6,7) kp unfolding addr n(4) by (simp add: n(6))
      have "0 \<le> page" using step by (simp add: in_step_def page_def)
      then show thesis
        using guard f(1) None n(1) a(1)
        by (intro succeeds [OF _ al])
          (simp add: memory_heap_alloc_def heap_find_space_available_def sizeof_t_heapmetadata_def)
    qed
  qed
qed

text \<open>
  A new page whose rest is too short for a header: \<open>heap_alloc\<close> writes the second header across
  the end of the page, Memory refuses, and the Kernel exits.
\<close>

lemma write_meta_fails:
  assumes "remote_ok r" "PID \<noteq> -1" "0 \<le> off" "off < pageSize r" "length (md_pad md) = 3"
    "rbytes r PID (page * pageSize r + off) 8 = None"
  shows "write_meta r PID page off md = Inl Exit_Failure"
proof -
  have "meta_bytes md \<noteq> []" "rbytes r PID (page * pageSize r + off) (length (meta_bytes md)) = None"
    using assms(5,6) by (simp_all add: meta_bytes_def)
  from remote_write_fails [OF assms(1-4) this] obtain r' where
    "remote_write r PID page off (meta_bytes md) = Inr (ERROR_MEMORY, r')" .
  then show ?thesis by (simp add: write_meta_def ERROR_MEMORY_def sizeof_t_heapmetadata_def)
qed

lemma heap_find_pages_short:
  "\<forall>hp \<in> set hps. hp_freeSpace hp < int sz \<Longrightarrow> heap_find_pages r PID sz hps = Inr (None, r)"
  by (induction hps) auto

lemma heap_alloc_split_fails:
  assumes "read_meta r (pid (pcb p)) page off = Inr (Some md, r1)" "sz < md_size md"
    "write_meta r1 (pid (pcb p)) page off \<lparr>md_size = sz, md_isFree = False, md_pad = [0, 0, 0]\<rparr> = Inr r2"
    "find_heapPage page p = Some h" "length (md_pad md) = 3"
    "\<And>md. length (md_pad md) = 3 \<Longrightarrow> write_meta r2 (pid (pcb p)) page (off + 8 + int sz) md = Inl e"
  shows "heap_alloc p sz page off r = Inl e"
  using assms by (simp add: heap_alloc_def Let_def)

lemma memory_heap_alloc_gap:
  assumes inv: "heap_inv p r" and step: "in_step config p r"
    and sz: "0 \<le> sz" "pageSize r - 16 < sz" "sz < pageSize r - 8"
    and short: "\<forall>hp \<in> set (heapPages p). hp_freeSpace hp < sz"
    and free: "freeFrameCount (mram (rmem r)) \<noteq> 0"
  shows "memory_heap_alloc config p sz r = Inl Exit_Failure"
proof -
  let ?PID = "pid (pcb p)"
  have ps: "8 < pageSize r" "pageSize r < 2 ^ 31" and PID: "?PID \<noteq> -1"
    using inv by (simp_all add: heap_inv_def heap_ready_def)
  define page where "page = heap_max_page_num config p + 1"
  let ?new = "\<lparr>hp_page = page, hp_freeSpace = pageSize r - 8\<rparr>"
  let ?p = "p\<lparr>heapPages := heapPages p @ [?new]\<rparr>"
  obtain r2 where n: "heap_new_page config p r = Inr (page, ?p, r2)" "heap_inv ?p r2"
    "page_ok r2 ?PID ?new [(nat (pageSize r - 8), True)]" "pageSize r2 = pageSize r"
    "rbyte r2 ?PID ((page + 1) * pageSize r) = None"
    unfolding page_def by (rule heap_new_page_spec [OF inv step free])
  let ?md = "\<lambda>pad. \<lparr>md_size = nat (pageSize r - 8), md_isFree = True, md_pad = pad\<rparr>"
  obtain pad where h: "header r2 ?PID page 0 (?md pad)"
    using n(3) by (auto simp: page_ok_def)
  have ready2: "heap_ready r2 ?PID" using n(2) by (simp add: heap_inv_def)
  have zero: "(0::int) \<le> 0" "0 < pageSize r2" using ps n(4) by simp_all
  obtain r3 where r3: "read_meta r2 ?PID page 0 = Inr (Some (?md pad), r3)" "remote_ok r3" "same_remote r2 r3"
    using read_meta_ok [OF ready2 h zero] .
  have ready3: "heap_ready r3 ?PID" by (rule heap_ready_same [OF ready2 r3(2,3)])
  have v3: "pageSize r3 = pageSize r" "rbytes r3 = rbytes r2" "rbyte r3 = rbyte r2"
    using same_remote_view [OF r3(3)] n(4) by simp_all
  have zero3: "(0::int) \<le> 0" "0 < pageSize r3" using ps v3 by simp_all
  let ?md1 = "\<lparr>md_size = nat sz, md_isFree = False, md_pad = [0, 0, 0]\<rparr>"
  have md1: "length (md_pad ?md1) = 3" "md_size ?md1 < 2 ^ 31" using sz ps by auto
  have "rbytes r3 ?PID (page * pageSize r3 + 0) 8 \<noteq> None"
    using h by (simp add: header_def v3 n(4))
  note mapped3 = this
  obtain r4 where r4: "write_meta r3 ?PID page 0 ?md1 = Inr r4" "remote_ok r4" "heap_ready r4 ?PID"
    and ed: "\<And>lo hi. lo \<le> page * pageSize r3 + 0 \<Longrightarrow> page * pageSize r3 + 0 + 8 \<le> hi \<Longrightarrow>
       edits r3 r4 ?PID lo hi (- {page * pageSize r3 + 0..<page * pageSize r3 + 0 + 8})"
    by (rule write_header_in [OF ready3 zero3 md1 mapped3]) blast
  note ed' = ed [OF order_refl order_refl]
  have ps4: "pageSize r4 = pageSize r" using edits_pageSize [OF ed'] v3 by simp
  have out: "rbyte r4 ?PID ((page + 1) * pageSize r) = None"
    using edits_mapped_byte [OF ed'] n(5) v3(3) by simp
  have "rbytes r4 ?PID (page * pageSize r4 + (8 + sz)) 8 = None"
    unfolding rbytes_rbyte those_None_iff ps4
  proof -
    have "page * pageSize r + (8 + sz) + int (nat (pageSize r - 8 - sz)) = (page + 1) * pageSize r"
      using sz by (simp add: algebra_simps)
    moreover have "nat (pageSize r - 8 - sz) \<in> set [0..<8]" using sz by auto
    ultimately show "None \<in> set (map (\<lambda>i. rbyte r4 ?PID (page * pageSize r + (8 + sz) + int i)) [0..<8])"
      using out by (metis (no_types, lifting) image_eqI list.set_map)
  qed
  moreover have "0 \<le> 8 + sz" "8 + sz < pageSize r4" using sz ps4 by simp_all
  ultimately have w: "write_meta r4 ?PID page (8 + sz) md = Inl Exit_Failure" if "length (md_pad md) = 3" for md
    using write_meta_fails [OF r4(2) PID _ _ that] by blast
  have "length pad = 3" using h by (simp add: header_def)
  moreover have "find_heapPage page ?p = Some ?new"
    using find_heapPage_in [of ?p ?new] n(2) by (simp add: heap_inv_def)
  ultimately have "heap_alloc ?p (nat sz) page 0 r2 = Inl Exit_Failure"
    using r3(1) r4(1) w sz
    by (intro heap_alloc_split_fails [of r2 _ page 0 "?md pad" r3 _ r4]) simp_all
  moreover have "heap_find_space_available p (nat sz) r = Inr (None, r)"
    using short sz(1) by (simp add: heap_find_space_available_def heap_find_pages_short)
  moreover have "0 \<le> page" using step by (simp add: in_step_def page_def)
  moreover have "\<not> size_t_of_int sz > size_t_of_int (pageSize r - sizeof_t_heapmetadata)"
    using alloc_guard [OF ps, of sz] sz ps by simp
  ultimately show ?thesis using n(1) by (simp add: memory_heap_alloc_def)
qed

text \<open>
  Releasing a block. When the page is empty afterwards the frame goes back to Memory, and the
  page stays in \<open>heapPages\<close> with all its bytes free.
\<close>

lemma layout_frame:
  assumes "layout r PID page 0 bl" "bl \<noteq> []" "remote_ok r" "8 < pageSize r"
  shows "frame_of (mram (rmem r)) (PID, page) \<noteq> None"
proof -
  obtain md where "header r PID page 0 md" using assms(1,2) by (cases bl rule: list.exhaust) auto
  then have "rbytes r PID (page * pageSize r + 0) 8 \<noteq> None" by (simp add: header_def)
  moreover have "ram_inv (rcfg r) (mram (rmem r))" using assms(3) by (simp add: remote_ok_def mem_inv_def)
  ultimately have "page_at (rcfg r) (rmem r) (PID, page) \<noteq> None"
    using bytes_at_page [of "rcfg r" "rmem r" 0 8 PID page] assms(4)
    by (auto simp: rbytes_def pageSize_def)
  then show ?thesis by (auto simp: page_at_def)
qed

definition released :: "t_program \<Rightarrow> remote \<Rightarrow> int \<Rightarrow> nat \<Rightarrow> t_program \<Rightarrow> remote \<Rightarrow> bool" where
  "released p r a n p' r' \<longleftrightarrow>
     heap_inv p' r' \<and> live p' r' = live p r - {a..<a + int n}
     \<and> keeps r r' (pid (pcb p)) (live p r - {a..<a + int n}) \<and> pcb p' = pcb p
     \<and> interruptionCode p' = interruptionCode p
     \<and> stats p' = (stats p)\<lparr>bytesFree := bytesFree (stats p) + int n\<rparr>"

lemma upd_heapPage_fields [simp]:
  "interruptionCode (upd_heapPage page f p) = interruptionCode p"
  "stats (upd_heapPage page f p) = stats p"
  by (simp_all add: upd_heapPage_def)

lemma used_without:
  "used_bytes a (xs @ (n, True) # ys)
     = used_bytes a (xs @ (n, False) # ys) - {a + span xs + 8..<a + span xs + 8 + int n}"
  (is "?U = ?V - ?B")
proof -
  have "?V = ?U \<union> ?B" by (auto simp: used_bytes_append add.assoc)
  moreover have "x \<notin> ?U" if "x \<in> ?B" for x
    using that used_bytes_above [of x "a + span xs + 8 + int n" ys] used_bytes_below [of x a xs]
    by (auto simp: used_bytes_append add.assoc)
  ultimately show ?thesis by blast
qed

lemma memory_heap_free_spec:
  assumes inv: "heap_inv p r" and hp: "hp \<in> set (heapPages p)"
    and ok: "page_ok r (pid (pcb p)) hp (xs @ (n, False) # ys)" and offs: "span xs + 8 < pageSize r"
  defines "bl' \<equiv> coalesced (xs @ (n, True) # ys)"
    and "a \<equiv> hp_page hp * pageSize r + span xs + 8"
  obtains (kept) p' r' where "free_bytes bl' \<noteq> pageSize r - 8"
      "memory_heap_free p (hp_page hp) (span xs + 8) r = Inr (p', r')" "released p r a n p' r'"
  | (returned) p' r1 r' where "free_bytes bl' = pageSize r - 8"
      "memory_heap_free p (hp_page hp) (span xs + 8) r = Inr (p', r')"
      "released p r a n p' r1" "remote_free_page r1 (pid (pcb p)) (hp_page hp) = Inr (0, r')"
      "find_heapPage (hp_page hp) p' = Some \<lparr>hp_page = hp_page hp, hp_freeSpace = pageSize r - 8\<rparr>"
      "frame_of (mram (rmem r')) (pid (pcb p), hp_page hp) = None"
proof -
  note keptI = that(1) and returnedI = that(2)
  let ?PID = "pid (pcb p)" and ?page = "hp_page hp" and ?base = "hp_page hp * pageSize r"
    and ?bl = "xs @ (n, False) # ys"
  have ready: "heap_ready r ?PID" and ps: "8 < pageSize r" and dist: "distinct (map hp_page (heapPages p))"
    using inv by (simp_all add: heap_inv_def)
  have l: "layout r ?PID ?page 0 ?bl" and fb: "hp_freeSpace hp = free_bytes ?bl"
    using ok by (simp_all add: page_ok_def)
  have find: "find_heapPage ?page p = Some hp" by (rule find_heapPage_in [OF dist hp])
  obtain r1 where r1: "remote_ok r1" "layout r1 ?PID ?page 0 bl'"
    "edits r r1 ?PID ?base (?base + pageSize r) (used_bytes ?base (xs @ (n, True) # ys))"
    "heap_free p ?page (span xs + 8) r =
      (let p1 = upd_heapPage ?page (set_free (free_bytes bl')) (count_free n p) in
       if free_bytes bl' = pageSize r - 8
       then and_then (remote_free_page r1 ?PID ?page) (\<lambda>(resp, r3).
              Inr (1, if resp \<noteq> 0 then p1\<lparr>interruptionCode := resp\<rparr> else p1, r3))
       else Inr (1, p1, r1))"
    unfolding bl'_def by (rule heap_free_spec [OF ready l find fb])
  let ?p1 = "upd_heapPage ?page (set_free (free_bytes bl')) (count_free n p)"
  have bl': "bl' \<noteq> []" "merged bl'"
    unfolding bl'_def by (auto intro!: coalesced_nonempty coalesced_merged)
  have p1: "pcb ?p1 = pcb p"
    "heapPages ?p1 = heapPages (upd_heapPage ?page (set_free (free_bytes bl')) p)"
    by (simp_all add: upd_heapPage_def)
  note upd = heap_inv_update [OF inv hp l r1(2) bl' r1(1,3) p1]
  have u: "used_bytes ?base bl' = used_bytes ?base ?bl - {a..<a + int n}"
    unfolding bl'_def a_def coalesced_used by (rule used_without)
  have in_live: "used_bytes ?base ?bl \<subseteq> live p r" using hp l by (auto simp: live_def)
  have blk: "{a..<a + int n} \<subseteq> used_bytes ?base ?bl"
    by (auto simp: a_def used_bytes_append add.assoc)
  have lv: "live ?p1 r1 = live p r - {a..<a + int n}"
    unfolding upd(2) u using in_live blk by blast
  have kp: "keeps r r1 ?PID (live p r - {a..<a + int n})"
  proof (rule edits_keeps [OF r1(3)])
    fix x assume "x \<in> live p r - {a..<a + int n}"
    then show "x < ?base \<or> ?base + pageSize r \<le> x \<or> x \<in> used_bytes ?base (xs @ (n, True) # ys)"
      using live_outside [OF inv hp l] unfolding used_without a_def by blast
  qed
  have rel: "released p r a n ?p1 r1"
    unfolding released_def using upd(1) lv kp by (simp add: count_free_def)
  have guard: "\<not> (span xs + 8 < 0 \<or> span xs + 8 > pageSize r - 1)"
    using offs span_nonneg [of xs] by auto
  show thesis
  proof (cases "free_bytes bl' = pageSize r - 8")
    case False
    then show thesis
      using find guard r1(4) rel by (intro keptI [of ?p1 r1]) (auto simp: memory_heap_free_def)
  next
    case True
    have PID: "?PID \<noteq> -1" and lk: "\<not> rlocked r1" and ri: "ram_inv (rcfg r1) (mram (rmem r1))"
      using ready r1(1) by (simp_all add: heap_ready_def remote_ok_def mem_inv_def)
    have fr: "frame_of (mram (rmem r1)) (?PID, ?page) \<noteq> None"
      using layout_frame [OF r1(2) bl'(1) r1(1)] edits_pageSize [OF r1(3)] ps by simp
    obtain R where R: "ram_free_page (rhash r1) (mram (rmem r1)) ?PID ?page = Inr (0, R)"
      "frame_of R = (frame_of (mram (rmem r1)))((?PID, ?page) := None)"
      using ram_free_page_spec [OF ri PID, of "rhash r1" ?page] fr by auto
    let ?r' = "r1\<lparr>rmem := (rmem r1)\<lparr>mram := R\<rparr>\<rparr>"
    have fp: "remote_free_page r1 ?PID ?page = Inr (0, ?r')"
      using R(1) lk by (simp add: remote_free_page_def)
    have "find_heapPage ?page ?p1 = Some (set_free (free_bytes bl') hp)"
      using find by (simp add: find_upd_heapPage)
    then have "find_heapPage ?page ?p1 = Some \<lparr>hp_page = ?page, hp_freeSpace = pageSize r - 8\<rparr>"
      using True by (simp add: set_free_def)
    then show thesis
      using find guard r1(4) rel fp R(2) True
      by (intro returnedI [of ?p1 ?r' r1]) (auto simp: memory_heap_free_def)
  qed
qed

text \<open>
  The trap left by the page that was given back: its entry promises room, so the next
  allocation that fits reads its header, finds no page, and the Kernel exits. (A page still in
  the cache of Memory is read from there instead: theory \<open>Memory_Ops\<close>.)
\<close>

lemma heap_alloc_returned_page:
  assumes "heap_ready r (pid (pcb p))" "0 < pageSize r"
    and "heapPages p = hp # hps" "int sz \<le> hp_freeSpace hp"
    and "frame_of (mram (rmem r)) (pid (pcb p), hp_page hp) = None"
  shows "heap_find_space_available p sz r = Inl Exit_Failure"
proof -
  let ?PID = "pid (pcb p)" and ?page = "hp_page hp"
  have rok: "remote_ok r" and PID: "?PID \<noteq> -1" using assms(1) by (simp_all add: heap_ready_def)
  have "page_at (rcfg r) (rmem r) (?PID, ?page) = None" using assms(5) by (simp add: page_at_def)
  then have "rbyte r ?PID (?page * pageSize r) = None"
    using byte_at_in_page [of 0 "rcfg r" "rmem r" ?PID ?page] assms(2) by (simp add: rbyte_def pageSize_def)
  moreover have "0 \<in> set [0..<8::nat]" by simp
  ultimately have "rbytes r ?PID (?page * pageSize r + 0) 8 = None"
    unfolding rbytes_rbyte those_None_iff by (force simp: image_iff simp del: upt_conv_Cons upt_eq_Cons_conv set_upt)
  from remote_read_fails [OF rok PID order_refl assms(2) _ this] obtain r' where
    "remote_read r ?PID ?page 0 (int 8) = Inr ((-5, None), r')" by auto
  then have "read_meta r ?PID ?page 0 = Inr (None, r')"
    by (simp add: read_meta_def sizeof_t_heapmetadata_def)
  then have "find_in_page r ?PID ?page sz 0 = Some (Inl Exit_Failure)"
    using assms(2) by (simp add: find_in_page.simps)
  then show ?thesis using assms(3,4) by (simp add: heap_find_space_available_def returns_def)
qed

end
