(* ===== verification/Serialization.thy ===== *)
theory Serialization
  imports Process_Control
begin

text \<open>
  \<open>functions/serialization.c\<close> (the Kernel's and the CPU's are the same file): how a process
  control block travels between the two. Integers go as 32-bit little-endian words, arrays and
  dictionaries as their element count followed by fixed-size elements, keys as C strings.

  A serializer returns the bytes it writes (its \<open>t_dataBlob\<close>, without the 4 GiB limit of the
  \<open>u_int32_t\<close> sizes). A deserializer reads from the front of a stream and returns the value and
  the \<open>byteSize\<close> it used; nothing in the code checks the end of the stream, so a read beyond it
  is a \<open>Buffer_Overflow\<close>. \<open>fresh\<close> is what \<open>malloc\<close> left in the ten \<open>args\<close> of a new context.
\<close>

subsection \<open>Values of fixed size\<close>

definition SERIALIZED_POSITION_SIZE :: nat where "SERIALIZED_POSITION_SIZE = 12"
definition PUNTERO_SIZE :: nat where "PUNTERO_SIZE = 4"

definition int_value_serializer :: "int \<Rightarrow> byte list" where
  "int_value_serializer v = i32 v"

definition int_value_deserializer :: "byte list \<Rightarrow> int" where
  "int_value_deserializer bs = i32_of bs"

definition instruction_serializer :: "t_intructions \<Rightarrow> byte list" where
  "instruction_serializer i = u32 (ins_start i) @ u32 (ins_offset i)"

definition instruction_deserializer :: "byte list \<Rightarrow> t_intructions" where
  "instruction_deserializer bs = \<lparr>ins_start = u32_of bs, ins_offset = u32_of (drop 4 bs)\<rparr>"

definition position_serializer :: "t_position option \<Rightarrow> byte list" where
  "position_serializer p =
     (case p of
        None \<Rightarrow> i32 (-1) @ i32 (-1) @ i32 (-1)
      | Some p \<Rightarrow> i32 (pos_page p) @ i32 (pos_off p) @ i32 (pos_size p))"

definition position_deserializer :: "byte list \<Rightarrow> t_position" where
  "position_deserializer bs =
     \<lparr>pos_page = i32_of bs, pos_off = i32_of (drop 4 bs), pos_size = i32_of (drop 8 bs)\<rparr>"

text \<open>\<open>n\<close> bytes of the stream behind a pointer.\<close>

definition read_stream :: "nat \<Rightarrow> byte list \<Rightarrow> fault + byte list" where
  "read_stream n bs = (if length bs < n then Inl Buffer_Overflow else Inr (take n bs))"

subsection \<open>Arrays\<close>

definition serialize_static_type_array ::
    "('a \<Rightarrow> byte list) \<Rightarrow> nat \<Rightarrow> 'a list \<Rightarrow> fault + byte list" where
  "serialize_static_type_array valueSerializer elemCount array =
     (if length array < elemCount then Inl Buffer_Overflow
      else Inr (u32 elemCount @ concat (map valueSerializer (take elemCount array))))"

fun read_elements :: "(byte list \<Rightarrow> 'a) \<Rightarrow> nat \<Rightarrow> nat \<Rightarrow> byte list \<Rightarrow> fault + 'a list" where
  "read_elements valueDeserializer n 0 bs = Inr []"
| "read_elements valueDeserializer n (Suc k) bs =
     and_then (read_stream n bs) (\<lambda>e.
     and_then (read_elements valueDeserializer n k (drop n bs)) (\<lambda>es.
     Inr (valueDeserializer e # es)))"

definition deserialize_static_type_array ::
    "(byte list \<Rightarrow> 'a) \<Rightarrow> nat \<Rightarrow> byte list \<Rightarrow> fault + 'a list \<times> nat" where
  "deserialize_static_type_array valueDeserializer n bs =
     and_then (read_stream 4 bs) (\<lambda>c.
     and_then (read_elements valueDeserializer n (u32_of c) (drop 4 bs)) (\<lambda>es.
     Inr (es, 4 + u32_of c * n)))"

subsection \<open>Dictionaries\<close>

definition serialize_static_type_dict :: "('a \<Rightarrow> byte list) \<Rightarrow> 'a t_dictionary \<Rightarrow> byte list" where
  "serialize_static_type_dict valueSerializer d =
     u32 (dictionary_size d) @ concat (map (\<lambda>(k, v). k @ [0] @ valueSerializer v) d)"

text \<open>\<open>string_duplicate\<close> of the stream: the key and its NUL.\<close>

definition read_key :: "byte list \<Rightarrow> fault + cstring" where
  "read_key bs = (if 0 \<in> set bs then Inr (takeWhile (\<lambda>b. b \<noteq> 0) bs) else Inl Buffer_Overflow)"

fun read_entries ::
    "(byte list \<Rightarrow> 'a) \<Rightarrow> nat \<Rightarrow> nat \<Rightarrow> byte list \<Rightarrow> 'a t_dictionary \<Rightarrow> nat
       \<Rightarrow> fault + 'a t_dictionary \<times> nat" where
  "read_entries valueDeserializer n 0 bs d off = Inr (d, off)"
| "read_entries valueDeserializer n (Suc k) bs d off =
     and_then (read_key bs) (\<lambda>key.
     let bs1 = drop (length key + 1) bs in
     and_then (read_stream n bs1) (\<lambda>e.
     read_entries valueDeserializer n k (drop n bs1)
       (dictionary_put key (valueDeserializer e) d) (off + (length key + 1) + n)))"

definition deserialize_static_type_dict ::
    "(byte list \<Rightarrow> 'a) \<Rightarrow> nat \<Rightarrow> byte list \<Rightarrow> fault + 'a t_dictionary \<times> nat" where
  "deserialize_static_type_dict valueDeserializer n bs =
     and_then (read_stream 4 bs) (\<lambda>c.
     read_entries valueDeserializer n (u32_of c) (drop 4 bs) [] 4)"

subsection \<open>Stack contexts\<close>

definition stack_context_serialize :: "t_indiceDelStack \<Rightarrow> fault + byte list" where
  "stack_context_serialize c =
     and_then (serialize_static_type_array (\<lambda>p. position_serializer (Some p)) (argCount c) (args c))
       (\<lambda>serializedArgs.
     Inr (serialize_static_type_dict (\<lambda>p. position_serializer (Some p)) (vars c)
          @ serializedArgs @ position_serializer (retVar c) @ i32 (retPos c)))"

definition null_position :: "t_position \<Rightarrow> bool" where
  "null_position p \<longleftrightarrow> pos_page p = -1 \<and> pos_off p = -1 \<and> pos_size p = -1"

definition stack_context_deserialize ::
    "t_position list \<Rightarrow> byte list \<Rightarrow> fault + t_indiceDelStack \<times> nat" where
  "stack_context_deserialize fresh bs =
     and_then (deserialize_static_type_dict position_deserializer SERIALIZED_POSITION_SIZE bs)
       (\<lambda>(vs, varsSize).
     and_then (read_stream 4 (drop varsSize bs)) (\<lambda>c.
     and_then (deserialize_static_type_array position_deserializer SERIALIZED_POSITION_SIZE
         (drop varsSize bs)) (\<lambda>(deserializedArgs, argsSize).
     if length fresh < u32_of c then Inl Buffer_Overflow
     else and_then (read_stream 12 (drop (varsSize + argsSize) bs)) (\<lambda>r.
     and_then (read_stream 4 (drop (varsSize + argsSize + SERIALIZED_POSITION_SIZE) bs)) (\<lambda>p.
     let rv = position_deserializer r in
     Inr (\<lparr>vars = vs, argCount = u32_of c,
           args = deserializedArgs @ drop (u32_of c) fresh,
           retPos = i32_of p,
           retVar = (if null_position rv then None else Some rv)\<rparr>,
          varsSize + argsSize + SERIALIZED_POSITION_SIZE + PUNTERO_SIZE))))))"

fun stack_contexts_serialize :: "t_indiceDelStack list \<Rightarrow> fault + byte list" where
  "stack_contexts_serialize [] = Inr []"
| "stack_contexts_serialize (c # cs) =
     and_then (stack_context_serialize c) (\<lambda>b.
     and_then (stack_contexts_serialize cs) (\<lambda>bs. Inr (b @ bs)))"

definition stack_serialize :: "t_indiceDelStack list \<Rightarrow> fault + byte list" where
  "stack_serialize stack =
     and_then (stack_contexts_serialize stack) (\<lambda>bs. Inr (u32 (length stack) @ bs))"

fun stack_contexts_deserialize ::
    "t_position list \<Rightarrow> nat \<Rightarrow> byte list \<Rightarrow> fault + t_indiceDelStack list \<times> nat" where
  "stack_contexts_deserialize fresh 0 bs = Inr ([], 0)"
| "stack_contexts_deserialize fresh (Suc k) bs =
     and_then (stack_context_deserialize fresh bs) (\<lambda>(c, n).
     and_then (stack_contexts_deserialize fresh k (drop n bs)) (\<lambda>(cs, m).
     Inr (c # cs, n + m)))"

definition stack_deserialize ::
    "t_position list \<Rightarrow> byte list \<Rightarrow> fault + t_indiceDelStack list \<times> nat" where
  "stack_deserialize fresh bs =
     and_then (read_stream 4 bs) (\<lambda>c.
     and_then (stack_contexts_deserialize fresh (u32_of c) (drop 4 bs)) (\<lambda>(cs, n).
     Inr (cs, 4 + n)))"

subsection \<open>The process control block\<close>

definition pcb_serialize :: "t_pcb \<Rightarrow> fault + byte list" where
  "pcb_serialize p =
     and_then (serialize_static_type_array instruction_serializer (indiceDeCodigoCant p)
         (indiceDeCodigo p)) (\<lambda>serializedCodeIndex.
     and_then (stack_serialize (indiceDeStack p)) (\<lambda>serializedStack.
     and_then (read_stream (indiceDeEtiquetasCant p) (indiceDeEtiquetas p)) (\<lambda>etiquetas.
     Inr (i32 (pid p) @ u32 (pc p) @ u32 (cantPagsCodigo p) @ u32 (indiceDeCodigoCant p)
          @ u32 (indiceDeEtiquetasCant p) @ u32 (stackPosition p) @ u32 (maxStackPosition p)
          @ i32 (exitCode p) @ serializedCodeIndex @ etiquetas @ serializedStack))))"

definition pcb_deserialize :: "t_position list \<Rightarrow> byte list \<Rightarrow> fault + t_pcb" where
  "pcb_deserialize fresh bs =
     and_then (read_stream 32 bs) (\<lambda>ints.
     and_then (deserialize_static_type_array instruction_deserializer 8 (drop 32 bs))
       (\<lambda>(codigo, codeIndexSize).
     let offset = 32 + codeIndexSize; etiquetasCant = u32_of (drop 16 ints) in
     and_then (read_stream etiquetasCant (drop offset bs)) (\<lambda>etiquetas.
     and_then (stack_deserialize fresh (drop (offset + etiquetasCant) bs)) (\<lambda>(stack, stackSize).
     if length bs \<noteq> offset + etiquetasCant + stackSize then Inl Assert_Failure
     else Inr \<lparr>pid = i32_of ints, pc = u32_of (drop 4 ints), cantPagsCodigo = u32_of (drop 8 ints),
           indiceDeCodigoCant = u32_of (drop 12 ints), indiceDeCodigo = codigo,
           indiceDeEtiquetasCant = etiquetasCant, indiceDeEtiquetas = etiquetas,
           indiceDeStack = stack, stackPosition = u32_of (drop 20 ints),
           maxStackPosition = u32_of (drop 24 ints), exitCode = i32_of (drop 28 ints)\<rparr>))))"

subsection \<open>Comparison\<close>

text \<open>\<open>position_compare\<close> dereferences the copy whenever the original is not null.\<close>

definition position_compare :: "t_position option \<Rightarrow> t_position option \<Rightarrow> fault + bool" where
  "position_compare original copy =
     (case original of
        None \<Rightarrow> Inr (copy = None)
      | Some p \<Rightarrow>
          (case copy of
             None \<Rightarrow> Inl Null_Deref
           | Some q \<Rightarrow> Inr (pos_page p = pos_page q \<and> pos_off p = pos_off q \<and> pos_size p = pos_size q)))"

fun compare_entries ::
    "('a option \<Rightarrow> 'a option \<Rightarrow> fault + bool) \<Rightarrow> 'a t_dictionary \<Rightarrow> 'a t_dictionary \<Rightarrow> fault + bool" where
  "compare_entries valueCompare copy [] = Inr True"
| "compare_entries valueCompare copy ((k, v) # d) =
     (case dictionary_get copy k of
        None \<Rightarrow> Inr False
      | Some w \<Rightarrow>
          and_then (valueCompare (Some v) (Some w)) (\<lambda>b.
          if b then compare_entries valueCompare copy d else Inr False))"

definition dictionary_compare ::
    "('a option \<Rightarrow> 'a option \<Rightarrow> fault + bool) \<Rightarrow> 'a t_dictionary \<Rightarrow> 'a t_dictionary \<Rightarrow> fault + bool" where
  "dictionary_compare valueCompare original copy =
     (if dictionary_size original \<noteq> dictionary_size copy then Inr False
      else compare_entries valueCompare copy original)"

fun compare_all :: "('a \<Rightarrow> 'a \<Rightarrow> fault + bool) \<Rightarrow> 'a list \<Rightarrow> 'a list \<Rightarrow> fault + bool" where
  "compare_all f (x # xs) (y # ys) =
     and_then (f x y) (\<lambda>b. if b then compare_all f xs ys else Inr False)"
| "compare_all f _ _ = Inr True"

definition stack_context_compare :: "t_indiceDelStack \<Rightarrow> t_indiceDelStack \<Rightarrow> fault + bool" where
  "stack_context_compare original copy =
     and_then (dictionary_compare position_compare (vars original) (vars copy)) (\<lambda>b.
     if \<not> b then Inr False
     else if argCount original \<noteq> argCount copy then Inr False
     else and_then (compare_all (\<lambda>p q. position_compare (Some p) (Some q))
            (take (argCount original) (args original)) (take (argCount original) (args copy))) (\<lambda>b.
     if \<not> b then Inr False
     else if retPos original \<noteq> retPos copy then Inr False
     else position_compare (retVar original) (retVar copy)))"

definition stack_compare :: "t_indiceDelStack list \<Rightarrow> t_indiceDelStack list \<Rightarrow> fault + bool" where
  "stack_compare original copy =
     (if length original \<noteq> length copy then Inr False
      else compare_all stack_context_compare original copy)"

definition pcb_compare :: "t_pcb \<Rightarrow> t_pcb \<Rightarrow> fault + bool" where
  "pcb_compare original copy =
     (if pid original \<noteq> pid copy then Inr False
      else if pc original \<noteq> pc copy then Inr False
      else if cantPagsCodigo original \<noteq> cantPagsCodigo copy then Inr False
      else if indiceDeCodigoCant original \<noteq> indiceDeCodigoCant copy then Inr False
      else if indiceDeEtiquetasCant original \<noteq> indiceDeEtiquetasCant copy then Inr False
      else if stackPosition original \<noteq> stackPosition copy then Inr False
      else if maxStackPosition original \<noteq> maxStackPosition copy then Inr False
      else if exitCode original \<noteq> exitCode copy then Inr False
      else if take (indiceDeCodigoCant original) (indiceDeCodigo original)
           \<noteq> take (indiceDeCodigoCant original) (indiceDeCodigo copy) then Inr False
      else if take (indiceDeEtiquetasCant original) (indiceDeEtiquetas original)
           \<noteq> take (indiceDeEtiquetasCant original) (indiceDeEtiquetas copy) then Inr False
      else stack_compare (indiceDeStack original) (indiceDeStack copy))"

subsection \<open>Arrays and dictionaries of fixed-size values\<close>

text \<open>
  \<open>SerializerCopier\<close> and \<open>DeserializerCopier\<close>: what the generic routines expect of a pair of
  copiers for elements of \<open>n\<close> bytes.
\<close>

locale fixed_codec =
  fixes ser :: "'a \<Rightarrow> byte list"
    and des :: "byte list \<Rightarrow> 'a"
    and n :: nat
    and ok :: "'a \<Rightarrow> bool"
  assumes ser_length: "length (ser x) = n"
    and des_ser: "ok x \<Longrightarrow> des (ser x) = x"
begin

lemma read_elements_ser:
  "\<forall>x \<in> set xs. ok x \<Longrightarrow>
     read_elements des n (length xs) (concat (map ser xs) @ rest) = Inr xs"
proof (induction xs)
  case (Cons x xs)
  then show ?case by (simp add: read_stream_def ser_length des_ser)
qed simp

lemma length_concat_ser: "length (concat (map ser xs)) = length xs * n"
  by (induction xs) (simp_all add: ser_length)

lemma array_round:
  assumes "serialize_static_type_array ser k xs = Inr bs" "k < 2 ^ 32" "\<forall>x \<in> set (take k xs). ok x"
  shows "deserialize_static_type_array des n (bs @ rest) = Inr (take k xs, length bs)"
proof -
  have bs: "bs = u32 k @ concat (map ser (take k xs))" and k: "length (take k xs) = k"
    using assms(1) by (auto simp: serialize_static_type_array_def split: if_splits)
  show ?thesis
    using read_elements_ser [OF assms(3), of rest] assms(2) length_concat_ser [of "take k xs"] k
      u32_round [OF assms(2), of "[]"]
    by (simp add: bs deserialize_static_type_array_def read_stream_def)
qed

definition entry :: "cstring \<times> 'a \<Rightarrow> byte list" where
  "entry e = fst e @ [0] @ ser (snd e)"

lemma entry_pair: "entry (k, v) = k @ 0 # ser v"
  by (simp add: entry_def)

lemma read_entries_ser:
  assumes "\<forall>e \<in> set es. 0 \<notin> set (fst e) \<and> ok (snd e)" "distinct (map fst (d @ es))"
  shows "read_entries des n (length es) (concat (map entry es) @ rest) d off
    = Inr (d @ es, off + length (concat (map entry es)))"
  using assms
proof (induction es arbitrary: d off)
  case (Cons e es)
  obtain k v where e: "e = (k, v)" by (cases e)
  have k: "0 \<notin> set k" and v: "ok v" using Cons.prems(1) e by auto
  have key: "takeWhile (\<lambda>b. b \<noteq> 0) (k @ 0 # r) = k" for r
    using k by (induction k) auto
  have "dictionary_put k v d = d @ [(k, v)]"
    using Cons.prems(2) e by (intro dictionary_put_new) auto
  moreover have "read_entries des n (length es) (concat (map entry es) @ rest) (d @ [(k, v)]) o'
      = Inr ((d @ [(k, v)]) @ es, o' + length (concat (map entry es)))" for o'
    using Cons.prems e by (intro Cons.IH) auto
  ultimately show ?case
    by (simp add: e entry_pair read_key_def key read_stream_def ser_length des_ser v)
qed simp

lemma dict_round:
  assumes "\<forall>e \<in> set d. 0 \<notin> set (fst e) \<and> ok (snd e)" "distinct (map fst d)" "length d < 2 ^ 32"
  shows "deserialize_static_type_dict des n (serialize_static_type_dict ser d @ rest)
    = Inr (d, length (serialize_static_type_dict ser d))"
proof -
  have s: "serialize_static_type_dict ser d = u32 (length d) @ concat (map entry d)"
    by (simp add: serialize_static_type_dict_def entry_def [abs_def] dictionary_size_def split_beta')
  show ?thesis
    using read_entries_ser [of d "[]" rest 4] assms u32_round [OF assms(3), of "[]"]
    by (simp add: s deserialize_static_type_dict_def read_stream_def)
qed

end

definition int32 :: "int \<Rightarrow> bool" where
  "int32 v \<longleftrightarrow> - (2 ^ 31) \<le> v \<and> v < 2 ^ 31"

definition position_ok :: "t_position \<Rightarrow> bool" where
  "position_ok p \<longleftrightarrow> int32 (pos_page p) \<and> int32 (pos_off p) \<and> int32 (pos_size p)"

definition instruction_ok :: "t_intructions \<Rightarrow> bool" where
  "instruction_ok i \<longleftrightarrow> ins_start i < 2 ^ 32 \<and> ins_offset i < 2 ^ 32"

lemma i32_head: "int32 v \<Longrightarrow> i32_of (i32 v @ r) = v"
  using i32_round [of v r] by (simp add: int32_def)

lemma i32_head_nil: "int32 v \<Longrightarrow> i32_of (i32 v) = v"
  using i32_head [of v "[]"] by simp

lemma u32_head_nil: "v < 2 ^ 32 \<Longrightarrow> u32_of (u32 v) = v"
  using u32_round [of v "[]"] by simp

lemmas heads = i32_head i32_head_nil u32_round u32_head_nil

interpretation ints: fixed_codec int_value_serializer int_value_deserializer 4 int32
  by unfold_locales (simp_all add: int_value_serializer_def int_value_deserializer_def heads)

interpretation instructions: fixed_codec instruction_serializer instruction_deserializer 8 instruction_ok
  by unfold_locales
    (simp_all add: instruction_serializer_def instruction_deserializer_def instruction_ok_def heads)

interpretation positions: fixed_codec "\<lambda>p. position_serializer (Some p)" position_deserializer
    SERIALIZED_POSITION_SIZE position_ok
  by unfold_locales
    (simp_all add: position_serializer_def position_deserializer_def position_ok_def heads
      SERIALIZED_POSITION_SIZE_def)

subsection \<open>Stack contexts and the PCB\<close>

definition context_ok :: "t_indiceDelStack \<Rightarrow> bool" where
  "context_ok c \<longleftrightarrow>
     distinct (map fst (vars c)) \<and> length (vars c) < 2 ^ 32
     \<and> (\<forall>e \<in> set (vars c). 0 \<notin> set (fst e) \<and> position_ok (snd e))
     \<and> length (args c) = 10 \<and> argCount c \<le> 10 \<and> (\<forall>p \<in> set (args c). position_ok p)
     \<and> (\<forall>p. retVar c = Some p \<longrightarrow> position_ok p \<and> \<not> null_position p)
     \<and> int32 (retPos c)"

text \<open>What arrives of a context: the arguments beyond \<open>argCount\<close> are those of the fresh block.\<close>

definition arrived :: "t_position list \<Rightarrow> t_indiceDelStack \<Rightarrow> t_indiceDelStack" where
  "arrived fresh c = c\<lparr>args := take (argCount c) (args c) @ drop (argCount c) fresh\<rparr>"

lemma position_round:
  "position_ok p \<Longrightarrow> position_deserializer (position_serializer (Some p)) = p"
  by (rule positions.des_ser)

lemma null_round: "null_position (position_deserializer (position_serializer None))"
  using heads(2) [of "-1"]
  by (simp add: null_position_def position_deserializer_def position_serializer_def int32_def heads(1))

lemma length_position_serializer [simp]: "length (position_serializer p) = 12"
  by (cases p) (simp_all add: position_serializer_def)

lemma args_serialize:
  assumes "context_ok c"
  shows "serialize_static_type_array (\<lambda>p. position_serializer (Some p)) (argCount c) (args c)
    = Inr (u32 (argCount c) @ concat (map (\<lambda>p. position_serializer (Some p)) (take (argCount c) (args c))))"
  using assms by (simp add: serialize_static_type_array_def context_ok_def)

lemma context_round:
  assumes ok: "context_ok c" and fresh: "length fresh = 10"
  obtains bs where "stack_context_serialize c = Inr bs"
    "\<And>rest. stack_context_deserialize fresh (bs @ rest) = Inr (arrived fresh c, length bs)"
proof -
  define vb where "vb = serialize_static_type_dict (\<lambda>p. position_serializer (Some p)) (vars c)"
  define ab where "ab = u32 (argCount c) @ concat (map (\<lambda>p. position_serializer (Some p)) (take (argCount c) (args c)))"
  have ab: "serialize_static_type_array (\<lambda>p. position_serializer (Some p)) (argCount c) (args c) = Inr ab"
    unfolding ab_def by (rule args_serialize [OF ok])
  have V: "deserialize_static_type_dict position_deserializer SERIALIZED_POSITION_SIZE (vb @ r)
      = Inr (vars c, length vb)" for r
    unfolding vb_def using ok by (intro positions.dict_round) (auto simp: context_ok_def)
  have count: "argCount c \<le> 10" "argCount c < 2 ^ 32" using ok by (auto simp: context_ok_def)
  have A: "deserialize_static_type_array position_deserializer SERIALIZED_POSITION_SIZE (ab @ r)
      = Inr (take (argCount c) (args c), length ab)" for r
    using ok count by (intro positions.array_round [OF ab]) (auto simp: context_ok_def dest: in_set_takeD)
  have C: "read_stream 4 (ab @ r) = Inr (u32 (argCount c))" for r
    by (simp add: ab_def read_stream_def)
  let ?bs = "vb @ ab @ position_serializer (retVar c) @ i32 (retPos c)"
  have ser: "stack_context_serialize c = Inr ?bs"
    by (simp add: stack_context_serialize_def ab vb_def)
  have rv: "(if null_position (position_deserializer (position_serializer (retVar c))) then None
      else Some (position_deserializer (position_serializer (retVar c)))) = retVar c"
  proof (cases "retVar c")
    case None
    then show ?thesis using null_round by simp
  next
    case (Some p)
    with ok show ?thesis by (simp add: context_ok_def position_round)
  qed
  have R: "read_stream 12 (position_serializer (retVar c) @ r) = Inr (position_serializer (retVar c))" for r
    by (simp add: read_stream_def)
  have P: "read_stream 4 (i32 (retPos c) @ r) = Inr (i32 (retPos c))" for r
    by (simp add: read_stream_def)
  have "stack_context_deserialize fresh (?bs @ rest) = Inr (arrived fresh c, length ?bs)" for rest
    using ok count fresh
    by (simp add: stack_context_deserialize_def V [unfolded SERIALIZED_POSITION_SIZE_def]
        A [unfolded SERIALIZED_POSITION_SIZE_def] C R P rv Let_def SERIALIZED_POSITION_SIZE_def
        PUNTERO_SIZE_def heads arrived_def context_ok_def)
  with ser that show thesis by blast
qed

lemma contexts_round:
  assumes "\<forall>c \<in> set cs. context_ok c" "length fresh = 10"
  shows "\<exists>bs. stack_contexts_serialize cs = Inr bs
    \<and> (\<forall>rest. stack_contexts_deserialize fresh (length cs) (bs @ rest)
          = Inr (map (arrived fresh) cs, length bs))"
  using assms(1)
proof (induction cs)
  case (Cons c cs)
  obtain b where b: "stack_context_serialize c = Inr b"
    "\<And>rest. stack_context_deserialize fresh (b @ rest) = Inr (arrived fresh c, length b)"
    using context_round [OF _ assms(2), of c] Cons.prems by auto
  obtain bs where "stack_contexts_serialize cs = Inr bs"
    "\<forall>rest. stack_contexts_deserialize fresh (length cs) (bs @ rest)
      = Inr (map (arrived fresh) cs, length bs)"
    using Cons by auto
  with b show ?case by simp
qed simp

lemma stack_round:
  assumes "\<forall>c \<in> set cs. context_ok c" "length fresh = 10" "length cs < 2 ^ 32"
  obtains bs where "stack_serialize cs = Inr bs"
    "\<And>rest. stack_deserialize fresh (bs @ rest) = Inr (map (arrived fresh) cs, length bs)"
proof -
  from contexts_round [OF assms(1,2)] obtain bs where bs: "stack_contexts_serialize cs = Inr bs"
    "\<forall>rest. stack_contexts_deserialize fresh (length cs) (bs @ rest)
      = Inr (map (arrived fresh) cs, length bs)" by blast
  show thesis
    by (rule that [of "u32 (length cs) @ bs"])
      (use bs assms(3) in \<open>simp_all add: stack_serialize_def stack_deserialize_def read_stream_def heads\<close>)
qed

definition pcb_ok :: "t_pcb \<Rightarrow> bool" where
  "pcb_ok p \<longleftrightarrow>
     int32 (pid p) \<and> int32 (exitCode p)
     \<and> pc p < 2 ^ 32 \<and> cantPagsCodigo p < 2 ^ 32 \<and> stackPosition p < 2 ^ 32
     \<and> maxStackPosition p < 2 ^ 32
     \<and> indiceDeCodigoCant p = length (indiceDeCodigo p) \<and> indiceDeCodigoCant p < 2 ^ 32
     \<and> (\<forall>i \<in> set (indiceDeCodigo p). instruction_ok i)
     \<and> indiceDeEtiquetasCant p = length (indiceDeEtiquetas p) \<and> indiceDeEtiquetasCant p < 2 ^ 32
     \<and> (\<forall>c \<in> set (indiceDeStack p). context_ok c) \<and> length (indiceDeStack p) < 2 ^ 32"

definition pcb_arrived :: "t_position list \<Rightarrow> t_pcb \<Rightarrow> t_pcb" where
  "pcb_arrived fresh p = p\<lparr>indiceDeStack := map (arrived fresh) (indiceDeStack p)\<rparr>"

lemma pcb_round:
  assumes ok: "pcb_ok p" and fresh: "length fresh = 10"
  obtains bs where "pcb_serialize p = Inr bs" "pcb_deserialize fresh bs = Inr (pcb_arrived fresh p)"
proof -
  obtain sb where S: "stack_serialize (indiceDeStack p) = Inr sb"
    "\<And>rest. stack_deserialize fresh (sb @ rest) = Inr (map (arrived fresh) (indiceDeStack p), length sb)"
    using stack_round [OF _ fresh, of "indiceDeStack p"] ok by (auto simp: pcb_ok_def)
  define cb where "cb = u32 (indiceDeCodigoCant p) @ concat (map instruction_serializer (indiceDeCodigo p))"
  have cs: "serialize_static_type_array instruction_serializer (indiceDeCodigoCant p) (indiceDeCodigo p) = Inr cb"
    using ok by (simp add: serialize_static_type_array_def cb_def pcb_ok_def)
  have C: "deserialize_static_type_array instruction_deserializer 8 (cb @ r)
      = Inr (indiceDeCodigo p, length cb)" for r
    using instructions.array_round [OF cs, of r] ok by (auto simp: pcb_ok_def)
  let ?ints = "i32 (pid p) @ u32 (pc p) @ u32 (cantPagsCodigo p) @ u32 (indiceDeCodigoCant p)
          @ u32 (indiceDeEtiquetasCant p) @ u32 (stackPosition p) @ u32 (maxStackPosition p)
          @ i32 (exitCode p)"
  let ?bs = "?ints @ cb @ indiceDeEtiquetas p @ sb"
  have E: "read_stream (indiceDeEtiquetasCant p) (indiceDeEtiquetas p @ r) = Inr (indiceDeEtiquetas p)" for r
    using ok by (simp add: read_stream_def pcb_ok_def)
  have ser: "pcb_serialize p = Inr ?bs"
    using E [of "[]"] by (simp add: pcb_serialize_def cs S(1))
  have I: "read_stream 32 (?ints @ r) = Inr ?ints" for r by (simp add: read_stream_def)
  have ec: "u32_of (drop 16 ?ints) = indiceDeEtiquetasCant p"
    using ok by (simp add: pcb_ok_def heads)
  have tail: "drop 32 ?bs = cb @ indiceDeEtiquetas p @ sb"
      "drop (32 + length cb) ?bs = indiceDeEtiquetas p @ sb"
      "drop (32 + length cb + indiceDeEtiquetasCant p) ?bs = sb"
    using ok by (simp_all add: pcb_ok_def)
  have "pcb_deserialize fresh ?bs = Inr \<lparr>pid = i32_of ?ints, pc = u32_of (drop 4 ?ints),
      cantPagsCodigo = u32_of (drop 8 ?ints), indiceDeCodigoCant = u32_of (drop 12 ?ints),
      indiceDeCodigo = indiceDeCodigo p, indiceDeEtiquetasCant = u32_of (drop 16 ?ints),
      indiceDeEtiquetas = indiceDeEtiquetas p, indiceDeStack = map (arrived fresh) (indiceDeStack p),
      stackPosition = u32_of (drop 20 ?ints), maxStackPosition = u32_of (drop 24 ?ints),
      exitCode = i32_of (drop 28 ?ints)\<rparr>"
  proof -
    have len: "length ?bs = 32 + length cb + indiceDeEtiquetasCant p + length sb"
      using ok by (simp add: pcb_ok_def)
    have I': "read_stream 32 ?bs = Inr ?ints" using I [of "cb @ indiceDeEtiquetas p @ sb"] by simp
    show ?thesis
      using S(2) [of "[]"]
      unfolding pcb_deserialize_def I' and_then_simps tail(1) C prod.case Let_def ec tail(2,3) E len
      by simp
  qed
  also have "\<dots> = Inr (pcb_arrived fresh p)"
    using ok by (simp add: pcb_ok_def heads pcb_arrived_def)
  finally show thesis using ser that by blast
qed

subsection \<open>Comparison\<close>

lemma compare_entries_iff:
  "compare_entries position_compare b a = Inr (\<forall>(k, v) \<in> set a. dictionary_get b k = Some v)"
proof (induction a)
  case (Cons e a)
  obtain k v where e: "e = (k, v)" by (cases e)
  show ?case
  proof (cases "dictionary_get b k")
    case (Some w)
    have "position_compare (Some v) (Some w) = Inr (v = w)"
      by (cases v; cases w) (simp add: position_compare_def)
    with Some Cons e show ?thesis by auto
  qed (use e in simp)
qed simp

lemma dictionary_compare_iff:
  assumes "distinct (map fst a)" "distinct (map fst b)"
  shows "dictionary_compare position_compare a b = Inr (map_of a = map_of b)"
proof -
  have c: "length d = card (dom (map_of d))" if "distinct (map fst d)" for d :: "t_position t_dictionary"
    using that by (metis distinct_card dom_map_of_conv_image_fst length_map set_map)
  have "(length a = length b \<and> (\<forall>(k, v) \<in> set a. map_of b k = Some v)) \<longleftrightarrow> map_of a = map_of b"
  proof
    assume l: "length a = length b \<and> (\<forall>(k, v) \<in> set a. map_of b k = Some v)"
    have le: "map_of a \<subseteq>\<^sub>m map_of b"
      unfolding map_le_def
    proof
      fix k assume "k \<in> dom (map_of a)"
      then obtain v where v: "map_of a k = Some v" by auto
      then have "map_of b k = Some v" using l map_of_SomeD [OF v] by auto
      with v show "map_of a k = map_of b k" by simp
    qed
    then have "dom (map_of a) = dom (map_of b)"
      using l c assms by (metis card_subset_eq finite_dom_map_of map_le_implies_dom_le)
    with le show "map_of a = map_of b" by (metis map_le_antisym map_le_def)
  next
    assume e: "map_of a = map_of b"
    then have "length a = length b" using c assms by metis
    moreover have "map_of b k = Some v" if "(k, v) \<in> set a" for k v
      using map_of_is_SomeI [OF assms(1) that] e by simp
    ultimately show "length a = length b \<and> (\<forall>(k, v) \<in> set a. map_of b k = Some v)" by auto
  qed
  then show ?thesis
    by (auto simp: dictionary_compare_def dictionary_size_def compare_entries_iff dictionary_get_def)
qed

lemma compare_all_refl: "\<forall>x \<in> set xs. f x (g x) = Inr True \<Longrightarrow> compare_all f xs (map g xs) = Inr True"
  by (induction xs) auto

lemma position_compare_refl [simp]: "position_compare p p = Inr True"
  by (simp add: position_compare_def split: option.split)

lemma context_compare_arrived:
  assumes "context_ok c"
  shows "stack_context_compare c (arrived fresh c) = Inr True"
proof -
  have "dictionary_compare position_compare (vars c) (vars c) = Inr True"
    using dictionary_compare_iff assms by (simp add: context_ok_def)
  moreover have "take (argCount c) (args (arrived fresh c)) = take (argCount c) (args c)"
    using assms by (simp add: arrived_def context_ok_def)
  moreover have "vars (arrived fresh c) = vars c" "argCount (arrived fresh c) = argCount c"
      "retPos (arrived fresh c) = retPos c" "retVar (arrived fresh c) = retVar c"
    by (simp_all add: arrived_def)
  moreover have "compare_all (\<lambda>p q. position_compare (Some p) (Some q)) xs xs = Inr True" for xs
    using compare_all_refl [of xs "\<lambda>p q. position_compare (Some p) (Some q)" "\<lambda>x. x"] by simp
  ultimately show ?thesis by (simp only: stack_context_compare_def and_then_simps) simp
qed

lemma pcb_compare_arrived:
  assumes "pcb_ok p" shows "pcb_compare p (pcb_arrived fresh p) = Inr True"
proof -
  have "compare_all stack_context_compare (indiceDeStack p) (map (arrived fresh) (indiceDeStack p)) = Inr True"
    using assms by (intro compare_all_refl) (simp add: pcb_ok_def context_compare_arrived)
  then show ?thesis by (simp add: pcb_compare_def pcb_arrived_def stack_compare_def)
qed

end
