(* ===== verification/Kernel_State.thy ===== *)
theory Kernel_State
  imports Heap Serialization
begin

text \<open>
  The state of the Kernel process: the globals of \<open>Kernel/src/commons/declarations.h\<close> and what
  they point to.

  \<^item> A \<open>t_program\<close> is never freed once it is in a queue, so the store \<open>programs\<close> is total and the
    queues hold pointers into it; a \<open>t_global_fd\<close> is freed when its last user closes it, so \<open>gfds\<close>
    is partial and reading a freed one is \<open>Use_After_Free\<close>.
  \<^item> \<open>cpus\<close> is the list of \<open>queueCPUs\<close>; a handler gets its \<open>t_cpu\<close> as an index into it, which
    is stable while the handler runs (it holds the mutex of the list).
  \<^item> \<open>socks\<close> are the connections with CPUs and consoles by file descriptor, \<open>fsSock\<close> the one with
    the FileSystem process, \<open>memory\<close> the Memory process behind its stubs.
  \<^item> \<open>env\<close> holds what comes from outside: the parser library and the content of fresh memory.

  One request is handled at a time here; the mutexes are the subject of theory \<open>Kernel_Locks\<close>.
\<close>

record t_metadata_program =
  instruccion_inicio :: nat
  instrucciones_size :: nat
  instrucciones_serializado :: "t_intructions list"
  etiquetas_size :: nat
  etiquetas :: "byte list"

record t_env =
  metadata_desde_literal :: "byte list \<Rightarrow> t_metadata_program"
  descriptor_salida :: int
  fresh_args :: "t_position list"
  fresh_size :: nat
  stack_junk :: int

record kernel =
  config :: t_kernel
  env :: t_env
  programID :: int
  programs :: "ptr \<Rightarrow> t_program"
  nextProgram :: ptr
  gfds :: "ptr \<Rightarrow> t_global_fd option"
  nextGfd :: ptr
  globalFDs :: "ptr list"
  newQ :: "ptr list"
  readyQ :: "ptr list"
  blockedQ :: "ptr list"
  finishedQ :: "ptr list"
  cpus :: "t_cpu list"
  socks :: "int \<Rightarrow> sock"
  fsSock :: sock
  memory :: remote
  programMaster :: "int set"
  closed :: "int set"

subsection \<open>Reading and writing the stores\<close>

definition upd :: "ptr \<Rightarrow> (t_program \<Rightarrow> t_program) \<Rightarrow> kernel \<Rightarrow> kernel" where
  "upd p f k = k\<lparr>programs := (programs k)(p := f (programs k p))\<rparr>"

definition set_cpu :: "nat \<Rightarrow> (t_cpu \<Rightarrow> t_cpu) \<Rightarrow> kernel \<Rightarrow> kernel" where
  "set_cpu c f k = k\<lparr>cpus := (cpus k)[c := f (cpus k ! c)]\<rparr>"

definition interrupt :: "ptr \<Rightarrow> int \<Rightarrow> kernel \<Rightarrow> kernel" where
  "interrupt p code = upd p (\<lambda>q. q\<lparr>interruptionCode := code\<rparr>)"

definition gfd :: "kernel \<Rightarrow> ptr \<Rightarrow> fault + t_global_fd" where
  "gfd k g = (case gfds k g of None \<Rightarrow> Inl Use_After_Free | Some G \<Rightarrow> Inr G)"

definition upd_gfd :: "ptr \<Rightarrow> (t_global_fd \<Rightarrow> t_global_fd) \<Rightarrow> kernel \<Rightarrow> kernel" where
  "upd_gfd g f k = k\<lparr>gfds := (gfds k)(g := map_option f (gfds k g))\<rparr>"

text \<open>\<open>cpu->program\<close>, dereferenced.\<close>

definition current :: "nat \<Rightarrow> kernel \<Rightarrow> fault + ptr" where
  "current c k = (case cpu_program (cpus k ! c) of None \<Rightarrow> Inl Null_Deref | Some p \<Rightarrow> Inr p)"

subsection \<open>Sockets\<close>

definition sock_send_int :: "int \<Rightarrow> int \<Rightarrow> kernel \<Rightarrow> int \<times> kernel" where
  "sock_send_int fd v k =
     (case socket_send_int (socks k fd) v of (n, s) \<Rightarrow> (n, k\<lparr>socks := (socks k)(fd := s)\<rparr>))"

definition sock_send_string :: "int \<Rightarrow> cstring \<Rightarrow> kernel \<Rightarrow> int \<times> kernel" where
  "sock_send_string fd c k =
     (case socket_send_string (socks k fd) c of (n, s) \<Rightarrow> (n, k\<lparr>socks := (socks k)(fd := s)\<rparr>))"

definition sock_send :: "int \<Rightarrow> byte list \<Rightarrow> kernel \<Rightarrow> int \<times> kernel" where
  "sock_send fd b k =
     (case socket_send (socks k fd) b of (n, s) \<Rightarrow> (n, k\<lparr>socks := (socks k)(fd := s)\<rparr>))"

text \<open>Receiving, with the check \<open><= 0\<close> of the callers: no value when it failed.\<close>

definition sock_recv_int :: "int \<Rightarrow> kernel \<Rightarrow> int option \<times> kernel" where
  "sock_recv_int fd k =
     (case socket_recv_int (socks k fd) of
        (n, v, s) \<Rightarrow> (if n \<le> 0 then None else Some v, k\<lparr>socks := (socks k)(fd := s)\<rparr>))"

definition sock_recv :: "int \<Rightarrow> kernel \<Rightarrow> byte list option \<times> kernel" where
  "sock_recv fd k =
     (case socket_recv (socks k fd) of
        (n, b, s) \<Rightarrow> (if n \<le> 0 then None else b, k\<lparr>socks := (socks k)(fd := s)\<rparr>))"

definition sock_recv_string :: "int \<Rightarrow> kernel \<Rightarrow> cstring option \<times> kernel" where
  "sock_recv_string fd k = (case sock_recv fd k of (b, k') \<Rightarrow> (map_option cstr b, k'))"

text \<open>The answer of a handler to its CPU: a failing send marks the CPU as disconnected.\<close>

definition disconnect :: "nat \<Rightarrow> kernel \<Rightarrow> kernel" where
  "disconnect c = set_cpu c (\<lambda>u. u\<lparr>cpu_disconnected := 1\<rparr>)"

definition reply_int :: "nat \<Rightarrow> int \<Rightarrow> kernel \<Rightarrow> bool \<times> kernel" where
  "reply_int c v k =
     (case sock_send_int (cpu_socket (cpus k ! c)) v k of
        (n, k') \<Rightarrow> if n \<le> 0 then (False, disconnect c k') else (True, k'))"

definition reply_string :: "nat \<Rightarrow> string \<Rightarrow> kernel \<Rightarrow> bool \<times> kernel" where
  "reply_string c t k =
     (case sock_send_string (cpu_socket (cpus k ! c)) (str t) k of
        (n, k') \<Rightarrow> if n \<le> 0 then (False, disconnect c k') else (True, k'))"

subsection \<open>What the helpers leave alone\<close>

lemma upd_simps [simp]:
  "config (upd p f k) = config k" "env (upd p f k) = env k" "cpus (upd p f k) = cpus k"
  "newQ (upd p f k) = newQ k" "readyQ (upd p f k) = readyQ k" "blockedQ (upd p f k) = blockedQ k"
  "finishedQ (upd p f k) = finishedQ k" "globalFDs (upd p f k) = globalFDs k"
  "gfds (upd p f k) = gfds k" "nextProgram (upd p f k) = nextProgram k"
  "nextGfd (upd p f k) = nextGfd k" "memory (upd p f k) = memory k" "socks (upd p f k) = socks k"
  "fsSock (upd p f k) = fsSock k" "programID (upd p f k) = programID k"
  "programs (upd p f k) q = (if q = p then f (programs k p) else programs k q)"
  by (simp_all add: upd_def)

text \<open>
  \<open>same_but_sockets k k'\<close>: only the connections, and the \<open>disconnected\<close> marks of CPUs, differ.
\<close>

definition unmarked :: "t_cpu \<Rightarrow> int \<times> ptr option" where
  "unmarked u = (cpu_socket u, cpu_program u)"

definition same_but_sockets :: "kernel \<Rightarrow> kernel \<Rightarrow> bool" where
  "same_but_sockets k k' \<longleftrightarrow>
     config k' = config k \<and> env k' = env k \<and> programID k' = programID k
     \<and> programs k' = programs k \<and> nextProgram k' = nextProgram k \<and> gfds k' = gfds k
     \<and> nextGfd k' = nextGfd k \<and> globalFDs k' = globalFDs k \<and> newQ k' = newQ k
     \<and> readyQ k' = readyQ k \<and> blockedQ k' = blockedQ k \<and> finishedQ k' = finishedQ k
     \<and> map unmarked (cpus k') = map unmarked (cpus k) \<and> memory k' = memory k
     \<and> fsSock k' = fsSock k \<and> programMaster k' = programMaster k \<and> closed k' = closed k"

lemma same_but_sockets_refl [simp]: "same_but_sockets k k"
  by (simp add: same_but_sockets_def)

lemma same_but_sockets_trans [trans]:
  "same_but_sockets a b \<Longrightarrow> same_but_sockets b c \<Longrightarrow> same_but_sockets a c"
  by (simp add: same_but_sockets_def)

lemma sock_same:
  "sock_send_int fd v k = (n, k') \<Longrightarrow> same_but_sockets k k'"
  "sock_send_string fd c k = (n, k') \<Longrightarrow> same_but_sockets k k'"
  "sock_send fd b k = (n, k') \<Longrightarrow> same_but_sockets k k'"
  "sock_recv_int fd k = (i, k') \<Longrightarrow> same_but_sockets k k'"
  "sock_recv fd k = (r, k') \<Longrightarrow> same_but_sockets k k'"
  "sock_recv_string fd k = (t, k') \<Longrightarrow> same_but_sockets k k'"
  by (auto simp: same_but_sockets_def sock_send_int_def sock_send_string_def sock_send_def
      sock_recv_int_def sock_recv_def sock_recv_string_def split: prod.splits)

lemma disconnect_same: "same_but_sockets k (disconnect c k)"
proof -
  have "map unmarked ((cpus k)[c := (cpus k ! c)\<lparr>cpu_disconnected := 1\<rparr>]) = map unmarked (cpus k)"
  proof (rule nth_equalityI)
    show "map unmarked ((cpus k)[c := (cpus k ! c)\<lparr>cpu_disconnected := 1\<rparr>]) ! i = map unmarked (cpus k) ! i"
      if "i < length (map unmarked ((cpus k)[c := (cpus k ! c)\<lparr>cpu_disconnected := 1\<rparr>]))" for i
      using that by (cases "i = c") (simp_all add: unmarked_def)
  qed simp
  then show ?thesis by (simp add: same_but_sockets_def disconnect_def set_cpu_def)
qed

lemma reply_same:
  "reply_int c v k = (b, k') \<Longrightarrow> same_but_sockets k k'"
  "reply_string c t k = (b, k') \<Longrightarrow> same_but_sockets k k'"
  by (auto simp: reply_int_def reply_string_def split: prod.splits if_splits
      dest!: sock_same intro: same_but_sockets_trans disconnect_same)

lemma same_cpus:
  assumes "same_but_sockets k k'"
  shows "length (cpus k') = length (cpus k)"
    "map cpu_program (cpus k') = map cpu_program (cpus k)"
    "c < length (cpus k) \<Longrightarrow> cpu_program (cpus k' ! c) = cpu_program (cpus k ! c)"
    "c < length (cpus k) \<Longrightarrow> cpu_socket (cpus k' ! c) = cpu_socket (cpus k ! c)"
proof -
  have e: "map unmarked (cpus k') = map unmarked (cpus k)" using assms by (simp add: same_but_sockets_def)
  then show l: "length (cpus k') = length (cpus k)" by (metis length_map)
  have "map (snd \<circ> unmarked) (cpus k') = map (snd \<circ> unmarked) (cpus k)"
    using e by (metis map_map)
  then show "map cpu_program (cpus k') = map cpu_program (cpus k)" by (simp add: unmarked_def comp_def)
  show "c < length (cpus k) \<Longrightarrow> cpu_program (cpus k' ! c) = cpu_program (cpus k ! c)"
    "c < length (cpus k) \<Longrightarrow> cpu_socket (cpus k' ! c) = cpu_socket (cpus k ! c)"
    using arg_cong [OF e, of "\<lambda>xs. xs ! c"] l by (simp_all add: unmarked_def)
qed

end
