(* ===== verification/File_Descriptors.thy ===== *)
theory File_Descriptors
  imports Kernel_State FS_Client
begin

text \<open>
  \<open>Kernel/src/functions/file_descriptor.c\<close>, and the closing of the files of a process that ends
  (\<open>program.c\<close>). A process has a list of descriptors; each points to an entry of the global
  table, shared by every descriptor of the same path, which counts them in \<open>open\<close>.

  \<open>fd_inv\<close> is the property the code relies on: \<open>open\<close> is the number of descriptors that point
  to the entry, the entries of the table are alive, and they have distinct paths.
\<close>

definition FILE_DESCRIPTOR_PERMISSION_READ :: cstring where
  "FILE_DESCRIPTOR_PERMISSION_READ = str ''r''"
definition FILE_DESCRIPTOR_PERMISSION_WRITE :: cstring where
  "FILE_DESCRIPTOR_PERMISSION_WRITE = str ''w''"
definition FILE_DESCRIPTOR_PERMISSION_CREATE :: cstring where
  "FILE_DESCRIPTOR_PERMISSION_CREATE = str ''c''"

text \<open>\<open>strstr(text, part) != NULL\<close>.\<close>

fun contains :: "cstring \<Rightarrow> cstring \<Rightarrow> bool" where
  "contains part [] \<longleftrightarrow> part = []"
| "contains part (b # bs) \<longleftrightarrow> take (length part) (b # bs) = part \<or> contains part bs"

subsection \<open>Descriptors of a process\<close>

definition file_descriptor_get_by_number :: "t_program \<Rightarrow> int \<Rightarrow> t_fd option" where
  "file_descriptor_get_by_number program nFD =
     list_find (\<lambda>fd. fd_value fd = nFD) (fileDescriptors program)"

definition file_descriptor_check_permission :: "t_fd \<Rightarrow> cstring \<Rightarrow> bool" where
  "file_descriptor_check_permission fd permission \<longleftrightarrow> contains permission (fd_permissions fd)"

definition new_fd :: "t_program \<Rightarrow> ptr \<Rightarrow> cstring \<Rightarrow> t_fd" where
  "new_fd program g permissions =
     \<lparr>fd_value = incrementalFD program, fd_cursor = 0, fd_permissions = permissions, fd_global = g\<rparr>"

definition file_descriptor_create :: "ptr \<Rightarrow> ptr \<Rightarrow> cstring \<Rightarrow> kernel \<Rightarrow> t_fd \<times> kernel" where
  "file_descriptor_create p g permissions k =
     (let fd = new_fd (programs k p) g permissions
      in (fd, upd p (\<lambda>q. q\<lparr>fileDescriptors := fileDescriptors q @ [fd],
                           incrementalFD := incrementalFD q + 1\<rparr>)
                (upd_gfd g (\<lambda>G. G\<lparr>gfd_open := gfd_open G + 1\<rparr>) k)))"

subsection \<open>The global table\<close>

text \<open>A search of the global table reads its entries up to the one it finds.\<close>

fun find_gfd :: "(t_global_fd \<Rightarrow> bool) \<Rightarrow> (ptr \<Rightarrow> t_global_fd option) \<Rightarrow> ptr list \<Rightarrow> fault + ptr option"
  where
    "find_gfd P heap [] = Inr None"
  | "find_gfd P heap (g # gs) =
       (case heap g of
          None \<Rightarrow> Inl Use_After_Free
        | Some G \<Rightarrow> if P G then Inr (Some g) else find_gfd P heap gs)"

text \<open>\<open>list_remove_by_condition\<close> on the table, and the \<open>free\<close> of what it returns.\<close>

definition remove_gfd :: "(t_global_fd \<Rightarrow> bool) \<Rightarrow> kernel \<Rightarrow> fault + kernel" where
  "remove_gfd P k =
     and_then (find_gfd P (gfds k) (globalFDs k)) (\<lambda>found.
       case found of
         None \<Rightarrow> Inr k
       | Some g \<Rightarrow> Inr (k\<lparr>globalFDs := remove1 g (globalFDs k), gfds := (gfds k)(g := None)\<rparr>))"

definition file_descriptor_global_get_by_path :: "cstring \<Rightarrow> kernel \<Rightarrow> fault + ptr option" where
  "file_descriptor_global_get_by_path path k =
     find_gfd (\<lambda>G. gfd_path G = path) (gfds k) (globalFDs k)"

definition file_descriptor_global_create :: "cstring \<Rightarrow> kernel \<Rightarrow> ptr \<times> kernel" where
  "file_descriptor_global_create path k =
     (nextGfd k,
      k\<lparr>nextGfd := nextGfd k + 1, globalFDs := globalFDs k @ [nextGfd k],
        gfds := (gfds k)(nextGfd k \<mapsto> \<lparr>gfd_path = path, gfd_open = 0\<rparr>)\<rparr>)"

subsection \<open>Closing the files of a process\<close>

definition fileIsNotOpenAnyMore :: "t_global_fd \<Rightarrow> bool" where
  "fileIsNotOpenAnyMore f \<longleftrightarrow> gfd_open f = 0"

definition deleteFileFromProcessFileTable :: "t_fd \<Rightarrow> kernel \<Rightarrow> fault + kernel" where
  "deleteFileFromProcessFileTable f k =
     and_then (gfd k (fd_global f)) (\<lambda>_.
       remove_gfd fileIsNotOpenAnyMore
         (upd_gfd (fd_global f) (\<lambda>G. G\<lparr>gfd_open := gfd_open G - 1\<rparr>) k))"

fun destroy_fds :: "t_fd list \<Rightarrow> kernel \<Rightarrow> fault + kernel" where
  "destroy_fds [] k = Inr k"
| "destroy_fds (f # fs) k = and_then (deleteFileFromProcessFileTable f k) (destroy_fds fs)"

definition close_opened_files :: "ptr \<Rightarrow> kernel \<Rightarrow> fault + kernel" where
  "close_opened_files p k =
     and_then (destroy_fds (fileDescriptors (programs k p)) k) (\<lambda>k'.
       Inr (upd p (\<lambda>q. q\<lparr>fileDescriptors := []\<rparr>) k'))"

subsection \<open>The helpers nothing calls\<close>

fun existeArchivoEnTablaGlobalDeArchivos ::
    "(ptr \<Rightarrow> t_global_fd option) \<Rightarrow> ptr list \<Rightarrow> cstring \<Rightarrow> ptr option \<Rightarrow> fault + ptr option" where
  "existeArchivoEnTablaGlobalDeArchivos heap [] path found = Inr found"
| "existeArchivoEnTablaGlobalDeArchivos heap (g # gs) path found =
     (case heap g of
        None \<Rightarrow> Inl Use_After_Free
      | Some G \<Rightarrow> existeArchivoEnTablaGlobalDeArchivos heap gs path
                   (if gfd_path G = path then Some g else found))"

fun process_had_opened_file ::
    "int \<Rightarrow> t_fd list \<Rightarrow> int \<Rightarrow> int \<Rightarrow> kernel \<Rightarrow> fault + int \<times> kernel" where
  "process_had_opened_file d [] i exists k = Inr (exists, k)"
| "process_had_opened_file d (fd # fds) i exists k =
     (if fd_value fd = d
      then and_then (gfd k (fd_global fd)) (\<lambda>_.
        process_had_opened_file d fds (i + 1) i
          (upd_gfd (fd_global fd) (\<lambda>G. G\<lparr>gfd_open := gfd_open G - 1\<rparr>) k))
      else process_had_opened_file d fds (i + 1) exists k)"

end
