(* ===== verification/Programs.thy ===== *)
theory Programs
  imports File_Descriptors
begin

text \<open>
  The life of a process in the Kernel: \<open>functions/program.c\<close>, \<open>functions/cpu.c\<close>, and the two
  planners of \<open>planner/\<close>. A process goes from the new queue to the ready queue when the long-term
  planner admits it (\<open>planificador_largo_plazo\<close>, which asks Memory for its pages), from there to a
  free CPU (\<open>planificar\<close>), and back to ready, to blocked, or to finished.

  The calls of the long-term planner from the dispatcher and back are a cycle of calls in C files,
  not of functions: \<open>planificar\<close> calls the long-term planner, which ends the processes Memory has
  no room for (\<open>program_finish\<close>).
\<close>

subsection \<open>The end of a process\<close>

definition program_did_finish :: "ptr \<Rightarrow> kernel \<Rightarrow> bool" where
  "program_did_finish p k \<longleftrightarrow>
     list_find (\<lambda>q. pid (pcb (programs k q)) = pid (pcb (programs k p))) (finishedQ k) = Some p"

definition get_memory_leaks :: "t_program \<Rightarrow> int" where
  "get_memory_leaks program = cantCallAlloc (stats program) - cantCallFree (stats program)"

definition set_exitCode :: "int \<Rightarrow> t_program \<Rightarrow> t_program" where
  "set_exitCode code program = program\<lparr>pcb := (pcb program)\<lparr>exitCode := code\<rparr>\<rparr>"

definition console_gone :: "int \<Rightarrow> bool" where
  "console_gone code \<longleftrightarrow> code = ERROR_CONSOLE_DISCONNECTED \<or> code = ERROR_CONSOLE_FINISH_COMMAND"

definition close_console :: "ptr \<Rightarrow> kernel \<Rightarrow> kernel" where
  "close_console p k = k\<lparr>closed := insert (p_socket (programs k p)) (closed k)\<rparr>"

text \<open>The two messages to the console; the second is not sent when the first fails.\<close>

definition inform_console :: "ptr \<Rightarrow> kernel \<Rightarrow> kernel" where
  "inform_console p k =
     (let program = programs k p; sk = p_socket program;
          informConsole = (\<not> console_gone (interruptionCode program) \<and> \<not> console_gone (exitCode (pcb program)));
          k0 = k\<lparr>programMaster := programMaster k - {sk}\<rparr>
      in if informConsole then
           (case sock_send_string sk (str ''FinEjecucion'') k0 of (n1, k1) \<Rightarrow>
            if n1 \<le> 0 then close_console p k1
            else close_console p (snd (sock_send_int sk (exitCode (pcb program)) k1)))
         else close_console p k0)"

definition program_finish :: "ptr \<Rightarrow> kernel \<Rightarrow> fault + kernel" where
  "program_finish p k =
     (if program_did_finish p k then Inr k
      else and_then (close_opened_files p (k\<lparr>finishedQ := finishedQ k @ [p]\<rparr>)) (\<lambda>k1.
           and_then (remote_end_program (memory k1) (pid (pcb (programs k1 p)))) (\<lambda>m.
           Inr (inform_console p (k1\<lparr>memory := m\<rparr>)))))"

subsection \<open>The long-term planner\<close>

text \<open>The pages of the code: integer division, rounded up.\<close>

definition code_pages :: "int \<Rightarrow> int \<Rightarrow> nat" where
  "code_pages size_of_code frame =
     (let q = size_t_of_int (c_quot size_of_code frame)
      in if q * size_t_of_int frame < size_t_of_int size_of_code then q + 1 else q)"

definition program_to_ready :: "ptr \<Rightarrow> kernel \<Rightarrow> fault + int \<times> kernel" where
  "program_to_ready p k =
     and_then (remote_frame_size (memory k)) (\<lambda>(frame, m0).
     let k0 = k\<lparr>memory := m0\<rparr> in
     if frame \<le> 0 then Inr (-20, k0)
     else
       let program = programs k0 p; pages = code_pages (codeSize program) frame;
           k1 = upd p (\<lambda>q. q\<lparr>pcb := (pcb q)\<lparr>cantPagsCodigo := pages,
                  maxStackPosition := size_t_of_int (stack_size (config k) * frame)\<rparr>\<rparr>) k0;
           paginasTotales = int pages + stack_size (config k)
       in and_then (remote_init (memory k1) (pid (pcb program)) paginasTotales) (\<lambda>(respuestaInit, m1).
          let k2 = k1\<lparr>memory := m1\<rparr> in
          if respuestaInit \<noteq> 0 then Inr (respuestaInit, k2)
          else and_then (remote_write (memory k2) (pid (pcb program)) 0 0 (p_code program))
            (\<lambda>(respuestaWrite, m2).
             let k3 = k2\<lparr>memory := m2\<rparr> in
             if respuestaWrite \<noteq> codeSize program then Inr (respuestaWrite, k3) else Inr (0, k3))))"

text \<open>One pass of the loop: the first of the new queue is admitted, or ends with the error code.\<close>

definition admit :: "ptr \<Rightarrow> kernel \<Rightarrow> fault + bool \<times> kernel" where
  "admit p k =
     and_then (program_to_ready p k) (\<lambda>(programStatus, k1).
       if programStatus \<noteq> 0
       then and_then (program_finish p (upd p (set_exitCode programStatus) k1)) (\<lambda>k2. Inr (False, k2))
       else Inr (True, k1\<lparr>readyQ := readyQ k1 @ [p]\<rparr>))"

fun planificador_loop :: "ptr list \<Rightarrow> int \<Rightarrow> kernel \<Rightarrow> fault + kernel" where
  "planificador_loop [] n k = Inr (k\<lparr>newQ := []\<rparr>)"
| "planificador_loop (p # ps) n k =
     (if n < grado_multiprog (config k)
      then and_then (admit p (k\<lparr>newQ := ps\<rparr>)) (\<lambda>(admitted, k1).
             planificador_loop ps (if admitted then n + 1 else n) k1)
      else Inr (k\<lparr>newQ := p # ps\<rparr>))"

definition busy :: "t_cpu \<Rightarrow> bool" where
  "busy cpu \<longleftrightarrow> cpu_program cpu \<noteq> None"

definition cantCorriendo :: "kernel \<Rightarrow> int" where
  "cantCorriendo k = int (length (readyQ k)) + int (length (filter busy (cpus k)))"

definition planificador_largo_plazo :: "kernel \<Rightarrow> fault + kernel" where
  "planificador_largo_plazo k =
     (if newQ k \<noteq> [] then planificador_loop (newQ k) (cantCorriendo k) k else Inr k)"

subsection \<open>The dispatcher\<close>

definition assigned_quantum :: "t_kernel \<Rightarrow> int \<Rightarrow> int" where
  "assigned_quantum cfg old =
     (if algoritmo cfg = str ''FIFO'' then -1
      else if algoritmo cfg = str ''RR'' then cfg_quantum cfg else old)"

definition planificar :: "kernel \<Rightarrow> fault + ptr option \<times> kernel" where
  "planificar k =
     and_then (planificador_largo_plazo k) (\<lambda>k1.
       case readyQ k1 of
         [] \<Rightarrow> Inr (None, k1)
       | p # ps \<Rightarrow> Inr (Some p, upd p (\<lambda>q. q\<lparr>quantum := assigned_quantum (config k1) (quantum q)\<rparr>)
                                  (k1\<lparr>readyQ := ps\<rparr>)))"

subsection \<open>\<open>cpu.c\<close>\<close>

definition cpu_send_pcb :: "nat \<Rightarrow> kernel \<Rightarrow> fault + kernel" where
  "cpu_send_pcb c k =
     (let sk = cpu_socket (cpus k ! c); k1 = snd (sock_send_string sk (str ''PCB'') k) in
      and_then (current c k1) (\<lambda>p.
      and_then (pcb_serialize (pcb (programs k1 p))) (\<lambda>serializedPcb.
      Inr (snd (sock_send sk serializedPcb k1)))))"

text \<open>
  The first reception is not checked, so the comparison may read a pointer that was never set. A
  null result is the null \<open>pcb\<close> that the Kernel dereferences when it next uses the process.
\<close>

definition cpu_recv_pcb :: "nat \<Rightarrow> kernel \<Rightarrow> fault + t_pcb option \<times> kernel" where
  "cpu_recv_pcb c k =
     (let sk = cpu_socket (cpus k ! c) in
      case sock_recv_string sk k of
        (None, k1) \<Rightarrow> Inl Uninitialised
      | (Some message, k1) \<Rightarrow>
          if string_equals_ignore_case (str ''PCB'') message then
            (case socket_recv (socks k1 sk) of (recvSize, data, s) \<Rightarrow>
               let k2 = k1\<lparr>socks := (socks k1)(sk := s)\<rparr> in
               case data of
                 None \<Rightarrow> Inr (None, k2)
               | Some bs \<Rightarrow> and_then (pcb_deserialize (fresh_args (env k)) bs) (\<lambda>b. Inr (Some b, k2)))
          else Inr (None, k1))"

fun find_index :: "('a \<Rightarrow> bool) \<Rightarrow> 'a list \<Rightarrow> nat option" where
  "find_index P [] = None"
| "find_index P (x # xs) = (if P x then Some 0 else map_option Suc (find_index P xs))"

definition cpu_find :: "int \<Rightarrow> kernel \<Rightarrow> nat option" where
  "cpu_find sk k = find_index (\<lambda>u. cpu_socket u = sk) (cpus k)"

text \<open>\<open>cpu->program = planificar()\<close>, and the process is sent to the CPU.\<close>

definition assign_cpu :: "nat \<Rightarrow> kernel \<Rightarrow> fault + kernel" where
  "assign_cpu c k =
     and_then (planificar k) (\<lambda>(program, k1).
       let k2 = set_cpu c (\<lambda>u. u\<lparr>cpu_program := program\<rparr>) k1
       in if program \<noteq> None then cpu_send_pcb c k2 else Inr k2)"

definition inactive_cpu_planner :: "nat \<Rightarrow> kernel \<Rightarrow> fault + kernel" where
  "inactive_cpu_planner c k = (if cpu_program (cpus k ! c) = None then assign_cpu c k else Inr k)"

fun iterate_cpus :: "(nat \<Rightarrow> kernel \<Rightarrow> fault + kernel) \<Rightarrow> nat list \<Rightarrow> kernel \<Rightarrow> fault + kernel" where
  "iterate_cpus f [] k = Inr k"
| "iterate_cpus f (c # cs) k = and_then (f c k) (iterate_cpus f cs)"

definition cpu_inactive_planner :: "kernel \<Rightarrow> fault + kernel" where
  "cpu_inactive_planner k = iterate_cpus inactive_cpu_planner [0..<length (cpus k)] k"

subsection \<open>A new process\<close>

definition program_generate_id :: "kernel \<Rightarrow> int \<times> kernel" where
  "program_generate_id k = (programID k + 1, k\<lparr>programID := programID k + 1\<rparr>)"

text \<open>The structure before its code has arrived; \<open>fresh_size\<close> stands for a field not set yet.\<close>

definition blank_program :: "t_env \<Rightarrow> int \<Rightarrow> int \<Rightarrow> t_program" where
  "blank_program e sk newPid =
     \<lparr>p_socket = sk,
      pcb = \<lparr>pid = newPid, pc = 0, cantPagsCodigo = 0, indiceDeCodigoCant = 0, indiceDeCodigo = [],
        indiceDeEtiquetasCant = 0, indiceDeEtiquetas = [], indiceDeStack = [], stackPosition = 0,
        maxStackPosition = fresh_size e, exitCode = 1\<rparr>,
      interruptionCode = 0, codeSize = 0, p_code = [], waiting = 0, waitingReason = Some [],
      fileDescriptors = [], incrementalFD = 3, quantum = 0, heapPages = [],
      stats = \<lparr>rafagas = 0, syscallEjecutadas = 0, syscallPrivilegiadas = 0, cantCallAlloc = 0,
        cantCallFree = 0, bytesAlloc = 0, bytesFree = 0\<rparr>\<rparr>"

definition mainContext :: "t_env \<Rightarrow> t_indiceDelStack" where
  "mainContext e = \<lparr>vars = [], argCount = 0, args = fresh_args e, retPos = -1, retVar = None\<rparr>"

definition load_metadata :: "t_env \<Rightarrow> t_program \<Rightarrow> t_program" where
  "load_metadata e program =
     (let metadata = metadata_desde_literal e (p_code program) in
      program\<lparr>pcb := (pcb program)
        \<lparr>pc := instruccion_inicio metadata, indiceDeCodigoCant := instrucciones_size metadata,
         indiceDeCodigo := instrucciones_serializado metadata,
         indiceDeEtiquetasCant := etiquetas_size metadata, indiceDeEtiquetas := etiquetas metadata,
         indiceDeStack := [mainContext e]\<rparr>\<rparr>)"

definition drop_console :: "int \<Rightarrow> kernel \<Rightarrow> kernel" where
  "drop_console sk k =
     k\<lparr>programMaster := programMaster k - {sk}, closed := insert sk (closed k)\<rparr>"

definition program_process_new :: "int \<Rightarrow> kernel \<Rightarrow> fault + kernel" where
  "program_process_new sk k =
     (case program_generate_id k of (newPid, k0) \<Rightarrow>
      case sock_send_int sk newPid k0 of (n, k1) \<Rightarrow>
      if n \<le> 0 then Inr (drop_console sk k1)
      else case sock_recv sk k1 of
        (None, k2) \<Rightarrow> Inr (drop_console sk k2)
      | (Some code, k2) \<Rightarrow>
          let p = nextProgram k2;
              program = load_metadata (env k)
                ((blank_program (env k) sk newPid)\<lparr>codeSize := int (length code), p_code := code\<rparr>);
              k3 = k2\<lparr>nextProgram := p + 1, programs := (programs k2)(p := program),
                      newQ := newQ k2 @ [p]\<rparr>
          in and_then (planificador_largo_plazo k3) cpu_inactive_planner)"

subsection \<open>Interrupting and unblocking\<close>

definition runs_socket :: "kernel \<Rightarrow> int \<Rightarrow> t_cpu \<Rightarrow> bool" where
  "runs_socket k sk cpu \<longleftrightarrow>
     (case cpu_program cpu of None \<Rightarrow> False | Some p \<Rightarrow> p_socket (programs k p) = sk)"

text \<open>A process taken out of a queue ends at once with the interruption as its exit code.\<close>

definition finish_removed :: "ptr \<Rightarrow> int \<Rightarrow> kernel \<Rightarrow> fault + kernel" where
  "finish_removed p code k = program_finish p (upd p (set_exitCode code) k)"

definition program_interrup :: "int \<Rightarrow> int \<Rightarrow> int \<Rightarrow> kernel \<Rightarrow> fault + kernel" where
  "program_interrup sk code overrideInterruption k =
     (let here = (\<lambda>p. p_socket (programs k p) = sk) in
      case list_find (runs_socket k sk) (cpus k) of
        Some cpu \<Rightarrow>
          (case cpu_program cpu of
             None \<Rightarrow> Inr k
           | Some p \<Rightarrow>
               if interruptionCode (programs k p) = 0 \<or> overrideInterruption = 1
               then Inr (interrupt p code k) else Inr k)
      | None \<Rightarrow>
          (case list_remove_by_condition here (newQ k) of
             (Some p, rest) \<Rightarrow> finish_removed p code (k\<lparr>newQ := rest\<rparr>)
           | (None, _) \<Rightarrow>
               (case list_remove_by_condition here (blockedQ k) of
                  (Some p, rest) \<Rightarrow> finish_removed p code (k\<lparr>blockedQ := rest\<rparr>)
                | (None, _) \<Rightarrow>
                    (case list_remove_by_condition here (readyQ k) of
                       (Some p, rest) \<Rightarrow> finish_removed p code (k\<lparr>readyQ := rest\<rparr>)
                     | (None, _) \<Rightarrow> Inr k))))"

text \<open>\<open>strcmp\<close> with a null \<open>waitingReason\<close> does not happen: it is null only when not waiting.\<close>

definition waits_for :: "kernel \<Rightarrow> cstring \<Rightarrow> ptr \<Rightarrow> bool" where
  "waits_for k nombre p \<longleftrightarrow>
     waiting (programs k p) = 1 \<and> waitingReason (programs k p) = Some nombre"

definition wake :: "t_program \<Rightarrow> t_program" where
  "wake program = program\<lparr>waiting := 0, waitingReason := None\<rparr>"

definition program_unblock :: "cstring \<Rightarrow> kernel \<Rightarrow> fault + kernel" where
  "program_unblock nombre k =
     (case list_remove_by_condition (waits_for k nombre) (blockedQ k) of
        (Some p, rest) \<Rightarrow>
          cpu_inactive_planner (upd p wake (k\<lparr>blockedQ := rest, readyQ := readyQ k @ [p]\<rparr>))
      | (None, _) \<Rightarrow>
          (case list_find (\<lambda>u. case cpu_program u of None \<Rightarrow> False | Some p \<Rightarrow> waits_for k nombre p) (cpus k) of
             Some u \<Rightarrow> (case cpu_program u of None \<Rightarrow> Inr k | Some p \<Rightarrow> Inr (upd p wake k))
           | None \<Rightarrow> Inr k))"

end
