(* ===== verification/Syscalls.thy ===== *)
theory Syscalls
  imports Programs
begin

text \<open>
  What a CPU can ask the Kernel for: \<open>threads/cpu/handler.c\<close>, and the dispatch on the name of the
  request in \<open>threads/cpu/select.c\<close>, which runs under the mutex of the list of CPUs and destroys
  the first CPU that was marked as disconnected.

  A handler is given the CPU as its index. Where it answers, a failing send marks the CPU; where
  the C code goes on after an answer without checking, so does the definition.
\<close>

definition set_quantum :: "int \<Rightarrow> t_program \<Rightarrow> t_program" where
  "set_quantum q program = program\<lparr>quantum := q\<rparr>"

definition count_syscall :: "t_program \<Rightarrow> t_program" where
  "count_syscall program = program\<lparr>stats := (stats program)
     \<lparr>syscallEjecutadas := syscallEjecutadas (stats program) + 1,
      syscallPrivilegiadas := syscallPrivilegiadas (stats program) + 1\<rparr>\<rparr>"

text \<open>The two counters at the head of every handler of a system call.\<close>

definition enter_syscall :: "nat \<Rightarrow> (ptr \<Rightarrow> kernel \<Rightarrow> fault + kernel) \<Rightarrow> kernel \<Rightarrow> fault + kernel" where
  "enter_syscall c f k = and_then (current c k) (\<lambda>p. f p (upd p count_syscall k))"

definition cpu_sock :: "nat \<Rightarrow> kernel \<Rightarrow> int" where
  "cpu_sock c k = cpu_socket (cpus k ! c)"

definition finish_reply :: "bool \<times> kernel \<Rightarrow> fault + kernel" where
  "finish_reply r = Inr (snd r)"

subsection \<open>Scheduling requests\<close>

definition handle_new_cpu :: "int \<Rightarrow> kernel \<Rightarrow> fault + kernel" where
  "handle_new_cpu sk k =
     assign_cpu (length (cpus k))
       (k\<lparr>cpus := cpus k @ [\<lparr>cpu_socket = sk, cpu_program = None, cpu_disconnected = 0\<rparr>]\<rparr>)"

definition handle_interruption :: "nat \<Rightarrow> kernel \<Rightarrow> fault + kernel" where
  "handle_interruption c k =
     and_then (current c k) (\<lambda>p. finish_reply (reply_int c (interruptionCode (programs k p)) k))"

text \<open>Whether the CPU may go on with the next instruction, and the quantum that is left.\<close>

definition burst :: "t_program \<Rightarrow> int \<times> int" where
  "burst program =
     (if waiting program = 1 then (0, 0)
      else if quantum program \<noteq> -1
      then (if quantum program - 1 = 0 then 0 else 1, quantum program - 1)
      else (1, quantum program))"

definition handle_still_burst :: "nat \<Rightarrow> kernel \<Rightarrow> fault + kernel" where
  "handle_still_burst c k =
     and_then (current c k) (\<lambda>p.
       case burst (programs k p) of (b, q) \<Rightarrow>
         finish_reply (reply_int c b (upd p (set_quantum q) k)))"

definition count_burst :: "t_pcb \<Rightarrow> t_program \<Rightarrow> t_program" where
  "count_burst b program = program\<lparr>pcb := b, quantum := 0,
     stats := (stats program)\<lparr>rafagas := rafagas (stats program) + 1\<rparr>\<rparr>"

text \<open>Where a process goes when its CPU gives it back.\<close>

definition end_burst_queue :: "int \<Rightarrow> ptr \<Rightarrow> kernel \<Rightarrow> fault + kernel" where
  "end_burst_queue termino p k =
     (if termino = 1 then program_finish p k
      else if waiting (programs k p) = 1 then Inr (k\<lparr>blockedQ := blockedQ k @ [p]\<rparr>)
      else Inr (k\<lparr>readyQ := readyQ k @ [p]\<rparr>))"

definition handle_end_burst :: "nat \<Rightarrow> kernel \<Rightarrow> fault + kernel" where
  "handle_end_burst c k =
     and_then (current c k) (\<lambda>p.
     and_then (cpu_recv_pcb c (set_cpu c (\<lambda>u. u\<lparr>cpu_program := None\<rparr>) k)) (\<lambda>(received, k1).
       case received of
         None \<Rightarrow> Inl Null_Deref
       | Some b \<Rightarrow>
           (case sock_recv_int (cpu_sock c k1) (upd p (count_burst b) k1) of
              (None, k2) \<Rightarrow> Inr (disconnect c k2)
            | (Some termino, k2) \<Rightarrow> and_then (end_burst_queue termino p k2) (assign_cpu c))))"

subsection \<open>Shared variables\<close>

definition named_var :: "cstring \<Rightarrow> t_sharedVar \<Rightarrow> bool" where
  "named_var name sv \<longleftrightarrow> sv_nombre sv = name"

definition upd_var :: "cstring \<Rightarrow> (t_sharedVar \<Rightarrow> t_sharedVar) \<Rightarrow> kernel \<Rightarrow> kernel" where
  "upd_var name f k =
     k\<lparr>config := (config k)\<lparr>shared_vars := upd_first (named_var name) f (shared_vars (config k))\<rparr>\<rparr>"

text \<open>A name that is not declared: the process is interrupted and its CPU is told.\<close>

definition fail_name :: "nat \<Rightarrow> ptr \<Rightarrow> int \<Rightarrow> kernel \<Rightarrow> fault + kernel" where
  "fail_name c p code k = finish_reply (reply_string c ''Failure'' (interrupt p code k))"

text \<open>The value is read under the mutex of the variable, which stays locked when its send fails.\<close>

definition handle_cpu_get_shared_variable :: "nat \<Rightarrow> kernel \<Rightarrow> fault + kernel" where
  "handle_cpu_get_shared_variable c = enter_syscall c (\<lambda>p k.
     case sock_recv_string (cpu_sock c k) k of
       (None, k1) \<Rightarrow> Inr (disconnect c k1)
     | (Some name, k1) \<Rightarrow>
         (case list_find (named_var name) (shared_vars (config k1)) of
            None \<Rightarrow> fail_name c p ERROR_SHARED_VAR_DOES_NOT_EXIST k1
          | Some sv \<Rightarrow>
              (case reply_string c ''Success'' k1 of (ok, k2) \<Rightarrow>
                 if \<not> ok then Inr k2
                 else if sv_locked sv then Inl Deadlock
                 else (case reply_int c (sv_value sv) k2 of (ok, k3) \<Rightarrow>
                         if ok then Inr k3 else Inr (upd_var name (\<lambda>v. v\<lparr>sv_locked := True\<rparr>) k3)))))"

definition handle_cpu_set_shared_variable :: "nat \<Rightarrow> kernel \<Rightarrow> fault + kernel" where
  "handle_cpu_set_shared_variable c = enter_syscall c (\<lambda>p k.
     case sock_recv_string (cpu_sock c k) k of
       (None, k1) \<Rightarrow> Inr (disconnect c k1)
     | (Some name, k1) \<Rightarrow>
         (case sock_recv_int (cpu_sock c k1) k1 of
            (None, k2) \<Rightarrow> Inr (disconnect c k2)
          | (Some val, k2) \<Rightarrow>
              (case list_find (named_var name) (shared_vars (config k2)) of
                 None \<Rightarrow> fail_name c p ERROR_SHARED_VAR_DOES_NOT_EXIST k2
               | Some sv \<Rightarrow>
                   if sv_locked sv then Inl Deadlock
                   else finish_reply (reply_string c ''Success''
                          (upd_var name (\<lambda>v. v\<lparr>sv_value := val\<rparr>) k2)))))"

subsection \<open>Semaphores\<close>

definition named_sem :: "cstring \<Rightarrow> t_semaforo \<Rightarrow> bool" where
  "named_sem name s \<longleftrightarrow> sem_nombre s = name"

definition upd_sem :: "cstring \<Rightarrow> int \<Rightarrow> kernel \<Rightarrow> kernel" where
  "upd_sem name v k =
     k\<lparr>config := (config k)\<lparr>semaforos :=
         upd_first (named_sem name) (\<lambda>s. s\<lparr>sem_value := v\<rparr>) (semaforos (config k))\<rparr>\<rparr>"

definition wait_on :: "cstring \<Rightarrow> t_program \<Rightarrow> t_program" where
  "wait_on name program = program\<lparr>waiting := 1, waitingReason := Some name\<rparr>"

definition handle_cpu_wait :: "nat \<Rightarrow> kernel \<Rightarrow> fault + kernel" where
  "handle_cpu_wait c = enter_syscall c (\<lambda>p k.
     case sock_recv_string (cpu_sock c k) k of
       (None, k1) \<Rightarrow> Inr (disconnect c k1)
     | (Some name, k1) \<Rightarrow>
         (case list_find (named_sem name) (semaforos (config k1)) of
            None \<Rightarrow> fail_name c p ERROR_SEM_DOES_NOT_EXIST k1
          | Some s \<Rightarrow>
              (case reply_string c ''Success'' k1 of (ok, k2) \<Rightarrow>
                 if \<not> ok then Inr k2
                 else
                   let v = sem_value s - 1; k3 = upd_sem name v k2 in
                   if v \<ge> 0 then finish_reply (reply_int c 1 k3)
                   else finish_reply (reply_int c 0 (upd p (wait_on name) k3)))))"

definition handle_cpu_signal :: "nat \<Rightarrow> kernel \<Rightarrow> fault + kernel" where
  "handle_cpu_signal c = enter_syscall c (\<lambda>p k.
     case sock_recv_string (cpu_sock c k) k of
       (None, k1) \<Rightarrow> Inr (disconnect c k1)
     | (Some name, k1) \<Rightarrow>
         (case list_find (named_sem name) (semaforos (config k1)) of
            None \<Rightarrow> fail_name c p ERROR_SEM_DOES_NOT_EXIST k1
          | Some s \<Rightarrow>
              (case reply_string c ''Success'' k1 of (ok, k2) \<Rightarrow>
                 if \<not> ok then Inr k2
                 else program_unblock name (upd_sem name (sem_value s + 1) k2))))"

subsection \<open>The heap\<close>

definition set_heap :: "ptr \<Rightarrow> t_program \<Rightarrow> remote \<Rightarrow> kernel \<Rightarrow> kernel" where
  "set_heap p program m k = upd p (\<lambda>_. program) (k\<lparr>memory := m\<rparr>)"

definition count_alloc :: "int \<Rightarrow> t_program \<Rightarrow> t_program" where
  "count_alloc sz program = program\<lparr>stats := (stats program)
     \<lparr>cantCallAlloc := cantCallAlloc (stats program) + 1, bytesAlloc := bytesAlloc (stats program) + sz\<rparr>\<rparr>"

definition count_liberar :: "t_program \<Rightarrow> t_program" where
  "count_liberar program = program\<lparr>stats := (stats program)
     \<lparr>cantCallFree := cantCallFree (stats program) + 1\<rparr>\<rparr>"

definition handle_cpu_alocar :: "nat \<Rightarrow> kernel \<Rightarrow> fault + kernel" where
  "handle_cpu_alocar c = enter_syscall c (\<lambda>p k.
     case sock_recv_int (cpu_sock c k) k of
       (None, k1) \<Rightarrow> Inr (disconnect c k1)
     | (Some sz, k1) \<Rightarrow>
         and_then (memory_heap_alloc (config k1) (programs k1 p) sz (memory k1)) (\<lambda>(puntero, program, m).
           case reply_int c puntero (set_heap p program m k1) of (ok, k2) \<Rightarrow>
             if ok then Inr (upd p (count_alloc sz) k2) else Inr k2))"

definition handle_cpu_liberar :: "nat \<Rightarrow> kernel \<Rightarrow> fault + kernel" where
  "handle_cpu_liberar c = enter_syscall c (\<lambda>p k.
     case sock_recv_int (cpu_sock c k) k of
       (None, k1) \<Rightarrow> Inr (disconnect c k1)
     | (Some posicion, k1) \<Rightarrow>
         if pageSize (memory k1) = 0 then Inl Div_By_Zero
         else and_then (memory_heap_free (programs k1 p) (c_quot posicion (pageSize (memory k1)))
                (c_rem posicion (pageSize (memory k1))) (memory k1)) (\<lambda>(program, m).
           Inr (upd p count_liberar (set_heap p program m k1))))"

end
