(* ===== verification/File_Syscalls.thy ===== *)
theory File_Syscalls
  imports Syscalls
begin

text \<open>
  The system calls on files, \<open>threads/cpu/handler.c\<close> from \<open>handle_cpu_abrir\<close> on. The FileSystem
  process is reached through the stubs of theory \<open>FS_Client\<close>; an error is an interruption code of
  the process, which the CPU asks for after the instruction.
\<close>

definition fs_call :: "(sock \<Rightarrow> int \<times> sock) \<Rightarrow> kernel \<Rightarrow> int \<times> kernel" where
  "fs_call f k = (case f (fsSock k) of (n, s) \<Rightarrow> (n, k\<lparr>fsSock := s\<rparr>))"

subsection \<open>Opening\<close>

text \<open>The global entry of a path is looked up, or created after the file was found or created.\<close>

definition open_path :: "ptr \<Rightarrow> cstring \<Rightarrow> cstring \<Rightarrow> kernel \<Rightarrow> fault + t_fd option \<times> kernel" where
  "open_path p path flags k =
     (let fresh = (\<lambda>k'. case file_descriptor_global_create path k' of (g, k1) \<Rightarrow>
                      case file_descriptor_create p g flags k1 of (fd, k2) \<Rightarrow> (Some fd, k2))
      in and_then (file_descriptor_global_get_by_path path k) (\<lambda>gFD.
        case gFD of
          Some g \<Rightarrow> (case file_descriptor_create p g flags k of (fd, k1) \<Rightarrow> Inr (Some fd, k1))
        | None \<Rightarrow>
            (case fs_call (filesystem_validate path) k of (valid, k1) \<Rightarrow>
             if valid = 1 then Inr (fresh k1)
             else if contains FILE_DESCRIPTOR_PERMISSION_CREATE flags then
               (case fs_call (filesystem_create (stack_junk (env k)) path) k1 of (created, k2) \<Rightarrow>
                  if created = 1 then Inr (fresh k2)
                  else Inr (None, interrupt p ERROR_FS_OPERATION k2))
             else Inr (None, interrupt p ERROR_FILE_CREATE_PERMISION k1))))"

definition handle_cpu_abrir :: "nat \<Rightarrow> kernel \<Rightarrow> fault + kernel" where
  "handle_cpu_abrir c = enter_syscall c (\<lambda>p k.
     case sock_recv_string (cpu_sock c k) k of
       (None, k1) \<Rightarrow> Inr (disconnect c k1)
     | (Some path, k1) \<Rightarrow>
         (case sock_recv_string (cpu_sock c k1) k1 of
            (None, k2) \<Rightarrow> Inr (disconnect c k2)
          | (Some flags, k2) \<Rightarrow>
              and_then (open_path p path flags k2) (\<lambda>(fd, k3).
                finish_reply (reply_int c (case fd of Some f \<Rightarrow> fd_value f | None \<Rightarrow> 0) k3))))"

subsection \<open>Deleting\<close>

definition drop_fd :: "int \<Rightarrow> t_program \<Rightarrow> t_program" where
  "drop_fd v program = program\<lparr>fileDescriptors :=
     snd (list_remove_by_condition (\<lambda>fd. fd_value fd = v) (fileDescriptors program))\<rparr>"

text \<open>The entry is taken out of the table by its path; the one the descriptor points to is freed.\<close>

definition unlist_path :: "cstring \<Rightarrow> kernel \<Rightarrow> fault + kernel" where
  "unlist_path path k =
     and_then (find_gfd (\<lambda>G. gfd_path G = path) (gfds k) (globalFDs k)) (\<lambda>found.
       case found of None \<Rightarrow> Inr k | Some g \<Rightarrow> Inr (k\<lparr>globalFDs := remove1 g (globalFDs k)\<rparr>))"

definition onDeleteError :: "nat \<Rightarrow> ptr \<Rightarrow> int \<Rightarrow> kernel \<Rightarrow> fault + kernel" where
  "onDeleteError c p code k = finish_reply (reply_int c 0 (interrupt p code k))"

definition handle_cpu_borrar :: "nat \<Rightarrow> kernel \<Rightarrow> fault + kernel" where
  "handle_cpu_borrar c = enter_syscall c (\<lambda>p k.
     case sock_recv_int (cpu_sock c k) k of
       (None, k1) \<Rightarrow> Inr (disconnect c k1)
     | (Some nFD, k1) \<Rightarrow>
         (case file_descriptor_get_by_number (programs k1 p) nFD of
            None \<Rightarrow> onDeleteError c p ERROR_FD_DOES_NOT_EXIST k1
          | Some fd \<Rightarrow>
              and_then (gfd k1 (fd_global fd)) (\<lambda>G.
                if gfd_open G > 1 then onDeleteError c p ERROR_FILE_BAD_DELETE k1
                else
                  (case fs_call (filesystem_delete (stack_junk (env k1)) (gfd_path G)) k1 of (resp, k2) \<Rightarrow>
                     if resp = 1 then
                       and_then (unlist_path (gfd_path G) k2) (\<lambda>k3.
                         finish_reply (reply_int c 1
                           (upd p (drop_fd (fd_value fd))
                             (k3\<lparr>gfds := (gfds k3)(fd_global fd := None)\<rparr>))))
                     else onDeleteError c p ERROR_FS_OPERATION k2))))"

subsection \<open>Closing and moving\<close>

text \<open>A descriptor less; with the last one the entry leaves the table and is freed.\<close>

definition release_gfd :: "ptr \<Rightarrow> kernel \<Rightarrow> fault + kernel" where
  "release_gfd g k =
     (let k1 = upd_gfd g (\<lambda>G. G\<lparr>gfd_open := gfd_open G - 1\<rparr>) k
      in and_then (gfd k1 g) (\<lambda>G.
         if gfd_open G = 0 then remove_gfd (\<lambda>H. gfd_path H = gfd_path G) k1 else Inr k1))"

definition handle_cpu_cerrar :: "nat \<Rightarrow> kernel \<Rightarrow> fault + kernel" where
  "handle_cpu_cerrar c = enter_syscall c (\<lambda>p k.
     case sock_recv_int (cpu_sock c k) k of
       (None, k1) \<Rightarrow> Inr (disconnect c k1)
     | (Some nFD, k1) \<Rightarrow>
         (case file_descriptor_get_by_number (programs k1 p) nFD of
            None \<Rightarrow> finish_reply (reply_int c 0 (interrupt p ERROR_FD_DOES_NOT_EXIST k1))
          | Some fd \<Rightarrow>
              and_then (release_gfd (fd_global fd) k1) (\<lambda>k2.
                finish_reply (reply_int c 1 (upd p (drop_fd (fd_value fd)) k2)))))"

definition move_fd :: "int \<Rightarrow> int \<Rightarrow> t_program \<Rightarrow> t_program" where
  "move_fd v cursor program = program\<lparr>fileDescriptors :=
     upd_first (\<lambda>fd. fd_value fd = v) (\<lambda>fd. fd\<lparr>fd_cursor := cursor\<rparr>) (fileDescriptors program)\<rparr>"

definition handle_cpu_mover_cursor :: "nat \<Rightarrow> kernel \<Rightarrow> fault + kernel" where
  "handle_cpu_mover_cursor c = enter_syscall c (\<lambda>p k.
     case sock_recv_int (cpu_sock c k) k of
       (None, k1) \<Rightarrow> Inr (disconnect c k1)
     | (Some nFD, k1) \<Rightarrow>
         (case sock_recv_int (cpu_sock c k1) k1 of
            (None, k2) \<Rightarrow> Inr (disconnect c k2)
          | (Some bytesToMove, k2) \<Rightarrow>
              (case file_descriptor_get_by_number (programs k2 p) nFD of
                 None \<Rightarrow> Inr (interrupt p ERROR_FD_DOES_NOT_EXIST k2)
               | Some fd \<Rightarrow> Inr (upd p (move_fd nFD bytesToMove) k2))))"

subsection \<open>Writing\<close>

text \<open>
  Printing goes to the console of the process, unless it is gone. The byte behind the buffer that
  the C code looks at decides only whether a NUL is appended, so what is sent is the same.
\<close>

definition print_console :: "ptr \<Rightarrow> byte list \<Rightarrow> kernel \<Rightarrow> kernel" where
  "print_console p buffer k =
     (if console_gone (interruptionCode (programs k p)) then k
      else let sk = p_socket (programs k p)
           in snd (sock_send_string sk (cstr buffer) (snd (sock_send_string sk (str ''imprimir'') k))))"

definition write_file :: "ptr \<Rightarrow> t_fd \<Rightarrow> byte list \<Rightarrow> kernel \<Rightarrow> fault + kernel" where
  "write_file p fd buffer k =
     and_then (gfd k (fd_global fd)) (\<lambda>G.
       case fs_call (filesystem_write (gfd_path G) (fd_cursor fd) buffer) k of (respuestaFromFS, k1) \<Rightarrow>
         if respuestaFromFS > 0 then Inr k1
         else if respuestaFromFS = - ENOSPC then Inr (interrupt p (- ENOSPC) k1)
         else Inr (interrupt p ERROR_FS_OPERATION k1))"

definition handle_cpu_escribir :: "nat \<Rightarrow> kernel \<Rightarrow> fault + kernel" where
  "handle_cpu_escribir c = enter_syscall c (\<lambda>p k.
     case sock_recv_int (cpu_sock c k) k of
       (None, k1) \<Rightarrow> Inr k1
     | (Some nFD, k1) \<Rightarrow>
         (case sock_recv (cpu_sock c k1) k1 of
            (None, k2) \<Rightarrow> Inr k2
          | (Some buffer, k2) \<Rightarrow>
              if nFD = descriptor_salida (env k2) then Inr (print_console p buffer k2)
              else
                (case file_descriptor_get_by_number (programs k2 p) nFD of
                   None \<Rightarrow> Inr (interrupt p ERROR_FD_DOES_NOT_EXIST k2)
                 | Some fd \<Rightarrow>
                     if \<not> file_descriptor_check_permission fd FILE_DESCRIPTOR_PERMISSION_WRITE
                     then Inr (interrupt p ERROR_FILE_NO_WRITE_PERMISION k2)
                     else write_file p fd buffer k2)))"

subsection \<open>Reading\<close>

text \<open>
  \<open>memory_write\<close> of the first \<open>readResult\<close> bytes. A buffer that was not filled comes with a
  negative count, which puts the connection with Memory out of step.
\<close>

definition store_read :: "ptr \<Rightarrow> int \<Rightarrow> int \<Rightarrow> read_buffer \<Rightarrow> kernel \<Rightarrow> fault + int \<times> kernel" where
  "store_read p donde readResult buffer k =
     (case buffer of
        No_Buffer \<Rightarrow> Inr (readResult, k)
      | Unfilled \<Rightarrow> Inl Desync
      | Filled bs \<Rightarrow>
          if pageSize (memory k) = 0 then Inl Div_By_Zero
          else if readResult > int (length bs) then Inl Buffer_Overflow
          else and_then (remote_write (memory k) (pid (pcb (programs k p)))
                 (c_quot donde (pageSize (memory k))) (c_rem donde (pageSize (memory k)))
                 (take (nat readResult) bs)) (\<lambda>(q, m).
            let k1 = k\<lparr>memory := m\<rparr>
            in if q > -1 then Inr (1, k1) else Inr (q, interrupt p q k1)))"

definition read_file :: "ptr \<Rightarrow> int \<Rightarrow> int \<Rightarrow> int \<Rightarrow> kernel \<Rightarrow> fault + int \<times> kernel" where
  "read_file p d donde tamanioALeer k =
     (case file_descriptor_get_by_number (programs k p) d of
        None \<Rightarrow> Inr (ERROR_FD_DOES_NOT_EXIST, interrupt p ERROR_FD_DOES_NOT_EXIST k)
      | Some fd \<Rightarrow>
          if file_descriptor_check_permission fd FILE_DESCRIPTOR_PERMISSION_READ
          then and_then (gfd k (fd_global fd)) (\<lambda>G.
            case filesystem_read (gfd_path G) (size_t_of_int (fd_cursor fd)) tamanioALeer (fsSock k) of
              (readResult, buffer, s) \<Rightarrow> store_read p donde readResult buffer (k\<lparr>fsSock := s\<rparr>))
          else Inr (ERROR_FILE_NO_READ_PERMISION, interrupt p ERROR_FILE_NO_READ_PERMISION k))"

definition handle_cpu_leer :: "nat \<Rightarrow> kernel \<Rightarrow> fault + kernel" where
  "handle_cpu_leer c = enter_syscall c (\<lambda>p k.
     case sock_recv_int (cpu_sock c k) k of
       (None, k1) \<Rightarrow> Inr (disconnect c k1)
     | (Some d, k1) \<Rightarrow>
         (case sock_recv_int (cpu_sock c k1) k1 of
            (None, k2) \<Rightarrow> Inr (disconnect c k2)
          | (Some dondeGuardarLoLeido, k2) \<Rightarrow>
              (case sock_recv_int (cpu_sock c k2) k2 of
                 (None, k3) \<Rightarrow> Inr (disconnect c k3)
               | (Some tamanioALeer, k3) \<Rightarrow>
                   and_then (read_file p d dondeGuardarLoLeido tamanioALeer k3) (\<lambda>(readResult, k4).
                     finish_reply (reply_int c readResult k4)))))"

end
