(* ===== verification/Kernel_Requests.thy ===== *)
theory Kernel_Requests
  imports File_Syscalls
begin

text \<open>
  The two select loops of the Kernel, \<open>threads/cpu/select.c\<close> and \<open>threads/program/select.c\<close>, as
  events; the commands of its console that change what they use (\<open>functions/console.c\<close>); and the
  step relation they make.
\<close>

subsection \<open>Requests of the CPUs\<close>

text \<open>A handler is called with what \<open>cpu_find\<close> returned, which it dereferences.\<close>

definition for_cpu :: "int \<Rightarrow> (nat \<Rightarrow> kernel \<Rightarrow> fault + kernel) \<Rightarrow> kernel \<Rightarrow> fault + kernel" where
  "for_cpu sk handler k = (case cpu_find sk k of None \<Rightarrow> Inl Null_Deref | Some c \<Rightarrow> handler c k)"

definition cpu_handlers :: "(cstring \<times> (nat \<Rightarrow> kernel \<Rightarrow> fault + kernel)) list" where
  "cpu_handlers =
     [(str ''interruption'', handle_interruption),
      (str ''still_burst'', handle_still_burst),
      (str ''end_burst'', handle_end_burst),
      (str ''getSharedVariable'', handle_cpu_get_shared_variable),
      (str ''setSharedVariable'', handle_cpu_set_shared_variable),
      (str ''wait'', handle_cpu_wait),
      (str ''signal'', handle_cpu_signal),
      (str ''alocar'', handle_cpu_alocar),
      (str ''liberar'', handle_cpu_liberar),
      (str ''abrir'', handle_cpu_abrir),
      (str ''borrar'', handle_cpu_borrar),
      (str ''cerrar'', handle_cpu_cerrar),
      (str ''moverCursor'', handle_cpu_mover_cursor),
      (str ''escribir'', handle_cpu_escribir),
      (str ''leer'', handle_cpu_leer)]"

definition serve_cpu :: "int \<Rightarrow> cstring \<Rightarrow> kernel \<Rightarrow> fault + kernel" where
  "serve_cpu sk package k =
     (if package = str ''NewCPU'' then handle_new_cpu sk k
      else case map_of cpu_handlers package of
             Some handler \<Rightarrow> for_cpu sk handler k
           | None \<Rightarrow> Inr k)"

text \<open>The end of the process that ran on a CPU whose connection broke.\<close>

definition kill_current :: "ptr \<Rightarrow> kernel \<Rightarrow> fault + kernel" where
  "kill_current p k =
     program_finish p (upd p (set_exitCode ERROR_CPU_DISCONNECTED) (interrupt p ERROR_CPU_DISCONNECTED k))"

definition destroyDisconnectedCPU :: "t_cpu \<Rightarrow> kernel \<Rightarrow> fault + kernel" where
  "destroyDisconnectedCPU cpu k =
     (case cpu_program cpu of
        None \<Rightarrow> Inl Null_Deref
      | Some p \<Rightarrow>
          and_then (kill_current p k) (\<lambda>k1. Inr (k1\<lparr>closed := insert (cpu_socket cpu) (closed k1)\<rparr>)))"

definition remove_disconnected :: "kernel \<Rightarrow> fault + kernel" where
  "remove_disconnected k =
     (case list_remove_by_condition (\<lambda>u. cpu_disconnected u = 1) (cpus k) of
        (None, _) \<Rightarrow> Inr k
      | (Some cpu, rest) \<Rightarrow> destroyDisconnectedCPU cpu (k\<lparr>cpus := rest\<rparr>))"

definition select_cpu_socket_recive_package :: "int \<Rightarrow> cstring \<Rightarrow> kernel \<Rightarrow> fault + kernel" where
  "select_cpu_socket_recive_package sk package k =
     and_then (serve_cpu sk package k) remove_disconnected"

definition select_cpu_socket_connection_lost :: "int \<Rightarrow> kernel \<Rightarrow> fault + kernel" where
  "select_cpu_socket_connection_lost sk k =
     (case list_remove_by_condition (\<lambda>u. cpu_socket u = sk) (cpus k) of
        (None, _) \<Rightarrow> Inl Null_Deref
      | (Some cpu, rest) \<Rightarrow>
          and_then (case cpu_program cpu of
                      None \<Rightarrow> Inr (k\<lparr>cpus := rest\<rparr>)
                    | Some p \<Rightarrow> kill_current p (k\<lparr>cpus := rest\<rparr>))
            (\<lambda>k1. Inr (k1\<lparr>closed := insert (cpu_socket cpu) (closed k1)\<rparr>)))"

subsection \<open>Requests of the consoles\<close>

definition clear_console :: "int \<Rightarrow> kernel \<Rightarrow> kernel" where
  "clear_console sk k = k\<lparr>programMaster := programMaster k - {sk}\<rparr>"

definition select_program_socket_connection_lost :: "int \<Rightarrow> kernel \<Rightarrow> fault + kernel" where
  "select_program_socket_connection_lost sk k =
     and_then (program_interrup sk ERROR_CONSOLE_DISCONNECTED 0 k) (\<lambda>k1. Inr (clear_console sk k1))"

definition select_program_socket_recive_package :: "int \<Rightarrow> cstring \<Rightarrow> kernel \<Rightarrow> fault + kernel" where
  "select_program_socket_recive_package sk package k =
     (if package = str ''NewProgram'' then program_process_new sk k
      else if package = str ''Finished''
      then and_then (program_interrup sk ERROR_CONSOLE_FINISH_COMMAND 0 k) (\<lambda>k1. Inr (clear_console sk k1))
      else Inr k)"

subsection \<open>The console of the Kernel\<close>

definition has_pid :: "kernel \<Rightarrow> int \<Rightarrow> ptr \<Rightarrow> bool" where
  "has_pid k n p \<longleftrightarrow> pid (pcb (programs k p)) = n"

definition seek_program :: "kernel \<Rightarrow> ptr list \<Rightarrow> int \<Rightarrow> ptr option" where
  "seek_program k l n = foldl (\<lambda>program p. if has_pid k n p then Some p else program) None l"

text \<open>The searches of the CPUs dereference \<open>cpu->program\<close> also when the CPU is idle.\<close>

fun find_in_cpus :: "kernel \<Rightarrow> int \<Rightarrow> t_cpu list \<Rightarrow> fault + ptr option" where
  "find_in_cpus k n [] = Inr None"
| "find_in_cpus k n (u # us) =
     (case cpu_program u of
        None \<Rightarrow> Inl Null_Deref
      | Some p \<Rightarrow> if has_pid k n p then Inr (Some p) else find_in_cpus k n us)"

definition get_program :: "int \<Rightarrow> kernel \<Rightarrow> fault + ptr option" where
  "get_program n k =
     (case list_find (has_pid k n) (blockedQ k) of
        Some p \<Rightarrow> Inr (Some p)
      | None \<Rightarrow>
          (case list_find (has_pid k n) (finishedQ k) of
             Some p \<Rightarrow> Inr (Some p)
           | None \<Rightarrow>
               (case list_find (has_pid k n) (readyQ k) of
                  Some p \<Rightarrow> Inr (Some p)
                | None \<Rightarrow> find_in_cpus k n (cpus k))))"

definition check_pid_is_running :: "int \<Rightarrow> kernel \<Rightarrow> fault + bool" where
  "check_pid_is_running n k =
     (if \<exists>p \<in> set (blockedQ k). has_pid k n p then Inr True
      else if \<exists>p \<in> set (newQ k). has_pid k n p then Inr True
      else if \<exists>p \<in> set (readyQ k). has_pid k n p then Inr True
      else and_then (find_in_cpus k n (cpus k)) (\<lambda>found. Inr (found \<noteq> None)))"

definition check_pid_is_incorrect :: "int \<Rightarrow> kernel \<Rightarrow> fault + bool" where
  "check_pid_is_incorrect n k =
     (if \<exists>p \<in> set (blockedQ k). has_pid k n p then Inr True
      else if \<exists>p \<in> set (finishedQ k). has_pid k n p then Inr True
      else if \<exists>p \<in> set (newQ k). has_pid k n p then Inr True
      else if \<exists>p \<in> set (readyQ k). has_pid k n p then Inr True
      else and_then (find_in_cpus k n (cpus k)) (\<lambda>found. Inr (found \<noteq> None)))"

definition console_multiprogram_degree :: "int \<Rightarrow> kernel \<Rightarrow> kernel" where
  "console_multiprogram_degree v k = k\<lparr>config := (config k)\<lparr>grado_multiprog := v\<rparr>\<rparr>"

subsection \<open>Start and steps\<close>

text \<open>The queues as \<open>Kernel.c\<close> creates them; the configuration and the connections are given.\<close>

definition kernel_started :: "kernel \<Rightarrow> bool" where
  "kernel_started k \<longleftrightarrow>
     programID k = 0 \<and> newQ k = [] \<and> readyQ k = [] \<and> blockedQ k = [] \<and> finishedQ k = []
     \<and> cpus k = [] \<and> globalFDs k = [] \<and> gfds k = Map.empty \<and> nextProgram k = 0"

text \<open>
  Between two events bytes arrive, consoles connect, and the CPUs use Memory on their own
  connections, which changes the Memory process but not what the Kernel keeps.
\<close>

inductive kernel_step :: "kernel \<Rightarrow> kernel \<Rightarrow> bool" where
  cpu_package: "select_cpu_socket_recive_package sk package k = Inr k' \<Longrightarrow> kernel_step k k'"
| cpu_lost: "select_cpu_socket_connection_lost sk k = Inr k' \<Longrightarrow> kernel_step k k'"
| console_package: "select_program_socket_recive_package sk package k = Inr k' \<Longrightarrow> kernel_step k k'"
| console_lost: "select_program_socket_connection_lost sk k = Inr k' \<Longrightarrow> kernel_step k k'"
| degree: "kernel_step k (console_multiprogram_degree v k)"
| outside: "kernel_step k (k\<lparr>socks := f, fsSock := s, memory := m, programMaster := master\<rparr>)"

inductive kernel_reachable :: "kernel \<Rightarrow> bool" where
  start: "kernel_started k \<Longrightarrow> kernel_reachable k"
| step: "kernel_reachable k \<Longrightarrow> kernel_step k k' \<Longrightarrow> kernel_reachable k'"

inductive_cases kernel_stepE: "kernel_step k k'"

end
