(* ===== verification/Config_File.thy ===== *)
theory Config_File
  imports Process_Control Sockets
begin

text \<open>
  The configuration library of the commons, as the processes use it. It is third-party code: a \<open>t_config\<close>
  is the text of each property of the file (\<open>config_create\<close> answers null, \<open>None\<close>, for a file that is not
  there), and \<open>config_env\<close> reads the text of an array. A property that is not in the file is a null
  pointer, which every use dereferences.
\<close>

type_synonym t_config = "cstring \<Rightarrow> cstring option"

record config_env =
  string_get_string_as_array :: "cstring \<Rightarrow> cstring list"

definition config_property :: "t_config \<Rightarrow> string \<Rightarrow> fault + cstring" where
  "config_property config0 key = (case config0 (str key) of None \<Rightarrow> Inl Null_Deref | Some v \<Rightarrow> Inr v)"

definition config_int :: "t_config \<Rightarrow> string \<Rightarrow> fault + int" where
  "config_int config0 key = and_then (config_property config0 key) (\<lambda>v. Inr (atoi v))"

definition config_array :: "config_env \<Rightarrow> t_config \<Rightarrow> string \<Rightarrow> fault + cstring list" where
  "config_array E config0 key = and_then (config_property config0 key) (\<lambda>v. Inr (string_get_string_as_array E v))"

end
