(* ===== verification/Kernel_Start.thy ===== *)
theory Kernel_Start
  imports Kernel_Requests Config_File
begin

text \<open>
  The start of the Kernel: \<open>functions/config.c\<close> and the first part of \<open>main\<close> in \<open>Kernel.c\<close>.
\<close>

subsection \<open>Semaphores and shared variables\<close>

fun semaphores_from :: "cstring list \<Rightarrow> cstring list \<Rightarrow> t_semaforo list" where
  "semaphores_from (s # ss) (v # vs) = \<lparr>sem_nombre = s, sem_value = atoi v\<rparr> # semaphores_from ss vs"
| "semaphores_from _ _ = []"

definition config_read_semaforos :: "config_env \<Rightarrow> t_config \<Rightarrow> fault + t_semaforo list" where
  "config_read_semaforos E config0 =
     and_then (config_array E config0 ''SEM_IDS'') (\<lambda>s.
     and_then (config_array E config0 ''SEM_INIT'') (\<lambda>vs. Inr (semaphores_from s vs)))"

definition config_read_shared_vars :: "config_env \<Rightarrow> t_config \<Rightarrow> fault + t_sharedVar list" where
  "config_read_shared_vars E config0 =
     and_then (config_array E config0 ''SHARED_VARS'') (\<lambda>vc.
       Inr (map (\<lambda>name. \<lparr>sv_nombre = name, sv_value = 0, sv_locked = False\<rparr>) vc))"

definition config_read :: "config_env \<Rightarrow> t_config option \<Rightarrow> fault + t_kernel" where
  "config_read E file =
     (case file of None \<Rightarrow> Inl Null_Deref | Some config0 \<Rightarrow>
       and_then (config_property config0 ''ALGORITMO'') (\<lambda>alg.
       and_then (config_int config0 ''GRADO_MULTIPROG'') (\<lambda>degree.
       and_then (config_property config0 ''IP_FS'') (\<lambda>ipFS.
       and_then (config_property config0 ''IP_MEMORIA'') (\<lambda>ipMemory.
       and_then (config_property config0 ''PUERTO_CPU'') (\<lambda>portCPU.
       and_then (config_property config0 ''PUERTO_FS'') (\<lambda>portFS.
       and_then (config_property config0 ''PUERTO_MEMORIA'') (\<lambda>portMemory.
       and_then (config_property config0 ''PUERTO_PROG'') (\<lambda>portProg.
       and_then (config_int config0 ''QUANTUM'') (\<lambda>q.
       and_then (config_int config0 ''QUANTUM_SLEEP'') (\<lambda>qs.
       and_then (config_int config0 ''STACK_SIZE'') (\<lambda>st.
       and_then (config_read_semaforos E config0) (\<lambda>sems.
       and_then (config_read_shared_vars E config0) (\<lambda>svs.
         Inr \<lparr>cfg_quantum = q, algoritmo = alg, grado_multiprog = degree, semaforos = sems, shared_vars = svs,
              stack_size = st, quantum_sleep = qs, ip_fs = ipFS, ip_memoria = ipMemory, puerto_cpu = portCPU,
              puerto_fs = portFS, puerto_memoria = portMemory, puerto_prog = portProg\<rparr>))))))))))))))"

subsection \<open>Changes of the configuration file\<close>

text \<open>
  An event of inotify with what \<open>config_create\<close> finds at that moment. The events of one \<open>read\<close> are
  worked off to the end; the loop ends after one in which the file was deleted. \<open>Waiting\<close> is the
  thread in its next \<open>read\<close>, \<open>None\<close> a \<open>read\<close> that fails.
\<close>

record file_event =
  in_modify :: bool
  in_delete :: bool
  file_then :: "t_config option"

datatype observer = Observing t_kernel | Stopped t_kernel

definition quantum_sleep_from :: "t_config option \<Rightarrow> t_kernel \<Rightarrow> fault + t_kernel" where
  "quantum_sleep_from file cfg =
     (case file of None \<Rightarrow> Inl Null_Deref | Some config0 \<Rightarrow>
        (case config0 (str ''QUANTUM_SLEEP'') of
           None \<Rightarrow> Inr cfg
         | Some v \<Rightarrow> if quantum_sleep cfg \<noteq> atoi v then Inr (cfg\<lparr>quantum_sleep := atoi v\<rparr>) else Inr cfg))"

fun observe_events :: "file_event list \<Rightarrow> t_kernel \<Rightarrow> bool \<Rightarrow> fault + t_kernel \<times> bool" where
  "observe_events [] cfg observeConfig = Inr (cfg, observeConfig)"
| "observe_events (ev # evs) cfg observeConfig =
     (if in_modify ev then and_then (quantum_sleep_from (file_then ev) cfg) (\<lambda>cfg1. observe_events evs cfg1 observeConfig)
      else if in_delete ev then observe_events evs cfg False
      else observe_events evs cfg observeConfig)"

fun config_observe_changes :: "file_event list option list \<Rightarrow> t_kernel \<Rightarrow> fault + observer" where
  "config_observe_changes [] cfg = Inr (Observing cfg)"
| "config_observe_changes (None # _) cfg = Inr (Stopped cfg)"
| "config_observe_changes (Some evs # more_reads) cfg =
     and_then (observe_events evs cfg True) (\<lambda>(cfg1, observeConfig).
       if observeConfig then config_observe_changes more_reads cfg1 else Inr (Stopped cfg1))"

subsection \<open>The globals\<close>

definition filesystem_connect :: "sock \<Rightarrow> sock" where
  "filesystem_connect s = snd (socket_send_string s (str ''KERNEL''))"

text \<open>
  What the programs and connections are before they exist (\<open>heap\<close>, \<open>socks\<close>) is given, and so are the
  connections to the two servers.
\<close>

definition kernel_main ::
    "config_env \<Rightarrow> t_config option \<Rightarrow> t_env \<Rightarrow> (ptr \<Rightarrow> t_program) \<Rightarrow> (int \<Rightarrow> sock) \<Rightarrow> sock \<Rightarrow> remote \<Rightarrow> fault + kernel" where
  "kernel_main E file outside heap conns fileSystemServer memoryServer =
     and_then (config_read E file) (\<lambda>configKernel.
       Inr \<lparr>config = configKernel, env = outside, programID = 0, programs = heap, nextProgram = 0,
            gfds = Map.empty, nextGfd = 0, globalFDs = [], newQ = [], readyQ = [], blockedQ = [], finishedQ = [],
            cpus = [], socks = conns, fsSock = filesystem_connect fileSystemServer, memory = memoryServer,
            programMaster = {}, closed = {}\<rparr>)"

subsection \<open>What they do\<close>

lemma semaphores_from_zip: "semaphores_from ss vs = map (\<lambda>(s, v). \<lparr>sem_nombre = s, sem_value = atoi v\<rparr>) (zip ss vs)"
  by (induction ss vs rule: semaphores_from.induct) simp_all

lemma kernel_main_starts:
  assumes "kernel_main E file outside heap conns fss ms = Inr k"
  shows "kernel_started k" "config_read E file = Inr (config k)"
  using assms by (auto simp: kernel_main_def kernel_started_def and_then_Inr_iff)

text \<open>The names of the semaphores decide: a value without a name, or a name without a value, is dropped.\<close>

lemma config_read_lists:
  assumes "config_read E (Some f) = Inr cfg" "f (str ''SEM_IDS'') = Some ids" "f (str ''SEM_INIT'') = Some vals"
    "f (str ''SHARED_VARS'') = Some names"
  shows "map sem_nombre (semaforos cfg) = take (length (string_get_string_as_array E vals)) (string_get_string_as_array E ids)"
    "map sem_value (semaforos cfg) = take (length (string_get_string_as_array E ids)) (map atoi (string_get_string_as_array E vals))"
    "map sv_nombre (shared_vars cfg) = string_get_string_as_array E names"
    "\<forall>v \<in> set (shared_vars cfg). sv_value v = 0 \<and> \<not> sv_locked v"
proof -
  have s: "semaforos cfg = semaphores_from (string_get_string_as_array E ids) (string_get_string_as_array E vals)"
    "shared_vars cfg = map (\<lambda>name. \<lparr>sv_nombre = name, sv_value = 0, sv_locked = False\<rparr>) (string_get_string_as_array E names)"
    using assms by (auto simp: config_read_def config_read_semaforos_def config_read_shared_vars_def config_array_def
        config_property_def and_then_Inr_iff)
  have n: "map sem_nombre (semaphores_from ss vs) = take (length vs) ss"
    "map sem_value (semaphores_from ss vs) = take (length ss) (map atoi vs)" for ss vs
    by (induction ss vs rule: semaphores_from.induct) simp_all
  show "map sem_nombre (semaforos cfg) = take (length (string_get_string_as_array E vals)) (string_get_string_as_array E ids)"
    "map sem_value (semaforos cfg) = take (length (string_get_string_as_array E ids)) (map atoi (string_get_string_as_array E vals))"
    using n by (simp_all add: s(1))
  show "map sv_nombre (shared_vars cfg) = string_get_string_as_array E names"
    "\<forall>v \<in> set (shared_vars cfg). sv_value v = 0 \<and> \<not> sv_locked v" by (simp_all add: s(2) comp_def)
qed

text \<open>Only the pause between bursts can change, and it becomes what the file last said.\<close>

definition sleep_said :: "file_event \<Rightarrow> int option" where
  "sleep_said ev = (if in_modify ev then map_option atoi (Option.bind (file_then ev) (\<lambda>f. f (str ''QUANTUM_SLEEP''))) else None)"

definition sleep_after :: "file_event list \<Rightarrow> int \<Rightarrow> int" where
  "sleep_after evs v = last (v # List.map_filter sleep_said evs)"

lemma observe_events_spec:
  assumes "observe_events evs cfg ob = Inr (cfg1, ob1)"
  shows "cfg1 = cfg\<lparr>quantum_sleep := sleep_after evs (quantum_sleep cfg)\<rparr>
    \<and> (ob1 \<longleftrightarrow> ob \<and> (\<forall>ev \<in> set evs. in_modify ev \<or> \<not> in_delete ev))"
  using assms
proof (induction evs cfg ob rule: observe_events.induct)
  case (2 ev evs cfg ob)
  show ?case
  proof (cases "in_modify ev")
    case False
    with 2 show ?thesis
      by (auto simp: sleep_after_def sleep_said_def map_filter_simps split: if_splits)
  next
    case True
    then obtain f where f: "file_then ev = Some f" using 2(4) by (cases "file_then ev") (auto simp: quantum_sleep_from_def)
    show ?thesis
    proof (cases "f (str ''QUANTUM_SLEEP'')")
      case None
      then show ?thesis using 2 True f by (auto simp: quantum_sleep_from_def sleep_after_def sleep_said_def map_filter_simps)
    next
      case (Some v)
      have q: "quantum_sleep_from (file_then ev) cfg = Inr (cfg\<lparr>quantum_sleep := atoi v\<rparr>)"
        by (simp add: f Some quantum_sleep_from_def)
      show ?thesis using 2(1) [OF True q] 2(4) True f Some
        by (auto simp: q [unfolded f] sleep_after_def sleep_said_def map_filter_simps)
    qed
  qed
qed (simp add: sleep_after_def map_filter_simps)

text \<open>Reads that succeed and tell nothing of a deletion are worked off; the thread then waits for the next.\<close>

lemma config_observe_changes_spec:
  assumes "config_observe_changes (map Some reads) cfg = Inr ob"
    "\<forall>evs \<in> set reads. \<forall>ev \<in> set evs. in_modify ev \<or> \<not> in_delete ev"
  shows "ob = Observing (cfg\<lparr>quantum_sleep := sleep_after (concat reads) (quantum_sleep cfg)\<rparr>)"
  using assms
proof (induction reads arbitrary: cfg)
  case (Cons evs reads)
  obtain cfg1 go where e: "observe_events evs cfg True = Inr (cfg1, go)"
    using Cons.prems(1) by (auto simp: and_then_Inr_iff)
  have after: "cfg1 = cfg\<lparr>quantum_sleep := sleep_after evs (quantum_sleep cfg)\<rparr>" "go"
    using observe_events_spec [OF e] Cons.prems(2) by auto
  have "ob = Observing (cfg1\<lparr>quantum_sleep := sleep_after (concat reads) (quantum_sleep cfg1)\<rparr>)"
    using Cons.IH [of cfg1] Cons.prems e after(2) by simp
  moreover have "sleep_after (concat reads) (sleep_after evs v) = sleep_after (evs @ concat reads) v" for v
    by (simp add: sleep_after_def List.map_filter_def last_append)
  ultimately show ?case using after(1) by simp
qed (simp add: sleep_after_def map_filter_simps)

end
