(* ===== verification/FS_Process.thy ===== *)
theory FS_Process
  imports FS_Exchange Kernel_Start
begin

text \<open>
  The FileSystem process around its operations: the start (\<open>functions/config.c\<close>, \<open>initSadica\<close> of
  \<open>init.c\<close>, \<open>main\<close> of \<open>FileSystem.c\<close>) and the loop that accepts a connection, hears who it is and serves
  the Kernel until it goes away.

  \<open>crearArchivos\<close> and \<open>unmountSadica\<close> of \<open>init.c\<close> are called nowhere.
\<close>

subsection \<open>Start\<close>

definition fs_config_read :: "t_config option \<Rightarrow> fault + cstring \<times> cstring" where
  "fs_config_read file =
     (case file of None \<Rightarrow> Inl Null_Deref | Some config0 \<Rightarrow>
       and_then (config_property config0 ''PUERTO'') (\<lambda>puerto.
       and_then (config_property config0 ''PUNTO_MONTAJE'') (\<lambda>mount.
         Inr (puerto, if mount \<noteq> [] \<and> last mount = 47 then mount else mount @ str ''/''))))"

definition metadataFS_read :: "cstring \<Rightarrow> fs \<Rightarrow> fault + fs" where
  "metadataFS_read path d =
     (case lookup_path (tree d) path of
        Some (Regular c) \<Rightarrow>
          Inr (d\<lparr>tamanioBloques := config_get_int_value (fsenv d) c (str ''TAMANIO_BLOQUES''),
                 cantidadBloques := config_get_int_value (fsenv d) c (str ''CANTIDAD_BLOQUES'')\<rparr>)
      | _ \<Rightarrow> Inl Null_Deref)"

text \<open>\<open>MSB_FIRST\<close>: the first bit of a byte is its highest. A mapping that failed has no bits.\<close>

definition byte_bits :: "byte \<Rightarrow> bool list" where
  "byte_bits b = map (\<lambda>i. bit b (7 - i)) [0..<8]"

definition initSadica :: "fs \<Rightarrow> fs" where
  "initSadica d =
     (let pg = page_bytes (fsenv d); n = nat (cantidadBloques d - 1) in
      d\<lparr>bitmap :=
         (case lookup_path (tree d) (punto_montaje d @ str ''Metadata/Bitmap.bin'') of
            Some (Regular c) \<Rightarrow>
              (case mapped_read pg n c 0 (mapped_limit pg n c) of None \<Rightarrow> [] | Some bs \<Rightarrow> concat (map byte_bits bs))
          | _ \<Rightarrow> [])\<rparr>)"

text \<open>The log of the free blocks is the first use of the bitmap; \<open>no_sock\<close> is the connection before there is one.\<close>

definition fs_main :: "t_config option \<Rightarrow> fs_env \<Rightarrow> tree \<Rightarrow> sock \<Rightarrow> fault + fs" where
  "fs_main file env0 files_of_disk no_sock =
     and_then (fs_config_read file) (\<lambda>(puerto, mount).
       let d0 = \<lparr>fsenv = env0, punto_montaje = mount, tamanioBloques = 0, cantidadBloques = 0, bitmap = [],
                 tree = files_of_disk, socketKernel = no_sock\<rparr> in
       and_then (metadataFS_read (armarPathMetadataFS d0) d0) (\<lambda>d1.
       let d2 = initSadica d1 in and_then (cantBloquesLibresBitmap d2) (\<lambda>_. Inr d2)))"

subsection \<open>The operations leave the connection alone\<close>

lemma put_bit_socket: "bitarray_put_bit v i d = Inr d' \<Longrightarrow> socketKernel d' = socketKernel d"
  by (auto simp: bitarray_put_bit_def split: if_splits)

lemma crearArchivo_socket: "socketKernel (snd (crearArchivo path pos d)) = socketKernel d"
  by (simp add: crearArchivo_def split: option.splits)

lemma make_directories_socket: "socketKernel (make_directories dir ps d) = socketKernel d"
  by (induction dir ps d rule: make_directories.induct) (simp_all add: run_shell_def)

lemma crear_socket:
  assumes c: "crear path p d = Inr (r, d')"
  shows "socketKernel d' = socketKernel d"
proof (cases "d' = d")
  case False
  with c obtain pos where v: "validar p d \<noteq> 1" and e: "encontrarUnBloqueLibre d = Inr pos" and pos: "0 \<le> pos"
    unfolding crear_def by (auto simp: and_then_Inr_iff split: if_splits)
  from c v pos obtain d1 where d1: "ocuparBloqueLibre pos d = Inr d1"
    unfolding crear_def e and_then_simps by (auto simp: and_then_Inr_iff)
  obtain made d2 where d2: "crearArchivo p pos d1 = (made, d2)" by fastforce
  have s1: "socketKernel d1 = socketKernel d" using d1 by (auto simp: ocuparBloqueLibre_def dest: put_bit_socket)
  have s2: "socketKernel d2 = socketKernel d1" using crearArchivo_socket [of p pos d1] by (simp add: d2)
  show ?thesis
  proof (cases "made = 1")
    case True
    with c v pos have "d' = d2" unfolding crear_def e and_then_simps d1 d2 prod.case by simp
    with s1 s2 show ?thesis by simp
  next
    case made: False
    from c v pos made obtain can where can: "seVanAPoderCrearLosDirectoriosNecesarios path d2 = Inr can"
      unfolding crear_def e and_then_simps d1 d2 prod.case by (auto simp: and_then_Inr_iff)
    have "\<exists>d3. d' = snd (crearArchivo p pos d3) \<and> socketKernel d3 = socketKernel d2"
    proof (cases can)
      case True
      with c v pos made obtain d3 where "crearDirectoriosNecesarios path d2 = Inr d3" "d' = snd (crearArchivo p pos d3)"
        unfolding crear_def e and_then_simps d1 d2 prod.case can by (auto simp: and_then_Inr_iff)
      then show ?thesis by (auto simp: crearDirectoriosNecesarios_def Let_def make_directories_socket split: if_splits)
    next
      case False
      with c v pos made show ?thesis unfolding crear_def e and_then_simps d1 d2 prod.case can by auto
    qed
    then show ?thesis using s1 s2 crearArchivo_socket by metis
  qed
qed simp

lemma release_all_socket: "release_all bs d = Inr d' \<Longrightarrow> socketKernel d' = socketKernel d"
  by (induction bs d rule: release_all.induct) (auto simp: and_then_Inr_iff liberarBloqueDelBitmap_def dest: put_bit_socket)

lemma remove_upwards_socket: "remove_upwards ps keep n d = Inr d' \<Longrightarrow> socketKernel d' = socketKernel d"
proof (induction n arbitrary: d)
  case 0
  then show ?case
    by (subst (asm) remove_upwards.simps) (auto simp: and_then_Inr_iff run_shell_def Let_def simp del: remove_upwards.simps split: if_splits)
next
  case (Suc n)
  from Suc.prems obtain dir where "join_parts ps (Suc n) = Inr dir"
    and c: "(if keep \<noteq> dir \<and> isDirectoryEmpty dir (tree d) = 1
       then remove_upwards ps keep n (run_shell (str ''rmdir '' @ dir) d) else Inr d) = Inr d'"
    unfolding remove_upwards.simps [of ps keep "Suc n" d] Let_def nat.case and_then_Inr_iff by blast
  show ?case using c Suc.IH [of "run_shell (str ''rmdir '' @ dir) d"]
    by (simp add: run_shell_def del: remove_upwards.simps split: if_splits)
qed

lemma borrar_socket:
  assumes b: "borrar path d = Inr (r, d')"
  shows "socketKernel d' = socketKernel d"
proof (cases "validar path d = 1")
  case True
  with b obtain archivo d1 where "read_fileMetadata path d = Inr archivo" and d1: "release_all (bloques archivo) d = Inr d1"
    and d': "borrarDirectorioSiEstaVacio path (eliminarMetadataArchivo path d1) = Inr d'"
    by (auto simp: borrar_def and_then_Inr_iff simp del: release_all.simps)
  have "socketKernel (eliminarMetadataArchivo path d1) = socketKernel d1"
    by (simp add: eliminarMetadataArchivo_def split: option.splits)
  moreover have "socketKernel d' = socketKernel (eliminarMetadataArchivo path d1)"
    using d' unfolding borrarDirectorioSiEstaVacio_def Let_def
    by (simp del: remove_upwards.simps split: if_splits) (erule remove_upwards_socket)
  ultimately show ?thesis using release_all_socket [OF d1] by simp
qed (use b in \<open>simp add: borrar_def\<close>)

lemma fs_recv_int_rx: "fs_recv_int d = (v, d') \<Longrightarrow> length (rx (socketKernel d')) \<le> length (rx (socketKernel d))"
  by (auto simp: fs_recv_int_def split: prod.splits dest: socket_recv_int_rx)

lemma answer_rx: "rx (socketKernel (answer_int v d)) = rx (socketKernel d)" "rx (socketKernel (answer_blob bs d)) = rx (socketKernel d)"
  using socket_send_int_rx socket_send_rx by (simp_all add: answer_int_def answer_blob_def) (metis surjective_pairing)+

lemma operation_rx:
  assumes h: "hacerLoQueCorresponda oper d0 = Inr d'"
  shows "length (rx (socketKernel d')) \<le> length (rx (socketKernel d0))"
proof -
  obtain n received s where r: "socket_recv_string (socketKernel d0) = (n, received, s)" using prod_cases3 by blast
  let ?d = "d0\<lparr>socketKernel := s\<rparr>"
  have s: "length (rx s) \<le> length (rx (socketKernel d0))" using socket_recv_rx r by (simp add: socket_recv_string_def)
  let ?m = "\<lambda>d1. length (rx (socketKernel d1))"
  define path where "path = (case received of Some b \<Rightarrow> cstr b | None \<Rightarrow> junk_path (fsenv d0))"
  define p where "p = armarPathArchivo path ?d"
  note h' = h [unfolded hacerLoQueCorresponda_def r prod.case Let_def, folded path_def, folded p_def]
  have "?m d' \<le> length (rx s)"
  proof (cases "oper = str ''OBTENERDATOS'' \<or> oper = str ''GUARDARDATOS''")
    case False
    with h' show ?thesis
      by (auto simp: and_then_Inr_iff answer_rx dest: crear_socket borrar_socket split: if_splits)
  next
    case True
    obtain offset d1 where o: "fs_recv_int ?d = (offset, d1)" by fastforce
    have d1: "?m d1 \<le> length (rx s)" using fs_recv_int_rx [OF o] by simp
    from True show ?thesis
    proof
      assume f: "oper = str ''OBTENERDATOS''"
      obtain sz d2 where z: "fs_recv_int d1 = (sz, d2)" by fastforce
      have "?m d' = ?m d2" using h' by (auto simp: f o z and_then_Inr_iff answer_rx split: if_splits)
      with fs_recv_int_rx [OF z] d1 show ?thesis by simp
    next
      assume f: "oper = str ''GUARDARDATOS''"
      obtain sz received2 s2 where z: "socket_recv (socketKernel d1) = (sz, received2, s2)" using prod_cases3 by blast
      obtain v d2 where g: "guardarDatos p offset sz (case received2 of Some b \<Rightarrow> b | None \<Rightarrow> []) (d1\<lparr>socketKernel := s2\<rparr>) = Inr (v, d2)"
        and "d' = answer_int v d2"
        using h' by (auto simp: f o z and_then_Inr_iff)
      with guardar_socket [OF g] have "?m d' = length (rx s2)" by (simp add: answer_rx)
      with socket_recv_rx [OF z] d1 show ?thesis by simp
    qed
  qed
  with s show ?thesis by simp
qed

lemma serve_kernel_rx:
  assumes "serve_kernel d = Inr (Some d1)"
  shows "length (rx (socketKernel d1)) < length (rx (socketKernel d))"
proof -
  obtain n received s where r: "socket_recv_string (socketKernel d) = (n, received, s)" using prod_cases3 by blast
  from assms have n: "0 < n" and h: "hacerLoQueCorresponda (case received of Some b \<Rightarrow> cstr b | None \<Rightarrow> []) (d\<lparr>socketKernel := s\<rparr>) = Inr d1"
    by (auto simp: serve_kernel_def r and_then_Inr_iff split: if_splits)
  show ?thesis
    using operation_rx [OF h] socket_recv_rx_less [of "socketKernel d" n received s] n r by (simp add: socket_recv_string_def)
qed

subsection \<open>The loop of \<open>main\<close>\<close>

text \<open>Until the Kernel goes away; every turn takes bytes off the connection.\<close>

function serve_session :: "fs \<Rightarrow> fault + fs" where
  "serve_session d =
     (case serve_kernel d of Inl e \<Rightarrow> Inl e | Inr None \<Rightarrow> Inr d | Inr (Some d1) \<Rightarrow> serve_session d1)"
  by pat_completeness auto
termination
  by (relation "measure (\<lambda>d. length (rx (socketKernel d)))") (auto dest: serve_kernel_rx)

declare serve_session.simps [simp del]

text \<open>
  Who is there: without a whole message the string is the empty one of \<open>string_new\<close>, or the block that
  was never filled.
\<close>

definition identificador :: "fs_env \<Rightarrow> sock \<Rightarrow> cstring" where
  "identificador E s =
     (case socket_recv_string s of
        (_, Some b, _) \<Rightarrow> cstr b
      | (_, None, _) \<Rightarrow> if 11 \<le> length (rx s) \<and> 0 \<le> atoi (take 11 (rx s) @ rjunk s) then junk_path E else [])"

definition fs_accept :: "sock \<Rightarrow> fs \<Rightarrow> fault + fs" where
  "fs_accept s d =
     (let d1 = d\<lparr>socketKernel := snd (snd (socket_recv_string s))\<rparr> in
      if identificador (fsenv d) s = str ''KERNEL'' then serve_session d1 else Inr d1)"

fun fs_server :: "sock option list \<Rightarrow> fs \<Rightarrow> fault + fs" where
  "fs_server [] d = Inr d"
| "fs_server (None # more_conns) d = Inl Exit_Failure"
| "fs_server (Some s # more_conns) d = and_then (fs_accept s d) (fs_server more_conns)"

subsection \<open>What they do\<close>

lemma session_ends: "rx (socketKernel d) = [] \<Longrightarrow> serve_session d = Inr d"
  by (subst serve_session.simps) (simp add: serve_kernel_def socket_recv_string_def socket_recv_def sys_recv_def)

text \<open>The bytes \<open>filesystem_connect\<close> sends open the session.\<close>

lemma connect_bytes: "18 \<le> room s \<Longrightarrow> filesystem_connect s = said s (blob_frame (sjunk s) (str ''KERNEL'' @ [0]))"
  by (simp add: filesystem_connect_def socket_send_string_ok said_def str_def)

lemma handshake:
  assumes "rx s = blob_frame j (str ''KERNEL'' @ [0]) @ left"
  shows "fs_accept s d = serve_session (d\<lparr>socketKernel := s\<lparr>rx := left\<rparr>\<rparr>)"
proof -
  have z: "0 \<notin> set (str ''KERNEL'')" "length (str ''KERNEL'') + 1 < 2 ^ 31" by (simp_all add: str_def)
  have "identificador (fsenv d) s = str ''KERNEL''"
    using socket_recv_string_ok [OF z(2) assms] z(1) by (simp add: identificador_def)
  then show ?thesis using socket_recv_string_ok [OF z(2) assms] by (simp add: fs_accept_def)
qed

text \<open>Anyone else is not served: the disk stays, and nothing is answered.\<close>

lemma stranger_refused:
  assumes "rx s = blob_frame j (name @ [0]) @ left" "0 \<notin> set name" "length name + 1 < 2 ^ 31" "name \<noteq> str ''KERNEL''"
  shows "fs_accept s d = Inr (d\<lparr>socketKernel := s\<lparr>rx := left\<rparr>\<rparr>)"
  using socket_recv_string_ok [OF assms(3,1)] assms(2,4) by (simp add: fs_accept_def identificador_def)

text \<open>A session with one read: the Kernel connects, asks, and goes away.\<close>

lemma session_read:
  assumes inv: "fs_inv d M" and E: "reads_metadata (fsenv d)" and path: "plain_path path" "request_fits path"
    and v: "validar (armarPathArchivo path d) d = 1" and M: "M (components path) = Some a"
    and rx: "rx s = blob_frame j (str ''KERNEL'' @ [0]) @ read_request k path (int off) (int sz)"
    and small: "off < 2 ^ 31" "sz < 2 ^ 31" and off: "int off \<le> tamanio a" and space: "22 + sz \<le> room s"
  defines "bs \<equiv> take sz (drop off (file_bytes d a))"
  shows "fs_accept s d = Inr (d\<lparr>socketKernel := said (s\<lparr>rx := []\<rparr>)
    (int_header (sjunk s) (int (length bs)) @ (if bs = [] then [] else blob_frame (sjunk s) bs))\<rparr>)"
proof -
  let ?d = "d\<lparr>socketKernel := s\<lparr>rx := read_request k path (int off) (int sz)\<rparr>\<rparr>"
  let ?a = "int_header (sjunk s) (int (length bs)) @ (if bs = [] then [] else blob_frame (sjunk s) bs)"
  have "serve_kernel ?d = Inr (Some (?d\<lparr>socketKernel := said ((socketKernel ?d)\<lparr>rx := []\<rparr>)
      (int_header (sjunk (socketKernel ?d)) (int (length (take sz (drop off (file_bytes ?d a)))))
       @ (if take sz (drop off (file_bytes ?d a)) = [] then []
          else blob_frame (sjunk (socketKernel ?d)) (take sz (drop off (file_bytes ?d a)))))\<rparr>))"
    by (rule serve_read [where M = M and path = path and s = k]) (use assms in simp_all)
  then have k: "serve_kernel ?d = Inr (Some (d\<lparr>socketKernel := said (s\<lparr>rx := []\<rparr>) ?a\<rparr>))"
    by (simp add: bs_def)
  have e: "serve_session (d\<lparr>socketKernel := said (s\<lparr>rx := []\<rparr>) ?a\<rparr>) = Inr (d\<lparr>socketKernel := said (s\<lparr>rx := []\<rparr>) ?a\<rparr>)"
    by (rule session_ends) simp
  have "serve_session ?d = Inr (d\<lparr>socketKernel := said (s\<lparr>rx := []\<rparr>) ?a\<rparr>)"
    using e by (subst serve_session.simps) (simp only: k sum.case option.case)
  then show ?thesis by (simp add: handshake [OF rx])
qed

text \<open>A session that writes and reads back.\<close>

lemma session_trip:
  assumes w: "writes_to d M path a off bs" "int off \<le> tamanio a" "request_fits path"
    "missing_blocks d a (off + length bs) \<le> card (free_blocks d)"
    "off mod block_size d + min (length bs) (block_size d) \<le> whole_pages (page_bytes (fsenv d)) (block_size d)"
    and rx: "rx s = blob_frame j (str ''KERNEL'' @ [0]) @ write_request k path (int off) bs @ read_request k path (int off) (int (length bs))"
    and space: "33 + length bs \<le> room s"
  obtains d2 where "fs_accept s d = Inr d2"
    "tx (socketKernel d2) = tx s @ int_header (sjunk s) 1 @ int_header (sjunk s) (int (length bs)) @ blob_frame (sjunk s) bs"
proof -
  let ?r = "write_request k path (int off) bs @ read_request k path (int off) (int (length bs))"
  let ?d = "d\<lparr>socketKernel := s\<lparr>rx := ?r\<rparr>\<rparr>"
  have w': "writes_to ?d M path a off bs" "missing_blocks ?d a (off + length bs) \<le> card (free_blocks ?d)"
    "off mod block_size ?d + min (length bs) (block_size ?d) \<le> whole_pages (page_bytes (fsenv ?d)) (block_size ?d)"
    using w by simp_all
  show thesis
  proof (rule write_then_read [OF w'(1) w(2,3) w'(2,3), of k "[]"])
    fix d1 d2
    assume t: "serve_kernel ?d = Inr (Some d1)" "serve_kernel d1 = Inr (Some d2)"
      and k': "socketKernel d2 = said ((socketKernel ?d)\<lparr>rx := []\<rparr>) (int_header (sjunk (socketKernel ?d)) 1
        @ int_header (sjunk (socketKernel ?d)) (int (length bs)) @ blob_frame (sjunk (socketKernel ?d)) bs)"
    have "serve_session d2 = Inr d2" by (rule session_ends) (simp add: k')
    then have "serve_session d1 = Inr d2" by (subst serve_session.simps) (simp only: t sum.case option.case)
    then have "serve_session ?d = Inr d2" by (subst serve_session.simps) (simp only: t sum.case option.case)
    then have "fs_accept s d = Inr d2" by (simp add: handshake [OF rx])
    then show thesis
    proof (rule that)
      show "tx (socketKernel d2) = tx s @ int_header (sjunk s) 1 @ int_header (sjunk s) (int (length bs)) @ blob_frame (sjunk s) bs"
        unfolding k' by simp
    qed
  qed (use space in simp_all)
qed

subsection \<open>The bitmap after the start\<close>

lemma byte_bits_all: "length (concat (map byte_bits bs)) = 8 * length bs"
    "i < 8 * length bs \<Longrightarrow> concat (map byte_bits bs) ! i = bit (bs ! (i div 8)) (7 - i mod 8)"
proof -
  show l: "length (concat (map byte_bits bs)) = 8 * length bs" for bs
    by (induction bs) (simp_all add: byte_bits_def)
  show "concat (map byte_bits bs) ! i = bit (bs ! (i div 8)) (7 - i mod 8)" if "i < 8 * length bs" for i
    using that
  proof (induction bs arbitrary: i)
    case (Cons b bs)
    have b8: "length (byte_bits b) = 8" by (simp add: byte_bits_def)
    show ?case
    proof (cases "i < 8")
      case True
      have "byte_bits b ! i = bit b (7 - i)" using True by (simp add: byte_bits_def del: upt_rec_numeral)
      with True b8 show ?thesis by (simp add: nth_append)
    next
      case False
      then have "i div 8 = Suc ((i - 8) div 8)" "i mod 8 = (i - 8) mod 8" by (simp_all add: le_div_geq le_mod_geq)
      moreover have "concat (map byte_bits bs) ! (i - 8) = bit (bs ! ((i - 8) div 8)) (7 - (i - 8) mod 8)"
        by (rule Cons.IH) (use Cons.prems False in simp)
      ultimately show ?thesis using False b8 by (simp add: nth_append)
    qed
  qed simp
qed

lemma initSadica_reads:
  assumes f: "lookup_path (tree d) (punto_montaje d @ str ''Metadata/Bitmap.bin'') = Some (Regular c)"
    and n: "2 \<le> cantidadBloques d" "nat (cantidadBloques d) \<le> 8 * length c" and pg: "0 < page_bytes (fsenv d)"
  shows "bitmap_ok (initSadica d)"
    "i < nat (cantidadBloques d div 8) * 8 \<Longrightarrow> bitmap (initSadica d) ! i = bit (c ! (i div 8)) (7 - i mod 8)"
proof -
  let ?pg = "page_bytes (fsenv d)" and ?n = "nat (cantidadBloques d - 1)"
  let ?l = "mapped_limit ?pg ?n c"
  have b: "bitmap (initSadica d) = concat (map byte_bits (peek 0 ?l (c @ replicate ?l 0)))"
    by (simp add: initSadica_def Let_def f mapped_read_def)
  have "nat (cantidadBloques d div 8) \<le> ?n" "nat (cantidadBloques d div 8) \<le> length c" using n by linarith+
  then have l: "nat (cantidadBloques d div 8) \<le> ?l"
    using whole_pages_ge [OF pg, of ?n] whole_pages_ge [OF pg, of "length c"] by (simp add: mapped_limit_def)
  have len: "length (bitmap (initSadica d)) = 8 * ?l" by (simp only: b byte_bits_all(1)) (simp add: peek_def)
  have same: "cantidadBloques (initSadica d) = cantidadBloques d" by (simp add: initSadica_def Let_def)
  show "bitmap_ok (initSadica d)" using l by (simp add: bitmap_ok_def bitarray_get_max_bit_def len same)
  assume i: "i < nat (cantidadBloques d div 8) * 8"
  then have "i div 8 < nat (cantidadBloques d div 8)" by linarith
  then have "i div 8 < length c" "i div 8 < ?l" using n(2) l by linarith+
  then have "(peek 0 ?l (c @ replicate ?l 0)) ! (i div 8) = c ! (i div 8)" by (simp add: peek_def nth_append)
  moreover have "i < 8 * length (peek 0 ?l (c @ replicate ?l 0))" using i l by (simp add: peek_def)
  ultimately show "bitmap (initSadica d) ! i = bit (c ! (i div 8)) (7 - i mod 8)"
    using byte_bits_all(2) [of i "peek 0 ?l (c @ replicate ?l 0)"] by (simp add: b)
qed

end
