(* ===== verification/FS_Generator.thy ===== *)
theory FS_Generator
  imports FS_Process
begin

text \<open>
  \<open>GeneradorDeArchivos\<close>, the program that prepares a disk: \<open>functions/principales.c\<close>, \<open>functions/config.c\<close>
  and the loop of \<open>main\<close>. It works on the tree of files of the FileSystem process; the shell and the
  configuration reader are those of \<open>fs_env\<close>, and \<open>sprintf\<close> into the string of \<open>string_new\<close> is taken to
  fit, as there. What the user types is a list of lines with their ends; at the end of the input
  \<open>getline\<close> answers -1 and the end of the string is written before the buffer.
\<close>

record t_metadata =
  gen_tamanioBloques :: int
  gen_cantidadBloques :: int

definition ends_with_char :: "cstring \<Rightarrow> byte \<Rightarrow> fault + bool" where
  "ends_with_char unString unChar = (if unString = [] then Inl Buffer_Overflow else Inr (last unString = unChar))"

definition concatenarSegundoParametroAlPrimero :: "cstring \<Rightarrow> cstring \<Rightarrow> fault + cstring" where
  "concatenarSegundoParametroAlPrimero puntoMontaje otroString =
     and_then (ends_with_char puntoMontaje 47) (\<lambda>ends.
       Inr ((if ends then puntoMontaje else puntoMontaje @ str ''/'') @ otroString))"

definition gen_metadata_read :: "cstring \<Rightarrow> fs_env \<Rightarrow> tree \<Rightarrow> fault + t_metadata" where
  "gen_metadata_read path E t =
     (case lookup_path t path of
        Some (Regular c) \<Rightarrow>
          Inr \<lparr>gen_tamanioBloques = config_get_int_value E c (str ''TAMANIO_BLOQUES''),
               gen_cantidadBloques = config_get_int_value E c (str ''CANTIDAD_BLOQUES'')\<rparr>
      | _ \<Rightarrow> Inl Null_Deref)"

text \<open>The blocks from \<open>i\<close> on. The test and the removal get the text of the command as their path.\<close>

definition truncate_command :: "cstring \<Rightarrow> int \<Rightarrow> nat \<Rightarrow> cstring" where
  "truncate_command pathCarpetaBloques tamanio0 i =
     str ''truncate -s '' @ sprintf_i tamanio0 @ str '' '' @ pathCarpetaBloques @ sprintf_i (int i) @ str ''.bin''"

definition truncate_block :: "cstring \<Rightarrow> t_metadata \<Rightarrow> fs_env \<Rightarrow> nat \<Rightarrow> tree \<Rightarrow> tree" where
  "truncate_block pathCarpetaBloques md E i t =
     (let comando = truncate_command pathCarpetaBloques (gen_tamanioBloques md) i;
          t1 = (if lookup_path t comando = None
                then (case posix_remove comando t of None \<Rightarrow> t | Some t' \<Rightarrow> t') else t)
      in shell E comando t1)"

definition truncarBloquesBitmap :: "cstring \<Rightarrow> t_metadata \<Rightarrow> fs_env \<Rightarrow> tree \<Rightarrow> tree" where
  "truncarBloquesBitmap pathCarpetaBloques md E t =
     fold (truncate_block pathCarpetaBloques md E) [0..<nat (gen_cantidadBloques md)] t"

text \<open>A mapping needs a file and a length; \<open>munmap\<close> is given another address and unmaps nothing.\<close>

definition inicializarBitmapEnCero :: "cstring \<Rightarrow> t_metadata \<Rightarrow> fs_env \<Rightarrow> tree \<Rightarrow> fault + tree" where
  "inicializarBitmapEnCero pathBitmap md E t =
     (case lookup_path t pathBitmap of
        Some (Regular c) \<Rightarrow>
          if gen_cantidadBloques md \<le> 1 then Inl Exit_Failure
          else (case mapped_write (page_bytes E) (nat (gen_cantidadBloques md - 1)) c 0
                       (replicate (nat (gen_cantidadBloques md)) 0) of
                  None \<Rightarrow> Inl Buffer_Overflow
                | Some c' \<Rightarrow> Inr (store_mapped pathBitmap c' t))
      | _ \<Rightarrow> Inl Exit_Failure)"

text \<open>The loop; \<open>Inr\<close> is the return at \<open>exit\<close>.\<close>

fun generator_loop :: "cstring \<Rightarrow> cstring \<Rightarrow> t_metadata \<Rightarrow> fs_env \<Rightarrow> cstring list \<Rightarrow> tree \<Rightarrow> fault + tree" where
  "generator_loop pathBitmap pathCarpetaBloques md E [] t = Inl Buffer_Overflow"
| "generator_loop pathBitmap pathCarpetaBloques md E (l # ls) t =
     (let comando = cstr (butlast l) in
      if comando = str ''bitmap'' then
        and_then (inicializarBitmapEnCero pathBitmap md E t) (generator_loop pathBitmap pathCarpetaBloques md E ls)
      else if comando = str ''bloques'' then
        generator_loop pathBitmap pathCarpetaBloques md E ls (truncarBloquesBitmap pathCarpetaBloques md E t)
      else if comando = str ''exit'' then Inr t
      else generator_loop pathBitmap pathCarpetaBloques md E ls t)"

definition generator_main :: "fs_env \<Rightarrow> cstring list \<Rightarrow> tree \<Rightarrow> fault + tree" where
  "generator_main E input t =
     (case input of
        [] \<Rightarrow> Inl Buffer_Overflow
      | l # ls \<Rightarrow>
          (let puntoMontaje = cstr (butlast l) in
           and_then (concatenarSegundoParametroAlPrimero puntoMontaje (str ''Metadata/Metadata.bin'')) (\<lambda>pathMetadata.
           and_then (concatenarSegundoParametroAlPrimero puntoMontaje (str ''Metadata/Bitmap.bin'')) (\<lambda>pathBitmap.
           and_then (concatenarSegundoParametroAlPrimero puntoMontaje (str ''Bloques/'')) (\<lambda>pathCarpetaBloques.
           and_then (gen_metadata_read pathMetadata E t) (\<lambda>md.
             generator_loop pathBitmap pathCarpetaBloques md E ls t))))))"

subsection \<open>A bitmap with nothing but free blocks\<close>

lemma walk_same_directories:
  "(\<And>q. node_at t q = Some Directory \<longleftrightarrow> node_at t' q = Some Directory) \<Longrightarrow> walk t here cs = walk t' here cs"
  by (induction cs arbitrary: here) auto

lemma lookup_path_regular:
  assumes "lookup_path t path = Some (Regular c)"
  obtains p where "walk t [] (components path) = Some p" "p \<noteq> []" "node_at t p = Some (Regular c)" "\<not> ends_with_slash path"
  using assms by (auto simp: lookup_path_def split: option.splits if_splits)

lemma lookup_store_mapped:
  assumes "lookup_path t path = Some (Regular c)"
  shows "lookup_path (store_mapped path c' t) path = Some (Regular c')"
proof -
  obtain p where p: "walk t [] (components path) = Some p" "p \<noteq> []" "node_at t p = Some (Regular c)" "\<not> ends_with_slash path"
    by (rule lookup_path_regular [OF assms])
  have s: "store_mapped path c' t = AList.update p (Regular c') t" by (simp add: store_mapped_def p(1))
  have "walk (AList.update p (Regular c') t) [] (components path) = walk t [] (components path)"
    by (rule walk_same_directories) (use p(3) in \<open>auto simp: update_conv'\<close>)
  then show ?thesis using p by (simp add: lookup_path_def s update_conv')
qed

lemma mapped_write_zeros:
  assumes "mapped_write pg n c 0 (replicate m 0) = Some c'"
  shows "length c' = length c" "i < length c \<Longrightarrow> i < m \<Longrightarrow> c' ! i = 0"
  using assms by (auto simp: mapped_write_def poke_def nth_append split: if_splits)

text \<open>What the generator wrote, the FileSystem process maps: every block it counts is free.\<close>

lemma generated_bitmap_is_free:
  assumes g: "inicializarBitmapEnCero (punto_montaje d @ str ''Metadata/Bitmap.bin'') md (fsenv d) t = Inr (tree d)"
    and same: "gen_cantidadBloques md = cantidadBloques d"
    and size: "lookup_path t (punto_montaje d @ str ''Metadata/Bitmap.bin'') = Some (Regular c)"
      "nat (cantidadBloques d) \<le> 8 * length c" and pg: "0 < page_bytes (fsenv d)"
  shows "bitmap_ok (initSadica d)" "i < nat (cantidadBloques d div 8) * 8 \<Longrightarrow> \<not> bitmap (initSadica d) ! i"
proof -
  let ?path = "punto_montaje d @ str ''Metadata/Bitmap.bin''" and ?n = "nat (cantidadBloques d)"
  obtain c' where n: "2 \<le> cantidadBloques d" and c': "mapped_write (page_bytes (fsenv d)) (nat (cantidadBloques d - 1)) c 0 (replicate ?n 0) = Some c'"
    and t: "tree d = store_mapped ?path c' t"
    using g by (auto simp: inicializarBitmapEnCero_def size(1) same split: if_splits option.splits)
  have f: "lookup_path (tree d) ?path = Some (Regular c')" unfolding t by (rule lookup_store_mapped [OF size(1)])
  have l: "?n \<le> 8 * length c'" using size(2) mapped_write_zeros(1) [OF c'] by simp
  show "bitmap_ok (initSadica d)" by (rule initSadica_reads(1) [OF f n l pg])
  assume i: "i < nat (cantidadBloques d div 8) * 8"
  then have "i div 8 < length c" "i div 8 < ?n" using size(2) n by linarith+
  then have "c' ! (i div 8) = 0" by (rule mapped_write_zeros(2) [OF c'])
  then show "\<not> bitmap (initSadica d) ! i" using initSadica_reads(2) [OF f n l pg i] by simp
qed

text \<open>The mount point, \<open>bitmap\<close>, \<open>exit\<close>: what is typed to prepare the bitmap.\<close>

definition prepare_bitmap :: "cstring \<Rightarrow> cstring list" where
  "prepare_bitmap mount = [mount @ [10], str ''bitmap'' @ [10], str ''exit'' @ [10]]"

lemma prepare_bitmap_runs:
  assumes "generator_main E (prepare_bitmap mount) t = Inr t'" "0 \<notin> set mount"
    and p: "p = (if last mount = 47 then mount else mount @ str ''/'')"
  obtains md where "gen_metadata_read (p @ str ''Metadata/Metadata.bin'') E t = Inr md"
    "inicializarBitmapEnCero (p @ str ''Metadata/Bitmap.bin'') md E t = Inr t'"
proof -
  have c: "cstr mount = mount" using assms(2) by (induction mount) (auto simp: cstr_def)
  have w: "cstr (str ''bitmap'') = str ''bitmap''" "cstr (str ''exit'') = str ''exit''" by (simp_all add: cstr_def str_def)
  have d: "str ''exit'' \<noteq> str ''bitmap''" "str ''exit'' \<noteq> str ''bloques''" by simp_all
  show thesis
    using assms(1) that
    by (auto simp: generator_main_def prepare_bitmap_def c w Let_def and_then_Inr_iff concatenarSegundoParametroAlPrimero_def
        ends_with_char_def p split: if_splits)
qed

lemma prepared_disk_is_empty:
  assumes g: "generator_main (fsenv d) (prepare_bitmap mount) t = Inr (tree d)" "0 \<notin> set mount"
    and p: "punto_montaje d = (if last mount = 47 then mount else mount @ str ''/'')"
    and md: "gen_metadata_read (punto_montaje d @ str ''Metadata/Metadata.bin'') (fsenv d) t = Inr md"
      "gen_cantidadBloques md = cantidadBloques d"
    and size: "lookup_path t (punto_montaje d @ str ''Metadata/Bitmap.bin'') = Some (Regular c)"
      "nat (cantidadBloques d) \<le> 8 * length c" "0 < page_bytes (fsenv d)"
  shows "bitmap_ok (initSadica d)" "free_blocks (initSadica d) = {0..<int (bitarray_get_max_bit d)}"
proof -
  have i: "inicializarBitmapEnCero (punto_montaje d @ str ''Metadata/Bitmap.bin'') md (fsenv d) t = Inr (tree d)"
    using prepare_bitmap_runs [OF g p] md(1) by (metis sum.inject(2))
  show "bitmap_ok (initSadica d)" by (rule generated_bitmap_is_free(1) [OF i md(2) size])
  have m: "bitarray_get_max_bit (initSadica d) = bitarray_get_max_bit d"
    by (simp add: bitarray_get_max_bit_def initSadica_def Let_def)
  have "\<not> bitmap (initSadica d) ! n" if "n < bitarray_get_max_bit d" for n
    using generated_bitmap_is_free(2) [OF i md(2) size, of n] that by (simp add: bitarray_get_max_bit_def)
  then show "free_blocks (initSadica d) = {0..<int (bitarray_get_max_bit d)}"
    by (auto simp: free_blocks_def m)
qed

end
