(* ===== verification/Kernel_Locks.thy ===== *)
theory Kernel_Locks
  imports Main
begin

text \<open>
  The mutexes of the Kernel's threads. A thread is the sequence of its \<open>pthread_mutex_lock\<close> and
  \<open>pthread_mutex_unlock\<close> calls, as the code makes them on the branches it takes; the threads
  interleave, and a lock waits until the mutex is free (also for its own holder: the mutexes are
  not recursive).

  The two select threads take the mutexes in one order, so they never block each other for ever.
  Two commands of the Kernel's own console do not keep to that order, and deadlock.
\<close>

datatype queue_mutex = CPUs | Sem | New | Blocked | Ready | Finished | Files

datatype action = Lock queue_mutex | Unlock queue_mutex

fun rank :: "queue_mutex \<Rightarrow> nat" where
  "rank CPUs = 0" | "rank Sem = 1" | "rank New = 2" | "rank Blocked = 3" | "rank Ready = 4"
| "rank Finished = 5" | "rank Files = 6"

subsection \<open>The calls of each function\<close>

text \<open>\<open>program_did_finish\<close>, the queue, and one file after the other; \<open>files\<close> were left open.\<close>

definition finish_trace :: "nat \<Rightarrow> action list" where
  "finish_trace files = [Lock Finished, Unlock Finished, Lock Finished, Unlock Finished]
     @ concat (replicate files [Lock Files, Unlock Files])"

text \<open>The processes the long-term planner takes: admitted (\<open>None\<close>), or ended with open files.\<close>

definition admit_trace :: "nat option \<Rightarrow> action list" where
  "admit_trace outcome = (case outcome of None \<Rightarrow> [Lock Ready, Unlock Ready] | Some files \<Rightarrow> finish_trace files)"

definition ltp_trace :: "nat option list \<Rightarrow> action list" where
  "ltp_trace outcomes = [Lock New] @ concat (map admit_trace outcomes) @ [Unlock New]"

definition planificar_trace :: "nat option list \<Rightarrow> action list" where
  "planificar_trace outcomes = ltp_trace outcomes @ [Lock Ready, Unlock Ready]"

definition inactive_trace :: "nat option list list \<Rightarrow> action list" where
  "inactive_trace idle = concat (map planificar_trace idle)"

definition new_program_trace :: "nat option list \<Rightarrow> nat option list list \<Rightarrow> action list" where
  "new_program_trace outcomes idle =
     [Lock New, Unlock New] @ ltp_trace outcomes @ [Lock CPUs] @ inactive_trace idle @ [Unlock CPUs]"

datatype found_in = On_CPU | In_New | In_Blocked | In_Ready | Nowhere

definition interrup_trace :: "found_in \<Rightarrow> nat \<Rightarrow> action list" where
  "interrup_trace place files =
     [Lock CPUs]
     @ (if place = On_CPU then [] else
          [Lock New] @ (if place = In_New then finish_trace files else []) @ [Unlock New]
          @ (if place = In_New then [] else
               [Lock Blocked] @ (if place = In_Blocked then finish_trace files else []) @ [Unlock Blocked]
               @ (if place = In_Blocked then [] else
                    [Lock Ready] @ (if place = In_Ready then finish_trace files else []) @ [Unlock Ready])))
     @ [Unlock CPUs]"

text \<open>What a CPU may ask for, and the mutexes its handler takes.\<close>

datatype cpu_request =
    New_CPU "nat option list"
  | End_Finished nat "nat option list"
  | End_Blocked "nat option list"
  | End_Ready "nat option list"
  | Wait
  | Signal_Wakes "nat option list list"
  | Signal_None
  | File_Call
  | Other

fun handler_trace :: "cpu_request \<Rightarrow> action list" where
  "handler_trace (New_CPU outcomes) = planificar_trace outcomes"
| "handler_trace (End_Finished files outcomes) = finish_trace files @ planificar_trace outcomes"
| "handler_trace (End_Blocked outcomes) = [Lock Blocked, Unlock Blocked] @ planificar_trace outcomes"
| "handler_trace (End_Ready outcomes) = [Lock Ready, Unlock Ready] @ planificar_trace outcomes"
| "handler_trace Wait = [Lock Sem, Unlock Sem]"
| "handler_trace (Signal_Wakes idle) =
     [Lock Sem, Lock Blocked, Unlock Blocked, Lock Ready, Unlock Ready] @ inactive_trace idle @ [Unlock Sem]"
| "handler_trace Signal_None = [Lock Sem, Lock Blocked, Unlock Blocked, Unlock Sem]"
| "handler_trace File_Call = [Lock Files, Unlock Files]"
| "handler_trace Other = []"

text \<open>The handler, then the end of the process of a CPU that broke meanwhile.\<close>

definition cpu_request_trace :: "cpu_request \<Rightarrow> nat option \<Rightarrow> action list" where
  "cpu_request_trace request broken =
     [Lock CPUs] @ handler_trace request
     @ (case broken of None \<Rightarrow> [] | Some files \<Rightarrow> finish_trace files) @ [Unlock CPUs]"

definition console_stop_planning :: "action list" where
  "console_stop_planning = [Lock Blocked, Lock CPUs, Lock New, Lock Ready]"

definition console_start_planning :: "action list" where
  "console_start_planning = [Unlock Blocked, Unlock CPUs, Unlock New, Unlock Ready]"

definition console_finish_process :: "found_in \<Rightarrow> nat \<Rightarrow> action list" where
  "console_finish_process place files =
     [Lock Blocked, Lock CPUs, Lock Ready, Lock New] @ interrup_trace place files
     @ [Unlock Blocked, Unlock CPUs, Unlock Ready, Unlock New]"

subsection \<open>Interleaving\<close>

text \<open>A thread: the mutexes it holds, and the calls it still makes.\<close>

type_synonym thread = "queue_mutex list \<times> action list"

inductive lock_step :: "thread list \<Rightarrow> thread list \<Rightarrow> bool" where
  take_mutex: "i < length ts \<Longrightarrow> ts ! i = (held, Lock m # calls) \<Longrightarrow> \<forall>t \<in> set ts. m \<notin> set (fst t) \<Longrightarrow>
     lock_step ts (ts[i := (m # held, calls)])"
| give_back: "i < length ts \<Longrightarrow> ts ! i = (held, Unlock m # calls) \<Longrightarrow>
     lock_step ts (ts[i := (remove1 m held, calls)])"

definition deadlocked :: "thread list \<Rightarrow> bool" where
  "deadlocked ts \<longleftrightarrow> (\<exists>t \<in> set ts. snd t \<noteq> []) \<and> (\<forall>ts'. \<not> lock_step ts ts')"

definition started :: "action list list \<Rightarrow> thread list" where
  "started = map (\<lambda>calls. ([], calls))"

subsection \<open>Ordered threads do not deadlock\<close>

fun ordered :: "queue_mutex list \<Rightarrow> action list \<Rightarrow> bool" where
  "ordered held [] \<longleftrightarrow> held = []"
| "ordered held (Lock m # calls) \<longleftrightarrow> (\<forall>h \<in> set held. rank h < rank m) \<and> ordered (m # held) calls"
| "ordered held (Unlock m # calls) \<longleftrightarrow> ordered (remove1 m held) calls"

lemma lock_step_ordered:
  assumes "lock_step ts ts'" "\<forall>(held, calls) \<in> set ts. ordered held calls"
  shows "\<forall>(held, calls) \<in> set ts'. ordered held calls"
  using assms(1)
proof cases
  case (take_mutex i held m calls)
  then have "(held, Lock m # calls) \<in> set ts" by (metis nth_mem)
  with assms(2) have "ordered (m # held) calls" by fastforce
  with assms(2) take_mutex(1) show ?thesis by (auto dest!: set_update_subset_insert [THEN subsetD])
next
  case (give_back i held m calls)
  then have "(held, Unlock m # calls) \<in> set ts" by (metis nth_mem)
  with assms(2) have "ordered (remove1 m held) calls" by fastforce
  with assms(2) give_back(1) show ?thesis by (auto dest!: set_update_subset_insert [THEN subsetD])
qed

text \<open>Of the mutexes that are waited for, the holder of the highest can go on.\<close>

lemma ordered_progress:
  assumes ord: "\<forall>(held, calls) \<in> set ts. ordered held calls"
  shows "\<not> deadlocked ts"
proof
  assume d: "deadlocked ts"
  then have stuck: "\<not> lock_step ts ts'" for ts' by (simp add: deadlocked_def)
  have waits: "\<exists>m calls'. calls = Lock m # calls' \<and> (\<exists>t \<in> set ts. m \<in> set (fst t))"
    if mem: "(held, calls) \<in> set ts" "calls \<noteq> []" for held calls
  proof -
    obtain i where i: "i < length ts" "ts ! i = (held, calls)"  using mem by (auto simp: in_set_conv_nth)
    obtain a calls' where c: "calls = a # calls'" using mem by (cases calls) auto
    show ?thesis
    proof (cases a)
      case (Lock m)
      with i c have "\<not> (\<forall>t \<in> set ts. m \<notin> set (fst t))"
        using stuck lock_step.take_mutex [OF i(1), of held m calls'] by blast
      with Lock c show ?thesis by blast
    next
      case (Unlock m)
      with i c have False using stuck lock_step.give_back [OF i(1), of held m calls'] by blast
      then show ?thesis ..
    qed
  qed
  define W where "W = {m. \<exists>held calls. (held, Lock m # calls) \<in> set ts}"
  have "rank m \<le> 6" for m by (cases m) simp_all
  then have fin: "finite (rank ` W)" by (auto intro: finite_subset [of _ "{..6}"])
  obtain h0 c0 where "(h0, c0) \<in> set ts" "c0 \<noteq> []" using d by (auto simp: deadlocked_def)
  moreover from waits [OF this] obtain m0 c1 where "c0 = Lock m0 # c1" by blast
  ultimately have "m0 \<in> W" by (simp only: W_def mem_Collect_eq) blast
  then have "W \<noteq> {}" by blast
  then have "Max (rank ` W) \<in> rank ` W" by (intro Max_in fin) auto
  then obtain m where m: "m \<in> W" "rank m = Max (rank ` W)" by auto
  then obtain held calls where hc: "(held, Lock m # calls) \<in> set ts" by (auto simp: W_def)
  from waits [OF hc] obtain t' where t': "t' \<in> set ts" "m \<in> set (fst t')" by auto
  obtain held' calls' where e: "t' = (held', calls')" by (cases t')
  have o: "ordered held' calls'" using ord t'(1) e by auto
  with t'(2) e have "calls' \<noteq> []" by (cases calls') auto
  with waits [of held' calls'] t'(1) e obtain m' c' where c': "calls' = Lock m' # c'" by auto
  with o t'(2) e have "rank m < rank m'" by auto
  moreover have "m' \<in> W" using t'(1) e c' by (auto simp: W_def)
  then have "rank m' \<le> Max (rank ` W)" by (intro Max_ge fin) auto
  ultimately show False using m(2) by simp
qed

lemma ordered_never_deadlocks:
  assumes "lock_step\<^sup>*\<^sup>* (started traces) ts" "\<forall>calls \<in> set traces. ordered [] calls"
  shows "\<not> deadlocked ts"
proof (rule ordered_progress)
  show "\<forall>(held, calls) \<in> set ts. ordered held calls"
    using assms(1)
  proof (induction rule: rtranclp_induct)
    case base
    with assms(2) show ?case by (auto simp: started_def)
  next
    case (step ts ts')
    then show ?case using lock_step_ordered by blast
  qed
qed


subsection \<open>The select threads are ordered\<close>

text \<open>
  \<open>neutral b calls\<close>: the calls take mutexes from rank \<open>b\<close> on, and give back what they take.
\<close>

definition neutral :: "nat \<Rightarrow> action list \<Rightarrow> bool" where
  "neutral b calls \<longleftrightarrow>
     (\<forall>held later. (\<forall>h \<in> set held. rank h < b) \<longrightarrow> ordered held later \<longrightarrow> ordered held (calls @ later))"

lemma neutral_ordered: "neutral b calls \<Longrightarrow> ordered [] calls"
  unfolding neutral_def by (metis append_Nil2 empty_iff list.set(1) ordered.simps(1))

lemma neutral_nil [simp]: "neutral b []"
  by (simp add: neutral_def)

lemma neutral_append [intro]: "neutral b xs \<Longrightarrow> neutral b ys \<Longrightarrow> neutral b (xs @ ys)"
  by (simp add: neutral_def)

lemma neutral_concat [intro]: "\<forall>xs \<in> set xss. neutral b xs \<Longrightarrow> neutral b (concat xss)"
  by (induction xss) auto

lemma neutral_mono: "neutral b xs \<Longrightarrow> a \<le> b \<Longrightarrow> neutral a xs"
  unfolding neutral_def by (metis order_less_le_trans)

lemma neutral_lock: "neutral (Suc (rank m)) xs \<Longrightarrow> b \<le> rank m \<Longrightarrow> neutral b ([Lock m] @ xs @ [Unlock m])"
proof -
  assume xs: "neutral (Suc (rank m)) xs" and b: "b \<le> rank m"
  have "ordered held (Lock m # xs @ Unlock m # later)"
    if held: "\<forall>h \<in> set held. rank h < b" and later: "ordered held later" for held later
  proof -
    have below: "\<forall>h \<in> set held. rank h < rank m" using held b by auto
    have "ordered (m # held) (Unlock m # later)" using later by simp
    moreover have "\<forall>h \<in> set (m # held). rank h < Suc (rank m)" using below by auto
    ultimately have "ordered (m # held) (xs @ Unlock m # later)" using xs unfolding neutral_def by blast
    with below show ?thesis by simp
  qed
  then show ?thesis by (simp add: neutral_def)
qed

lemma neutral_pair: "b \<le> rank m \<Longrightarrow> neutral b [Lock m, Unlock m]"
  using neutral_lock [of m "[]" b] by simp

lemma finish_neutral: "neutral 5 (finish_trace files)"
  using neutral_append [OF neutral_pair [of 5 Finished]
      neutral_append [OF neutral_pair [of 5 Finished] neutral_concat [of "replicate files [Lock Files, Unlock Files]"]]]
    neutral_pair [of 5 Files]
  by (auto simp: finish_trace_def)

lemma ltp_neutral: "neutral 2 (ltp_trace outcomes)"
proof -
  have "neutral 3 (admit_trace outcome)" for outcome
    by (cases outcome) (auto simp: admit_trace_def intro: neutral_mono [OF finish_neutral] neutral_pair)
  then have "neutral (Suc (rank New)) (concat (map admit_trace outcomes))"
    by (intro neutral_concat) (auto simp: numeral_eq_Suc)
  then show ?thesis using neutral_lock [of New _ 2] by (simp add: ltp_trace_def)
qed

lemma planificar_neutral: "neutral 2 (planificar_trace outcomes)"
  unfolding planificar_trace_def by (intro neutral_append ltp_neutral neutral_pair) simp

lemma inactive_neutral: "neutral 2 (inactive_trace idle)"
  unfolding inactive_trace_def by (intro neutral_concat) (auto intro: planificar_neutral)

lemma handler_neutral: "neutral 1 (handler_trace request)"
proof (cases request)
  case (Signal_Wakes idle)
  have "neutral 2 ([Lock Blocked, Unlock Blocked] @ [Lock Ready, Unlock Ready] @ inactive_trace idle)"
    by (intro neutral_append inactive_neutral neutral_pair) simp_all
  then show ?thesis
    using neutral_lock [of Sem "[Lock Blocked, Unlock Blocked] @ [Lock Ready, Unlock Ready] @ inactive_trace idle" 1]
    by (simp add: Signal_Wakes numeral_2_eq_2)
next
  case Signal_None
  have "neutral 2 [Lock Blocked, Unlock Blocked]" by (rule neutral_pair) simp
  then show ?thesis
    using neutral_lock [of Sem "[Lock Blocked, Unlock Blocked]" 1] by (simp add: Signal_None numeral_2_eq_2)
next
  case (End_Blocked outcomes)
  have "neutral 1 ([Lock Blocked, Unlock Blocked] @ planificar_trace outcomes)"
    by (intro neutral_append neutral_mono [OF planificar_neutral] neutral_pair) simp_all
  then show ?thesis by (simp add: End_Blocked)
next
  case (End_Ready outcomes)
  have "neutral 1 ([Lock Ready, Unlock Ready] @ planificar_trace outcomes)"
    by (intro neutral_append neutral_mono [OF planificar_neutral] neutral_pair) simp_all
  then show ?thesis by (simp add: End_Ready)
qed (auto intro!: neutral_append neutral_mono [OF planificar_neutral] neutral_mono [OF finish_neutral]
    neutral_pair)


lemma interrup_neutral: "neutral 0 (interrup_trace place files)"
proof -
  note fin = neutral_mono [OF finish_neutral]
  define ready where "ready = [Lock Ready] @ (if place = In_Ready then finish_trace files else []) @ [Unlock Ready]"
  define blocked where "blocked = [Lock Blocked] @ (if place = In_Blocked then finish_trace files else []) @ [Unlock Blocked]"
  define new where "new = [Lock New] @ (if place = In_New then finish_trace files else []) @ [Unlock New]"
  have "neutral 1 ready" "neutral 1 blocked" "neutral 1 new"
    using neutral_lock [of Ready "if place = In_Ready then finish_trace files else []" 1]
      neutral_lock [of Blocked "if place = In_Blocked then finish_trace files else []" 1]
      neutral_lock [of New "if place = In_New then finish_trace files else []" 1] fin
    unfolding ready_def blocked_def new_def by auto
  then have "neutral (Suc (rank CPUs)) (if place = On_CPU then [] else new @ (if place = In_New then [] else
      blocked @ (if place = In_Blocked then [] else ready)))"
    by (simp add: neutral_append)
  moreover have "interrup_trace place files = [Lock CPUs] @ (if place = On_CPU then []
      else new @ (if place = In_New then [] else blocked @ (if place = In_Blocked then [] else ready))) @ [Unlock CPUs]"
    by (simp add: interrup_trace_def new_def blocked_def ready_def)
  ultimately show ?thesis using neutral_lock [of CPUs _ 0] by simp
qed

lemma new_program_neutral: "neutral 0 (new_program_trace outcomes idle)"
proof -
  have "neutral 0 ([Lock CPUs] @ inactive_trace idle @ [Unlock CPUs])"
    by (rule neutral_lock) (simp_all add: neutral_mono [OF inactive_neutral])
  then show ?thesis
    unfolding new_program_trace_def
    by (auto simp del: append.simps intro!: neutral_append neutral_pair neutral_mono [OF ltp_neutral])
qed

lemma cpu_request_neutral: "neutral 0 (cpu_request_trace request broken)"
proof -
  have "neutral (Suc (rank CPUs))
      (handler_trace request @ (case broken of None \<Rightarrow> [] | Some files \<Rightarrow> finish_trace files))"
    using handler_neutral neutral_mono [OF finish_neutral] by (intro neutral_append) (auto split: option.split)
  from neutral_lock [OF this, of 0] show ?thesis by (simp add: cpu_request_trace_def)
qed

subsection \<open>The console commands\<close>

text \<open>Stopping the planning takes the blocked queue before the list of CPUs.\<close>

definition halfway :: "nat \<Rightarrow> thread list" where
  "halfway files =
     [([Blocked], [Lock CPUs, Lock New, Lock Ready]), ([CPUs], drop 3 (interrup_trace In_Blocked files))]"

lemma stop_planning_deadlock:
  "lock_step\<^sup>*\<^sup>* (started [console_stop_planning, interrup_trace In_Blocked files]) (halfway files)"
  "deadlocked (halfway files)"
proof -
  obtain c' where t': "interrup_trace In_Blocked files = Lock CPUs # Lock New # Unlock New # Lock Blocked # c'"
    by (simp add: interrup_trace_def)
  define c where "c = Lock Blocked # c'"
  have t: "interrup_trace In_Blocked files = Lock CPUs # Lock New # Unlock New # c"
    by (simp add: t' c_def)
  have half: "halfway files = [([Blocked], [Lock CPUs, Lock New, Lock Ready]), ([CPUs], c)]"
    by (simp add: halfway_def t numeral_3_eq_3)
  let ?stop = "[Lock CPUs, Lock New, Lock Ready]"
  have "lock_step [([], Lock Blocked # ?stop), ([], Lock CPUs # Lock New # Unlock New # c)]
      [([Blocked], ?stop), ([], Lock CPUs # Lock New # Unlock New # c)]"
    using take_mutex [of 0 "[([], Lock Blocked # ?stop), ([], Lock CPUs # Lock New # Unlock New # c)]"] by simp
  moreover have "lock_step [([Blocked], ?stop), ([], Lock CPUs # Lock New # Unlock New # c)]
      [([Blocked], ?stop), ([CPUs], Lock New # Unlock New # c)]"
    using take_mutex [of 1 "[([Blocked], ?stop), ([], Lock CPUs # Lock New # Unlock New # c)]"] by simp
  moreover have "lock_step [([Blocked], ?stop), ([CPUs], Lock New # Unlock New # c)]
      [([Blocked], ?stop), ([New, CPUs], Unlock New # c)]"
    using take_mutex [of 1 "[([Blocked], ?stop), ([CPUs], Lock New # Unlock New # c)]"] by simp
  moreover have "lock_step [([Blocked], ?stop), ([New, CPUs], Unlock New # c)] (halfway files)"
    using give_back [of 1 "[([Blocked], ?stop), ([New, CPUs], Unlock New # c)]"] by (simp add: half)
  ultimately show "lock_step\<^sup>*\<^sup>* (started [console_stop_planning, interrup_trace In_Blocked files]) (halfway files)"
    unfolding started_def list.map t console_stop_planning_def
    by (meson converse_rtranclp_into_rtranclp rtranclp.rtrancl_refl)
  have "\<not> lock_step (halfway files) ts" for ts
    by (auto simp: half c_def less_Suc_eq elim!: lock_step.cases)
  then show "deadlocked (halfway files)" by (simp add: deadlocked_def half)
qed

text \<open>Finishing a process asks for the list of CPUs while it holds it.\<close>

lemma finish_process_deadlock:
  "\<exists>ts. lock_step\<^sup>*\<^sup>* (started [console_finish_process place files]) ts \<and> deadlocked ts"
proof -
  obtain c where c: "console_finish_process place files
      = Lock Blocked # Lock CPUs # Lock Ready # Lock New # Lock CPUs # c"
    by (auto simp: console_finish_process_def interrup_trace_def)
  have "lock_step [([], Lock Blocked # Lock CPUs # Lock Ready # Lock New # Lock CPUs # c)]
      [([Blocked], Lock CPUs # Lock Ready # Lock New # Lock CPUs # c)]"
    using take_mutex [of 0 "[([], Lock Blocked # Lock CPUs # Lock Ready # Lock New # Lock CPUs # c)]"] by simp
  moreover have "lock_step [([Blocked], Lock CPUs # Lock Ready # Lock New # Lock CPUs # c)]
      [([CPUs, Blocked], Lock Ready # Lock New # Lock CPUs # c)]"
    using take_mutex [of 0 "[([Blocked], Lock CPUs # Lock Ready # Lock New # Lock CPUs # c)]"] by simp
  moreover have "lock_step [([CPUs, Blocked], Lock Ready # Lock New # Lock CPUs # c)]
      [([Ready, CPUs, Blocked], Lock New # Lock CPUs # c)]"
    using take_mutex [of 0 "[([CPUs, Blocked], Lock Ready # Lock New # Lock CPUs # c)]"] by simp
  moreover have "lock_step [([Ready, CPUs, Blocked], Lock New # Lock CPUs # c)]
      [([New, Ready, CPUs, Blocked], Lock CPUs # c)]"
    using take_mutex [of 0 "[([Ready, CPUs, Blocked], Lock New # Lock CPUs # c)]"] by simp
  ultimately have "lock_step\<^sup>*\<^sup>* (started [console_finish_process place files])
      [([New, Ready, CPUs, Blocked], Lock CPUs # c)]"
    unfolding started_def list.map c by (meson converse_rtranclp_into_rtranclp rtranclp.rtrancl_refl)
  moreover have "deadlocked [([New, Ready, CPUs, Blocked], Lock CPUs # c)]"
    by (auto simp: deadlocked_def elim!: lock_step.cases)
  ultimately show ?thesis by blast
qed

end
