(* ===== verification/Kernel_Console.thy ===== *)
theory Kernel_Console
  imports Kernel_Start Kernel_Locks
begin

text \<open>
  The console of the Kernel: the commands of \<open>functions/console.c\<close> with what they print, and the loop
  of \<open>main\<close> in \<open>Kernel.c\<close> that reads them.

  The state has what the user types (\<open>k_input\<close>, to its end), what was printed, the mutexes the main
  thread holds, and the buffer \<open>comando\<close>: \<open>None\<close> before the first word is in it, and as large as the
  allocator made it (\<open>comando_size\<close>; the code asks for one byte). The Kernel stays as it is while a
  command waits for the user; \<open>console_finish_process\<close> and the searches are those of \<open>Kernel_Requests\<close>.
\<close>

record kcons =
  kern :: kernel
  k_input :: "byte list"
  k_text :: "byte list"
  comando :: "cstring option"
  comando_size :: nat
  holding :: "queue_mutex set"

definition put_text :: "byte list \<Rightarrow> kcons \<Rightarrow> kcons" where
  "put_text t d = d\<lparr>k_text := k_text d @ t\<rparr>"

definition text_line :: "string \<Rightarrow> byte list" where
  "text_line t = str t @ [10]"

definition quoted :: "byte list \<Rightarrow> byte list" where
  "quoted t = [39] @ t @ [39]"

subsection \<open>\<open>scanf\<close>\<close>

text \<open>
  \<open>%d\<close> skips white space and takes a sign and digits. Without a digit it fails, and only the space
  and the sign are gone; the variable is left as it was.
\<close>

definition scan_int :: "byte list \<Rightarrow> int option \<times> byte list" where
  "scan_int bs =
     (let r = dropWhile is_space bs;
          signed0 = (r \<noteq> [] \<and> (hd r = 43 \<or> hd r = 45));
          body = (if signed0 then tl r else r);
          digits = takeWhile is_digit body
      in if digits = [] then (None, body)
         else (Some (int_of_wide (max (- (2 ^ 63)) (min (2 ^ 63 - 1)
                 (if signed0 \<and> hd r = 45 then - atoi_digits 0 digits else atoi_digits 0 digits)))),
               drop (length digits) body))"

definition scan_d :: "int option \<Rightarrow> kcons \<Rightarrow> int option \<times> kcons" where
  "scan_d old d = (case scan_int (k_input d) of
     (None, bs) \<Rightarrow> (old, d\<lparr>k_input := bs\<rparr>) | (Some v, bs) \<Rightarrow> (Some v, d\<lparr>k_input := bs\<rparr>))"

text \<open>A variable that was never set is read.\<close>

definition the_int :: "int option \<times> kcons \<Rightarrow> fault + int \<times> kcons" where
  "the_int r = (case r of (None, _) \<Rightarrow> Inl Uninitialised | (Some v, d) \<Rightarrow> Inr (v, d))"

text \<open>\<open>%s\<close> writes a word and the end of the string; at the end of the input it leaves the buffer.\<close>

definition scan_word :: "kcons \<Rightarrow> fault + kcons" where
  "scan_word d =
     (let r = dropWhile is_space (k_input d); w = takeWhile (\<lambda>b. \<not> is_space b) r
      in if w = [] then Inr (d\<lparr>k_input := r\<rparr>)
         else if length w + 1 \<le> comando_size d
         then Inr (d\<lparr>k_input := drop (length w) r, comando := Some (cstr w)\<rparr>)
         else Inl Buffer_Overflow)"

subsection \<open>Listings\<close>

definition pid_of_program :: "kernel \<Rightarrow> ptr \<Rightarrow> int" where
  "pid_of_program k p = pid (pcb (programs k p))"

definition proccess_row :: "kernel \<Rightarrow> ptr \<Rightarrow> byte list" where
  "proccess_row k p = [9] @ sprintf_i (pid_of_program k p) @ [10]"

definition finished_row :: "kernel \<Rightarrow> ptr \<Rightarrow> byte list" where
  "finished_row k p = [9] @ sprintf_i (pid_of_program k p) @ str '' - '' @ sprintf_i (exitCode (pcb (programs k p))) @ [10]"

definition executing_row :: "kernel \<Rightarrow> t_cpu \<Rightarrow> byte list" where
  "executing_row k u = (case cpu_program u of None \<Rightarrow> [] | Some p \<Rightarrow> proccess_row k p)"

definition console_process_list :: "kernel \<Rightarrow> byte list" where
  "console_process_list k =
     text_line ''Lista de procesos nuevos'' @ concat (map (proccess_row k) (newQ k))
     @ text_line ''Lista de procesos ejecutando'' @ concat (map (executing_row k) (cpus k))
     @ text_line ''Lista de procesos listos'' @ concat (map (proccess_row k) (readyQ k))
     @ text_line ''Lista de procesos bloqueados'' @ concat (map (proccess_row k) (blockedQ k))
     @ text_line ''Lista de procesos finalizados'' @ concat (map (finished_row k) (finishedQ k))
     @ [10] @ text_line ''-----------------FIN DE LISTAR PROCESOS------------'' @ [10]"

fun global_rows :: "kernel \<Rightarrow> ptr list \<Rightarrow> fault + byte list" where
  "global_rows k [] = Inr []"
| "global_rows k (g # gs) =
     and_then (gfd k g) (\<lambda>G.
     and_then (global_rows k gs) (\<lambda>more_rows.
       Inr (str ''|Path -> '' @ quoted (gfd_path G) @ [10] @ str ''|Open -> '' @ sprintf_i (gfd_open G) @ [10]
            @ text_line ''...........................................'' @ more_rows)))"

definition console_get_global_file_table :: "kernel \<Rightarrow> fault + byte list" where
  "console_get_global_file_table k =
     (if globalFDs k = [] then Inr (text_line ''No hay archivos abiertos'')
      else and_then (global_rows k (globalFDs k)) (\<lambda>rows.
             Inr ([10, 10, 10] @ text_line ''--------TABLA GLOBAL DE ARCHIVOS---------'' @ rows @ [10, 10])))"

subsection \<open>What a process did\<close>

text \<open>\<open>get_program\<close> with the dereference of its answer.\<close>

definition found_program :: "int \<Rightarrow> kernel \<Rightarrow> fault + t_program" where
  "found_program p k = and_then (get_program p k) (\<lambda>r. case r of None \<Rightarrow> Inl Null_Deref | Some q \<Rightarrow> Inr (programs k q))"

definition print_rafagas_del_proceso :: "int \<Rightarrow> kernel \<Rightarrow> fault + byte list" where
  "print_rafagas_del_proceso p k = and_then (found_program p k) (\<lambda>program.
     Inr (str ''El programa con PID ['' @ sprintf_i (pid (pcb program)) @ str ''] ha ejecutado ['' @ sprintf_i (rafagas (stats program))
          @ text_line '' rafagas]''))"

definition print_syscalls :: "int \<Rightarrow> kernel \<Rightarrow> fault + byte list" where
  "print_syscalls p k = and_then (found_program p k) (\<lambda>program.
     Inr (str ''El programa con PID ['' @ sprintf_i (pid (pcb program)) @ str ''] ha ejecutado ['' @ sprintf_i (syscallPrivilegiadas (stats program))
          @ text_line '' syscalls]''))"

definition fd_rows :: "kernel \<Rightarrow> t_fd \<Rightarrow> fault + byte list" where
  "fd_rows k fd = and_then (gfd k (fd_global fd)) (\<lambda>G.
     Inr (str ''FD -> '' @ sprintf_i (fd_value fd) @ [10] @ str ''Flags -> '' @ fd_permissions fd @ [10] @ str ''Path -> '' @ gfd_path G @ [10]))"

fun print_lists :: "kernel \<Rightarrow> t_fd list \<Rightarrow> fault + byte list" where
  "print_lists k [] = Inr []"
| "print_lists k (fd # fds) =
     and_then (fd_rows k fd) (\<lambda>t. and_then (print_lists k fds) (\<lambda>ts.
       Inr (text_line ''............................................'' @ t @ ts)))"

definition print_file_process_table :: "int \<Rightarrow> kernel \<Rightarrow> fault + byte list" where
  "print_file_process_table p k =
     and_then (get_program p k) (\<lambda>r.
       case r of
         None \<Rightarrow> Inr (text_line ''Esto se va al carajo!'')
       | Some q \<Rightarrow>
           (let program = programs k q; l = fileDescriptors program;
                end_line = text_line ''------------------------------------------------'' @ [10]
            in if length l = 0
               then Inr (str ''El programa con PID ['' @ sprintf_i (pid (pcb program)) @ text_line ''] no ha abierto ningun archivo'')
               else if length l = 1
               then and_then (fd_rows k (hd l)) (\<lambda>t. Inr ([10, 10, 10] @ str ''------Tabla de archivos del proceso '' @ sprintf_i p
                      @ text_line ''----------'' @ t @ end_line))
               else and_then (print_lists k l) (\<lambda>t. Inr ([10, 10] @ str ''------Tabla de archivos del proceso '' @ sprintf_i p
                      @ text_line ''----------'' @ t @ end_line))))"

definition print_head_pages_used :: "int \<Rightarrow> kernel \<Rightarrow> fault + byte list" where
  "print_head_pages_used p k = and_then (found_program p k) (\<lambda>program.
     let head_text = str ''Proceso con PID ['' @ sprintf_i (pid (pcb program)) @ str ''] ''; s = stats program in
     Inr (head_text @ str ''aloco '' @ sprintf_i (bytesAlloc s) @ text_line '' bytes del heap''
          @ head_text @ str ''libero '' @ sprintf_i (bytesFree s) @ text_line '' bytes del heap''
          @ head_text @ str ''hizo '' @ sprintf_i (cantCallAlloc s) @ str '' llamadas '' @ quoted (str ''alocar'') @ [10]
          @ head_text @ str ''hizo '' @ sprintf_i (cantCallFree s) @ str '' llamadas '' @ quoted (str ''liberar'') @ [10]))"

subsection \<open>Commands\<close>

text \<open>
  The loop that asks for a PID until there is such a process, or for 0: the value \<open>v\<close> is kept when \<open>scanf\<close>
  fails, and once a failing \<open>scanf\<close> takes nothing off the input the loop never ends. \<open>None\<close> is the return.
\<close>

function ask_pid :: "int \<Rightarrow> kcons \<Rightarrow> fault + int option \<times> kcons" where
  "ask_pid v d =
     and_then (check_pid_is_incorrect v (kern d)) (\<lambda>there.
       if there then Inr (Some v, d)
       else
         (let d1 = put_text (str ''[SISTEMA] - Ingrese el PID del proceso: '')
                (put_text (text_line ''El PID ingresado no existe. Vuelva a intentarlo. Si desea volver al menu de comandos ingrese 0'') d);
              v1 = (case scan_d (Some v) d1 of (Some w, _) \<Rightarrow> w | (None, _) \<Rightarrow> v);
              d2 = snd (scan_d (Some v) d1)
          in if v1 = 0 then Inr (None, d2)
             else if length (k_input d2) < length (k_input d) then ask_pid v1 d2
             else Inl No_Return))"
  by pat_completeness auto
termination by (relation "measure (\<lambda>(v, d). length (k_input d))") auto

declare ask_pid.simps [simp del]

definition show_text :: "(kernel \<Rightarrow> fault + byte list) \<Rightarrow> kcons \<Rightarrow> fault + kcons" where
  "show_text f d = and_then (f (kern d)) (\<lambda>t. Inr (put_text t d))"

definition stats_options :: "byte list" where
  "stats_options =
     text_line ''[SISTEMA] - Ingrese el numero de comando:'' @ text_line ''[SISTEMA] - 1: Cantidad de rafagas.''
     @ text_line ''[SISTEMA] - 2: Operaciones privilegiadas ejecutadas.''
     @ text_line ''[SISTEMA] - 3: Tabla de archivos abiertos por el proceso.''
     @ text_line ''[SISTEMA] - 4: Cantidad de paginas de heap utilizadas.''"

definition console_get_process_stats :: "kcons \<Rightarrow> fault + kcons" where
  "console_get_process_stats d =
     and_then (the_int (scan_d None (put_text (str ''[SISTEMA] - Ingrese el PID del proceso: '') d))) (\<lambda>(v, d1).
     and_then (ask_pid v d1) (\<lambda>(r, d2).
       case r of
         None \<Rightarrow> Inr d2
       | Some pidProceso \<Rightarrow>
           and_then (the_int (scan_d None (put_text (str ''Has ingresado el PID: '' @ sprintf_i pidProceso @ [10] @ stats_options) d2)))
             (\<lambda>(opcion, d3).
               if opcion = 1 then show_text (print_rafagas_del_proceso pidProceso) d3
               else if opcion = 2 then show_text (print_syscalls pidProceso) d3
               else if opcion = 3 then show_text (print_file_process_table pidProceso) d3
               else if opcion = 4 then show_text (print_head_pages_used pidProceso) d3
               else Inr (put_text (text_line ''La operacion elegida no existe.'') d3))))"

definition multiprogram_command :: "kcons \<Rightarrow> fault + kcons" where
  "multiprogram_command d =
     and_then (the_int (scan_d None (put_text ([10, 10] @ str ''El grado de multiprogramacion es: ''
         @ sprintf_i (grado_multiprog (config (kern d))) @ [10, 10] @ text_line ''Ingrese el nuevo valor'') d)))
       (\<lambda>(value, d1).
         Inr (put_text ([10, 10] @ str ''El nuevo valor del grado de multiprogramacion es: '' @ sprintf_i value @ [10, 10])
           (d1\<lparr>kern := console_multiprogram_degree value (kern d1)\<rparr>)))"

text \<open>The mutexes, which are not recursive; the order of the calls is in \<open>Kernel_Locks\<close>.\<close>

definition take_mutex_of :: "queue_mutex \<Rightarrow> kcons \<Rightarrow> fault + kcons" where
  "take_mutex_of m d = (if m \<in> holding d then Inl Deadlock else Inr (d\<lparr>holding := insert m (holding d)\<rparr>))"

definition give_mutex :: "queue_mutex \<Rightarrow> kcons \<Rightarrow> fault + kcons" where
  "give_mutex m d = (if m \<in> holding d then Inr (d\<lparr>holding := holding d - {m}\<rparr>) else Inl Bad_Unlock)"

fun run_actions :: "action list \<Rightarrow> kcons \<Rightarrow> fault + kcons" where
  "run_actions [] d = Inr d"
| "run_actions (Lock m # acts) d = and_then (take_mutex_of m d) (run_actions acts)"
| "run_actions (Unlock m # acts) d = and_then (give_mutex m d) (run_actions acts)"

text \<open>\<open>program_interrup\<close> first takes the mutex of the CPUs, which the command holds.\<close>

definition finish_command :: "kcons \<Rightarrow> fault + kcons" where
  "finish_command d =
     and_then (run_actions [Lock Blocked, Lock CPUs, Lock Ready, Lock New] d) (\<lambda>d1.
     and_then (the_int (scan_d None (put_text (text_line ''Ingrese el PID del proceso que desea finalizar'') d1))) (\<lambda>(p, d2).
     and_then (check_pid_is_running p (kern d2)) (\<lambda>running0.
     and_then (if running0
               then and_then (found_program p (kern d2)) (\<lambda>pr. and_then (take_mutex_of CPUs d2) (\<lambda>d3.
                 and_then (program_interrup (p_socket pr) INTERRUPT_KERNEL_CONSOLE 1 (kern d3)) (\<lambda>k1.
                   give_mutex CPUs (d3\<lparr>kern := k1\<rparr>))))
               else Inr (put_text (text_line ''El programa no pudo ser finalizado'') d2))
       (run_actions [Unlock Blocked, Unlock CPUs, Unlock Ready, Unlock New]))))"

definition stop_command :: "kcons \<Rightarrow> fault + kcons" where
  "stop_command = run_actions console_stop_planning"

definition start_command :: "kcons \<Rightarrow> fault + kcons" where
  "start_command = run_actions console_start_planning"

subsection \<open>The loop of \<open>main\<close>\<close>

definition menu :: "byte list" where
  "menu =
     text_line ''[SISTEMA] - Ingrese el NUMERO de comando:'' @ text_line ''[SISTEMA] - 1: Listado de procesos del sistema.''
     @ text_line ''[SISTEMA] - 2: Obtener estadistica de proceso.'' @ text_line ''[SISTEMA] - 3: Obtener tabla global de archivos.''
     @ text_line ''[SISTEMA] - 4: Modificar grado de multiprogramacion.'' @ text_line ''[SISTEMA] - 5: Finalizar proceso.''
     @ text_line ''[SISTEMA] - 6: Detener planificacion.'' @ text_line ''[SISTEMA] - 7: Iniciar planificacion.''
     @ text_line ''Ejemplo: Para obtener el listado de procesos del sistema debe ingresar 1''"

definition console_commands :: "cstring list" where
  "console_commands = map str [''1'', ''2'', ''3'', ''4'', ''5'', ''6'', ''7'']"

text \<open>Asking again while the word is no command; at the end of the input the loop never ends.\<close>

function read_command :: "kcons \<Rightarrow> fault + cstring \<times> kcons" where
  "read_command d =
     (case comando d of
        None \<Rightarrow> Inl Uninitialised
      | Some c \<Rightarrow>
          if c \<in> set console_commands then Inr (c, d)
          else
            (let d1 = put_text ([10] @ text_line ''***********Comando erroneo. Reintente*********'' @ menu) d in
             case scan_word d1 of
               Inl e \<Rightarrow> Inl e
             | Inr d2 \<Rightarrow> if length (k_input d2) < length (k_input d) then read_command d2 else Inl No_Return))"
  by pat_completeness auto
termination by (relation "measure (\<lambda>d. length (k_input d))") auto

declare read_command.simps [simp del]

definition run_command :: "cstring \<Rightarrow> kcons \<Rightarrow> fault + kcons" where
  "run_command c d =
     (if c = str ''1'' then Inr (put_text (console_process_list (kern d)) d)
      else if c = str ''2'' then console_get_process_stats d
      else if c = str ''3'' then show_text console_get_global_file_table d
      else if c = str ''4'' then multiprogram_command d
      else if c = str ''5'' then finish_command d
      else if c = str ''6'' then stop_command d
      else start_command d)"

definition kernel_turn :: "kcons \<Rightarrow> fault + kcons" where
  "kernel_turn d =
     and_then (scan_word (put_text menu d)) (\<lambda>d1. and_then (read_command d1) (\<lambda>(c, d2). run_command c d2))"

end
