(* ===== verification/Open_Files.thy ===== *)
theory Open_Files
  imports File_Syscalls
begin

text \<open>
  The reference counts of the open files. \<open>table_inv k R\<close>: the global table holds exactly the
  entries with a positive count, each alive, with that count, and with a path of its own.
  \<open>fd_inv k\<close>: the counts are the numbers of descriptors of the processes that point to the entry.

  Every operation of theories \<open>File_Descriptors\<close> and \<open>File_Syscalls\<close> that touches the table is shown
  to succeed in such a state and to leave such a state: no entry is read after it was freed, and
  none stays behind when its last descriptor goes.
\<close>

definition path_of :: "kernel \<Rightarrow> ptr \<Rightarrow> cstring" where
  "path_of k g = (case gfds k g of Some G \<Rightarrow> gfd_path G | None \<Rightarrow> [])"

definition table_inv :: "kernel \<Rightarrow> (ptr \<Rightarrow> nat) \<Rightarrow> bool" where
  "table_inv k R \<longleftrightarrow>
     distinct (globalFDs k) \<and> set (globalFDs k) = {g. 0 < R g}
     \<and> (\<forall>g \<in> set (globalFDs k). g < nextGfd k \<and> (\<exists>G. gfds k g = Some G \<and> gfd_open G = int (R g)))
     \<and> inj_on (path_of k) (set (globalFDs k))"

text \<open>An operation that touches nothing but the table.\<close>

definition table_only :: "kernel \<Rightarrow> kernel \<Rightarrow> bool" where
  "table_only k k' \<longleftrightarrow>
     k'\<lparr>gfds := Map.empty, globalFDs := [], nextGfd := 0\<rparr> = k\<lparr>gfds := Map.empty, globalFDs := [], nextGfd := 0\<rparr>"

lemma table_only_refl [simp]: "table_only k k"
  by (simp add: table_only_def)

lemma table_only_trans: "table_only a b \<Longrightarrow> table_only b c \<Longrightarrow> table_only a c"
  by (simp add: table_only_def)

lemma table_only_simps:
  assumes "table_only k k'"
  shows "programs k' = programs k" "newQ k' = newQ k" "readyQ k' = readyQ k" "blockedQ k' = blockedQ k"
    "finishedQ k' = finishedQ k" "cpus k' = cpus k" "nextProgram k' = nextProgram k"
    "config k' = config k" "memory k' = memory k" "socks k' = socks k" "env k' = env k"
  using assms by (cases k; cases k'; simp add: table_only_def)+

lemma table_only_upd_gfd [simp]: "table_only k (upd_gfd g f k)"
  by (simp add: table_only_def upd_gfd_def)

lemma upd_gfd_simps [simp]:
  "globalFDs (upd_gfd g f k) = globalFDs k" "nextGfd (upd_gfd g f k) = nextGfd k"
  "programs (upd_gfd g f k) = programs k" "nextProgram (upd_gfd g f k) = nextProgram k"
  "gfds (upd_gfd g f k) h = (if h = g then map_option f (gfds k g) else gfds k h)"
  by (simp_all add: upd_gfd_def)

lemma table_inv_entry:
  assumes "table_inv k R" "0 < R g"
  obtains G where "gfds k g = Some G" "gfd_open G = int (R g)" "g \<in> set (globalFDs k)" "g < nextGfd k"
  using assms unfolding table_inv_def by blast

lemma table_alive: "table_inv k R \<Longrightarrow> g \<in> set (globalFDs k) \<Longrightarrow> gfds k g \<noteq> None"
  unfolding table_inv_def by fastforce

lemma find_gfd_alive:
  assumes "\<forall>g \<in> set gs. heap g \<noteq> None"
  shows "find_gfd P heap gs = Inr (list_find (\<lambda>g. P (the (heap g))) gs)"
  using assms by (induction gs) auto

lemma table_find:
  assumes "table_inv k R"
  shows "find_gfd P (gfds k) (globalFDs k) = Inr (list_find (\<lambda>g. P (the (gfds k g))) (globalFDs k))"
  by (rule find_gfd_alive) (use table_alive [OF assms] in blast)

lemma find_unique:
  assumes "g \<in> set gs" "P g" "\<forall>h \<in> set gs. P h \<longrightarrow> h = g"
  shows "list_find P gs = Some g"
proof (cases "list_find P gs")
  case None
  with assms(1,2) show ?thesis by (auto simp: find_None_iff)
next
  case (Some x)
  with assms(3) show ?thesis using find_in_set [of P gs x] by blast
qed

lemma find_none: "\<forall>h \<in> set gs. \<not> P h \<Longrightarrow> list_find P gs = None"
  by (induction gs) auto

subsection \<open>Operations on the table\<close>

text \<open>One reference less and the entry stays, or it was the last one and the entry goes.\<close>

lemma table_decrement:
  assumes inv: "table_inv k R" and g: "0 < R g"
    and k1: "k1 = upd_gfd g (\<lambda>G. G\<lparr>gfd_open := gfd_open G - 1\<rparr>) k"
  shows "1 < R g \<Longrightarrow> table_inv k1 (R(g := R g - 1))"
    "R g = 1 \<Longrightarrow> table_inv (k1\<lparr>globalFDs := remove1 g (globalFDs k1), gfds := (gfds k1)(g := None)\<rparr>)
       (R(g := R g - 1))"
proof -
  obtain G where G: "gfds k g = Some G" "gfd_open G = int (R g)" using table_inv_entry [OF inv g] .
  have path: "path_of k1 h = path_of k h" for h by (simp add: k1 path_of_def G(1))
  show "table_inv k1 (R(g := R g - 1))" if "1 < R g"
  proof -
    have "path_of k1 = path_of k" by (rule ext) (rule path)
    with inv that G show ?thesis unfolding table_inv_def by (auto simp: k1)
  qed
  show "table_inv (k1\<lparr>globalFDs := remove1 g (globalFDs k1), gfds := (gfds k1)(g := None)\<rparr>) (R(g := R g - 1))"
    if one: "R g = 1"
  proof -
    have "inj_on (path_of k) (set (globalFDs k) - {g})"
      using inv by (auto simp: table_inv_def intro: inj_on_diff)
    moreover have "path_of (k1\<lparr>globalFDs := remove1 g (globalFDs k1), gfds := (gfds k1)(g := None)\<rparr>) h
        = path_of k h" if "h \<noteq> g" for h using that by (simp add: path_of_def k1)
    ultimately have "inj_on (path_of (k1\<lparr>globalFDs := remove1 g (globalFDs k1),
        gfds := (gfds k1)(g := None)\<rparr>)) (set (globalFDs k) - {g})"
      by (simp add: inj_on_def)
    with inv one show ?thesis unfolding table_inv_def by (auto simp: k1 set_remove1_eq)
  qed
qed

lemma table_only_free:
  "table_only k k1 \<Longrightarrow> table_only k (k1\<lparr>globalFDs := gs, gfds := h\<rparr>)"
  by (cases k; cases k1; simp add: table_only_def)

lemma deleteFile_spec:
  assumes inv: "table_inv k R" and g: "0 < R (fd_global f)"
  obtains k' where "deleteFileFromProcessFileTable f k = Inr k'" "table_only k k'"
    "table_inv k' (R(fd_global f := R (fd_global f) - 1))"
proof -
  let ?g = "fd_global f"
  obtain G where G: "gfds k ?g = Some G" "gfd_open G = int (R ?g)" "?g \<in> set (globalFDs k)"
    using table_inv_entry [OF inv g] .
  define k1 where "k1 = upd_gfd ?g (\<lambda>G. G\<lparr>gfd_open := gfd_open G - 1\<rparr>) k"
  have same: "globalFDs k1 = globalFDs k" by (simp add: k1_def)
  have alive: "\<forall>h \<in> set (globalFDs k1). gfds k1 h \<noteq> None"
    using table_alive [OF inv] by (simp add: k1_def)
  have zero: "fileIsNotOpenAnyMore (the (gfds k1 h)) \<longleftrightarrow> h = ?g \<and> R ?g = 1" if "h \<in> set (globalFDs k)" for h
  proof -
    have "0 < R h" using inv that by (auto simp: table_inv_def)
    with table_inv_entry [OF inv this] obtain H
      where "gfds k h = Some H" "gfd_open H = int (R h)" "0 < R h" by blast
    then show ?thesis using g G by (auto simp: k1_def fileIsNotOpenAnyMore_def)
  qed
  have eq: "deleteFileFromProcessFileTable f k = remove_gfd fileIsNotOpenAnyMore k1"
    by (simp add: deleteFileFromProcessFileTable_def gfd_def G(1) k1_def)
  show thesis
  proof (cases "R ?g = 1")
    case True
    have "list_find (\<lambda>h. fileIsNotOpenAnyMore (the (gfds k1 h))) (globalFDs k1) = Some ?g"
      by (rule find_unique) (simp_all add: same zero True G(3))
    then have "deleteFileFromProcessFileTable f k
        = Inr (k1\<lparr>globalFDs := remove1 ?g (globalFDs k1), gfds := (gfds k1)(?g := None)\<rparr>)"
      by (simp add: eq remove_gfd_def find_gfd_alive [OF alive])
    then show thesis
      using table_decrement(2) [OF inv g k1_def True] that table_only_free [of k k1] by (simp add: k1_def)
  next
    case False
    have "list_find (\<lambda>h. fileIsNotOpenAnyMore (the (gfds k1 h))) (globalFDs k1) = None"
      by (rule find_none) (use False in \<open>simp add: same zero\<close>)
    then have "deleteFileFromProcessFileTable f k = Inr k1"
      by (simp add: eq remove_gfd_def find_gfd_alive [OF alive])
    then show thesis
      using table_decrement(1) [OF inv g k1_def] False g that by (simp add: k1_def)
  qed
qed

definition uses :: "t_fd list \<Rightarrow> ptr \<Rightarrow> nat" where
  "uses fds g = count_list (map fd_global fds) g"

lemma uses_simps [simp]:
  "uses [] g = 0" "uses (f # fs) g = (if fd_global f = g then 1 else 0) + uses fs g"
  "uses (fs @ fs') g = uses fs g + uses fs' g"
  by (simp_all add: uses_def)

lemma uses_pos: "f \<in> set fs \<Longrightarrow> 0 < uses fs (fd_global f)"
  by (induction fs) auto

lemma destroy_fds_spec:
  assumes "table_inv k R" "\<forall>g. uses fs g \<le> R g"
  obtains k' where "destroy_fds fs k = Inr k'" "table_only k k'" "table_inv k' (\<lambda>g. R g - uses fs g)"
  using assms
proof (induction fs arbitrary: k R thesis)
  case (Cons f fs)
  have "uses (f # fs) (fd_global f) \<le> R (fd_global f)" using Cons.prems(3) by blast
  then have g: "0 < R (fd_global f)" by simp
  from deleteFile_spec [OF Cons.prems(2) g]
  obtain k1 where k1: "deleteFileFromProcessFileTable f k = Inr k1" "table_only k k1"
    "table_inv k1 (R(fd_global f := R (fd_global f) - 1))" .
  have le: "\<forall>g. uses fs g \<le> (R(fd_global f := R (fd_global f) - 1)) g"
  proof
    fix g show "uses fs g \<le> (R(fd_global f := R (fd_global f) - 1)) g"
      using Cons.prems(3) [rule_format, of g] by auto
  qed
  obtain k2 where k2: "destroy_fds fs k1 = Inr k2" "table_only k1 k2"
    "table_inv k2 (\<lambda>g. (R(fd_global f := R (fd_global f) - 1)) g - uses fs g)"
    using Cons.IH [OF _ k1(3) le] by blast
  have "(\<lambda>g. (R(fd_global f := R (fd_global f) - 1)) g - uses fs g) = (\<lambda>g. R g - uses (f # fs) g)"
    by (auto simp: fun_eq_iff)
  with k1 k2 show thesis
    using Cons.prems(1) [of k2] table_only_trans by auto
qed simp

lemma release_gfd_spec:
  assumes inv: "table_inv k R" and g: "0 < R g"
  obtains k' where "release_gfd g k = Inr k'" "table_only k k'" "table_inv k' (R(g := R g - 1))"
proof -
  obtain G where G: "gfds k g = Some G" "gfd_open G = int (R g)" "g \<in> set (globalFDs k)"
    using table_inv_entry [OF inv g] .
  define k1 where "k1 = upd_gfd g (\<lambda>G. G\<lparr>gfd_open := gfd_open G - 1\<rparr>) k"
  show thesis
  proof (cases "R g = 1")
    case True
    have same: "globalFDs k1 = globalFDs k" by (simp add: k1_def)
    have alive: "\<forall>h \<in> set (globalFDs k1). gfds k1 h \<noteq> None"
      using table_alive [OF inv] by (simp add: k1_def)
    have unique: "h = g" if "h \<in> set (globalFDs k1)" "gfd_path (the (gfds k1 h)) = gfd_path G" for h
    proof -
      have "inj_on (path_of k) (set (globalFDs k))" "gfds k h \<noteq> None"
        using inv that(1) table_alive [OF inv] unfolding table_inv_def same by blast+
      moreover have "path_of k h = path_of k g"
        using that(2) \<open>gfds k h \<noteq> None\<close> G(1) by (auto simp: path_of_def k1_def split: if_splits)
      ultimately show ?thesis using that(1) G(3) by (auto simp: k1_def dest: inj_onD)
    qed
    have "list_find (\<lambda>h. gfd_path (the (gfds k1 h)) = gfd_path G) (globalFDs k1) = Some g"
      by (rule find_unique) (use unique in \<open>auto simp: same G\<close>, simp add: k1_def G)
    then have "remove_gfd (\<lambda>H. gfd_path H = gfd_path G) k1
        = Inr (k1\<lparr>globalFDs := remove1 g (globalFDs k1), gfds := (gfds k1)(g := None)\<rparr>)"
      by (simp add: remove_gfd_def find_gfd_alive [OF alive])
    moreover have "gfd k1 g = Inr (G\<lparr>gfd_open := 0\<rparr>)" using G True by (simp add: gfd_def k1_def)
    ultimately have "release_gfd g k
        = Inr (k1\<lparr>globalFDs := remove1 g (globalFDs k1), gfds := (gfds k1)(g := None)\<rparr>)"
      by (simp add: release_gfd_def k1_def [symmetric])
    then show thesis
      using table_decrement(2) [OF inv g k1_def True] that table_only_free [of k k1] by (simp add: k1_def)
  next
    case False
    then have "release_gfd g k = Inr k1" using G g by (simp add: release_gfd_def gfd_def k1_def Let_def)
    then show thesis
      using table_decrement(1) [OF inv g k1_def] False g that by (simp add: k1_def)
  qed
qed


text \<open>Opening a path: one reference more on its entry, or a new entry with one.\<close>

lemma table_increment:
  assumes inv: "table_inv k R" and g: "0 < R g"
  shows "table_inv (upd_gfd g (\<lambda>G. G\<lparr>gfd_open := gfd_open G + 1\<rparr>) k) (R(g := R g + 1))"
proof -
  obtain G where G: "gfds k g = Some G" "gfd_open G = int (R g)" using table_inv_entry [OF inv g] .
  have "path_of (upd_gfd g (\<lambda>G. G\<lparr>gfd_open := gfd_open G + 1\<rparr>) k) = path_of k"
    using G(1) by (auto simp: path_of_def fun_eq_iff)
  with inv G g show ?thesis unfolding table_inv_def by auto
qed

lemma table_create:
  assumes inv: "table_inv k R" and new: "\<forall>g \<in> set (globalFDs k). path_of k g \<noteq> path"
    and c: "file_descriptor_global_create path k = (g, k1)"
  shows "table_inv (upd_gfd g (\<lambda>G. G\<lparr>gfd_open := gfd_open G + 1\<rparr>) k1) (R(g := 1))"
    "table_only k k1" "R g = 0"
proof -
  let ?k = "upd_gfd g (\<lambda>G. G\<lparr>gfd_open := gfd_open G + 1\<rparr>) k1"
  have c': "g = nextGfd k" "k1 = k\<lparr>nextGfd := nextGfd k + 1, globalFDs := globalFDs k @ [nextGfd k],
      gfds := (gfds k)(nextGfd k \<mapsto> \<lparr>gfd_path = path, gfd_open = 0\<rparr>)\<rparr>"
    using c by (auto simp: file_descriptor_global_create_def)
  have fresh: "g \<notin> set (globalFDs k)" using inv by (auto simp: c' table_inv_def)
  with inv show z: "R g = 0" by (auto simp: table_inv_def)
  show "table_only k k1" by (simp add: c' table_only_def)
  have path: "path_of ?k h = (if h = g then path else path_of k h)" for h
    by (simp add: path_of_def c')
  have all: "set (globalFDs ?k) = insert g (set (globalFDs k))" by (simp add: c')
  have "inj_on (path_of k) (set (globalFDs k))" using inv unfolding table_inv_def by blast
  with new fresh have "inj_on (path_of ?k) (set (globalFDs ?k))"
    unfolding all by (simp add: inj_on_def path) metis
  moreover have "set (globalFDs ?k) = {h. 0 < (R(g := 1)) h}" "distinct (globalFDs ?k)"
    using inv fresh by (auto simp: table_inv_def c')
  moreover have "\<forall>h \<in> set (globalFDs ?k). h < nextGfd ?k
      \<and> (\<exists>G. gfds ?k h = Some G \<and> gfd_open G = int ((R(g := 1)) h))"
  proof
    fix h assume h: "h \<in> set (globalFDs ?k)"
    show "h < nextGfd ?k \<and> (\<exists>G. gfds ?k h = Some G \<and> gfd_open G = int ((R(g := 1)) h))"
    proof (cases "h = g")
      case False
      with h have "0 < R h" using inv by (simp add: c' table_inv_def)
      from table_inv_entry [OF inv this] False show ?thesis by (simp add: c') (metis less_SucI)
    qed (simp add: c')
  qed
  ultimately show "table_inv ?k (R(g := 1))" unfolding table_inv_def by blast
qed

text \<open>Deleting the file of an entry with one reference.\<close>

lemma table_delete:
  assumes inv: "table_inv k R" and g: "R g = 1" "gfds k g = Some G"
  obtains k1 where "unlist_path (gfd_path G) k = Inr k1" "table_only k k1"
    "table_inv (k1\<lparr>gfds := (gfds k1)(g := None)\<rparr>) (R(g := 0))"
proof -
  have in_table: "g \<in> set (globalFDs k)" using inv g by (auto simp: table_inv_def)
  have "h = g" if h: "h \<in> set (globalFDs k)" "gfd_path (the (gfds k h)) = gfd_path G" for h
  proof -
    obtain H where "gfds k h = Some H" using table_alive [OF inv h(1)] by auto
    with h(2) g(2) have "path_of k h = path_of k g" by (simp add: path_of_def)
    then show ?thesis using inv in_table h(1) unfolding table_inv_def inj_on_def by blast
  qed
  then have "list_find (\<lambda>h. gfd_path (the (gfds k h)) = gfd_path G) (globalFDs k) = Some g"
    by (intro find_unique in_table ballI impI) (simp_all add: g)
  then have u: "unlist_path (gfd_path G) k = Inr (k\<lparr>globalFDs := remove1 g (globalFDs k)\<rparr>)"
    by (simp add: unlist_path_def table_find [OF inv])
  have "inj_on (path_of (k\<lparr>globalFDs := remove1 g (globalFDs k), gfds := (gfds k)(g := None)\<rparr>))
      (set (globalFDs k) - {g})"
    using inv by (auto simp: table_inv_def inj_on_def path_of_def)
  with inv have "table_inv (k\<lparr>globalFDs := remove1 g (globalFDs k), gfds := (gfds k)(g := None)\<rparr>) (R(g := 0))"
    unfolding table_inv_def by (auto simp: set_remove1_eq)
  with u show thesis using that by (simp add: table_only_def)
qed

subsection \<open>The descriptors of the processes\<close>

definition refs :: "kernel \<Rightarrow> ptr \<Rightarrow> nat" where
  "refs k g = (\<Sum>p<nextProgram k. uses (fileDescriptors (programs k p)) g)"

definition fds_ok :: "t_program \<Rightarrow> bool" where
  "fds_ok program \<longleftrightarrow> distinct (map fd_value (fileDescriptors program))
     \<and> (\<forall>v \<in> set (map fd_value (fileDescriptors program)). v < incrementalFD program)"

definition fd_inv :: "kernel \<Rightarrow> bool" where
  "fd_inv k \<longleftrightarrow> table_inv k (refs k) \<and> (\<forall>p < nextProgram k. fds_ok (programs k p))"

lemma uses_le_refs: "p < nextProgram k \<Longrightarrow> uses (fileDescriptors (programs k p)) g \<le> refs k g"
  unfolding refs_def by (rule member_le_sum [where f = "\<lambda>p. uses (fileDescriptors (programs k p)) g"]) auto

lemma refs_upd:
  assumes "p < nextProgram k"
  shows "refs (upd p f k) g + uses (fileDescriptors (programs k p)) g
    = refs k g + uses (fileDescriptors (f (programs k p))) g"
proof -
  let ?u = "\<lambda>k p. uses (fileDescriptors (programs k p)) g"
  have split: "(\<Sum>q<nextProgram k. ?u k' q) = ?u k' p + (\<Sum>q\<in>{..<nextProgram k} - {p}. ?u k' q)" for k'
    by (rule sum.remove) (use assms in auto)
  have "(\<Sum>q\<in>{..<nextProgram k} - {p}. ?u (upd p f k) q) = (\<Sum>q\<in>{..<nextProgram k} - {p}. ?u k q)"
    by (rule sum.cong) auto
  then show ?thesis using split [of k] split [of "upd p f k"] by (simp add: refs_def)
qed

lemma refs_table_only: "table_only k k' \<Longrightarrow> refs k' = refs k"
  by (simp add: refs_def fun_eq_iff table_only_simps)

lemma table_inv_upd [simp]: "table_inv (upd p f k) R = table_inv k R"
  by (simp add: table_inv_def path_of_def [abs_def])

lemma table_inv_same:
  "globalFDs k' = globalFDs k \<Longrightarrow> gfds k' = gfds k \<Longrightarrow> nextGfd k' = nextGfd k \<Longrightarrow>
     table_inv k' R = table_inv k R"
  by (simp add: table_inv_def path_of_def [abs_def])

text \<open>The other parts of a process do not matter.\<close>

lemma fd_inv_cong:
  assumes "fd_inv k" "globalFDs k' = globalFDs k" "gfds k' = gfds k" "nextGfd k' = nextGfd k"
    "nextProgram k' = nextProgram k"
    "\<forall>p. map fd_value (fileDescriptors (programs k' p)) = map fd_value (fileDescriptors (programs k p))
       \<and> map fd_global (fileDescriptors (programs k' p)) = map fd_global (fileDescriptors (programs k p))
       \<and> incrementalFD (programs k' p) = incrementalFD (programs k p)"
  shows "fd_inv k'"
proof -
  have r: "refs k' = refs k" using assms(5,6) by (simp add: refs_def uses_def fun_eq_iff)
  have "path_of k' = path_of k" using assms(3) by (simp add: path_of_def fun_eq_iff)
  with assms(1-4) have "table_inv k' (refs k')" unfolding r fd_inv_def table_inv_def by metis
  moreover have "fds_ok (programs k' p) = fds_ok (programs k p)" for p
    using assms(6) by (simp add: fds_ok_def del: set_map)
  ultimately show ?thesis using assms(1,5) by (simp add: fd_inv_def)
qed

end
