(* ===== verification/Process_Places.thy ===== *)
theory Process_Places
  imports Kernel_Requests Open_Files "HOL-Library.Multiset"
begin

text \<open>
  Where the processes are. \<open>accounted D M X k\<close>: the processes of the multiset \<open>M\<close> are each in
  exactly one place, a queue, a CPU, or the hands of the running operation (\<open>D\<close>); the open files
  are counted (\<open>fd_inv\<close>); and only the CPUs of \<open>X\<close> are marked as disconnected. An operation that
  is given processes and puts them away keeps \<open>M\<close>.

  Most handlers touch none of this: what they leave alone is the \<open>view\<close> of the state.
\<close>

subsection \<open>Places\<close>

definition running :: "kernel \<Rightarrow> ptr list" where
  "running k = List.map_filter (\<lambda>x. x) (map cpu_program (cpus k))"

definition places :: "kernel \<Rightarrow> ptr list" where
  "places k = newQ k @ readyQ k @ blockedQ k @ running k @ finishedQ k"

definition accounted :: "ptr list \<Rightarrow> ptr multiset \<Rightarrow> nat set \<Rightarrow> kernel \<Rightarrow> bool" where
  "accounted D M X k \<longleftrightarrow>
     fd_inv k \<and> distinct (D @ places k) \<and> mset (D @ places k) = M \<and> (\<forall>p \<in># M. p < nextProgram k)
     \<and> (\<forall>i < length (cpus k). cpu_disconnected (cpus k ! i) = 1 \<longrightarrow> i \<in> X)"

subsection \<open>The view of the state the invariant depends on\<close>

definition fd_shape :: "t_program \<Rightarrow> int list \<times> ptr list \<times> int" where
  "fd_shape program = (map fd_value (fileDescriptors program), map fd_global (fileDescriptors program),
     incrementalFD program)"

definition queues :: "kernel \<Rightarrow> ptr list \<times> ptr list \<times> ptr list \<times> ptr list" where
  "queues k = (newQ k, readyQ k, blockedQ k, finishedQ k)"

definition marks :: "nat \<Rightarrow> kernel \<Rightarrow> int list" where
  "marks c k = (map cpu_disconnected (cpus k))[c := 0]"

definition view where
  "view c k = (queues k, map cpu_program (cpus k), marks c k, nextProgram k,
     (nextGfd k, gfds k, globalFDs k), fd_shape \<circ> programs k)"

lemma accounted_view:
  assumes v: "view c k' = view c k" and a: "accounted D M X k" and c: "c \<in> X \<or> length (cpus k) \<le> c"
  shows "accounted D M X k'"
proof -
  have q: "places k' = places k" using v by (simp add: view_def places_def running_def queues_def)
  have shape: "fd_shape (programs k' p) = fd_shape (programs k p)" for p
    using v by (simp add: view_def fun_eq_iff)
  have "fd_inv k'"
    by (rule fd_inv_cong [of k]) (use a v shape in \<open>auto simp: accounted_def view_def fd_shape_def\<close>)
  moreover have "length (cpus k') = length (cpus k)"
    using v by (auto simp: view_def dest: map_eq_imp_length_eq)
  moreover have "cpu_disconnected (cpus k' ! i) = cpu_disconnected (cpus k ! i)"
    if "i < length (cpus k)" "i \<noteq> c" for i
  proof -
    have "marks c k' ! i = marks c k ! i" using v by (simp add: view_def)
    with that \<open>length (cpus k') = length (cpus k)\<close> show ?thesis by (simp add: marks_def)
  qed
  moreover have "nextProgram k' = nextProgram k" using v by (simp add: view_def)
  ultimately show ?thesis using a c unfolding accounted_def q by (metis leD)
qed

named_theorems quiet \<open>operations that leave the view alone\<close>

lemma view_sock [quiet]:
  "sock_send_int fd v k = (n, k') \<Longrightarrow> view c k' = view c k"
  "sock_send_string fd t k = (n, k') \<Longrightarrow> view c k' = view c k"
  "sock_send fd b k = (n, k') \<Longrightarrow> view c k' = view c k"
  "sock_recv_int fd k = (i, k') \<Longrightarrow> view c k' = view c k"
  "sock_recv fd k = (r, k') \<Longrightarrow> view c k' = view c k"
  "sock_recv_string fd k = (s, k') \<Longrightarrow> view c k' = view c k"
  "fs_call f k = (m, k') \<Longrightarrow> view c k' = view c k"
  by (auto simp: view_def queues_def marks_def sock_send_int_def sock_send_string_def sock_send_def
      sock_recv_int_def sock_recv_def sock_recv_string_def fs_call_def split: prod.splits)

lemma view_disconnect [simp]: "view c (disconnect c k) = view c k"
proof -
  let ?u = "(cpus k ! c)\<lparr>cpu_disconnected := 1\<rparr>"
  have "(map cpu_program (cpus k))[c := cpu_program (cpus k ! c)] = map cpu_program (cpus k)"
    by (cases "c < length (cpus k)") (simp_all add: map_update [symmetric] del: map_update)
  then have "map cpu_program ((cpus k)[c := ?u]) = map cpu_program (cpus k)" by (simp add: map_update)
  then show ?thesis by (simp add: view_def queues_def marks_def disconnect_def set_cpu_def map_update)
qed

lemma view_reply [quiet]:
  "reply_int c v k = (b, k') \<Longrightarrow> view c k' = view c k"
  "reply_string c t k = (b, k') \<Longrightarrow> view c k' = view c k"
  by (auto simp: reply_int_def reply_string_def split: prod.splits if_splits dest: quiet)

lemma view_replied [simp]:
  "view c (snd (reply_int c v k)) = view c k" "view c (snd (reply_string c t k)) = view c k"
  using view_reply [OF surjective_pairing] by blast+

lemma view_upd [simp]: "(\<And>q. fd_shape (f q) = fd_shape q) \<Longrightarrow> view c (upd p f k) = view c k"
  by (auto simp: view_def queues_def marks_def upd_def fun_eq_iff)

lemma view_fields [simp]:
  "view c (k\<lparr>memory := m\<rparr>) = view c k" "view c (k\<lparr>fsSock := s\<rparr>) = view c k"
  "view c (k\<lparr>config := cfg\<rparr>) = view c k" "view c (k\<lparr>closed := cl\<rparr>) = view c k"
  "view c (k\<lparr>programMaster := pm\<rparr>) = view c k" "view c (k\<lparr>socks := sk\<rparr>) = view c k"
  "view c (k\<lparr>programID := n\<rparr>) = view c k"
  by (simp_all add: view_def queues_def marks_def)

lemma view_config [simp]: "view c (upd_var name g k) = view c k" "view c (upd_sem name v k) = view c k"
  by (simp_all add: upd_var_def upd_sem_def)

lemma upd_first_shape [simp]:
  assumes "\<And>fd. fd_value (g fd) = fd_value fd" "\<And>fd. fd_global (g fd) = fd_global fd"
  shows "map fd_value (upd_first P g fds) = map fd_value fds"
    "map fd_global (upd_first P g fds) = map fd_global fds"
  using assms by (induction fds) auto

lemma fd_shape_simps [simp]:
  "fd_shape (count_syscall q) = fd_shape q" "fd_shape (set_quantum n q) = fd_shape q"
  "fd_shape (count_burst b q) = fd_shape q" "fd_shape (wait_on name q) = fd_shape q"
  "fd_shape (wake q) = fd_shape q" "fd_shape (count_alloc n q) = fd_shape q"
  "fd_shape (count_liberar q) = fd_shape q" "fd_shape (set_exitCode e q) = fd_shape q"
  "fd_shape (move_fd v n q) = fd_shape q" "fd_shape (q\<lparr>interruptionCode := e\<rparr>) = fd_shape q"
  "fd_shape (q\<lparr>pcb := b\<rparr>) = fd_shape q" "fd_shape (q\<lparr>quantum := n\<rparr>) = fd_shape q"
  "fd_shape (q\<lparr>heapPages := h\<rparr>) = fd_shape q" "fd_shape (q\<lparr>stats := t\<rparr>) = fd_shape q"
  by (simp_all add: fd_shape_def count_syscall_def set_quantum_def count_burst_def wait_on_def wake_def
      count_alloc_def count_liberar_def set_exitCode_def move_fd_def)

lemma view_interrupt [simp]: "view c (interrupt p code k) = view c k"
  by (simp add: interrupt_def)


subsection \<open>The heap does not touch the files\<close>

lemma fd_shape_heapPage [simp]: "fd_shape (upd_heapPage page f p) = fd_shape p"
  by (simp add: upd_heapPage_def)

lemma heap_defrag_shape [quiet]: "heap_defrag p page r = Inr (p', r') \<Longrightarrow> fd_shape p' = fd_shape p"
  by (auto simp: heap_defrag_def Let_def elim!: and_thenE split: option.split_asm if_split_asm prod.split_asm)

lemma heap_alloc_shape [quiet]: "heap_alloc p sz page off r = Inr (p', r') \<Longrightarrow> fd_shape p' = fd_shape p"
  by (auto simp: heap_alloc_def Let_def elim!: and_thenE split: option.split_asm if_split_asm prod.split_asm
      dest!: heap_defrag_shape)

lemma heap_free_shape [quiet]: "heap_free p page off r = Inr (q, p', r') \<Longrightarrow> fd_shape p' = fd_shape p"
  by (auto simp: heap_free_def Let_def elim!: and_thenE split: option.split_asm if_split_asm prod.split_asm
      dest!: heap_defrag_shape)

lemma heap_new_page_shape [quiet]: "heap_new_page cfg p r = Inr (q, p', r') \<Longrightarrow> fd_shape p' = fd_shape p"
  by (auto simp: heap_new_page_def Let_def elim!: and_thenE split: if_split_asm prod.split_asm)

lemma memory_heap_shape [quiet]:
  "memory_heap_alloc cfg p sz r = Inr (a, p', r') \<Longrightarrow> fd_shape p' = fd_shape p"
  "memory_heap_free p page off r = Inr (p', r') \<Longrightarrow> fd_shape p' = fd_shape p"
  by (auto simp: memory_heap_alloc_def memory_heap_free_def elim!: and_thenE
      split: option.split_asm if_split_asm prod.split_asm
      dest!: heap_alloc_shape heap_free_shape heap_new_page_shape)

lemma view_set_heap [simp]:
  "fd_shape program = fd_shape (programs k p) \<Longrightarrow> view c (set_heap p program m k) = view c k"
  by (auto simp: view_def queues_def marks_def set_heap_def upd_def fun_eq_iff)

subsection \<open>The handlers that leave the view alone\<close>

lemma view_enter:
  assumes "enter_syscall c f k = Inr k'"
    and "\<And>p k1. f p k1 = Inr k' \<Longrightarrow> view c k' = view c k1"
  shows "view c k' = view c k"
  using assms by (fastforce simp: enter_syscall_def and_then_Inr_iff)

lemmas handler_parts = finish_reply_def fail_name_def onDeleteError_def Let_def

lemma quiet_scheduling:
  "handle_interruption c k = Inr k' \<Longrightarrow> view c k' = view c k"
  "handle_still_burst c k = Inr k' \<Longrightarrow> view c k' = view c k"
  by (auto simp: handle_interruption_def handle_still_burst_def handler_parts
      elim!: and_thenE split: prod.split_asm)

lemma quiet_variables:
  "handle_cpu_get_shared_variable c k = Inr k' \<Longrightarrow> view c k' = view c k"
  "handle_cpu_set_shared_variable c k = Inr k' \<Longrightarrow> view c k' = view c k"
  unfolding handle_cpu_get_shared_variable_def handle_cpu_set_shared_variable_def
  by (erule view_enter; auto simp: handler_parts elim!: and_thenE
      split: option.split_asm if_split_asm prod.split_asm dest!: view_sock [where c = c] view_reply)+

lemma quiet_wait: "handle_cpu_wait c k = Inr k' \<Longrightarrow> view c k' = view c k"
  unfolding handle_cpu_wait_def
  by (erule view_enter; auto simp: handler_parts elim!: and_thenE
      split: option.split_asm if_split_asm prod.split_asm dest!: view_sock [where c = c] view_reply)

lemma quiet_heap:
  "handle_cpu_alocar c k = Inr k' \<Longrightarrow> view c k' = view c k"
  "handle_cpu_liberar c k = Inr k' \<Longrightarrow> view c k' = view c k"
  unfolding handle_cpu_alocar_def handle_cpu_liberar_def
  by (erule view_enter; auto simp: handler_parts elim!: and_thenE
      split: option.split_asm if_split_asm prod.split_asm
      dest!: view_sock [where c = c] view_reply memory_heap_shape)+

lemma quiet_cursor: "handle_cpu_mover_cursor c k = Inr k' \<Longrightarrow> view c k' = view c k"
  unfolding handle_cpu_mover_cursor_def
  by (erule view_enter; auto simp: handler_parts elim!: and_thenE
      split: option.split_asm if_split_asm prod.split_asm dest!: view_sock [where c = c])

lemma view_snd_sock [simp]:
  "view c (snd (sock_send_string fd t k)) = view c k" "view c (snd (sock_send_int fd v k)) = view c k"
  "view c (snd (sock_send fd b k)) = view c k"
  using view_sock(1,2,3) [OF surjective_pairing] by blast+

lemma quiet_write: "handle_cpu_escribir c k = Inr k' \<Longrightarrow> view c k' = view c k"
  unfolding handle_cpu_escribir_def
  by (erule view_enter; auto simp: handler_parts print_console_def write_file_def elim!: and_thenE
      split: option.split_asm if_split_asm prod.split_asm dest!: view_sock [where c = c])

lemma view_store_read [quiet]: "store_read p donde n b k = Inr (q, k') \<Longrightarrow> view c k' = view c k"
  by (auto simp: store_read_def Let_def elim!: and_thenE
      split: read_buffer.split_asm if_split_asm prod.split_asm)

lemma view_read_file [quiet]: "read_file p d donde n k = Inr (q, k') \<Longrightarrow> view c k' = view c k"
  by (auto simp: read_file_def elim!: and_thenE
      split: option.split_asm if_split_asm prod.split_asm dest!: view_store_read [where c = c])

lemma quiet_read: "handle_cpu_leer c k = Inr k' \<Longrightarrow> view c k' = view c k"
  unfolding handle_cpu_leer_def
  by (erule view_enter; auto simp: handler_parts elim!: and_thenE
      split: option.split_asm if_split_asm prod.split_asm dest!: view_sock [where c = c] view_read_file [where c = c])

end
