(* ===== verification/Process_Flow.thy ===== *)
theory Process_Flow
  imports Process_Places
begin

text \<open>
  Every operation of theories \<open>Programs\<close>, \<open>Syscalls\<close>, \<open>File_Syscalls\<close> and \<open>Kernel_Requests\<close>
  accounts for the processes: it takes one out of its place only to put it into another, and the
  open files stay counted. The last section collects this into an invariant of every state the
  Kernel can reach.
\<close>

subsection \<open>Moving a process\<close>

definition rest where
  "rest k = (nextProgram k, (nextGfd k, gfds k, globalFDs k), fd_shape \<circ> programs k,
     map cpu_disconnected (cpus k))"

lemma accounted_move:
  assumes r: "rest k' = rest k" and m: "mset (D' @ places k') = mset (D @ places k)"
    and a: "accounted D M X k"
  shows "accounted D' M X k'"
proof -
  have shape: "fd_shape (programs k' p) = fd_shape (programs k p)" for p
    using r by (simp add: rest_def fun_eq_iff)
  have "fd_inv k'"
    by (rule fd_inv_cong [of k]) (use a r shape in \<open>auto simp: accounted_def rest_def fd_shape_def\<close>)
  moreover have "distinct (D' @ places k')"
    using a m by (metis accounted_def mset_eq_imp_distinct_iff)
  moreover have dis: "map cpu_disconnected (cpus k') = map cpu_disconnected (cpus k)"
    using r by (simp add: rest_def)
  then have "length (cpus k') = length (cpus k)" by (rule map_eq_imp_length_eq)
  moreover have "cpu_disconnected (cpus k' ! i) = cpu_disconnected (cpus k ! i)"
    if "i < length (cpus k)" for i
    using arg_cong [OF dis, of "\<lambda>l. l ! i"] that \<open>length (cpus k') = length (cpus k)\<close> by simp
  moreover have "nextProgram k' = nextProgram k" using r by (simp add: rest_def)
  ultimately show ?thesis using a m unfolding accounted_def by (metis mset_append)
qed

lemma accounted_below: "accounted D M X k \<Longrightarrow> p \<in> set D \<union> set (places k) \<Longrightarrow> p < nextProgram k"
proof -
  assume a: "accounted D M X k" and "p \<in> set D \<union> set (places k)"
  then have "p \<in># M" by (auto simp: accounted_def)
  with a show "p < nextProgram k" by (simp add: accounted_def)
qed

lemma rest_queues [simp]:
  "rest (k\<lparr>newQ := q\<rparr>) = rest k" "rest (k\<lparr>readyQ := q\<rparr>) = rest k" "rest (k\<lparr>blockedQ := q\<rparr>) = rest k"
  "rest (k\<lparr>finishedQ := q\<rparr>) = rest k" "rest (k\<lparr>memory := m\<rparr>) = rest k" "rest (k\<lparr>config := cfg\<rparr>) = rest k"
  by (simp_all add: rest_def)

lemma rest_upd [simp]: "(\<And>q. fd_shape (f q) = fd_shape q) \<Longrightarrow> rest (upd p f k) = rest k"
  by (auto simp: rest_def fun_eq_iff)

lemma running_simps [simp]:
  "running (k\<lparr>newQ := q\<rparr>) = running k" "running (k\<lparr>readyQ := q\<rparr>) = running k"
  "running (k\<lparr>blockedQ := q\<rparr>) = running k" "running (k\<lparr>finishedQ := q\<rparr>) = running k"
  "running (upd p f k) = running k" "running (k\<lparr>config := cfg\<rparr>) = running k"
  by (simp_all add: running_def)

definition opt :: "'a option \<Rightarrow> 'a list" where
  "opt x = (case x of None \<Rightarrow> [] | Some a \<Rightarrow> [a])"

lemma opt_simps [simp]: "opt None = []" "opt (Some a) = [a]"
  by (simp_all add: opt_def)

lemma mset_map_filter_update:
  "c < length xs \<Longrightarrow>
     mset (List.map_filter (\<lambda>x. x) (xs[c := x])) + mset (opt (xs ! c))
     = mset (List.map_filter (\<lambda>x. x) xs) + mset (opt x)"
proof (induction xs arbitrary: c)
  case (Cons y ys)
  show ?case
  proof (cases c)
    case 0
    then show ?thesis by (cases x; cases y) simp_all
  next
    case (Suc d)
    with Cons have "mset (List.map_filter (\<lambda>x. x) (ys[d := x])) + mset (opt (ys ! d))
        = mset (List.map_filter (\<lambda>x. x) ys) + mset (opt x)" by simp
    with Suc show ?thesis by (cases y) simp_all
  qed
qed simp

text \<open>A CPU gets another process, or none.\<close>

definition assign :: "ptr option \<Rightarrow> t_cpu \<Rightarrow> t_cpu" where
  "assign program u = u\<lparr>cpu_program := program\<rparr>"

lemma accounted_assign:
  assumes c: "c < length (cpus k)" and a: "accounted (opt x @ D) M X k"
  shows "accounted (opt (cpu_program (cpus k ! c)) @ D) M X (set_cpu c (assign x) k)"
proof (rule accounted_move [OF _ _ a])
  let ?k = "set_cpu c (assign x) k"
  have "(map cpu_disconnected (cpus k))[c := cpu_disconnected (cpus k ! c)] = map cpu_disconnected (cpus k)"
    using c by (simp add: map_update [symmetric] del: map_update)
  then show "rest ?k = rest k" by (simp add: rest_def set_cpu_def assign_def map_update)
  have "mset (running ?k) + mset (opt (cpu_program (cpus k ! c))) = mset (running k) + mset (opt x)"
    using mset_map_filter_update [of c "map cpu_program (cpus k)" x] c
    by (simp add: running_def set_cpu_def assign_def map_update)
  then show "mset ((opt (cpu_program (cpus k ! c)) @ D) @ places ?k) = mset ((opt x @ D) @ places k)"
    by (simp add: places_def set_cpu_def ac_simps)
qed


lemma assign_eta: "(\<lambda>u. u\<lparr>cpu_program := x\<rparr>) = assign x"
  by (simp add: assign_def fun_eq_iff)

subsection \<open>The end of a process\<close>

lemma close_opened_files_spec:
  assumes inv: "fd_inv k" and p: "p < nextProgram k"
  obtains k1 k' where "close_opened_files p k = Inr k'" "table_only k k1"
    "k' = upd p (\<lambda>q. q\<lparr>fileDescriptors := []\<rparr>) k1" "fd_inv k'"
proof -
  let ?fds = "fileDescriptors (programs k p)"
  have "table_inv k (refs k)" "\<forall>g. uses ?fds g \<le> refs k g"
    using inv uses_le_refs [OF p] by (simp_all add: fd_inv_def)
  then obtain k1 where k1: "destroy_fds ?fds k = Inr k1" "table_only k k1"
    "table_inv k1 (\<lambda>g. refs k g - uses ?fds g)" by (rule destroy_fds_spec)
  let ?k' = "upd p (\<lambda>q. q\<lparr>fileDescriptors := []\<rparr>) k1"
  have "refs ?k' = (\<lambda>g. refs k g - uses ?fds g)"
  proof
    fix g show "refs ?k' g = refs k g - uses ?fds g"
      using refs_upd [of p k1 "\<lambda>q. q\<lparr>fileDescriptors := []\<rparr>" g] p k1(2)
      by (simp add: refs_table_only table_only_simps)
  qed
  then have "fd_inv ?k'"
    using inv k1(3) by (auto simp: fd_inv_def table_only_simps [OF k1(2)] fds_ok_def)
  then show thesis using that k1 by (simp add: close_opened_files_def)
qed

lemma view_inform [simp]: "view c (inform_console p k) = view c k"
  by (auto simp: inform_console_def close_console_def Let_def split: prod.split dest!: view_sock [where c = c])

lemma program_finish_accounted:
  assumes a: "accounted (p # D) M X k" and f: "program_finish p k = Inr k'"
  shows "accounted D M X k'"
proof -
  let ?k0 = "k\<lparr>finishedQ := finishedQ k @ [p]\<rparr>"
  have "p \<notin> set (finishedQ k)" using a by (auto simp: accounted_def places_def)
  then have "\<not> program_did_finish p k" by (auto simp: program_did_finish_def dest: find_in_set)
  with f obtain k1 m where k1: "close_opened_files p ?k0 = Inr k1" "k' = inform_console p (k1\<lparr>memory := m\<rparr>)"
    by (auto simp: program_finish_def elim!: and_thenE)
  have a0: "accounted D M X ?k0"
    by (rule accounted_move [OF _ _ a]) (simp_all add: places_def)
  then have inv: "fd_inv ?k0" and p: "p < nextProgram ?k0"
    using accounted_below [OF a] by (simp_all add: accounted_def)
  from close_opened_files_spec [OF inv p] k1(1) obtain k2 where k2: "table_only ?k0 k2"
    "k1 = upd p (\<lambda>q. q\<lparr>fileDescriptors := []\<rparr>) k2" "fd_inv k1" by (metis sum.inject(2))
  have "places k1 = places ?k0" "cpus k1 = cpus ?k0" "nextProgram k1 = nextProgram ?k0"
    by (simp_all add: k2(2) places_def running_def table_only_simps [OF k2(1)])
  with a0 k2(3) have "accounted D M X k1" by (simp add: accounted_def)
  then show ?thesis
    by (rule accounted_view [of "length (cpus k1)", rotated]) (simp_all add: k1(2))
qed

lemma close_opened_files_keeps:
  assumes "close_opened_files p k = Inr k'"
  shows "newQ k' = newQ k" "readyQ k' = readyQ k" "blockedQ k' = blockedQ k" "cpus k' = cpus k"
    "config k' = config k" "finishedQ k' = finishedQ k"
proof -
  have del: "table_only k k'" if "deleteFileFromProcessFileTable f k = Inr k'" for f k k'
    using that by (auto simp: deleteFileFromProcessFileTable_def remove_gfd_def table_only_def upd_gfd_def
        elim!: and_thenE split: option.split_asm)
  have "table_only k k'" if "destroy_fds fs k = Inr k'" for fs k k'
    using that by (induction fs arbitrary: k) (auto elim!: and_thenE dest!: del intro: table_only_trans)
  with assms obtain k1 where "table_only k k1" "k' = upd p (\<lambda>q. q\<lparr>fileDescriptors := []\<rparr>) k1"
    by (auto simp: close_opened_files_def elim!: and_thenE)
  then show "newQ k' = newQ k" "readyQ k' = readyQ k" "blockedQ k' = blockedQ k" "cpus k' = cpus k"
    "config k' = config k" "finishedQ k' = finishedQ k"
    by (simp_all add: table_only_simps)
qed

lemma inform_console_keeps [simp]:
  "newQ (inform_console p k) = newQ k" "readyQ (inform_console p k) = readyQ k"
  "blockedQ (inform_console p k) = blockedQ k" "cpus (inform_console p k) = cpus k"
  "config (inform_console p k) = config k" "finishedQ (inform_console p k) = finishedQ k"
  "programs (inform_console p k) = programs k"
  by (simp_all add: inform_console_def close_console_def Let_def sock_send_string_def sock_send_int_def
      split: prod.split)

lemma program_finish_keeps:
  assumes "program_finish p k = Inr k'"
  shows "newQ k' = newQ k" "readyQ k' = readyQ k" "blockedQ k' = blockedQ k" "cpus k' = cpus k"
    "config k' = config k"
  using assms by (auto simp: program_finish_def elim!: and_thenE split: if_split_asm
      dest: close_opened_files_keeps)


subsection \<open>The planners\<close>

lemma view_to_ready [quiet]: "program_to_ready p k = Inr (n, k') \<Longrightarrow> view c k' = view c k"
  by (auto simp: program_to_ready_def Let_def elim!: and_thenE split: prod.split_asm if_split_asm)

lemma to_ready_keeps:
  assumes "program_to_ready p k = Inr (n, k')"
  shows "newQ k' = newQ k" "readyQ k' = readyQ k" "blockedQ k' = blockedQ k" "cpus k' = cpus k"
    "finishedQ k' = finishedQ k" "config k' = config k"
  using assms by (auto simp: program_to_ready_def Let_def elim!: and_thenE split: prod.split_asm if_split_asm)

lemma accounted_view_any: "(\<And>c. view c k' = view c k) \<Longrightarrow> accounted D M X k \<Longrightarrow> accounted D M X k'"
  by (rule accounted_view [of "length (cpus k)"]) auto

lemma admitE:
  assumes "admit p k = Inr (b, k')"
  obtains (rejected) n k1 where "program_to_ready p k = Inr (n, k1)" "n \<noteq> 0" "\<not> b"
      "program_finish p (upd p (set_exitCode n) k1) = Inr k'"
  | (admitted) k1 where "program_to_ready p k = Inr (0, k1)" "b" "k' = k1\<lparr>readyQ := readyQ k1 @ [p]\<rparr>"
  using assms by (auto simp: admit_def elim!: and_thenE split: if_split_asm)

lemma admit_accounted:
  assumes a: "accounted (p # D) M X k" and f: "admit p k = Inr (b, k')"
  shows "accounted D M X k'"
  using f
proof (cases rule: admitE)
  case (rejected n k1)
  have "accounted (p # D) M X (upd p (set_exitCode n) k1)"
    by (rule accounted_view_any [OF _ a]) (simp add: view_to_ready [OF rejected(1)])
  then show ?thesis using rejected(4) by (rule program_finish_accounted)
next
  case (admitted k1)
  have "accounted (p # D) M X k1" by (rule accounted_view_any [OF _ a]) (rule view_to_ready [OF admitted(1)])
  then show ?thesis
    by (rule accounted_move [rotated 2]) (simp_all add: admitted(3) places_def)
qed

lemma admit_keeps:
  assumes "admit p k = Inr (b, k')"
  shows "newQ k' = newQ k" "cpus k' = cpus k" "config k' = config k" "blockedQ k' = blockedQ k"
    "readyQ k' = (if b then readyQ k @ [p] else readyQ k)"
proof -
  have "newQ k' = newQ k \<and> cpus k' = cpus k \<and> config k' = config k \<and> blockedQ k' = blockedQ k
    \<and> readyQ k' = (if b then readyQ k @ [p] else readyQ k)"
    using assms
  proof (cases rule: admitE)
    case (rejected n k1)
    show ?thesis
      using rejected(3) by (simp add: to_ready_keeps [OF rejected(1)] program_finish_keeps [OF rejected(4)])
  next
    case (admitted k1)
    then show ?thesis by (simp add: to_ready_keeps [OF admitted(1)])
  qed
  then show "newQ k' = newQ k" "cpus k' = cpus k" "config k' = config k" "blockedQ k' = blockedQ k"
    "readyQ k' = (if b then readyQ k @ [p] else readyQ k)" by simp_all
qed

lemma planificador_loop_accounted:
  "accounted D M X (k\<lparr>newQ := ps\<rparr>) \<Longrightarrow> planificador_loop ps n k = Inr k' \<Longrightarrow> accounted D M X k'"
proof (induction ps arbitrary: n k)
  case (Cons p ps)
  show ?case
  proof (cases "n < grado_multiprog (config k)")
    case True
    with Cons.prems(2) obtain b k1 where k1: "admit p (k\<lparr>newQ := ps\<rparr>) = Inr (b, k1)"
      "planificador_loop ps (if b then n + 1 else n) k1 = Inr k'"
      by (auto elim!: and_thenE split: if_split_asm)
    have "accounted (p # D) M X (k\<lparr>newQ := ps\<rparr>)"
      by (rule accounted_move [OF _ _ Cons.prems(1)]) (simp_all add: places_def)
    moreover have "k1\<lparr>newQ := ps\<rparr> = k1" using admit_keeps(1) [OF k1(1)] by (cases k1) simp
    ultimately have "accounted D M X (k1\<lparr>newQ := ps\<rparr>)" using admit_accounted k1(1) by simp
    then show ?thesis using Cons.IH k1(2) by blast
  qed (use Cons.prems in auto)
qed auto

lemma planificador_loop_keeps:
  "planificador_loop ps n k = Inr k' \<Longrightarrow> cpus k' = cpus k \<and> config k' = config k \<and> blockedQ k' = blockedQ k"
proof (induction ps arbitrary: n k)
  case (Cons p ps)
  show ?case
  proof (cases "n < grado_multiprog (config k)")
    case True
    with Cons.prems obtain b k1 where k1: "admit p (k\<lparr>newQ := ps\<rparr>) = Inr (b, k1)"
      "planificador_loop ps (if b then n + 1 else n) k1 = Inr k'"
      by (auto elim!: and_thenE split: if_split_asm)
    then show ?thesis using Cons.IH [OF k1(2)] admit_keeps(2-4) [OF k1(1)] by simp
  qed (use Cons.prems in auto)
qed auto

lemma planificador_accounted:
  "accounted D M X k \<Longrightarrow> planificador_largo_plazo k = Inr k' \<Longrightarrow> accounted D M X k'"
  using planificador_loop_accounted [of D M X "newQ k" k]
  by (auto simp: planificador_largo_plazo_def split: if_split_asm)

lemma planificar_accounted:
  assumes a: "accounted D M X k" and f: "planificar k = Inr (r, k')"
  shows "accounted (opt r @ D) M X k'" "cpus k' = cpus k" "config k' = config k" "blockedQ k' = blockedQ k"
proof -
  obtain k1 where k1: "planificador_largo_plazo k = Inr k1"
    "(case readyQ k1 of [] \<Rightarrow> Inr (None, k1)
      | p # ps \<Rightarrow> Inr (Some p, upd p (\<lambda>q. q\<lparr>quantum := assigned_quantum (config k1) (quantum q)\<rparr>)
                                  (k1\<lparr>readyQ := ps\<rparr>)))
      = (Inr (r, k') :: fault + ptr option \<times> kernel)"
    using f unfolding planificar_def by (rule and_thenE) (rule that, assumption+)
  have a1: "accounted D M X k1" by (rule planificador_accounted [OF a k1(1)])
  have keeps: "cpus k1 = cpus k \<and> config k1 = config k \<and> blockedQ k1 = blockedQ k"
    using k1(1) planificador_loop_keeps by (auto simp: planificador_largo_plazo_def split: if_split_asm)
  then show "cpus k' = cpus k" "config k' = config k" "blockedQ k' = blockedQ k"
    using k1(2) by (auto split: list.split_asm)
  show "accounted (opt r @ D) M X k'"
  proof (cases "readyQ k1")
    case (Cons p ps)
    with k1(2) have r: "r = Some p"
      "k' = upd p (\<lambda>q. q\<lparr>quantum := assigned_quantum (config k1) (quantum q)\<rparr>) (k1\<lparr>readyQ := ps\<rparr>)" by auto
    show ?thesis unfolding r
      by (rule accounted_move [OF _ _ a1]) (simp_all add: places_def Cons)
  qed (use k1(2) a1 in auto)
qed

subsection \<open>CPUs\<close>

lemma view_send_pcb [quiet]: "cpu_send_pcb c k = Inr k' \<Longrightarrow> view i k' = view i k"
  by (auto simp: cpu_send_pcb_def Let_def elim!: and_thenE)

lemma assign_cpu_accounted:
  assumes c: "c < length (cpus k)" and idle: "cpu_program (cpus k ! c) = None"
    and a: "accounted D M X k" and f: "assign_cpu c k = Inr k'"
  shows "accounted D M X k'" "length (cpus k') = length (cpus k)"
proof -
  obtain r k1 where k1: "planificar k = Inr (r, k1)"
    "(if r \<noteq> None then cpu_send_pcb c (set_cpu c (assign r) k1) else Inr (set_cpu c (assign r) k1)) = Inr k'"
    using f by (auto simp: assign_cpu_def assign_eta Let_def elim!: and_thenE)
  have a1: "accounted (opt r @ D) M X k1" and cpus: "cpus k1 = cpus k"
    using planificar_accounted [OF a k1(1)] by simp_all
  let ?k2 = "set_cpu c (assign r) k1"
  have a2: "accounted D M X ?k2" using accounted_assign [OF _ a1, of c] c idle cpus by simp
  have v: "view i k' = view i ?k2" for i
    using k1(2) view_send_pcb [of c ?k2 k' i] by (auto split: if_split_asm)
  show "accounted D M X k'" by (rule accounted_view_any [OF v a2])
  have "length (cpus k') = length (cpus ?k2)"
    using v [of 0] by (auto simp: view_def dest: map_eq_imp_length_eq)
  then show "length (cpus k') = length (cpus k)" by (simp add: set_cpu_def cpus)
qed

lemma iterate_cpus_accounted:
  assumes "\<forall>c \<in> set cs. c < length (cpus k)" "accounted D M X k"
    "iterate_cpus inactive_cpu_planner cs k = Inr k'"
  shows "accounted D M X k' \<and> length (cpus k') = length (cpus k)"
  using assms
proof (induction cs arbitrary: k)
  case (Cons c cs)
  then obtain k1 where k1: "inactive_cpu_planner c k = Inr k1" "iterate_cpus inactive_cpu_planner cs k1 = Inr k'"
    by (auto elim!: and_thenE)
  have "accounted D M X k1 \<and> length (cpus k1) = length (cpus k)"
    using k1(1) Cons.prems assign_cpu_accounted [of c k D M X k1]
    by (auto simp: inactive_cpu_planner_def split: if_split_asm)
  with Cons.IH [of k1] Cons.prems(1) k1(2) show ?case by auto
qed auto

lemma cpu_inactive_planner_accounted:
  "accounted D M X k \<Longrightarrow> cpu_inactive_planner k = Inr k' \<Longrightarrow> accounted D M X k'"
  using iterate_cpus_accounted [of "[0..<length (cpus k)]" k D M X k']
  by (simp add: cpu_inactive_planner_def)


subsection \<open>Consoles: a new process, an interruption\<close>

lemma accounted_new:
  assumes a: "accounted D M X k" and fds: "fileDescriptors program = []"
  shows "accounted D (add_mset (nextProgram k) M) X
    (k\<lparr>nextProgram := nextProgram k + 1, programs := (programs k)(nextProgram k := program),
       newQ := newQ k @ [nextProgram k]\<rparr>)" (is "accounted D ?M X ?k")
proof -
  have "refs ?k = refs k" using fds by (simp add: refs_def fun_eq_iff)
  then have "table_inv ?k (refs ?k)"
    using a table_inv_same [of ?k k "refs k"] by (simp add: accounted_def fd_inv_def)
  moreover have "\<forall>p < nextProgram ?k. fds_ok (programs ?k p)"
    using a fds by (auto simp: accounted_def fd_inv_def fds_ok_def less_Suc_eq)
  ultimately have "fd_inv ?k" by (simp add: fd_inv_def)
  moreover have perm: "mset (D @ places ?k) = add_mset (nextProgram k) (mset (D @ places k))"
    by (simp add: places_def running_def)
  have fresh: "nextProgram k \<notin> set (D @ places k)" using accounted_below [OF a, of "nextProgram k"] by auto
  have "distinct (nextProgram k # D @ places k)" using fresh a by (simp add: accounted_def)
  then have "distinct (D @ places ?k)" by (metis perm mset.simps(2) mset_eq_imp_distinct_iff)
  moreover have "mset (D @ places ?k) = ?M" using perm a by (simp add: accounted_def)
  moreover have "\<forall>p \<in># ?M. p < nextProgram ?k" using a by (auto simp: accounted_def less_Suc_eq)
  ultimately show ?thesis using a unfolding accounted_def by simp
qed

lemma load_metadata_fds [simp]: "fileDescriptors (load_metadata e program) = fileDescriptors program"
  by (simp add: load_metadata_def Let_def)

lemma program_process_new_accounted:
  assumes a: "accounted D M X k" and f: "program_process_new sk k = Inr k'"
  shows "accounted D M X k' \<or> accounted D (add_mset (nextProgram k) M) X k'"
proof -
  let ?k0 = "k\<lparr>programID := programID k + 1\<rparr>"
  obtain n k1 where k1: "sock_send_int sk (programID k + 1) ?k0 = (n, k1)" by (rule prod.exhaust)
  obtain code k2 where k2: "sock_recv sk k1 = (code, k2)" by (rule prod.exhaust)
  have v: "view c k1 = view c k" "view c k2 = view c k" for c
    using view_sock(1) [OF k1, of c] view_sock(5) [OF k2, of c] by simp_all
  have a1: "accounted D M X k1" and a2: "accounted D M X k2"
    by (rule accounted_view_any [OF _ a], simp add: v)+
  have dropped: "view c (drop_console sk k1) = view c k" "view c (drop_console sk k2) = view c k" for c
    using v by (simp_all add: drop_console_def view_def queues_def marks_def)
  show ?thesis
  proof (cases "n \<le> 0 \<or> code = None")
    case True
    then have "k' = drop_console sk k1 \<or> k' = drop_console sk k2"
      using f k1 k2 by (auto simp: program_process_new_def program_generate_id_def split: if_split_asm)
    then show ?thesis using accounted_view_any [OF _ a, of k'] dropped by auto
  next
    case False
    then obtain bs where bs: "code = Some bs" by auto
    define program where "program = load_metadata (env k)
      ((blank_program (env k) sk (programID k + 1))\<lparr>codeSize := int (length bs), p_code := bs\<rparr>)"
    have "and_then (planificador_largo_plazo (k2\<lparr>nextProgram := nextProgram k2 + 1,
        programs := (programs k2)(nextProgram k2 := program), newQ := newQ k2 @ [nextProgram k2]\<rparr>))
        cpu_inactive_planner = Inr k'"
      using f k1 k2 False bs
      by (simp add: program_process_new_def program_generate_id_def program_def Let_def)
    then obtain k4 where k4: "planificador_largo_plazo (k2\<lparr>nextProgram := nextProgram k2 + 1,
        programs := (programs k2)(nextProgram k2 := program), newQ := newQ k2 @ [nextProgram k2]\<rparr>) = Inr k4"
      "cpu_inactive_planner k4 = Inr k'" by (rule and_thenE)
    have "accounted D (add_mset (nextProgram k2) M) X k4"
      by (rule planificador_accounted [OF accounted_new [OF a2] k4(1)])
         (simp add: program_def blank_program_def)
    from cpu_inactive_planner_accounted [OF this k4(2)] v(2) [of 0]
    show ?thesis by (simp add: view_def)
  qed
qed

lemma finish_removed_accounted:
  assumes "accounted (p # D) M X k" "finish_removed p code k = Inr k'"
  shows "accounted D M X k'"
proof (rule program_finish_accounted)
  show "accounted (p # D) M X (upd p (set_exitCode code) k)"
    by (rule accounted_view_any [OF _ assms(1)]) simp
  show "program_finish p (upd p (set_exitCode code) k) = Inr k'"
    using assms(2) by (simp add: finish_removed_def)
qed

lemma mset_removed: "list_remove_by_condition P xs = (Some x, ys) \<Longrightarrow> mset xs = add_mset x (mset ys)"
  by (cases rule: list_remove_by_condition_cases [of xs P]) auto

lemma take_from_queue:
  assumes a: "accounted D M X k"
  shows "list_remove_by_condition P (newQ k) = (Some p, r) \<Longrightarrow> accounted (p # D) M X (k\<lparr>newQ := r\<rparr>)"
    "list_remove_by_condition P (blockedQ k) = (Some p, r) \<Longrightarrow> accounted (p # D) M X (k\<lparr>blockedQ := r\<rparr>)"
    "list_remove_by_condition P (readyQ k) = (Some p, r) \<Longrightarrow> accounted (p # D) M X (k\<lparr>readyQ := r\<rparr>)"
  by (rule accounted_move [OF _ _ a]; simp add: places_def mset_removed)+

lemma program_interrup_accounted:
  assumes a: "accounted D M X k" and f: "program_interrup sk code ov k = Inr k'"
  shows "accounted D M X k'"
proof -
  have quiet_case: "accounted D M X (interrupt p code k)" for p
    by (rule accounted_view_any [OF _ a]) simp
  show ?thesis
    using f quiet_case a
    by (auto simp: program_interrup_def Let_def split: option.split_asm prod.split_asm if_split_asm
        intro: finish_removed_accounted take_from_queue [OF a])
qed

lemma program_unblock_accounted:
  assumes a: "accounted D M X k" and f: "program_unblock name k = Inr k'"
  shows "accounted D M X k'"
proof (cases "list_remove_by_condition (waits_for k name) (blockedQ k)")
  case (Pair found r)
  show ?thesis
  proof (cases found)
    case (Some p)
    let ?k = "upd p wake (k\<lparr>blockedQ := r, readyQ := readyQ k @ [p]\<rparr>)"
    have "accounted (p # D) M X (k\<lparr>blockedQ := r\<rparr>)" by (rule take_from_queue(2) [OF a]) (use Pair Some in simp)
    then have "accounted D M X ?k"
      by (rule accounted_move [rotated 2]) (simp_all add: places_def)
    moreover have "cpu_inactive_planner ?k = Inr k'" using f Pair Some by (simp add: program_unblock_def)
    ultimately show ?thesis by (rule cpu_inactive_planner_accounted)
  next
    case None
    have "accounted D M X (upd p wake k)" for p by (rule accounted_view_any [OF _ a]) simp
    with f Pair None a show ?thesis by (auto simp: program_unblock_def split: option.split_asm)
  qed
qed

end
