(* ===== verification/Kernel_Invariant.thy ===== *)
theory Kernel_Invariant
  imports Process_Flow
begin

text \<open>
  The invariant of the Kernel. \<open>kernel_inv k\<close>: every process is in exactly one place, the open
  files are counted, no CPU is marked as disconnected. Every event keeps it, and the processes
  with it: none is lost or duplicated, and a new one joins only with a new console.
\<close>

definition kernel_inv :: "kernel \<Rightarrow> bool" where
  "kernel_inv k \<longleftrightarrow>
     fd_inv k \<and> distinct (places k) \<and> (\<forall>p \<in> set (places k). p < nextProgram k)
     \<and> (\<forall>u \<in> set (cpus k). cpu_disconnected u \<noteq> 1)"

lemma kernel_inv_accounted: "kernel_inv k \<longleftrightarrow> accounted [] (mset (places k)) {} k"
  unfolding kernel_inv_def accounted_def by (auto simp: all_set_conv_all_nth)

lemma accounted_inv: "accounted [] M {} k \<Longrightarrow> kernel_inv k \<and> mset (places k) = M"
  unfolding kernel_inv_def accounted_def by (auto simp: all_set_conv_all_nth)

lemma accounted_kernel_inv: "accounted D M {} k \<Longrightarrow> kernel_inv k"
proof -
  assume a: "accounted D M {} k"
  then have "\<forall>p \<in> set (places k). p < nextProgram k" using accounted_below by blast
  with a show "kernel_inv k" unfolding accounted_def kernel_inv_def by (auto simp: all_set_conv_all_nth)
qed

lemma accounted_weaken: "accounted D M X k \<Longrightarrow> X \<subseteq> Y \<Longrightarrow> accounted D M Y k"
  by (auto simp: accounted_def)

subsection \<open>Handlers of a CPU\<close>

lemma in_map_filter: "Some p \<in> set xs \<Longrightarrow> p \<in> set (List.map_filter (\<lambda>x. x) xs)"
  by (induction xs) (auto split: option.split)

lemma current_running: "current c k = Inr p \<Longrightarrow> c < length (cpus k) \<Longrightarrow> p \<in> set (places k)"
proof -
  assume "current c k = Inr p" and c: "c < length (cpus k)"
  then have "cpu_program (cpus k ! c) = Some p" by (auto simp: current_def split: option.split_asm)
  with c have "Some p \<in> set (map cpu_program (cpus k))" by (metis length_map nth_map nth_mem)
  then have "p \<in> set (running k)" unfolding running_def by (rule in_map_filter)
  then show ?thesis by (simp add: places_def)
qed

lemma enter_accounted:
  assumes "enter_syscall c f k = Inr k'" "accounted D M X k" "c < length (cpus k)"
    and "\<And>p k1. f p k1 = Inr k' \<Longrightarrow> accounted D M X k1 \<Longrightarrow> p < nextProgram k1 \<Longrightarrow> length (cpus k1) = length (cpus k) \<Longrightarrow>
        accounted D M X k'"
  shows "accounted D M X k'"
proof -
  obtain p where p: "current c k = Inr p" "f p (upd p count_syscall k) = Inr k'"
    using assms(1) unfolding enter_syscall_def by (rule and_thenE)
  have "p < nextProgram k" using accounted_below [OF assms(2)] current_running [OF p(1) assms(3)] by blast
  moreover have "accounted D M X (upd p count_syscall k)"
    by (rule accounted_view_any [OF _ assms(2)]) simp
  ultimately show ?thesis using assms(4) [OF p(2)] by simp
qed

lemma accounted_view_in: "view c k' = view c k \<Longrightarrow> accounted D M X k \<Longrightarrow> c \<in> X \<Longrightarrow> accounted D M X k'"
  using accounted_view by blast

lemma handle_cpu_signal_accounted:
  assumes "handle_cpu_signal c k = Inr k'" "accounted D M X k" "c < length (cpus k)" "c \<in> X"
  shows "accounted D M X k'"
  using assms(1) [unfolded handle_cpu_signal_def] assms(2,3)
proof (rule enter_accounted)
  fix p k1
  assume a: "accounted D M X k1" and f: "(case sock_recv_string (cpu_sock c k1) k1 of
       (None, k1) \<Rightarrow> Inr (disconnect c k1)
     | (Some name, k1) \<Rightarrow>
         (case list_find (named_sem name) (semaforos (config k1)) of
            None \<Rightarrow> fail_name c p ERROR_SEM_DOES_NOT_EXIST k1
          | Some s \<Rightarrow>
              (case reply_string c ''Success'' k1 of (ok, k2) \<Rightarrow>
                 if \<not> ok then Inr k2
                 else program_unblock name (upd_sem name (sem_value s + 1) k2)))) = Inr k'"
  note seen = accounted_view_in [OF _ a assms(4)]
  show "accounted D M X k'"
    using f
    by (auto simp: handler_parts split: prod.split_asm option.split_asm if_split_asm
        dest!: view_sock [where c = c] view_reply
        intro: seen program_unblock_accounted [OF seen, rotated])
qed


subsection \<open>Opening, closing and deleting files\<close>

lemma accounted_files:
  assumes a: "accounted D M X k" and only: "table_only k k2" and k': "k' = upd p f k2" and inv: "fd_inv k'"
  shows "accounted D M X k'"
proof -
  have "places k' = places k" "cpus k' = cpus k" "nextProgram k' = nextProgram k"
    by (simp_all add: k' places_def running_def table_only_simps [OF only])
  with a inv show ?thesis by (simp add: accounted_def)
qed

lemma fd_inv_add:
  assumes inv: "fd_inv k" and p: "p < nextProgram k" and only: "table_only k k2"
    and tab: "table_inv k2 ((refs k)(g := refs k g + 1))"
  shows "fd_inv (upd p (\<lambda>q. q\<lparr>fileDescriptors := fileDescriptors q @ [new_fd (programs k p) g permissions],
            incrementalFD := incrementalFD q + 1\<rparr>) k2)" (is "fd_inv ?k")
proof -
  have "refs ?k = (refs k)(g := refs k g + 1)"
  proof
    fix h show "refs ?k h = ((refs k)(g := refs k g + 1)) h"
      using refs_upd [of p k2 "\<lambda>q. q\<lparr>fileDescriptors := fileDescriptors q @ [new_fd (programs k p) g permissions],
            incrementalFD := incrementalFD q + 1\<rparr>" h] p
      by (simp add: refs_table_only [OF only] table_only_simps [OF only] new_fd_def)
  qed
  moreover have "fds_ok (programs k p)" using inv p by (simp add: fd_inv_def)
  then have "fds_ok (programs ?k p)"
    by (auto simp: fds_ok_def table_only_simps [OF only] new_fd_def)
  ultimately show ?thesis using inv tab by (auto simp: fd_inv_def table_only_simps [OF only])
qed

lemma fd_inv_drop:
  assumes inv: "fd_inv k" and p: "p < nextProgram k" and only: "table_only k k2"
    and fd: "file_descriptor_get_by_number (programs k p) v = Some fd"
    and tab: "table_inv k2 ((refs k)(fd_global fd := refs k (fd_global fd) - 1))"
  shows "fd_inv (upd p (drop_fd v) k2)" (is "fd_inv ?k")
proof -
  let ?fds = "fileDescriptors (programs k p)"
  obtain us vs where fds: "?fds = us @ fd # vs" "fd_value fd = v" "\<forall>u \<in> set us. fd_value u \<noteq> v"
    using fd unfolding file_descriptor_get_by_number_def find_Some_iff
    by (metis (no_types, lifting) id_take_nth_drop in_set_conv_nth length_take min_less_iff_conj nth_take)
  then have drop: "fileDescriptors (drop_fd v (programs k p)) = us @ vs"
    by (simp add: drop_fd_def list_remove_by_condition_split)
  have "refs ?k = (refs k)(fd_global fd := refs k (fd_global fd) - 1)"
  proof
    fix h show "refs ?k h = ((refs k)(fd_global fd := refs k (fd_global fd) - 1)) h"
      using refs_upd [of p k2 "drop_fd v" h] uses_le_refs [OF p, of h] p drop fds(1)
      by (simp add: refs_table_only [OF only] table_only_simps [OF only] split: if_split_asm)
  qed
  moreover have "fds_ok (programs k p)" using inv p by (simp add: fd_inv_def)
  then have "fds_ok (programs ?k p)"
    using drop fds(1) by (auto simp: fds_ok_def table_only_simps [OF only] drop_fd_def)
  ultimately show ?thesis using inv tab by (auto simp: fd_inv_def table_only_simps [OF only])
qed

lemma fd_entry:
  assumes inv: "fd_inv k" and p: "p < nextProgram k"
    and fd: "file_descriptor_get_by_number (programs k p) v = Some fd"
  obtains G where "gfds k (fd_global fd) = Some G" "gfd_open G = int (refs k (fd_global fd))"
    "0 < refs k (fd_global fd)" "fd_value fd = v"
proof -
  have "fd \<in> set (fileDescriptors (programs k p))" "fd_value fd = v"
    using find_in_set fd unfolding file_descriptor_get_by_number_def by fastforce+
  then have "0 < refs k (fd_global fd)" using uses_le_refs [OF p, of "fd_global fd"] uses_pos by fastforce
  moreover have "table_inv k (refs k)" using inv by (simp add: fd_inv_def)
  ultimately show thesis using table_inv_entry that \<open>fd_value fd = v\<close> by metis
qed


lemma create_accounted:
  assumes a: "accounted D M X k" and p: "p < nextProgram k" and only: "table_only k k1"
    and tab: "table_inv (upd_gfd g (\<lambda>G. G\<lparr>gfd_open := gfd_open G + 1\<rparr>) k1) ((refs k)(g := refs k g + 1))"
  shows "accounted D M X (snd (file_descriptor_create p g perms k1))"
proof (rule accounted_files [OF a])
  let ?k2 = "upd_gfd g (\<lambda>G. G\<lparr>gfd_open := gfd_open G + 1\<rparr>) k1"
  show only2: "table_only k ?k2" by (rule table_only_trans [OF only]) simp
  show eq: "snd (file_descriptor_create p g perms k1)
      = upd p (\<lambda>q. q\<lparr>fileDescriptors := fileDescriptors q @ [new_fd (programs k p) g perms],
            incrementalFD := incrementalFD q + 1\<rparr>) ?k2"
    by (simp add: file_descriptor_create_def Let_def table_only_simps [OF only])
  have "fd_inv k" using a by (simp add: accounted_def)
  then show "fd_inv (snd (file_descriptor_create p g perms k1))"
    unfolding eq by (rule fd_inv_add [OF _ p only2 tab])
qed

lemma table_find_path:
  assumes "table_inv k R" "file_descriptor_global_get_by_path path k = Inr found"
  shows "found = Some g \<Longrightarrow> 0 < R g \<and> path_of k g = path"
    "found = None \<Longrightarrow> \<forall>g \<in> set (globalFDs k). path_of k g \<noteq> path"
proof -
  have f: "found = list_find (\<lambda>g. gfd_path (the (gfds k g)) = path) (globalFDs k)"
    using assms(2) by (simp add: file_descriptor_global_get_by_path_def table_find [OF assms(1)])
  have path: "path_of k g = gfd_path (the (gfds k g))" if "g \<in> set (globalFDs k)" for g
    using table_alive [OF assms(1) that] by (auto simp: path_of_def)
  show "0 < R g \<and> path_of k g = path" if "found = Some g"
    using find_in_set [of _ "globalFDs k" g] f that path assms(1) unfolding table_inv_def by auto
  show "\<forall>g \<in> set (globalFDs k). path_of k g \<noteq> path" if "found = None"
    using f [symmetric] that path by (auto simp: find_None_iff)
qed

lemma view_table: "view c k' = view c k \<Longrightarrow> globalFDs k' = globalFDs k \<and> gfds k' = gfds k \<and> nextGfd k' = nextGfd k
    \<and> nextProgram k' = nextProgram k"
  by (simp add: view_def)

lemma view_fs: "fs_call f k = (n, k') \<Longrightarrow> view c k' = view c k"
  by (rule view_sock)

lemma open_path_accounted:
  assumes a: "accounted D M X k" and p: "p < nextProgram k"
  obtains fd k' where "open_path p path flags k = Inr (fd, k')" "accounted D M X k'"
proof -
  have tab: "table_inv k (refs k)" using a by (simp add: accounted_def fd_inv_def)
  obtain found where found: "file_descriptor_global_get_by_path path k = Inr found"
    by (simp add: file_descriptor_global_get_by_path_def table_find [OF tab])
  define fresh where "fresh k' = (case file_descriptor_global_create path k' of (g, k1) \<Rightarrow>
      case file_descriptor_create p g flags k1 of (fd, k2) \<Rightarrow> (Some fd, k2))" for k'
  have fresh: "accounted D M X (snd (fresh k'))"
    if v: "\<And>c. view c k' = view c k" and none: "found = None" for k'
  proof -
    have a': "accounted D M X k'" by (rule accounted_view_any [OF v a])
    note same = view_table [OF v]
    have "path_of k' = path_of k" using same by (simp add: path_of_def fun_eq_iff)
    with table_find_path(2) [OF tab found none] same
    have new: "\<forall>g \<in> set (globalFDs k'). path_of k' g \<noteq> path" by simp
    obtain g k1 where c: "file_descriptor_global_create path k' = (g, k1)" by (rule prod.exhaust)
    have tab': "table_inv k' (refs k')" using a' by (simp add: accounted_def fd_inv_def)
    note t = table_create [OF tab' new c]
    have "accounted D M X (snd (file_descriptor_create p g flags k1))"
      by (rule create_accounted [OF a' _ t(2)]) (use p same t in auto)
    then show ?thesis by (simp add: fresh_def c split_beta)
  qed
  show thesis
  proof (cases found)
    case (Some g)
    have "0 < refs k g" using table_find_path(1) [OF tab found Some] by simp
    from table_increment [OF tab this]
    have "accounted D M X (snd (file_descriptor_create p g flags k))"
      by (intro create_accounted [OF a p]) simp_all
    then show thesis using that found Some by (simp add: open_path_def split_beta)
  next
    case None
    obtain n1 k1 where k1: "fs_call (filesystem_validate path) k = (n1, k1)" by (rule prod.exhaust)
    obtain n2 k2 where k2: "fs_call (filesystem_create (stack_junk (env k)) path) k1 = (n2, k2)"
      by (rule prod.exhaust)
    have v1: "view c k1 = view c k" and v2: "view c k2 = view c k" for c
      using view_fs [OF k1, of c] view_fs [OF k2, of c] by simp_all
    have err: "accounted D M X (interrupt p code k1)" "accounted D M X (interrupt p code k2)" for code
      by (rule accounted_view_any [OF _ a]; simp add: v1 v2)+
    have eq: "open_path p path flags k =
       (if n1 = 1 then Inr (fresh k1)
        else if contains FILE_DESCRIPTOR_PERMISSION_CREATE flags
        then if n2 = 1 then Inr (fresh k2) else Inr (None, interrupt p ERROR_FS_OPERATION k2)
        else Inr (None, interrupt p ERROR_FILE_CREATE_PERMISION k1))"
      by (simp add: open_path_def found None k1 k2 fresh_def)
    obtain f1 q1 f2 q2 where q: "fresh k1 = (f1, q1)" "fresh k2 = (f2, q2)" by (metis prod.exhaust)
    have "\<exists>fd k'. open_path p path flags k = Inr (fd, k') \<and> accounted D M X k'"
      unfolding eq q using fresh [OF v1 None] fresh [OF v2 None] err by (auto simp: q)
    then show thesis using that by blast
  qed
qed


lemma enter_run: "current c k = Inr p \<Longrightarrow> enter_syscall c f k = f p (upd p count_syscall k)"
  by (simp add: enter_syscall_def)

lemma enter_inv:
  assumes "accounted D M X k" "c < length (cpus k)" "current c k = Inr p"
  shows "accounted D M X (upd p count_syscall k)" "p < nextProgram (upd p count_syscall k)"
  using accounted_below [OF assms(1)] current_running [OF assms(3,2)] accounted_view_any [OF _ assms(1)]
  by auto

lemma handle_cpu_abrir_ok:
  assumes a: "accounted D M X k" and c: "c < length (cpus k)" "c \<in> X" and p: "current c k = Inr p"
  shows "\<exists>k'. handle_cpu_abrir c k = Inr k' \<and> accounted D M X k'"
proof -
  let ?k = "upd p count_syscall k"
  note in1 = enter_inv [OF a c(1) p]
  note seen = accounted_view_in [OF _ in1(1) c(2)]
  obtain path k1 where k1: "sock_recv_string (cpu_sock c ?k) ?k = (path, k1)" by (rule prod.exhaust)
  obtain flags k2 where k2: "sock_recv_string (cpu_sock c k1) k1 = (flags, k2)" by (rule prod.exhaust)
  have v: "view c k1 = view c ?k" "view c k2 = view c ?k"
    using view_sock(6) [OF k1, of c] view_sock(6) [OF k2, of c] by simp_all
  show ?thesis
  proof (cases "path = None \<or> flags = None")
    case True
    then show ?thesis
      using seen [of "disconnect c k1"] seen [of "disconnect c k2"]
      by (auto simp: handle_cpu_abrir_def enter_run [OF p] k1 k2 v split: option.split)
  next
    case False
    then obtain pa fl where some: "path = Some pa" "flags = Some fl" by auto
    have "p < nextProgram k2" using in1(2) view_table [OF v(2)] by simp
    from open_path_accounted [OF seen [OF v(2)] this] obtain fd k3
      where k3: "open_path p pa fl k2 = Inr (fd, k3)" "accounted D M X k3" .
    show ?thesis
      using accounted_view_in [OF _ k3(2) c(2)] 
      by (auto simp: handle_cpu_abrir_def enter_run [OF p] k1 k2 some k3(1) finish_reply_def)
  qed
qed

text \<open>Closing and deleting start from a number, which names a descriptor of the process or not.\<close>

lemma close_accounted:
  assumes a: "accounted D M X k" and p: "p < nextProgram k"
    and fd: "file_descriptor_get_by_number (programs k p) v = Some fd"
  shows "\<exists>k'. release_gfd (fd_global fd) k = Inr k' \<and> accounted D M X (upd p (drop_fd (fd_value fd)) k')"
proof -
  have inv: "fd_inv k" using a by (simp add: accounted_def)
  obtain G where G: "0 < refs k (fd_global fd)" "fd_value fd = v" using fd_entry [OF inv p fd] .
  have "table_inv k (refs k)" using inv by (simp add: fd_inv_def)
  from release_gfd_spec [OF this G(1)] obtain k2 where k2: "release_gfd (fd_global fd) k = Inr k2"
    "table_only k k2" "table_inv k2 ((refs k)(fd_global fd := refs k (fd_global fd) - 1))" .
  have "accounted D M X (upd p (drop_fd v) k2)"
    by (rule accounted_files [OF a k2(2) refl fd_inv_drop [OF inv p k2(2) fd k2(3)]])
  with k2(1) G(2) show ?thesis by auto
qed

lemma handle_cpu_cerrar_ok:
  assumes a: "accounted D M X k" and c: "c < length (cpus k)" "c \<in> X" and p: "current c k = Inr p"
  shows "\<exists>k'. handle_cpu_cerrar c k = Inr k' \<and> accounted D M X k'"
proof -
  let ?k = "upd p count_syscall k"
  note in1 = enter_inv [OF a c(1) p]
  note seen = accounted_view_in [OF _ in1(1) c(2)]
  obtain n k1 where k1: "sock_recv_int (cpu_sock c ?k) ?k = (n, k1)" by (rule prod.exhaust)
  have v: "view c k1 = view c ?k" using view_sock(4) [OF k1, of c] .
  have p1: "p < nextProgram k1" using in1(2) view_table [OF v] by simp
  show ?thesis
  proof (cases n)
    case None
    then show ?thesis
      using seen [of "disconnect c k1"] by (simp add: handle_cpu_cerrar_def enter_run [OF p] k1 v)
  next
    case (Some nFD)
    show ?thesis
    proof (cases "file_descriptor_get_by_number (programs k1 p) nFD")
      case None
      then show ?thesis
        using seen v by (simp add: handle_cpu_cerrar_def enter_run [OF p] k1 Some finish_reply_def)
    next
      case fd: (Some fd)
      obtain k2 where k2: "release_gfd (fd_global fd) k1 = Inr k2"
        "accounted D M X (upd p (drop_fd (fd_value fd)) k2)"
        using close_accounted [OF seen [OF v] p1 fd] by blast
      show ?thesis
        using accounted_view_in [OF _ k2(2) c(2)] k2(1)
        by (simp add: handle_cpu_cerrar_def enter_run [OF p] k1 Some fd finish_reply_def)
    qed
  qed
qed


lemma delete_accounted:
  assumes a: "accounted D M X k" and p: "p < nextProgram k"
    and fd: "file_descriptor_get_by_number (programs k p) v = Some fd"
    and G: "gfds k (fd_global fd) = Some G" "gfd_open G \<le> 1"
  shows "\<exists>k'. unlist_path (gfd_path G) k = Inr k'
    \<and> accounted D M X (upd p (drop_fd (fd_value fd)) (k'\<lparr>gfds := (gfds k')(fd_global fd := None)\<rparr>))"
proof -
  let ?g = "fd_global fd"
  have inv: "fd_inv k" using a by (simp add: accounted_def)
  obtain H where H: "gfds k ?g = Some H" "gfd_open H = int (refs k ?g)" "0 < refs k ?g" "fd_value fd = v"
    using fd_entry [OF inv p fd] .
  then have one: "refs k ?g = 1" using G by simp
  have "table_inv k (refs k)" using inv by (simp add: fd_inv_def)
  from table_delete [OF this one G(1)] obtain k1 where k1: "unlist_path (gfd_path G) k = Inr k1" "table_only k k1"
    "table_inv (k1\<lparr>gfds := (gfds k1)(?g := None)\<rparr>) ((refs k)(?g := 0))" .
  let ?k2 = "k1\<lparr>gfds := (gfds k1)(?g := None)\<rparr>"
  have only: "table_only k ?k2" using k1(2) by (simp add: table_only_def)
  have "accounted D M X (upd p (drop_fd v) ?k2)"
    by (rule accounted_files [OF a only refl fd_inv_drop [OF inv p only fd]]) (use k1(3) one in simp)
  with k1(1) H(4) show ?thesis by auto
qed

lemma handle_cpu_borrar_ok:
  assumes a: "accounted D M X k" and c: "c < length (cpus k)" "c \<in> X" and p: "current c k = Inr p"
  shows "\<exists>k'. handle_cpu_borrar c k = Inr k' \<and> accounted D M X k'"
proof -
  let ?k = "upd p count_syscall k"
  note in1 = enter_inv [OF a c(1) p]
  note seen = accounted_view_in [OF _ in1(1) c(2)]
  obtain n k1 where k1: "sock_recv_int (cpu_sock c ?k) ?k = (n, k1)" by (rule prod.exhaust)
  have v: "view c k1 = view c ?k" using view_sock(4) [OF k1, of c] .
  have p1: "p < nextProgram k1" using in1(2) view_table [OF v] by simp
  show ?thesis
  proof (cases n)
    case None
    then show ?thesis
      using seen [of "disconnect c k1"] by (simp add: handle_cpu_borrar_def enter_run [OF p] k1 v)
  next
    case (Some nFD)
    show ?thesis
    proof (cases "file_descriptor_get_by_number (programs k1 p) nFD")
      case None
      then show ?thesis
        using seen v by (simp add: handle_cpu_borrar_def enter_run [OF p] k1 Some handler_parts)
    next
      case fd: (Some fd)
      have a1: "accounted D M X k1" by (rule seen [OF v])
      then have "fd_inv k1" by (simp add: accounted_def)
      from fd_entry [OF this p1 fd] obtain G where G: "gfds k1 (fd_global fd) = Some G" by blast
      obtain resp k2 where k2: "fs_call (filesystem_delete (stack_junk (env k1)) (gfd_path G)) k1 = (resp, k2)"
        by (rule prod.exhaust)
      have eqs: "handle_cpu_borrar c k =
        (if gfd_open G > 1 then onDeleteError c p ERROR_FILE_BAD_DELETE k1
         else if resp = 1 then and_then (unlist_path (gfd_path G) k2) (\<lambda>k3. finish_reply (reply_int c 1
                (upd p (drop_fd (fd_value fd)) (k3\<lparr>gfds := (gfds k3)(fd_global fd := None)\<rparr>))))
         else onDeleteError c p ERROR_FS_OPERATION k2)"
        by (simp add: handle_cpu_borrar_def enter_run [OF p] k1 Some fd gfd_def G k2)
      have v2: "view i k2 = view i k1" for i using view_fs [OF k2] .
      have a2: "accounted D M X k2" by (rule accounted_view_any [OF v2 a1])
      have errs: "accounted D M X (snd (reply_int c 0 (interrupt p e k1)))"
        "accounted D M X (snd (reply_int c 0 (interrupt p e k2)))" for e
        by (rule accounted_view_in [OF _ a1 c(2)], simp add: v2)+
      show ?thesis
      proof (cases "gfd_open G \<le> 1 \<and> resp = 1")
        case True
        have same: "programs k2 = programs k1" using k2 by (auto simp: fs_call_def split: prod.split_asm)
        have "\<exists>k3. unlist_path (gfd_path G) k2 = Inr k3 \<and> accounted D M X
            (upd p (drop_fd (fd_value fd)) (k3\<lparr>gfds := (gfds k3)(fd_global fd := None)\<rparr>))"
          by (rule delete_accounted [OF a2]) (use p1 view_table [OF v2] fd G True same in auto)
        then obtain k3 where k3: "unlist_path (gfd_path G) k2 = Inr k3" "accounted D M X
            (upd p (drop_fd (fd_value fd)) (k3\<lparr>gfds := (gfds k3)(fd_global fd := None)\<rparr>))" by blast
        show ?thesis
          using True accounted_view_in [OF _ k3(2) c(2)] by (simp add: eqs k3(1) finish_reply_def)
      next
        case False
        then show ?thesis using errs by (simp add: eqs handler_parts)
      qed
    qed
  qed
qed

subsection \<open>Scheduling\<close>

lemma handle_new_cpu_accounted:
  assumes a: "accounted D M X k" and f: "handle_new_cpu sk k = Inr k'"
  shows "accounted D M X k'"
proof -
  let ?u = "\<lparr>cpu_socket = sk, cpu_program = None, cpu_disconnected = 0\<rparr>"
  let ?k = "k\<lparr>cpus := cpus k @ [?u]\<rparr>"
  have "places ?k = places k" by (simp add: places_def running_def List.map_filter_def)
  moreover have "refs ?k = refs k" by (simp add: refs_def fun_eq_iff)
  then have "fd_inv ?k" using a table_inv_same [of ?k k "refs k"] by (simp add: accounted_def fd_inv_def)
  ultimately have "accounted D M X ?k"
    using a by (auto simp: accounted_def nth_append less_Suc_eq)
  from assign_cpu_accounted(1) [OF _ _ this, of "length (cpus k)"] f show ?thesis
    by (simp add: handle_new_cpu_def)
qed

text \<open>A CPU whose process was taken and that then broke; its process is in no queue.\<close>

definition stranded :: "ptr multiset \<Rightarrow> nat \<Rightarrow> kernel \<Rightarrow> bool" where
  "stranded M c k \<longleftrightarrow> c < length (cpus k) \<and> cpu_program (cpus k ! c) = None
     \<and> cpu_disconnected (cpus k ! c) = 1 \<and> (\<exists>p. accounted [p] M {c} k)"


lemma view_recv_pcb [quiet]: "cpu_recv_pcb c k = Inr (b, k') \<Longrightarrow> view i k' = view i k"
  by (auto simp: cpu_recv_pcb_def Let_def elim!: and_thenE
      split: prod.split_asm option.split_asm if_split_asm dest!: view_sock [where c = i])

lemma end_burst_queue_accounted:
  assumes a: "accounted (p # D) M X k" and f: "end_burst_queue termino p k = Inr k'"
  shows "accounted D M X k'" "cpus k' = cpus k"
proof -
  have blocked: "accounted D M X (k\<lparr>blockedQ := blockedQ k @ [p]\<rparr>)"
    and ready: "accounted D M X (k\<lparr>readyQ := readyQ k @ [p]\<rparr>)"
    by (rule accounted_move [OF _ _ a]; simp add: places_def)+
  show "accounted D M X k'"
    using f blocked ready program_finish_accounted [OF a] by (auto simp: end_burst_queue_def split: if_split_asm)
  show "cpus k' = cpus k"
    using f by (auto simp: end_burst_queue_def split: if_split_asm dest: program_finish_keeps)
qed

lemma view_cpu_program: "view i k' = view i k \<Longrightarrow> c < length (cpus k) \<Longrightarrow>
    length (cpus k') = length (cpus k) \<and> cpu_program (cpus k' ! c) = cpu_program (cpus k ! c)"
proof -
  assume v: "view i k' = view i k" and c: "c < length (cpus k)"
  then have e: "map cpu_program (cpus k') = map cpu_program (cpus k)" by (simp add: view_def)
  then have "length (cpus k') = length (cpus k)" by (rule map_eq_imp_length_eq)
  with arg_cong [OF e, of "\<lambda>l. l ! c"] c show ?thesis by simp
qed

lemma handle_end_burst_accounted:
  assumes f: "handle_end_burst c k = Inr k'" and a: "accounted [] M {} k" and c: "c < length (cpus k)"
  shows "accounted [] M {c} k' \<or> stranded M c k'"
proof -
  obtain p where p: "current c k = Inr p" and f1: "and_then (cpu_recv_pcb c (set_cpu c (assign None) k))
      (\<lambda>(received, k1). case received of None \<Rightarrow> Inl Null_Deref
       | Some b \<Rightarrow> (case sock_recv_int (cpu_sock c k1) (upd p (count_burst b) k1) of
              (None, k2) \<Rightarrow> Inr (disconnect c k2)
            | (Some termino, k2) \<Rightarrow> and_then (end_burst_queue termino p k2) (assign_cpu c))) = Inr k'"
    using f unfolding handle_end_burst_def assign_eta by (rule and_thenE) (rule that, assumption+)
  let ?k0 = "set_cpu c (assign None) k"
  have "cpu_program (cpus k ! c) = Some p" using p by (auto simp: current_def split: option.split_asm)
  then have a0: "accounted [p] M {} ?k0" using accounted_assign [OF c, of None "[]" M "{}"] a by simp
  have c0: "c < length (cpus ?k0)" "cpu_program (cpus ?k0 ! c) = None"
    using c by (simp_all add: set_cpu_def assign_def)
  obtain received k1 where k1: "cpu_recv_pcb c ?k0 = Inr (received, k1)"
    "(case received of None \<Rightarrow> Inl Null_Deref
       | Some b \<Rightarrow> (case sock_recv_int (cpu_sock c k1) (upd p (count_burst b) k1) of
              (None, k2) \<Rightarrow> Inr (disconnect c k2)
            | (Some termino, k2) \<Rightarrow> and_then (end_burst_queue termino p k2) (assign_cpu c))) = Inr k'"
    using f1 by (rule and_thenE) (auto intro: that)
  then obtain b where b: "received = Some b" by (auto split: option.split_asm)
  obtain t k2 where k2: "sock_recv_int (cpu_sock c k1) (upd p (count_burst b) k1) = (t, k2)"
    by (rule prod.exhaust)
  have v: "view i k2 = view i ?k0" for i
    using view_sock(4) [OF k2, of i] view_recv_pcb [OF k1(1), of i] by simp
  have a2: "accounted [p] M {} k2" by (rule accounted_view_any [OF v a0])
  have c2: "c < length (cpus k2)" "cpu_program (cpus k2 ! c) = None"
    using view_cpu_program [OF v c0(1)] c0 by simp_all
  show ?thesis
  proof (cases t)
    case None
    then have k': "k' = disconnect c k2" using k1(2) by (simp add: b k2)
    have "accounted [p] M {c} k'" unfolding k'
      by (rule accounted_view_in [OF view_disconnect accounted_weaken [OF a2]]) auto
    then have "stranded M c k'" using c2 by (auto simp: stranded_def k' disconnect_def set_cpu_def)
    then show ?thesis ..
  next
    case (Some termino)
    then obtain k3 where k3: "end_burst_queue termino p k2 = Inr k3" "assign_cpu c k3 = Inr k'"
      using k1(2) by (auto simp: b k2 elim!: and_thenE)
    note a3 = end_burst_queue_accounted [OF a2 k3(1)]
    have "accounted [] M {} k'" by (rule assign_cpu_accounted [OF _ _ a3(1) k3(2)]) (use c2 a3(2) in simp_all)
    then show ?thesis using accounted_weaken by blast
  qed
qed

subsection \<open>One request of a CPU\<close>

lemma enter_current: "enter_syscall c f k = Inr k' \<Longrightarrow> \<exists>p. current c k = Inr p"
  by (auto simp: enter_syscall_def elim!: and_thenE)

lemma file_handlers_accounted:
  assumes "accounted D M X k" "c < length (cpus k)" "c \<in> X"
  shows "handle_cpu_abrir c k = Inr k' \<Longrightarrow> accounted D M X k'"
    "handle_cpu_borrar c k = Inr k' \<Longrightarrow> accounted D M X k'"
    "handle_cpu_cerrar c k = Inr k' \<Longrightarrow> accounted D M X k'"
proof -
  have run: "\<exists>p. current c k = Inr p" if "enter_syscall c f k = Inr k'" for f
    using that by (rule enter_current)
  show "handle_cpu_abrir c k = Inr k' \<Longrightarrow> accounted D M X k'"
    using run handle_cpu_abrir_ok [OF assms] unfolding handle_cpu_abrir_def by fastforce
  show "handle_cpu_borrar c k = Inr k' \<Longrightarrow> accounted D M X k'"
    using run handle_cpu_borrar_ok [OF assms] unfolding handle_cpu_borrar_def by fastforce
  show "handle_cpu_cerrar c k = Inr k' \<Longrightarrow> accounted D M X k'"
    using run handle_cpu_cerrar_ok [OF assms] unfolding handle_cpu_cerrar_def by fastforce
qed

lemma cpu_handler_accounted:
  assumes h: "map_of cpu_handlers package = Some handler" and f: "handler c k = Inr k'"
    and a: "accounted [] M {} k" and c: "c < length (cpus k)"
  shows "accounted [] M {c} k' \<or> stranded M c k'"
proof -
  have a': "accounted [] M {c} k" using a by (rule accounted_weaken) simp
  have quietly: "accounted [] M {c} k'" if "view c k' = view c k"
    by (rule accounted_view_in [OF that a']) simp
  have cases: "handler \<in> {handle_interruption, handle_still_burst, handle_end_burst,
      handle_cpu_get_shared_variable, handle_cpu_set_shared_variable, handle_cpu_wait, handle_cpu_signal,
      handle_cpu_alocar, handle_cpu_liberar, handle_cpu_abrir, handle_cpu_borrar, handle_cpu_cerrar,
      handle_cpu_mover_cursor, handle_cpu_escribir, handle_cpu_leer}"
    using map_of_SomeD [OF h] unfolding cpu_handlers_def by auto
  show ?thesis
  proof (cases "handler = handle_end_burst")
    case True
    with f show ?thesis using handle_end_burst_accounted [OF _ a c] by blast
  next
    case False
    with cases f have "accounted [] M {c} k'"
      by (auto intro: quietly quiet_scheduling quiet_variables quiet_wait quiet_heap quiet_cursor quiet_write
        quiet_read handle_cpu_signal_accounted [OF _ a' c]
        file_handlers_accounted [OF a' c])
    then show ?thesis ..
  qed
qed


lemma cpu_find_Some: "cpu_find sk k = Some c \<Longrightarrow> c < length (cpus k) \<and> cpu_socket (cpus k ! c) = sk"
proof -
  have "c < length us \<and> P (us ! c)" if "find_index P us = Some c" for P and us :: "t_cpu list" and c
    using that by (induction us arbitrary: c) (auto split: if_split_asm)
  then show "cpu_find sk k = Some c \<Longrightarrow> c < length (cpus k) \<and> cpu_socket (cpus k ! c) = sk"
    unfolding cpu_find_def .
qed

lemma serve_cpu_accounted:
  assumes f: "serve_cpu sk package k = Inr k'" and a: "accounted [] M {} k"
  shows "\<exists>c. accounted [] M {c} k' \<or> stranded M c k'"
proof (cases "package = str ''NewCPU''")
  case True
  with f handle_new_cpu_accounted [OF a] have "accounted [] M {} k'" by (simp add: serve_cpu_def)
  then show ?thesis using accounted_weaken by blast
next
  case new: False
  show ?thesis
  proof (cases "map_of cpu_handlers package")
    case None
    with f new a show ?thesis using accounted_weaken [OF a] by (auto simp: serve_cpu_def)
  next
    case (Some handler)
    with f new obtain c where c: "cpu_find sk k = Some c" "handler c k = Inr k'"
      by (auto simp: serve_cpu_def for_cpu_def split: option.split_asm)
    with cpu_handler_accounted [OF Some c(2) a] cpu_find_Some show ?thesis by blast
  qed
qed

lemma kill_current_accounted:
  assumes "accounted (p # D) M X k" "kill_current p k = Inr k'"
  shows "accounted D M X k'"
proof (rule program_finish_accounted)
  show "accounted (p # D) M X (upd p (set_exitCode ERROR_CPU_DISCONNECTED) (interrupt p ERROR_CPU_DISCONNECTED k))"
    by (rule accounted_view_any [OF _ assms(1)]) simp
qed (use assms(2) in \<open>simp add: kill_current_def\<close>)

text \<open>A CPU leaves the list, and with it the only mark there was.\<close>

lemma accounted_remove_cpu:
  assumes a: "accounted D M X k" and l: "cpus k = us @ u # vs"
    and clean: "\<forall>v \<in> set (us @ vs). cpu_disconnected v \<noteq> 1"
  shows "accounted (opt (cpu_program u) @ D) M {} (k\<lparr>cpus := us @ vs\<rparr>)" (is "accounted ?D M {} ?k")
proof -
  have "refs ?k = refs k" by (simp add: refs_def fun_eq_iff)
  then have "fd_inv ?k" using a table_inv_same [of ?k k "refs k"] by (simp add: accounted_def fd_inv_def)
  moreover have perm: "mset (?D @ places ?k) = mset (D @ places k)"
    by (cases "cpu_program u") (simp_all add: places_def running_def l List.map_filter_def)
  moreover have "distinct (?D @ places ?k)"
    using a mset_eq_imp_distinct_iff [OF perm] by (simp add: accounted_def)
  moreover have "\<forall>i < length (us @ vs). cpu_disconnected ((us @ vs) ! i) \<noteq> 1" using clean nth_mem by blast
  moreover have "mset (?D @ places ?k) = M" "\<forall>p \<in># M. p < nextProgram k"
    using a unfolding perm by (simp_all add: accounted_def)
  ultimately show ?thesis unfolding accounted_def by simp
qed

lemma remove_disconnected_accounted:
  assumes f: "remove_disconnected k = Inr k'" and k: "accounted [] M {c} k \<or> stranded M c k"
  shows "accounted [] M {} k'"
proof -
  have only: "i = c" if "i < length (cpus k)" "cpu_disconnected (cpus k ! i) = 1" for i
    using k that by (auto simp: stranded_def accounted_def)
  show ?thesis
  proof (cases rule: list_remove_by_condition_cases [of "cpus k" "\<lambda>u. cpu_disconnected u = 1"])
    case absent
    then have "\<not> stranded M c k" by (auto simp: stranded_def)
    with k absent f show ?thesis
      by (auto simp: remove_disconnected_def accounted_def)
  next
    case (found us u vs)
    have c: "c = length us" using only [of "length us"] found by simp
    have clean: "\<forall>v \<in> set (us @ vs). cpu_disconnected v \<noteq> 1"
    proof
      fix v assume "v \<in> set (us @ vs)"
      then consider i where "i < length us" "us ! i = v" | j where "j < length vs" "vs ! j = v"
        by (auto simp: in_set_conv_nth)
      then obtain i where "i < length (cpus k)" "cpus k ! i = v" "i \<noteq> length us"
      proof cases
        case (1 i)
        with that [of i] show ?thesis by (simp add: found(1) nth_append)
      next
        case (2 j)
        with that [of "Suc (length us + j)"] show ?thesis by (simp add: found(1) nth_append)
      qed
      then show "cpu_disconnected v \<noteq> 1" using only c by blast
    qed
    obtain p where p: "cpu_program u = Some p" and f1: "destroyDisconnectedCPU u (k\<lparr>cpus := us @ vs\<rparr>) = Inr k'"
      using f found by (auto simp: remove_disconnected_def destroyDisconnectedCPU_def split: option.split_asm)
    then have "accounted [] M {c} k" using k found(1) c by (auto simp: stranded_def)
    from accounted_remove_cpu [OF this found(1) clean]
    have a1: "accounted [p] M {} (k\<lparr>cpus := us @ vs\<rparr>)" by (simp add: p)
    obtain k1 where k1: "kill_current p (k\<lparr>cpus := us @ vs\<rparr>) = Inr k1"
      "k' = k1\<lparr>closed := insert (cpu_socket u) (closed k1)\<rparr>"
      using f1 p by (auto simp: destroyDisconnectedCPU_def elim!: and_thenE)
    have "accounted [] M {} k1" by (rule kill_current_accounted [OF a1 k1(1)])
    then show ?thesis by (rule accounted_view_any [rotated]) (simp add: k1(2))
  qed
qed


subsection \<open>Every event\<close>

lemma cpu_request_keeps:
  assumes f: "select_cpu_socket_recive_package sk package k = Inr k'" and inv: "kernel_inv k"
  shows "kernel_inv k' \<and> mset (places k') = mset (places k)"
proof -
  let ?M = "mset (places k)"
  have a: "accounted [] ?M {} k" using inv by (simp add: kernel_inv_accounted)
  obtain k1 where k1: "serve_cpu sk package k = Inr k1" "remove_disconnected k1 = Inr k'"
    using f unfolding select_cpu_socket_recive_package_def by (rule and_thenE)
  obtain c where "accounted [] ?M {c} k1 \<or> stranded ?M c k1" using serve_cpu_accounted [OF k1(1) a] by blast
  from remove_disconnected_accounted [OF k1(2) this] show ?thesis by (rule accounted_inv)
qed

lemma cpu_lost_keeps:
  assumes f: "select_cpu_socket_connection_lost sk k = Inr k'" and inv: "kernel_inv k"
  shows "kernel_inv k' \<and> mset (places k') = mset (places k)"
proof (cases rule: list_remove_by_condition_cases [of "cpus k" "\<lambda>u. cpu_socket u = sk"])
  case absent
  with f show ?thesis by (simp add: select_cpu_socket_connection_lost_def)
next
  case (found us u vs)
  let ?M = "mset (places k)"
  have a: "accounted [] ?M {} k" using inv by (simp add: kernel_inv_accounted)
  have clean: "\<forall>v \<in> set (us @ vs). cpu_disconnected v \<noteq> 1"
    using inv found(1) by (simp add: kernel_inv_def)
  have a1: "accounted (opt (cpu_program u)) ?M {} (k\<lparr>cpus := us @ vs\<rparr>)"
    using accounted_remove_cpu [OF a found(1) clean] by simp
  obtain k1 where k1: "(case cpu_program u of None \<Rightarrow> Inr (k\<lparr>cpus := us @ vs\<rparr>)
      | Some p \<Rightarrow> kill_current p (k\<lparr>cpus := us @ vs\<rparr>)) = Inr k1"
    "k' = k1\<lparr>closed := insert (cpu_socket u) (closed k1)\<rparr>"
    using f found(4) by (auto simp: select_cpu_socket_connection_lost_def elim!: and_thenE)
  have "accounted [] ?M {} k1"
    using k1(1) a1 kill_current_accounted [of _ "[]"] by (auto split: option.split_asm)
  then have "accounted [] ?M {} k'" by (rule accounted_view_any [rotated]) (simp add: k1(2))
  then show ?thesis by (rule accounted_inv)
qed

lemma view_clear [simp]: "view c (clear_console sk k) = view c k"
  by (simp add: clear_console_def)

lemma interrupted_keeps:
  assumes "and_then (program_interrup sk code ov k) (\<lambda>k1. Inr (clear_console sk k1)) = Inr k'" "kernel_inv k"
  shows "kernel_inv k' \<and> mset (places k') = mset (places k)"
proof -
  have a: "accounted [] (mset (places k)) {} k" using assms(2) by (simp add: kernel_inv_accounted)
  obtain k1 where k1: "program_interrup sk code ov k = Inr k1" "k' = clear_console sk k1"
    using assms(1) by (auto elim!: and_thenE)
  have "accounted [] (mset (places k)) {} k'"
    by (rule accounted_view_any [OF _ program_interrup_accounted [OF a k1(1)]]) (simp add: k1(2))
  then show ?thesis by (rule accounted_inv)
qed

lemma console_request_keeps:
  assumes f: "select_program_socket_recive_package sk package k = Inr k'" and inv: "kernel_inv k"
  shows "kernel_inv k' \<and> (mset (places k') = mset (places k)
    \<or> mset (places k') = add_mset (nextProgram k) (mset (places k)))"
proof -
  have a: "accounted [] (mset (places k)) {} k" using inv by (simp add: kernel_inv_accounted)
  have new: ?thesis if "program_process_new sk k = Inr k'"
    using program_process_new_accounted [OF a that] accounted_inv by blast
  with f inv interrupted_keeps [OF _ inv] show ?thesis
    by (auto simp: select_program_socket_recive_package_def split: if_split_asm)
qed

lemma kernel_step_keeps:
  assumes "kernel_step k k'" "kernel_inv k"
  shows "kernel_inv k' \<and> (mset (places k') = mset (places k)
    \<or> mset (places k') = add_mset (nextProgram k) (mset (places k)))"
  using assms(1)
proof cases
  case (cpu_package sk package)
  then show ?thesis using cpu_request_keeps assms(2) by blast
next
  case (cpu_lost sk)
  then show ?thesis using cpu_lost_keeps assms(2) by blast
next
  case (console_package sk package)
  then show ?thesis using console_request_keeps assms(2) by blast
next
  case (console_lost sk)
  then show ?thesis
    using interrupted_keeps assms(2) unfolding select_program_socket_connection_lost_def by blast
next
  case (degree v)
  have "accounted [] (mset (places k)) {} k'"
    by (rule accounted_view_any [of k']) (use assms(2) degree in \<open>auto simp: kernel_inv_accounted console_multiprogram_degree_def\<close>)
  then show ?thesis using accounted_inv by blast
next
  case (outside f s m master)
  have "accounted [] (mset (places k)) {} k'"
    by (rule accounted_view_any [of k']) (use assms(2) outside in \<open>auto simp: kernel_inv_accounted\<close>)
  then show ?thesis using accounted_inv by blast
qed

lemma kernel_reachable_inv: "kernel_reachable k \<Longrightarrow> kernel_inv k"
proof (induction rule: kernel_reachable.induct)
  case (start k)
  then show ?case
    by (simp add: kernel_started_def kernel_inv_def places_def running_def fd_inv_def table_inv_def refs_def)
next
  case (step k k')
  then show ?case using kernel_step_keeps by blast
qed

end
