(* ===== verification/Kernel_Console_Laws.thy ===== *)
theory Kernel_Console_Laws
  imports Kernel_Console Kernel_Invariant
begin

text \<open>
  What the commands of the Kernel's console show and change. \<open>kernel_turn_keeps\<close>: the only thing a
  command changes in the Kernel is the degree of multiprogramming. \<open>listing_rows\<close>, \<open>tables_shown\<close>,
  \<open>stats_shown\<close>: what is printed is what the Kernel keeps. Then the ways in which a command stops the
  Kernel.
\<close>

subsection \<open>Numbers the user types\<close>

lemma takeWhile_prefix: "\<forall>x \<in> set xs. P x \<Longrightarrow> ys = [] \<or> \<not> P (hd ys) \<Longrightarrow> takeWhile P (xs @ ys) = xs"
  by (induction xs) (auto simp: takeWhile_eq_Nil_iff)

lemma digit_bytes: "is_digit b \<Longrightarrow> b \<noteq> 43 \<and> b \<noteq> 45 \<and> \<not> is_space b"
  by (auto simp: is_digit_def is_space_def)

lemma dec_digits_hd: "dec_digits n \<noteq> [] \<and> is_digit (hd (dec_digits n))"
  using dec_digits_are_digits [of n] by (subst dec_digits.simps) (metis dec_digits.simps append_is_Nil_conv hd_in_set list.distinct(1))

lemma scan_int_sprintf:
  assumes "- (2 ^ 31) \<le> v" "v < 2 ^ 31" "r = [] \<or> \<not> is_digit (hd r)"
  shows "scan_int (sprintf_i v @ r) = (Some v, r)"
proof -
  have w: "takeWhile is_digit (dec_digits n @ r) = dec_digits n" for n
    by (rule takeWhile_prefix [OF dec_digits_are_digits assms(3)])
  have h: "dec_digits n \<noteq> []" "hd (dec_digits n @ r) \<noteq> 43 \<and> hd (dec_digits n @ r) \<noteq> 45 \<and> \<not> is_space (hd (dec_digits n @ r))" for n
    using dec_digits_hd [of n] digit_bytes [of "hd (dec_digits n)"] by (cases "dec_digits n"; simp)+
  have s: "dropWhile is_space (dec_digits n @ r) = dec_digits n @ r" for n
    using h [of n] by (metis append_is_Nil_conv dropWhile_eq_self_iff)
  have "int_of_wide (max (- (2 ^ 63)) (min (2 ^ 63 - 1) v)) = v"
    using assms(1,2) by (simp add: int_of_wide_def)
  with h s w show ?thesis
    by (cases "v < 0") (simp_all add: scan_int_def sprintf_i_def Let_def atoi_digits_dec is_space_def)
qed

subsection \<open>Nothing but the degree\<close>

lemma put_simps [simp]: "kern (put_text t d) = kern d" "holding (put_text t d) = holding d" "k_input (put_text t d) = k_input d"
    "comando (put_text t d) = comando d" "comando_size (put_text t d) = comando_size d"
  by (simp_all add: put_text_def)

lemma scan_d_same: "scan_d old d = (v, d') \<Longrightarrow> kern d' = kern d \<and> holding d' = holding d"
  by (auto simp: scan_d_def split: prod.splits option.splits)

lemma the_int_same: "the_int (scan_d old d) = Inr (v, d') \<Longrightarrow> kern d' = kern d \<and> holding d' = holding d"
  by (auto simp: the_int_def scan_d_same split: prod.splits option.splits)

lemma ask_pid_same: "ask_pid v d = Inr (r, d') \<Longrightarrow> kern d' = kern d \<and> holding d' = holding d"
proof (induction v d arbitrary: r rule: ask_pid.induct)
  case (1 v d)
  obtain there where c: "check_pid_is_incorrect v (kern d) = Inr there"
    using 1(2) by (subst (asm) ask_pid.simps) (auto simp: and_then_Inr_iff)
  show ?case
  proof (cases there)
    case True
    with 1(2) c show ?thesis by (subst (asm) ask_pid.simps) simp
  next
    case False
    let ?d1 = "put_text (str ''[SISTEMA] - Ingrese el PID del proceso: '')
                (put_text (text_line ''El PID ingresado no existe. Vuelva a intentarlo. Si desea volver al menu de comandos ingrese 0'') d)"
    let ?v1 = "case scan_d (Some v) ?d1 of (Some w, _) \<Rightarrow> w | (None, _) \<Rightarrow> v"
    let ?d2 = "snd (scan_d (Some v) ?d1)"
    have s: "kern ?d2 = kern d" "holding ?d2 = holding d"
      using scan_d_same [of "Some v" ?d1] by (metis put_simps(1,2) surjective_pairing)+
    have "r = None \<and> d' = ?d2 \<or> ask_pid ?v1 ?d2 = Inr (r, d') \<and> ?v1 \<noteq> 0 \<and> length (k_input ?d2) < length (k_input d)"
      using 1(2) c False by (subst (asm) ask_pid.simps) (simp add: Let_def split: if_splits)
    then show ?thesis
    proof
      assume a: "ask_pid ?v1 ?d2 = Inr (r, d') \<and> ?v1 \<noteq> 0 \<and> length (k_input ?d2) < length (k_input d)"
      have "kern d' = kern ?d2 \<and> holding d' = holding ?d2"
        by (rule 1(1) [OF c False refl refl refl]) (use a in auto)
      with s show ?thesis by simp
    qed (use s in simp)
  qed
qed

lemma show_text_same: "show_text f d = Inr d' \<Longrightarrow> kern d' = kern d \<and> holding d' = holding d"
  by (auto simp: show_text_def and_then_Inr_iff)

lemma stats_same: "console_get_process_stats d = Inr d' \<Longrightarrow> kern d' = kern d \<and> holding d' = holding d"
  unfolding console_get_process_stats_def
  by (auto simp: and_then_Inr_iff split: option.splits if_splits dest!: the_int_same ask_pid_same show_text_same)

lemma run_actions_kern: "run_actions acts d = Inr d' \<Longrightarrow> kern d' = kern d"
  by (induction acts d rule: run_actions.induct)
    (auto simp: and_then_Inr_iff take_mutex_of_def give_mutex_def split: if_splits)

lemma run_actions_holds: "run_actions [Lock Blocked, Lock CPUs, Lock Ready, Lock New] d = Inr d' \<Longrightarrow>
    holding d' = holding d \<union> {Blocked, CPUs, Ready, New} \<and> holding d \<inter> {Blocked, CPUs, Ready, New} = {}"
  by (auto simp: take_mutex_of_def split: if_splits)

lemma run_actions_gives: "run_actions [Unlock Blocked, Unlock CPUs, Unlock Ready, Unlock New] d = Inr d' \<Longrightarrow>
    holding d' = holding d - {Blocked, CPUs, Ready, New}"
  by (auto simp: give_mutex_def split: if_splits)

text \<open>A process that runs is never finished: the command waits for a mutex it holds.\<close>

lemma finish_same: "finish_command d = Inr d' \<Longrightarrow> kern d' = kern d \<and> holding d' = holding d"
proof -
  assume f: "finish_command d = Inr d'"
  obtain d1 where d1: "run_actions [Lock Blocked, Lock CPUs, Lock Ready, Lock New] d = Inr d1"
    using f unfolding finish_command_def by (rule and_thenE)
  obtain p d2 where d2: "the_int (scan_d None (put_text (text_line ''Ingrese el PID del proceso que desea finalizar'') d1)) = Inr (p, d2)"
    using f unfolding finish_command_def d1 by (auto simp: and_then_Inr_iff simp del: run_actions.simps)
  obtain running0 where r: "check_pid_is_running p (kern d2) = Inr running0"
    using f unfolding finish_command_def d1 and_then_simps d2 by (auto simp: and_then_Inr_iff simp del: run_actions.simps)
  obtain d3 where d3: "(if running0
               then and_then (found_program p (kern d2)) (\<lambda>pr. and_then (take_mutex_of CPUs d2) (\<lambda>d3.
                 and_then (program_interrup (p_socket pr) INTERRUPT_KERNEL_CONSOLE 1 (kern d3)) (\<lambda>k1.
                   give_mutex CPUs (d3\<lparr>kern := k1\<rparr>))))
               else Inr (put_text (text_line ''El programa no pudo ser finalizado'') d2)) = Inr d3"
    and d': "run_actions [Unlock Blocked, Unlock CPUs, Unlock Ready, Unlock New] d3 = Inr d'"
    using f unfolding finish_command_def d1 and_then_simps d2 prod.case r by (rule and_thenE)
  have h2: "kern d2 = kern d1" "holding d2 = holding d1" using the_int_same [OF d2] by simp_all
  have h1: "CPUs \<in> holding d2" using run_actions_holds [OF d1] h2(2) by simp
  have "\<not> running0"
  proof
    assume running0
    obtain pr :: t_program where "and_then (take_mutex_of CPUs d2) (\<lambda>d3. and_then (program_interrup (p_socket pr) INTERRUPT_KERNEL_CONSOLE 1 (kern d3)) (\<lambda>k1.
        give_mutex CPUs (d3\<lparr>kern := k1\<rparr>))) = Inr d3"
      using d3 unfolding if_P [OF \<open>running0\<close>] by (rule and_thenE)
    moreover have "take_mutex_of CPUs d2 = Inl Deadlock" using h1 by (simp add: take_mutex_of_def)
    ultimately show False by (simp only: and_then_simps sum.distinct)
  qed
  then have "put_text (text_line ''El programa no pudo ser finalizado'') d2 = d3" using d3 by (simp only: if_False sum.inject)
  then have "kern d3 = kern d1 \<and> holding d3 = holding d1" using h2 put_simps(1,2) by metis
  moreover have "(holding d \<union> {Blocked, CPUs, Ready, New}) - {Blocked, CPUs, Ready, New} = holding d"
    by (simp only: Un_Diff Diff_cancel Un_empty_right Diff_triv [OF conjunct2 [OF run_actions_holds [OF d1]]])
  ultimately show ?thesis
    using run_actions_kern [OF d1] run_actions_kern [OF d'] run_actions_holds [OF d1] run_actions_gives [OF d'] by simp
qed

lemma scan_word_same: "scan_word d = Inr d' \<Longrightarrow> kern d' = kern d \<and> holding d' = holding d \<and> comando_size d' = comando_size d"
  by (auto simp: scan_word_def Let_def split: if_splits)

lemma read_command_same:
  "read_command d = Inr (c, d') \<Longrightarrow> kern d' = kern d \<and> holding d' = holding d \<and> c \<in> set console_commands"
proof (induction d rule: read_command.induct)
  case (1 d)
  let ?d1 = "put_text ([10] @ text_line ''***********Comando erroneo. Reintente*********'' @ menu) d"
  obtain w where w: "comando d = Some w" using 1(2) by (subst (asm) read_command.simps) (auto split: option.splits)
  show ?case
  proof (cases "w \<in> set console_commands")
    case True
    with 1(2) w show ?thesis by (subst (asm) read_command.simps) simp
  next
    case False
    with 1(2) w obtain d2 where d2: "scan_word ?d1 = Inr d2" "length (k_input d2) < length (k_input d)" "read_command d2 = Inr (c, d')"
      by (subst (asm) read_command.simps) (auto split: sum.splits if_splits)
    from 1(1) [OF w False refl d2(1,2,3)] scan_word_same [OF d2(1)] show ?thesis by simp
  qed
qed

lemma multiprogram_sets:
  "multiprogram_command d = Inr d' \<Longrightarrow> \<exists>v. kern d' = console_multiprogram_degree v (kern d) \<and> holding d' = holding d"
  unfolding multiprogram_command_def and_then_Inr_iff by (auto dest!: the_int_same)

lemma run_command_keeps:
  assumes "run_command c d = Inr d'"
  shows "kern d' = kern d \<or> (\<exists>v. kern d' = console_multiprogram_degree v (kern d))"
  using assms unfolding run_command_def stop_command_def start_command_def
  by (auto split: if_splits dest!: stats_same show_text_same finish_same run_actions_kern multiprogram_sets)

lemma kernel_turn_keeps:
  assumes "kernel_turn d = Inr d'"
  shows "kern d' = kern d \<or> (\<exists>v. kern d' = console_multiprogram_degree v (kern d))"
proof -
  obtain d1 c d2 where "scan_word (put_text menu d) = Inr d1" "read_command d1 = Inr (c, d2)" "run_command c d2 = Inr d'"
    using assms by (auto simp: kernel_turn_def and_then_Inr_iff)
  then show ?thesis using scan_word_same [of "put_text menu d" d1] read_command_same [of d1 c d2] run_command_keeps [of c d2 d'] by simp
qed

subsection \<open>What is shown\<close>

text \<open>The rows of the listing, queue by queue, are those of the processes, each once.\<close>

lemma executing_rows: "concat (map (executing_row k) us) = concat (map (proccess_row k) (List.map_filter (\<lambda>x. x) (map cpu_program us)))"
  by (induction us) (auto simp: executing_row_def map_filter_simps split: option.splits)

lemma listing_rows:
  assumes "kernel_inv k"
  shows "console_process_list k =
     text_line ''Lista de procesos nuevos'' @ concat (map (proccess_row k) (newQ k))
     @ text_line ''Lista de procesos ejecutando'' @ concat (map (proccess_row k) (running k))
     @ text_line ''Lista de procesos listos'' @ concat (map (proccess_row k) (readyQ k))
     @ text_line ''Lista de procesos bloqueados'' @ concat (map (proccess_row k) (blockedQ k))
     @ text_line ''Lista de procesos finalizados'' @ concat (map (finished_row k) (finishedQ k))
     @ [10] @ text_line ''-----------------FIN DE LISTAR PROCESOS------------'' @ [10]"
    "distinct (newQ k @ running k @ readyQ k @ blockedQ k @ finishedQ k)"
  using assms by (simp add: console_process_list_def executing_rows running_def,
      auto simp: kernel_inv_def places_def)

definition global_row :: "t_global_fd \<Rightarrow> byte list" where
  "global_row G = str ''|Path -> '' @ quoted (gfd_path G) @ [10] @ str ''|Open -> '' @ sprintf_i (gfd_open G) @ [10]
     @ text_line ''...........................................''"

definition fd_row :: "kernel \<Rightarrow> t_fd \<Rightarrow> byte list" where
  "fd_row k fd = str ''FD -> '' @ sprintf_i (fd_value fd) @ [10] @ str ''Flags -> '' @ fd_permissions fd @ [10]
     @ str ''Path -> '' @ gfd_path (the (gfds k (fd_global fd))) @ [10]"

lemma global_rows_alive:
  "\<forall>g \<in> set gs. gfds k g \<noteq> None \<Longrightarrow> global_rows k gs = Inr (concat (map (\<lambda>g. global_row (the (gfds k g))) gs))"
  by (induction gs) (auto simp: gfd_def global_row_def)

lemma fd_rows_alive: "gfds k (fd_global fd) \<noteq> None \<Longrightarrow> fd_rows k fd = Inr (fd_row k fd)"
  by (auto simp: fd_rows_def fd_row_def gfd_def)

lemma print_lists_alive:
  "\<forall>fd \<in> set fds. gfds k (fd_global fd) \<noteq> None \<Longrightarrow>
    print_lists k fds = Inr (concat (map (\<lambda>fd. text_line ''............................................'' @ fd_row k fd) fds))"
  by (induction fds) (auto simp: fd_rows_alive)

lemma fds_alive:
  assumes "fd_inv k" "p < nextProgram k" "fd \<in> set (fileDescriptors (programs k p))"
  shows "gfds k (fd_global fd) \<noteq> None"
proof -
  have "0 < refs k (fd_global fd)"
    using uses_pos [OF assms(3)] uses_le_refs [OF assms(2), of "fd_global fd"] by simp
  then show ?thesis using assms(1) by (auto simp: fd_inv_def table_inv_def)
qed

lemma global_table_shown:
  assumes "kernel_inv k"
  shows "console_get_global_file_table k = Inr (if globalFDs k = [] then text_line ''No hay archivos abiertos''
      else [10, 10, 10] @ text_line ''--------TABLA GLOBAL DE ARCHIVOS---------''
        @ concat (map (\<lambda>g. global_row (the (gfds k g))) (globalFDs k)) @ [10, 10])"
    "g \<in> set (globalFDs k) \<Longrightarrow> gfd_open (the (gfds k g)) = int (refs k g)"
proof -
  have t: "table_inv k (refs k)" using assms by (simp add: kernel_inv_def fd_inv_def)
  have "global_rows k (globalFDs k) = Inr (concat (map (\<lambda>g. global_row (the (gfds k g))) (globalFDs k)))"
    by (rule global_rows_alive) (use table_alive [OF t] in blast)
  then show "console_get_global_file_table k = Inr (if globalFDs k = [] then text_line ''No hay archivos abiertos''
      else [10, 10, 10] @ text_line ''--------TABLA GLOBAL DE ARCHIVOS---------''
        @ concat (map (\<lambda>g. global_row (the (gfds k g))) (globalFDs k)) @ [10, 10])"
    by (simp add: console_get_global_file_table_def)
  show "gfd_open (the (gfds k g)) = int (refs k g)" if "g \<in> set (globalFDs k)"
    using t that unfolding table_inv_def by (metis option.sel)
qed

text \<open>A process that is found is in one of its places.\<close>

lemma find_in_cpus_running: "find_in_cpus k n us = Inr (Some q) \<Longrightarrow> q \<in> set (List.map_filter (\<lambda>x. x) (map cpu_program us)) \<and> has_pid k n q"
  by (induction us) (auto simp: map_filter_simps split: option.splits if_splits)

lemma get_program_places:
  assumes "get_program n k = Inr (Some q)"
  shows "q \<in> set (places k)" "has_pid k n q" "check_pid_is_incorrect n k = Inr True"
proof -
  have f: "list_find (has_pid k n) l = Some q \<Longrightarrow> q \<in> set l \<and> has_pid k n q" for l
    by (auto simp: find_Some_iff)
  show "q \<in> set (places k)" "has_pid k n q"
    using assms unfolding get_program_def places_def running_def
    by (auto split: option.splits dest!: f find_in_cpus_running)
  show "check_pid_is_incorrect n k = Inr True"
    using assms unfolding get_program_def check_pid_is_incorrect_def
    by (auto split: option.splits dest!: f simp: and_then_def)
qed

definition process_table :: "int \<Rightarrow> kernel \<Rightarrow> ptr \<Rightarrow> byte list" where
  "process_table p k q =
     (let fds = fileDescriptors (programs k q); end_line = text_line ''------------------------------------------------'' @ [10];
          title = str ''------Tabla de archivos del proceso '' @ sprintf_i p @ text_line ''----------'' in
      if fds = [] then str ''El programa con PID ['' @ sprintf_i (pid (pcb (programs k q))) @ text_line ''] no ha abierto ningun archivo''
      else if length fds = 1 then [10, 10, 10] @ title @ concat (map (fd_row k) fds) @ end_line
      else [10, 10] @ title @ concat (map (\<lambda>fd. text_line ''............................................'' @ fd_row k fd) fds) @ end_line)"

lemma process_table_shown:
  assumes "kernel_inv k" "get_program p k = Inr (Some q)"
  shows "print_file_process_table p k = Inr (process_table p k q)"
proof -
  have q: "q < nextProgram k" using get_program_places(1) [OF assms(2)] assms(1) by (auto simp: kernel_inv_def)
  have alive: "\<forall>fd \<in> set (fileDescriptors (programs k q)). gfds k (fd_global fd) \<noteq> None"
    using fds_alive [OF _ q] assms(1) by (auto simp: kernel_inv_def)
  show ?thesis
  proof (cases "fileDescriptors (programs k q)")
    case Nil
    then show ?thesis by (simp add: print_file_process_table_def assms(2) process_table_def Let_def)
  next
    case (Cons fd fds)
    with alive have one: "fd_rows k fd = Inr (fd_row k fd)" using fd_rows_alive by simp
    show ?thesis
      using print_lists_alive [OF alive] Cons one
      by (simp add: print_file_process_table_def assms(2) process_table_def Let_def del: print_lists.simps)
  qed
qed

subsection \<open>The statistics of a process\<close>

definition stats_text :: "int \<Rightarrow> int \<Rightarrow> kernel \<Rightarrow> ptr \<Rightarrow> byte list" where
  "stats_text opcion n k q =
     (let program = programs k q; s = stats program; i = sprintf_i (pid (pcb program)); h = str ''Proceso con PID ['' @ i @ str ''] '' in
      if opcion = 1 then str ''El programa con PID ['' @ i @ str ''] ha ejecutado ['' @ sprintf_i (rafagas s) @ text_line '' rafagas]''
      else if opcion = 2 then str ''El programa con PID ['' @ i @ str ''] ha ejecutado ['' @ sprintf_i (syscallPrivilegiadas s) @ text_line '' syscalls]''
      else if opcion = 3 then process_table n k q
      else h @ str ''aloco '' @ sprintf_i (bytesAlloc s) @ text_line '' bytes del heap''
          @ h @ str ''libero '' @ sprintf_i (bytesFree s) @ text_line '' bytes del heap''
          @ h @ str ''hizo '' @ sprintf_i (cantCallAlloc s) @ str '' llamadas '' @ quoted (str ''alocar'') @ [10]
          @ h @ str ''hizo '' @ sprintf_i (cantCallFree s) @ str '' llamadas '' @ quoted (str ''liberar'') @ [10])"

lemma scan_int_newline: "scan_int (10 # bs) = scan_int bs"
  by (simp add: scan_int_def is_space_def)

lemma typed_number:
  assumes "- (2 ^ 31) \<le> v" "v < 2 ^ 31"
  shows "k_input d = sprintf_i v @ 10 # r \<Longrightarrow> the_int (scan_d old d) = Inr (v, d\<lparr>k_input := 10 # r\<rparr>)"
    "k_input d = 10 # sprintf_i v @ 10 # r \<Longrightarrow> the_int (scan_d old d) = Inr (v, d\<lparr>k_input := 10 # r\<rparr>)"
proof -
  have "scan_int (sprintf_i v @ 10 # r) = (Some v, 10 # r)"
    by (rule scan_int_sprintf [OF assms]) (simp add: is_digit_def)
  then show "k_input d = sprintf_i v @ 10 # r \<Longrightarrow> the_int (scan_d old d) = Inr (v, d\<lparr>k_input := 10 # r\<rparr>)"
    "k_input d = 10 # sprintf_i v @ 10 # r \<Longrightarrow> the_int (scan_d old d) = Inr (v, d\<lparr>k_input := 10 # r\<rparr>)"
    by (simp_all add: scan_d_def the_int_def scan_int_newline)
qed

lemma ask_pid_there: "check_pid_is_incorrect v (kern d) = Inr True \<Longrightarrow> ask_pid v d = Inr (Some v, d)"
  by (subst ask_pid.simps) simp

lemma stats_shown:
  assumes "kernel_inv (kern d)" "get_program n (kern d) = Inr (Some q)" "- (2 ^ 31) \<le> n" "n < 2 ^ 31" "opcion \<in> {1, 2, 3, 4}"
    "k_input d = sprintf_i n @ 10 # sprintf_i opcion @ 10 # r"
  shows "console_get_process_stats d = Inr (d\<lparr>k_input := 10 # r, k_text := k_text d
      @ str ''[SISTEMA] - Ingrese el PID del proceso: '' @ str ''Has ingresado el PID: '' @ sprintf_i n @ [10] @ stats_options
      @ stats_text opcion n (kern d) q\<rparr>)"
proof -
  let ?d0 = "put_text (str ''[SISTEMA] - Ingrese el PID del proceso: '') d"
  let ?d1 = "?d0\<lparr>k_input := 10 # sprintf_i opcion @ 10 # r\<rparr>"
  let ?d2 = "put_text (str ''Has ingresado el PID: '' @ sprintf_i n @ [10] @ stats_options) ?d1"
  have 1: "the_int (scan_d None ?d0) = Inr (n, ?d1)"
    by (rule typed_number(1) [OF assms(3,4)]) (simp add: assms(6))
  have k: "kern ?d1 = kern d" "kern ?d2 = kern d" by (simp_all add: put_text_def)
  have 2: "ask_pid n ?d1 = Inr (Some n, ?d1)"
    by (rule ask_pid_there) (simp only: k get_program_places(3) [OF assms(2)])
  have o: "- (2 ^ 31) \<le> opcion" "opcion < 2 ^ 31" using assms(5) by auto
  have 3: "the_int (scan_d None ?d2) = Inr (opcion, ?d2\<lparr>k_input := 10 # r\<rparr>)"
    by (rule typed_number(2) [OF o]) (simp add: put_text_def)
  have found: "found_program n (kern d) = Inr (programs (kern d) q)" by (simp add: found_program_def assms(2))
  have t: "print_rafagas_del_proceso n (kern d) = Inr (stats_text 1 n (kern d) q)"
    "print_syscalls n (kern d) = Inr (stats_text 2 n (kern d) q)"
    "print_file_process_table n (kern d) = Inr (stats_text 3 n (kern d) q)"
    "print_head_pages_used n (kern d) = Inr (stats_text 4 n (kern d) q)"
    using process_table_shown [OF assms(1,2)]
    by (simp_all add: print_rafagas_del_proceso_def print_syscalls_def print_head_pages_used_def found stats_text_def Let_def)
  have "console_get_process_stats d = Inr (put_text (stats_text opcion n (kern d) q) (?d2\<lparr>k_input := 10 # r\<rparr>))"
    unfolding console_get_process_stats_def 1 and_then_simps prod.case 2 option.case 3
    using assms(5) by (auto simp: show_text_def t k)
  also have "\<dots> = Inr (d\<lparr>k_input := 10 # r, k_text := k_text d
      @ str ''[SISTEMA] - Ingrese el PID del proceso: '' @ str ''Has ingresado el PID: '' @ sprintf_i n @ [10] @ stats_options
      @ stats_text opcion n (kern d) q\<rparr>)"
    by (simp add: put_text_def)
  finally show ?thesis .
qed

text \<open>A command that is typed is run.\<close>

lemma word_taken: "\<forall>b \<in> set w. \<not> is_space b \<Longrightarrow> w \<noteq> [] \<Longrightarrow>
    dropWhile is_space (w @ 10 # r) = w @ 10 # r \<and> takeWhile (\<lambda>b. \<not> is_space b) (w @ 10 # r) = w"
  by (cases w) (auto simp: takeWhile_append2 is_space_def)

lemma commands_are_words: "c \<in> set console_commands \<Longrightarrow> (\<forall>b \<in> set c. \<not> is_space b) \<and> length c = 1 \<and> cstr c = c"
  by (auto simp: console_commands_def str_def is_space_def cstr_def)

lemma kernel_turn_runs:
  assumes "c \<in> set console_commands" "2 \<le> comando_size d" "k_input d = c @ 10 # r"
  shows "kernel_turn d = run_command c ((put_text menu d)\<lparr>k_input := 10 # r, comando := Some c\<rparr>)"
proof -
  have c: "\<forall>b \<in> set c. \<not> is_space b" "length c = 1" "cstr c = c" using commands_are_words [OF assms(1)] by simp_all
  then have "c \<noteq> []" by auto
  then have "scan_word (put_text menu d) = Inr ((put_text menu d)\<lparr>k_input := 10 # r, comando := Some c\<rparr>)"
    using word_taken [OF c(1)] c(2,3) assms(2,3) by (simp add: scan_word_def Let_def)
  then show ?thesis
    by (simp add: kernel_turn_def, subst read_command.simps) (simp add: assms(1))
qed

subsection \<open>What stops the Kernel\<close>

text \<open>The buffer of the commands has one byte, and a word takes at least two.\<close>

lemma any_word_overflows:
  assumes "comando_size d = 1" "\<exists>b \<in> set (k_input d). \<not> is_space b"
  shows "kernel_turn d = Inl Buffer_Overflow"
proof -
  obtain b r where b: "dropWhile is_space (k_input d) = b # r" "\<not> is_space b"
    using assms(2) by (metis dropWhile_eq_Nil_conv hd_dropWhile list.collapse)
  then have "scan_word (put_text menu d) = Inl Buffer_Overflow"
    using assms(1) by (simp add: scan_word_def Let_def)
  then show ?thesis by (simp add: kernel_turn_def)
qed

lemma sprintf_no_space: "\<exists>b \<in> set (sprintf_i v). \<not> is_space b"
proof -
  have "hd (dec_digits n) \<in> set (dec_digits n)" "\<not> is_space (hd (dec_digits n))" for n
    using dec_digits_hd [of n] digit_bytes by (auto simp: hd_in_set)
  then show ?thesis by (cases "v < 0") (auto simp: sprintf_i_def is_space_def)
qed

text \<open>An unknown PID is looked for in the CPUs, and an idle one has no process.\<close>

lemma idle_cpu_stops:
  assumes "cpus k = u # us" "cpu_program u = None" "\<forall>q \<in> set (newQ k @ readyQ k @ blockedQ k @ finishedQ k). \<not> has_pid k n q"
  shows "check_pid_is_incorrect n k = Inl Null_Deref" "check_pid_is_running n k = Inl Null_Deref" "get_program n k = Inl Null_Deref"
proof -
  have none: "list_find (has_pid k n) (blockedQ k) = None" "list_find (has_pid k n) (finishedQ k) = None"
    "list_find (has_pid k n) (readyQ k) = None"
    using assms(3) by (auto simp: find_None_iff)
  show "check_pid_is_incorrect n k = Inl Null_Deref" "check_pid_is_running n k = Inl Null_Deref" "get_program n k = Inl Null_Deref"
    using assms by (simp_all add: check_pid_is_incorrect_def check_pid_is_running_def get_program_def none and_then_def)
qed

text \<open>A new process is known to the check and to no search.\<close>

lemma new_process_stops:
  assumes "q \<in> set (newQ k)" "has_pid k n q" "\<forall>p \<in> set (readyQ k @ blockedQ k @ running k @ finishedQ k). \<not> has_pid k n p"
  shows "check_pid_is_incorrect n k = Inr True" "found_program n k = Inl Null_Deref"
proof -
  have none: "list_find (has_pid k n) (blockedQ k) = None" "list_find (has_pid k n) (finishedQ k) = None"
    "list_find (has_pid k n) (readyQ k) = None"
    using assms(3) by (auto simp: find_None_iff)
  have c: "find_in_cpus k n us = Inl Null_Deref \<or> find_in_cpus k n us = Inr None"
    if "set (List.map_filter (\<lambda>x. x) (map cpu_program us)) \<subseteq> set (running k)" for us
    using that assms(3) by (induction us) (auto simp: map_filter_simps split: option.splits)
  show "check_pid_is_incorrect n k = Inr True" using assms(1,2) by (auto simp: check_pid_is_incorrect_def)
  have "get_program n k = find_in_cpus k n (cpus k)" by (simp add: get_program_def none)
  then show "found_program n k = Inl Null_Deref"
    using c [of "cpus k"] by (auto simp: found_program_def running_def)
qed

text \<open>Stopping and starting the planning are inverse; twice in a row, either stops the Kernel.\<close>

lemma stop_and_start:
  assumes "holding d = {}"
  shows "stop_command d = Inr (d\<lparr>holding := {Blocked, CPUs, New, Ready}\<rparr>)"
    "stop_command (d\<lparr>holding := {Blocked, CPUs, New, Ready}\<rparr>) = Inl Deadlock"
    "start_command (d\<lparr>holding := {Blocked, CPUs, New, Ready}\<rparr>) = Inr d"
    "start_command d = Inl Bad_Unlock"
    "finish_command (d\<lparr>holding := {Blocked, CPUs, New, Ready}\<rparr>) = Inl Deadlock"
proof -
  have "{Ready, New, CPUs, Blocked} = {Blocked, CPUs, New, Ready}" by blast
  then show "stop_command d = Inr (d\<lparr>holding := {Blocked, CPUs, New, Ready}\<rparr>)"
    by (simp add: stop_command_def console_stop_planning_def take_mutex_of_def assms)
  show "stop_command (d\<lparr>holding := {Blocked, CPUs, New, Ready}\<rparr>) = Inl Deadlock"
    by (simp add: stop_command_def console_stop_planning_def take_mutex_of_def)
  have "{Blocked, CPUs, New, Ready} - {Blocked} - {CPUs} - {New} - {Ready} = {}" by blast
  then show "start_command (d\<lparr>holding := {Blocked, CPUs, New, Ready}\<rparr>) = Inr d"
    using assms by (simp add: start_command_def console_start_planning_def give_mutex_def)
  show "start_command d = Inl Bad_Unlock"
    by (simp add: start_command_def console_start_planning_def give_mutex_def assms)
  show "finish_command (d\<lparr>holding := {Blocked, CPUs, New, Ready}\<rparr>) = Inl Deadlock"
    by (simp add: finish_command_def take_mutex_of_def)
qed

text \<open>A process that runs, or waits, and is found: the command that should finish it stops the Kernel.\<close>

lemma finish_deadlocks:
  assumes "holding d = {}" "- (2 ^ 31) \<le> n" "n < 2 ^ 31" "k_input d = sprintf_i n @ 10 # r"
    "check_pid_is_running n (kern d) = Inr True" "get_program n (kern d) = Inr (Some q)"
  shows "finish_command d = Inl Deadlock"
proof -
  obtain d1 where d1: "run_actions [Lock Blocked, Lock CPUs, Lock Ready, Lock New] d = Inr d1" "kern d1 = kern d" "k_input d1 = k_input d"
    using assms(1) by (simp add: take_mutex_of_def)
  let ?d1 = "put_text (text_line ''Ingrese el PID del proceso que desea finalizar'') d1"
  have 2: "the_int (scan_d None ?d1) = Inr (n, ?d1\<lparr>k_input := 10 # r\<rparr>)"
    by (rule typed_number(1) [OF assms(2,3)]) (simp add: d1 assms(4))
  have k: "kern (?d1\<lparr>k_input := 10 # r\<rparr>) = kern d" using d1(2) by simp
  have l: "take_mutex_of CPUs (?d1\<lparr>k_input := 10 # r\<rparr>) = Inl Deadlock"
    using run_actions_holds [OF d1(1)] by (simp add: take_mutex_of_def)
  have f: "found_program n (kern d) = Inr (programs (kern d) q)" by (simp add: found_program_def assms(6))
  show ?thesis
    unfolding finish_command_def d1(1) and_then_simps 2 prod.case k assms(5) f l if_True ..
qed

end
