(* ===== verification/Kernel_Laws.thy ===== *)
theory Kernel_Laws
  imports Kernel_Invariant "HOL-Library.Sublist"
begin

text \<open>
  What the operations of the Kernel do, beyond keeping its invariant: admission by the long-term
  planner, the quantum of round robin, semaphores, the end of a process, interruptions, and the
  places where the code stops the Kernel.
\<close>

subsection \<open>Admission\<close>

lemma planificador_loop_spec:
  "planificador_loop ps n k = Inr k' \<Longrightarrow>
     \<exists>pre adm. ps = pre @ newQ k' \<and> subseq adm pre \<and> readyQ k' = readyQ k @ adm
       \<and> n + int (length adm) \<le> max n (grado_multiprog (config k))
       \<and> (newQ k' = [] \<or> grado_multiprog (config k) \<le> n + int (length adm))"
proof (induction ps arbitrary: n k)
  case (Cons p ps)
  show ?case
  proof (cases "n < grado_multiprog (config k)")
    case True
    with Cons.prems obtain b k1 where k1: "admit p (k\<lparr>newQ := ps\<rparr>) = Inr (b, k1)"
      "planificador_loop ps (if b then n + 1 else n) k1 = Inr k'"
      by (auto elim!: and_thenE split: if_split_asm)
    note keeps = admit_keeps [OF k1(1)]
    from Cons.IH [OF k1(2)] obtain pre adm where ih: "ps = pre @ newQ k'" "subseq adm pre"
      "readyQ k' = readyQ k1 @ adm"
      "(if b then n + 1 else n) + int (length adm) \<le> max (if b then n + 1 else n) (grado_multiprog (config k))"
      "newQ k' = [] \<or> grado_multiprog (config k) \<le> (if b then n + 1 else n) + int (length adm)"
      by (auto simp: keeps)
    let ?adm = "if b then p # adm else adm"
    have "p # ps = (p # pre) @ newQ k'" "subseq ?adm (p # pre)" "readyQ k' = readyQ k @ ?adm"
      using ih(1-3) keeps(5) by auto
    moreover have "n + int (length ?adm) \<le> max n (grado_multiprog (config k))"
      "newQ k' = [] \<or> grado_multiprog (config k) \<le> n + int (length ?adm)"
      using ih(4,5) True by (auto split: if_split_asm)
    ultimately show ?thesis by blast
  next
    case False
    with Cons.prems have "k' = k\<lparr>newQ := p # ps\<rparr>" by simp
    with False show ?thesis by (intro exI [of _ "[]"]) simp
  qed
qed auto

text \<open>
  The processes are admitted in the order of their arrival and only while the degree of
  multiprogramming allows; those Memory has no room for end instead of entering.
\<close>

lemma planificador_spec:
  assumes f: "planificador_largo_plazo k = Inr k'"
  shows "\<exists>pre adm. newQ k = pre @ newQ k' \<and> subseq adm pre \<and> readyQ k' = readyQ k @ adm
    \<and> cantCorriendo k' = cantCorriendo k + int (length adm)
    \<and> cantCorriendo k' \<le> max (cantCorriendo k) (grado_multiprog (config k))
    \<and> (newQ k' = [] \<or> grado_multiprog (config k) \<le> cantCorriendo k')"
proof (cases "newQ k = []")
  case False
  with f have l: "planificador_loop (newQ k) (cantCorriendo k) k = Inr k'"
    by (simp add: planificador_largo_plazo_def)
  have "cpus k' = cpus k" using planificador_loop_keeps [OF l] by simp
  then have c: "readyQ k' = readyQ k @ adm \<Longrightarrow> cantCorriendo k' = cantCorriendo k + int (length adm)" for adm
    by (simp add: cantCorriendo_def)
  from planificador_loop_spec [OF l] c show ?thesis by metis
qed (use f in \<open>auto simp: planificador_largo_plazo_def\<close>)

subsection \<open>Dispatch and quantum\<close>

lemma planificar_spec:
  assumes "planificar k = Inr (r, k')"
  obtains k1 where "planificador_largo_plazo k = Inr k1" "readyQ k1 = opt r @ readyQ k'"
    "\<And>p. r = Some p \<Longrightarrow> quantum (programs k' p) = assigned_quantum (config k) (quantum (programs k1 p))"
proof -
  obtain k1 where k1: "planificador_largo_plazo k = Inr k1" using assms by (auto simp: planificar_def elim!: and_thenE)
  have "config k1 = config k"
    using k1 planificador_loop_keeps by (auto simp: planificador_largo_plazo_def split: if_split_asm)
  with assms show thesis
    by (intro that [OF k1]) (auto simp: planificar_def k1 split: list.split_asm)
qed

text \<open>The answers to the next \<open>n\<close> questions of a CPU whether it may go on.\<close>

fun burst_answers :: "nat \<Rightarrow> t_program \<Rightarrow> int list" where
  "burst_answers 0 program = []"
| "burst_answers (Suc n) program =
     (case burst program of (b, q) \<Rightarrow> b # burst_answers n (set_quantum q program))"

lemma waiting_set_quantum [simp]: "waiting (set_quantum q program) = waiting program"
  "quantum (set_quantum q program) = q" "set_quantum a (set_quantum q program) = set_quantum a program"
  by (simp_all add: set_quantum_def)

lemma burst_fifo: "waiting program \<noteq> 1 \<Longrightarrow> quantum program = -1 \<Longrightarrow> burst_answers n program = replicate n 1"
  by (induction n arbitrary: program) (simp_all add: burst_def)

lemma burst_round_robin:
  "waiting program \<noteq> 1 \<Longrightarrow> quantum program = int n \<Longrightarrow> 0 < n \<Longrightarrow>
     burst_answers n program = replicate (n - 1) 1 @ [0]"
proof (induction n arbitrary: program)
  case (Suc n)
  show ?case
  proof (cases "n = 0")
    case False
    then have "burst_answers n (set_quantum (int n) program) = replicate (n - 1) 1 @ [0]"
      using Suc by simp
    moreover have "burst program = (1, int n)" using Suc.prems False by (simp add: burst_def)
    ultimately show ?thesis using False by (cases n) (simp_all del: burst_answers.simps add: burst_answers.simps(2) [of "Suc _"])
  qed (use Suc.prems in \<open>simp add: burst_def\<close>)
qed simp

lemma burst_waiting: "waiting program = 1 \<Longrightarrow> burst program = (0, 0)"
  by (simp add: burst_def)

subsection \<open>A request whose connection works\<close>

text \<open>\<open>rest\<close> is left to be received on a connection, and \<open>out\<close> was sent.\<close>

definition exchange :: "int \<Rightarrow> byte list \<Rightarrow> byte list \<Rightarrow> kernel \<Rightarrow> kernel" where
  "exchange fd left out k = k\<lparr>socks := (socks k)(fd := said ((socks k fd)\<lparr>rx := left\<rparr>) out)\<rparr>"

lemma exchange_simps [simp]:
  "exchange fd b y (exchange fd a x k) = exchange fd b (x @ y) k"
  "upd p f (exchange fd a x k) = exchange fd a x (upd p f k)"
  "upd_sem name v (exchange fd a x k) = exchange fd a x (upd_sem name v k)"
  "upd_var name g (exchange fd a x k) = exchange fd a x (upd_var name g k)"
  "cpus (exchange fd a x k) = cpus k" "config (exchange fd a x k) = config k"
  "programs (exchange fd a x k) = programs k" "readyQ (exchange fd a x k) = readyQ k"
  "blockedQ (exchange fd a x k) = blockedQ k" "newQ (exchange fd a x k) = newQ k"
  "rx (socks (exchange fd a x k) fd) = a" "sjunk (socks (exchange fd a x k) fd) = sjunk (socks k fd)"
  "room (socks (exchange fd a x k) fd) = room (socks k fd) - length x"
  by (simp_all add: exchange_def upd_def upd_sem_def upd_var_def said_def)

lemma upd_config_simps [simp]:
  "cpus (upd_sem name v k) = cpus k" "socks (upd_sem name v k) = socks k"
  "programs (upd_sem name v k) = programs k" "upd p f (upd_sem name v k) = upd_sem name v (upd p f k)"
  "cpus (upd_var name g k) = cpus k" "socks (upd_var name g k) = socks k"
  "readyQ (upd_sem name v k) = readyQ k" "blockedQ (upd_sem name v k) = blockedQ k"
  "newQ (upd_sem name v k) = newQ k"
  by (simp_all add: upd_sem_def upd_var_def upd_def)

lemma cpu_sock_simps [simp]:
  "cpu_sock c (upd p f k) = cpu_sock c k" "cpu_sock c (exchange fd a x k) = cpu_sock c k"
  "cpu_sock c (upd_sem name v k) = cpu_sock c k" "cpu_sock c (upd_var name g k) = cpu_sock c k"
  by (simp_all add: cpu_sock_def)

lemma sock_recv_string_ok:
  assumes "rx (socks k fd) = blob_frame j (name @ [0]) @ left" "0 \<notin> set name" "length name + 1 < 2 ^ 31"
  shows "sock_recv_string fd k = (Some name, exchange fd left [] k)"
  using assms socket_recv_ok [of "name @ [0]" "socks k fd" j left]
  by (simp add: sock_recv_string_def sock_recv_def exchange_def said_def)

lemma sock_recv_int_ok:
  assumes "rx (socks k fd) = int_header j v @ left" "header_fits v"
  shows "sock_recv_int fd k = (Some v, exchange fd left [] k)"
  using socket_recv_int_ok [OF assms(2,1)] by (simp add: sock_recv_int_def exchange_def said_def)

lemma reply_string_ok:
  assumes "12 + length t \<le> room (socks k (cpu_sock c k))"
  shows "reply_string c t k = (True, exchange (cpu_sock c k) (rx (socks k (cpu_sock c k)))
    (blob_frame (sjunk (socks k (cpu_sock c k))) (str t @ [0])) k)"
  using assms socket_send_string_ok [of "str t" "socks k (cpu_sock c k)"]
  by (simp add: reply_string_def sock_send_string_def exchange_def said_def cpu_sock_def str_def)

lemma reply_int_ok:
  assumes "11 \<le> room (socks k (cpu_sock c k))"
  shows "reply_int c v k = (True, exchange (cpu_sock c k) (rx (socks k (cpu_sock c k)))
    (int_header (sjunk (socks k (cpu_sock c k))) v) k)"
  using assms socket_send_int_ok [of "socks k (cpu_sock c k)" v]
  by (simp add: reply_int_def sock_send_int_def exchange_def said_def cpu_sock_def)


subsection \<open>Semaphores\<close>

text \<open>The state after a request named \<open>name\<close> was received and \<open>out\<close> answered.\<close>

definition request_ok :: "nat \<Rightarrow> kernel \<Rightarrow> cstring \<Rightarrow> byte list \<Rightarrow> bool" where
  "request_ok c k name left \<longleftrightarrow>
     (\<exists>j. rx (socks k (cpu_sock c k)) = blob_frame j (name @ [0]) @ left) \<and> 0 \<notin> set name
     \<and> length name + 1 < 2 ^ 31 \<and> 30 \<le> room (socks k (cpu_sock c k))"

definition success :: "nat \<Rightarrow> kernel \<Rightarrow> byte list" where
  "success c k = blob_frame (sjunk (socks k (cpu_sock c k))) (str ''Success'' @ [0])"

lemma handle_cpu_wait_spec:
  assumes p: "current c k = Inr p" and ok: "request_ok c k name left"
    and s: "list_find (named_sem name) (semaforos (config k)) = Some s"
  shows "handle_cpu_wait c k = Inr (exchange (cpu_sock c k) left
      (success c k @ int_header (sjunk (socks k (cpu_sock c k))) (if 0 < sem_value s then 1 else 0))
      (upd_sem name (sem_value s - 1)
        (upd p (\<lambda>q. if 0 < sem_value s then count_syscall q else wait_on name (count_syscall q)) k)))"
proof -
  let ?k = "upd p count_syscall k" and ?fd = "cpu_sock c k"
  obtain j where rx: "rx (socks ?k ?fd) = blob_frame j (name @ [0]) @ left" using ok by (auto simp: request_ok_def)
  have room: "30 \<le> room (socks k ?fd)" using ok by (simp add: request_ok_def)
  have recv: "sock_recv_string ?fd ?k = (Some name, exchange ?fd left [] ?k)"
    by (rule sock_recv_string_ok [OF rx]) (use ok in \<open>simp_all add: request_ok_def\<close>)
  let ?k2 = "exchange ?fd left (success c k) ?k"
  have succ: "reply_string c ''Success'' (exchange ?fd left [] ?k) = (True, ?k2)"
    using reply_string_ok [of "''Success''" "exchange ?fd left [] ?k" c] room by (simp add: success_def)
  have len: "length (success c k) = 19" by (simp add: success_def str_def)
  have rep: "reply_int c v (exchange ?fd left (success c k) K)
      = (True, exchange ?fd left (success c k @ int_header (sjunk (socks k ?fd)) v) K)"
    if "cpu_sock c K = ?fd" "socks K = socks k" for v K
    using reply_int_ok [of "exchange ?fd left (success c k) K" c v] that room len by simp
  have twice: "upd p (wait_on name) ?k = upd p (\<lambda>q. wait_on name (count_syscall q)) k"
    by (simp add: upd_def)
  show ?thesis
    by (auto simp: handle_cpu_wait_def enter_run [OF p] recv s succ rep finish_reply_def Let_def twice)
qed

lemma find_waiter:
  assumes "blockedQ k = us @ w # vs" "waits_for k name w" "\<forall>u \<in> set us. \<not> waits_for k name u"
  shows "program_unblock name k
    = cpu_inactive_planner (upd w wake (k\<lparr>blockedQ := us @ vs, readyQ := readyQ k @ [w]\<rparr>))"
  using assms by (simp add: program_unblock_def list_remove_by_condition_split)

lemma all_busy: "\<forall>u \<in> set (cpus k). cpu_program u \<noteq> None \<Longrightarrow> cpu_inactive_planner k = Inr k"
proof -
  assume busy: "\<forall>u \<in> set (cpus k). cpu_program u \<noteq> None"
  have idle: "inactive_cpu_planner c k = Inr k" if "c < length (cpus k)" for c
    using busy nth_mem [OF that] by (auto simp: inactive_cpu_planner_def)
  have "\<forall>c \<in> set cs. c < length (cpus k) \<Longrightarrow> iterate_cpus inactive_cpu_planner cs k = Inr k" for cs
    by (induction cs) (auto simp: idle)
  then show ?thesis by (simp add: cpu_inactive_planner_def)
qed

lemma handle_cpu_signal_spec:
  assumes p: "current c k = Inr p" and ok: "request_ok c k name left"
    and s: "list_find (named_sem name) (semaforos (config k)) = Some s"
  shows "handle_cpu_signal c k = program_unblock name (exchange (cpu_sock c k) left (success c k)
      (upd_sem name (sem_value s + 1) (upd p count_syscall k)))"
proof -
  let ?k = "upd p count_syscall k" and ?fd = "cpu_sock c k"
  obtain j where rx: "rx (socks ?k ?fd) = blob_frame j (name @ [0]) @ left" using ok by (auto simp: request_ok_def)
  have room: "30 \<le> room (socks k ?fd)" using ok by (simp add: request_ok_def)
  have recv: "sock_recv_string ?fd ?k = (Some name, exchange ?fd left [] ?k)"
    by (rule sock_recv_string_ok [OF rx]) (use ok in \<open>simp_all add: request_ok_def\<close>)
  have succ: "reply_string c ''Success'' (exchange ?fd left [] ?k) = (True, exchange ?fd left (success c k) ?k)"
    using reply_string_ok [of "''Success''" "exchange ?fd left [] ?k" c] room by (simp add: success_def)
  show ?thesis
    by (simp add: handle_cpu_signal_def enter_run [OF p] recv s succ)
qed

text \<open>A signal wakes the waiter that has been blocked longest.\<close>

lemma signal_wakes_first:
  assumes p: "current c k = Inr p" and ok: "request_ok c k name left"
    and s: "list_find (named_sem name) (semaforos (config k)) = Some s"
    and busy: "\<forall>u \<in> set (cpus k). cpu_program u \<noteq> None"
    and q: "blockedQ k = us @ w # vs" "waits_for k name w" "\<forall>u \<in> set us. \<not> waits_for k name u"
  shows "\<exists>k'. handle_cpu_signal c k = Inr k' \<and> blockedQ k' = us @ vs \<and> readyQ k' = readyQ k @ [w]
    \<and> waiting (programs k' w) = 0 \<and> config k' = config (upd_sem name (sem_value s + 1) k)"
proof -
  let ?k = "exchange (cpu_sock c k) left (success c k) (upd_sem name (sem_value s + 1) (upd p count_syscall k))"
  have "waits_for ?k name u \<longleftrightarrow> waits_for k name u" for u
    by (simp add: waits_for_def count_syscall_def)
  then have "program_unblock name ?k
      = cpu_inactive_planner (upd w wake (?k\<lparr>blockedQ := us @ vs, readyQ := readyQ ?k @ [w]\<rparr>))"
    by (intro find_waiter) (use q in simp_all)
  also have "\<dots> = Inr (upd w wake (?k\<lparr>blockedQ := us @ vs, readyQ := readyQ ?k @ [w]\<rparr>))"
    by (rule all_busy) (use busy in simp)
  finally show ?thesis
    using handle_cpu_signal_spec [OF p ok s] by (simp add: wake_def upd_sem_def)
qed

text \<open>A process that is killed while it waits leaves the count of the semaphore as it was.\<close>

lemma killed_waiter:
  assumes q: "list_remove_by_condition (\<lambda>p. p_socket (programs k p) = sk) (blockedQ k) = (Some w, rest')"
    and new: "\<forall>p \<in> set (newQ k). p_socket (programs k p) \<noteq> sk"
    and cpus: "\<forall>u \<in> set (cpus k). \<not> runs_socket k sk u"
    and f: "program_interrup sk code ov k = Inr k'"
  shows "blockedQ k' = rest'" "config k' = config k"
proof -
  have "List.find (runs_socket k sk) (cpus k) = None" using cpus by (auto simp: find_None_iff)
  moreover have "list_remove_by_condition (\<lambda>p. p_socket (programs k p) = sk) (newQ k) = (None, newQ k)"
    using new by (rule list_remove_by_condition_absent)
  ultimately have "program_finish w (upd w (set_exitCode code) (k\<lparr>blockedQ := rest'\<rparr>)) = Inr k'"
    using f q by (simp add: program_interrup_def Let_def finish_removed_def)
  from program_finish_keeps [OF this] show "blockedQ k' = rest'" "config k' = config k" by simp_all
qed


subsection \<open>The end of a process\<close>

text \<open>Its files are closed, its pages go back to Memory, and its console is told why, if it is there.\<close>

definition told :: "ptr \<Rightarrow> kernel \<Rightarrow> byte list" where
  "told p k = (let J = sjunk (socks k (p_socket (programs k p))) in
     blob_frame J (str ''FinEjecucion'' @ [0]) @ int_header J (exitCode (pcb (programs k p))))"

lemma inform_console_spec:
  assumes "35 \<le> room (socks k (p_socket (programs k p)))"
  shows "tx (socks (inform_console p k) (p_socket (programs k p)))
    = tx (socks k (p_socket (programs k p)))
      @ (if console_gone (interruptionCode (programs k p)) \<or> console_gone (exitCode (pcb (programs k p)))
         then [] else told p k)"
    "p_socket (programs k p) \<in> closed (inform_console p k)"
proof -
  let ?fd = "p_socket (programs k p)" and ?k0 = "k\<lparr>programMaster := programMaster k - {p_socket (programs k p)}\<rparr>"
  have len: "length (str ''FinEjecucion'') = 12" by (simp add: str_def)
  have s1: "sock_send_string ?fd (str ''FinEjecucion'') ?k0 = (13,
      ?k0\<lparr>socks := (socks k)(?fd := said (socks k ?fd) (blob_frame (sjunk (socks k ?fd)) (str ''FinEjecucion'' @ [0])))\<rparr>)"
    using socket_send_string_ok [of "str ''FinEjecucion''" "socks k ?fd"] assms len
    by (simp add: sock_send_string_def said_def)
  show "tx (socks (inform_console p k) ?fd) = tx (socks k ?fd)
      @ (if console_gone (interruptionCode (programs k p)) \<or> console_gone (exitCode (pcb (programs k p)))
         then [] else told p k)"
    using assms len
    by (simp add: inform_console_def Let_def s1 close_console_def told_def sock_send_int_def
        socket_send_int_ok said_def)
  show "?fd \<in> closed (inform_console p k)"
    by (auto simp: inform_console_def Let_def close_console_def sock_send_string_def sock_send_int_def split: prod.split)
qed

lemma program_finish_spec:
  assumes inv: "kernel_inv k" and p: "p < nextProgram k" "p \<notin> set (places k)"
    and mem: "remote_end_program (memory k) (pid (pcb (programs k p))) = Inr m"
  shows "\<exists>k1. program_finish p k = Inr (inform_console p k1) \<and> finishedQ k1 = finishedQ k @ [p]
    \<and> memory k1 = m \<and> fileDescriptors (programs k1 p) = [] \<and> socks k1 = socks k
    \<and> pcb (programs k1 p) = pcb (programs k p) \<and> p_socket (programs k1 p) = p_socket (programs k p)
    \<and> interruptionCode (programs k1 p) = interruptionCode (programs k p)"
proof -
  let ?k = "k\<lparr>finishedQ := finishedQ k @ [p]\<rparr>"
  have "\<not> program_did_finish p k" using p(2) by (auto simp: program_did_finish_def places_def dest: find_in_set)
  moreover have "refs ?k = refs k" by (simp add: refs_def fun_eq_iff)
  then have "fd_inv ?k" using inv table_inv_same [of ?k k "refs k"] by (simp add: kernel_inv_def fd_inv_def)
  moreover have "p < nextProgram ?k" using p(1) by simp
  ultimately obtain k1 k2 where k2: "close_opened_files p ?k = Inr k2" "table_only ?k k1"
    "k2 = upd p (\<lambda>q. q\<lparr>fileDescriptors := []\<rparr>) k1" and new: "\<not> program_did_finish p k"
    using close_opened_files_spec by blast
  then show ?thesis
    using mem
    by (intro exI [of _ "k2\<lparr>memory := m\<rparr>"]) (simp add: program_finish_def table_only_simps [OF k2(2)])
qed

subsection \<open>Where the Kernel stops\<close>

text \<open>A CPU that breaks between its PCB and the flag behind it takes the Kernel down.\<close>

lemma stranded_crashes:
  assumes "stranded M c k" shows "remove_disconnected k = Inl Null_Deref"
proof -
  have "\<exists>u rest'. list_remove_by_condition (\<lambda>u. cpu_disconnected u = 1) (cpus k) = (Some u, rest')
      \<and> cpu_program u = None"
  proof (cases rule: list_remove_by_condition_cases [of "cpus k" "\<lambda>u. cpu_disconnected u = 1"])
    case absent
    with assms show ?thesis by (auto simp: stranded_def)
  next
    case (found us u vs)
    have "length us < length (cpus k)" "cpu_disconnected (cpus k ! length us) = 1" using found by simp_all
    then have "c = length us" using assms by (auto simp: stranded_def accounted_def)
    with assms found show ?thesis by (simp add: stranded_def)
  qed
  then show ?thesis by (auto simp: remove_disconnected_def destroyDisconnectedCPU_def)
qed


text \<open>
  The value of a shared variable is sent under its mutex; when that send fails the handler returns
  without unlocking, and the next request for the variable never gets it.
\<close>

lemma leaked_variable_lock:
  assumes p: "current c k = Inr p"
    and ok: "rx (socks k (cpu_sock c k)) = blob_frame j (name @ [0]) @ left" "0 \<notin> set name"
      "length name + 1 < 2 ^ 31"
    and room: "19 \<le> room (socks k (cpu_sock c k))" "room (socks k (cpu_sock c k)) < 30"
    and v: "list_find (named_var name) (shared_vars (config k)) = Some v" "\<not> sv_locked v"
  shows "\<exists>k'. handle_cpu_get_shared_variable c k = Inr k'
    \<and> list_find (named_var name) (shared_vars (config k')) = Some (v\<lparr>sv_locked := True\<rparr>)"
proof -
  let ?k = "upd p count_syscall k" and ?fd = "cpu_sock c k"
  have recv: "sock_recv_string ?fd ?k = (Some name, exchange ?fd left [] ?k)"
    by (rule sock_recv_string_ok) (use ok in simp_all)
  have len: "length (success c k) = 19" by (simp add: success_def str_def)
  have succ: "reply_string c ''Success'' (exchange ?fd left [] ?k) = (True, exchange ?fd left (success c k) ?k)"
    using reply_string_ok [of "''Success''" "exchange ?fd left [] ?k" c] room by (simp add: success_def)
  have "room (socks (exchange ?fd left (success c k) ?k) ?fd) < 11" using room len by simp
  then have "fst (reply_int c (sv_value v) (exchange ?fd left (success c k) ?k)) = False"
    by (auto simp: reply_int_def sock_send_int_def cpu_sock_def socket_send_int_result [unfolded fst_conv]
        dest: arg_cong [of _ _ fst] split: prod.splits)
  then obtain k3 where k3: "reply_int c (sv_value v) (exchange ?fd left (success c k) ?k) = (False, k3)"
    by (metis prod.collapse)
  have same: "config k3 = config k" using reply_same(1) [OF k3] by (simp add: same_but_sockets_def)
  have found: "list_find (named_var name) (upd_first (named_var name) (\<lambda>v. v\<lparr>sv_locked := True\<rparr>) vs)
      = map_option (\<lambda>v. v\<lparr>sv_locked := True\<rparr>) (list_find (named_var name) vs)" for vs
    by (induction vs) (auto simp: named_var_def)
  show ?thesis
    using v by (simp add: handle_cpu_get_shared_variable_def enter_run [OF p] recv succ k3 upd_var_def same found)
qed

lemma locked_variable_blocks:
  assumes p: "current c k = Inr p"
    and ok: "rx (socks k (cpu_sock c k)) = blob_frame j (name @ [0]) @ left" "0 \<notin> set name"
      "length name + 1 < 2 ^ 31"
    and room: "19 \<le> room (socks k (cpu_sock c k))"
    and v: "list_find (named_var name) (shared_vars (config k)) = Some v" "sv_locked v"
  shows "handle_cpu_get_shared_variable c k = Inl Deadlock"
proof -
  let ?k = "upd p count_syscall k" and ?fd = "cpu_sock c k"
  have recv: "sock_recv_string ?fd ?k = (Some name, exchange ?fd left [] ?k)"
    by (rule sock_recv_string_ok) (use ok in simp_all)
  have succ: "reply_string c ''Success'' (exchange ?fd left [] ?k) = (True, exchange ?fd left (success c k) ?k)"
    using reply_string_ok [of "''Success''" "exchange ?fd left [] ?k" c] room by (simp add: success_def)
  show ?thesis using v by (simp add: handle_cpu_get_shared_variable_def enter_run [OF p] recv succ)
qed

subsection \<open>The console of the Kernel\<close>

lemma find_in_cpus_idle:
  assumes "cpus k = us @ u # vs" "cpu_program u = None"
    and "\<forall>v \<in> set us. \<exists>p. cpu_program v = Some p \<and> \<not> has_pid k n p"
  shows "find_in_cpus k n (cpus k) = Inl Null_Deref"
proof -
  have "find_in_cpus k n (us @ u # vs) = Inl Null_Deref"
    using assms(2,3) by (induction us) auto
  with assms(1) show ?thesis by simp
qed

end
