(* ===== verification/Samples.thy ===== *)
theory Samples
  imports Heap
begin

text \<open>
  A small configuration on which the properties are exercised: eight frames of 32 bytes, of
  which the table takes three; two cache entries, one per process; a clock behind \<open>time(NULL)\<close>.
  Process 1 owns one page (number 0) in \<open>mem_1\<close>, no page in \<open>mem_0\<close>.
\<close>

definition cfg_1 :: t_memory where
  "cfg_1 = \<lparr>frameCount = 8, frameSize = 32, cacheEntryCount = 2, cachePerProccess = 1,
     responseDelay = 0\<rparr>"

definition hash_1 :: hash_function where
  "hash_1 = ayudante_hash 5 32"

definition ram_0 :: ram where
  "ram_0 = \<lparr>pageTable = replicate 8 free_entry, proccessPageCount = 5, freeFrameCount = 5,
     proccessPages = replicate 160 0\<rparr>"

definition ram_1 :: ram where
  "ram_1 = ram_0\<lparr>pageTable := \<lparr>pte_PID = 1, pte_page = 0\<rparr> # replicate 7 free_entry,
     freeFrameCount := 4\<rparr>"

definition cache_0 :: cache where
  "cache_0 = cache_init cfg_1 (\<lambda>_. 0) (\<lambda>_. 0) (\<lambda>_. 0) (\<lambda>_. 1)"

definition mem_0 :: mem where "mem_0 = \<lparr>mram = ram_0, mcache = cache_0\<rparr>"

definition mem_1 :: mem where "mem_1 = \<lparr>mram = ram_1, mcache = cache_0\<rparr>"

lemma memory_init_1: "memory_init cfg_1 (\<lambda>_. 0) (\<lambda>_. 0) (\<lambda>_. 0) (\<lambda>_. 0) (\<lambda>_. 1) = Inr mem_0"
proof -
  have "map (\<lambda>_. 0 :: byte) [0..<160] = replicate 160 0" by (simp add: map_replicate_const del: upt_Suc)
  then show ?thesis
    by (simp add: memory_init_def ram_init_def mem_0_def ram_0_def cache_0_def cfg_1_def Let_def
        sizeof_pageTableEntry_def bytes_to_pages_def)
qed

lemma cfg_1_simps [simp]:
  "frameSize cfg_1 = 32" "cacheEntryCount cfg_1 = 2" "cachePerProccess cfg_1 = 1" "frameCount cfg_1 = 8"
  by (simp_all add: cfg_1_def)

lemma mem_sel [simp]:
  "mram mem_0 = ram_0" "mcache mem_0 = cache_0" "mram mem_1 = ram_1" "mcache mem_1 = cache_0"
  "proccessPageCount ram_0 = 5" "proccessPageCount ram_1 = 5" "freeFrameCount ram_0 = 5"
  "freeFrameCount ram_1 = 4" "proccessPages ram_1 = replicate 160 0"
  by (simp_all add: mem_0_def mem_1_def ram_0_def ram_1_def)

lemma mem_inv_0: "mem_inv cfg_1 mem_0"
  by (rule memory_init_spec(1) [OF memory_init_1]) simp

lemma frame_of_0: "frame_of ram_0 = Map.empty"
  by (auto simp: fun_eq_iff frame_of_def find_None_iff entry_has_PID_page_def ram_0_def free_entry_def
      nth_Cons' numeral_eq_Suc)

lemma ram_inv_1: "ram_inv cfg_1 ram_1"
  by (auto simp: ram_inv_def ram_shape_def unique_pages_def small_pages_def frame_count_def
      ram_1_def ram_0_def free_entry_def is_frame_free_def is_frame_occupied_def nth_Cons'
      numeral_eq_Suc)

lemma frame_of_1: "frame_of ram_1 (1, 0) = Some 0"
  by (simp add: frame_of_def ram_1_def ram_0_def entry_has_PID_page_def upt_conv_Cons)

lemma page_at_1: "page_at cfg_1 mem_1 (1, 0) = Some (replicate 32 0)"
  by (simp add: page_at_def frame_of_1 block_def peek_def take_replicate)

lemma mem_inv_1: "mem_inv cfg_1 mem_1"
  using cache_init_spec [of cfg_1 "\<lambda>_. 0" "\<lambda>_. 0" "\<lambda>_. 0" "\<lambda>_. 1"] ram_inv_1
  by (simp add: mem_inv_def cache_0_def coherent_def)

lemma lru_ready_0: "lru_ready cfg_1 cache_0"
  unfolding cache_0_def by (rule cache_init_ready) simp

lemma byte_at_1: "0 \<le> x \<Longrightarrow> x < 32 \<Longrightarrow> byte_at cfg_1 mem_1 1 x = Some 0"
  using byte_at_in_page [of x cfg_1 mem_1 1 0] by (simp add: page_at_1)

lemma bytes_at_1: "bytes_at cfg_1 mem_1 1 4 8 = Some (replicate 8 0)"
  by (simp add: bytes_at_def byte_at_1 upt_conv_Cons numeral_eq_Suc)

lemma cached_sample:
  "\<exists>m. mem_inv cfg_1 m \<and> mram m = ram_1 \<and> cached_at (mcache m) (1, 0) \<noteq> None"
proof -
  let ?page = "replicate 32 (0 :: byte)"
  have c: "cache_inv cfg_1 cache_0" "cached_at cache_0 = Map.empty"
    unfolding cache_0_def by (rule cache_init_spec)+
  have "\<forall>i < length (entries cache_0). last_access cache_0 i < time_src cache_0 (tick cache_0)"
    by (auto simp: cache_0_def cache_init_def last_access_def)
  with cache_cache_contents_spec [OF c(1), of 1 0 ?page] c(2) obtain i c' where
    c': "cache_inv cfg_1 c'" "i < length (entries cache_0)" "cached_at c' = [(1, 0) \<mapsto> i]"
      "cacheContent c' = poke (i * 32) ?page (cacheContent cache_0)"
    by (auto split: option.splits)
  have "length (cacheContent cache_0) = 64" "length (entries cache_0) = 2"
    using c(1) by (simp_all add: cache_inv_def)
  then have "block 32 (cacheContent c') i = ?page"
    using c'(2,4) by (simp add: block_def blk)
  then have "mem_inv cfg_1 \<lparr>mram = ram_1, mcache = c'\<rparr>"
    using c' ram_inv_1 page_at_1 by (simp add: mem_inv_def coherent_def page_at_def)
  then show ?thesis using c'(3) by (intro exI [of _ "\<lparr>mram = ram_1, mcache = c'\<rparr>"]) simp
qed

subsection \<open>A process with an empty heap\<close>

definition kernel_1 :: t_kernel where
  "kernel_1 = \<lparr>cfg_quantum = 2, algoritmo = [], grado_multiprog = 2, semaforos = [], shared_vars = [],
     stack_size = 0,
     quantum_sleep = 0, ip_fs = [], ip_memoria = [], puerto_cpu = [], puerto_fs = [], puerto_memoria = [], puerto_prog = []\<rparr>"

definition pcb_1 :: t_pcb where
  "pcb_1 = \<lparr>pid = 1, pc = 0, cantPagsCodigo = 1, indiceDeCodigoCant = 1,
     indiceDeCodigo = [\<lparr>ins_start = 0, ins_offset = 5\<rparr>], indiceDeEtiquetasCant = 2,
     indiceDeEtiquetas = [7, 0],
     indiceDeStack = [\<lparr>vars = [([97], \<lparr>pos_page = 1, pos_off = 0, pos_size = 4\<rparr>)], argCount = 1,
       args = replicate 10 \<lparr>pos_page = 1, pos_off = 4, pos_size = 4\<rparr>, retPos = -1, retVar = None\<rparr>],
     stackPosition = 0, maxStackPosition = 1, exitCode = 1\<rparr>"

definition stat_0 :: t_stat where
  "stat_0 = \<lparr>rafagas = 0, syscallEjecutadas = 0, syscallPrivilegiadas = 0, cantCallAlloc = 0,
     cantCallFree = 0, bytesAlloc = 0, bytesFree = 0\<rparr>"

definition program_1 :: t_program where
  "program_1 = \<lparr>p_socket = 4, pcb = pcb_1, interruptionCode = 0, codeSize = 0, p_code = [], waiting = 0,
     waitingReason = None, fileDescriptors = [], incrementalFD = 3, quantum = 0, heapPages = [],
     stats = stat_0\<rparr>"

definition remote_1 :: remote where
  "remote_1 = \<lparr>rcfg = cfg_1, rhash = hash_1, rmem = mem_0, rlocked = False\<rparr>"

lemma remote_sel [simp]:
  "rcfg remote_1 = cfg_1" "rhash remote_1 = hash_1" "rmem remote_1 = mem_0" "\<not> rlocked remote_1"
  "pageSize remote_1 = 32" "pid (pcb program_1) = 1" "heapPages program_1 = []"
  "interruptionCode program_1 = 0"
  by (simp_all add: remote_1_def pageSize_def program_1_def pcb_1_def)

lemma remote_ok_1: "remote_ok remote_1"
  by (simp add: remote_ok_def mem_inv_0 lru_ready_0)

lemma heap_inv_1: "heap_inv program_1 remote_1"
  by (simp add: heap_inv_def heap_ready_def remote_ok_1)

lemma live_1: "live program_1 remote_1 = {}"
  by (simp add: live_def)

lemma replicate_5: "replicate 5 x = [x, x, x, x, x]"
  by (simp add: numeral_eq_Suc)

lemma in_step_1: "in_step kernel_1 program_1 remote_1"
  by (simp add: in_step_def heap_max_page_num_def proccess_page_max_def ram_0_def free_entry_def
      kernel_1_def program_1_def pcb_1_def replicate_5)

subsection \<open>A heap page with one block in use\<close>

text \<open>Page 1 of process 1: a block of 4 bytes in use, then a free one of 12 bytes.\<close>

definition page_2 :: "byte list" where
  "page_2 = meta_bytes \<lparr>md_size = 4, md_isFree = False, md_pad = [0, 0, 0]\<rparr> @ [1, 2, 3, 4]
     @ meta_bytes \<lparr>md_size = 12, md_isFree = True, md_pad = [0, 0, 0]\<rparr> @ replicate 12 0"

definition ram_2 :: ram where
  "ram_2 = ram_0\<lparr>pageTable := \<lparr>pte_PID = 1, pte_page = 1\<rparr> # replicate 7 free_entry,
     freeFrameCount := 4, proccessPages := page_2 @ replicate 128 0\<rparr>"

definition remote_2 :: remote where
  "remote_2 = \<lparr>rcfg = cfg_1, rhash = hash_1, rmem = \<lparr>mram = ram_2, mcache = cache_0\<rparr>, rlocked = False\<rparr>"

definition program_2 :: t_program where
  "program_2 = program_1\<lparr>heapPages := [\<lparr>hp_page = 1, hp_freeSpace = 12\<rparr>]\<rparr>"

lemma length_page_2: "length page_2 = 32"
  by (simp add: page_2_def)

lemma ram_inv_2: "ram_inv cfg_1 ram_2"
  by (auto simp: ram_inv_def ram_shape_def unique_pages_def small_pages_def frame_count_def
      ram_2_def ram_0_def free_entry_def is_frame_free_def is_frame_occupied_def nth_Cons'
      length_page_2 numeral_eq_Suc)

lemma remote_2_sel [simp]:
  "rcfg remote_2 = cfg_1" "\<not> rlocked remote_2" "pageSize remote_2 = 32"
  "mram (rmem remote_2) = ram_2" "mcache (rmem remote_2) = cache_0"
  "pid (pcb program_2) = 1" "heapPages program_2 = [\<lparr>hp_page = 1, hp_freeSpace = 12\<rparr>]"
  by (simp_all add: remote_2_def pageSize_def program_2_def)

lemma page_at_2: "page_at cfg_1 (rmem remote_2) (1, 1) = Some page_2"
  by (simp add: page_at_def frame_of_def ram_2_def ram_0_def entry_has_PID_page_def upt_conv_Cons
      block_def peek_def length_page_2)

lemma remote_ok_2: "remote_ok remote_2"
  using cache_init_spec [of cfg_1 "\<lambda>_. 0" "\<lambda>_. 0" "\<lambda>_. 0" "\<lambda>_. 1"] ram_inv_2 lru_ready_0
  by (simp add: remote_ok_def mem_inv_def cache_0_def coherent_def)

lemma rbytes_2: "0 \<le> off \<Longrightarrow> off + 8 \<le> 32 \<Longrightarrow>
    rbytes remote_2 1 (32 + off) 8 = Some (peek (nat off) 8 page_2)"
  using bytes_at_page [of cfg_1 "rmem remote_2" off 8 1 1] ram_inv_2 page_at_2
  by (simp add: rbytes_def)

lemma layout_2: "layout remote_2 1 1 0 [(4, False), (12, True)]"
proof -
  have "header remote_2 1 1 0 \<lparr>md_size = 4, md_isFree = False, md_pad = [0, 0, 0]\<rparr>"
    using rbytes_2 [of 0] by (simp add: header_def page_2_def peek_def)
  moreover have "header remote_2 1 1 12 \<lparr>md_size = 12, md_isFree = True, md_pad = [0, 0, 0]\<rparr>"
    using rbytes_2 [of 12] by (simp add: header_def page_2_def peek_def)
  ultimately show ?thesis by auto
qed

lemma page_ok_2: "page_ok remote_2 1 \<lparr>hp_page = 1, hp_freeSpace = 12\<rparr> [(4, False), (12, True)]"
  using layout_2 by (simp add: page_ok_def del: layout.simps)

lemma heap_inv_2: "heap_inv program_2 remote_2"
  using page_ok_2 by (auto simp: heap_inv_def heap_ready_def remote_ok_2 simp del: layout.simps)

end
