(* ===== verification/Kernel_Samples.thy ===== *)
theory Kernel_Samples
  imports Kernel_Laws Samples
begin

text \<open>Concrete states of the Kernel at which the properties are instantiated.\<close>

definition env_1 :: t_env where
  "env_1 = \<lparr>metadata_desde_literal = (\<lambda>_. \<lparr>instruccion_inicio = 0, instrucciones_size = 0,
       instrucciones_serializado = [], etiquetas_size = 0, etiquetas = []\<rparr>),
     descriptor_salida = 1, fresh_args = replicate 10 \<lparr>pos_page = 0, pos_off = 0, pos_size = 0\<rparr>, fresh_size = 0, stack_junk = 0\<rparr>"

definition sock_1 :: "byte list \<Rightarrow> nat \<Rightarrow> sock" where
  "sock_1 bytes n = \<lparr>rx = bytes, tx = [], room = n, sjunk = (\<lambda>_. 0), rjunk = [], crash = False\<rparr>"

text \<open>No process yet, no CPU, and a console that sends the code of a program.\<close>

definition cfg_2 :: t_kernel where
  "cfg_2 = \<lparr>cfg_quantum = 2, algoritmo = str ''RR'', grado_multiprog = 0,
     semaforos = [\<lparr>sem_nombre = str ''s'', sem_value = -1\<rparr>],
     shared_vars = [\<lparr>sv_nombre = str ''v'', sv_value = 3, sv_locked = False\<rparr>], stack_size = 1,
     quantum_sleep = 0, ip_fs = [], ip_memoria = [], puerto_cpu = [], puerto_fs = [], puerto_memoria = [], puerto_prog = []\<rparr>"

definition kernel_0 :: kernel where
  "kernel_0 = \<lparr>config = cfg_2, env = env_1, programID = 0, programs = (\<lambda>_. program_1), nextProgram = 0,
     gfds = Map.empty, nextGfd = 0, globalFDs = [], newQ = [], readyQ = [], blockedQ = [],
     finishedQ = [], cpus = [], socks = (\<lambda>_. sock_1 (blob_frame (\<lambda>_. 0) [7]) 100), fsSock = sock_1 [] 100,
     memory = remote_1, programMaster = {}, closed = {}\<rparr>"

text \<open>One process on a CPU with a file open, one that waits for the semaphore \<open>s\<close>.\<close>

definition program_3 :: t_program where
  "program_3 = program_1\<lparr>fileDescriptors := [\<lparr>fd_value = 3, fd_cursor = 0, fd_permissions = str ''rw'', fd_global = 0\<rparr>],
     incrementalFD := 4\<rparr>"

definition program_4 :: t_program where
  "program_4 = program_1\<lparr>p_socket := 7, waiting := 1, waitingReason := Some (str ''s'')\<rparr>"

definition kernel_2 :: "byte list \<Rightarrow> nat \<Rightarrow> kernel" where
  "kernel_2 bytes n = kernel_0\<lparr>programs := (\<lambda>p. if p = 0 then program_3 else program_4), nextProgram := 2,
     gfds := [0 \<mapsto> \<lparr>gfd_path = str ''f'', gfd_open = 1\<rparr>], nextGfd := 1, globalFDs := [0],
     blockedQ := [1], cpus := [\<lparr>cpu_socket = 5, cpu_program = Some 0, cpu_disconnected = 0\<rparr>],
     socks := (\<lambda>_. sock_1 bytes n)\<rparr>"

lemma kernel_2_simps [simp]:
  "config (kernel_2 b n) = cfg_2" "programs (kernel_2 b n) 0 = program_3" "programs (kernel_2 b n) (Suc 0) = program_4"
  "nextProgram (kernel_2 b n) = 2" "blockedQ (kernel_2 b n) = [1]" "newQ (kernel_2 b n) = []"
  "readyQ (kernel_2 b n) = []" "finishedQ (kernel_2 b n) = []"
  "cpus (kernel_2 b n) = [\<lparr>cpu_socket = 5, cpu_program = Some 0, cpu_disconnected = 0\<rparr>]"
  "socks (kernel_2 b n) s = sock_1 b n" "cpu_sock 0 (kernel_2 b n) = 5" "memory (kernel_2 b n) = remote_1"
  "globalFDs (kernel_2 b n) = [0]" "gfds (kernel_2 b n) = [0 \<mapsto> \<lparr>gfd_path = str ''f'', gfd_open = 1\<rparr>]"
  "nextGfd (kernel_2 b n) = 1"
  by (simp_all add: kernel_2_def kernel_0_def cpu_sock_def)

lemma sock_1_simps [simp]: "rx (sock_1 b n) = b" "room (sock_1 b n) = n" "sjunk (sock_1 b n) = (\<lambda>_. 0)"
  by (simp_all add: sock_1_def)

lemma current_2 [simp]: "current 0 (kernel_2 b n) = Inr 0"
  by (simp add: current_def)

lemma refs_2: "refs (kernel_2 b n) = (\<lambda>g. if g = 0 then 1 else 0)"
  by (simp add: refs_def fun_eq_iff numeral_2_eq_2 program_3_def program_4_def program_1_def)

lemma kernel_inv_2: "kernel_inv (kernel_2 b n)"
proof -
  have "table_inv (kernel_2 b n) (refs (kernel_2 b n))"
    by (auto simp: table_inv_def refs_2)
  then show ?thesis
    by (auto simp: kernel_inv_def fd_inv_def places_def running_def fds_ok_def less_2_cases_iff
        program_3_def program_4_def program_1_def)
qed

lemma kernel_started_0: "kernel_started kernel_0"
  by (simp add: kernel_started_def kernel_0_def)

lemma sem_2: "list_find (named_sem (str ''s'')) (semaforos cfg_2) = Some \<lparr>sem_nombre = str ''s'', sem_value = -1\<rparr>"
  by (simp add: cfg_2_def named_sem_def)

lemma var_2: "list_find (named_var (str ''v'')) (shared_vars cfg_2)
    = Some \<lparr>sv_nombre = str ''v'', sv_value = 3, sv_locked = False\<rparr>"
  by (simp add: cfg_2_def named_var_def)

lemma request_ok_2: "request_ok 0 (kernel_2 (blob_frame (\<lambda>_. 0) (str ''s'' @ [0])) 30) (str ''s'') []"
  by (auto simp: request_ok_def str_def intro: exI [of _ "\<lambda>_. 0"])

text \<open>The console of \<open>kernel_0\<close> sends its program.\<close>

lemma new_program_0:
  "\<exists>k'. select_program_socket_recive_package 9 (str ''NewProgram'') kernel_0 = Inr k' \<and> newQ k' = [0]"
proof -
  have send: "sock_send_int 9 v (kernel_0\<lparr>programID := n\<rparr>) = (4, kernel_0\<lparr>programID := n,
      socks := (socks kernel_0)(9 := said (socks kernel_0 9) (int_header (\<lambda>_. 0) v))\<rparr>)" for v n
    by (simp add: sock_send_int_def socket_send_int_ok said_def kernel_0_def sock_1_def)
  have recv: "socket_recv (said (socks kernel_0 9) b)
      = (1, Some [7], said ((socks kernel_0 9)\<lparr>rx := []\<rparr>) b)" for b
    using socket_recv_ok [of "[7]" "said (socks kernel_0 9) b" "\<lambda>_. 0" "[]"]
    by (simp add: kernel_0_def)
  have "cantCorriendo k = 0" if "readyQ k = []" "cpus k = []" for k using that by (simp add: cantCorriendo_def)
  then show ?thesis
    by (simp add: select_program_socket_recive_package_def program_process_new_def program_generate_id_def
        send sock_recv_def recv planificador_largo_plazo_def Let_def cpu_inactive_planner_def)
       (simp add: kernel_0_def cfg_2_def cpu_inactive_planner_def)
qed


lemma mem_inv_remote_1: "mem_inv cfg_1 (rmem remote_1)"
  using remote_ok_1 by (simp add: remote_ok_def)

lemma end_program_1: "\<exists>m. remote_end_program remote_1 1 = Inr m"
  using program_end_spec [OF mem_inv_remote_1, of 1] by (auto simp: remote_end_program_def)

lemma kernel_inv_blocked:
  "kernel_inv (upd 1 (set_exitCode ERROR_CONSOLE_DISCONNECTED) ((kernel_2 [] 100)\<lparr>blockedQ := []\<rparr>))"
proof -
  have a: "accounted [] (mset (places (kernel_2 [] 100))) {} (kernel_2 [] 100)"
    using kernel_inv_2 by (simp add: kernel_inv_accounted)
  have "list_remove_by_condition (\<lambda>_. True) (blockedQ (kernel_2 [] 100)) = (Some 1, [])" by simp
  from take_from_queue(2) [OF a this]
  have "accounted [1] (mset (places (kernel_2 [] 100))) {} ((kernel_2 [] 100)\<lparr>blockedQ := []\<rparr>)" .
  then have "accounted [1] (mset (places (kernel_2 [] 100))) {}
      (upd 1 (set_exitCode ERROR_CONSOLE_DISCONNECTED) ((kernel_2 [] 100)\<lparr>blockedQ := []\<rparr>))"
    by (rule accounted_view_any [rotated]) simp
  then show ?thesis by (rule accounted_kernel_inv)
qed

lemma interrup_waiter_2: "\<exists>k'. program_interrup 7 ERROR_CONSOLE_DISCONNECTED 0 (kernel_2 [] 100) = Inr k'"
proof -
  let ?k = "upd 1 (set_exitCode ERROR_CONSOLE_DISCONNECTED) ((kernel_2 [] 100)\<lparr>blockedQ := []\<rparr>)"
  obtain m where m: "remote_end_program remote_1 1 = Inr m" using end_program_1 by blast
  have "pid (pcb (programs ?k 1)) = 1"
    by (simp add: set_exitCode_def program_4_def program_1_def pcb_1_def)
  with program_finish_spec [OF kernel_inv_blocked, of 1 m] m
  obtain k' where "program_finish 1 ?k = Inr k'" by (auto simp: places_def running_def)
  moreover have "program_interrup 7 ERROR_CONSOLE_DISCONNECTED 0 (kernel_2 [] 100) = program_finish 1 ?k"
    by (simp add: program_interrup_def Let_def runs_socket_def finish_removed_def program_3_def program_4_def
        program_1_def)
  ultimately show ?thesis by simp
qed

definition pcb_bytes :: "byte list" where
  "pcb_bytes = (case pcb_serialize pcb_1 of Inr bs \<Rightarrow> bs | Inl _ \<Rightarrow> [])"

lemma length_pcb_bytes: "length pcb_bytes < 2 ^ 31"
  by (simp add: pcb_bytes_def pcb_serialize_def pcb_1_def serialize_static_type_array_def stack_serialize_def
      read_stream_def instruction_serializer_def stack_context_serialize_def serialize_static_type_dict_def
      position_serializer_def replicate_5)


text \<open>A CPU sends the block of its process and breaks before the flag.\<close>

definition burst_bytes :: "byte list" where
  "burst_bytes = blob_frame (\<lambda>_. 0) (str ''PCB'' @ [0]) @ blob_frame (\<lambda>_. 0) pcb_bytes"

lemma pcb_bytes_round:
  "pcb_deserialize (replicate 10 \<lparr>pos_page = 0, pos_off = 0, pos_size = 0\<rparr>) pcb_bytes
     = Inr (pcb_arrived (replicate 10 \<lparr>pos_page = 0, pos_off = 0, pos_size = 0\<rparr>) pcb_1)"
proof -
  have "pcb_ok pcb_1"
    by (simp add: pcb_ok_def pcb_1_def int32_def instruction_ok_def context_ok_def position_ok_def)
  from pcb_round [OF this length_replicate] obtain bs where bs: "pcb_serialize pcb_1 = Inr bs"
    "pcb_deserialize (replicate 10 \<lparr>pos_page = 0, pos_off = 0, pos_size = 0\<rparr>) bs
      = Inr (pcb_arrived (replicate 10 \<lparr>pos_page = 0, pos_off = 0, pos_size = 0\<rparr>) pcb_1)" by blast
  show ?thesis unfolding pcb_bytes_def bs(1) sum.case by (rule bs(2))
qed

lemma end_burst_2: "\<exists>k'. handle_end_burst 0 (kernel_2 burst_bytes 0) = Inr k'"
proof -
  let ?k = "set_cpu 0 (assign None) (kernel_2 burst_bytes 0)"
  have sock: "socks ?k s = sock_1 burst_bytes 0" "cpu_socket (cpus ?k ! 0) = 5" "env ?k = env_1" for s
    by (simp_all add: set_cpu_def assign_def) (simp add: kernel_2_def kernel_0_def)
  have msg: "sock_recv_string 5 ?k = (Some (str ''PCB''), exchange 5 (blob_frame (\<lambda>_. 0) pcb_bytes) [] ?k)"
  proof (rule sock_recv_string_ok)
    show "rx (socks ?k 5) = blob_frame (\<lambda>_. 0) (str ''PCB'' @ [0]) @ blob_frame (\<lambda>_. 0) pcb_bytes"
      unfolding sock by (simp only: sock_1_simps burst_bytes_def)
  qed (simp_all add: str_def)
  let ?s = "said ((sock_1 burst_bytes 0)\<lparr>rx := blob_frame (\<lambda>_. 0) pcb_bytes\<rparr>) []"
  have blob: "socket_recv ?s = (int (length pcb_bytes), Some pcb_bytes, ?s\<lparr>rx := []\<rparr>)"
    by (rule socket_recv_ok [OF length_pcb_bytes, of _ "\<lambda>_. 0"]) simp
  have "string_equals_ignore_case (str ''PCB'') (str ''PCB'')" by (simp add: string_equals_ignore_case_def)
  moreover have "socks (exchange 5 (blob_frame (\<lambda>_. 0) pcb_bytes) [] ?k) 5 = ?s"
    by (simp add: exchange_def sock)
  ultimately obtain b k1 where k1: "cpu_recv_pcb 0 ?k = Inr (Some b, k1)" "rx (socks k1 5) = []" "cpus k1 = cpus ?k"
    by (simp add: cpu_recv_pcb_def sock msg Let_def blob pcb_bytes_round env_1_def)
  have "sock_recv_int 5 (upd 0 (count_burst b) k1) = (None, (upd 0 (count_burst b) k1)
      \<lparr>socks := (socks k1)(5 := (socks k1 5)\<lparr>rx := []\<rparr>)\<rparr>)"
    using k1(2) by (simp add: sock_recv_int_def socket_recv_int_def sys_recv_def)
  moreover have "cpu_sock 0 k1 = 5" using k1(3) sock(2) by (simp add: cpu_sock_def)
  ultimately show ?thesis
    using k1(1) by (simp add: handle_end_burst_def assign_eta)
qed

end
