(* ===== verification/Select_Server.thy ===== *)
theory Select_Server
  imports Prelude
begin

text \<open>
  \<open>libSockets/server.c\<close>: the loop with which the Kernel (twice) and Memory serve their connections.

  \<open>watched\<close> is \<open>master\<close>, the set of descriptors that are watched, \<open>fdmax\<close> the largest one ever added, \<open>process\<close> the state
  of the process around the loop. The calls of the operating system, \<open>accept\<close> and the receiving of a
  message, and the two functions the loop is given are arguments. A handler is given the address of
  \<open>master\<close>, so it returns a new one. Which descriptors \<open>select\<close> finds ready is given to a pass.
\<close>

record 'a server =
  watched :: "int set"
  fdmax :: int
  listeningSocket :: int
  process :: 'a

record 'a callbacks =
  accept_connection :: "'a \<Rightarrow> int \<times> 'a"
  recv_package :: "int \<Rightarrow> 'a \<Rightarrow> int \<times> byte list option \<times> 'a"
  connection_lost :: "int \<Rightarrow> int \<Rightarrow> int set \<times> 'a \<Rightarrow> fault + int set \<times> 'a"
  package_arrived :: "int \<Rightarrow> int \<Rightarrow> byte list \<Rightarrow> int set \<times> 'a \<Rightarrow> fault + int set \<times> 'a"

definition after_handler :: "'a server \<Rightarrow> fault + int set \<times> 'a \<Rightarrow> fault + 'a server" where
  "after_handler sv r = and_then r (\<lambda>(m, a). Inr (sv\<lparr>watched := m, process := a\<rparr>))"

text \<open>
  A new connection is added (a descriptor above the size of a \<open>fd_set\<close> is written behind it); the
  handlers are called with what was received.
\<close>

definition FD_SETSIZE :: int where "FD_SETSIZE = 1024"

definition serve_fd :: "'a callbacks \<Rightarrow> int \<Rightarrow> 'a server \<Rightarrow> fault + 'a server" where
  "serve_fd H i sv =
     (if i = listeningSocket sv then
        (case accept_connection H (process sv) of
           (newfd, a) \<Rightarrow>
             if newfd = -1 then Inr (sv\<lparr>process := a\<rparr>)
             else if FD_SETSIZE \<le> newfd then Inl Buffer_Overflow
             else Inr (sv\<lparr>process := a, watched := insert newfd (watched sv), fdmax := max newfd (fdmax sv)\<rparr>))
      else
        (case recv_package H i (process sv) of
           (nbytes, b, a) \<Rightarrow>
             if nbytes \<le> 0 then after_handler sv (connection_lost H i nbytes (watched sv, a))
             else (case b of
                     None \<Rightarrow> Inl Uninitialised
                   | Some package \<Rightarrow> after_handler sv (package_arrived H i nbytes package (watched sv, a)))))"

lemma serve_fd_keeps:
  assumes "serve_fd H i sv = Inr sv'"
  shows "listeningSocket sv' = listeningSocket sv" "i \<noteq> listeningSocket sv \<Longrightarrow> fdmax sv' = fdmax sv" "fdmax sv \<le> fdmax sv'"
  using assms by (auto simp: serve_fd_def after_handler_def and_then_Inr_iff split: prod.splits if_splits option.splits)

text \<open>The \<open>for\<close> over the descriptors; a new connection can move its end while it runs.\<close>

function serve_from :: "'a callbacks \<Rightarrow> int \<Rightarrow> int set \<Rightarrow> 'a server \<Rightarrow> fault + 'a server" where
  "serve_from H i read_fds sv =
     (if i \<le> fdmax sv then
        (if i \<in> read_fds then and_then (serve_fd H i sv) (serve_from H (i + 1) read_fds)
         else serve_from H (i + 1) read_fds sv)
      else Inr sv)"
  by pat_completeness auto
termination
  by (relation "measures [\<lambda>(H, i, R, sv). nat (listeningSocket sv + 1 - i), \<lambda>(H, i, R, sv). nat (fdmax sv + 1 - i)]")
    (auto simp: serve_fd_keeps dest: serve_fd_keeps(1) serve_fd_keeps(2) [THEN sym])

declare serve_from.simps [simp del]

text \<open>One turn of \<open>while(1)\<close>: \<open>read_fds\<close> is what \<open>select\<close> leaves of the copy of \<open>master\<close>.\<close>

definition select_turn :: "'a callbacks \<Rightarrow> int set \<Rightarrow> 'a server \<Rightarrow> fault + 'a server" where
  "select_turn H ready sv = serve_from H 0 (watched sv \<inter> ready) sv"

definition select_start :: "int \<Rightarrow> 'a \<Rightarrow> 'a server" where
  "select_start listening a = \<lparr>watched = {listening}, fdmax = listening, listeningSocket = listening, process = a\<rparr>"

subsection \<open>A turn serves the ready descriptors in order\<close>

fun serve_all :: "'a callbacks \<Rightarrow> int list \<Rightarrow> 'a server \<Rightarrow> fault + 'a server" where
  "serve_all H [] sv = Inr sv"
| "serve_all H (i # is) sv = and_then (serve_fd H i sv) (serve_all H is)"

lemma serve_all_one: "serve_all H [i] sv = serve_fd H i sv"
  by (cases "serve_fd H i sv") simp_all

text \<open>The descriptors from \<open>i\<close> on.\<close>

definition from_fd :: "int \<Rightarrow> int set \<Rightarrow> int list" where
  "from_fd i R = sorted_list_of_set {j \<in> R. i \<le> j}"

lemma from_fd_step:
  assumes "finite R"
  shows "i \<in> R \<Longrightarrow> from_fd i R = i # from_fd (i + 1) R" "i \<notin> R \<Longrightarrow> from_fd i R = from_fd (i + 1) R"
proof -
  show "from_fd i R = i # from_fd (i + 1) R" if "i \<in> R"
  proof -
    have "{j \<in> R. i \<le> j} = insert i {j \<in> R. i + 1 \<le> j}" using that by auto
    moreover have "sorted_list_of_set (insert i {j \<in> R. i + 1 \<le> j}) = i # sorted_list_of_set {j \<in> R. i + 1 \<le> j}"
      using assms by (subst sorted_list_of_set_insert_remove) (auto simp: insort_is_Cons)
    ultimately show ?thesis by (simp add: from_fd_def)
  qed
  show "from_fd i R = from_fd (i + 1) R" if "i \<notin> R"
  proof -
    have "{j \<in> R. i \<le> j} = {j \<in> R. i + 1 \<le> j}" using that by (auto simp: order_le_less)
    then show ?thesis by (simp add: from_fd_def)
  qed
qed

lemma serve_from_all:
  "finite R \<Longrightarrow> \<forall>j \<in> R. j \<le> fdmax sv \<Longrightarrow> serve_from H i R sv = serve_all H (from_fd i R) sv"
proof (induction H i R sv rule: serve_from.induct)
  case (1 H i R sv)
  show ?case
  proof (cases "i \<le> fdmax sv")
    case False
    then have none: "{j \<in> R. i \<le> j} = {}" using 1(4) by auto
    have "from_fd i R = []" unfolding from_fd_def none by simp
    with False show ?thesis by (subst serve_from.simps) simp
  next
    case le: True
    show ?thesis
    proof (cases "i \<in> R")
      case False
      with 1(2) [OF le False 1(3,4)] le show ?thesis
        by (subst serve_from.simps) (simp add: from_fd_step(2) [OF 1(3) False])
    next
      case True
      show ?thesis
      proof (cases "serve_fd H i sv")
        case (Inl e)
        with True le show ?thesis by (subst serve_from.simps) (simp add: from_fd_step(1) [OF 1(3) True])
      next
        case (Inr sv1)
        have "\<forall>j \<in> R. j \<le> fdmax sv1" using 1(4) serve_fd_keeps(3) [OF Inr] by fastforce
        from 1(1) [OF le True Inr 1(3) this] True le Inr show ?thesis
          by (subst serve_from.simps) (simp add: from_fd_step(1) [OF 1(3) True])
      qed
    qed
  qed
qed

subsection \<open>The contract of the handlers\<close>

text \<open>
  \<open>fits L M a\<close>: what the process keeps of its connections agrees with the watched ones. A new
  descriptor is not watched yet; a handler stops watching no descriptor but its own.
\<close>

locale connection_server =
  fixes H :: "'a callbacks" and fits :: "int \<Rightarrow> int set \<Rightarrow> 'a \<Rightarrow> bool"
  assumes accepted: "fits L M a \<Longrightarrow> accept_connection H a = (newfd, a') \<Longrightarrow>
      if newfd = -1 then fits L M a' else 0 \<le> newfd \<and> newfd \<notin> M \<and> fits L (insert newfd M) a'"
    and lost: "fits L M a \<Longrightarrow> i \<in> M \<Longrightarrow> i \<noteq> L \<Longrightarrow> recv_package H i a = (n, b, a1) \<Longrightarrow> n \<le> 0 \<Longrightarrow>
      connection_lost H i n (M, a1) = Inr (M', a') \<Longrightarrow> M - {i} \<subseteq> M' \<and> M' \<subseteq> M \<and> fits L M' a'"
    and arrived: "fits L M a \<Longrightarrow> i \<in> M \<Longrightarrow> i \<noteq> L \<Longrightarrow> recv_package H i a = (n, Some package, a1) \<Longrightarrow> 0 < n \<Longrightarrow>
      package_arrived H i n package (M, a1) = Inr (M', a') \<Longrightarrow> M - {i} \<subseteq> M' \<and> M' \<subseteq> M \<and> fits L M' a'"
begin

definition server_inv :: "'a server \<Rightarrow> bool" where
  "server_inv sv \<longleftrightarrow> finite (watched sv) \<and> listeningSocket sv \<in> watched sv
     \<and> watched sv \<subseteq> {0..fdmax sv} \<and> fits (listeningSocket sv) (watched sv) (process sv)"

lemma serve_fd_inv:
  assumes inv: "server_inv sv" and i: "i \<in> watched sv" and s: "serve_fd H i sv = Inr sv'"
  shows "server_inv sv' \<and> watched sv - {i} \<subseteq> watched sv'"
proof (cases "i = listeningSocket sv")
  case True
  obtain newfd a where a: "accept_connection H (process sv) = (newfd, a)" by fastforce
  have f: "fits (listeningSocket sv) (watched sv) (process sv)" using inv by (simp add: server_inv_def)
  show ?thesis using accepted [OF f a] s inv True
    by (fastforce simp: serve_fd_def a server_inv_def split: if_splits)
next
  case False
  obtain n b a where r: "recv_package H i (process sv) = (n, b, a)" using prod_cases3 by blast
  have f: "fits (listeningSocket sv) (watched sv) (process sv)" using inv by (simp add: server_inv_def)
  obtain M' a' where m: "(n \<le> 0 \<and> connection_lost H i n (watched sv, a) = Inr (M', a'))
      \<or> (0 < n \<and> (\<exists>p. b = Some p \<and> package_arrived H i n p (watched sv, a) = Inr (M', a')))"
    and sv': "sv' = sv\<lparr>watched := M', process := a'\<rparr>"
    using s False by (auto simp: serve_fd_def r after_handler_def and_then_Inr_iff split: if_splits option.splits)
  have "watched sv - {i} \<subseteq> M' \<and> M' \<subseteq> watched sv \<and> fits (listeningSocket sv) M' a'"
    using m lost [OF f i False r] arrived [OF f i False] r by fastforce
  moreover from this have "finite M'" using inv by (auto simp: server_inv_def intro: finite_subset)
  ultimately show ?thesis using inv False by (auto simp: server_inv_def sv')
qed

lemma serve_all_inv:
  "server_inv sv \<Longrightarrow> distinct is \<Longrightarrow> set is \<subseteq> watched sv \<Longrightarrow> serve_all H is sv = Inr sv' \<Longrightarrow>
    server_inv sv' \<and> watched sv - set is \<subseteq> watched sv'"
proof (induction "is" arbitrary: sv)
  case (Cons i js)
  obtain sv1 where s: "serve_fd H i sv = Inr sv1" "serve_all H js sv1 = Inr sv'"
    using Cons.prems(4) by (auto simp: and_then_Inr_iff)
  have one: "server_inv sv1" "watched sv - {i} \<subseteq> watched sv1"
    using serve_fd_inv [OF Cons.prems(1) _ s(1)] Cons.prems(3) by auto
  have "set js \<subseteq> watched sv1" using Cons.prems(2,3) one(2) by auto
  with Cons.IH [OF one(1) _ _ s(2)] Cons.prems(2) one(2) show ?case by auto
qed simp

text \<open>
  A turn serves every ready descriptor once, in order, and each is still watched when it is served; the
  ones that were not ready stay.
\<close>

lemma select_turn_serves:
  assumes inv: "server_inv sv"
  shows "select_turn H ready sv = serve_all H (sorted_list_of_set (watched sv \<inter> ready)) sv"
    "select_turn H ready sv = Inr sv' \<Longrightarrow> server_inv sv' \<and> watched sv - ready \<subseteq> watched sv'"
proof -
  have w: "finite (watched sv \<inter> ready)" "\<forall>j \<in> watched sv \<inter> ready. j \<le> fdmax sv" "{j \<in> watched sv \<inter> ready. 0 \<le> j} = watched sv \<inter> ready"
    using inv by (auto simp: server_inv_def)
  show eq: "select_turn H ready sv = serve_all H (sorted_list_of_set (watched sv \<inter> ready)) sv"
    unfolding select_turn_def serve_from_all [OF w(1,2)] from_fd_def w(3) ..
  show "server_inv sv' \<and> watched sv - ready \<subseteq> watched sv'" if "select_turn H ready sv = Inr sv'"
    using serve_all_inv [OF inv _ _ that [unfolded eq]] w(1) by auto
qed

end

end
