(* ===== verification/Memory_Process.thy ===== *)
theory Memory_Process
  imports Memory_Server Select_Server Config_File
begin

text \<open>
  The Memory process around its operations: \<open>Memory.c\<close>, \<open>functions/config.c\<close> and \<open>threads/select.c\<close>.
  The loop of \<open>Select_Server\<close> hears the first command of a connection, gives it to a thread of its own
  and watches it no more; the thread closes it.

  \<open>arriving\<close> are the connections that wait for \<open>accept\<close>, which gives the lowest free descriptor, as POSIX
  says; \<open>other_fds\<close> are the open files that are no connection. A thread runs to its end at once, as in
  \<open>Memory_Server\<close>; \<open>first_response\<close> is its variable before the first command.
\<close>

subsection \<open>Configuration\<close>

text \<open>The sizes are natural numbers in \<open>t_memory\<close>, so the file is taken to give no negative ones.\<close>

definition memory_config_read :: "t_config option \<Rightarrow> fault + cstring \<times> t_memory" where
  "memory_config_read file =
     (case file of None \<Rightarrow> Inl Null_Deref | Some config0 \<Rightarrow>
       and_then (config_property config0 ''PUERTO'') (\<lambda>portNumStr.
       and_then (config_int config0 ''MARCOS'') (\<lambda>frames.
       and_then (config_int config0 ''MARCO_SIZE'') (\<lambda>sz.
       and_then (config_int config0 ''ENTRADAS_CACHE'') (\<lambda>entries.
       and_then (config_int config0 ''CACHE_X_PROC'') (\<lambda>perProccess.
       and_then (config_int config0 ''RETARDO_MEMORIA'') (\<lambda>delay.
         Inr (portNumStr, \<lparr>frameCount = nat frames, frameSize = nat sz, cacheEntryCount = nat entries,
           cachePerProccess = nat perProccess, responseDelay = delay\<rparr>))))))))"

subsection \<open>The process\<close>

record t_socket_thread_arg =
  th_socket :: int
  th_command :: "byte list"
  th_nbytes :: int
  th_id :: nat

record memory_process =
  mp_config :: t_memory
  mp_hash :: hash_function
  mp_memory :: mem
  mp_socks :: "int \<Rightarrow> sock"
  mp_open :: "int list"
  other_fds :: "int set"
  arriving :: "sock list"
  threadsList :: "t_socket_thread_arg list"
  nextThread :: nat
  first_response :: int

definition lowest_free :: "int list \<Rightarrow> int" where
  "lowest_free fds = hd (filter (\<lambda>n. n \<notin> set fds) (map int [0..<Suc (length fds)]))"

definition memory_accept :: "memory_process \<Rightarrow> int \<times> memory_process" where
  "memory_accept a =
     (case arriving a of
        [] \<Rightarrow> (-1, a)
      | s # ss \<Rightarrow>
          (let fd = lowest_free (mp_open a)
           in (fd, a\<lparr>arriving := ss, mp_open := fd # mp_open a, mp_socks := (mp_socks a)(fd := s)\<rparr>)))"

definition memory_recv :: "int \<Rightarrow> memory_process \<Rightarrow> int \<times> byte list option \<times> memory_process" where
  "memory_recv fd a =
     (case socket_recv (mp_socks a fd) of (n, b, s) \<Rightarrow> (n, b, a\<lparr>mp_socks := (mp_socks a)(fd := s)\<rparr>))"

definition close_fd :: "int \<Rightarrow> memory_process \<Rightarrow> memory_process" where
  "close_fd fd a = a\<lparr>mp_open := remove1 fd (mp_open a)\<rparr>"

subsection \<open>\<open>threads/select.c\<close>\<close>

definition socket_select_recv_package ::
    "int \<Rightarrow> int \<Rightarrow> byte list \<Rightarrow> int set \<times> memory_process \<Rightarrow> fault + int set \<times> memory_process" where
  "socket_select_recv_package fd byteCount data ma =
     (case ma of (selectSockets, a) \<Rightarrow>
        Inr (selectSockets - {fd},
             a\<lparr>threadsList := threadsList a @ [\<lparr>th_socket = fd, th_command = data, th_nbytes = byteCount, th_id = nextThread a\<rparr>],
               nextThread := nextThread a + 1\<rparr>))"

definition socket_select_connection_lost ::
    "int \<Rightarrow> int \<Rightarrow> int set \<times> memory_process \<Rightarrow> fault + int set \<times> memory_process" where
  "socket_select_connection_lost fd byteCount ma = (case ma of (selectSockets, a) \<Rightarrow> Inr (selectSockets - {fd}, close_fd fd a))"

definition memory_callbacks :: "memory_process callbacks" where
  "memory_callbacks = \<lparr>accept_connection = memory_accept, recv_package = memory_recv,
     connection_lost = socket_select_connection_lost, package_arrived = socket_select_recv_package\<rparr>"

definition start_server :: "int set \<Rightarrow> memory_process server \<Rightarrow> fault + memory_process server" where
  "start_server = select_turn memory_callbacks"

text \<open>A thread, from its first command to the closing of its connection.\<close>

definition run_thread :: "t_socket_thread_arg \<Rightarrow> memory_process \<Rightarrow> fault + memory_process" where
  "run_thread th a =
     (case socket_thread_requests (mp_config a) (mp_hash a) (first_response a) (cstr (th_command th)) (th_nbytes th)
             (mp_memory a) (mp_socks a (th_socket th)) of
        Inl e \<Rightarrow> Inl e
      | Inr (m, s) \<Rightarrow>
          Inr (close_fd (th_socket th) (a\<lparr>mp_memory := m, mp_socks := (mp_socks a)(th_socket th := s),
            threadsList := snd (list_remove_by_condition (\<lambda>t. th_id t = th_id th) (threadsList a))\<rparr>)))"

subsection \<open>\<open>main\<close>\<close>

text \<open>
  The clock, what the blocks of memory hold before they are written, and the descriptor of the listening
  socket come from outside.
\<close>

definition memory_main ::
    "t_config option \<Rightarrow> hash_function \<Rightarrow> (nat \<Rightarrow> byte) \<Rightarrow> (nat \<Rightarrow> byte) \<Rightarrow> (nat \<Rightarrow> int) \<Rightarrow> (nat \<Rightarrow> int) \<Rightarrow> (nat \<Rightarrow> int)
     \<Rightarrow> int \<Rightarrow> int list \<Rightarrow> (int \<Rightarrow> sock) \<Rightarrow> int \<Rightarrow> fault + memory_process server" where
  "memory_main file h rmem0 cmem0 acc0 clk tim listening others conns junk =
     and_then (memory_config_read file) (\<lambda>(port, cfg).
     and_then (memory_init cfg rmem0 cmem0 acc0 clk tim) (\<lambda>m.
       Inr (select_start listening
         \<lparr>mp_config = cfg, mp_hash = h, mp_memory = m, mp_socks = conns, mp_open = listening # others,
          other_fds = set others, arriving = [], threadsList = [], nextThread = 0, first_response = junk\<rparr>)))"

subsection \<open>Steps\<close>

inductive memory_process_step :: "memory_process server \<Rightarrow> memory_process server \<Rightarrow> bool" where
  turn: "start_server ready sv = Inr sv' \<Longrightarrow> memory_process_step sv sv'"
| thread: "th \<in> set (threadsList (process sv)) \<Longrightarrow> run_thread th (process sv) = Inr a \<Longrightarrow>
     memory_process_step sv (sv\<lparr>process := a\<rparr>)"
| clients: "memory_process_step sv (sv\<lparr>process := (process sv)\<lparr>arriving := ss, mp_socks := f\<rparr>\<rparr>)"

inductive memory_process_reachable :: "memory_process server \<Rightarrow> bool" where
  start: "memory_main file h rmem0 cmem0 acc0 clk tim listening others conns junk = Inr sv \<Longrightarrow> 0 \<le> listening \<Longrightarrow> distinct (listening # others) \<Longrightarrow>
     memory_process_reachable sv"
| step: "memory_process_reachable sv \<Longrightarrow> memory_process_step sv sv' \<Longrightarrow> memory_process_reachable sv'"

inductive_cases memory_process_stepE: "memory_process_step sv sv'"

subsection \<open>Connections\<close>

lemma lowest_free_spec: "lowest_free fds \<notin> set fds" "0 \<le> lowest_free fds"
proof -
  have "card (set (map int [0..<Suc (length fds)])) = Suc (length fds)"
    by (subst distinct_card) (auto simp: distinct_map simp del: upt_Suc)
  moreover have "card (set fds) \<le> length fds" by (rule card_length)
  ultimately have "\<not> set (map int [0..<Suc (length fds)]) \<subseteq> set fds"
    by (metis List.finite_set Suc_n_not_le_n card_mono order_trans)
  then have "filter (\<lambda>n. n \<notin> set fds) (map int [0..<Suc (length fds)]) \<noteq> []"
    by (auto simp: filter_empty_conv simp del: upt_Suc)
  then have "lowest_free fds \<in> set (filter (\<lambda>n. n \<notin> set fds) (map int [0..<Suc (length fds)]))"
    unfolding lowest_free_def by (rule hd_in_set)
  then show "lowest_free fds \<notin> set fds" "0 \<le> lowest_free fds" by (auto simp del: upt_Suc)
qed

text \<open>
  Every connection is either watched by the loop or has one thread; nothing else is open but the other
  files of the process, so no descriptor is lost.
\<close>

definition connections_fit :: "int \<Rightarrow> int set \<Rightarrow> memory_process \<Rightarrow> bool" where
  "connections_fit L M a \<longleftrightarrow>
     distinct (mp_open a) \<and> set (mp_open a) = other_fds a \<union> M \<union> set (map th_socket (threadsList a))
     \<and> other_fds a \<inter> M = {} \<and> (other_fds a \<union> M) \<inter> set (map th_socket (threadsList a)) = {}
     \<and> distinct (map th_socket (threadsList a)) \<and> distinct (map th_id (threadsList a))
     \<and> (\<forall>t \<in> set (threadsList a). th_id t < nextThread a)"

interpretation ms: connection_server memory_callbacks connections_fit
proof
  fix L M a newfd a'
  assume "connections_fit L M a" "accept_connection memory_callbacks a = (newfd, a')"
  then show "if newfd = -1 then connections_fit L M a' else 0 \<le> newfd \<and> newfd \<notin> M \<and> connections_fit L (insert newfd M) a'"
    using lowest_free_spec [of "mp_open a"]
    by (auto simp: memory_callbacks_def memory_accept_def Let_def connections_fit_def split: list.splits)
next
  fix L M a i n b a1 M' a'
  assume "connections_fit L M a" "i \<in> M" "recv_package memory_callbacks i a = (n, b, a1)"
    "connection_lost memory_callbacks i n (M, a1) = Inr (M', a')"
  then show "M - {i} \<subseteq> M' \<and> M' \<subseteq> M \<and> connections_fit L M' a'"
    by (auto simp: memory_callbacks_def memory_recv_def socket_select_connection_lost_def close_fd_def connections_fit_def
        disjoint_iff split: prod.splits)
next
  fix L M a i n package a1 M' a'
  assume fit: "connections_fit L M a" and i: "i \<in> M" and r: "recv_package memory_callbacks i a = (n, Some package, a1)"
    and p: "package_arrived memory_callbacks i n package (M, a1) = Inr (M', a')"
  have e: "M' = M - {i}" "mp_open a' = mp_open a" "other_fds a' = other_fds a" "nextThread a' = Suc (nextThread a)"
      "threadsList a' = threadsList a @ [\<lparr>th_socket = i, th_command = package, th_nbytes = n, th_id = nextThread a\<rparr>]"
    using r p by (auto simp: memory_callbacks_def memory_recv_def socket_select_recv_package_def split: prod.splits)
  have "i \<notin> other_fds a" "i \<notin> set (map th_socket (threadsList a))" "nextThread a \<notin> set (map th_id (threadsList a))"
    using fit i by (auto simp: connections_fit_def)
  then have "connections_fit L M' a'" using fit i unfolding connections_fit_def e by (simp add: less_Suc_eq) blast
  then show "M - {i} \<subseteq> M' \<and> M' \<subseteq> M \<and> connections_fit L M' a'" using e(1) by blast
qed

lemma remove_thread:
  "distinct (map th_id ts) \<Longrightarrow> th \<in> set ts \<Longrightarrow> snd (list_remove_by_condition (\<lambda>t. th_id t = th_id th) ts) = remove1 th ts"
  by (induction ts) (auto simp: image_iff split: prod.splits)

lemma map_remove1: "distinct (map g ts) \<Longrightarrow> th \<in> set ts \<Longrightarrow> map g (remove1 th ts) = remove1 (g th) (map g ts)"
  by (induction ts) (auto simp: image_iff)

lemma run_thread_fits:
  assumes fit: "connections_fit L M a" and th: "th \<in> set (threadsList a)" and r: "run_thread th a = Inr a'"
  shows "connections_fit L M a'"
proof -
  let ?ts = "threadsList a"
  have d: "distinct (map th_socket ?ts)" "distinct (map th_id ?ts)" using fit by (simp_all add: connections_fit_def)
  have left: "snd (list_remove_by_condition (\<lambda>t. th_id t = th_id th) ?ts) = remove1 th ?ts" by (rule remove_thread [OF d(2) th])
  have a': "mp_open a' = remove1 (th_socket th) (mp_open a)" "threadsList a' = remove1 th ?ts" "other_fds a' = other_fds a"
    "nextThread a' = nextThread a"
    using r left by (auto simp: run_thread_def close_fd_def split: sum.splits prod.splits)
  have s: "set (map th_socket (remove1 th ?ts)) = set (map th_socket ?ts) - {th_socket th}"
    using map_remove1 [OF d(1) th] d(1) by simp
  have "th_socket th \<in> set (map th_socket ?ts)" using th by simp
  then show ?thesis
    using fit map_remove1 [OF d(1) th] map_remove1 [OF d(2) th] s unfolding connections_fit_def a'
    by (auto simp: distinct_remove1 set_remove1_eq dest: notin_set_remove1)
qed

lemma memory_started:
  assumes "memory_main file h rmem0 cmem0 acc0 clk tim listening others conns junk = Inr sv" "0 \<le> listening" "distinct (listening # others)"
  shows "ms.server_inv sv"
  using assms by (auto simp: memory_main_def and_then_Inr_iff select_start_def ms.server_inv_def connections_fit_def)

lemma memory_reachable_inv: "memory_process_reachable sv \<Longrightarrow> ms.server_inv sv"
proof (induction rule: memory_process_reachable.induct)
  case (step sv sv')
  from step.hyps(2) show ?case
  proof cases
    case (turn ready)
    then show ?thesis using ms.select_turn_serves(2) [OF step.IH] by (simp add: start_server_def)
  next
    case (thread th a)
    then show ?thesis using step.IH run_thread_fits by (auto simp: ms.server_inv_def)
  next
    case (clients ss f)
    have "connections_fit L M (a\<lparr>arriving := ss, mp_socks := f\<rparr>) = connections_fit L M a" for L M a ss f
      by (simp add: connections_fit_def)
    then show ?thesis using step.IH clients by (simp add: ms.server_inv_def)
  qed
qed (rule memory_started)

end
