(* ===== verification/Server_Samples.thy ===== *)
theory Server_Samples
  imports FS_Samples FS_Generator Kernel_Console_Laws Kernel_Samples Memory_Process Samples
begin

text \<open>
  Concrete states of the processes around the operations: the console of the Kernel, the Memory process
  as its configuration file starts it, a disk that is to be prepared.
\<close>

subsection \<open>The console of the Kernel\<close>

definition kcon_1 :: "nat \<Rightarrow> kernel \<Rightarrow> byte list \<Rightarrow> kcons" where
  "kcon_1 n k typed = \<lparr>kern = k, k_input = typed, k_text = [], comando = None, comando_size = n, holding = {}\<rparr>"

lemma kcon_1_simps [simp]:
  "kern (kcon_1 n k t) = k" "k_input (kcon_1 n k t) = t" "k_text (kcon_1 n k t) = []" "comando_size (kcon_1 n k t) = n"
  "holding (kcon_1 n k t) = {}"
  by (simp_all add: kcon_1_def)

lemma degree_typed:
  "\<exists>d'. kernel_turn (kcon_1 24 k (str ''4'' @ 10 # sprintf_i 7 @ 10 # [])) = Inr d' \<and> kern d' = console_multiprogram_degree 7 k"
proof -
  have c: "str ''4'' \<in> set console_commands" by (simp add: console_commands_def)
  have n: "str ''4'' \<noteq> str ''1''" "str ''4'' \<noteq> str ''2''" "str ''4'' \<noteq> str ''3''" by simp_all
  let ?d = "(put_text menu (kcon_1 24 k (str ''4'' @ 10 # sprintf_i 7 @ 10 # [])))\<lparr>k_input := 10 # sprintf_i 7 @ 10 # [], comando := Some (str ''4'')\<rparr>"
  have "\<exists>d'. multiprogram_command ?d = Inr d' \<and> kern d' = console_multiprogram_degree 7 k"
    unfolding multiprogram_command_def by (subst typed_number(2) [where v = 7 and r = "[]"]) simp_all
  moreover have "kernel_turn (kcon_1 24 k (str ''4'' @ 10 # sprintf_i 7 @ 10 # [])) = multiprogram_command ?d"
    using kernel_turn_runs [OF c, of "kcon_1 24 k (str ''4'' @ 10 # sprintf_i 7 @ 10 # [])"] n by (simp add: run_command_def)
  ultimately show ?thesis by simp
qed

lemma waiter_found: "get_program 1 (kernel_2 [] 100) = Inr (Some 1)" "check_pid_is_running 1 (kernel_2 [] 100) = Inr True"
  by (simp_all add: get_program_def check_pid_is_running_def has_pid_def program_4_def program_1_def pcb_1_def)

definition kernel_file :: t_config where
  "kernel_file = map_of (map (\<lambda>(k, v). (str k, str v))
     [(''ALGORITMO'', ''RR''), (''GRADO_MULTIPROG'', ''3''), (''IP_FS'', ''a''), (''IP_MEMORIA'', ''b''), (''PUERTO_CPU'', ''1''),
      (''PUERTO_FS'', ''2''), (''PUERTO_MEMORIA'', ''3''), (''PUERTO_PROG'', ''4''), (''QUANTUM'', ''4''), (''QUANTUM_SLEEP'', ''5''),
      (''STACK_SIZE'', ''2''), (''SEM_IDS'', ''m,b]''), (''SEM_INIT'', ''1,0]''), (''SHARED_VARS'', ''x]'')])"

lemma kernel_file_read:
  "\<exists>k. kernel_main \<lparr>string_get_string_as_array = split_commas []\<rparr> (Some kernel_file) env_1 (\<lambda>_. program_1) (\<lambda>_. sock_1 [] 0) (sock_1 [] 30) remote_1 = Inr k"
  by (simp add: kernel_main_def config_read_def config_int_def config_property_def config_array_def config_read_semaforos_def
      config_read_shared_vars_def kernel_file_def)

lemma kernel_file_keys:
  "kernel_file (str ''SEM_IDS'') = Some (str ''m,b]'')" "kernel_file (str ''SEM_INIT'') = Some (str ''1,0]'')"
  "kernel_file (str ''SHARED_VARS'') = Some (str ''x]'')"
  by (simp_all add: kernel_file_def)

lemma kernel_file_arrays [simp]:
  "split_commas [] (str ''m,b]'') = [str ''m'', str ''b'']" "map atoi (split_commas [] (str ''1,0]'')) = [1, 0]"
  "length (split_commas [] (str ''1,0]'')) = 2" "split_commas [] (str ''x]'') = [str ''x'']"
  by (simp_all add: str_def atoi_def is_space_def is_digit_def)

subsection \<open>The Memory process\<close>

definition memory_file :: t_config where
  "memory_file = map_of (map (\<lambda>(k, v). (str k, str v))
     [(''PUERTO'', ''6669''), (''MARCOS'', ''8''), (''MARCO_SIZE'', ''32''), (''ENTRADAS_CACHE'', ''2''), (''CACHE_X_PROC'', ''1''),
      (''RETARDO_MEMORIA'', ''0'')])"

lemma memory_file_read: "memory_config_read (Some memory_file) = Inr (str ''6669'', cfg_1)"
  by (simp add: memory_config_read_def config_int_def config_property_def memory_file_def cfg_1_def)
    (simp add: str_def atoi_def is_space_def is_digit_def)

definition server_1 :: "memory_process server" where
  "server_1 = select_start 3 \<lparr>mp_config = cfg_1, mp_hash = hash_1, mp_memory = mem_0, mp_socks = (\<lambda>_. sock_1 [] 0), mp_open = [3, 0, 1, 2],
     other_fds = {0, 1, 2}, arriving = [], threadsList = [], nextThread = 0, first_response = 0\<rparr>"

lemma server_1_starts:
  "memory_main (Some memory_file) hash_1 (\<lambda>_. 0) (\<lambda>_. 0) (\<lambda>_. 0) (\<lambda>_. 0) (\<lambda>_. 1) 3 [0, 1, 2] (\<lambda>_. sock_1 [] 0) 0 = Inr server_1"
  by (simp add: memory_main_def memory_file_read memory_init_1 server_1_def)

lemma server_1_reachable: "memory_process_reachable server_1"
  by (rule memory_process_reachable.start [OF server_1_starts]) simp_all

subsection \<open>A disk to prepare\<close>

definition raw_disk :: tree where
  "raw_disk = [([str ''m''], Directory), ([str ''m'', str ''Metadata''], Directory),
     ([str ''m'', str ''Metadata'', str ''Metadata.bin''], Regular (str ''TAMANIO_BLOQUES=8'' @ [10] @ str ''CANTIDAD_BLOQUES=16'')),
     ([str ''m'', str ''Metadata'', str ''Bitmap.bin''], Regular [255, 255])]"

definition prepared_fs :: fs where
  "prepared_fs = \<lparr>fsenv = sample_env 4096 0, punto_montaje = str ''m/'', tamanioBloques = 8, cantidadBloques = 16, bitmap = [],
     tree = AList.update [str ''m'', str ''Metadata'', str ''Bitmap.bin''] (Regular [0, 0]) raw_disk, socketKernel = sock_of [] 0\<rparr>"

lemma raw_paths: "components (str ''m/Metadata/Metadata.bin'') = [str ''m'', str ''Metadata'', str ''Metadata.bin'']"
    "components (str ''m/Metadata/Bitmap.bin'') = [str ''m'', str ''Metadata'', str ''Bitmap.bin'']"
    "\<not> ends_with_slash (str ''m/Metadata/Metadata.bin'')" "\<not> ends_with_slash (str ''m/Metadata/Bitmap.bin'')"
  by (simp_all add: components_def ends_with_slash_def str_def)

lemma raw_lookups: "lookup_path raw_disk (str ''m/Metadata/Bitmap.bin'') = Some (Regular [255, 255])"
    "lookup_path raw_disk (str ''m/Metadata/Metadata.bin'') = Some (Regular (str ''TAMANIO_BLOQUES=8'' @ [10] @ str ''CANTIDAD_BLOQUES=16''))"
    "node_at raw_disk [str ''m''] = Some Directory" "node_at raw_disk [str ''m'', str ''Metadata''] = Some Directory"
  by (simp_all add: lookup_path_def raw_paths raw_disk_def)

lemma raw_metadata: "gen_metadata_read (str ''m/Metadata/Metadata.bin'') (sample_env 4096 0) raw_disk
    = Inr \<lparr>gen_tamanioBloques = 8, gen_cantidadBloques = 16\<rparr>"
proof -
  have "value_text (str ''TAMANIO_BLOQUES'') (str ''TAMANIO_BLOQUES=8'' @ [10] @ str ''CANTIDAD_BLOQUES=16'') = str ''8'' @ [10] @ str ''CANTIDAD_BLOQUES=16''"
    "value_text (str ''CANTIDAD_BLOQUES'') (str ''TAMANIO_BLOQUES=8'' @ [10] @ str ''CANTIDAD_BLOQUES=16'') = str ''16''"
    by (simp_all add: str_def)
  then show ?thesis
    by (simp add: gen_metadata_read_def raw_lookups sample_env_def) (simp add: str_def atoi_def is_space_def is_digit_def)
qed

lemma raw_facts:
  "generator_main (sample_env 4096 0) (prepare_bitmap (str ''m/'')) raw_disk = Inr (tree prepared_fs)"
  "gen_metadata_read (str ''m/'' @ str ''Metadata/Metadata.bin'') (sample_env 4096 0) raw_disk = Inr \<lparr>gen_tamanioBloques = 8, gen_cantidadBloques = 16\<rparr>"
  "lookup_path raw_disk (str ''m/'' @ str ''Metadata/Bitmap.bin'') = Some (Regular [255, 255])"
proof -
  have a: "str ''m/'' @ str ''Metadata/Metadata.bin'' = str ''m/Metadata/Metadata.bin''" "str ''m/'' @ str ''Metadata/Bitmap.bin'' = str ''m/Metadata/Bitmap.bin''"
    by (simp_all add: str_def)
  show m: "gen_metadata_read (str ''m/'' @ str ''Metadata/Metadata.bin'') (sample_env 4096 0) raw_disk = Inr \<lparr>gen_tamanioBloques = 8, gen_cantidadBloques = 16\<rparr>"
    and l: "lookup_path raw_disk (str ''m/'' @ str ''Metadata/Bitmap.bin'') = Some (Regular [255, 255])"
    unfolding a by (rule raw_metadata, rule raw_lookups(1))
  have c: "cstr (str ''m/'') = str ''m/''" "cstr (str ''bitmap'') = str ''bitmap''" "cstr (str ''exit'') = str ''exit''" "last (str ''m/'') = 47" "str ''m/'' \<noteq> []"
    by (simp_all add: cstr_def str_def)
  have e: "inicializarBitmapEnCero (str ''m/Metadata/Bitmap.bin'') \<lparr>gen_tamanioBloques = 8, gen_cantidadBloques = 16\<rparr> (sample_env 4096 0) raw_disk
      = Inr (tree prepared_fs)"
    by (simp add: inicializarBitmapEnCero_def raw_lookups mapped_write_def mapped_limit_def whole_pages_def sample_env_def poke_def
        store_mapped_def raw_paths prepared_fs_def)
  show "generator_main (sample_env 4096 0) (prepare_bitmap (str ''m/'')) raw_disk = Inr (tree prepared_fs)"
    by (simp add: generator_main_def prepare_bitmap_def c concatenarSegundoParametroAlPrimero_def ends_with_char_def a raw_metadata e)
qed

end
