(* ===== verification/Memory_Console.thy ===== *)
theory Memory_Console
  imports Memory_Ops Sockets Process_Control
begin

text \<open>
  The console of the Memory process, \<open>Memory/src/other/debug_console.c\<close>: the delay, the flush of the
  cache, the dumps of the tables and frames, and the sizes.

  A handler answers \<open>None\<close> when the command is not its own, else the text to print. The functions of
  the commons library on strings (\<open>string_trim\<close>, \<open>string_to_lower\<close>, \<open>string_split\<close>, here \<open>words_of_line\<close>) are in \<open>line_env\<close>, with
  the text \<open>printf\<close> makes of the array of tokens, which is passed to it as if it were a string.
  \<open>string_equals_ignore_case\<close> dereferences both arguments. A frame is an address in the block it is in.
\<close>

record line_env =
  string_trim :: "cstring \<Rightarrow> cstring"
  string_to_lower :: "cstring \<Rightarrow> cstring"
  words_of_line :: "cstring \<Rightarrow> cstring list"
  array_text :: "cstring list \<Rightarrow> cstring"

record console =
  lines_env :: line_env
  configMemory :: t_memory
  cmem :: mem
  finished :: bool
  printed :: "cstring list"

definition on_memory :: "(mem \<Rightarrow> mem) \<Rightarrow> console \<Rightarrow> console" where
  "on_memory f d = d\<lparr>cmem := f (cmem d)\<rparr>"

definition set_response_delay :: "int \<Rightarrow> console \<Rightarrow> console" where
  "set_response_delay newResponseDelay d = d\<lparr>configMemory := (configMemory d)\<lparr>responseDelay := newResponseDelay\<rparr>\<rparr>"

subsection \<open>Text\<close>

definition newline :: cstring where "newline = [10]"

text \<open>\<open>string_repeat\<close> with a negative count has no documented result.\<close>

definition align_right :: "cstring \<Rightarrow> nat \<Rightarrow> fault + cstring" where
  "align_right content n =
     (if length content \<le> n then Inr (replicate (n - length content) 32 @ content) else Inl Buffer_Overflow)"

definition align_left :: "cstring \<Rightarrow> nat \<Rightarrow> fault + cstring" where
  "align_left content n =
     (if length content \<le> n then Inr (content @ replicate (n - length content) 32) else Inl Buffer_Overflow)"

text \<open>The loop over the page table: the texts of the table and of the list of processes.\<close>

fun admin_rows :: "t_pageTableEntry list \<Rightarrow> nat \<Rightarrow> int list \<Rightarrow> fault + cstring \<times> cstring" where
  "admin_rows [] i activeProccesses = Inr ([], [])"
| "admin_rows (entry # es) i activeProccesses =
     (let currentPID = pte_PID entry; new = (currentPID \<noteq> -1 \<and> currentPID \<notin> set activeProccesses) in
      and_then (align_right (sprintf_i (int i)) 10) (\<lambda>frameStrAligned.
      and_then (align_right (sprintf_i currentPID) 10) (\<lambda>proccessStrAligned.
      and_then (admin_rows es (i + 1) (if new then activeProccesses @ [currentPID] else activeProccesses)) (\<lambda>(tbl, procs).
        Inr (frameStrAligned @ proccessStrAligned @ str ''.'' @ newline @ tbl,
             (if new then proccessStrAligned @ newline else []) @ procs)))))"

definition stringify_admin_structs :: "console \<Rightarrow> fault + cstring" where
  "stringify_admin_structs d =
     (let r = mram (cmem d) in
      and_then (admin_rows (take (proccessPageCount r) (pageTable r)) 0 []) (\<lambda>(tbl, procs).
        Inr (str (''Tabla de P'' @ [CHR 0xC3, CHR 0xA1] @ ''ginas'') @ newline @ tbl
          @ newline @ newline @ newline @ newline @ str ''Procesos Activos'' @ newline @ procs)))"

subsection \<open>Frames\<close>

type_synonym frame_stringifier = "nat \<Rightarrow> byte list \<Rightarrow> nat \<Rightarrow> fault + cstring"

definition int_at :: "byte list \<Rightarrow> nat \<Rightarrow> nat \<Rightarrow> fault + int" where
  "int_at block0 a i =
     (case blk_read block0 (int (a + 4 * i)) 4 of None \<Rightarrow> Inl Buffer_Overflow | Some bs \<Rightarrow> Inr (i32_of bs))"

text \<open>The loop of \<open>stringify_frame_content_int\<close> with the number of the last integer; \<open>limit\<close> is a \<open>size_t\<close>.\<close>

function int_rows :: "nat \<Rightarrow> byte list \<Rightarrow> nat \<Rightarrow> nat \<Rightarrow> fault + cstring \<times> nat" where
  "int_rows limit block0 a i =
     (if i * 4 < limit then
        and_then (int_at block0 a i) (\<lambda>v.
        and_then (int_rows limit block0 a (i + 1)) (\<lambda>(t, n). Inr (sprintf_i v @ [9] @ t, n)))
      else Inr ([], i))"
  by pat_completeness auto
termination by (relation "measure (\<lambda>(limit, _, _, i). limit - 4 * i)") auto

declare int_rows.simps [simp del]

definition stringify_frame_content_int :: frame_stringifier where
  "stringify_frame_content_int frameSize0 block0 a =
     (let limit = nat ((int frameSize0 - 4) mod 2 ^ 64) in
      and_then (int_rows limit block0 a 0) (\<lambda>(t, i).
      and_then (int_at block0 a i) (\<lambda>lastInt.
        Inr (t @ sprintf_i lastInt @ newline @ str ''hay un exceso de '' @ sprintf_i (int (frameSize0 mod 4))
             @ str '' bytes'' @ newline))))"

definition stringify_frame_content_str :: frame_stringifier where
  "stringify_frame_content_str frameSize0 block0 a =
     (case blk_read block0 (int a) frameSize0 of None \<Rightarrow> Inl Buffer_Overflow | Some bs \<Rightarrow> Inr (cstr bs))"

text \<open>The end of the string is written behind the block of \<open>frameSize\<close> bytes, after all bytes were.\<close>

definition stringify_frame_content_char :: frame_stringifier where
  "stringify_frame_content_char frameSize0 block0 a =
     (case blk_read block0 (int a) frameSize0 of
        None \<Rightarrow> Inl Buffer_Overflow
      | Some bs \<Rightarrow>
          (case blk_write (replicate frameSize0 0) (int frameSize0) [0] of
             None \<Rightarrow> Inl Buffer_Overflow
           | Some _ \<Rightarrow> Inr (map (\<lambda>b. if b = 0 then 46 else b) bs)))"

fun frame_rows ::
    "(t_pageTableEntry \<Rightarrow> bool) \<Rightarrow> (nat \<Rightarrow> fault + cstring) \<Rightarrow> t_pageTableEntry list \<Rightarrow> nat \<Rightarrow> fault + cstring" where
  "frame_rows framePredicate frameText [] i = Inr []"
| "frame_rows framePredicate frameText (e # es) i =
     (if framePredicate e then
        and_then (frameText i) (\<lambda>frameStr.
        and_then (frame_rows framePredicate frameText es (i + 1)) (\<lambda>contents.
          Inr (str ''frame: '' @ sprintf_i (int i) @ str '', PID: '' @ sprintf_i (pte_PID e) @ str '', page: ''
               @ sprintf_i (pte_page e) @ newline @ frameStr @ newline @ contents)))
      else frame_rows framePredicate frameText es (i + 1))"

definition stringify_frames_content :: "(t_pageTableEntry \<Rightarrow> bool) \<Rightarrow> frame_stringifier \<Rightarrow> console \<Rightarrow> fault + cstring" where
  "stringify_frames_content framePredicate frameStringifier d =
     (let cfg = configMemory d; r = mram (cmem d) in
      frame_rows framePredicate (\<lambda>i. frameStringifier (frameSize cfg) (proccessPages r) (get_frame cfg i))
        (take (proccessPageCount r) (pageTable r)) 0)"

definition stringify_proccess_content :: "int \<Rightarrow> frame_stringifier \<Rightarrow> console \<Rightarrow> fault + cstring" where
  "stringify_proccess_content PID = stringify_frames_content (\<lambda>e. pte_PID e = PID)"

definition stringify_all_memory_content :: "frame_stringifier \<Rightarrow> console \<Rightarrow> fault + cstring" where
  "stringify_all_memory_content = stringify_frames_content (\<lambda>_. True)"

fun cache_rows :: "(nat \<Rightarrow> fault + cstring) \<Rightarrow> t_cache_entry list \<Rightarrow> nat \<Rightarrow> fault + cstring" where
  "cache_rows frameText [] i = Inr []"
| "cache_rows frameText (e # es) i =
     and_then (frameText i) (\<lambda>frameStr.
     and_then (cache_rows frameText es (i + 1)) (\<lambda>contents.
       Inr (str ''frame: '' @ sprintf_i (int i) @ str '', PID: '' @ sprintf_i (ce_PID e) @ str '', page: ''
            @ sprintf_i (ce_page e) @ str '', lastAccess: '' @ sprintf_i (ce_lastAccess e mod 2 ^ 64) @ newline
            @ frameStr @ newline @ contents)))"

definition stringify_cache_contents :: "frame_stringifier \<Rightarrow> console \<Rightarrow> fault + cstring" where
  "stringify_cache_contents frameStringifier d =
     (let cfg = configMemory d; c = mcache (cmem d) in
      and_then (cache_rows (\<lambda>i. frameStringifier (frameSize cfg) (cacheContent c) (i * frameSize cfg))
                  (take (cacheEntryCount cfg) (entries c)) 0) (\<lambda>contents.
        Inr (str ''Cache: data cacheada'' @ newline @ contents)))"

subsection \<open>Sizes\<close>

definition occupied_by_proccess_frame_count :: "int \<Rightarrow> console \<Rightarrow> nat" where
  "occupied_by_proccess_frame_count PID d = frame_count (mram (cmem d)) (\<lambda>e. pte_PID e = PID)"

text \<open>\<open>%zd\<close> prints the difference of two \<open>size_t\<close> with its sign.\<close>

definition memory_size_str :: "console \<Rightarrow> cstring" where
  "memory_size_str d =
     (let r = mram (cmem d) in
      str ''Memory Size'' @ newline
      @ str ''frames totales = '' @ sprintf_i (int (frameCount (configMemory d))) @ newline
      @ str ''frames para procesos = '' @ sprintf_i (int (proccessPageCount r)) @ newline
      @ str ''frames libres = '' @ sprintf_i (int (freeFrameCount r)) @ newline
      @ str ''frames okupas = '' @ sprintf_i (int (proccessPageCount r) - int (freeFrameCount r)) @ newline)"

definition proccess_size_str :: "int \<Rightarrow> console \<Rightarrow> cstring" where
  "proccess_size_str PID d =
     str ''El proceso '' @ sprintf_i PID @ str '' ocupa '' @ sprintf_i (int (occupied_by_proccess_frame_count PID d))
     @ str '' frames'' @ newline"

subsection \<open>Commands\<close>

text \<open>\<open>tokens[i]\<close>: the array ends with a null pointer, behind which nothing is read.\<close>

definition token :: "cstring list \<Rightarrow> nat \<Rightarrow> cstring option" where
  "token tokens i = (if i < length tokens then Some (tokens ! i) else None)"

definition token_is :: "cstring option \<Rightarrow> string \<Rightarrow> fault + bool" where
  "token_is t word0 = (case t of None \<Rightarrow> Inl Null_Deref | Some s \<Rightarrow> Inr (string_equals_ignore_case s (str word0)))"

text \<open>The result of \<open>strtol\<close>, which stops at the bounds of a \<open>long\<close>, put into an \<open>int\<close>.\<close>

definition strtol_int :: "cstring \<Rightarrow> int" where
  "strtol_int s = int_of_wide (max (- (2 ^ 63)) (min (2 ^ 63 - 1) (atoi s)))"

definition str_to_PID :: "cstring option \<Rightarrow> int" where
  "str_to_PID s =
     (case s of
        None \<Rightarrow> -1
      | Some s \<Rightarrow>
          (let pid0 = strtol_int s in
           if pid0 > 0 then pid0 else if string_equals_ignore_case s (str ''0'') then 0 else -1))"

type_synonym handled = "fault + cstring option \<times> console"

definition handle_delay :: "cstring list \<Rightarrow> console \<Rightarrow> handled" where
  "handle_delay tokens d =
     and_then (token_is (token tokens 0) ''ret'') (\<lambda>ret.
       case token tokens 1 of
         Some arg \<Rightarrow>
           if ret then
             (let newDelay = strtol_int arg in
              if newDelay > -1 then
                Inr (Some (str ''[ret] nuevo delay = '' @ sprintf_i newDelay @ str '' (anterior era ''
                       @ sprintf_i (responseDelay (configMemory d)) @ str '')''), set_response_delay newDelay d)
              else Inr (Some (str ''[ret] argumento '' @ arg @ str '' es invalido tiene q ser un entero positivo''), d))
           else Inr (None, d)
       | None \<Rightarrow> Inr (None, d))"

definition handle_flush :: "cstring list \<Rightarrow> console \<Rightarrow> handled" where
  "handle_flush tokens d =
     and_then (token_is (token tokens 0) ''flu'') (\<lambda>flu.
       if flu then
         Inr (Some (str ''[flu] se limpio la cache''),
              on_memory (\<lambda>m. m\<lparr>mcache := cache_flush (configMemory d) (mcache m)\<rparr>) d)
       else Inr (None, d))"

text \<open>The first of the next three tokens that names a way to show a frame.\<close>

fun stringifier_from :: "cstring option list \<Rightarrow> frame_stringifier" where
  "stringifier_from [] = stringify_frame_content_int"
| "stringifier_from (None # ts) = stringify_frame_content_int"
| "stringifier_from (Some t # ts) =
     (if string_equals_ignore_case t (str ''str'') then stringify_frame_content_str
      else if string_equals_ignore_case t (str ''char'') then stringify_frame_content_char
      else stringifier_from ts)"

definition frame_stringifier_from_tokens :: "cstring list \<Rightarrow> frame_stringifier" where
  "frame_stringifier_from_tokens tokens = stringifier_from (map (token tokens) [1, 2, 3])"

definition shown :: "console \<Rightarrow> cstring \<Rightarrow> handled" where
  "shown d t = Inr (Some t, d)"

definition dump_cont :: "cstring list \<Rightarrow> console \<Rightarrow> handled" where
  "dump_cont tokens d =
     and_then (token_is (token tokens 2) ''*'') (\<lambda>star.
     and_then (token_is (token tokens 2) ''str'') (\<lambda>as_str.
       if star \<or> as_str then
         and_then (stringify_all_memory_content (frame_stringifier_from_tokens tokens) d) (shown d)
       else
         (let PID = str_to_PID (token tokens 2) in
          if PID > -1 then
            and_then (stringify_proccess_content PID (frame_stringifier_from_tokens tokens) d) (shown d)
          else shown d (str ''[dump cont] no pude parsear bien el PID \"'' @ tokens ! 0 @ str '' '' @ tokens ! 1
                 @ str '' '' @ tokens ! 2 @ str ''\"''))))"

definition handle_dump :: "cstring list \<Rightarrow> console \<Rightarrow> handled" where
  "handle_dump tokens d =
     and_then (token_is (token tokens 0) ''dump'') (\<lambda>dump.
       if \<not> dump then Inr (None, d)
       else
         and_then (token_is (token tokens 1) ''cache'') (\<lambda>cache0.
         if cache0 then and_then (stringify_cache_contents (frame_stringifier_from_tokens tokens) d) (shown d)
         else and_then (token_is (token tokens 1) ''structs'') (\<lambda>structs.
         if structs then and_then (stringify_admin_structs d) (shown d)
         else and_then (token_is (token tokens 1) ''cont'') (\<lambda>cont.
         if cont then dump_cont tokens d else Inr (None, d)))))"

definition handle_size :: "cstring list \<Rightarrow> console \<Rightarrow> handled" where
  "handle_size tokens d =
     and_then (token_is (token tokens 0) ''size'') (\<lambda>sz.
       if \<not> sz then Inr (None, d)
       else
         and_then (token_is (token tokens 1) ''mem'') (\<lambda>mem0.
         if mem0 then shown d (memory_size_str d)
         else
           (let pid0 = str_to_PID (token tokens 1) in
            if pid0 > -1 then shown d (proccess_size_str pid0 d)
            else shown d (str (''[size] no se argumento qu'' @ [CHR 0xC3, CHR 0xA9] @ '' hacer con argument '')
                   @ tokens ! 1))))"

definition handle_exit :: "cstring list \<Rightarrow> console \<Rightarrow> handled" where
  "handle_exit tokens d =
     and_then (token_is (token tokens 0) ''exit'') (\<lambda>ex.
       if ex then Inr (Some (str ''Memoria se cierra''), d\<lparr>finished := True\<rparr>) else Inr (None, d))"

definition commandHandlers :: "(cstring list \<Rightarrow> console \<Rightarrow> handled) list" where
  "commandHandlers = [handle_delay, handle_flush, handle_dump, handle_size, handle_exit]"

fun try_handlers :: "(cstring list \<Rightarrow> console \<Rightarrow> handled) list \<Rightarrow> cstring list \<Rightarrow> console \<Rightarrow> handled" where
  "try_handlers [] commandTokens d = Inr (None, d)"
| "try_handlers (handler # hs) commandTokens d =
     and_then (handler commandTokens d) (\<lambda>(resultInfo, d1).
       case resultInfo of None \<Rightarrow> try_handlers hs commandTokens d1 | Some t \<Rightarrow> Inr (Some t, d1))"

definition proccess_command :: "cstring list \<Rightarrow> console \<Rightarrow> fault + cstring \<times> console" where
  "proccess_command commandTokens d =
     and_then (try_handlers commandHandlers commandTokens d) (\<lambda>(resultInfo, d1).
       case resultInfo of
         Some t \<Rightarrow> Inr (t, d1)
       | None \<Rightarrow> Inr (str ''['' @ array_text (lines_env d) commandTokens
                   @ str (''] no es un comando v'' @ [CHR 0xC3, CHR 0xA1] @ ''lido.''), d1))"

text \<open>A line as \<open>getline\<close> reads it: its last byte is overwritten.\<close>

definition get_input :: "line_env \<Rightarrow> byte list \<Rightarrow> cstring" where
  "get_input e line = string_to_lower e (string_trim e (cstr (butlast line)))"

definition console_turn :: "byte list \<Rightarrow> console \<Rightarrow> fault + console" where
  "console_turn line d =
     (let tokens = words_of_line (lines_env d) (get_input (lines_env d) line) in
      if tokens = [] then Inr d
      else and_then (proccess_command tokens d) (\<lambda>(resultInfo, d1).
             Inr (d1\<lparr>printed := printed d1 @ [resultInfo @ newline]\<rparr>)))"

text \<open>
  The loop over the lines of the input. At its end \<open>getline\<close> answers -1, and the end of the string is
  written two bytes before the buffer.
\<close>

fun debug_console :: "byte list list \<Rightarrow> console \<Rightarrow> fault + console" where
  "debug_console [] d = (if finished d then Inr d else Inl Buffer_Overflow)"
| "debug_console (line # ls) d =
     (if finished d then Inr d else and_then (console_turn line d) (debug_console ls))"

end
