(* ===== verification/Memory_Console_Laws.thy ===== *)
theory Memory_Console_Laws
  imports Memory_Console
begin

text \<open>
  What the console of the Memory process does: no command changes what a process finds in memory, the
  sizes it prints are the true ones, a dump shows the integers of a frame, and where it stops the process.
\<close>

subsection \<open>The pages stay\<close>

lemma delay_irrelevant [simp]:
  "frameSize (cfg\<lparr>responseDelay := x\<rparr>) = frameSize cfg"
  "mem_inv (cfg\<lparr>responseDelay := x\<rparr>) m = mem_inv cfg m"
  "byte_at (cfg\<lparr>responseDelay := x\<rparr>) m = byte_at cfg m"
  by (simp_all add: mem_inv_def ram_inv_def ram_shape_def cache_inv_def coherent_def page_at_def byte_at_def fun_eq_iff)

text \<open>A command only changes the delay and what is cached, and keeps the invariant.\<close>

definition pages_stay :: "console \<Rightarrow> console \<Rightarrow> bool" where
  "pages_stay d d' \<longleftrightarrow> mram (cmem d') = mram (cmem d) \<and> (\<exists>x. configMemory d' = (configMemory d)\<lparr>responseDelay := x\<rparr>)
     \<and> (mem_inv (configMemory d) (cmem d) \<longrightarrow> mem_inv (configMemory d) (cmem d'))"

lemma same_delay: "\<exists>x. cfg = cfg\<lparr>responseDelay := x\<rparr>"
  by (rule exI [of _ "responseDelay cfg"]) simp

lemma pages_stay_refl [simp]: "pages_stay d d"
  by (simp add: pages_stay_def same_delay)

lemma pages_stay_printed [simp]: "pages_stay d (d\<lparr>finished := b\<rparr>)" "pages_stay d (d\<lparr>printed := ps\<rparr>)"
  by (simp_all add: pages_stay_def same_delay)

lemma pages_stay_delay [simp]: "pages_stay d (set_response_delay x d)"
  by (auto simp: pages_stay_def set_response_delay_def)

lemma pages_stay_trans: "pages_stay a b \<Longrightarrow> pages_stay b c \<Longrightarrow> pages_stay a c"
  by (auto simp: pages_stay_def)

lemma flush_inv: "mem_inv cfg m \<Longrightarrow> mem_inv cfg (m\<lparr>mcache := cache_flush cfg (mcache m)\<rparr>)"
  by (simp add: mem_inv_def cache_flush_spec coherent_def)

lemma pages_stay_flush [simp]:
  "pages_stay d (on_memory (\<lambda>m. m\<lparr>mcache := cache_flush (configMemory d) (mcache m)\<rparr>) d)"
  using flush_inv [of "configMemory d" "cmem d"] by (simp add: pages_stay_def on_memory_def same_delay)

lemma handlers_keep:
  assumes "h \<in> set commandHandlers" "h tokens d = Inr (t, d')"
  shows "pages_stay d d'"
  using assms
  by (auto simp: commandHandlers_def handle_delay_def handle_flush_def handle_dump_def dump_cont_def handle_size_def
      handle_exit_def shown_def Let_def split: option.splits if_splits elim!: and_thenE)

lemma try_handlers_keep:
  "set hs \<subseteq> set commandHandlers \<Longrightarrow> try_handlers hs tokens d = Inr (t, d') \<Longrightarrow> pages_stay d d'"
proof (induction hs arbitrary: d)
  case (Cons h hs)
  then obtain r d1 where "h tokens d = Inr (r, d1)" "(case r of None \<Rightarrow> try_handlers hs tokens d1 | Some t \<Rightarrow> Inr (Some t, d1)) = Inr (t, d')"
    by (auto elim!: and_thenE)
  moreover from this have "pages_stay d d1" using Cons.prems handlers_keep by auto
  ultimately show ?case using Cons by (auto split: option.splits intro: pages_stay_trans)
qed simp

lemma console_turn_keeps: "console_turn line d = Inr d' \<Longrightarrow> pages_stay d d'"
  by (auto simp: console_turn_def proccess_command_def Let_def split: if_splits option.splits elim!: and_thenE
      intro: pages_stay_trans dest!: try_handlers_keep [OF subset_refl])

lemma debug_console_keeps: "debug_console ls d = Inr d' \<Longrightarrow> pages_stay d d'"
proof (induction ls d rule: debug_console.induct)
  case (2 line ls d)
  then show ?case by (auto split: if_splits elim!: and_thenE intro: pages_stay_trans console_turn_keeps)
qed (auto split: if_splits)

lemma pages_stay_bytes:
  assumes "pages_stay d d'" "mem_inv (configMemory d) (cmem d)"
  shows "mem_inv (configMemory d') (cmem d')" "byte_at (configMemory d') (cmem d') = byte_at (configMemory d) (cmem d)"
proof -
  obtain x where "configMemory d' = (configMemory d)\<lparr>responseDelay := x\<rparr>" using assms(1) by (auto simp: pages_stay_def)
  then show "mem_inv (configMemory d') (cmem d')" "byte_at (configMemory d') (cmem d') = byte_at (configMemory d) (cmem d)"
    using assms by (auto simp: pages_stay_def byte_at_def page_at_def fun_eq_iff)
qed

subsection \<open>Sizes\<close>

lemma frame_count_split: "frame_count r P + frame_count r (\<lambda>e. \<not> P e) = length (take (proccessPageCount r) (pageTable r))"
  unfolding frame_count_def by (rule sum_length_filter_compl)

lemma occupied_frames:
  assumes "ram_inv cfg r"
  shows "int (proccessPageCount r) - int (freeFrameCount r) = int (frame_count r is_frame_occupied)"
proof -
  have "is_frame_occupied = (\<lambda>e. \<not> is_frame_free e)" by (auto simp: is_frame_occupied_def is_frame_free_def)
  then show ?thesis
    using frame_count_split [of r is_frame_free] assms by (simp add: ram_inv_def ram_shape_def min_absorb2)
qed

text \<open>The frames of a process are its pages.\<close>

lemma process_frames:
  assumes "ram_inv cfg r" "PID \<noteq> -1"
  shows "frame_count r (\<lambda>e. pte_PID e = PID) = card {page. frame_of r (PID, page) \<noteq> None}"
proof -
  let ?I = "{i. i < proccessPageCount r \<and> pte_PID (pageTable r ! i) = PID}"
  have n: "proccessPageCount r \<le> length (pageTable r)" using assms(1) by (simp add: ram_inv_def ram_shape_def)
  have u: "unique_pages r" using assms(1) by (simp add: ram_inv_def)
  have "frame_count r (\<lambda>e. pte_PID e = PID) = card ?I"
    using n by (simp add: frame_count_def length_filter_conv_card min_def conj_commute cong: conj_cong)
  moreover have "card ((\<lambda>i. pte_page (pageTable r ! i)) ` ?I) = card ?I"
  proof (rule card_image, rule inj_onI)
    fix i j assume "i \<in> ?I" "j \<in> ?I" "pte_page (pageTable r ! i) = pte_page (pageTable r ! j)"
    moreover from this have "pageTable r ! i = pageTable r ! j" by simp
    ultimately show "i = j" using u assms(2) by (auto simp: unique_pages_def is_frame_occupied_def)
  qed
  moreover have "{page. frame_of r (PID, page) \<noteq> None} = (\<lambda>i. pte_page (pageTable r ! i)) ` ?I"
  proof (intro set_eqI iffI)
    fix page assume "page \<in> {page. frame_of r (PID, page) \<noteq> None}"
    then obtain i where "frame_of r (PID, page) = Some i" by auto
    from frame_of_SomeD [OF this] show "page \<in> (\<lambda>i. pte_page (pageTable r ! i)) ` ?I"
      by (auto simp: entry_has_PID_page_def image_iff)
  next
    fix page assume "page \<in> (\<lambda>i. pte_page (pageTable r ! i)) ` ?I"
    then obtain i where "i < proccessPageCount r" "entry_has_PID_page (pageTable r ! i) PID page"
      by (auto simp: entry_has_PID_page_def)
    then show "page \<in> {page. frame_of r (PID, page) \<noteq> None}"
      using frame_of_None_iff [of "(PID, page)" r] assms(2) by auto
  qed
  ultimately show ?thesis by simp
qed

subsection \<open>Dumps of a frame\<close>

lemma int_at_in: "a + 4 * i + 4 \<le> length b \<Longrightarrow> int_at b a i = Inr (i32_of (peek (a + 4 * i) 4 b))"
  unfolding int_at_def blk_read_def nat_int by simp

lemma int_at_out: "length b < a + 4 * i + 4 \<Longrightarrow> int_at b a i = Inl Buffer_Overflow"
  unfolding int_at_def blk_read_def nat_int by simp

definition int_row :: "byte list \<Rightarrow> nat \<Rightarrow> nat \<Rightarrow> cstring" where
  "int_row b a i = sprintf_i (i32_of (peek (a + 4 * i) 4 b)) @ [9]"

text \<open>The loop up to a limit: it reads the integers that begin below it.\<close>

lemma int_rows_in:
  "a + limit + 4 \<le> length b \<Longrightarrow> i \<le> (limit + 3) div 4 \<Longrightarrow>
     int_rows limit b a i = Inr (concat (map (int_row b a) [i..<(limit + 3) div 4]), (limit + 3) div 4)"
proof (induction "limit - 4 * i" arbitrary: i rule: less_induct)
  case less
  show ?case
  proof (cases "i * 4 < limit")
    case True
    have "int_rows limit b a (i + 1) = Inr (concat (map (int_row b a) [i + 1..<(limit + 3) div 4]), (limit + 3) div 4)"
      by (rule less.hyps) (use True less.prems in simp_all)
    moreover have "i < (limit + 3) div 4" using True by simp
    moreover have "int_at b a i = Inr (i32_of (peek (a + 4 * i) 4 b))" by (rule int_at_in) (use True less.prems(1) in simp)
    ultimately show ?thesis
      using True by (subst int_rows.simps) (simp add: int_row_def upt_conv_Cons mult.commute)
  next
    case False
    then have "i = (limit + 3) div 4" using less.prems(2) by linarith
    then show ?thesis using False by (subst int_rows.simps) simp
  qed
qed

lemma int_rows_out: "int_rows limit b a i = Inr (t, n) \<Longrightarrow> limit \<le> 4 * n \<and> (i < n \<longrightarrow> a + 4 * n \<le> length b)"
proof (induction "limit - 4 * i" arbitrary: i t rule: less_induct)
  case less
  show ?case
  proof (cases "i * 4 < limit")
    case True
    then obtain v t' where v: "int_at b a i = Inr v" "int_rows limit b a (i + 1) = Inr (t', n)"
      using less.prems by (subst (asm) int_rows.simps) (auto elim!: and_thenE)
    have "limit \<le> 4 * n \<and> (i + 1 < n \<longrightarrow> a + 4 * n \<le> length b)"
      by (rule less.hyps [OF _ v(2)]) (use True in simp)
    moreover have "a + 4 * i + 4 \<le> length b" using v(1) int_at_out [of b a i] by fastforce
    moreover have "i + 1 < n \<or> n = i + 1" if "i < n" using that by linarith
    ultimately show ?thesis by (auto simp: algebra_simps)
  next
    case False
    then show ?thesis using less.prems by (subst (asm) int_rows.simps) simp
  qed
qed

lemma int_rows_fault: "int_rows limit b a i = Inl e \<Longrightarrow> e = Buffer_Overflow"
proof (induction limit b a i rule: int_rows.induct)
  case (1 limit b a i)
  show ?case
  proof (cases "i * 4 < limit")
    case True
    show ?thesis
    proof (cases "int_at b a i")
      case (Inr v)
      with True 1(2) have "int_rows limit b a (i + 1) = Inl e"
        by (subst (asm) int_rows.simps) (auto simp: and_then_def split: sum.splits)
      then show ?thesis using 1(1) True Inr by blast
    qed (use True 1(2) in \<open>subst (asm) int_rows.simps, auto simp: int_at_def split: option.splits\<close>)
  qed (use 1(2) in \<open>subst (asm) int_rows.simps, simp\<close>)
qed

text \<open>
  A frame whose size is a multiple of four shows all its integers. Otherwise the last one is read beyond
  the frame, and for the last frame beyond the block.
\<close>

lemma dump_ints:
  assumes "F = 4 * n" "0 < n" "F < 2 ^ 31" "a + F \<le> length b"
  shows "stringify_frame_content_int F b a = Inr (concat (map (int_row b a) [0..<n - 1])
    @ sprintf_i (i32_of (peek (a + 4 * (n - 1)) 4 b)) @ newline @ str ''hay un exceso de '' @ sprintf_i 0 @ str '' bytes'' @ newline)"
proof -
  have "nat ((int F - 4) mod 2 ^ 64) = 4 * (n - 1)" using assms(1-3) by (simp add: of_nat_diff nat_eq_iff)
  moreover have "(4 * (n - 1) + 3) div 4 = n - 1" by simp
  moreover have "int_at b a (n - 1) = Inr (i32_of (peek (a + 4 * (n - 1)) 4 b))"
    by (rule int_at_in) (use assms in \<open>simp add: algebra_simps\<close>)
  ultimately show ?thesis
    using int_rows_in [of a "4 * (n - 1)" b 0] assms by (simp add: stringify_frame_content_int_def Let_def)
qed

lemma dump_ints_beyond:
  assumes "F mod 4 \<noteq> 0" "F < 2 ^ 31" "length b = a + F"
  shows "stringify_frame_content_int F b a = Inl Buffer_Overflow"
proof -
  let ?limit = "nat ((int F - 4) mod 2 ^ 64)"
  show ?thesis
  proof (cases "int_rows ?limit b a 0")
    case (Inr r)
    obtain t n where r: "int_rows ?limit b a 0 = Inr (t, n)" using Inr by (cases r) simp
    have n: "?limit \<le> 4 * n" "0 < n \<longrightarrow> a + 4 * n \<le> length b" using int_rows_out [OF r] by simp_all
    have "F < 4 * n + 4"
    proof (cases "F < 4")
      case True
      then show ?thesis by simp
    next
      case False
      then have "?limit = F - 4" using assms(2) by (simp add: nat_eq_iff of_nat_diff)
      with n(1) have "F \<le> 4 * n + 4" by simp
      moreover have "F \<noteq> 4 * n + 4" using assms(1) by auto
      ultimately show ?thesis by simp
    qed
    then have "int_at b a n = Inl Buffer_Overflow" using assms(3) by (intro int_at_out) simp
    then show ?thesis unfolding stringify_frame_content_int_def Let_def r by simp
  next
    case (Inl e)
    from int_rows_fault [OF Inl] have "e = Buffer_Overflow" .
    then show ?thesis unfolding stringify_frame_content_int_def Let_def Inl by simp
  qed
qed

lemma dump_char_overflows: "stringify_frame_content_char F b a = Inl Buffer_Overflow"
  by (simp add: stringify_frame_content_char_def blk_write_def split: option.split)

subsection \<open>Commands\<close>

lemma words [simp]:
  "string_equals_ignore_case (str a) (str b) \<longleftrightarrow> map to_lower (str a) = map to_lower (str b)"
  by (simp add: string_equals_ignore_case_def)

lemma frame_rows_fails:
  assumes "\<And>i e. frameText i = Inl e \<Longrightarrow> e = Buffer_Overflow"
    "j < length es" "framePredicate (es ! j)" "frameText (k + j) = Inl Buffer_Overflow"
  shows "frame_rows framePredicate frameText es k = Inl Buffer_Overflow"
  using assms(2-4)
proof (induction es arbitrary: j k)
  case (Cons e es)
  show ?case
  proof (cases j)
    case 0
    then show ?thesis using Cons.prems by simp
  next
    case (Suc i)
    then have "frame_rows framePredicate frameText es (k + 1) = Inl Buffer_Overflow"
      using Cons.prems by (intro Cons.IH [of i]) simp_all
    then show ?thesis using assms(1) by (cases "frameText k") auto
  qed
qed simp

lemma frame_rows_shown:
  assumes "\<And>i. i < length es \<Longrightarrow> framePredicate (es ! i) \<Longrightarrow> frameText (k + i) = Inr (t (k + i))"
  shows "frame_rows framePredicate frameText es k = Inr (concat (map (\<lambda>i.
      str ''frame: '' @ sprintf_i (int (k + i)) @ str '', PID: '' @ sprintf_i (pte_PID (es ! i)) @ str '', page: ''
        @ sprintf_i (pte_page (es ! i)) @ newline @ t (k + i) @ newline) (filter (\<lambda>i. framePredicate (es ! i)) [0..<length es])))"
  using assms
proof (induction es arbitrary: k)
  case (Cons e es)
  have "frame_rows framePredicate frameText es (k + 1) = Inr (concat (map (\<lambda>i.
      str ''frame: '' @ sprintf_i (int (k + 1 + i)) @ str '', PID: '' @ sprintf_i (pte_PID (es ! i)) @ str '', page: ''
        @ sprintf_i (pte_page (es ! i)) @ newline @ t (k + 1 + i) @ newline) (filter (\<lambda>i. framePredicate (es ! i)) [0..<length es])))"
    using Cons.prems [of "Suc i" for i] by (intro Cons.IH) simp
  moreover have "framePredicate e \<Longrightarrow> frameText k = Inr (t k)" using Cons.prems [of 0] by simp
  moreover have "[0..<length (e # es)] = 0 # map Suc [0..<length es]" by (simp add: upt_conv_Cons map_Suc_upt del: upt_Suc)
  ultimately show ?case by (simp add: filter_map o_def algebra_simps)
qed simp

lemma stringify_int_fault: "stringify_frame_content_int F b a = Inl e \<Longrightarrow> e = Buffer_Overflow"
  unfolding stringify_frame_content_int_def Let_def
  by (auto simp: and_then_def int_at_def split: sum.splits option.splits dest: int_rows_fault)

definition dump_all :: "cstring list" where
  "dump_all = [str ''dump'', str ''cont'', str ''*'']"

lemma dump_all_command:
  "proccess_command dump_all d = and_then (stringify_all_memory_content stringify_frame_content_int d) (\<lambda>t. Inr (t, d))"
proof -
  have other: "handle_delay dump_all d = Inr (None, d)" "handle_flush dump_all d = Inr (None, d)"
    by (simp_all add: handle_delay_def handle_flush_def dump_all_def token_def token_is_def str_def to_lower_def
        string_equals_ignore_case_def)
  have "frame_stringifier_from_tokens dump_all = stringify_frame_content_int"
    by (simp add: frame_stringifier_from_tokens_def dump_all_def token_def str_def to_lower_def string_equals_ignore_case_def)
  moreover have "token dump_all 0 = Some (str ''dump'')" "token dump_all 1 = Some (str ''cont'')" "token dump_all 2 = Some (str ''*'')"
    by (simp_all add: dump_all_def token_def)
  ultimately have "handle_dump dump_all d = and_then (stringify_all_memory_content stringify_frame_content_int d) (shown d)"
    by (simp add: handle_dump_def dump_cont_def token_is_def str_def to_lower_def string_equals_ignore_case_def)
  then show ?thesis
    by (simp add: proccess_command_def commandHandlers_def other shown_def and_then_def split: sum.splits)
qed

text \<open>What is shown of a frame.\<close>

definition shown_frame :: "console \<Rightarrow> nat \<Rightarrow> nat \<Rightarrow> cstring" where
  "shown_frame d n i =
     (let b = proccessPages (mram (cmem d)); a = i * (4 * n); e = pageTable (mram (cmem d)) ! i in
      str ''frame: '' @ sprintf_i (int i) @ str '', PID: '' @ sprintf_i (pte_PID e) @ str '', page: '' @ sprintf_i (pte_page e)
      @ newline @ concat (map (int_row b a) [0..<n - 1]) @ sprintf_i (i32_of (peek (a + 4 * (n - 1)) 4 b)) @ newline
      @ str ''hay un exceso de '' @ sprintf_i 0 @ str '' bytes'' @ newline @ newline)"

lemma map_cong_upt: "n = m \<Longrightarrow> (\<And>i. i < m \<Longrightarrow> f i = g i) \<Longrightarrow> map f [0..<n] = map g [0..<m]"
  by simp

lemma dump_all_shows:
  assumes "ram_inv (configMemory d) (mram (cmem d))" "frameSize (configMemory d) = 4 * n" "frameSize (configMemory d) < 2 ^ 31"
  shows "proccess_command dump_all d = Inr (concat (map (shown_frame d n) [0..<proccessPageCount (mram (cmem d))]), d)"
proof -
  let ?r = "mram (cmem d)" and ?F = "frameSize (configMemory d)"
  have shape: "0 < ?F" "proccessPageCount ?r \<le> length (pageTable ?r)" "length (proccessPages ?r) = proccessPageCount ?r * ?F"
    using assms(1) by (simp_all add: ram_inv_def ram_shape_def)
  let ?t = "\<lambda>i. concat (map (int_row (proccessPages ?r) (i * ?F)) [0..<n - 1])
      @ sprintf_i (i32_of (peek (i * ?F + 4 * (n - 1)) 4 (proccessPages ?r))) @ newline
      @ str ''hay un exceso de '' @ sprintf_i 0 @ str '' bytes'' @ newline"
  have frames: "stringify_frame_content_int ?F (proccessPages ?r) (get_frame (configMemory d) i) = Inr (?t i)"
    if "i < proccessPageCount ?r" for i
  proof -
    have "(i + 1) * ?F \<le> proccessPageCount ?r * ?F" using that by (intro mult_right_mono) simp_all
    then show ?thesis unfolding get_frame_def by (intro dump_ints) (use assms(2,3) shape in simp_all)
  qed
  have "stringify_all_memory_content stringify_frame_content_int d
      = Inr (concat (map (shown_frame d n) [0..<proccessPageCount ?r]))"
    unfolding stringify_all_memory_content_def stringify_frames_content_def Let_def
    by (subst frame_rows_shown [where t = ?t])
      (use frames shape(2) in \<open>simp_all add: min_absorb2\<close>,
        rule arg_cong [where f = concat], rule map_cong_upt [OF refl], simp add: shown_frame_def Let_def assms(2))
  then show ?thesis by (simp add: dump_all_command)
qed

lemma dump_all_stops:
  assumes "ram_inv (configMemory d) (mram (cmem d))" "frameSize (configMemory d) mod 4 \<noteq> 0" "frameSize (configMemory d) < 2 ^ 31"
  shows "proccess_command dump_all d = Inl Buffer_Overflow"
proof -
  let ?r = "mram (cmem d)" and ?F = "frameSize (configMemory d)"
  let ?j = "proccessPageCount ?r - 1"
  have shape: "0 < proccessPageCount ?r" "proccessPageCount ?r \<le> length (pageTable ?r)"
    "length (proccessPages ?r) = proccessPageCount ?r * ?F"
    using assms(1) by (simp_all add: ram_inv_def ram_shape_def)
  have "length (proccessPages ?r) = get_frame (configMemory d) ?j + ?F"
    using shape by (simp add: get_frame_def diff_mult_distrib)
  then have "stringify_frame_content_int ?F (proccessPages ?r) (get_frame (configMemory d) (0 + ?j)) = Inl Buffer_Overflow"
    using dump_ints_beyond [OF assms(2,3)] by simp
  then have "stringify_all_memory_content stringify_frame_content_int d = Inl Buffer_Overflow"
    unfolding stringify_all_memory_content_def stringify_frames_content_def Let_def
    by (intro frame_rows_fails [where j = ?j]) (use shape stringify_int_fault in simp_all)
  then show ?thesis by (simp add: dump_all_command)
qed

text \<open>Commands without the argument they need.\<close>

lemma bare_commands:
  "proccess_command [str ''dump''] d = Inl Null_Deref" "proccess_command [str ''dump'', str ''cont''] d = Inl Null_Deref"
  "proccess_command [str ''size''] d = Inl Null_Deref"
  by (simp_all add: proccess_command_def commandHandlers_def handle_delay_def handle_flush_def handle_dump_def dump_cont_def
      handle_size_def token_def token_is_def str_def to_lower_def string_equals_ignore_case_def)

end
