(* ===== verification/Console_Process.thy ===== *)
theory Console_Process
  imports FS_Client Process_Control
begin

text \<open>
  The Console process: \<open>Console/src/threads/program.c\<close>, one thread for each program the user started,
  \<open>functions/commands.c\<close> and the loop of \<open>Console.c\<close>.

  A \<open>t_program\<close> is on the heap, so the list \<open>programs\<close> holds pointers into the store; \<open>freed\<close> are the
  ones \<open>thread_program_destroy\<close> has freed. What comes from outside is in the state: the files of the
  machine, the time, and the connections, on which bytes arrive. The commands of the user run in the main
  thread; \<open>pthread_cancel\<close> ends the thread of a program at its next system call, so that it is
  \<open>cancelled\<close> here at once.
\<close>

record c_program =
  c_pid :: int
  pathProgram :: cstring
  socketKernel_c :: sock
  stringInicioEjecucion :: cstring
  timestampInicio :: int
  cantImpresionesPantalla :: int

record cons =
  c_store :: "nat \<Rightarrow> c_program"
  c_next :: nat
  c_programs :: "nat list"
  freed :: "nat set"
  cancelled :: "nat set"
  file_of :: "cstring \<Rightarrow> byte list option"
  now_text :: cstring
  now :: int
  screen :: "cstring list"

definition c_upd :: "nat \<Rightarrow> (c_program \<Rightarrow> c_program) \<Rightarrow> cons \<Rightarrow> cons" where
  "c_upd p f d = d\<lparr>c_store := (c_store d)(p := f (c_store d p))\<rparr>"

definition c_sock :: "nat \<Rightarrow> sock \<Rightarrow> cons \<Rightarrow> cons" where
  "c_sock p s = c_upd p (\<lambda>q. q\<lparr>socketKernel_c := s\<rparr>)"

definition print :: "cstring \<Rightarrow> cons \<Rightarrow> cons" where
  "print t d = d\<lparr>screen := screen d @ [t @ [10]]\<rparr>"

definition print_pid :: "nat \<Rightarrow> cstring \<Rightarrow> cons \<Rightarrow> cons" where
  "print_pid p t d = print (str ''['' @ sprintf_i (c_pid (c_store d p)) @ str ''] - '' @ t) d"

subsection \<open>The end of a program\<close>

definition same_pid :: "cons \<Rightarrow> int \<Rightarrow> nat \<Rightarrow> bool" where
  "same_pid d n p \<longleftrightarrow> c_pid (c_store d p) = n"

definition print_statistics :: "nat \<Rightarrow> cons \<Rightarrow> cons" where
  "print_statistics p d =
     (let program = c_store d p in
      print_pid p (str ''Duracion del programa: '' @ sprintf_i (int_of_wide (now d - timestampInicio program)))
      (print_pid p (str ''Cantidad de impresiones en pantalla: '' @ sprintf_i (cantImpresionesPantalla program))
      (print_pid p (str ''Fecha fin del programa: '' @ now_text d)
      (print_pid p (str ''Fecha inicio del programa: '' @ stringInicioEjecucion program) d))))"

definition thread_program_destroy :: "nat \<Rightarrow> int \<Rightarrow> cons \<Rightarrow> cons" where
  "thread_program_destroy p insideThread d =
     (let program = c_store d p;
          d1 = (if c_pid program \<noteq> 0
                then d\<lparr>c_programs := snd (list_remove_by_condition (same_pid d (c_pid program)) (c_programs d))\<rparr> else d);
          d2 = (if insideThread = 0
                then (c_sock p (snd (socket_send_string (socketKernel_c program) (str ''Finished''))) d1)\<lparr>cancelled := insert p (cancelled d1)\<rparr>
                else d1);
          d3 = print_statistics p d2
      in d3\<lparr>freed := insert p (freed d3)\<rparr>)"

subsection \<open>The thread of a program\<close>

definition exit_reasons :: "(int \<times> string) list" where
  "exit_reasons =
     [(0, ''Finalizo exitosamente.''),
      (-1, ''No se pudieron reservar recursos para ejecutar el programa.''),
      (-2, ''El programa intento leer un archivo que no existe.''),
      (-3, ''El programa intento leer un archivo sin permisos.''),
      (-4, ''El programa intento escribir un archivo sin permisos.''),
      (-5, ''Excepcion de memoria.''),
      (-6, ''Finalizado a travez de desconexion de consola.''),
      (-7, ''Finalizado a travez del comando finalizar programa de la consola.''),
      (-8, ''Se intento reservar mas memoria que el tama'' @ [CHR 0xC3, CHR 0xB1] @ ''o de una pagina.''),
      (-9, ''No se pueden asignar mas paginas al proceso.''),
      (-10, ''Se intento borrar un archivo abierto por varios procesos.''),
      (-11, ''File descriptor inexistente.''),
      (-12, ''Se intento abrir un archivo inexistente.''),
      (-13, ''No se pudo borrar un archivo en FS.''),
      (-28, ''No hay espacio libre en FS.''),
      (-14, ''Semaforo inexistente.''),
      (-15, ''Shared variable inexistente.''),
      (-16, ''El cpu se desconecto y dejo el programa en un estado inconsistente.''),
      (-17, ''Finalizado a travez del comando finalizar programa de la consola del kernel.''),
      (-20, ''Error sin definicion.'')]"

definition print_reason :: "nat \<Rightarrow> int \<Rightarrow> cons \<Rightarrow> cons" where
  "print_reason p motivo d =
     (case map_of exit_reasons motivo of
        Some t \<Rightarrow> print_pid p (str (''Motivo: '' @ t)) d
      | None \<Rightarrow> d)"

text \<open>One message of the Kernel; the first component tells whether the loop goes on.\<close>

definition thread_turn :: "nat \<Rightarrow> cons \<Rightarrow> bool \<times> cons" where
  "thread_turn p d =
     (case socket_recv_string (socketKernel_c (c_store d p)) of
        (n, b, s) \<Rightarrow>
          let d1 = c_sock p s d in
          if n \<le> 0 then (False, thread_program_destroy p 1 (print_pid p (str ''Fallo recepcion de mensaje.'') d1))
          else
            (let kernelMessage = (case b of Some m \<Rightarrow> cstr m | None \<Rightarrow> []) in
             if kernelMessage = str ''FinEjecucion'' then
               (case socket_recv_int s of
                  (n1, motivo, s1) \<Rightarrow>
                    let d2 = c_sock p s1 d1 in
                    if n1 \<le> 0 then (False, thread_program_destroy p 1 (print_pid p (str ''Fallo recepcion del motivo.'') d2))
                    else (False, thread_program_destroy p 1 (print_reason p motivo d2)))
             else if kernelMessage = str ''imprimir'' then
               (case socket_recv_string s of
                  (n1, b1, s1) \<Rightarrow>
                    let d2 = c_sock p s1 d1 in
                    if n1 \<le> 0 then (False, thread_program_destroy p 1 (print_pid p (str ''Fallo recepcion de mensaje a imprimir.'') d2))
                    else
                      (let printMessage = (case b1 of Some m \<Rightarrow> cstr m | None \<Rightarrow> []) in
                       (True, print_pid p (str ''Imprimo: ['' @ printMessage @ str '']'')
                          (c_upd p (\<lambda>q. q\<lparr>cantImpresionesPantalla := cantImpresionesPantalla q + 1\<rparr>) d2))))
             else (False, thread_program_destroy p 1 (print_pid p (str ''No se entendio el mensaje: '' @ kernelMessage) d1))))"

text \<open>Every turn that goes on has taken bytes off the connection.\<close>

lemma recv_string_less:
  "socket_recv_string s = (n, b, s') \<Longrightarrow> length (rx s') \<le> length (rx s) \<and> (n > 0 \<longrightarrow> length (rx s') < length (rx s))"
  by (auto simp: socket_recv_string_def socket_recv_whole recv_whole_def Let_def sys_recv_def split: if_splits)

lemma c_store_simps [simp]:
  "c_store (c_upd p f d) = (c_store d)(p := f (c_store d p))" "c_store (print t d) = c_store d"
  "c_store (print_pid p t d) = c_store d" "c_store (c_sock p s d) = (c_store d)(p := (c_store d p)\<lparr>socketKernel_c := s\<rparr>)"
  by (simp_all add: c_upd_def print_def print_pid_def c_sock_def)

lemma thread_turn_consumes:
  assumes "thread_turn p d = (True, d')"
  shows "length (rx (socketKernel_c (c_store d' p))) < length (rx (socketKernel_c (c_store d p)))"
proof -
  obtain n b s where r: "socket_recv_string (socketKernel_c (c_store d p)) = (n, b, s)" by (metis prod_cases3)
  obtain m c t where r': "socket_recv_string s = (m, c, t)" by (metis prod_cases3)
  show ?thesis
    using assms recv_string_less [OF r] recv_string_less [OF r'] r r'
    by (auto simp: thread_turn_def Let_def split: if_splits prod.splits)
qed

function thread_loop :: "nat \<Rightarrow> cons \<Rightarrow> cons" where
  "thread_loop p d = (case thread_turn p d of (goes_on, d') \<Rightarrow> if goes_on then thread_loop p d' else d')"
  by pat_completeness auto
termination
  by (relation "measure (\<lambda>(p, d). length (rx (socketKernel_c (c_store d p))))") (auto dest: thread_turn_consumes [OF sym])

declare thread_loop.simps [simp del]

text \<open>
  The thread up to its loop; \<open>connection\<close> is what \<open>socket_client_create\<close> got. A thread that ends here has
  destroyed its program.
\<close>

definition thread_start :: "nat \<Rightarrow> sock option \<Rightarrow> cons \<Rightarrow> bool \<times> cons" where
  "thread_start p connection d =
     (let d0 = print (str ''[SISTEMA] - Se inicio el programa: '' @ pathProgram (c_store d p)) d in
      case connection of
        None \<Rightarrow> (False, thread_program_destroy p 1 d0)
      | Some s \<Rightarrow>
          (case socket_send_string s (str ''NewProgram'') of
             (n, s1) \<Rightarrow>
               if n \<le> 0 then (False, thread_program_destroy p 1 (c_sock p s1 d0))
               else
                 (case socket_recv_int s1 of
                    (n1, v, s2) \<Rightarrow>
                      if n1 \<le> 0 then (False, thread_program_destroy p 1 (c_sock p s2 d0))
                      else
                        (let d1 = c_upd p (\<lambda>q. q\<lparr>c_pid := v\<rparr>) (c_sock p s2 d0);
                             d2 = d1\<lparr>c_programs := c_programs d1 @ [p]\<rparr> in
                         case file_of d2 (pathProgram (c_store d2 p)) of
                           None \<Rightarrow> (False, thread_program_destroy p 1 d2)
                         | Some code \<Rightarrow>
                             (case socket_send s2 code of
                                (n2, s3) \<Rightarrow>
                                  if n2 \<noteq> int (length code) then (False, thread_program_destroy p 1 (c_sock p s3 d2))
                                  else (True, c_sock p s3 d2))))))"

definition thread_program :: "nat \<Rightarrow> sock option \<Rightarrow> cons \<Rightarrow> cons" where
  "thread_program p connection d =
     (case thread_start p connection d of (goes_on, d1) \<Rightarrow> if goes_on then thread_loop p d1 else d1)"

subsection \<open>Commands\<close>

definition ruta_programas :: cstring where
  "ruta_programas = str ''../../programas-ejemplo/''"

definition programNames :: "cstring list" where
  "programNames = map str [''facil'', ''for'', ''productor'', ''consumidor'', ''signal_b'', ''imprimirArchivo'', ''copiarArchivo'',
     ''creaArchivo'', ''leeBorra'', ''escribirFS'', ''leerFS'', ''creaGigante'', ''heapbasico'', ''heappasado'', ''heapcompactar'',
     ''llenandomemoria'', ''completo'', ''stackoverflow'', ''stackoverflow_rapido'']"

definition program_create :: "cstring \<Rightarrow> cons \<Rightarrow> cons" where
  "program_create path_copy d =
     d\<lparr>c_store := (c_store d)(c_next d := (c_store d (c_next d))\<lparr>pathProgram := path_copy, c_pid := 0,
          stringInicioEjecucion := now_text d, timestampInicio := int_of_wide (now d), cantImpresionesPantalla := 0\<rparr>),
       c_next := c_next d + 1\<rparr>"

text \<open>A line of the input, without the byte at its end.\<close>

definition line_text :: "byte list \<Rightarrow> cstring" where
  "line_text line = cstr (butlast line)"

definition input_program_path :: "byte list \<Rightarrow> cstring" where
  "input_program_path line =
     (if line_text line \<in> set programNames then ruta_programas @ line_text line @ str ''.ansisop'' else line_text line)"

definition command_start :: "byte list \<Rightarrow> cons \<Rightarrow> cons" where
  "command_start line d =
     (let path = input_program_path line in
      program_create path (print (str ''path = '' @ path)
        (print (str ''[SISTEMA] - Ingrese el path al archivo o el accesos directo al mismo:'') d)))"

definition command_finish :: "byte list \<Rightarrow> cons \<Rightarrow> cons" where
  "command_finish line d =
     (let d0 = print (str ''[SISTEMA] - Ingrese el PID del programa:'') d in
      case list_remove_by_condition (same_pid d0 (atoi (line_text line))) (c_programs d0) of
        (Some p, ps) \<Rightarrow> thread_program_destroy p 0 (d0\<lparr>c_programs := ps\<rparr>)
      | (None, ps) \<Rightarrow> print (str ''[SISTEMA] - El PID ingresado no corresponde con ningun  programa.'') d0)"

text \<open>\<open>list_clean_and_destroy_elements\<close> destroys every element and leaves the list empty.\<close>

definition command_disconnect :: "cons \<Rightarrow> cons" where
  "command_disconnect d = (foldl (\<lambda>d p. thread_program_destroy p 0 d) d (c_programs d))\<lparr>c_programs := []\<rparr>"

definition command_start_several :: "cons \<Rightarrow> cons" where
  "command_start_several d = foldl (\<lambda>d _. program_create (ruta_programas @ str ''for.ansisop'') d) d [0..<5]"

definition print_help :: "cons \<Rightarrow> cons" where
  "print_help d = foldl (\<lambda>d t. print (str ''[SISTEMA] - '' @ t) d) d
     [str ''Los comandos permitidos son:'',
      9 # str ''start'' @ [9, 9, 9] @ str ''Permite ejecutar un nuevo programa.'',
      9 # str ''finish'' @ [9, 9, 9] @ str ''Aborta la ejecucion de un programa.'',
      9 # str ''clear '' @ [9, 9, 9] @ str ''Borra la  informacion en pantalla.'',
      9 # str ''disconnect '' @ [9, 9] @ str ''Aborta la ejecucion de todos los programas.'']"

text \<open>
  A turn of the loop of \<open>main\<close>, with the lines of the input that are left; where there is none, \<open>getline\<close>
  answers -1 and the end of the string is written before the buffer.
\<close>

definition main_turn :: "byte list list \<Rightarrow> cons \<Rightarrow> fault + byte list list \<times> cons" where
  "main_turn ls d =
     (let d0 = print (str ''[SISTEMA] - Ingrese un comando:'') (print_help d) in
      case ls of
        [] \<Rightarrow> Inl Buffer_Overflow
      | line # ls \<Rightarrow>
          let comando = line_text line in
          if comando = str ''clear'' then Inr (ls, d0)
          else if comando = str ''start'' then
            (case ls of [] \<Rightarrow> Inl Buffer_Overflow | arg # ls \<Rightarrow> Inr (ls, command_start arg d0))
          else if comando = str ''finish'' then
            (case ls of [] \<Rightarrow> Inl Buffer_Overflow | arg # ls \<Rightarrow> Inr (ls, command_finish arg d0))
          else if comando = str ''disconnect'' then Inr (ls, command_disconnect d0)
          else if comando = str ''varios'' then Inr (ls, command_start_several d0)
          else Inr (ls, print_help (print (str ''[SISTEMA] - El comando ingresado no existe.'') d0)))"

end
