(* ===== verification/Console_Laws.thy ===== *)
theory Console_Laws
  imports Console_Process Kernel_Laws
begin

text \<open>
  The Console process: the list of programs holds only programs that are alive, and what passes between a
  thread and the Kernel: the source that is sent, the number that comes back, the texts and the reason at
  the end.
\<close>

subsection \<open>What ends a program\<close>

lemma print_simps [simp]:
  "c_programs (print t d) = c_programs d" "freed (print t d) = freed d" "c_next (print t d) = c_next d"
  "cancelled (print t d) = cancelled d" "now (print t d) = now d" "now_text (print t d) = now_text d" "file_of (print t d) = file_of d"
  "screen (print t d) = screen d @ [t @ [10]]"
  "c_programs (c_upd p f d) = c_programs d" "freed (c_upd p f d) = freed d" "c_next (c_upd p f d) = c_next d"
  "cancelled (c_upd p f d) = cancelled d" "now (c_upd p f d) = now d" "now_text (c_upd p f d) = now_text d"
  "file_of (c_upd p f d) = file_of d" "screen (c_upd p f d) = screen d"
  by (simp_all add: print_def c_upd_def)

lemma print_pid_simps [simp]:
  "c_programs (print_pid p t d) = c_programs d" "freed (print_pid p t d) = freed d" "c_next (print_pid p t d) = c_next d"
  "cancelled (print_pid p t d) = cancelled d" "now (print_pid p t d) = now d" "now_text (print_pid p t d) = now_text d"
  "file_of (print_pid p t d) = file_of d" "screen (print_pid p t d) = screen d @ [str ''['' @ sprintf_i (c_pid (c_store d p)) @ str ''] - '' @ t @ [10]]"
  "c_programs (c_sock p s d) = c_programs d" "freed (c_sock p s d) = freed d" "c_next (c_sock p s d) = c_next d"
  "cancelled (c_sock p s d) = cancelled d" "now (c_sock p s d) = now d" "now_text (c_sock p s d) = now_text d"
  "file_of (c_sock p s d) = file_of d" "screen (c_sock p s d) = screen d"
  by (simp_all add: print_pid_def c_sock_def)

definition pid_of :: "cons \<Rightarrow> nat \<Rightarrow> int" where
  "pid_of d p = c_pid (c_store d p)"

text \<open>The programs in the list are different ones, alive, and told apart by their numbers.\<close>

definition cons_inv :: "cons \<Rightarrow> bool" where
  "cons_inv d \<longleftrightarrow> distinct (c_programs d) \<and> set (c_programs d) \<inter> freed d = {} \<and> freed d \<subseteq> {..<c_next d}
     \<and> (\<forall>p \<in> set (c_programs d). p < c_next d \<and> pid_of d p \<noteq> 0) \<and> inj_on (pid_of d) (set (c_programs d))"

lemma remove_by_pid:
  assumes "inj_on (pid_of d) (set ps)" "p \<in> set ps" "distinct ps"
  shows "list_remove_by_condition (same_pid d (pid_of d p)) ps = (Some p, remove1 p ps)"
proof -
  obtain us vs where ps: "ps = us @ p # vs" "p \<notin> set us" using split_list_first [OF assms(2)] by blast
  have "\<forall>u \<in> set us. \<not> same_pid d (pid_of d p) u"
  proof
    fix u assume "u \<in> set us"
    then have "u \<noteq> p" "u \<in> set ps" using ps by auto
    then show "\<not> same_pid d (pid_of d p) u" using assms(1,2) by (auto simp: same_pid_def pid_of_def [symmetric] inj_on_def)
  qed
  moreover have "same_pid d (pid_of d p) p" by (simp add: same_pid_def pid_of_def)
  ultimately show ?thesis unfolding ps(1) using ps(2) by (simp add: list_remove_by_condition_split remove1_append)
qed

lemma destroy_fields:
  "freed (thread_program_destroy p b d) = insert p (freed d)" "c_next (thread_program_destroy p b d) = c_next d"
  "pid_of (thread_program_destroy p b d) = pid_of d"
  "c_programs (thread_program_destroy p b d) = (if pid_of d p = 0 then c_programs d
     else snd (list_remove_by_condition (same_pid d (pid_of d p)) (c_programs d)))"
  by (auto simp: thread_program_destroy_def Let_def print_statistics_def pid_of_def fun_eq_iff)

lemma destroy_listed:
  assumes "cons_inv d" "p \<in> set (c_programs d)"
  shows "c_programs (thread_program_destroy p b d) = remove1 p (c_programs d)" "cons_inv (thread_program_destroy p b d)"
proof -
  show ps: "c_programs (thread_program_destroy p b d) = remove1 p (c_programs d)"
    using assms remove_by_pid [of d "c_programs d" p] by (simp add: destroy_fields cons_inv_def)
  show "cons_inv (thread_program_destroy p b d)"
    using assms unfolding cons_inv_def ps by (auto simp: destroy_fields distinct_remove1 inj_on_def)
qed

text \<open>A program that got no number yet is in no list.\<close>

lemma destroy_unlisted:
  assumes "cons_inv d" "pid_of d p = 0" "p < c_next d"
  shows "cons_inv (thread_program_destroy p b d)"
  using assms by (auto simp: cons_inv_def destroy_fields)

text \<open>A program that was taken out of the list before.\<close>

lemma destroy_removed:
  assumes "cons_inv d" "p \<in> set (c_programs d)"
  shows "cons_inv (thread_program_destroy p b (d\<lparr>c_programs := remove1 p (c_programs d)\<rparr>))"
proof -
  let ?d = "d\<lparr>c_programs := remove1 p (c_programs d)\<rparr>"
  have i: "distinct (c_programs d)" "inj_on (pid_of d) (set (c_programs d))" using assms(1) by (simp_all add: cons_inv_def)
  have same: "pid_of ?d = pid_of d" by (simp add: pid_of_def fun_eq_iff)
  have "\<forall>q \<in> set (remove1 p (c_programs d)). \<not> same_pid ?d (pid_of d p) q"
    using i assms(2) by (auto simp: same_pid_def pid_of_def [symmetric] inj_on_def)
  then have "c_programs (thread_program_destroy p b ?d) = remove1 p (c_programs d)"
    by (simp add: destroy_fields same list_remove_by_condition_absent)
  then show ?thesis
    using assms by (auto simp: cons_inv_def destroy_fields same distinct_remove1 inj_on_def)
qed

subsection \<open>Events\<close>

text \<open>
  A thread runs while its program is in the list, or before, until it has its number; a program whose thread
  was cancelled is in the list no more. The number the Kernel gives is a fresh one, as \<open>program_generate_id\<close>
  counts them. Bytes arrive and time passes between the events.
\<close>

definition fresh_pid :: "sock option \<Rightarrow> cons \<Rightarrow> bool" where
  "fresh_pid connection d \<longleftrightarrow> (\<forall>s n v s'. connection = Some s \<longrightarrow>
     socket_recv_int (snd (socket_send_string s (str ''NewProgram''))) = (n, v, s') \<longrightarrow> n > 0 \<longrightarrow>
     v \<noteq> 0 \<and> v \<notin> pid_of d ` set (c_programs d))"

inductive cons_step :: "cons \<Rightarrow> cons \<Rightarrow> bool" where
  command: "main_turn ls d = Inr (ls', d') \<Longrightarrow> cons_step d d'"
| starts: "p < c_next d \<Longrightarrow> p \<notin> freed d \<Longrightarrow> p \<notin> set (c_programs d) \<Longrightarrow> pid_of d p = 0 \<Longrightarrow> fresh_pid connection d \<Longrightarrow>
    thread_start p connection d = (b, d') \<Longrightarrow> cons_step d d'"
| message: "p \<in> set (c_programs d) \<Longrightarrow> thread_turn p d = (b, d') \<Longrightarrow> cons_step d d'"
| outside: "pid_of d' = pid_of d \<Longrightarrow> c_programs d' = c_programs d \<Longrightarrow> freed d' = freed d \<Longrightarrow> c_next d' = c_next d \<Longrightarrow> cons_step d d'"

inductive cons_reachable :: "cons \<Rightarrow> bool" where
  cons_start: "c_programs d = [] \<Longrightarrow> freed d = {} \<Longrightarrow> cons_reachable d"
| cons_next: "cons_reachable d \<Longrightarrow> cons_step d d' \<Longrightarrow> cons_reachable d'"

lemma cons_inv_cong:
  "c_programs d' = c_programs d \<Longrightarrow> freed d' = freed d \<Longrightarrow> c_next d' = c_next d \<Longrightarrow> pid_of d' = pid_of d \<Longrightarrow> cons_inv d' = cons_inv d"
  by (simp add: cons_inv_def)

lemma pid_of_simps [simp]:
  "pid_of (print t d) = pid_of d" "pid_of (print_pid p t d) = pid_of d" "pid_of (c_sock p s d) = pid_of d"
  "pid_of (d\<lparr>c_programs := ps\<rparr>) = pid_of d"
  "pid_of (c_upd p (\<lambda>q. q\<lparr>c_pid := v\<rparr>) d) = (pid_of d)(p := v)"
  "pid_of (c_upd p (\<lambda>q. q\<lparr>cantImpresionesPantalla := cantImpresionesPantalla q + 1\<rparr>) d) = pid_of d"
  by (auto simp: pid_of_def fun_eq_iff c_upd_def)

lemma cons_inv_simps [simp]:
  "cons_inv (print t d) = cons_inv d" "cons_inv (print_pid p t d) = cons_inv d" "cons_inv (c_sock p s d) = cons_inv d"
  "cons_inv (c_upd p (\<lambda>q. q\<lparr>cantImpresionesPantalla := cantImpresionesPantalla q + 1\<rparr>) d) = cons_inv d"
  by (rule cons_inv_cong; simp)+

lemma print_help_simps [simp]:
  "c_programs (print_help d) = c_programs d" "freed (print_help d) = freed d" "c_next (print_help d) = c_next d"
  "pid_of (print_help d) = pid_of d"
  by (simp_all add: print_help_def)

lemma cons_inv_help [simp]: "cons_inv (print_help d) = cons_inv d"
  by (rule cons_inv_cong) simp_all

lemma create_keeps: "cons_inv d \<Longrightarrow> cons_inv (program_create path d)"
proof -
  assume inv: "cons_inv d"
  have same: "p \<noteq> c_next d \<Longrightarrow> pid_of (program_create path d) p = pid_of d p" for p
    by (simp add: program_create_def pid_of_def)
  have fields: "c_programs (program_create path d) = c_programs d" "freed (program_create path d) = freed d"
    "c_next (program_create path d) = c_next d + 1" by (simp_all add: program_create_def)
  have ne: "p \<in> set (c_programs d) \<Longrightarrow> p \<noteq> c_next d" for p using inv by (auto simp: cons_inv_def)
  then have "inj_on (pid_of (program_create path d)) (set (c_programs d))"
    using inv same by (auto simp: cons_inv_def inj_on_def)
  then show ?thesis using inv ne same unfolding cons_inv_def fields by (auto simp: less_Suc_eq)
qed

lemma finish_keeps: "cons_inv d \<Longrightarrow> cons_inv (command_finish line d)"
proof -
  assume inv: "cons_inv d"
  let ?d = "print (str ''[SISTEMA] - Ingrese el PID del programa:'') d"
  let ?P = "same_pid ?d (atoi (line_text line))"
  show ?thesis
  proof (cases rule: list_remove_by_condition_cases [of "c_programs ?d" ?P])
    case (found us p vs)
    then have "us @ vs = remove1 p (c_programs ?d)" using inv by (auto simp: cons_inv_def remove1_append)
    then show ?thesis
      using destroy_removed [of ?d p 0] inv found by (simp add: command_finish_def Let_def)
  qed (use inv in \<open>simp add: command_finish_def Let_def\<close>)
qed

lemma destroy_all_fields:
  "pid_of (foldl (\<lambda>d p. thread_program_destroy p 0 d) d ps) = pid_of d"
  "freed (foldl (\<lambda>d p. thread_program_destroy p 0 d) d ps) = set ps \<union> freed d"
  "c_next (foldl (\<lambda>d p. thread_program_destroy p 0 d) d ps) = c_next d"
  by (induction ps arbitrary: d) (simp_all add: destroy_fields)

lemma disconnect_keeps: "cons_inv d \<Longrightarrow> cons_inv (command_disconnect d)"
  by (auto simp: cons_inv_def command_disconnect_def destroy_all_fields)

lemma several_keeps: "cons_inv d \<Longrightarrow> cons_inv (command_start_several d)"
proof -
  have "cons_inv d \<Longrightarrow> cons_inv (foldl (\<lambda>d _. program_create path d) d xs)" for path and xs :: "nat list" and d
    by (induction xs arbitrary: d) (simp_all add: create_keeps)
  then show "cons_inv d \<Longrightarrow> ?thesis" by (simp add: command_start_several_def)
qed

lemma main_turn_keeps: "cons_inv d \<Longrightarrow> main_turn ls d = Inr (ls', d') \<Longrightarrow> cons_inv d'"
  by (auto simp: main_turn_def Let_def command_start_def create_keeps finish_keeps disconnect_keeps several_keeps
      split: list.splits if_splits)

lemma thread_turn_keeps:
  assumes "cons_inv d" "p \<in> set (c_programs d)" "thread_turn p d = (b, d')"
  shows "cons_inv d'"
proof -
  have reason: "cons_inv (print_reason p v e) = cons_inv e" "c_programs (print_reason p v e) = c_programs e" for v e
    by (simp_all add: print_reason_def split: option.split)
  show ?thesis
    using assms by (auto simp: thread_turn_def Let_def reason split: prod.splits if_splits intro!: destroy_listed(2))
qed

lemma thread_start_keeps:
  assumes inv: "cons_inv d" and p: "p < c_next d" "p \<notin> freed d" "p \<notin> set (c_programs d)" "pid_of d p = 0"
    and fresh: "fresh_pid connection d" and start: "thread_start p connection d = (b, d')"
  shows "cons_inv d'"
proof -
  let ?d0 = "print (str ''[SISTEMA] - Se inicio el programa: '' @ pathProgram (c_store d p)) d"
  have gone: "cons_inv (thread_program_destroy p 1 (c_sock p s ?d0))" "cons_inv (thread_program_destroy p 1 ?d0)" for s
    using inv p by (auto intro!: destroy_unlisted)
  show ?thesis
  proof (cases connection)
    case None
    then show ?thesis using start gone by (simp add: thread_start_def Let_def)
  next
    case (Some s)
    obtain n s1 where send: "socket_send_string s (str ''NewProgram'') = (n, s1)" by (cases "socket_send_string s (str ''NewProgram'')")
    obtain n1 v s2 where recv: "socket_recv_int s1 = (n1, v, s2)" by (metis prod_cases3)
    show ?thesis
    proof (cases "n \<le> 0 \<or> n1 \<le> 0")
      case True
      then show ?thesis using start gone Some send recv by (auto simp: thread_start_def Let_def split: if_splits)
    next
      case False
      then have v: "v \<noteq> 0" "v \<notin> pid_of d ` set (c_programs d)"
        using fresh Some send recv by (auto simp: fresh_pid_def)
      let ?d1 = "c_upd p (\<lambda>q. q\<lparr>c_pid := v\<rparr>) (c_sock p s2 ?d0)"
      let ?d2 = "?d1\<lparr>c_programs := c_programs ?d1 @ [p]\<rparr>"
      have "inj_on ((pid_of d)(p := v)) (insert p (set (c_programs d)))"
        using inv p(3) v(2) by (auto simp: cons_inv_def inj_on_def)
      then have d2: "cons_inv ?d2"
        using inv p v by (auto simp: cons_inv_def)
      have listed: "p \<in> set (c_programs ?d2)" by simp
      have "cons_inv (c_sock p t ?d2)" "cons_inv (thread_program_destroy p 1 (c_sock p t ?d2))" "cons_inv (thread_program_destroy p 1 ?d2)" for t
        using d2 listed by (auto intro!: destroy_listed(2))
      then show ?thesis
        using start Some send recv False by (auto simp: thread_start_def Let_def split: option.splits prod.splits if_splits)
    qed
  qed
qed

lemma cons_step_keeps: "cons_step d d' \<Longrightarrow> cons_inv d \<Longrightarrow> cons_inv d'"
proof (induction rule: cons_step.induct)
  case (command ls d ls' d')
  then show ?case using main_turn_keeps by blast
next
  case (starts p d connection b d')
  show ?case by (rule thread_start_keeps [OF starts(7,1-6)])
next
  case (message p d b d')
  show ?case by (rule thread_turn_keeps [OF message(3,1,2)])
next
  case (outside d' d)
  then show ?case using cons_inv_cong by blast
qed

lemma cons_reachable_inv: "cons_reachable d \<Longrightarrow> cons_inv d"
  by (induction rule: cons_reachable.induct) (simp add: cons_inv_def, rule cons_step_keeps)

end
