(* ===== verification/Console_Kernel.thy ===== *)
theory Console_Kernel
  imports Console_Laws
begin

text \<open>A thread of the Console and the Kernel, on the bytes between them.\<close>

subsection \<open>A program starts\<close>

lemma start_sends:
  assumes "file_of d (pathProgram (c_store d p)) = Some code" "33 + length code \<le> room s"
    "rx s = int_header j v @ more_bytes" "header_fits v"
  obtains d' where "thread_start p (Some s) d = (True, d')" "pid_of d' p = v" "c_programs d' = c_programs d @ [p]"
    "socketKernel_c (c_store d' p) = said (s\<lparr>rx := more_bytes\<rparr>) (blob_frame (sjunk s) (str ''NewProgram'' @ [0]) @ blob_frame (sjunk s) code)"
proof -
  let ?d0 = "print (str ''[SISTEMA] - Se inicio el programa: '' @ pathProgram (c_store d p)) d"
  let ?new = "blob_frame (sjunk s) (str ''NewProgram'' @ [0])"
  let ?s2 = "said (s\<lparr>rx := more_bytes\<rparr>) ?new" and ?s3 = "said (s\<lparr>rx := more_bytes\<rparr>) (?new @ blob_frame (sjunk s) code)"
  let ?d1 = "c_upd p (\<lambda>q. q\<lparr>c_pid := v\<rparr>) (c_sock p ?s2 ?d0)"
  have len: "length (str ''NewProgram'') = 10" by (simp add: str_def)
  have a: "socket_send_string s (str ''NewProgram'') = (11, said s ?new)"
    using assms(2) len by (simp add: socket_send_string_ok said_def)
  have b: "socket_recv_int (said s ?new) = (4, v, ?s2)"
    using socket_recv_int_ok [OF assms(4), of "said s ?new" j more_bytes] assms(3) by simp
  have c: "socket_send ?s2 code = (int (length code), ?s3)"
    using socket_send_ok [of code ?s2] assms(2) len by (simp add: said_def)
  have "thread_start p (Some s) d = (True, c_sock p ?s3 (?d1\<lparr>c_programs := c_programs ?d1 @ [p]\<rparr>))"
    using assms(1) by (simp add: thread_start_def Let_def a b c)
  then show thesis by (rule that) (simp_all add: pid_of_def)
qed

definition loaded_program :: "kernel \<Rightarrow> int \<Rightarrow> byte list \<Rightarrow> t_program" where
  "loaded_program k sk code = load_metadata (env k)
     ((blank_program (env k) sk (programID k + 1))\<lparr>codeSize := int (length code), p_code := code\<rparr>)"

text \<open>The Kernel with the new process, before its planner runs.\<close>

definition with_program :: "int \<Rightarrow> byte list \<Rightarrow> byte list \<Rightarrow> kernel \<Rightarrow> kernel" where
  "with_program sk code left k =
     k\<lparr>programID := programID k + 1,
       socks := (socks k)(sk := said ((socks k sk)\<lparr>rx := left\<rparr>) (int_header (sjunk (socks k sk)) (programID k + 1))),
       nextProgram := nextProgram k + 1,
       programs := (programs k)(nextProgram k := loaded_program k sk code), newQ := newQ k @ [nextProgram k]\<rparr>"

lemma kernel_loads:
  assumes "rx (socks k sk) = blob_frame j code @ left" "code \<noteq> []" "length code < 2 ^ 31" "11 \<le> room (socks k sk)"
  shows "select_program_socket_recive_package sk (str ''NewProgram'') k
    = and_then (planificador_largo_plazo (with_program sk code left k)) cpu_inactive_planner"
proof -
  let ?J = "sjunk (socks k sk)"
  let ?k0 = "k\<lparr>programID := programID k + 1\<rparr>"
  let ?k1 = "?k0\<lparr>socks := (socks k)(sk := said (socks k sk) (int_header ?J (programID k + 1)))\<rparr>"
  have a: "sock_send_int sk (programID k + 1) ?k0 = (4, ?k1)"
    using assms(4) by (simp add: sock_send_int_def socket_send_int_ok said_def)
  have "socket_recv (socks ?k1 sk) = (int (length code), Some code, (socks ?k1 sk)\<lparr>rx := left\<rparr>)"
    by (rule socket_recv_ok [OF assms(3), where j = j]) (use assms(1) in simp)
  then have b: "sock_recv sk ?k1 = (Some code, ?k1\<lparr>socks := (socks ?k1)(sk := (socks ?k1 sk)\<lparr>rx := left\<rparr>)\<rparr>)"
    using assms(2) by (simp add: sock_recv_def)
  show ?thesis
    by (simp add: select_program_socket_recive_package_def program_process_new_def program_generate_id_def a b Let_def
        with_program_def loaded_program_def)
qed

text \<open>Both together: what the console sends is what the Kernel loads, and the number it answers is the one the console keeps.\<close>

lemma loaded_fields: "p_code (loaded_program k sk code) = code" "p_socket (loaded_program k sk code) = sk"
  "pid (pcb (loaded_program k sk code)) = programID k + 1"
  by (simp_all add: loaded_program_def load_metadata_def blank_program_def Let_def)

subsection \<open>A program ends\<close>

text \<open>The texts a process prints, as the Kernel sends them.\<close>

definition print_bytes :: "(nat \<Rightarrow> byte) \<Rightarrow> cstring list \<Rightarrow> byte list" where
  "print_bytes j ts = concat (map (\<lambda>t. blob_frame j (str ''imprimir'' @ [0]) @ blob_frame j (t @ [0])) ts)"

definition good_text :: "cstring \<Rightarrow> bool" where
  "good_text t \<longleftrightarrow> 0 \<notin> set t \<and> length t + 1 < 2 ^ 31"

definition tag :: "int \<Rightarrow> cstring \<Rightarrow> cstring" where
  "tag n t = str ''['' @ sprintf_i n @ str ''] - '' @ t @ [10]"

definition said_text :: "int \<Rightarrow> cstring \<Rightarrow> cstring" where
  "said_text n t = tag n (str ''Imprimo: ['' @ t @ str '']'')"

definition end_text :: "int \<Rightarrow> int \<Rightarrow> cstring list" where
  "end_text n code = (case map_of exit_reasons code of Some t \<Rightarrow> [tag n (str (''Motivo: '' @ t))] | None \<Rightarrow> [])"

definition statistics_text :: "c_program \<Rightarrow> cons \<Rightarrow> cstring list" where
  "statistics_text q d = map (tag (c_pid q)) [str ''Fecha inicio del programa: '' @ stringInicioEjecucion q,
     str ''Fecha fin del programa: '' @ now_text d,
     str ''Cantidad de impresiones en pantalla: '' @ sprintf_i (cantImpresionesPantalla q),
     str ''Duracion del programa: '' @ sprintf_i (int_of_wide (now d - timestampInicio q))]"

lemma tag_screen: "screen (print_pid p t d) = screen d @ [tag (pid_of d p) t]"
  by (simp add: tag_def pid_of_def)

lemma destroy_screen: "screen (thread_program_destroy p 1 e) = screen e @ statistics_text (c_store e p) e"
  by (simp add: thread_program_destroy_def Let_def print_statistics_def statistics_text_def tag_def)

lemma turn_prints:
  assumes "rx (socketKernel_c (c_store d p)) = blob_frame j (str ''imprimir'' @ [0]) @ blob_frame j (t @ [0]) @ left" "good_text t"
  obtains d' where "thread_turn p d = (True, d')" "screen d' = screen d @ [said_text (pid_of d p) t]"
    "rx (socketKernel_c (c_store d' p)) = left" "pid_of d' = pid_of d"
    "c_programs d' = c_programs d" "freed d' = freed d" "now d' = now d" "now_text d' = now_text d" "c_next d' = c_next d"
    "c_store d' p = (c_store d p)\<lparr>socketKernel_c := socketKernel_c (c_store d' p),
       cantImpresionesPantalla := cantImpresionesPantalla (c_store d p) + 1\<rparr>"
proof -
  let ?s = "socketKernel_c (c_store d p)"
  let ?s1 = "?s\<lparr>rx := blob_frame j (t @ [0]) @ left\<rparr>"
  have w: "0 \<notin> set (str ''imprimir'')" "length (str ''imprimir'') + 1 < 2 ^ 31" "str ''imprimir'' \<noteq> str ''FinEjecucion''"
    by (simp_all add: str_def)
  have a: "socket_recv_string ?s = (9, Some (str ''imprimir'' @ [0]), ?s1)"
    using socket_recv_string_ok [OF w(2) assms(1)] by (simp add: str_def)
  have b: "socket_recv_string ?s1 = (int (length t + 1), Some (t @ [0]), ?s1\<lparr>rx := left\<rparr>)"
    by (rule socket_recv_string_ok [where j = j]) (use assms(2) in \<open>simp_all add: good_text_def\<close>)
  let ?d = "print_pid p (str ''Imprimo: ['' @ t @ str '']'')
      (c_upd p (\<lambda>q. q\<lparr>cantImpresionesPantalla := cantImpresionesPantalla q + 1\<rparr>) (c_sock p (?s1\<lparr>rx := left\<rparr>) (c_sock p ?s1 d)))"
  have "thread_turn p d = (True, ?d)"
    using w assms(2) by (simp add: thread_turn_def a b Let_def good_text_def)
  then show thesis by (rule that) (simp_all add: said_text_def tag_def pid_of_def)
qed

lemma turn_ends:
  assumes "rx (socketKernel_c (c_store d p)) = blob_frame j (str ''FinEjecucion'' @ [0]) @ int_header j code @ left" "header_fits code"
    "cons_inv d" "p \<in> set (c_programs d)"
  obtains d' where "thread_turn p d = (False, d')"
    "screen d' = screen d @ end_text (pid_of d p) code @ statistics_text (c_store d p) d"
    "c_programs d' = remove1 p (c_programs d)" "freed d' = insert p (freed d)"
proof -
  let ?s = "socketKernel_c (c_store d p)"
  let ?s1 = "?s\<lparr>rx := int_header j code @ left\<rparr>"
  have w: "0 \<notin> set (str ''FinEjecucion'')" "length (str ''FinEjecucion'') + 1 < 2 ^ 31" by (simp_all add: str_def)
  have a: "socket_recv_string ?s = (13, Some (str ''FinEjecucion'' @ [0]), ?s1)"
    using socket_recv_string_ok [OF w(2) assms(1)] by (simp add: str_def)
  have b: "socket_recv_int ?s1 = (4, code, ?s1\<lparr>rx := left\<rparr>)"
    using socket_recv_int_ok [OF assms(2), of ?s1 j left] by simp
  let ?d = "c_sock p (?s1\<lparr>rx := left\<rparr>) (c_sock p ?s1 d)"
  define e where "e = print_reason p code ?d"
  have turn: "thread_turn p d = (False, thread_program_destroy p 1 e)" using w by (simp add: thread_turn_def a b Let_def e_def)
  have e: "screen e = screen d @ end_text (pid_of d p) code" "c_programs e = c_programs d" "freed e = freed d"
    "pid_of e = pid_of d" "now e = now d" "now_text e = now_text d"
    "c_store e p = (c_store d p)\<lparr>socketKernel_c := ?s1\<lparr>rx := left\<rparr>\<rparr>" "cons_inv e"
    using assms(3) by (simp_all add: e_def print_reason_def end_text_def tag_def pid_of_def split: option.split)
  have "screen (thread_program_destroy p 1 e) = screen d @ end_text (pid_of d p) code @ statistics_text (c_store d p) d"
    by (simp add: destroy_screen e statistics_text_def)
  moreover have "c_programs (thread_program_destroy p 1 e) = remove1 p (c_programs d)"
    using destroy_listed(1) [OF e(8), of p 1] assms(4) by (simp add: e)
  ultimately show thesis by (intro that [OF turn]) (simp_all add: destroy_fields e)
qed

lemma loop_shows:
  assumes "rx (socketKernel_c (c_store d p)) = print_bytes j ts @ blob_frame j (str ''FinEjecucion'' @ [0]) @ int_header j code @ left"
    "\<forall>t \<in> set ts. good_text t" "header_fits code" "cons_inv d" "p \<in> set (c_programs d)"
  shows "screen (thread_loop p d) = screen d @ map (said_text (pid_of d p)) ts @ end_text (pid_of d p) code
      @ statistics_text ((c_store d p)\<lparr>cantImpresionesPantalla := cantImpresionesPantalla (c_store d p) + int (length ts)\<rparr>) d
    \<and> c_programs (thread_loop p d) = remove1 p (c_programs d) \<and> freed (thread_loop p d) = insert p (freed d)"
  using assms
proof (induction ts arbitrary: d)
  case Nil
  obtain d' where d': "thread_turn p d = (False, d')"
    "screen d' = screen d @ end_text (pid_of d p) code @ statistics_text (c_store d p) d"
    "c_programs d' = remove1 p (c_programs d)" "freed d' = insert p (freed d)"
    by (rule turn_ends [OF _ Nil(3-5), of j left]) (use Nil(1) in \<open>simp add: print_bytes_def\<close>)
  have "thread_loop p d = d'" by (subst thread_loop.simps) (simp add: d'(1))
  then show ?case using d' by simp
next
  case (Cons t ts)
  obtain d' where d': "thread_turn p d = (True, d')" "screen d' = screen d @ [said_text (pid_of d p) t]"
    "rx (socketKernel_c (c_store d' p)) = print_bytes j ts @ blob_frame j (str ''FinEjecucion'' @ [0]) @ int_header j code @ left"
    "pid_of d' = pid_of d" "c_programs d' = c_programs d" "freed d' = freed d" "now d' = now d" "now_text d' = now_text d" "c_next d' = c_next d"
    "c_store d' p = (c_store d p)\<lparr>socketKernel_c := socketKernel_c (c_store d' p),
       cantImpresionesPantalla := cantImpresionesPantalla (c_store d p) + 1\<rparr>"
    by (rule turn_prints [of d p j t "print_bytes j ts @ blob_frame j (str ''FinEjecucion'' @ [0]) @ int_header j code @ left"])
      (use Cons.prems in \<open>simp_all add: print_bytes_def\<close>)
  have loop: "thread_loop p d = thread_loop p d'" by (subst thread_loop.simps) (simp add: d'(1))
  have "cons_inv d'" using Cons.prems(4) cons_inv_cong [of d' d] d' by simp
  from Cons.IH [OF d'(3) _ Cons.prems(3) this] Cons.prems
  have ih: "screen (thread_loop p d') = screen d' @ map (said_text (pid_of d' p)) ts @ end_text (pid_of d' p) code
      @ statistics_text ((c_store d' p)\<lparr>cantImpresionesPantalla := cantImpresionesPantalla (c_store d' p) + int (length ts)\<rparr>) d'"
    "c_programs (thread_loop p d') = remove1 p (c_programs d')" "freed (thread_loop p d') = insert p (freed d')"
    by (simp_all add: d'(5))
  have stats: "cantImpresionesPantalla (c_store d' p) = cantImpresionesPantalla (c_store d p) + 1"
    "c_pid (c_store d' p) = c_pid (c_store d p)" "stringInicioEjecucion (c_store d' p) = stringInicioEjecucion (c_store d p)"
    "timestampInicio (c_store d' p) = timestampInicio (c_store d p)" by (subst d'(10), simp)+
  show ?case unfolding loop ih by (simp add: d'(2,4,5-9) statistics_text_def stats ac_simps)
qed

end
