(* ===== verification/Console_Samples.thy ===== *)
theory Console_Samples
  imports Memory_Console_Laws Console_Kernel Kernel_Samples
begin

text \<open>The console of the Memory process on the memory of \<open>Samples\<close>, and on frames of 14 bytes.\<close>

fun split_blanks :: "cstring \<Rightarrow> cstring \<Rightarrow> cstring list" where
  "split_blanks word0 [] = (if word0 = [] then [] else [word0])"
| "split_blanks word0 (b # bs) = (if b = 32 then (if word0 = [] then [] else [word0]) @ split_blanks [] bs else split_blanks (word0 @ [b]) bs)"

definition line_env_1 :: line_env where
  "line_env_1 = \<lparr>string_trim = (\<lambda>s. s), string_to_lower = map to_lower, words_of_line = split_blanks [], array_text = (\<lambda>_. [])\<rparr>"

definition console_1 :: console where
  "console_1 = \<lparr>lines_env = line_env_1, configMemory = cfg_1, cmem = mem_1, finished = False, printed = []\<rparr>"

lemma console_1_simps [simp]:
  "lines_env console_1 = line_env_1" "configMemory console_1 = cfg_1" "cmem console_1 = mem_1" "\<not> finished console_1" "printed console_1 = []"
  by (simp_all add: console_1_def)

lemma flush_and_exit_1: "\<exists>d. debug_console [str ''flu'' @ [10], str ''exit'' @ [10]] console_1 = Inr d"
  by (simp add: console_turn_def get_input_def line_env_1_def str_def to_lower_def cstr_def proccess_command_def commandHandlers_def
      handle_delay_def handle_flush_def handle_dump_def handle_size_def handle_exit_def token_def token_is_def
      string_equals_ignore_case_def on_memory_def console_1_def)

definition odd_console :: console where
  "odd_console = console_1\<lparr>configMemory := cfg_1\<lparr>frameSize := 14\<rparr>,
     cmem := mem_1\<lparr>mram := \<lparr>pageTable = [free_entry], proccessPageCount = 1, freeFrameCount = 1, proccessPages = replicate 14 0\<rparr>\<rparr>\<rparr>"

lemma odd_console_inv: "ram_inv (configMemory odd_console) (mram (cmem odd_console))" "frameSize (configMemory odd_console) = 14"
  by (simp_all add: odd_console_def ram_inv_def ram_shape_def unique_pages_def small_pages_def frame_count_def free_entry_def
      is_frame_free_def is_frame_occupied_def)

subsection \<open>A Console with a program whose process prints a text and ends\<close>

definition c_program_1 :: "byte list \<Rightarrow> int \<Rightarrow> c_program" where
  "c_program_1 from_kernel n = \<lparr>c_pid = n, pathProgram = str ''p'', socketKernel_c = sock_1 from_kernel 100,
     stringInicioEjecucion = [], timestampInicio = 0, cantImpresionesPantalla = 0\<rparr>"

definition cons_1 :: "byte list \<Rightarrow> int \<Rightarrow> nat list \<Rightarrow> cons" where
  "cons_1 from_kernel n ps = \<lparr>c_store = (\<lambda>_. c_program_1 from_kernel n), c_next = 1, c_programs = ps, freed = {}, cancelled = {},
     file_of = [str ''p'' \<mapsto> [7]], now_text = [], now = 5, screen = []\<rparr>"

lemma cons_1_simps [simp]:
  "c_store (cons_1 b n ps) p = c_program_1 b n" "c_programs (cons_1 b n ps) = ps" "freed (cons_1 b n ps) = {}" "pid_of (cons_1 b n ps) p = n"
  "screen (cons_1 b n ps) = []" "pathProgram (c_program_1 b n) = str ''p''" "file_of (cons_1 b n ps) (str ''p'') = Some [7]"
  "socketKernel_c (c_program_1 b n) = sock_1 b 100"
  by (simp_all add: cons_1_def c_program_1_def pid_of_def)

lemma cons_inv_1: "n \<noteq> 0 \<Longrightarrow> cons_inv (cons_1 b n [0])" "cons_inv (cons_1 b n [])"
  by (simp_all add: cons_inv_def) (simp_all add: cons_1_def)

lemma cons_reachable_1: "cons_reachable (cons_1 b n [])"
  by (rule cons_start) simp_all

end
