(* ===== verification/CPU_Stack.thy ===== *)
theory CPU_Stack
  imports Memory_Client Serialization FS_Client
begin

text \<open>
  The state of a CPU process and \<open>CPU/src/functions/stack.c\<close>: the contexts of the functions a process
  is in, and where their variables are.

  \<open>cpcb\<close> is the global \<open>pcb\<close>. A \<open>t_puntero\<close> of the parser library has 32 bits without sign, a
  \<open>size_t\<close> 64; \<open>div\<close> takes an \<open>int\<close>. \<open>memory_connect\<close> ends the process unless the page size is
  positive. What comes from outside is in \<open>cpu_env\<close>: the search of a label, which the parser
  library does, and what memory holds before it is set.
\<close>

record cpu_env =
  metadata_buscar_etiqueta :: "cstring \<Rightarrow> byte list \<Rightarrow> nat \<Rightarrow> nat"
  new_args :: "t_position list"      \<comment> \<open>the ten positions of a fresh context\<close>
  unset_int :: int

record cpu =
  cenv :: cpu_env
  cpcb :: t_pcb
  page_size :: int
  serverKernel :: sock
  serverMemory :: sock
  desconectar :: int
  isExecuting :: int

definition VAR_SIZE :: nat where "VAR_SIZE = 4"

definition t_puntero :: "int \<Rightarrow> int" where
  "t_puntero x = x mod 2 ^ 32"

definition size_t :: "int \<Rightarrow> nat" where
  "size_t x = nat (x mod 2 ^ 64)"

definition upd_pcb :: "(t_pcb \<Rightarrow> t_pcb) \<Rightarrow> cpu \<Rightarrow> cpu" where
  "upd_pcb f c = c\<lparr>cpcb := f (cpcb c)\<rparr>"

definition set_exit :: "int \<Rightarrow> cpu \<Rightarrow> cpu" where
  "set_exit code = upd_pcb (\<lambda>b. b\<lparr>exitCode := code\<rparr>)"

subsection \<open>Positions and pointers\<close>

definition position_to_puntero :: "t_position option \<Rightarrow> cpu \<Rightarrow> fault + int" where
  "position_to_puntero memoryPos c =
     (case memoryPos of
        None \<Rightarrow> Inl Null_Deref
      | Some p \<Rightarrow> Inr (t_puntero (pos_page p * page_size c + pos_off p)))"

definition puntero_to_position :: "int \<Rightarrow> cpu \<Rightarrow> t_position" where
  "puntero_to_position direccion_variable c =
     (let direccion = int_of_wide direccion_variable
      in \<lparr>pos_page = c_quot direccion (page_size c), pos_off = c_rem direccion (page_size c), pos_size = int VAR_SIZE\<rparr>)"

text \<open>Where the top of the stack is, in the pages behind the code.\<close>

definition stack_top :: "cpu \<Rightarrow> t_position" where
  "stack_top c =
     (let p = puntero_to_position (t_puntero (int (stackPosition (cpcb c)))) c
      in p\<lparr>pos_page := pos_page p + int (cantPagsCodigo (cpcb c))\<rparr>)"

subsection \<open>Contexts\<close>

definition stack_context_create :: "cpu \<Rightarrow> t_indiceDelStack" where
  "stack_context_create c =
     \<lparr>vars = [], argCount = 0, args = new_args (cenv c), retPos = -1, retVar = None\<rparr>"

text \<open>The last context; \<open>list_get\<close> of an empty list answers \<open>NULL\<close>, which the callers dereference.\<close>

definition stack_context_current :: "cpu \<Rightarrow> fault + t_indiceDelStack" where
  "stack_context_current c =
     (if indiceDeStack (cpcb c) = [] then Inl Null_Deref else Inr (last (indiceDeStack (cpcb c))))"

definition stack_get_first_context :: "cpu \<Rightarrow> fault + t_indiceDelStack" where
  "stack_get_first_context c =
     (if indiceDeStack (cpcb c) = [] then Inl Null_Deref else Inr (hd (indiceDeStack (cpcb c))))"

definition set_current :: "t_indiceDelStack \<Rightarrow> cpu \<Rightarrow> cpu" where
  "set_current x = upd_pcb (\<lambda>b. b\<lparr>indiceDeStack := butlast (indiceDeStack b) @ [x]\<rparr>)"

definition push_context :: "t_indiceDelStack \<Rightarrow> cpu \<Rightarrow> cpu" where
  "push_context x = upd_pcb (\<lambda>b. b\<lparr>indiceDeStack := indiceDeStack b @ [x]\<rparr>)"

definition stack_pop :: "cpu \<Rightarrow> fault + cpu" where
  "stack_pop c =
     and_then (stack_context_current c) (\<lambda>indiceToDelete.
       let varsUsed = dictionary_size (vars indiceToDelete) in
       Inr (upd_pcb (\<lambda>b. b\<lparr>
         stackPosition := size_t (int (stackPosition b) - int ((varsUsed + argCount indiceToDelete) * VAR_SIZE)),
         indiceDeStack := butlast (indiceDeStack b)\<rparr>) c))"

subsection \<open>Variables and arguments\<close>

definition arg_index :: "byte \<Rightarrow> nat" where
  "arg_index identificador_variable = unat identificador_variable - 48"

definition stack_add_arg :: "byte \<Rightarrow> cpu \<Rightarrow> fault + cpu" where
  "stack_add_arg identificador_variable c =
     and_then (stack_context_current c) (\<lambda>currentContext.
       if arg_index identificador_variable < length (args currentContext) then
         Inr (set_current (currentContext\<lparr>
           args := (args currentContext)[arg_index identificador_variable := stack_top c],
           argCount := argCount currentContext + 1\<rparr>) c)
       else Inl Buffer_Overflow)"

definition stack_add_var :: "byte \<Rightarrow> cpu \<Rightarrow> fault + cpu" where
  "stack_add_var identificador_variable c =
     and_then (stack_context_current c) (\<lambda>currentContext.
       Inr (set_current (currentContext\<lparr>
         vars := dictionary_put [identificador_variable] (stack_top c) (vars currentContext)\<rparr>) c))"

definition stack_get_arg :: "byte \<Rightarrow> cpu \<Rightarrow> fault + t_position \<times> cpu" where
  "stack_get_arg identificador_variable c =
     and_then (stack_context_current c) (\<lambda>currentContext.
       if arg_index identificador_variable < length (args currentContext) then
         Inr (args currentContext ! arg_index identificador_variable,
              set_current (currentContext\<lparr>argCount := argCount currentContext + 1\<rparr>) c)
       else Inl Buffer_Overflow)"

definition is_local_from_function :: "byte \<Rightarrow> cpu \<Rightarrow> fault + bool" where
  "is_local_from_function ident c =
     and_then (stack_context_current c) (\<lambda>context. Inr (dictionary_has_key (vars context) [ident]))"

text \<open>The log line behind the search reads through the pointer, whether it is null or not.\<close>

definition stack_get_var :: "byte \<Rightarrow> cpu \<Rightarrow> fault + t_position" where
  "stack_get_var identificador_variable c =
     and_then (is_local_from_function identificador_variable c) (\<lambda>local.
     and_then (if local then stack_context_current c else stack_get_first_context c) (\<lambda>context.
       case dictionary_get (vars context) [identificador_variable] of
         None \<Rightarrow> Inl Null_Deref
       | Some p \<Rightarrow> Inr p))"

end
