(* ===== verification/CPU_Primitives.thy ===== *)
theory CPU_Primitives
  imports CPU_Stack
begin

text \<open>
  \<open>CPU/src/functions/primitivas.c\<close>: the functions the parser of the ANSISOP language calls while it
  executes a line. Those on variables work on the process control block and on the Memory process,
  those on shared resources and files send a request to the Kernel and read its answer. Where an
  answer does not come, the value is what the local variable held.

  \<open>flagsAppend\<close> works on its own copy of the pointer; the text it appends is at most three characters,
  which the smallest block of \<open>malloc\<close> takes without moving.
\<close>

subsection \<open>Variables\<close>

definition is_argument :: "byte \<Rightarrow> bool" where
  "is_argument identificador_variable \<longleftrightarrow> 48 \<le> unat identificador_variable \<and> unat identificador_variable \<le> 57"

definition AnSISOP_definirVariable :: "byte \<Rightarrow> cpu \<Rightarrow> fault + int \<times> cpu" where
  "AnSISOP_definirVariable identificador_variable c =
     (let c1 = (if stackPosition (cpcb c) \<ge> maxStackPosition (cpcb c) then set_exit ERROR_MEMORY c else c);
          varStackPosition = int_of_wide (int (stackPosition (cpcb c1))) in
      and_then (if is_argument identificador_variable then stack_add_arg identificador_variable c1
                else stack_add_var identificador_variable c1) (\<lambda>c2.
        Inr (t_puntero varStackPosition,
             upd_pcb (\<lambda>b. b\<lparr>stackPosition := size_t (int (stackPosition b) + int VAR_SIZE)\<rparr>) c2)))"

definition AnSISOP_obtenerPosicionVariable :: "byte \<Rightarrow> cpu \<Rightarrow> fault + int \<times> cpu" where
  "AnSISOP_obtenerPosicionVariable identificador_variable c =
     and_then (if is_argument identificador_variable then stack_get_arg identificador_variable c
               else and_then (stack_get_var identificador_variable c) (\<lambda>p. Inr (p, c))) (\<lambda>(varPos, c1).
     and_then (position_to_puntero (Some varPos) c1) (\<lambda>puntero. Inr (puntero, c1)))"

definition AnSISOP_dereferenciar :: "int \<Rightarrow> cpu \<Rightarrow> int \<times> cpu" where
  "AnSISOP_dereferenciar direccion_variable c =
     (let pos = puntero_to_position direccion_variable c in
      case cpu_memory_read (pid (cpcb c)) (pos_page pos) (pos_off pos) (int VAR_SIZE) (serverMemory c) of
        (None, s) \<Rightarrow> (0, set_exit ERROR_MEMORY (c\<lparr>serverMemory := s\<rparr>))
      | (Some readResult, s) \<Rightarrow> (i32_of readResult, c\<lparr>serverMemory := s\<rparr>))"

definition AnSISOP_asignar :: "int \<Rightarrow> int \<Rightarrow> cpu \<Rightarrow> cpu" where
  "AnSISOP_asignar direccion_variable valor c =
     (let pos = puntero_to_position direccion_variable c in
      case cpu_memory_write (pid (cpcb c)) (pos_page pos) (pos_off pos) (i32 valor) (serverMemory c) of
        (writeResult, s) \<Rightarrow>
          if writeResult = -1 then c\<lparr>serverMemory := s\<rparr>
          else if writeResult = ERROR_MEMORY then set_exit ERROR_MEMORY (c\<lparr>serverMemory := s\<rparr>)
          else c\<lparr>serverMemory := s\<rparr>)"

subsection \<open>Jumps and calls\<close>

definition buscar_etiqueta :: "cstring \<Rightarrow> cpu \<Rightarrow> nat" where
  "buscar_etiqueta etiqueta c =
     metadata_buscar_etiqueta (cenv c) etiqueta (indiceDeEtiquetas (cpcb c)) (indiceDeEtiquetasCant (cpcb c))"

definition AnSISOP_irAlLabel :: "cstring \<Rightarrow> cpu \<Rightarrow> cpu" where
  "AnSISOP_irAlLabel etiqueta c = upd_pcb (\<lambda>b. b\<lparr>pc := buscar_etiqueta etiqueta c\<rparr>) c"

definition AnSISOP_llamarSinRetorno :: "cstring \<Rightarrow> cpu \<Rightarrow> cpu" where
  "AnSISOP_llamarSinRetorno etiqueta c =
     AnSISOP_irAlLabel etiqueta
       (push_context ((stack_context_create c)\<lparr>retPos := int_of_wide (int (pc (cpcb c)))\<rparr>) c)"

definition AnSISOP_llamarConRetorno :: "cstring \<Rightarrow> int \<Rightarrow> cpu \<Rightarrow> cpu" where
  "AnSISOP_llamarConRetorno etiqueta donde_retornar c =
     AnSISOP_irAlLabel etiqueta
       (push_context ((stack_context_create c)\<lparr>retPos := int_of_wide (int (pc (cpcb c))),
          retVar := Some (puntero_to_position donde_retornar c)\<rparr>) c)"

definition AnSISOP_retornar :: "int \<Rightarrow> cpu \<Rightarrow> fault + cpu" where
  "AnSISOP_retornar retorno c =
     and_then (stack_context_current c) (\<lambda>currentContext.
       case retVar currentContext of
         None \<Rightarrow> Inr c
       | Some p \<Rightarrow>
           and_then (position_to_puntero (Some p) c) (\<lambda>puntero. Inr (AnSISOP_asignar puntero retorno c)))"

definition AnSISOP_finalizar :: "cpu \<Rightarrow> fault + cpu" where
  "AnSISOP_finalizar c =
     and_then (stack_context_current c) (\<lambda>currentStackContext.
     and_then (stack_pop (upd_pcb (\<lambda>b. b\<lparr>pc := size_t (retPos currentStackContext)\<rparr>) c)) (\<lambda>c1.
       Inr (if indiceDeStack (cpcb c1) = [] then set_exit 0 c1 else c1)))"

subsection \<open>Requests to the Kernel\<close>

definition say :: "msg \<Rightarrow> cpu \<Rightarrow> cpu" where
  "say m c = c\<lparr>serverKernel := snd (send_msg (serverKernel c) m)\<rparr>"

fun say_all :: "msg list \<Rightarrow> cpu \<Rightarrow> cpu" where
  "say_all [] c = c"
| "say_all (m # ms) c = say_all ms (say m c)"

definition hear_int :: "cpu \<Rightarrow> int option \<times> cpu" where
  "hear_int c =
     (case socket_recv_int (serverKernel c) of
        (n, v, s) \<Rightarrow> (if n > 0 then Some v else None, c\<lparr>serverKernel := s\<rparr>))"

definition hear_string :: "cpu \<Rightarrow> cstring option \<times> cpu" where
  "hear_string c =
     (case socket_recv_string (serverKernel c) of
        (n, b, s) \<Rightarrow> (if n > 0 then map_option cstr b else None, c\<lparr>serverKernel := s\<rparr>))"

definition AnSISOP_obtenerValorCompartida :: "cstring \<Rightarrow> cpu \<Rightarrow> int \<times> cpu" where
  "AnSISOP_obtenerValorCompartida variable c =
     (case hear_string (say_all [MStr (str ''getSharedVariable''), MStr (str ''!'' @ variable)] c) of
        (Some resp, c1) \<Rightarrow>
          if resp = str ''Success'' then
            (case hear_int c1 of
               (Some v, c2) \<Rightarrow> (v, c2)
             | (None, c2) \<Rightarrow> (unset_int (cenv c), c2))
          else (unset_int (cenv c), c1)
      | (None, c1) \<Rightarrow> (unset_int (cenv c), c1))"

definition AnSISOP_asignarValorCompartida :: "cstring \<Rightarrow> int \<Rightarrow> cpu \<Rightarrow> int \<times> cpu" where
  "AnSISOP_asignarValorCompartida variable valor c =
     (valor, snd (hear_string
        (say_all [MStr (str ''setSharedVariable''), MStr (str ''!'' @ variable), MInt valor] c)))"

definition AnSISOP_wait :: "cstring \<Rightarrow> cpu \<Rightarrow> fault + cpu" where
  "AnSISOP_wait identificador_semaforo c =
     (case hear_string (say_all [MStr (str ''wait''), MStr identificador_semaforo] c) of
        (Some answerFromKernel, c1) \<Rightarrow>
          if string_equals_ignore_case answerFromKernel (str ''Failure'') then Inr c1
          else Inr (snd (hear_int c1))
      | (None, c1) \<Rightarrow> Inl Exit_Failure)"

definition AnSISOP_signal :: "cstring \<Rightarrow> cpu \<Rightarrow> cpu" where
  "AnSISOP_signal identificador_semaforo c =
     snd (hear_string (say_all [MStr (str ''signal''), MStr identificador_semaforo] c))"

definition AnSISOP_alocar :: "int \<Rightarrow> cpu \<Rightarrow> int \<times> cpu" where
  "AnSISOP_alocar espacio c =
     (case hear_int (say_all [MStr (str ''alocar''), MInt espacio] c) of
        (Some puntero, c1) \<Rightarrow> (t_puntero puntero, c1)
      | (None, c1) \<Rightarrow> (t_puntero (unset_int (cenv c)), c1))"

definition AnSISOP_liberar :: "int \<Rightarrow> cpu \<Rightarrow> cpu" where
  "AnSISOP_liberar puntero c = say_all [MStr (str ''liberar''), MInt (int_of_wide puntero)] c"

subsection \<open>Files\<close>

record t_banderas =
  creacion :: bool
  escritura :: bool
  lectura :: bool

definition flagsAppend :: "t_banderas \<Rightarrow> cstring" where
  "flagsAppend flags =
     (if creacion flags then str ''c'' else []) @ (if escritura flags then str ''w'' else [])
     @ (if lectura flags then str ''r'' else [])"

definition AnSISOP_abrir :: "cstring \<Rightarrow> t_banderas \<Rightarrow> cpu \<Rightarrow> int \<times> cpu" where
  "AnSISOP_abrir direccion flags c =
     (case hear_int (say_all [MStr (str ''abrir''), MStr direccion, MStr (flagsAppend flags)] c) of
        (Some descriptor, c1) \<Rightarrow> (t_puntero descriptor, c1)
      | (None, c1) \<Rightarrow> (t_puntero (unset_int (cenv c)), c1))"

definition AnSISOP_borrar :: "int \<Rightarrow> cpu \<Rightarrow> cpu" where
  "AnSISOP_borrar direccion c = snd (hear_int (say_all [MStr (str ''borrar''), MInt (int_of_wide direccion)] c))"

definition AnSISOP_cerrar :: "int \<Rightarrow> cpu \<Rightarrow> cpu" where
  "AnSISOP_cerrar descriptor_archivo c =
     snd (hear_int (say_all [MStr (str ''cerrar''), MInt (int_of_wide descriptor_archivo)] c))"

definition AnSISOP_moverCursor :: "int \<Rightarrow> int \<Rightarrow> cpu \<Rightarrow> cpu" where
  "AnSISOP_moverCursor descriptor_archivo posicion c =
     say_all [MStr (str ''moverCursor''), MInt (int_of_wide descriptor_archivo), MInt posicion] c"

text \<open>The bytes that are sent are the first \<open>tamanio\<close> of \<open>informacion\<close>, which must have them.\<close>

definition AnSISOP_escribir :: "int \<Rightarrow> byte list \<Rightarrow> int \<Rightarrow> cpu \<Rightarrow> fault + cpu" where
  "AnSISOP_escribir descriptor_archivo informacion tamanio c =
     (case blk_read informacion 0 (size_t_of_int tamanio) of
        None \<Rightarrow> Inl Buffer_Overflow
      | Some bs \<Rightarrow>
          Inr (say_all [MStr (str ''escribir''), MInt (int_of_wide descriptor_archivo), MBlob bs] c))"

definition AnSISOP_leer :: "int \<Rightarrow> int \<Rightarrow> int \<Rightarrow> cpu \<Rightarrow> cpu" where
  "AnSISOP_leer descriptor_archivo posicionMemoria tamanio c =
     snd (hear_int (say_all [MStr (str ''leer''), MInt (int_of_wide descriptor_archivo),
       MInt (int_of_wide posicionMemoria), MInt tamanio] c))"

end
