(* ===== verification/CPU_Cycle.thy ===== *)
theory CPU_Cycle
  imports CPU_Primitives
begin

text \<open>
  The instruction cycle of a CPU: \<open>functions/instruction_cycle.c\<close>, \<open>functions/pcb.c\<close> and the loop of
  \<open>CPU.c\<close>. \<open>analizadorLinea\<close>, the parser, is an argument: it executes a line by calling the
  functions of \<open>CPU_Primitives\<close>.

  The loop over the instructions of a process ends only when the Kernel says so or the exit code is
  set, so it is a partial function whose result is \<open>None\<close> when it runs for ever; \<open>isExecuting\<close> and
  \<open>desconectar\<close> are how the handler of \<open>SIGUSR1\<close> and the loop tell each other what to do.
\<close>

subsection \<open>Start\<close>

definition memory_connect :: "cpu \<Rightarrow> fault + cpu" where
  "memory_connect c =
     (case cpu_memory_frame_size (serverMemory c) of
        (n, s) \<Rightarrow> if n > 0 then Inr (c\<lparr>page_size := n, serverMemory := s\<rparr>) else Inl Exit_Failure)"

subsection \<open>The process control block on the connection\<close>

definition recv_pcb :: "cpu \<Rightarrow> fault + t_pcb option \<times> cpu" where
  "recv_pcb c =
     (case socket_recv_string (serverKernel c) of
        (_, None, s) \<Rightarrow> Inl Uninitialised
      | (_, Some message, s) \<Rightarrow>
          if string_equals_ignore_case (str ''PCB'') (cstr message) then
            (case socket_recv s of
               (recvSize, None, s1) \<Rightarrow> Inr (None, c\<lparr>serverKernel := s1\<rparr>)
             | (recvSize, Some bs, s1) \<Rightarrow>
                 and_then (pcb_deserialize (new_args (cenv c)) bs) (\<lambda>b.
                   Inr (Some b, c\<lparr>serverKernel := s1\<rparr>)))
          else Inr (None, c\<lparr>serverKernel := s\<rparr>))"

definition send_pcb :: "t_pcb \<Rightarrow> cpu \<Rightarrow> fault + cpu" where
  "send_pcb b c =
     (let c1 = say (MStr (str ''PCB'')) c in
      and_then (pcb_serialize b) (\<lambda>serializedPcb. Inr (say (MBlob serializedPcb) c1)))"

subsection \<open>One instruction\<close>

definition ask_kernel :: "cstring \<Rightarrow> cpu \<Rightarrow> fault + int \<times> cpu" where
  "ask_kernel question c =
     (case socket_send_string (serverKernel c) question of
        (n, s) \<Rightarrow>
          if n \<le> 0 then Inl Exit_Failure
          else (case hear_int (c\<lparr>serverKernel := s\<rparr>) of
                  (None, c1) \<Rightarrow> Inl Exit_Failure
                | (Some response, c1) \<Rightarrow> Inr (response, c1)))"

definition cycle_interruption_handler :: "cpu \<Rightarrow> fault + int \<times> cpu" where
  "cycle_interruption_handler = ask_kernel (str ''interruption'')"

definition cycle_still_burst :: "cpu \<Rightarrow> fault + int \<times> cpu" where
  "cycle_still_burst = ask_kernel (str ''still_burst'')"

definition is_blank :: "byte \<Rightarrow> bool" where
  "is_blank b \<longleftrightarrow> b = 32 \<or> b = 9"

text \<open>The text of the instruction: a blank or the end of the line is cut off, else a NUL is put behind it.\<close>

definition instruction_text :: "byte list \<Rightarrow> fault + cstring" where
  "instruction_text instructionStr =
     (if instructionStr = [] then Inl Buffer_Overflow
      else Inr (cstr (if is_blank (last instructionStr) \<or> last instructionStr = 10
                      then butlast instructionStr else instructionStr)))"

definition cycle_fetch :: "t_intructions \<Rightarrow> cpu \<Rightarrow> fault + cstring \<times> cpu" where
  "cycle_fetch currentInstruction c =
     (let start = int (ins_start currentInstruction);
          sz = int_of_wide (int (ins_offset currentInstruction)) in
      case cpu_memory_read (pid (cpcb c)) (start div page_size c) (start mod page_size c) sz (serverMemory c) of
        (None, s) \<Rightarrow> Inr ([], set_exit ERROR_MEMORY (c\<lparr>serverMemory := s\<rparr>))
      | (Some bs, s) \<Rightarrow>
          and_then (instruction_text bs) (\<lambda>line. Inr (line, c\<lparr>serverMemory := s\<rparr>)))"

definition current_instruction :: "cpu \<Rightarrow> fault + t_intructions" where
  "current_instruction c =
     (if pc (cpcb c) < length (indiceDeCodigo (cpcb c)) then Inr (indiceDeCodigo (cpcb c) ! pc (cpcb c))
      else Inl Buffer_Overflow)"

definition next_pc :: "cpu \<Rightarrow> cpu" where
  "next_pc = upd_pcb (\<lambda>b. b\<lparr>pc := size_t (int (pc b) + 1)\<rparr>)"

text \<open>One turn of the loop: the value of \<open>continuoEjecucion\<close> behind it.\<close>

definition cycle_turn :: "(cstring \<Rightarrow> cpu \<Rightarrow> fault + cpu) \<Rightarrow> cpu \<Rightarrow> fault + int \<times> cpu" where
  "cycle_turn analizadorLinea c =
     and_then (current_instruction c) (\<lambda>i.
     and_then (cycle_fetch i c) (\<lambda>(instruccion, c1).
     and_then (analizadorLinea instruccion (next_pc c1)) (\<lambda>c2.
     and_then (cycle_interruption_handler c2) (\<lambda>(interruption, c3).
       cycle_still_burst (if interruption < 0 then set_exit interruption c3 else c3)))))"

subsection \<open>The reason a process was interrupted for\<close>

definition interruption_texts :: "(int \<times> string) list" where
  "interruption_texts =
     [(-2, ''El programa intento leer un archivo que no existe''),
      (-3, ''El programa intento leer un archivo sin permisos''),
      (-4, ''El programa intento escribir un archivo sin permisos''),
      (-5, ''Excepcion de memoria''),
      (-6, ''Finalizado a traves de desconexion de consola''),
      (-8, ''Se intento reservar mas memoria que el tama'' @ [CHR 0xC3, CHR 0xB1] @ ''o de una pagina''),
      (-9, ''No se pueden asignar mas paginas al proceso''),
      (-10, ''Se intento borrar un archivo abierto por varios procesos''),
      (-11, ''File descriptor inexistente''),
      (-12, ''Se intento abrir un archivo inexistente''),
      (-13, ''operacion invalida en FS''),
      (-14, ''Semaforo inexistente''),
      (-15, ''Variable compartida inexistente''),
      (-16, ''La CPU se desconecto y dejo al programa en un estado incosistente''),
      (-17, ''Finalizado a travez del comando finalizar programa de la consola del kernel.''),
      (-28, ''No hay espacio en disco'')]"

text \<open>\<open>ENOSPC\<close> is 28.\<close>

definition print_interruption :: "int \<Rightarrow> string" where
  "print_interruption err =
     (case map_of interruption_texts err of Some t \<Rightarrow> t | None \<Rightarrow> ''Error sin definir'') @ [CHR 10]"

subsection \<open>The loops of CPU.c\<close>

partial_function (option) cycle_loop ::
    "(cstring \<Rightarrow> cpu \<Rightarrow> fault + cpu) \<Rightarrow> int \<Rightarrow> cpu \<Rightarrow> (fault + cpu) option" where
  "cycle_loop analizadorLinea continuoEjecucion c =
     (if continuoEjecucion \<noteq> 0 \<and> exitCode (cpcb c) = 1 then
        (case cycle_turn analizadorLinea c of
           Inl e \<Rightarrow> Some (Inl e)
         | Inr r \<Rightarrow> cycle_loop analizadorLinea (fst r) (snd r))
      else Some (Inr c))"

definition cycle_send_pcv :: "cpu \<Rightarrow> fault + cpu" where
  "cycle_send_pcv c =
     (case socket_send_string (serverKernel c) (str ''end_burst'') of
        (n, s) \<Rightarrow>
          if n \<noteq> -1 then
            and_then (send_pcb (cpcb c) (c\<lparr>serverKernel := s\<rparr>)) (\<lambda>c1.
              Inr (say (MInt (if exitCode (cpcb c) \<noteq> 1 then 1 else 0)) c1))
          else Inr (c\<lparr>serverKernel := s\<rparr>))"

text \<open>The handler of \<open>SIGUSR1\<close>; \<open>None\<close>: the process has ended.\<close>

definition desconectarCPU :: "cpu \<Rightarrow> cpu option" where
  "desconectarCPU c = (if isExecuting c = 0 then None else Some (c\<lparr>desconectar := 1\<rparr>))"

text \<open>A turn of the outer loop: one process until its burst ends. \<open>None\<close> inside: the CPU has ended.\<close>

definition run_process :: "(cstring \<Rightarrow> cpu \<Rightarrow> fault + cpu) \<Rightarrow> cpu \<Rightarrow> (fault + cpu option) option" where
  "run_process analizadorLinea c =
     (case recv_pcb c of
        Inl e \<Rightarrow> Some (Inl e)
      | Inr (None, c1) \<Rightarrow> Some (Inl Exit_Failure)
      | Inr (Some b, c1) \<Rightarrow>
          (case cycle_loop analizadorLinea 1 (c1\<lparr>cpcb := b, isExecuting := 1\<rparr>) of
             None \<Rightarrow> None
           | Some (Inl e) \<Rightarrow> Some (Inl e)
           | Some (Inr c2) \<Rightarrow>
               Some (and_then (cycle_send_pcv c2) (\<lambda>c3.
                 Inr (if desconectar c3 = 1 then None else Some (c3\<lparr>isExecuting := 0\<rparr>))))))"

end
