(* ===== verification/CPU_Laws.thy ===== *)
theory CPU_Laws
  imports CPU_Cycle
begin

text \<open>
  Variables and calls of a process on a CPU. \<open>top_address\<close> is the address at which the next variable
  goes; a call pushes a context, its variables go on top of the caller's, and the return takes back
  as many bytes as the context has variables and counted arguments.
\<close>

named_theorems cpu_simps \<open>what the operations of the CPU do to its fields\<close>

lemma upd_pcb_simps [simp]:
  "cpcb (upd_pcb f c) = f (cpcb c)" "cenv (upd_pcb f c) = cenv c" "page_size (upd_pcb f c) = page_size c"
  "serverKernel (upd_pcb f c) = serverKernel c" "serverMemory (upd_pcb f c) = serverMemory c"
  "upd_pcb f (upd_pcb g c) = upd_pcb (\<lambda>b. f (g b)) c"
  by (simp_all add: upd_pcb_def)

definition top_address :: "cpu \<Rightarrow> int" where
  "top_address c = int (cantPagsCodigo (cpcb c)) * page_size c + int (stackPosition (cpcb c))"

text \<open>The stack and the code stay within 31 bits of addresses.\<close>

definition small_space :: "cpu \<Rightarrow> bool" where
  "small_space c \<longleftrightarrow> 0 < page_size c \<and> top_address c + 4 < 2 ^ 31"

subsection \<open>Pointers and positions\<close>

lemma puntero_round:
  assumes "0 < page_size c" "0 \<le> p" "p < 2 ^ 31"
  shows "position_to_puntero (Some (puntero_to_position p c)) c = Inr p"
proof -
  have "c_quot p (page_size c) * page_size c + c_rem p (page_size c) = p" by (rule c_quot_rem)
  then show ?thesis using assms by (simp add: position_to_puntero_def puntero_to_position_def Let_def t_puntero_def)
qed

lemma t_puntero_small [simp]: "0 \<le> x \<Longrightarrow> x < 2 ^ 32 \<Longrightarrow> t_puntero x = x"
  by (simp add: t_puntero_def)

lemma size_t_small [simp]: "0 \<le> x \<Longrightarrow> x < 2 ^ 64 \<Longrightarrow> size_t x = nat x"
  by (simp add: size_t_def)

lemma small_space_top:
  assumes "small_space c"
  shows "int (stackPosition (cpcb c)) < 2 ^ 31" "0 \<le> top_address c" "top_address c < 2 ^ 31"
proof -
  have "0 \<le> int (cantPagsCodigo (cpcb c)) * page_size c" using assms by (simp add: small_space_def)
  then show "int (stackPosition (cpcb c)) < 2 ^ 31" "0 \<le> top_address c" "top_address c < 2 ^ 31"
    using assms unfolding small_space_def top_address_def by linarith+
qed

lemma arg_index_less: "is_argument x \<Longrightarrow> arg_index x < 10"
  unfolding is_argument_def arg_index_def by linarith

lemma stack_top_address:
  assumes "small_space c"
  shows "position_to_puntero (Some (stack_top c)) c = Inr (top_address c)"
    "0 \<le> pos_off (stack_top c)" "pos_off (stack_top c) < page_size c"
proof -
  note s = small_space_top [OF assms]
  let ?p = "int (stackPosition (cpcb c))"
  have ps: "0 < page_size c" using assms by (simp add: small_space_def)
  have p: "int_of_wide (t_puntero ?p) = ?p" using s(1) by simp
  have "c_quot ?p (page_size c) * page_size c + c_rem ?p (page_size c) = ?p" by (rule c_quot_rem)
  then have "pos_page (stack_top c) * page_size c + pos_off (stack_top c) = top_address c"
    unfolding stack_top_def puntero_to_position_def Let_def p by (simp add: top_address_def algebra_simps)
  then show "position_to_puntero (Some (stack_top c)) c = Inr (top_address c)"
    using s(2,3) by (simp add: position_to_puntero_def)
  have "pos_off (stack_top c) = ?p mod page_size c"
    unfolding stack_top_def puntero_to_position_def Let_def p using ps by (simp add: c_rem_nonneg)
  then show "0 \<le> pos_off (stack_top c)" "pos_off (stack_top c) < page_size c" using ps by simp_all
qed

subsection \<open>Defining a variable\<close>

definition has_context :: "cpu \<Rightarrow> bool" where
  "has_context c \<longleftrightarrow> indiceDeStack (cpcb c) \<noteq> []"

definition top_context :: "cpu \<Rightarrow> t_indiceDelStack" where
  "top_context c = last (indiceDeStack (cpcb c))"

lemma current_context [simp]: "has_context c \<Longrightarrow> stack_context_current c = Inr (top_context c)"
  by (simp add: has_context_def stack_context_current_def top_context_def)

text \<open>The exit code a definition leaves: an error once the stack has reached its end.\<close>

definition stack_check :: "cpu \<Rightarrow> cpu" where
  "stack_check c = (if stackPosition (cpcb c) \<ge> maxStackPosition (cpcb c) then set_exit ERROR_MEMORY c else c)"

definition raise_top :: "cpu \<Rightarrow> cpu" where
  "raise_top = upd_pcb (\<lambda>b. b\<lparr>stackPosition := size_t (int (stackPosition b) + int VAR_SIZE)\<rparr>)"

lemma set_exit_simps [simp]:
  "cpcb (set_exit v c) = (cpcb c)\<lparr>exitCode := v\<rparr>" "has_context (set_exit v c) = has_context c"
  "top_context (set_exit v c) = top_context c" "stack_top (set_exit v c) = stack_top c"
  "page_size (set_exit v c) = page_size c" "serverKernel (set_exit v c) = serverKernel c"
  "serverMemory (set_exit v c) = serverMemory c" "cenv (set_exit v c) = cenv c"
  by (simp_all add: set_exit_def has_context_def top_context_def stack_top_def puntero_to_position_def Let_def)

lemma stack_check_simps [simp]:
  "has_context (stack_check c) = has_context c" "top_context (stack_check c) = top_context c"
  "stack_top (stack_check c) = stack_top c" "page_size (stack_check c) = page_size c"
  "stackPosition (cpcb (stack_check c)) = stackPosition (cpcb c)"
  "indiceDeStack (cpcb (stack_check c)) = indiceDeStack (cpcb c)"
  "pc (cpcb (stack_check c)) = pc (cpcb c)" "cenv (stack_check c) = cenv c"
  "cantPagsCodigo (cpcb (stack_check c)) = cantPagsCodigo (cpcb c)"
  "serverKernel (stack_check c) = serverKernel c" "serverMemory (stack_check c) = serverMemory c"
  by (simp_all add: stack_check_def)

definition with_var :: "byte \<Rightarrow> cpu \<Rightarrow> t_indiceDelStack" where
  "with_var x c = (top_context c)\<lparr>vars := dictionary_put [x] (stack_top c) (vars (top_context c))\<rparr>"

definition with_arg :: "byte \<Rightarrow> cpu \<Rightarrow> t_indiceDelStack" where
  "with_arg x c = (top_context c)\<lparr>args := (args (top_context c))[arg_index x := stack_top c],
     argCount := argCount (top_context c) + 1\<rparr>"

lemma define_var:
  assumes "has_context c" "\<not> is_argument x"
  shows "AnSISOP_definirVariable x c
    = Inr (t_puntero (int_of_wide (int (stackPosition (cpcb c)))), raise_top (set_current (with_var x c) (stack_check c)))"
  using assms by (simp add: AnSISOP_definirVariable_def Let_def stack_add_var_def stack_check_def [symmetric] raise_top_def with_var_def)

lemma define_arg:
  assumes "has_context c" "is_argument x" "length (args (top_context c)) = 10"
  shows "AnSISOP_definirVariable x c
    = Inr (t_puntero (int_of_wide (int (stackPosition (cpcb c)))), raise_top (set_current (with_arg x c) (stack_check c)))"
proof -
  have "arg_index x < 10" using assms(2) by (rule arg_index_less)
  then show ?thesis
    using assms
    by (simp add: AnSISOP_definirVariable_def Let_def stack_add_arg_def stack_check_def [symmetric] raise_top_def with_arg_def)
qed

lemma set_current_simps [simp]:
  "indiceDeStack (cpcb (set_current x c)) = butlast (indiceDeStack (cpcb c)) @ [x]"
  "stackPosition (cpcb (set_current x c)) = stackPosition (cpcb c)" "pc (cpcb (set_current x c)) = pc (cpcb c)"
  "page_size (set_current x c) = page_size c" "cantPagsCodigo (cpcb (set_current x c)) = cantPagsCodigo (cpcb c)"
  "exitCode (cpcb (set_current x c)) = exitCode (cpcb c)" "maxStackPosition (cpcb (set_current x c)) = maxStackPosition (cpcb c)"
  "has_context (set_current x c)" "top_context (set_current x c) = x" "cenv (set_current x c) = cenv c"
  "serverKernel (set_current x c) = serverKernel c" "serverMemory (set_current x c) = serverMemory c"
  by (simp_all add: set_current_def has_context_def top_context_def)

lemma raise_top_simps [simp]:
  "indiceDeStack (cpcb (raise_top c)) = indiceDeStack (cpcb c)" "pc (cpcb (raise_top c)) = pc (cpcb c)"
  "stackPosition (cpcb (raise_top c)) = size_t (int (stackPosition (cpcb c)) + 4)"
  "page_size (raise_top c) = page_size c" "cantPagsCodigo (cpcb (raise_top c)) = cantPagsCodigo (cpcb c)"
  "exitCode (cpcb (raise_top c)) = exitCode (cpcb c)" "maxStackPosition (cpcb (raise_top c)) = maxStackPosition (cpcb c)"
  "has_context (raise_top c) = has_context c" "top_context (raise_top c) = top_context c" "cenv (raise_top c) = cenv c"
  "serverKernel (raise_top c) = serverKernel c" "serverMemory (raise_top c) = serverMemory c"
  by (simp_all add: raise_top_def has_context_def top_context_def VAR_SIZE_def)

subsection \<open>Finding a variable\<close>

text \<open>Where a name is looked up: in the context on top, else in that of the main program.\<close>

definition var_position :: "cpu \<Rightarrow> byte \<Rightarrow> t_position option" where
  "var_position c x =
     (case dictionary_get (vars (top_context c)) [x] of
        Some p \<Rightarrow> Some p
      | None \<Rightarrow> dictionary_get (vars (hd (indiceDeStack (cpcb c)))) [x])"

lemma get_var:
  assumes "has_context c"
  shows "stack_get_var x c = (case var_position c x of None \<Rightarrow> Inl Null_Deref | Some p \<Rightarrow> Inr p)"
  using assms
  by (auto simp: stack_get_var_def is_local_from_function_def dictionary_has_key_def dictionary_get_def
      var_position_def stack_get_first_context_def has_context_def split: option.splits)

lemma find_var:
  assumes "has_context c" "\<not> is_argument x"
  shows "AnSISOP_obtenerPosicionVariable x c =
    (case var_position c x of None \<Rightarrow> Inl Null_Deref
     | Some p \<Rightarrow> and_then (position_to_puntero (Some p) c) (\<lambda>v. Inr (v, c)))"
  using assms by (simp add: AnSISOP_obtenerPosicionVariable_def get_var split: option.splits)

lemma find_arg:
  assumes "has_context c" "is_argument x" "length (args (top_context c)) = 10"
  shows "AnSISOP_obtenerPosicionVariable x c =
    (let c1 = set_current ((top_context c)\<lparr>argCount := argCount (top_context c) + 1\<rparr>) c in
     and_then (position_to_puntero (Some (args (top_context c) ! arg_index x)) c1) (\<lambda>v. Inr (v, c1)))"
proof -
  have "arg_index x < 10" using assms(2) by (rule arg_index_less)
  then show ?thesis using assms by (simp add: AnSISOP_obtenerPosicionVariable_def stack_get_arg_def Let_def)
qed

end
