(* ===== verification/CPU_Calls.thy ===== *)
theory CPU_Calls
  imports CPU_Laws
begin

text \<open>
  A call from beginning to end: the callee defines its arguments and variables, looks some of them up,
  and returns. \<open>define_all\<close> and \<open>read_all\<close> are the calls of the parser in a row.
\<close>

fun define_all :: "byte list \<Rightarrow> cpu \<Rightarrow> fault + cpu" where
  "define_all [] c = Inr c"
| "define_all (x # xs) c = and_then (AnSISOP_definirVariable x c) (\<lambda>(_, c1). define_all xs c1)"

fun read_all :: "byte list \<Rightarrow> cpu \<Rightarrow> fault + cpu" where
  "read_all [] c = Inr c"
| "read_all (x # xs) c = and_then (AnSISOP_obtenerPosicionVariable x c) (\<lambda>(_, c1). read_all xs c1)"

text \<open>The slots a context has on the stack, as \<open>stack_pop\<close> counts them.\<close>

definition slots :: "t_indiceDelStack \<Rightarrow> nat" where
  "slots x = dictionary_size (vars x) + argCount x"

text \<open>The caller's state \<open>c0\<close> below the context on top of \<open>c\<close>, which has \<open>n\<close> slots and returns to \<open>r\<close>.\<close>

definition in_call :: "cpu \<Rightarrow> cpu \<Rightarrow> int \<Rightarrow> nat \<Rightarrow> bool" where
  "in_call c0 c r n \<longleftrightarrow>
     indiceDeStack (cpcb c) = indiceDeStack (cpcb c0) @ [top_context c] \<and> retPos (top_context c) = r
     \<and> length (args (top_context c)) = 10 \<and> slots (top_context c) = n
     \<and> page_size c = page_size c0 \<and> cantPagsCodigo (cpcb c) = cantPagsCodigo (cpcb c0)
     \<and> cenv c = cenv c0"

lemma in_call_context: "in_call c0 c r n \<Longrightarrow> has_context c"
  by (auto simp: in_call_def has_context_def)

lemma in_call_set:
  assumes "in_call c0 c r n" "retPos x = r" "length (args x) = 10"
  shows "in_call c0 (set_current x c) r (slots x)"
  using assms by (simp add: in_call_def)

lemma in_call_check [simp]: "in_call c0 (stack_check c) r n = in_call c0 c r n"
  by (simp add: in_call_def)

lemma in_call_raise [simp]: "in_call c0 (raise_top c) r n = in_call c0 c r n"
  by (simp add: in_call_def)

subsection \<open>Definitions\<close>

lemma dictionary_size_put: "dictionary_size (dictionary_put k v d) = (if k \<in> fst ` set d then dictionary_size d else dictionary_size d + 1)"
proof (cases "k \<in> fst ` set d")
  case True
  then have "length (AList.update k v d) = length d" by (induction d) auto
  with True show ?thesis by (simp add: dictionary_size_def dictionary_put_def)
next
  case False
  then show ?thesis by (simp add: dictionary_size_def dictionary_put_new)
qed

definition names_of :: "cpu \<Rightarrow> cstring set" where
  "names_of c = fst ` set (vars (top_context c))"

lemma define_step:
  assumes "in_call c0 c r n" "[x] \<notin> names_of c" "int (stackPosition (cpcb c)) + 4 < 2 ^ 64"
  obtains v c' where "AnSISOP_definirVariable x c = Inr (v, c')" "in_call c0 c' r (n + 1)"
    "stackPosition (cpcb c') = stackPosition (cpcb c) + 4"
    "names_of c' = (if is_argument x then names_of c else insert [x] (names_of c))"
proof -
  have h: "has_context c" using assms(1) by (rule in_call_context)
  have i: "retPos (top_context c) = r" "length (args (top_context c)) = 10" "slots (top_context c) = n"
    using assms(1) by (simp_all add: in_call_def)
  have sp: "size_t (int (stackPosition (cpcb c)) + 4) = stackPosition (cpcb c) + 4" using assms(3) by simp
  show thesis
  proof (cases "is_argument x")
    case True
    have "slots (with_arg x c) = n + 1" using i(3) by (simp add: slots_def with_arg_def)
    moreover have "in_call c0 (set_current (with_arg x c) (stack_check c)) r (slots (with_arg x c))"
      using assms(1) i by (intro in_call_set) (simp_all add: with_arg_def)
    ultimately show ?thesis
      using that [OF define_arg [OF h True i(2)]] sp True by (simp add: names_of_def with_arg_def)
  next
    case False
    have "slots (with_var x c) = n + 1" using i(3) assms(2) by (simp add: slots_def with_var_def dictionary_size_put names_of_def)
    moreover have "in_call c0 (set_current (with_var x c) (stack_check c)) r (slots (with_var x c))"
      using assms(1) i by (intro in_call_set) (simp_all add: with_var_def)
    ultimately show ?thesis
      using that [OF define_var [OF h False]] sp False by (simp add: names_of_def with_var_def)
  qed
qed

lemma define_all_spec:
  assumes "in_call c0 c r n" "distinct xs" "\<forall>x \<in> set xs. [x] \<notin> names_of c"
    "int (stackPosition (cpcb c)) + 4 * int (length xs) < 2 ^ 64"
  shows "\<exists>c'. define_all xs c = Inr c' \<and> in_call c0 c' r (n + length xs)
    \<and> stackPosition (cpcb c') = stackPosition (cpcb c) + 4 * length xs
    \<and> names_of c' = names_of c \<union> (\<lambda>x. [x]) ` {x \<in> set xs. \<not> is_argument x}"
  using assms
proof (induction xs arbitrary: c n)
  case (Cons x xs)
  obtain v c1 where c1: "AnSISOP_definirVariable x c = Inr (v, c1)" "in_call c0 c1 r (n + 1)"
    "stackPosition (cpcb c1) = stackPosition (cpcb c) + 4"
    "names_of c1 = (if is_argument x then names_of c else insert [x] (names_of c))"
    using define_step [OF Cons.prems(1), of x] Cons.prems(3,4) by auto
  have "\<forall>y \<in> set xs. [y] \<notin> names_of c1" using c1(4) Cons.prems(2,3) by auto
  moreover have "int (stackPosition (cpcb c1)) + 4 * int (length xs) < 2 ^ 64" using c1(3) Cons.prems(4) by simp
  ultimately obtain c' where "define_all xs c1 = Inr c'" "in_call c0 c' r (n + 1 + length xs)"
    "stackPosition (cpcb c') = stackPosition (cpcb c1) + 4 * length xs"
    "names_of c' = names_of c1 \<union> (\<lambda>x. [x]) ` {x \<in> set xs. \<not> is_argument x}"
    using Cons.IH [OF c1(2)] Cons.prems(2) by auto
  with c1 show ?case by (intro exI [of _ c']) auto
qed simp

subsection \<open>Lookups\<close>

lemma position_to_puntero_some [simp]: "position_to_puntero (Some p) c = Inr (t_puntero (pos_page p * page_size c + pos_off p))"
  by (simp add: position_to_puntero_def)

lemma read_step:
  assumes "in_call c0 c r n" "is_argument x \<or> [x] \<in> names_of c"
  obtains v c' where "AnSISOP_obtenerPosicionVariable x c = Inr (v, c')"
    "in_call c0 c' r (n + (if is_argument x then 1 else 0))" "stackPosition (cpcb c') = stackPosition (cpcb c)"
    "names_of c' = names_of c"
proof -
  have h: "has_context c" using assms(1) by (rule in_call_context)
  have i: "retPos (top_context c) = r" "length (args (top_context c)) = 10" "slots (top_context c) = n"
    using assms(1) by (simp_all add: in_call_def)
  show thesis
  proof (cases "is_argument x")
    case True
    let ?x = "(top_context c)\<lparr>argCount := argCount (top_context c) + 1\<rparr>"
    have "in_call c0 (set_current ?x c) r (slots ?x)" using assms(1) i by (intro in_call_set) simp_all
    moreover have "slots ?x = n + 1" using i(3) by (simp add: slots_def)
    ultimately show ?thesis using that find_arg [OF h True i(2)] True by (simp add: Let_def names_of_def)
  next
    case False
    then have "[x] \<in> names_of c" using assms(2) by simp
    then obtain p where "dictionary_get (vars (top_context c)) [x] = Some p"
      by (auto simp: names_of_def dictionary_get_def map_of_eq_None_iff dest: weak_map_of_SomeI)
    then show ?thesis using that find_var [OF h False] assms(1) False by (simp add: var_position_def)
  qed
qed

lemma read_all_spec:
  assumes "in_call c0 c r n" "\<forall>x \<in> set xs. is_argument x \<or> [x] \<in> names_of c"
  shows "\<exists>c'. read_all xs c = Inr c' \<and> in_call c0 c' r (n + length (filter is_argument xs))
    \<and> stackPosition (cpcb c') = stackPosition (cpcb c)"
  using assms
proof (induction xs arbitrary: c n)
  case (Cons x xs)
  obtain v c1 where c1: "AnSISOP_obtenerPosicionVariable x c = Inr (v, c1)"
    "in_call c0 c1 r (n + (if is_argument x then 1 else 0))" "stackPosition (cpcb c1) = stackPosition (cpcb c)"
    "names_of c1 = names_of c"
    using read_step [OF Cons.prems(1), of x] Cons.prems(2) by (metis list.set_intros(1))
  then obtain c' where "read_all xs c1 = Inr c'"
    "in_call c0 c' r (n + (if is_argument x then 1 else 0) + length (filter is_argument xs))"
    "stackPosition (cpcb c') = stackPosition (cpcb c1)"
    using Cons.IH [OF c1(2)] Cons.prems(2) by auto
  with c1 show ?case by (intro exI [of _ c']) auto
qed auto

subsection \<open>The call and the return\<close>

lemma call_enters:
  assumes "length (new_args (cenv c)) = 10"
  shows "in_call c (AnSISOP_llamarConRetorno f a c) (int_of_wide (int (pc (cpcb c)))) 0"
    "stackPosition (cpcb (AnSISOP_llamarConRetorno f a c)) = stackPosition (cpcb c)"
    "names_of (AnSISOP_llamarConRetorno f a c) = {}"
  using assms
  by (simp_all add: in_call_def AnSISOP_llamarConRetorno_def AnSISOP_irAlLabel_def
      push_context_def top_context_def stack_context_create_def slots_def dictionary_size_def names_of_def)

lemma return_leaves:
  assumes "in_call c0 c r n" "0 \<le> r" "has_context c0"
  shows "\<exists>c'. AnSISOP_finalizar c = Inr c' \<and> indiceDeStack (cpcb c') = indiceDeStack (cpcb c0)
    \<and> pc (cpcb c') = size_t r \<and> stackPosition (cpcb c') = size_t (int (stackPosition (cpcb c)) - 4 * int n)
    \<and> exitCode (cpcb c') = exitCode (cpcb c) \<and> page_size c' = page_size c0
    \<and> cantPagsCodigo (cpcb c') = cantPagsCodigo (cpcb c0)"
proof -
  have h: "has_context c" using assms(1) by (rule in_call_context)
  have i: "indiceDeStack (cpcb c) = indiceDeStack (cpcb c0) @ [top_context c]" "retPos (top_context c) = r" "slots (top_context c) = n"
    "page_size c = page_size c0" "cantPagsCodigo (cpcb c) = cantPagsCodigo (cpcb c0)"
    using assms(1) by (simp_all add: in_call_def)
  let ?c = "upd_pcb (\<lambda>b. b\<lparr>pc := size_t r\<rparr>) c"
  have top: "stack_context_current ?c = Inr (top_context c)"
    using h by (simp add: stack_context_current_def has_context_def top_context_def)
  have n: "int ((dictionary_size (vars (top_context c)) + argCount (top_context c)) * VAR_SIZE) = 4 * int n"
    using i(3) by (simp add: slots_def VAR_SIZE_def)
  have "stack_pop ?c = Inr (upd_pcb (\<lambda>b. b\<lparr>stackPosition := size_t (int (stackPosition b) - 4 * int n),
      indiceDeStack := butlast (indiceDeStack b)\<rparr>) ?c)"
    unfolding stack_pop_def top and_then_simps Let_def n ..
  then show ?thesis
    using i assms(3) by (simp add: AnSISOP_finalizar_def h has_context_def)
qed

text \<open>
  The whole call. Every argument that was looked up was counted once more, so the return takes as many
  slots too many off the stack.
\<close>

lemma call_and_return:
  assumes "length (new_args (cenv c)) = 10" "has_context c" "int (pc (cpcb c)) < 2 ^ 31"
    "distinct names" "int (stackPosition (cpcb c)) + 4 * int (length names) < 2 ^ 64"
    "\<forall>x \<in> set reads. is_argument x \<or> x \<in> set names"
  obtains c1 c2 c3 where "define_all names (AnSISOP_llamarConRetorno f a c) = Inr c1" "read_all reads c1 = Inr c2"
    "AnSISOP_finalizar c2 = Inr c3" "pc (cpcb c3) = pc (cpcb c)" "indiceDeStack (cpcb c3) = indiceDeStack (cpcb c)"
    "stackPosition (cpcb c3) = size_t (int (stackPosition (cpcb c)) - 4 * int (length (filter is_argument reads)))"
    "page_size c3 = page_size c" "cantPagsCodigo (cpcb c3) = cantPagsCodigo (cpcb c)"
proof -
  let ?r = "int_of_wide (int (pc (cpcb c)))"
  have r: "?r = int (pc (cpcb c))" using assms(3) by simp
  note e = call_enters [OF assms(1), of f a]
  obtain c1 where c1: "define_all names (AnSISOP_llamarConRetorno f a c) = Inr c1" "in_call c c1 ?r (length names)"
    "stackPosition (cpcb c1) = stackPosition (cpcb c) + 4 * length names"
    "names_of c1 = (\<lambda>x. [x]) ` {x \<in> set names. \<not> is_argument x}"
    using define_all_spec [OF e(1) assms(4)] assms(5) unfolding e(2,3) by auto
  have "\<forall>x \<in> set reads. is_argument x \<or> [x] \<in> names_of c1" using assms(6) c1(4) by auto
  then obtain c2 where c2: "read_all reads c1 = Inr c2" "in_call c c2 ?r (length names + length (filter is_argument reads))"
    "stackPosition (cpcb c2) = stackPosition (cpcb c1)"
    using read_all_spec [OF c1(2)] by blast
  obtain c3 where c3: "AnSISOP_finalizar c2 = Inr c3" "indiceDeStack (cpcb c3) = indiceDeStack (cpcb c)" "pc (cpcb c3) = size_t ?r"
    "stackPosition (cpcb c3) = size_t (int (stackPosition (cpcb c2)) - 4 * int (length names + length (filter is_argument reads)))"
    "page_size c3 = page_size c" "cantPagsCodigo (cpcb c3) = cantPagsCodigo (cpcb c)"
    using return_leaves [OF c2(2) _ assms(2)] r by auto
  have "int (pc (cpcb c)) < 2 ^ 64" using assms(3) by simp
  then have "size_t ?r = pc (cpcb c)" unfolding r by simp
  then have pc3: "pc (cpcb c3) = pc (cpcb c)" using c3(3) by simp
  have "int (stackPosition (cpcb c2)) - 4 * int (length names + length (filter is_argument reads))
      = int (stackPosition (cpcb c)) - 4 * int (length (filter is_argument reads))"
    using c2(3) c1(3) by simp
  then have "stackPosition (cpcb c3) = size_t (int (stackPosition (cpcb c)) - 4 * int (length (filter is_argument reads)))"
    unfolding c3(4) by (simp only:)
  then show thesis by (rule that [OF c1(1) c2(1) c3(1) pc3 c3(2) _ c3(5,6)])
qed

text \<open>The next variable of the caller goes where the stack position says.\<close>

lemma stack_top_cong:
  "stackPosition (cpcb c) = stackPosition (cpcb d) \<Longrightarrow> page_size c = page_size d \<Longrightarrow>
     cantPagsCodigo (cpcb c) = cantPagsCodigo (cpcb d) \<Longrightarrow> stack_top c = stack_top d"
  by (simp add: stack_top_def puntero_to_position_def Let_def)

definition local_position :: "cpu \<Rightarrow> byte \<Rightarrow> t_position option" where
  "local_position c x = dictionary_get (vars (top_context c)) [x]"

lemma define_local:
  assumes "has_context c" "\<not> is_argument x" "int (stackPosition (cpcb c)) + 4 < 2 ^ 64"
  obtains v c' where "AnSISOP_definirVariable x c = Inr (v, c')" "has_context c'"
    "local_position c' = (local_position c)(x := Some (stack_top c))"
    "stackPosition (cpcb c') = stackPosition (cpcb c) + 4" "page_size c' = page_size c"
    "cantPagsCodigo (cpcb c') = cantPagsCodigo (cpcb c)"
proof -
  let ?c = "raise_top (set_current (with_var x c) (stack_check c))"
  have "local_position ?c = (local_position c)(x := Some (stack_top c))"
    by (simp add: fun_eq_iff local_position_def with_var_def)
  then show thesis using that [OF define_var [OF assms(1,2)]] assms(3) by simp
qed

lemma find_local:
  assumes "has_context c" "\<not> is_argument x" "local_position c x = Some p"
  shows "AnSISOP_obtenerPosicionVariable x c = and_then (position_to_puntero (Some p) c) (\<lambda>v. Inr (v, c))"
  using assms by (simp add: find_var var_position_def local_position_def)

lemma define_all_positions:
  assumes "has_context c" "distinct xs" "\<forall>x \<in> set xs. \<not> is_argument x"
    "0 < page_size c" "top_address c + 4 * int (length xs) < 2 ^ 31"
  shows "\<exists>c'. define_all xs c = Inr c' \<and> has_context c' \<and> page_size c' = page_size c
    \<and> (\<forall>y. y \<notin> set xs \<longrightarrow> local_position c' y = local_position c y)
    \<and> (\<forall>i < length xs. \<exists>p. local_position c' (xs ! i) = Some p
        \<and> t_puntero (pos_page p * page_size c + pos_off p) = top_address c + 4 * int i)"
  using assms
proof (induction xs arbitrary: c)
  case (Cons x xs)
  have small: "small_space c" using Cons.prems(4,5) by (simp add: small_space_def)
  have sp: "int (stackPosition (cpcb c)) + 4 < 2 ^ 64" using small_space_top(1) [OF small] by simp
  obtain v c1 where c1: "AnSISOP_definirVariable x c = Inr (v, c1)" "has_context c1"
    "local_position c1 = (local_position c)(x := Some (stack_top c))"
    "stackPosition (cpcb c1) = stackPosition (cpcb c) + 4" "page_size c1 = page_size c"
    "cantPagsCodigo (cpcb c1) = cantPagsCodigo (cpcb c)"
    using define_local [OF Cons.prems(1) _ sp, of x] Cons.prems(3) by auto
  have top: "top_address c1 = top_address c + 4" by (simp add: top_address_def c1(4,5,6))
  obtain c' where c': "define_all xs c1 = Inr c'" "has_context c'" "page_size c' = page_size c1"
    "\<forall>y. y \<notin> set xs \<longrightarrow> local_position c' y = local_position c1 y"
    "\<forall>i < length xs. \<exists>p. local_position c' (xs ! i) = Some p
        \<and> t_puntero (pos_page p * page_size c1 + pos_off p) = top_address c1 + 4 * int i"
    using Cons.IH [OF c1(2)] Cons.prems(2-5) c1(5) top by auto
  have first: "local_position c' x = Some (stack_top c)" using c'(4) c1(3) Cons.prems(2) by simp
  have "t_puntero (pos_page (stack_top c) * page_size c + pos_off (stack_top c)) = top_address c"
    using stack_top_address(1) [OF small] by simp
  with first have zero: "\<exists>p. local_position c' ((x # xs) ! 0) = Some p
      \<and> t_puntero (pos_page p * page_size c + pos_off p) = top_address c + 4 * int 0" by simp
  have "\<exists>p. local_position c' ((x # xs) ! i) = Some p
      \<and> t_puntero (pos_page p * page_size c + pos_off p) = top_address c + 4 * int i" if "i < length (x # xs)" for i
    using that zero c'(5) top c1(5) by (cases i) auto
  then show ?case using c1 c' by (intro exI [of _ c']) simp
qed simp

lemma define_all_addresses:
  assumes "has_context c" "distinct xs" "\<forall>x \<in> set xs. \<not> is_argument x"
    "0 < page_size c" "top_address c + 4 * int (length xs) < 2 ^ 31"
  obtains c' where "define_all xs c = Inr c'"
    "\<forall>i < length xs. AnSISOP_obtenerPosicionVariable (xs ! i) c' = Inr (top_address c + 4 * int i, c')"
proof -
  obtain c' where c': "define_all xs c = Inr c'" "has_context c'" "page_size c' = page_size c"
    "\<forall>i < length xs. \<exists>p. local_position c' (xs ! i) = Some p
        \<and> t_puntero (pos_page p * page_size c + pos_off p) = top_address c + 4 * int i"
    using define_all_positions [OF assms] by blast
  have "AnSISOP_obtenerPosicionVariable (xs ! i) c' = Inr (top_address c + 4 * int i, c')" if i: "i < length xs" for i
  proof -
    obtain p where "local_position c' (xs ! i) = Some p"
      "t_puntero (pos_page p * page_size c + pos_off p) = top_address c + 4 * int i"
      using c'(4) i by blast
    moreover have "\<not> is_argument (xs ! i)" using assms(3) i by simp
    ultimately show ?thesis using find_local [OF c'(2)] c'(3) by simp
  qed
  with c'(1) show thesis using that by blast
qed

subsection \<open>What a looked-up argument does to the caller\<close>

lemma argument_read_aliases:
  assumes "has_context c0" "\<not> is_argument x" "\<not> is_argument y" "x \<noteq> y" "int (stackPosition (cpcb c0)) < 2 ^ 31"
    "length (new_args (cenv c0)) = 10" "int (pc (cpcb c0)) < 2 ^ 31"
  obtains v c c1 c2 c3 w c4 where "AnSISOP_definirVariable x c0 = Inr (v, c)"
    "define_all [48] (AnSISOP_llamarConRetorno f a c) = Inr c1" "read_all [48] c1 = Inr c2"
    "AnSISOP_finalizar c2 = Inr c3" "AnSISOP_definirVariable y c3 = Inr (w, c4)"
    "local_position c4 x = Some (stack_top c0)" "local_position c4 y = Some (stack_top c0)"
proof -
  have sp: "int (stackPosition (cpcb c0)) + 4 < 2 ^ 64" using assms(5) by simp
  obtain v c where c: "AnSISOP_definirVariable x c0 = Inr (v, c)" "has_context c"
    "local_position c = (local_position c0)(x := Some (stack_top c0))"
    "stackPosition (cpcb c) = stackPosition (cpcb c0) + 4" "page_size c = page_size c0"
    "cantPagsCodigo (cpcb c) = cantPagsCodigo (cpcb c0)"
    using define_local [OF assms(1,2) sp] by metis
  have c_eq: "c = raise_top (set_current (with_var x c0) (stack_check c0))"
    using c(1) define_var [OF assms(1,2)] by simp
  have env: "length (new_args (cenv c)) = 10" "int (pc (cpcb c)) < 2 ^ 31" using assms(6,7) by (simp_all add: c_eq)
  have a48: "is_argument 48" by (simp add: is_argument_def)
  obtain c1 c2 c3 where r: "define_all [48] (AnSISOP_llamarConRetorno f a c) = Inr c1" "read_all [48] c1 = Inr c2"
    "AnSISOP_finalizar c2 = Inr c3" "indiceDeStack (cpcb c3) = indiceDeStack (cpcb c)"
    "stackPosition (cpcb c3) = size_t (int (stackPosition (cpcb c)) - 4 * int (length (filter is_argument [48])))"
    "page_size c3 = page_size c" "cantPagsCodigo (cpcb c3) = cantPagsCodigo (cpcb c)"
    by (rule call_and_return [OF env(1) c(2) env(2), of "[48]" "[48]" f a]) (use c(4) assms(5) a48 in auto)
  have sp3: "stackPosition (cpcb c3) = stackPosition (cpcb c0)" using r(5) a48 c(4) assms(5) by simp
  have top3: "stack_top c3 = stack_top c0" using sp3 r(6,7) c(5,6) by (intro stack_top_cong) simp_all
  have h3: "has_context c3" "local_position c3 = local_position c"
    using r(4) c(2) by (simp_all add: has_context_def local_position_def top_context_def fun_eq_iff)
  obtain w c4 where c4: "AnSISOP_definirVariable y c3 = Inr (w, c4)" "local_position c4 = (local_position c3)(y := Some (stack_top c3))"
    using define_local [OF h3(1) assms(3)] sp unfolding sp3 by metis
  then have "local_position c4 x = Some (stack_top c0)" "local_position c4 y = Some (stack_top c0)"
    using assms(4) h3(2) c(3) top3 by simp_all
  then show thesis using that c(1) r(1-3) c4(1) by blast
qed

end
