(* ===== verification/CPU_Loop.thy ===== *)
theory CPU_Loop
  imports CPU_Calls
begin

text \<open>
  What a line of a program can do to a CPU, and the loop over the instructions. The parser acts on the
  process only through the functions \<open>ansisop_init\<close> gives it: \<open>ansisop_code\<close> are the computations that
  call them in a row, each call depending on what the calls before it answered.
\<close>

subsection \<open>The functions the parser is given, ansisop.c\<close>

inductive value_primitive :: "(cpu \<Rightarrow> fault + int \<times> cpu) \<Rightarrow> bool" where
  "value_primitive (AnSISOP_definirVariable x)"
| "value_primitive (AnSISOP_obtenerPosicionVariable x)"
| "value_primitive (\<lambda>c. Inr (AnSISOP_dereferenciar a c))"
| "value_primitive (\<lambda>c. Inr (AnSISOP_obtenerValorCompartida name c))"
| "value_primitive (\<lambda>c. Inr (AnSISOP_asignarValorCompartida name v c))"
| "value_primitive (\<lambda>c. Inr (AnSISOP_alocar sz c))"
| "value_primitive (\<lambda>c. Inr (AnSISOP_abrir path flags c))"

inductive plain_primitive :: "(cpu \<Rightarrow> fault + cpu) \<Rightarrow> bool" where
  "plain_primitive (\<lambda>c. Inr (AnSISOP_asignar a v c))"
| "plain_primitive (\<lambda>c. Inr (AnSISOP_irAlLabel l c))"
| "plain_primitive (\<lambda>c. Inr (AnSISOP_llamarSinRetorno l c))"
| "plain_primitive (\<lambda>c. Inr (AnSISOP_llamarConRetorno l a c))"
| "plain_primitive (AnSISOP_retornar v)"
| "plain_primitive AnSISOP_finalizar"
| "plain_primitive (AnSISOP_wait sem)"
| "plain_primitive (\<lambda>c. Inr (AnSISOP_signal sem c))"
| "plain_primitive (\<lambda>c. Inr (AnSISOP_liberar a c))"
| "plain_primitive (\<lambda>c. Inr (AnSISOP_borrar fd c))"
| "plain_primitive (\<lambda>c. Inr (AnSISOP_cerrar fd c))"
| "plain_primitive (\<lambda>c. Inr (AnSISOP_moverCursor fd v c))"
| "plain_primitive (AnSISOP_escribir fd bs sz)"
| "plain_primitive (\<lambda>c. Inr (AnSISOP_leer fd a sz c))"

inductive ansisop_code :: "(cpu \<Rightarrow> fault + cpu) \<Rightarrow> bool" where
  code_end: "ansisop_code Inr"
| code_value: "value_primitive p \<Longrightarrow> (\<And>v. ansisop_code (k v)) \<Longrightarrow>
     ansisop_code (\<lambda>c. and_then (p c) (\<lambda>r. k (fst r) (snd r)))"
| code_plain: "plain_primitive p \<Longrightarrow> ansisop_code k \<Longrightarrow> ansisop_code (\<lambda>c. and_then (p c) k)"

subsection \<open>What every one of them keeps\<close>

definition ten_args :: "cpu \<Rightarrow> bool" where
  "ten_args c \<longleftrightarrow> length (new_args (cenv c)) = 10 \<and> (\<forall>x \<in> set (indiceDeStack (cpcb c)). length (args x) = 10)"

text \<open>
  The process stays the same one, its contexts keep their ten arguments, its exit code is only ever
  set to 0 or a memory error, and the Kernel's answers are only consumed.
\<close>

definition same_process :: "cpu \<Rightarrow> cpu \<Rightarrow> bool" where
  "same_process c c' \<longleftrightarrow>
     pid (cpcb c') = pid (cpcb c) \<and> indiceDeCodigo (cpcb c') = indiceDeCodigo (cpcb c)
     \<and> indiceDeCodigoCant (cpcb c') = indiceDeCodigoCant (cpcb c) \<and> indiceDeEtiquetas (cpcb c') = indiceDeEtiquetas (cpcb c)
     \<and> indiceDeEtiquetasCant (cpcb c') = indiceDeEtiquetasCant (cpcb c) \<and> cantPagsCodigo (cpcb c') = cantPagsCodigo (cpcb c)
     \<and> maxStackPosition (cpcb c') = maxStackPosition (cpcb c) \<and> page_size c' = page_size c \<and> cenv c' = cenv c
     \<and> desconectar c' = desconectar c \<and> isExecuting c' = isExecuting c
     \<and> exitCode (cpcb c') \<in> {exitCode (cpcb c), ERROR_MEMORY, 0}
     \<and> (ten_args c \<longrightarrow> ten_args c')"

definition answers_left :: "cpu \<Rightarrow> nat" where
  "answers_left c = length (rx (serverKernel c))"

definition moves_on :: "cpu \<Rightarrow> cpu \<Rightarrow> bool" where
  "moves_on c c' \<longleftrightarrow> same_process c c' \<and> answers_left c' \<le> answers_left c"

lemma moves_on_refl [simp]: "moves_on c c"
  by (simp add: moves_on_def same_process_def)

lemma same_process_trans:
  assumes "same_process a b" "same_process b c"
  shows "same_process a c"
proof -
  note ab = assms(1) [unfolded same_process_def] and bc = assms(2) [unfolded same_process_def]
  show ?thesis
    unfolding same_process_def
  proof (intro conjI)
    have "exitCode (cpcb b) \<in> {exitCode (cpcb a), ERROR_MEMORY, 0}" "exitCode (cpcb c) \<in> {exitCode (cpcb b), ERROR_MEMORY, 0}"
      using ab bc by blast+
    then show "exitCode (cpcb c) \<in> {exitCode (cpcb a), ERROR_MEMORY, 0}" by (elim insertE emptyE) simp_all
    show "ten_args a \<longrightarrow> ten_args c" using ab bc by blast
  qed (use ab bc in simp_all)
qed

lemma moves_on_trans: "moves_on a b \<Longrightarrow> moves_on b c \<Longrightarrow> moves_on a c"
  unfolding moves_on_def using same_process_trans by (blast intro: le_trans)

lemma sys_send_rx [simp]: "rx (snd (sys_send s bs)) = rx s"
  by (simp add: sys_send_def Let_def)

lemma send_rx [simp]:
  "rx (snd (socket_send_int s v)) = rx s" "rx (snd (socket_send s bs)) = rx s"
  "rx (snd (socket_send_string s t)) = rx s"
proof -
  show blob: "rx (snd (socket_send s bs)) = rx s" for bs
    by (simp add: socket_send_def split_def Let_def)
  show "rx (snd (socket_send_int s v)) = rx s"
    by (simp add: socket_send_int_def split_def)
  show "rx (snd (socket_send_string s t)) = rx s" by (simp add: socket_send_string_def blob)
qed

lemma send_msg_rx [simp]: "rx (snd (send_msg s m)) = rx s"
  by (cases m) simp_all

lemma recv_rx:
  "socket_recv_int s = (n, v, s') \<Longrightarrow> length (rx s') \<le> length (rx s)"
  "socket_recv_int s = (n, v, s') \<Longrightarrow> n > 0 \<Longrightarrow> length (rx s') + 11 \<le> length (rx s)"
  "socket_recv s = (n, b, s') \<Longrightarrow> length (rx s') \<le> length (rx s)"
  by (auto simp: socket_recv_int_def sys_recv_def socket_recv_whole recv_whole_def Let_def split: if_splits)

lemma moves_on_sock: "length (rx s) \<le> length (rx (serverKernel c)) \<Longrightarrow> moves_on c (c\<lparr>serverKernel := s\<rparr>)"
  by (simp add: moves_on_def same_process_def answers_left_def ten_args_def)

lemma moves_on_mem [simp]: "moves_on c (c\<lparr>serverMemory := s\<rparr>)"
  by (simp add: moves_on_def same_process_def answers_left_def ten_args_def)

lemma moves_on_say [simp]: "moves_on c (say m c)"
  unfolding say_def by (rule moves_on_sock) simp

lemma moves_on_say_all [simp]: "moves_on c (say_all ms c)"
  by (induction ms arbitrary: c) (auto intro: moves_on_trans moves_on_say)

lemma moves_on_hear_int: "hear_int c = (r, c') \<Longrightarrow> moves_on c c'"
  by (auto simp: hear_int_def split: prod.splits intro!: moves_on_sock dest: recv_rx)

lemma moves_on_hear_string: "hear_string c = (r, c') \<Longrightarrow> moves_on c c'"
  by (auto simp: hear_string_def socket_recv_string_def split: prod.splits intro!: moves_on_sock dest: recv_rx)

lemma moves_on_heard: "hear_int (say_all ms c) = (r, c') \<Longrightarrow> moves_on c c'"
  "hear_string (say_all ms c) = (t, c') \<Longrightarrow> moves_on c c'"
  by (blast intro: moves_on_trans moves_on_say_all moves_on_hear_int moves_on_hear_string)+

lemma moves_on_snd_heard [simp]: "moves_on c (snd (hear_int (say_all ms c)))" "moves_on c (snd (hear_string (say_all ms c)))"
  using moves_on_heard by (metis prod.collapse)+

lemma moves_on_snd_hear: "hear_string (say_all ms c) = (t, c1) \<Longrightarrow> moves_on c (snd (hear_int c1))"
  using moves_on_heard(2) moves_on_hear_int moves_on_trans by (metis prod.collapse)

lemma moves_on_exit: "v \<in> {ERROR_MEMORY, 0} \<Longrightarrow> moves_on c (set_exit v c)"
  by (auto simp: moves_on_def same_process_def answers_left_def ten_args_def set_exit_def upd_pcb_def)

lemma moves_on_pcb:
  assumes "pid (f (cpcb c)) = pid (cpcb c)" "indiceDeCodigo (f (cpcb c)) = indiceDeCodigo (cpcb c)"
    "indiceDeCodigoCant (f (cpcb c)) = indiceDeCodigoCant (cpcb c)" "indiceDeEtiquetas (f (cpcb c)) = indiceDeEtiquetas (cpcb c)"
    "indiceDeEtiquetasCant (f (cpcb c)) = indiceDeEtiquetasCant (cpcb c)" "cantPagsCodigo (f (cpcb c)) = cantPagsCodigo (cpcb c)"
    "maxStackPosition (f (cpcb c)) = maxStackPosition (cpcb c)" "exitCode (f (cpcb c)) = exitCode (cpcb c)"
    "ten_args c \<Longrightarrow> \<forall>x \<in> set (indiceDeStack (f (cpcb c))). length (args x) = 10"
  shows "moves_on c (upd_pcb f c)"
  using assms by (simp add: moves_on_def same_process_def answers_left_def ten_args_def upd_pcb_def)

lemma moves_on_set_current: "(ten_args c \<Longrightarrow> length (args x) = 10) \<Longrightarrow> moves_on c (set_current x c)"
  unfolding set_current_def by (rule moves_on_pcb) (auto simp: ten_args_def dest: in_set_butlastD)

lemma moves_on_push: "(ten_args c \<Longrightarrow> length (args x) = 10) \<Longrightarrow> moves_on c (push_context x c)"
  unfolding push_context_def by (rule moves_on_pcb) (auto simp: ten_args_def)

lemma moves_on_irAlLabel: "moves_on c (AnSISOP_irAlLabel l c)"
  unfolding AnSISOP_irAlLabel_def by (rule moves_on_pcb) (auto simp: ten_args_def)

lemma current_args: "stack_context_current c = Inr x \<Longrightarrow> ten_args c \<Longrightarrow> length (args x) = 10"
  by (auto simp: stack_context_current_def ten_args_def split: if_splits)

lemma moves_on_definir: "AnSISOP_definirVariable x c = Inr (v, c') \<Longrightarrow> moves_on c c'"
proof -
  assume d: "AnSISOP_definirVariable x c = Inr (v, c')"
  let ?c1 = "if stackPosition (cpcb c) \<ge> maxStackPosition (cpcb c) then set_exit ERROR_MEMORY c else c"
  obtain c2 where c2: "(if is_argument x then stack_add_arg x ?c1 else stack_add_var x ?c1) = Inr c2"
    "c' = raise_top c2"
    using d by (auto simp: AnSISOP_definirVariable_def Let_def raise_top_def elim!: and_thenE)
  have "moves_on c ?c1" by (simp add: moves_on_exit)
  moreover have "moves_on ?c1 c2"
    using c2(1) by (auto simp: stack_add_arg_def stack_add_var_def split: if_splits elim!: and_thenE
        intro!: moves_on_set_current) (metis current_args)+
  moreover have "moves_on c2 c'"
    unfolding c2(2) raise_top_def by (rule moves_on_pcb) (auto simp: ten_args_def)
  ultimately show ?thesis by (blast intro: moves_on_trans)
qed

lemma moves_on_obtener: "AnSISOP_obtenerPosicionVariable x c = Inr (v, c') \<Longrightarrow> moves_on c c'"
  by (auto simp: AnSISOP_obtenerPosicionVariable_def stack_get_arg_def split: if_splits elim!: and_thenE
      intro!: moves_on_set_current) (metis current_args)

lemma moves_on_dereferenciar: "AnSISOP_dereferenciar a c = (v, c') \<Longrightarrow> moves_on c c'"
  by (auto simp: AnSISOP_dereferenciar_def Let_def split: prod.splits option.splits
      intro: moves_on_trans [OF moves_on_mem] moves_on_exit)

lemma moves_on_asignar: "moves_on c (AnSISOP_asignar a v c)"
  by (auto simp: AnSISOP_asignar_def Let_def split: prod.splits intro: moves_on_trans [OF moves_on_mem] moves_on_exit)

lemma moves_on_retornar: "AnSISOP_retornar v c = Inr c' \<Longrightarrow> moves_on c c'"
  by (auto simp: AnSISOP_retornar_def split: option.splits elim!: and_thenE intro: moves_on_asignar)

lemma butlast_all: "\<forall>x \<in> set xs. P x \<Longrightarrow> x \<in> set (butlast xs) \<Longrightarrow> P x"
  by (blast dest: in_set_butlastD)

lemma moves_on_finalizar: "AnSISOP_finalizar c = Inr c' \<Longrightarrow> moves_on c c'"
proof -
  assume "AnSISOP_finalizar c = Inr c'"
  then obtain x c1 where x: "stack_context_current c = Inr x"
    "stack_pop (upd_pcb (\<lambda>b. b\<lparr>pc := size_t (retPos x)\<rparr>) c) = Inr c1"
    "c' = (if indiceDeStack (cpcb c1) = [] then set_exit 0 c1 else c1)"
    by (auto simp: AnSISOP_finalizar_def elim!: and_thenE)
  let ?c = "upd_pcb (\<lambda>b. b\<lparr>pc := size_t (retPos x)\<rparr>) c"
  have "moves_on c ?c" by (rule moves_on_pcb) (auto simp: ten_args_def)
  moreover have "moves_on ?c c1"
    using x(2) butlast_all by (auto simp: stack_pop_def Let_def ten_args_def simp del: upd_pcb_simps(6)
        elim!: and_thenE intro!: moves_on_pcb)
  moreover have "moves_on c1 c'" unfolding x(3) by (simp add: moves_on_exit)
  ultimately show ?thesis by (blast intro: moves_on_trans)
qed

lemma value_primitive_moves: "value_primitive p \<Longrightarrow> p c = Inr (v, c') \<Longrightarrow> moves_on c c'"
  by (induction rule: value_primitive.induct)
    (auto simp: AnSISOP_obtenerValorCompartida_def AnSISOP_asignarValorCompartida_def AnSISOP_alocar_def AnSISOP_abrir_def
      simp del: say_all.simps split: prod.splits option.splits if_splits
      intro: moves_on_definir moves_on_obtener moves_on_dereferenciar moves_on_heard moves_on_trans moves_on_hear_int)

lemma plain_primitive_moves: "plain_primitive p \<Longrightarrow> p c = Inr c' \<Longrightarrow> moves_on c c'"
proof (induction rule: plain_primitive.induct)
  case (3 l)
  then show ?case
    by (auto simp: AnSISOP_llamarSinRetorno_def stack_context_create_def ten_args_def
        intro!: moves_on_trans [OF moves_on_push moves_on_irAlLabel])
next
  case (4 l a)
  then show ?case
    by (auto simp: AnSISOP_llamarConRetorno_def stack_context_create_def ten_args_def
        intro!: moves_on_trans [OF moves_on_push moves_on_irAlLabel])
qed (auto simp: AnSISOP_wait_def AnSISOP_signal_def AnSISOP_liberar_def AnSISOP_borrar_def AnSISOP_cerrar_def
      AnSISOP_moverCursor_def AnSISOP_escribir_def AnSISOP_leer_def
      simp del: say_all.simps split: prod.splits option.splits if_splits
      intro: moves_on_asignar moves_on_irAlLabel moves_on_retornar moves_on_finalizar moves_on_heard
        moves_on_trans moves_on_hear_int moves_on_say_all moves_on_snd_hear)

lemma ansisop_code_moves: "ansisop_code f \<Longrightarrow> f c = Inr c' \<Longrightarrow> moves_on c c'"
proof (induction arbitrary: c c' rule: ansisop_code.induct)
  case (code_value p k)
  then obtain v c1 where "p c = Inr (v, c1)" "k v c1 = Inr c'" by (auto elim!: and_thenE)
  then show ?case using value_primitive_moves [OF code_value.hyps(1)] code_value.IH moves_on_trans by blast
next
  case (code_plain p k)
  then obtain c1 where "p c = Inr c1" "k c1 = Inr c'" by (auto elim!: and_thenE)
  then show ?case using plain_primitive_moves [OF code_plain.hyps(1)] code_plain.IH moves_on_trans by blast
qed simp

subsection \<open>The loop ends\<close>

lemma ask_kernel_consumes:
  assumes "ask_kernel q c = Inr (v, c')"
  shows "answers_left c' + 11 \<le> answers_left c" "cpcb c' = cpcb c"
proof -
  obtain n s where s: "socket_send_string (serverKernel c) q = (n, s)" by (cases "socket_send_string (serverKernel c) q")
  have rx: "rx s = rx (serverKernel c)" using send_rx(3) [of "serverKernel c" q] s by simp
  obtain m w s' where r: "socket_recv_int s = (m, w, s')" by (cases "socket_recv_int s")
  have "m > 0" "c' = c\<lparr>serverKernel := s'\<rparr>"
    using assms s r by (auto simp: ask_kernel_def hear_int_def split: if_splits)
  then show "answers_left c' + 11 \<le> answers_left c" "cpcb c' = cpcb c"
    using recv_rx(2) [OF r] rx by (simp_all add: answers_left_def)
qed

lemma fetch_keeps_answers: "cycle_fetch i c = Inr (line, c') \<Longrightarrow> answers_left c' = answers_left c"
  by (auto simp: cycle_fetch_def Let_def answers_left_def split: prod.splits option.splits elim!: and_thenE)

lemma turn_consumes:
  assumes "\<And>line. ansisop_code (analizador line)" "cycle_turn analizador c = Inr (k, c')"
  shows "answers_left c' + 22 \<le> answers_left c"
proof -
  obtain i line c1 c2 code c3 where t: "cycle_fetch i c = Inr (line, c1)" "analizador line (next_pc c1) = Inr c2"
    "cycle_interruption_handler c2 = Inr (code, c3)"
    "cycle_still_burst (if code < 0 then set_exit code c3 else c3) = Inr (k, c')"
    using assms(2) by (auto simp: cycle_turn_def elim!: and_thenE)
  have "answers_left (next_pc c1) = answers_left c"
    using fetch_keeps_answers [OF t(1)] by (simp add: answers_left_def next_pc_def)
  moreover have "answers_left c2 \<le> answers_left (next_pc c1)"
    using ansisop_code_moves [OF assms(1) t(2)] by (simp add: moves_on_def)
  moreover have "answers_left c3 + 11 \<le> answers_left c2"
    using ask_kernel_consumes(1) t(3) by (simp add: cycle_interruption_handler_def)
  moreover have "answers_left c' + 11 \<le> answers_left (if code < 0 then set_exit code c3 else c3)"
    using ask_kernel_consumes(1) t(4) unfolding cycle_still_burst_def by blast
  moreover have "answers_left (if code < 0 then set_exit code c3 else c3) = answers_left c3" by (simp add: answers_left_def)
  ultimately show ?thesis by linarith
qed

lemma cycle_loop_returns:
  assumes "\<And>line. ansisop_code (analizador line)"
  shows "\<exists>r. cycle_loop analizador k c = Some r"
proof (induction "answers_left c" arbitrary: k c rule: less_induct)
  case less
  show ?case
  proof (cases "k \<noteq> 0 \<and> exitCode (cpcb c) = 1")
    case True
    show ?thesis
    proof (cases "cycle_turn analizador c")
      case (Inl e)
      then show ?thesis using True by (subst cycle_loop.simps) simp
    next
      case (Inr r)
      obtain k' c' where r: "r = (k', c')" by (cases r)
      have "answers_left c' < answers_left c" using turn_consumes [OF assms] Inr r by fastforce
      then show ?thesis using less.hyps [of c' k'] True Inr r by (subst cycle_loop.simps) simp
    qed
  next
    case False
    then show ?thesis by (subst cycle_loop.simps) auto
  qed
qed

lemma run_process_returns:
  assumes "\<And>line. ansisop_code (analizador line)"
  shows "\<exists>r. run_process analizador c = Some r"
proof -
  have "\<exists>r. cycle_loop analizador 1 d = Some r" for d by (rule cycle_loop_returns [OF assms])
  then show ?thesis
    by (auto simp: run_process_def split: sum.splits option.splits prod.splits) (metis option.distinct(1))
qed

subsection \<open>An interruption ends the burst\<close>

lemma ask_kernel_ok:
  assumes "12 + length q \<le> room (serverKernel c)" "header_fits v" "rx (serverKernel c) = int_header j v @ more_bytes"
  shows "ask_kernel q c = Inr (v, c\<lparr>serverKernel := said ((serverKernel c)\<lparr>rx := more_bytes\<rparr>) (blob_frame (sjunk (serverKernel c)) (q @ [0]))\<rparr>)"
proof -
  have "socket_send_string (serverKernel c) q = (int (length q + 1), said (serverKernel c) (blob_frame (sjunk (serverKernel c)) (q @ [0])))"
    using assms(1) by (simp add: socket_send_string_ok said_def)
  moreover have "socket_recv_int (said (serverKernel c) (blob_frame (sjunk (serverKernel c)) (q @ [0])))
      = (4, v, said ((serverKernel c)\<lparr>rx := more_bytes\<rparr>) (blob_frame (sjunk (serverKernel c)) (q @ [0])))"
    using socket_recv_int_ok [OF assms(2), of "said (serverKernel c) (blob_frame (sjunk (serverKernel c)) (q @ [0]))" j more_bytes] assms(3)
    by simp
  ultimately show ?thesis by (simp add: ask_kernel_def hear_int_def)
qed

text \<open>\<open>continuoEjecucion\<close> is overwritten by the answer to the second question; the exit code ends the loop.\<close>

lemma interrupted_turn:
  assumes "exitCode (cpcb c) = 1" "current_instruction c = Inr i" "cycle_fetch i c = Inr (line, c1)"
    "analizador line (next_pc c1) = Inr c2" "47 \<le> room (serverKernel c2)"
    "rx (serverKernel c2) = int_header j code @ int_header j' b @ more_bytes"
    "code < 0" "header_fits code" "header_fits b"
  obtains c' where "cycle_loop analizador 1 c = Some (Inr c')" "cpcb c' = (cpcb c2)\<lparr>exitCode := code\<rparr>"
    "rx (serverKernel c') = more_bytes"
proof -
  have len: "length (str ''interruption'') = 12" "length (str ''still_burst'') = 11" by (simp_all add: str_def)
  let ?s = "said ((serverKernel c2)\<lparr>rx := int_header j' b @ more_bytes\<rparr>) (blob_frame (sjunk (serverKernel c2)) (str ''interruption'' @ [0]))"
  have "cycle_interruption_handler c2 = Inr (code, c2\<lparr>serverKernel := ?s\<rparr>)"
    unfolding cycle_interruption_handler_def using assms(5,6,8) len by (intro ask_kernel_ok) simp_all
  moreover obtain c' where "cycle_still_burst (set_exit code (c2\<lparr>serverKernel := ?s\<rparr>)) = Inr (b, c')"
    "cpcb c' = (cpcb c2)\<lparr>exitCode := code\<rparr>" "rx (serverKernel c') = more_bytes"
    unfolding cycle_still_burst_def
    using assms(5,9) len ask_kernel_ok [of "str ''still_burst''" "set_exit code (c2\<lparr>serverKernel := ?s\<rparr>)" b j' more_bytes]
    by simp
  ultimately have "cycle_turn analizador c = Inr (b, c')" "cpcb c' = (cpcb c2)\<lparr>exitCode := code\<rparr>" "rx (serverKernel c') = more_bytes"
    using assms(2-4,7) by (simp_all add: cycle_turn_def)
  moreover from this have "cycle_loop analizador b c' = Some (Inr c')"
    using assms(7) by (subst cycle_loop.simps) simp
  ultimately show thesis using that assms(1) by (simp add: cycle_loop.simps [of analizador 1])
qed

end
