(* ===== verification/CPU_Kernel.thy ===== *)
theory CPU_Kernel
  imports CPU_Loop Kernel_Laws
begin

text \<open>
  A CPU and the Kernel together, on the bytes between them: the process that goes out for a burst and
  comes back, shared variables, and the questions at the end of an instruction.
\<close>

subsection \<open>What a CPU sends and hears\<close>

definition cpu_says :: "byte list \<Rightarrow> byte list \<Rightarrow> cpu \<Rightarrow> cpu" where
  "cpu_says left out c = c\<lparr>serverKernel := said ((serverKernel c)\<lparr>rx := left\<rparr>) out\<rparr>"

lemma cpu_says_simps [simp]:
  "cpcb (cpu_says r x c) = cpcb c" "cenv (cpu_says r x c) = cenv c" "page_size (cpu_says r x c) = page_size c"
  "rx (serverKernel (cpu_says r x c)) = r" "tx (serverKernel (cpu_says r x c)) = tx (serverKernel c) @ x"
  "room (serverKernel (cpu_says r x c)) = room (serverKernel c) - length x"
  "sjunk (serverKernel (cpu_says r x c)) = sjunk (serverKernel c)"
  "cpu_says s y (cpu_says r x c) = cpu_says s (x @ y) c" "serverMemory (cpu_says r x c) = serverMemory c"
  by (simp_all add: cpu_says_def)

lemma say_str: "12 + length t \<le> room (serverKernel c) \<Longrightarrow>
    say (MStr t) c = cpu_says (rx (serverKernel c)) (blob_frame (sjunk (serverKernel c)) (t @ [0])) c"
  by (simp add: say_def cpu_says_def socket_send_string_ok said_def)

lemma say_int: "11 \<le> room (serverKernel c) \<Longrightarrow>
    say (MInt v) c = cpu_says (rx (serverKernel c)) (int_header (sjunk (serverKernel c)) v) c"
  by (simp add: say_def cpu_says_def socket_send_int_ok said_def)

lemma say_blob: "11 + length bs \<le> room (serverKernel c) \<Longrightarrow>
    say (MBlob bs) c = cpu_says (rx (serverKernel c)) (blob_frame (sjunk (serverKernel c)) bs) c"
  by (simp add: say_def cpu_says_def socket_send_ok said_def)

lemma hear_int_ok:
  "rx (serverKernel c) = int_header j v @ left \<Longrightarrow> header_fits v \<Longrightarrow> hear_int c = (Some v, cpu_says left [] c)"
  by (simp add: hear_int_def cpu_says_def socket_recv_int_ok said_def)

lemma hear_string_ok:
  assumes "rx (serverKernel c) = blob_frame j (t @ [0]) @ left" "0 \<notin> set t" "length t + 1 < 2 ^ 31"
  shows "hear_string c = (Some t, cpu_says left [] c)"
  using socket_recv_string_ok [OF assms(3,1)] assms(2) by (simp add: hear_string_def cpu_says_def said_def)

subsection \<open>Shared variables\<close>

text \<open>The name of a shared variable on the wire.\<close>

definition wire_name :: "cstring \<Rightarrow> cstring" where
  "wire_name x = str ''!'' @ x"

lemma wire_name_ok: "0 \<notin> set x \<Longrightarrow> 0 \<notin> set (wire_name x)" "length (wire_name x) = length x + 1"
  by (simp_all add: wire_name_def str_def)

lemma cpu_sets:
  assumes "53 + length x \<le> room (serverKernel c)"
    "rx (serverKernel c) = blob_frame j (str ''Success'' @ [0]) @ left"
  shows "AnSISOP_asignarValorCompartida x v c = (v, cpu_says left
    (blob_frame (sjunk (serverKernel c)) (str ''setSharedVariable'' @ [0])
     @ blob_frame (sjunk (serverKernel c)) (wire_name x @ [0]) @ int_header (sjunk (serverKernel c)) v) c)"
proof -
  have len: "length (str ''setSharedVariable'') = 17" "length (str ''!'') = 1" "length (str ''Success'') = 7"
    "0 \<notin> set (str ''Success'')" by (simp_all add: str_def)
  show ?thesis
    using assms by (simp add: AnSISOP_asignarValorCompartida_def wire_name_def say_str say_int len hear_string_ok [where j = j])
qed

lemma cpu_gets:
  assumes "42 + length x \<le> room (serverKernel c)" "header_fits v"
    "rx (serverKernel c) = blob_frame j (str ''Success'' @ [0]) @ int_header j v @ left"
  shows "AnSISOP_obtenerValorCompartida x c = (v, cpu_says left
    (blob_frame (sjunk (serverKernel c)) (str ''getSharedVariable'' @ [0])
     @ blob_frame (sjunk (serverKernel c)) (wire_name x @ [0])) c)"
proof -
  have len: "length (str ''getSharedVariable'') = 17" "length (str ''!'') = 1" "length (str ''Success'') = 7"
    "0 \<notin> set (str ''Success'')" by (simp_all add: str_def)
  show ?thesis
    using assms by (simp add: AnSISOP_obtenerValorCompartida_def wire_name_def say_str len hear_string_ok [where j = j]
      hear_int_ok [where j = j])
qed

text \<open>The Kernel's side, from the loop that found the name of the request.\<close>

lemma kernel_sets:
  assumes "cpu_find sk k = Some c" "current c k = Inr p"
    and rx: "rx (socks k sk) = blob_frame j (name @ [0]) @ int_header j v @ left" "0 \<notin> set name" "length name + 1 < 2 ^ 31"
    and v: "header_fits v" "19 \<le> room (socks k sk)"
    and sv: "list_find (named_var name) (shared_vars (config k)) = Some sv" "\<not> sv_locked sv"
  shows "serve_cpu sk (str ''setSharedVariable'') k = Inr (exchange sk left (success c k)
    (upd_var name (\<lambda>v'. v'\<lparr>sv_value := v\<rparr>) (upd p count_syscall k)))"
proof -
  have sk: "cpu_sock c k = sk" using cpu_find_Some [OF assms(1)] by (simp add: cpu_sock_def)
  let ?k = "upd p count_syscall k"
  have r1: "sock_recv_string sk ?k = (Some name, exchange sk (int_header j v @ left) [] ?k)"
    by (rule sock_recv_string_ok) (use rx in simp_all)
  have r2: "sock_recv_int sk (exchange sk (int_header j v @ left) [] ?k) = (Some v, exchange sk left [] ?k)"
    using sock_recv_int_ok [of "exchange sk (int_header j v @ left) [] ?k" sk j v left] v(1) by simp
  have "reply_string c ''Success'' (exchange sk left [] (upd_var name (\<lambda>v'. v'\<lparr>sv_value := v\<rparr>) ?k))
      = (True, exchange sk left (success c k) (upd_var name (\<lambda>v'. v'\<lparr>sv_value := v\<rparr>) ?k))"
    using reply_string_ok [of "''Success''" "exchange sk left [] (upd_var name (\<lambda>v'. v'\<lparr>sv_value := v\<rparr>) ?k)" c] v(2)
    by (simp add: success_def sk)
  then have "handle_cpu_set_shared_variable c k = Inr (exchange sk left (success c k)
    (upd_var name (\<lambda>v'. v'\<lparr>sv_value := v\<rparr>) ?k))"
    using sv by (simp add: handle_cpu_set_shared_variable_def enter_run [OF assms(2)] sk r1 r2 finish_reply_def)
  then show ?thesis using assms(1) by (simp add: serve_cpu_def cpu_handlers_def for_cpu_def)
qed

lemma kernel_gets:
  assumes "cpu_find sk k = Some c" "current c k = Inr p"
    and rx: "rx (socks k sk) = blob_frame j (name @ [0]) @ left" "0 \<notin> set name" "length name + 1 < 2 ^ 31"
    and v: "30 \<le> room (socks k sk)"
    and sv: "list_find (named_var name) (shared_vars (config k)) = Some sv" "\<not> sv_locked sv"
  shows "serve_cpu sk (str ''getSharedVariable'') k = Inr (exchange sk left
    (success c k @ int_header (sjunk (socks k sk)) (sv_value sv)) (upd p count_syscall k))"
proof -
  have sk: "cpu_sock c k = sk" using cpu_find_Some [OF assms(1)] by (simp add: cpu_sock_def)
  let ?k = "upd p count_syscall k"
  have len: "length (success c k) = 19" by (simp add: success_def str_def)
  have r1: "sock_recv_string sk ?k = (Some name, exchange sk left [] ?k)"
    by (rule sock_recv_string_ok) (use rx in simp_all)
  have a1: "reply_string c ''Success'' (exchange sk left [] ?k) = (True, exchange sk left (success c k) ?k)"
    using reply_string_ok [of "''Success''" "exchange sk left [] ?k" c] v by (simp add: success_def sk)
  have "reply_int c (sv_value sv) (exchange sk left (success c k) ?k)
      = (True, exchange sk left (success c k @ int_header (sjunk (socks k sk)) (sv_value sv)) ?k)"
    using reply_int_ok [of "exchange sk left (success c k) ?k" c "sv_value sv"] v len by (simp add: sk)
  then have "handle_cpu_get_shared_variable c k = Inr (exchange sk left
    (success c k @ int_header (sjunk (socks k sk)) (sv_value sv)) ?k)"
    using sv by (simp add: handle_cpu_get_shared_variable_def enter_run [OF assms(2)] sk r1 a1)
  then show ?thesis using assms(1) by (simp add: serve_cpu_def cpu_handlers_def for_cpu_def)
qed

text \<open>
  Two CPUs: one sets a shared variable, the other reads it afterwards. Both requests are in the
  connections when the Kernel gets to them.
\<close>

lemma set_is_read:
  assumes "cpu_find sk k = Some c" "current c k = Inr p" "cpu_find sk' k = Some c'" "current c' k = Inr p'" "sk \<noteq> sk'"
    and rx: "rx (socks k sk) = blob_frame j (wire_name x @ [0]) @ int_header j v @ left"
      "rx (socks k sk') = blob_frame j' (wire_name x @ [0]) @ left'"
    and x: "0 \<notin> set x" "length x + 2 < 2 ^ 31" "header_fits v" "19 \<le> room (socks k sk)" "30 \<le> room (socks k sk')"
    and sv: "list_find (named_var (wire_name x)) (shared_vars (config k)) = Some sv" "\<not> sv_locked sv"
  obtains k1 k2 where "serve_cpu sk (str ''setSharedVariable'') k = Inr k1"
    "serve_cpu sk' (str ''getSharedVariable'') k1 = Inr k2"
    "tx (socks k2 sk') = tx (socks k sk') @ blob_frame (sjunk (socks k sk')) (str ''Success'' @ [0]) @ int_header (sjunk (socks k sk')) v"
proof -
  let ?set = "\<lambda>v'. v'\<lparr>sv_value := v\<rparr>"
  define k1 where "k1 = exchange sk left (success c k) (upd_var (wire_name x) ?set (upd p count_syscall k))"
  have name: "0 \<notin> set (wire_name x)" "length (wire_name x) + 1 < 2 ^ 31" using x by (simp_all add: wire_name_ok)
  have one: "serve_cpu sk (str ''setSharedVariable'') k = Inr k1"
    unfolding k1_def by (rule kernel_sets [OF assms(1,2) rx(1) name x(3,4) sv])
  have found: "list_find (named_var n) (upd_first (named_var n) ?set vs) = map_option ?set (list_find (named_var n) vs)" for n vs
    by (induction vs) (auto simp: named_var_def)
  have cpus: "cpus k1 = cpus k" "socks k1 sk' = socks k sk'" by (simp_all add: k1_def exchange_def assms(5) [symmetric])
  have "cpu_find sk' k1 = Some c'" "current c' k1 = Inr p'"
    using assms(3,4) by (simp_all add: cpu_find_def current_def cpus)
  moreover have "list_find (named_var (wire_name x)) (shared_vars (config k1)) = Some (sv\<lparr>sv_value := v\<rparr>)"
    using sv(1) by (simp add: k1_def upd_var_def found)
  ultimately have two: "serve_cpu sk' (str ''getSharedVariable'') k1 = Inr (exchange sk' left'
    (success c' k1 @ int_header (sjunk (socks k1 sk')) v) (upd p' count_syscall k1))"
    using kernel_gets [of sk' k1 c' p' j' "wire_name x" left' "sv\<lparr>sv_value := v\<rparr>"] rx(2) name x(5) sv(2) by (simp add: cpus)
  have "cpu_sock c' k1 = sk'" using cpu_find_Some [OF \<open>cpu_find sk' k1 = Some c'\<close>] by (simp add: cpu_sock_def)
  then show thesis
    by (intro that [OF one two]) (simp add: exchange_def cpus success_def)
qed

subsection \<open>The process on its way\<close>

lemma recv_pcb_ok:
  assumes "rx (serverKernel c) = blob_frame j (str ''PCB'' @ [0]) @ blob_frame j' bs @ left" "length bs < 2 ^ 31"
    "pcb_deserialize (new_args (cenv c)) bs = Inr b"
  shows "recv_pcb c = Inr (Some b, cpu_says left [] c)"
proof -
  have pcb: "0 \<notin> set (str ''PCB'')" "length (str ''PCB'') + 1 < 2 ^ 31" by (simp_all add: str_def)
  show ?thesis
    using socket_recv_string_ok [OF pcb(2) assms(1)] socket_recv_ok [OF assms(2)] assms(3) pcb(1)
    by (simp add: recv_pcb_def cpu_says_def said_def string_equals_ignore_case_def)
qed

text \<open>From the Kernel to the CPU at the start of a burst.\<close>

lemma pcb_goes_out:
  assumes "current c k = Inr p" "pcb_ok (pcb (programs k p))" "length (new_args (cenv d)) = 10"
    "pcb_serialize (pcb (programs k p)) = Inr bs" "length bs < 2 ^ 31" "26 + length bs \<le> room (socks k (cpu_sock c k))"
  obtains out k' where "cpu_send_pcb c k = Inr k'" "tx (socks k' (cpu_sock c k)) = tx (socks k (cpu_sock c k)) @ out"
    "\<And>more_bytes. rx (serverKernel d) = out @ more_bytes \<Longrightarrow>
       recv_pcb d = Inr (Some (pcb_arrived (new_args (cenv d)) (pcb (programs k p))), cpu_says more_bytes [] d)"
proof -
  let ?sk = "cpu_sock c k" and ?j = "sjunk (socks k (cpu_sock c k))"
  let ?k1 = "k\<lparr>socks := (socks k)(?sk := said (socks k ?sk) (blob_frame ?j (str ''PCB'' @ [0])))\<rparr>"
  let ?out = "blob_frame ?j (str ''PCB'' @ [0]) @ blob_frame ?j bs"
  have len: "length (str ''PCB'') = 3" by (simp add: str_def)
  have s1: "snd (sock_send_string ?sk (str ''PCB'') k) = ?k1"
    using socket_send_string_ok [of "str ''PCB''" "socks k ?sk"] assms(6) len by (simp add: sock_send_string_def said_def)
  have "snd (sock_send ?sk bs ?k1) = k\<lparr>socks := (socks k)(?sk := said (socks k ?sk) ?out)\<rparr>"
    using socket_send_ok [of bs "socks ?k1 ?sk"] assms(6) len by (simp add: sock_send_def said_def)
  moreover have "current c ?k1 = Inr p" using assms(1) by (simp add: current_def)
  ultimately have sent: "cpu_send_pcb c k = Inr (k\<lparr>socks := (socks k)(?sk := said (socks k ?sk) ?out)\<rparr>)"
    using s1 assms(4) by (simp add: cpu_send_pcb_def cpu_sock_def Let_def)
  obtain bs' where "pcb_serialize (pcb (programs k p)) = Inr bs'"
    "pcb_deserialize (new_args (cenv d)) bs' = Inr (pcb_arrived (new_args (cenv d)) (pcb (programs k p)))"
    by (rule pcb_round [OF assms(2,3)])
  then have "pcb_deserialize (new_args (cenv d)) bs = Inr (pcb_arrived (new_args (cenv d)) (pcb (programs k p)))"
    using assms(4) by simp
  then show thesis by (intro that [OF sent, of ?out]) (simp_all add: recv_pcb_ok [OF _ assms(5)])
qed

text \<open>And back at its end, with the flag that says whether it has ended for good.\<close>

definition ended :: "cpu \<Rightarrow> int" where
  "ended d = (if exitCode (cpcb d) \<noteq> 1 then 1 else 0)"

lemma pcb_comes_back:
  assumes "pcb_serialize (cpcb d) = Inr bs" "58 + length bs \<le> room (serverKernel d)"
  defines "j \<equiv> sjunk (serverKernel d)"
  shows "cycle_send_pcv d = Inr (cpu_says (rx (serverKernel d)) (blob_frame j (str ''end_burst'' @ [0])
    @ blob_frame j (str ''PCB'' @ [0]) @ blob_frame j bs @ int_header j (ended d)) d)"
proof -
  have len: "length (str ''PCB'') = 3" "length (str ''end_burst'') = 9" by (simp_all add: str_def)
  let ?d = "cpu_says (rx (serverKernel d)) (blob_frame j (str ''end_burst'' @ [0])) d"
  have e: "socket_send_string (serverKernel d) (str ''end_burst'') = (10, serverKernel ?d)" "d\<lparr>serverKernel := serverKernel ?d\<rparr> = ?d"
    using assms(2) len by (simp_all add: socket_send_string_ok cpu_says_def said_def j_def)
  have "send_pcb (cpcb d) ?d = Inr (cpu_says (rx (serverKernel d))
      (blob_frame j (str ''end_burst'' @ [0]) @ blob_frame j (str ''PCB'' @ [0]) @ blob_frame j bs) d)"
    using assms(1,2) len by (simp add: send_pcb_def Let_def say_str say_blob j_def)
  then show ?thesis
    using assms(2) len e by (simp add: cycle_send_pcv_def say_int ended_def j_def)
qed

lemma end_burst_takes:
  assumes "current c k = Inr p" "length (fresh_args (env k)) = 10" "pcb_ok b" "pcb_serialize b = Inr bs" "length bs < 2 ^ 31"
    "rx (socks k (cpu_sock c k)) = blob_frame j (str ''PCB'' @ [0]) @ blob_frame j bs @ int_header j v @ left" "header_fits v"
    "c < length (cpus k)"
  shows "handle_end_burst c k = and_then (end_burst_queue v p (exchange (cpu_sock c k) left []
    (upd p (count_burst (pcb_arrived (fresh_args (env k)) b)) (set_cpu c (\<lambda>u. u\<lparr>cpu_program := None\<rparr>) k)))) (assign_cpu c)"
proof -
  let ?sk = "cpu_sock c k" and ?k = "set_cpu c (\<lambda>u. u\<lparr>cpu_program := None\<rparr>) k" and ?b = "pcb_arrived (fresh_args (env k)) b"
  have pcb: "0 \<notin> set (str ''PCB'')" "length (str ''PCB'') + 1 < 2 ^ 31" by (simp_all add: str_def)
  obtain bs' where "pcb_serialize b = Inr bs'" "pcb_deserialize (fresh_args (env k)) bs' = Inr ?b"
    by (rule pcb_round [OF assms(3,2)])
  then have des: "pcb_deserialize (fresh_args (env k)) bs = Inr ?b" using assms(4) by simp
  have sk: "cpu_socket (cpus ?k ! c) = ?sk" "socks ?k = socks k" "env ?k = env k"
    using assms(8) by (simp_all add: set_cpu_def cpu_sock_def)
  have r1: "sock_recv_string ?sk ?k = (Some (str ''PCB''), exchange ?sk (blob_frame j bs @ int_header j v @ left) [] ?k)"
    by (rule sock_recv_string_ok) (use pcb assms(6) sk in simp_all)
  have r2: "socket_recv (socks (exchange ?sk (blob_frame j bs @ int_header j v @ left) [] ?k) ?sk)
      = (int (length bs), Some bs, (socks (exchange ?sk (blob_frame j bs @ int_header j v @ left) [] ?k) ?sk)\<lparr>rx := int_header j v @ left\<rparr>)"
    by (rule socket_recv_ok [OF assms(5), where j = j]) simp
  have got: "cpu_recv_pcb c ?k = Inr (Some ?b, exchange ?sk (int_header j v @ left) [] ?k)"
    unfolding cpu_recv_pcb_def Let_def sk(1) r1
    using r2 des sk(3) by (simp add: string_equals_ignore_case_def exchange_def said_def)
  have "cpu_sock c (exchange ?sk (int_header j v @ left) [] ?k) = ?sk" using sk(1) by (simp add: cpu_sock_def)
  moreover have "sock_recv_int ?sk (upd p (count_burst ?b) (exchange ?sk (int_header j v @ left) [] ?k))
      = (Some v, exchange ?sk left [] (upd p (count_burst ?b) ?k))"
    using sock_recv_int_ok [of "upd p (count_burst ?b) (exchange ?sk (int_header j v @ left) [] ?k)" ?sk j v left] assms(7) by simp
  ultimately show ?thesis using assms(1) got by (simp add: handle_end_burst_def)
qed

text \<open>The whole end of a burst: the CPU's bytes behind the name of the request, served by the Kernel.\<close>

lemma burst_ends:
  assumes "current c k = Inr p" "length (fresh_args (env k)) = 10" "c < length (cpus k)" "pcb_ok (cpcb d)"
    "pcb_serialize (cpcb d) = Inr bs" "length bs < 2 ^ 31" "58 + length bs \<le> room (serverKernel d)"
  obtains d' out where "cycle_send_pcv d = Inr d'" "cpcb d' = cpcb d"
    "tx (serverKernel d') = tx (serverKernel d) @ blob_frame (sjunk (serverKernel d)) (str ''end_burst'' @ [0]) @ out"
    "\<And>left. rx (socks k (cpu_sock c k)) = out @ left \<Longrightarrow> handle_end_burst c k =
       and_then (end_burst_queue (ended d) p (exchange (cpu_sock c k) left []
         (upd p (count_burst (pcb_arrived (fresh_args (env k)) (cpcb d))) (set_cpu c (\<lambda>u. u\<lparr>cpu_program := None\<rparr>) k)))) (assign_cpu c)"
proof -
  let ?j = "sjunk (serverKernel d)"
  let ?out = "blob_frame ?j (str ''PCB'' @ [0]) @ blob_frame ?j bs @ int_header ?j (ended d)"
  have "header_fits (ended d)" by (simp add: ended_def header_fits_def)
  then show thesis
    using end_burst_takes [OF assms(1,2,4-6), where j = ?j and v = "ended d"] assms(3)
    by (intro that [OF pcb_comes_back [OF assms(5,7)], of ?out]) simp_all
qed

end
