(* ===== verification/CPU_Memory.thy ===== *)
theory CPU_Memory
  imports CPU_Laws
begin

text \<open>
  Assigning to a variable and reading it, through the stubs of the CPU and the Memory process: what
  \<open>AnSISOP_asignar\<close> stores \<open>AnSISOP_dereferenciar\<close> finds again, and an address outside the process ends it.
\<close>

definition assign_msgs :: "cpu \<Rightarrow> int \<Rightarrow> int \<Rightarrow> msg list" where
  "assign_msgs c p v =
     (let pos = puntero_to_position p c
      in [MStr (str ''write''), MInt (pid (cpcb c)), MInt (pos_page pos), MInt (pos_off pos), MBlob (i32 v)])"

definition deref_msgs :: "cpu \<Rightarrow> int \<Rightarrow> msg list" where
  "deref_msgs c p =
     (let pos = puntero_to_position p c in read_msgs (pid (cpcb c)) (pos_page pos) (pos_off pos) 4)"

text \<open>The CPU once the bytes \<open>r\<close> from Memory have arrived.\<close>

definition heard :: "cpu \<Rightarrow> byte list \<Rightarrow> cpu" where
  "heard c r = c\<lparr>serverMemory := (serverMemory c)\<lparr>rx := r\<rparr>\<rparr>"

definition runs_on :: "cpu \<Rightarrow> t_memory \<Rightarrow> mem \<Rightarrow> bool" where
  "runs_on c cfg m \<longleftrightarrow> mem_inv cfg m \<and> lru_ready cfg (mcache m) \<and> page_size c = int (frameSize cfg)
     \<and> 0 < page_size c \<and> pid (cpcb c) \<noteq> -1 \<and> sendable (pid (cpcb c))"

lemma heard_simps [simp]:
  "cpcb (heard c r) = cpcb c" "page_size (heard c r) = page_size c" "rx (serverMemory (heard c r)) = r"
  "sjunk (serverMemory (heard c r)) = sjunk (serverMemory c)" "room (serverMemory (heard c r)) = room (serverMemory c)"
  "puntero_to_position p (heard c r) = puntero_to_position p c"
  "assign_msgs (heard c r) p v = assign_msgs c p v" "deref_msgs (heard c r) p = deref_msgs c p"
  by (simp_all add: heard_def puntero_to_position_def assign_msgs_def deref_msgs_def Let_def)

lemma cpu_memory_write_ok:
  assumes "can_send s [MStr (str ''write''), MInt P, MInt page, MInt off, MBlob bs]" "bs \<noteq> []" "header_fits q"
    "rx s = int_header j q @ more_bytes"
  shows "cpu_memory_write P page off bs s
    = (q, exchanged s [MStr (str ''write''), MInt P, MInt page, MInt off, MBlob bs] more_bytes)"
proof -
  let ?ms = "[MStr (str ''write''), MInt P, MInt page, MInt off]"
  have fit: "length (request_bytes (sjunk s) ?ms) + (11 + length bs) \<le> room s"
    using assms(1) by (simp add: can_send_def)
  have a: "send_all s ?ms = (True, sent s (request_bytes (sjunk s) ?ms))" using fit by (intro send_all_ok) simp_all
  have b: "socket_send (sent s (request_bytes (sjunk s) ?ms)) bs
      = (int (length bs), sent s (request_bytes (sjunk s) (?ms @ [MBlob bs])))"
  proof -
    have "11 + length bs \<le> room (sent s (request_bytes (sjunk s) ?ms))" using fit by simp
    from socket_send_ok [OF this] show ?thesis by (simp add: sent_def)
  qed
  have "socket_recv_int (sent s (request_bytes (sjunk s) (?ms @ [MBlob bs])))
      = (4, q, exchanged s (?ms @ [MBlob bs]) more_bytes)"
    using socket_recv_int_ok [OF assms(3), of "sent s (request_bytes (sjunk s) (?ms @ [MBlob bs]))" j more_bytes] assms(4)
    by (simp add: exchanged_def)
  then show ?thesis unfolding cpu_memory_write_def a using b by simp
qed

lemma position_facts:
  assumes "runs_on c cfg m" "0 \<le> p" "p < 2 ^ 31"
  defines "pos \<equiv> puntero_to_position p c"
  shows "pos_page pos * int (frameSize cfg) + pos_off pos = p" "0 \<le> pos_off pos" "pos_off pos < int (frameSize cfg)"
    "sendable (pos_page pos)" "sendable (pos_off pos)"
proof -
  let ?F = "int (frameSize cfg)"
  have F: "0 < ?F" "page_size c = ?F" using assms(1) by (simp_all add: runs_on_def)
  have pos: "pos_page pos = p div ?F" "pos_off pos = p mod ?F"
    using assms(2,3) F by (simp_all add: pos_def puntero_to_position_def Let_def c_quot_nonneg c_rem_nonneg)
  show "pos_page pos * ?F + pos_off pos = p" by (simp add: pos)
  show "0 \<le> pos_off pos" "pos_off pos < ?F" using F by (simp_all add: pos)
  have "0 \<le> p div ?F" "p div ?F \<le> p" using assms(2) F by (simp_all add: pos_imp_zdiv_nonneg_iff zdiv_mono2 [of p 1 ?F, simplified])
  then show "sendable (pos_page pos)" using assms(3) by (simp add: pos sendable_def)
  have "p mod ?F \<le> p" using assms(2) F by (simp add: zmod_le_nonneg_dividend)
  then show "sendable (pos_off pos)" using assms(3) \<open>0 \<le> pos_off pos\<close> by (simp add: pos sendable_def)
qed

lemma length_i32_nonempty: "i32 v \<noteq> []"
  using length_i32 [of v] by (metis list.size(3) zero_neq_numeral)

lemma assign_served:
  assumes "runs_on c cfg m" "0 \<le> p" "p < 2 ^ 31" "can_send (serverMemory c) (assign_msgs c p v)"
  obtains q m1 where "served cfg h m (assign_msgs c p v) m1 (\<lambda>j. int_header j q)"
    "written_spec cfg m (pid (cpcb c)) p (i32 v) q m1"
    "\<And>j. cpcb (AnSISOP_asignar p v (heard c (int_header j q)))
        = (if bytes_at cfg m (pid (cpcb c)) p 4 = None then (cpcb c)\<lparr>exitCode := ERROR_MEMORY\<rparr> else cpcb c)"
    "\<And>j. page_size (AnSISOP_asignar p v (heard c (int_header j q))) = page_size c"
    "\<And>j. room (serverMemory (AnSISOP_asignar p v (heard c (int_header j q)))) = room (serverMemory c) - 65"
    "\<And>j. sjunk (serverMemory (AnSISOP_asignar p v (heard c (int_header j q)))) = sjunk (serverMemory c)"
proof -
  let ?pos = "puntero_to_position p c"
  note p = position_facts [OF assms(1-3)]
  have len: "length (i32 v) < 2 ^ 31" by simp
  have run: "mem_inv cfg m" "lru_ready cfg (mcache m)" "pid (cpcb c) \<noteq> -1" "sendable (pid (cpcb c))"
    using assms(1) by (simp_all add: runs_on_def)
  obtain q m1 where q: "served cfg h m (assign_msgs c p v) m1 (\<lambda>j. int_header j q)" "header_fits q"
    "written_spec cfg m (pid (cpcb c)) p (i32 v) q m1"
    using remote_write [OF run(1-3) p(2,3) length_i32_nonempty len run(4) p(4,5)]
    unfolding p(1) assign_msgs_def Let_def by blast
  have "AnSISOP_asignar p v (heard c (int_header j q))
      = (let s = exchanged (serverMemory (heard c (int_header j q))) (assign_msgs c p v) [] in
         if q = -1 then c\<lparr>serverMemory := s\<rparr> else if q = ERROR_MEMORY then set_exit ERROR_MEMORY (c\<lparr>serverMemory := s\<rparr>)
         else c\<lparr>serverMemory := s\<rparr>)" for j
  proof -
    have "cpu_memory_write (pid (cpcb c)) (pos_page ?pos) (pos_off ?pos) (i32 v) (serverMemory (heard c (int_header j q)))
        = (q, exchanged (serverMemory (heard c (int_header j q))) (assign_msgs c p v) [])"
      unfolding assign_msgs_def Let_def
      by (rule cpu_memory_write_ok [OF _ length_i32_nonempty q(2), where j = j])
        (use assms(4) in \<open>simp_all add: can_send_def assign_msgs_def Let_def\<close>)
    then show ?thesis by (simp add: AnSISOP_asignar_def Let_def) (simp add: heard_def)
  qed
  note run1 = this
  have "length (request_bytes (sjunk (serverMemory c)) (assign_msgs c p v)) = 65"
    by (simp add: assign_msgs_def Let_def str_def)
  with run1 have "page_size (AnSISOP_asignar p v (heard c (int_header j q))) = page_size c"
    "room (serverMemory (AnSISOP_asignar p v (heard c (int_header j q)))) = room (serverMemory c) - 65"
    "sjunk (serverMemory (AnSISOP_asignar p v (heard c (int_header j q)))) = sjunk (serverMemory c)" for j
    by (simp_all add: Let_def exchanged_def)
  moreover have "q = (if bytes_at cfg m (pid (cpcb c)) p 4 = None then ERROR_MEMORY else 4)"
    using q(3) by (auto simp: written_spec_def)
  with run1 have "cpcb (AnSISOP_asignar p v (heard c (int_header j q)))
        = (if bytes_at cfg m (pid (cpcb c)) p 4 = None then (cpcb c)\<lparr>exitCode := ERROR_MEMORY\<rparr> else cpcb c)" for j
    by (simp add: Let_def ERROR_MEMORY_def)
  ultimately show thesis using that [OF q(1,3)] by blast
qed

lemma those_Somes: "those (map Some xs) = Some xs"
  by (induction xs) simp_all

lemma written_bytes:
  assumes "written_spec cfg m P a bs q m1" "bytes_at cfg m P a (length bs) \<noteq> None"
  shows "bytes_at cfg m1 P a (length bs) = Some bs"
proof -
  have "write_effect cfg m m1 P a bs" using assms by (simp add: written_spec_def)
  then have "map (\<lambda>i. byte_at cfg m1 P (a + int i)) [0..<length bs] = map (\<lambda>i. Some (bs ! i)) [0..<length bs]"
    by (auto simp: write_effect_def)
  also have "\<dots> = map Some (map (\<lambda>i. bs ! i) [0..<length bs])" by simp
  finally show ?thesis unfolding bytes_at_def by (simp add: map_nth those_Somes)
qed

lemma deref_served:
  assumes "runs_on c cfg m" "0 \<le> p" "p < 2 ^ 31" "can_send (serverMemory c) (deref_msgs c p)"
  obtains m1 where "served cfg h m (deref_msgs c p) m1 (read_reply 4 (bytes_at cfg m (pid (cpcb c)) p 4))"
    "mem_inv cfg m1" "mram m1 = mram m"
    "\<And>j. (case AnSISOP_dereferenciar p (heard c (read_reply 4 (bytes_at cfg m (pid (cpcb c)) p 4) j)) of
        (w, c') \<Rightarrow> (w, cpcb c') = (case bytes_at cfg m (pid (cpcb c)) p 4 of
           None \<Rightarrow> (0, (cpcb c)\<lparr>exitCode := ERROR_MEMORY\<rparr>) | Some bs \<Rightarrow> (i32_of bs, cpcb c)))"
proof -
  let ?pos = "puntero_to_position p c" and ?data = "bytes_at cfg m (pid (cpcb c)) p 4"
  note p = position_facts [OF assms(1-3)]
  have run: "mem_inv cfg m" "pid (cpcb c) \<noteq> -1" "sendable (pid (cpcb c))" using assms(1) by (simp_all add: runs_on_def)
  have four: "sendable 4" "(0 :: int) < 4" by (simp_all add: sendable_def)
  obtain m1 where m1: "served cfg h m (deref_msgs c p) m1 (read_reply 4 ?data)" "mem_inv cfg m1" "mram m1 = mram m"
    "\<And>bs. ?data = Some bs \<Longrightarrow> int (length bs) = 4"
    using remote_read [OF run(1,2) p(2,3) four(2) run(3) p(4,5) four(1)]
    unfolding p(1) deref_msgs_def Let_def nat_numeral by metis
  have "cpu_memory_read (pid (cpcb c)) (pos_page ?pos) (pos_off ?pos) (int VAR_SIZE) (serverMemory (heard c (read_reply 4 ?data j)))
      = (?data, exchanged (serverMemory (heard c (read_reply 4 ?data j))) (deref_msgs c p) [])" for j
    unfolding deref_msgs_def Let_def VAR_SIZE_def of_nat_numeral
    by (rule cpu_memory_read_ok [OF _ four(2,1) m1(4), where j = j])
      (use assms(4) in \<open>simp_all add: can_send_def deref_msgs_def Let_def\<close>)
  then have "case AnSISOP_dereferenciar p (heard c (read_reply 4 ?data j)) of
        (w, c') \<Rightarrow> (w, cpcb c') = (case ?data of
           None \<Rightarrow> (0, (cpcb c)\<lparr>exitCode := ERROR_MEMORY\<rparr>) | Some bs \<Rightarrow> (i32_of bs, cpcb c))" for j
    by (auto simp: AnSISOP_dereferenciar_def Let_def split: option.splits)
  then show thesis using that m1(1-3) by blast
qed

text \<open>The two together, on an address of the process.\<close>

lemma assigned_value_read:
  assumes "runs_on c cfg m" "0 \<le> p" "p < 2 ^ 31" "125 \<le> room (serverMemory c)" "- (2 ^ 31) \<le> v" "v < 2 ^ 31"
    "bytes_at cfg m (pid (cpcb c)) p 4 \<noteq> None"
  obtains q m1 m2 where "served cfg h m (assign_msgs c p v) m1 (\<lambda>j. int_header j q)"
    "served cfg h m1 (deref_msgs c p) m2 (read_reply 4 (Some (i32 v)))"
    "\<And>j. cpcb (AnSISOP_asignar p v (heard c (int_header j q))) = cpcb c"
    "\<And>j j'. fst (AnSISOP_dereferenciar p
        (heard (AnSISOP_asignar p v (heard c (int_header j q))) (read_reply 4 (Some (i32 v)) j'))) = v"
proof -
  have len: "length (request_bytes (sjunk (serverMemory c)) (assign_msgs c p v)) = 65"
    "length (request_bytes (sjunk (serverMemory c)) (deref_msgs c p)) = 60"
    by (simp_all add: assign_msgs_def deref_msgs_def Let_def str_def)
  have can: "can_send (serverMemory c) (assign_msgs c p v)"
    using len assms(4) length_i32_nonempty [of v] by (auto simp: can_send_def assign_msgs_def Let_def)
  obtain q m1 where a: "served cfg h m (assign_msgs c p v) m1 (\<lambda>j. int_header j q)"
    "written_spec cfg m (pid (cpcb c)) p (i32 v) q m1"
    "\<And>j. cpcb (AnSISOP_asignar p v (heard c (int_header j q))) = cpcb c"
    "\<And>j. page_size (AnSISOP_asignar p v (heard c (int_header j q))) = page_size c"
    "\<And>j. room (serverMemory (AnSISOP_asignar p v (heard c (int_header j q)))) = room (serverMemory c) - 65"
    "\<And>j. sjunk (serverMemory (AnSISOP_asignar p v (heard c (int_header j q)))) = sjunk (serverMemory c)"
    by (rule assign_served [OF assms(1-3) can, of h], rule that) (use assms(7) in \<open>simp_all split: if_splits\<close>)
  have bytes: "bytes_at cfg m1 (pid (cpcb c)) p 4 = Some (i32 v)"
    using written_bytes [OF a(2)] assms(7) by simp
  let ?c = "\<lambda>j. AnSISOP_asignar p v (heard c (int_header j q))"
  have same: "deref_msgs (?c j) p = deref_msgs c p" for j
    by (simp add: deref_msgs_def Let_def puntero_to_position_def a(3,4))
  have run: "runs_on (?c j) cfg m1" for j
    using assms(1) a(2) by (simp add: runs_on_def a(3,4) written_spec_def)
  have can2: "can_send (serverMemory (?c j)) (deref_msgs (?c j) p)" for j
    using len(2) assms(4) unfolding same by (simp add: can_send_def a(5,6) deref_msgs_def Let_def)
  obtain m2 where m2: "served cfg h m1 (deref_msgs (?c (\<lambda>_. 0)) p) m2
      (read_reply 4 (bytes_at cfg m1 (pid (cpcb (?c (\<lambda>_. 0)))) p 4))"
    using deref_served [OF run assms(2,3) can2] by metis
  have "fst (AnSISOP_dereferenciar p (heard (?c j) (read_reply 4 (Some (i32 v)) j'))) = v" for j j'
  proof -
    obtain m3 where "mem_inv cfg m3" and d: "\<And>j'. (case AnSISOP_dereferenciar p (heard (?c j) (read_reply 4 (bytes_at cfg m1 (pid (cpcb (?c j))) p 4) j')) of
        (w, c') \<Rightarrow> (w, cpcb c') = (case bytes_at cfg m1 (pid (cpcb (?c j))) p 4 of
           None \<Rightarrow> (0, (cpcb (?c j))\<lparr>exitCode := ERROR_MEMORY\<rparr>) | Some bs \<Rightarrow> (i32_of bs, cpcb (?c j))))"
      by (rule deref_served [OF run assms(2,3) can2], rule that) simp_all
    show ?thesis
      using d [of j'] i32_round [of v "[]"] assms(5,6) unfolding a(3) bytes by (simp add: split_def)
  qed
  then show thesis using that [OF a(1) _ a(3)] m2 unfolding same a(3) bytes by blast
qed

text \<open>An address outside the pages of the process: the exit code is set, and it ends the loop.\<close>

lemma loop_stops: "exitCode (cpcb c) \<noteq> 1 \<Longrightarrow> cycle_loop analizador k c = Some (Inr c)"
  by (subst cycle_loop.simps) simp

lemma unmapped_access:
  assumes "runs_on c cfg m" "0 \<le> p" "p < 2 ^ 31" "125 \<le> room (serverMemory c)" "bytes_at cfg m (pid (cpcb c)) p 4 = None"
  obtains q m1 m2 where "served cfg h m (assign_msgs c p v) m1 (\<lambda>j. int_header j q)"
    "\<And>j. cpcb (AnSISOP_asignar p v (heard c (int_header j q))) = (cpcb c)\<lparr>exitCode := ERROR_MEMORY\<rparr>"
    "served cfg h m (deref_msgs c p) m2 (read_reply 4 None)"
    "\<And>j. fst (AnSISOP_dereferenciar p (heard c (read_reply 4 None j))) = 0"
    "\<And>j. cpcb (snd (AnSISOP_dereferenciar p (heard c (read_reply 4 None j)))) = (cpcb c)\<lparr>exitCode := ERROR_MEMORY\<rparr>"
    "\<And>j. cycle_loop analizador k (snd (AnSISOP_dereferenciar p (heard c (read_reply 4 None j))))
       = Some (Inr (snd (AnSISOP_dereferenciar p (heard c (read_reply 4 None j)))))"
proof -
  have can: "can_send (serverMemory c) (assign_msgs c p v)" "can_send (serverMemory c) (deref_msgs c p)"
    using assms(4) length_i32_nonempty [of v] by (auto simp: can_send_def assign_msgs_def deref_msgs_def Let_def str_def)
  obtain q m1 where a: "served cfg h m (assign_msgs c p v) m1 (\<lambda>j. int_header j q)"
    "\<And>j. cpcb (AnSISOP_asignar p v (heard c (int_header j q))) = (cpcb c)\<lparr>exitCode := ERROR_MEMORY\<rparr>"
    by (rule assign_served [OF assms(1-3) can(1), of h], rule that) (use assms(5) in simp_all)
  obtain m2 where d: "served cfg h m (deref_msgs c p) m2 (read_reply 4 None)"
    "\<And>j. case AnSISOP_dereferenciar p (heard c (read_reply 4 None j)) of
       (w, c') \<Rightarrow> (w, cpcb c') = (0, (cpcb c)\<lparr>exitCode := ERROR_MEMORY\<rparr>)"
    by (rule deref_served [OF assms(1-3) can(2), of h], rule that) (use assms(5) in simp_all)
  have e: "fst (AnSISOP_dereferenciar p (heard c (read_reply 4 None j))) = 0"
    "cpcb (snd (AnSISOP_dereferenciar p (heard c (read_reply 4 None j)))) = (cpcb c)\<lparr>exitCode := ERROR_MEMORY\<rparr>" for j
    using d(2) [of j] by (simp_all add: split_def)
  show thesis by (rule that [OF a d(1) e loop_stops]) (simp add: e ERROR_MEMORY_def)
qed

end
