(* ===== verification/CPU_Samples.thy ===== *)
theory CPU_Samples
  imports CPU_Kernel CPU_Memory Kernel_Samples
begin

text \<open>
  A CPU with the process of \<open>pcb_1\<close> at the beginning of its code, on pages of 32 bytes, and what the
  Kernel and Memory have sent it.
\<close>

definition cpu_env_1 :: cpu_env where
  "cpu_env_1 = \<lparr>metadata_buscar_etiqueta = (\<lambda>_ _ _. 0),
     new_args = replicate 10 \<lparr>pos_page = 0, pos_off = 0, pos_size = 0\<rparr>, unset_int = 0\<rparr>"

definition cpu_1 :: "byte list \<Rightarrow> byte list \<Rightarrow> cpu" where
  "cpu_1 from_kernel from_memory = \<lparr>cenv = cpu_env_1, cpcb = pcb_1, page_size = 32,
     serverKernel = sock_1 from_kernel 500, serverMemory = sock_1 from_memory 500, desconectar = 0, isExecuting = 0\<rparr>"

lemma cpu_1_simps [simp]:
  "cenv (cpu_1 a b) = cpu_env_1" "length (new_args cpu_env_1) = 10" "cpcb (cpu_1 a b) = pcb_1" "page_size (cpu_1 a b) = 32"
  "serverKernel (cpu_1 a b) = sock_1 a 500" "serverMemory (cpu_1 a b) = sock_1 b 500" "has_context (cpu_1 a b)"
  "pc pcb_1 = 0" "stackPosition pcb_1 = 0" "cantPagsCodigo pcb_1 = 1" "exitCode pcb_1 = 1" "pid pcb_1 = 1"
  by (simp_all add: cpu_1_def cpu_env_1_def has_context_def pcb_1_def)

lemma top_address_1: "top_address (cpu_1 a b) = 32"
  by (simp add: top_address_def)

lemma not_argument_1 [simp]: "\<not> is_argument 97" "\<not> is_argument 98" "is_argument 48"
  by (simp_all add: is_argument_def)

lemma runs_on_1: "runs_on (cpu_1 a b) cfg_1 mem_1"
  by (simp add: runs_on_def mem_inv_1 lru_ready_0 sendable_def)

lemma bytes_at_4: "bytes_at cfg_1 mem_1 1 8 4 = Some [0, 0, 0, 0]"
  by (simp add: bytes_at_def byte_at_1 upt_conv_Cons numeral_eq_Suc)

lemma no_byte_1: "byte_at cfg_1 mem_1 1 64 = None"
  by (simp add: byte_at_def page_at_def frame_of_def ram_1_def ram_0_def entry_has_PID_page_def free_entry_def
      upt_conv_Cons nth_Cons' numeral_eq_Suc)

lemma no_bytes_1: "bytes_at cfg_1 mem_1 1 64 4 = None"
  by (simp add: bytes_at_def upt_conv_Cons no_byte_1)

text \<open>The parser that does nothing.\<close>

lemma idle_code: "ansisop_code Inr"
  by (rule code_end)

text \<open>The first line of the program, as Memory sends it.\<close>

definition line_1 :: "byte list" where
  "line_1 = [97, 61, 49, 59, 10]"

lemma instruction_1: "current_instruction (cpu_1 a b) = Inr \<lparr>ins_start = 0, ins_offset = 5\<rparr>"
  by (simp add: current_instruction_def) (simp add: pcb_1_def)

lemma fetch_1: "\<exists>c1. cycle_fetch \<lparr>ins_start = 0, ins_offset = 5\<rparr> (cpu_1 a (read_reply 5 (Some line_1) (\<lambda>_. 0))) = Inr ([97, 61, 49, 59], c1)
    \<and> serverKernel c1 = sock_1 a 500 \<and> cpcb c1 = pcb_1"
proof -
  have "can_send (sock_1 b 500) (read_msgs 1 0 0 5)" for b
    by (simp add: can_send_def str_def)
  then have "cpu_memory_read 1 0 0 5 (sock_1 (read_reply 5 (Some line_1) (\<lambda>_. 0)) 500)
      = (Some line_1, exchanged (sock_1 (read_reply 5 (Some line_1) (\<lambda>_. 0)) 500) (read_msgs 1 0 0 5) [])"
    by (intro cpu_memory_read_ok [where j = "\<lambda>_. 0"]) (auto simp: sendable_def line_1_def)
  moreover have "instruction_text line_1 = Inr [97, 61, 49, 59]"
    by (simp add: instruction_text_def line_1_def is_blank_def cstr_def)
  ultimately show ?thesis
    by (simp add: cycle_fetch_def Let_def)
qed

subsection \<open>With the Kernel\<close>

lemma pcb_1_sent: "pcb_ok pcb_1" "pcb_serialize pcb_1 = Inr pcb_bytes" "length pcb_bytes < 400"
proof -
  show ok: "pcb_ok pcb_1"
    by (simp add: pcb_ok_def pcb_1_def int32_def instruction_ok_def context_ok_def position_ok_def)
  obtain bs where "pcb_serialize pcb_1 = Inr bs" using pcb_round [OF ok length_replicate] by metis
  then show "pcb_serialize pcb_1 = Inr pcb_bytes" by (simp add: pcb_bytes_def)
  show "length pcb_bytes < 400"
    by (simp add: pcb_bytes_def pcb_serialize_def pcb_1_def serialize_static_type_array_def stack_serialize_def
        read_stream_def instruction_serializer_def stack_context_serialize_def serialize_static_type_dict_def
        position_serializer_def replicate_5)
qed

lemma env_2_args: "length (fresh_args (env (kernel_2 b n))) = 10" "pcb (programs (kernel_2 b n) 0) = pcb_1"
  "tx (sock_1 b n) = []"
  by (simp_all add: kernel_2_def kernel_0_def env_1_def program_3_def program_1_def sock_1_def)

text \<open>Process 0 sets the shared variable and process 1 reads it.\<close>

definition kernel_shared :: kernel where
  "kernel_shared = (kernel_2 [] 100)\<lparr>
     config := cfg_2\<lparr>shared_vars := [\<lparr>sv_nombre = str ''!v'', sv_value = 3, sv_locked = False\<rparr>]\<rparr>,
     cpus := [\<lparr>cpu_socket = 5, cpu_program = Some 0, cpu_disconnected = 0\<rparr>, \<lparr>cpu_socket = 6, cpu_program = Some 1, cpu_disconnected = 0\<rparr>],
     socks := (\<lambda>fd. sock_1 (blob_frame (\<lambda>_. 0) (wire_name (str ''v'') @ [0]) @ (if fd = 5 then int_header (\<lambda>_. 0) 44 else [])) 100)\<rparr>"

lemma kernel_shared_facts:
  "cpu_find 5 kernel_shared = Some 0" "cpu_find 6 kernel_shared = Some 1" "current 0 kernel_shared = Inr 0"
  "current 1 kernel_shared = Inr 1" "current (Suc 0) kernel_shared = Inr 1" "0 \<notin> set (str ''v'')" "length (str ''v'') = 1" "header_fits 44"
  "shared_vars (config kernel_shared) = [\<lparr>sv_nombre = str ''!v'', sv_value = 3, sv_locked = False\<rparr>]"
  "named_var (wire_name (str ''v'')) \<lparr>sv_nombre = str ''!v'', sv_value = 3, sv_locked = False\<rparr>"
  "rx (socks kernel_shared 5) = blob_frame (\<lambda>_. 0) (wire_name (str ''v'') @ [0]) @ int_header (\<lambda>_. 0) 44"
  "rx (socks kernel_shared 6) = blob_frame (\<lambda>_. 0) (wire_name (str ''v'') @ [0])"
  "room (socks kernel_shared fd) = 100"
  by (simp_all add: kernel_shared_def cpu_find_def current_def str_def header_fits_def named_var_def wire_name_def)

end
