(* ===== verification/Spec2Isabelle.thy ===== *)
theory Spec2Isabelle
  imports FS_Samples Server_Samples Console_Samples CPU_Samples Kernel_Samples Kernel_Locks Samples
begin

text \<open>
  Verification of socketapp: a small operating system that runs as separate processes, written
  in C, which talk over sockets. A Console sends the source of a program to the Kernel; the Kernel
  admits it, gives it to one of the CPU processes for a burst, and serves the system calls the CPU
  makes for it (semaphores, shared variables, heap, files); Memory keeps the pages of all processes
  in frames behind a page cache; the FileSystem keeps the files.

  \<^bold>\<open>Theories and sources\<close>

  \<^item> \<open>Prelude\<close>: bytes, C strings and integers, the fault type (what stops a C program), the
    functions of the commons list library as they are documented, shared lemmas.
  \<^item> \<open>Sockets\<close>: \<open>libSockets/send.c\<close> and \<open>recv.c\<close>. A connection is a record \<open>sock\<close> of the bytes that
    were sent, the bytes still to be received and the room left; a send or receive on an exhausted
    connection fails as the C call does. \<open>Select_Server\<close>: the accept and select loop of \<open>server.c\<close>, for
    any two handlers, with the interface \<open>connection_server\<close> of what the handlers must keep.
  \<^item> \<open>Config_File\<close>: the configuration library as the processes use it, a parameter.
  \<^item> Memory process. \<open>Hash_Function\<close>, \<open>Ram\<close> (the frame table, \<open>ram.c\<close>), \<open>Cache\<close> (\<open>cache.c\<close>),
    \<open>Memory_Ops\<close> (\<open>memory.c\<close>), \<open>Memory_Server\<close> (\<open>threads/handlers.c\<close>, \<open>request.c\<close>),
    \<open>Memory_Process\<close> (\<open>Memory.c\<close>, \<open>threads/select.c\<close>: its start, its connections, their threads),
    \<open>Memory_Console\<close> and \<open>Memory_Console_Laws\<close> (\<open>other/debug_console.c\<close>).
  \<^item> Clients of Memory. \<open>Memory_Client\<close> (\<open>Kernel/src/interface/memory.c\<close> and \<open>CPU/src/functions/memory.c\<close>
    on the bytes of the connection), \<open>Remote_Memory\<close> (the same calls as operations of the Memory
    process, which the \<open>..._served\<close> properties justify).
  \<^item> \<open>Process_Control\<close> and \<open>Serialization\<close>: the process control block and \<open>serialization.c\<close>.
  \<^item> \<open>Kernel_Structures\<close>, \<open>Heap\<close>: the structures of the Kernel and \<open>functions/heap.c\<close>.
  \<^item> Kernel process. \<open>Kernel_State\<close> (the globals), \<open>FS_Client\<close> (\<open>interface/filesystem.c\<close>),
    \<open>File_Descriptors\<close>, \<open>Programs\<close> (\<open>program.c\<close>, \<open>cpu.c\<close>, \<open>planner/\<close>), \<open>Syscalls\<close> and \<open>File_Syscalls\<close>
    (\<open>threads/cpu/handler.c\<close>), \<open>Kernel_Requests\<close> (the two select loops, and the step relation
    \<open>kernel_step\<close> with its reachable states), \<open>Kernel_Start\<close> (\<open>config.c\<close>, \<open>Kernel.c\<close>), \<open>Kernel_Console\<close> (the
    commands and texts of \<open>console.c\<close> and the loop that reads them).
  \<^item> Proofs about the Kernel. \<open>Open_Files\<close> (reference counts of open files), \<open>Process_Places\<close> and
    \<open>Process_Flow\<close> (where the processes are), \<open>Kernel_Invariant\<close> (every event keeps the invariant),
    \<open>Kernel_Laws\<close> (functional behaviour), \<open>Kernel_Console_Laws\<close> (what a command shows and changes),
    \<open>Kernel_Locks\<close> (the mutexes, as interleaved traces).
  \<^item> Console process. \<open>Console_Process\<close> (\<open>threads/program.c\<close>, \<open>functions/commands.c\<close>), \<open>Console_Laws\<close> (the list of
    programs, a thread to its end), \<open>Console_Kernel\<close> (with the Kernel over the connection).
  \<^item> \<open>Samples\<close>, \<open>Kernel_Samples\<close>, \<open>Console_Samples\<close>, \<open>Server_Samples\<close>: the concrete states of the witnesses.
  \<^item> FileSystem process. \<open>FS_Tree\<close> (files and directories as the C library shows them), \<open>FS_Disk\<close>
    (\<open>bitmap.c\<close>, \<open>auxiliares.c\<close>, the metadata of \<open>config.c\<close>), \<open>FS_Operations\<close> (\<open>operaciones.c\<close>, \<open>handler.c\<close>,
    the loop of \<open>FileSystem.c\<close>). Proofs: \<open>FS_Single\<close> (the division in single precision), \<open>FS_Bitmap\<close>
    (the pool of blocks as the interface \<open>block_pool\<close>, interpreted on the bitmap), \<open>FS_Layout\<close> (the
    invariant \<open>fs_inv\<close> of the disk against the directory it stands for), \<open>FS_Data\<close>, \<open>FS_Laws\<close>, \<open>FS_Files\<close>,
    \<open>FS_Lifecycle\<close> (reading, writing, creating, deleting), \<open>FS_Exchange\<close> (with the Kernel's stubs over
    the connection), \<open>FS_Samples\<close>. \<open>FS_Process\<close> is the process around them: its start, the mapped bitmap,
    the handshake, a session. \<open>FS_Generator\<close> is the tool \<open>GeneradorDeArchivos\<close>, which prepares a disk.
  \<^item> CPU process. \<open>CPU_Stack\<close> (\<open>stack.c\<close>), \<open>CPU_Primitives\<close> (\<open>primitivas.c\<close>), \<open>CPU_Cycle\<close> (\<open>pcb.c\<close>,
    \<open>instruction_cycle.c\<close>, \<open>interruption.c\<close> and the loops of \<open>CPU.c\<close>). Proofs: \<open>CPU_Laws\<close> and \<open>CPU_Calls\<close>
    (variables and calls), \<open>CPU_Loop\<close> (what a line can do, the end of the loop), \<open>CPU_Memory\<close> (with the
    Memory process), \<open>CPU_Kernel\<close> (with the Kernel), \<open>CPU_Samples\<close>.

  \<^bold>\<open>How the code is read\<close>

  Every operation is a function of the state it works on. A C pointer into a list of structures is
  an index or an address of a map; \<open>NULL\<close> is \<open>None\<close>. What stops the program (a null dereference,
  \<open>exit\<close>, an access outside a block, waiting for a mutex the thread itself holds) is a value of
  \<open>fault\<close>, on the left of the result type \<open>fault + 'a\<close>; an error code the code returns is an
  ordinary result. Integers are unbounded where the code's values stay small, and the places where
  32 bits show are written out (\<open>header_fits\<close>, the words of the serialised block, the hash functions
  on 64 bits). Loops are recursive functions with a termination proof, the loop of
  the CPU a partial function that is proved to return (\<open>burst_terminates\<close>); no definition uses fuel.
  Bytes that come from uninitialised memory are arguments (\<open>sjunk\<close>, \<open>fresh_args\<close>, \<open>stack_junk\<close>), so
  every statement holds whatever they are.

  \<^bold>\<open>What is shown\<close>

  Memory: reads and writes agree with a flat address space per process, whatever the cache and the
  hash function do; the frame table and the cache keep their invariants; the client and the server
  of a request agree. Heap: allocation returns fresh blocks and keeps the others, release takes
  exactly one block out of use, coalescing is the merge of free runs; four ways in which it stops
  the Kernel. Serialisation: what is sent is read back. Kernel: every process is in exactly one
  place in every reachable state, open files are counted, the planners are first-come first-served
  within the degree of multiprogramming, round robin respects the quantum, semaphores block and wake
  in order; the threads that serve CPUs and consoles do not deadlock, two commands of its own console
  do. The console of the Kernel shows each process once and what is kept of it, changes nothing but the
  degree of multiprogramming, and in four ways stops the Kernel. The Kernel starts from its
  configuration file in a state of which all this holds. Memory process: a descriptor is watched by
  the loop or owned by one thread, the loop is a walk over the ready descriptors, the debug console
  changes no byte of a process. Console: its list holds running programs only, the source of a program
  arrives, texts and the reason of the end are shown.
  FileSystem: on a disk in order a file is a sequence of bytes; reads return a part of it, writes
  overlay it and leave the other files alone, creating and deleting keep the disk in order; what is
  written through the connection is read back, in a whole session from the handshake on; a disk that
  was prepared by the generator starts with every block free; which writes are refused, and which stop the process.
  The hypotheses on code outside the repository are \<open>reads_metadata\<close> (the configuration reader reads
  back the metadata that was written, proved of the reader in \<open>FS_Samples\<close>) and values of \<open>string_split\<close>.
  CPU: a line of a program, which acts through the functions of \<open>ansisop.c\<close> only, keeps the process what
  it is; every burst ends; calls return to their caller, and when they leave the stack as it was;
  values assigned are read again through Memory; a process travels to the CPU and back unchanged; a
  shared variable set on one CPU is seen on another.

  \<^bold>\<open>Not modelled\<close>

  \<open>getaddrinfo\<close>, \<open>bind\<close>, \<open>listen\<close> and \<open>connect\<close> (\<open>client.c\<close>, the first half of \<open>server.c\<close>), the log
  files and the creation of threads: calls of the operating system around the operations above. The
  CPU and the Console read two addresses from their configuration files, which they give to \<open>connect\<close>.
  The parser of the ANSISOP language and the commons library are third-party code: the parser
  is an argument (\<open>metadata_desde_literal\<close>), so are the readers of configuration files and lists of
  values; lists and dictionaries are modelled by what their documentation says. \<open>server.c\<close>, \<open>recv.c\<close>,
  \<open>send.c\<close> and \<open>serialization.c\<close> are in the tree once for each process, byte by byte the same, and are
  modelled once.
  Of \<open>init.c\<close> of the FileSystem, \<open>crearArchivos\<close> and \<open>unmountSadica\<close> are called nowhere.
\<close>

text \<open>C1: In every state the Kernel can reach, each process is in exactly one place (new, ready, blocked or
finished queue, or one CPU), the open files are counted, and no CPU is left marked as
disconnected. An event neither loses nor duplicates a process; the only one that can join is the
process of a new console.\<close>

theorem processes_in_one_place:
  assumes "kernel_reachable k" "kernel_step k k'"
  shows "distinct (places k') \<and> fd_inv k' \<and> (\<forall>u \<in> set (cpus k'). cpu_disconnected u \<noteq> 1)
    \<and> (mset (places k') = mset (places k) \<or> mset (places k') = add_mset (nextProgram k) (mset (places k)))"
  using kernel_step_keeps [OF assms(2) kernel_reachable_inv [OF assms(1)]]
  unfolding kernel_inv_def by blast+

theorem processes_in_one_place_witness:
  "\<exists>k'. kernel_step kernel_0 k' \<and> newQ k' = [0] \<and> distinct (places k')"
proof -
  obtain k' where k': "select_program_socket_recive_package 9 (str ''NewProgram'') kernel_0 = Inr k'" "newQ k' = [0]"
    using new_program_0 by blast
  have step: "kernel_step kernel_0 k'" by (rule console_package [OF k'(1)])
  have "kernel_reachable kernel_0" by (rule kernel_reachable.start [OF kernel_started_0])
  from processes_in_one_place [OF this step] step k'(2) show ?thesis by blast
qed

text \<open>C2: No file call of a process touches a freed entry of the global file table: in a state that satisfies
the invariant, opening, deleting and closing always complete (whatever the descriptor, the path
and the state of the connections), and the counts of the entries are right again.\<close>

theorem file_calls_complete:
  assumes "kernel_inv k" "c < length (cpus k)" "cpu_program (cpus k ! c) = Some p"
  shows "(\<exists>k'. handle_cpu_abrir c k = Inr k' \<and> fd_inv k')
    \<and> (\<exists>k'. handle_cpu_borrar c k = Inr k' \<and> fd_inv k')
    \<and> (\<exists>k'. handle_cpu_cerrar c k = Inr k' \<and> fd_inv k')"
proof -
  have a: "accounted [] (mset (places k)) {c} k"
    using assms(1) by (auto simp: kernel_inv_accounted accounted_def)
  have p: "current c k = Inr p" using assms(3) by (simp add: current_def)
  note ok = a assms(2) singletonI [of c] p
  show ?thesis
    using handle_cpu_abrir_ok [OF ok] handle_cpu_borrar_ok [OF ok] handle_cpu_cerrar_ok [OF ok]
    unfolding accounted_def by blast
qed

theorem file_calls_complete_witness:
  "\<exists>k'. handle_cpu_cerrar 0 (kernel_2 (int_header (\<lambda>_. 0) 3) 100) = Inr k' \<and> fd_inv k'"
  using file_calls_complete [OF kernel_inv_2, of 0 "int_header (\<lambda>_. 0) 3" 100] by simp

text \<open>C3: The connections of the Memory process: in every state it can reach, each open connection is either watched by the
loop or belongs to exactly one thread, and nothing else is open. A turn of the loop, which runs over all
descriptors while it adds new ones, is the same as serving the ready ones once each in their order.\<close>

theorem memory_serves_each_once:
  assumes "memory_process_reachable sv"
  shows "connections_fit (listeningSocket sv) (watched sv) (process sv)
    \<and> start_server ready sv = serve_all memory_callbacks (sorted_list_of_set (watched sv \<inter> ready)) sv"
  using memory_reachable_inv [OF assms] ms.select_turn_serves(1) by (simp add: start_server_def ms.server_inv_def)

theorem memory_serves_each_once_witness:
  "connections_fit 3 {3} (process server_1) \<and> start_server {3} server_1 = serve_fd memory_callbacks 3 server_1"
  using memory_serves_each_once [OF server_1_reachable, of "{3}"]
  by (simp add: server_1_def select_start_def serve_all_one del: serve_all.simps)

text \<open>C4: A write that ends within the disk, for which there are blocks, whose copies stay in their pages and
that starts in the file answers 1. The file then holds its old bytes with the buffer laid over them,
its size has grown as needed, every other file is as it was, and the disk is in order again: blocks
marked, as many as the size needs, none of them shared.\<close>

theorem write_overlays_file:
  assumes "writes_to d M path a off bs" "int off \<le> tamanio a"
    "missing_blocks d a (off + length bs) \<le> card (free_blocks d)"
    "off mod block_size d + min (length bs) (block_size d) \<le> whole_pages (page_bytes (fsenv d)) (block_size d)"
  shows "\<exists>d' a'. guardarDatos (armarPathArchivo path d) (int off) (int (length bs)) bs d = Inr (1, d')
    \<and> fs_inv d' (M(components path \<mapsto> a')) \<and> tamanio a' = max (tamanio a) (int (off + length bs))
    \<and> file_bytes d' a' = take off (file_bytes d a) @ bs @ drop (off + length bs) (file_bytes d a)
    \<and> (\<forall>r b. M r = Some b \<longrightarrow> r \<noteq> components path \<longrightarrow> file_bytes d' b = file_bytes d b)"
  using guardar_content [OF assms] by metis

theorem write_overlays_file_witness:
  "\<exists>d' a'. guardarDatos (armarPathArchivo (str ''a'') (sample_disk 64 0 (sock_of [] 0))) 3 7 [9, 9, 9, 9, 9, 9, 9]
      (sample_disk 64 0 (sock_of [] 0)) = Inr (1, d')
    \<and> tamanio a' = 10 \<and> file_bytes d' a' = [1, 2, 3, 9, 9, 9, 9, 9, 9, 9]"
proof -
  let ?d = "sample_disk 64 0 (sock_of [] 0)"
  have w: "writes_to ?d sample_files (str ''a'') sample_file 3 [9, 9, 9, 9, 9, 9, 9]" by (rule sample_writes) simp_all
  have "missing_blocks ?d sample_file (3 + length [9 :: byte, 9, 9, 9, 9, 9, 9]) \<le> card (free_blocks ?d)"
    by (simp add: missing_blocks_def)
  from write_overlays_file [OF w _ this] show ?thesis
    by (auto simp: whole_pages_def sample_env_def sample_content)
qed

text \<open>C5: A whole session of the FileSystem process: the Kernel connects, writes to a file, reads the same place and goes
away. What the connection of the Kernel sent at its start opens the session, every request is served, and the
answers say to the Kernel's stubs that the write was done and give back the buffer.\<close>

theorem session_gives_back_what_was_written:
  assumes "writes_to d M path a off bs" "int off \<le> tamanio a" "request_fits path"
    "missing_blocks d a (off + length bs) \<le> card (free_blocks d)"
    "off mod block_size d + min (length bs) (block_size d) \<le> whole_pages (page_bytes (fsenv d)) (block_size d)"
    "18 \<le> room k" "33 + length bs \<le> room s" "58 + length path + length bs \<le> room k'"
    "rx s = drop (length (tx k)) (tx (filesystem_connect k))
      @ write_request k path (int off) bs @ read_request k path (int off) (int (length bs))"
  shows "\<exists>d' s1 s2 written. fs_accept s d = Inr d'
    \<and> drop (length (tx s)) (tx (socketKernel d')) = int_header (sjunk s) 1 @ written
    \<and> filesystem_write path (int off) bs (k'\<lparr>rx := int_header (sjunk s) 1\<rparr>) = (1, s1)
    \<and> filesystem_read path off (int (length bs)) (k'\<lparr>rx := written\<rparr>) = (int (length bs), Filled bs, s2)"
proof -
  have rx: "rx s = blob_frame (sjunk k) (str ''KERNEL'' @ [0]) @ write_request k path (int off) bs @ read_request k path (int off) (int (length bs))"
    using assms(9) by (simp add: connect_bytes [OF assms(6)])
  obtain d' where d': "fs_accept s d = Inr d'"
    "tx (socketKernel d') = tx s @ int_header (sjunk s) 1 @ int_header (sjunk s) (int (length bs)) @ blob_frame (sjunk s) bs"
    by (rule session_trip [OF assms(1-5) rx assms(7)])
  have "bs \<noteq> []" "off + length bs < 2 ^ 24" using writes_to_facts [OF assms(1)] by simp_all
  then show ?thesis
    using d' stub_writes [OF assms(8), of 1] stub_reads [of path k' off bs] assms(8) by (auto simp: header_fits_def)
qed

theorem session_gives_back_what_was_written_witness:
  "\<exists>d' s1. fs_accept ((sock_of (blob_frame (\<lambda>_. 0) (str ''KERNEL'' @ [0]) @ write_request (sock_of [] 200) (str ''a'') 3 [9, 9, 9, 9, 9, 9, 9]
      @ read_request (sock_of [] 200) (str ''a'') 3 7) 100)) sample_served = Inr d'
    \<and> filesystem_write (str ''a'') 3 [9, 9, 9, 9, 9, 9, 9] ((sock_of [] 200)\<lparr>rx := int_header (\<lambda>_. 0) 1\<rparr>) = (1, s1)"
proof -
  let ?bs = "[9, 9, 9, 9, 9, 9, 9] :: byte list"
  have w: "writes_to sample_served sample_files (str ''a'') sample_file 3 ?bs"
    unfolding sample_served_def by (rule sample_writes) simp_all
  have "request_fits (str ''a'')" by (simp add: request_fits_def str_def)
  moreover have "missing_blocks sample_served sample_file (3 + length ?bs) \<le> card (free_blocks sample_served)"
    by (simp add: missing_blocks_def sample_served_def)
  moreover have "drop (length (tx (sock_of [] 200))) (tx (filesystem_connect (sock_of [] 200))) = blob_frame (\<lambda>_. 0) (str ''KERNEL'' @ [0])"
    by (subst connect_bytes) (simp_all add: sock_of_def)
  ultimately show ?thesis
    using session_gives_back_what_was_written [OF w, of "sock_of [] 200"
        "sock_of (blob_frame (\<lambda>_. 0) (str ''KERNEL'' @ [0]) @ write_request (sock_of [] 200) (str ''a'') 3 ?bs
          @ read_request (sock_of [] 200) (str ''a'') 3 7) 100" "sock_of [] 200"]
    by (auto simp: sample_served_def whole_pages_def sample_env_def sock_of_def str_def)
qed

text \<open>C6: A call from beginning to end: the callee defines arguments and variables, looks some of them up, and
returns. The program counter and all contexts of the caller are as before the call; the top of the
stack is as before only if no argument was looked up, for every look-up of an argument counts it once
more and the return takes four bytes more off the stack.\<close>

theorem call_returns_to_caller:
  assumes "length (new_args (cenv c)) = 10" "has_context c" "int (pc (cpcb c)) < 2 ^ 31" "distinct names"
    "int (stackPosition (cpcb c)) + 4 * int (length names) < 2 ^ 64" "\<forall>x \<in> set reads. is_argument x \<or> x \<in> set names"
  shows "\<exists>c1 c2 c3. define_all names (AnSISOP_llamarConRetorno f a c) = Inr c1 \<and> read_all reads c1 = Inr c2
    \<and> AnSISOP_finalizar c2 = Inr c3 \<and> pc (cpcb c3) = pc (cpcb c) \<and> indiceDeStack (cpcb c3) = indiceDeStack (cpcb c)
    \<and> stackPosition (cpcb c3) = size_t (int (stackPosition (cpcb c)) - 4 * int (length (filter is_argument reads)))"
  by (rule call_and_return [OF assms, of f a]) blast

theorem call_returns_to_caller_witness:
  "\<exists>c1 c2 c3. define_all [48, 98] (AnSISOP_llamarConRetorno [102] 32 (cpu_1 [] [])) = Inr c1 \<and> read_all [98] c1 = Inr c2
    \<and> AnSISOP_finalizar c2 = Inr c3 \<and> indiceDeStack (cpcb c3) = indiceDeStack pcb_1 \<and> stackPosition (cpcb c3) = 0"
  using call_returns_to_caller [of "cpu_1 [] []" "[48, 98]" "[98]" "[102]" 32] by auto

text \<open>C7: What a process assigns to an address of its pages it finds there again: the request of
\<open>AnSISOP_asignar\<close> served by the Memory process, then that of \<open>AnSISOP_dereferenciar\<close>, whose
result is the value, for every value of 32 bits.\<close>

theorem assigned_value_is_read:
  assumes "runs_on c cfg m" "0 \<le> p" "p < 2 ^ 31" "125 \<le> room (serverMemory c)" "- (2 ^ 31) \<le> v" "v < 2 ^ 31"
    "bytes_at cfg m (pid (cpcb c)) p 4 \<noteq> None"
  shows "\<exists>q m1 m2. served cfg h m (assign_msgs c p v) m1 (\<lambda>j. int_header j q)
    \<and> served cfg h m1 (deref_msgs c p) m2 (read_reply 4 (Some (i32 v)))
    \<and> (\<forall>j j'. fst (AnSISOP_dereferenciar p
         (heard (AnSISOP_asignar p v (heard c (int_header j q))) (read_reply 4 (Some (i32 v)) j'))) = v)"
  by (rule assigned_value_read [OF assms, of h]) blast

theorem assigned_value_is_read_witness:
  "\<exists>q m1 m2. served cfg_1 hash_1 mem_1 (assign_msgs (cpu_1 [] []) 8 (-7)) m1 (\<lambda>j. int_header j q)
    \<and> served cfg_1 hash_1 m1 (deref_msgs (cpu_1 [] []) 8) m2 (read_reply 4 (Some (i32 (-7))))"
  using assigned_value_is_read [OF runs_on_1, of 8 "[]" "[]" "-7" hash_1] bytes_at_4 by auto

text \<open>C8: A read of the Memory process returns the bytes of the flat address space of the process, across
page boundaries, from the cache or from the frames; it fails exactly when it touches a page
without a frame. It keeps the invariant and changes no byte.\<close>

theorem memory_read_flat:
  assumes "mem_inv cfg m" "PID \<noteq> -1" "0 \<le> off" "off < int (frameSize cfg)" "0 \<le> n"
  shows "\<exists>m'. memory_read cfg h m PID page off n
      = Inr (bytes_at cfg m PID (page * int (frameSize cfg) + off) (nat n), m')
    \<and> mem_inv cfg m' \<and> (\<forall>P x. byte_at cfg m' P x = byte_at cfg m P x)"
proof -
  obtain m' where "memory_read cfg h m PID page off n
      = Inr (bytes_at cfg m PID (page * int (frameSize cfg) + off) (nat n), m')"
    "mem_inv cfg m'" "mram m' = mram m"
    using memory_read_spec [OF assms, of h page] by blast
  then show ?thesis by (simp add: byte_at_def page_at_def)
qed

theorem memory_read_flat_witness:
  "\<exists>m'. memory_read cfg_1 hash_1 mem_1 1 0 4 8 = Inr (Some (replicate 8 0), m') \<and> mem_inv cfg_1 m'"
  using memory_read_flat [OF mem_inv_1, of 1 4 8 hash_1 0] bytes_at_1 by auto

text \<open>C9: A write of the Memory process stores its bytes at consecutive addresses of the process and
nothing else, in the frames and in the cache; when it runs into a page without a frame it
reports \<open>ERROR_MEMORY\<close> and a proper prefix of the bytes has been stored.\<close>

theorem memory_write_flat:
  assumes "mem_inv cfg m" "lru_ready cfg (mcache m)" "PID \<noteq> -1" "0 \<le> off" "off < int (frameSize cfg)"
  defines "a \<equiv> \<lambda>page. page * int (frameSize cfg) + off"
  shows "\<exists>q m'. memory_write cfg h m PID page off (int (length bs)) bs = Inr (q, m') \<and> mem_inv cfg m'
    \<and> (if bytes_at cfg m PID (a page) (length bs) \<noteq> None
       then q = int (length bs) \<and> write_effect cfg m m' PID (a page) bs
       else q = ERROR_MEMORY \<and> (\<exists>k < length bs. write_effect cfg m m' PID (a page) (take k bs)))"
  using memory_write_spec [OF assms(1-5), of h page bs] unfolding written_spec_def a_def by blast

theorem memory_write_flat_witness:
  "\<exists>q m'. memory_write cfg_1 hash_1 mem_1 1 0 4 (int (length (replicate 8 7))) (replicate 8 7) = Inr (q, m')
     \<and> q = 8 \<and> write_effect cfg_1 mem_1 m' 1 4 (replicate 8 7)"
  using memory_write_flat [OF mem_inv_1, of 1 4 hash_1 0 "replicate 8 7"] lru_ready_0 bytes_at_1
  by auto



text \<open>C11: Releasing a block of the heap takes exactly its bytes out of use, keeps every other block and
counts the bytes; free neighbours are merged. When the page is empty afterwards its frame is
given back to Memory, but the page stays listed with all its bytes free.\<close>

theorem heap_free_block:
  assumes "heap_inv p r" "hp \<in> set (heapPages p)" "page_ok r (pid (pcb p)) hp (xs @ (n, False) # ys)"
    "Heap.span xs + 8 < pageSize r"
  defines "a \<equiv> hp_page hp * pageSize r + Heap.span xs + 8"
  shows "\<exists>p' r' r1. memory_heap_free p (hp_page hp) (Heap.span xs + 8) r = Inr (p', r') \<and> released p r a n p' r1
    \<and> (if free_bytes (coalesced (xs @ (n, True) # ys)) = pageSize r - 8
       then remote_free_page r1 (pid (pcb p)) (hp_page hp) = Inr (0, r')
         \<and> find_heapPage (hp_page hp) p' = Some \<lparr>hp_page = hp_page hp, hp_freeSpace = pageSize r - 8\<rparr>
         \<and> frame_of (mram (rmem r')) (pid (pcb p), hp_page hp) = None
       else r1 = r')"
  unfolding a_def by (rule memory_heap_free_spec [OF assms(1-4)]) auto

theorem heap_free_block_witness:
  "\<exists>p' r'. memory_heap_free program_2 1 8 remote_2 = Inr (p', r')
     \<and> find_heapPage 1 p' = Some \<lparr>hp_page = 1, hp_freeSpace = 24\<rparr>
     \<and> frame_of (mram (rmem r')) (1, 1) = None"
  using heap_free_block [OF heap_inv_2, of "\<lparr>hp_page = 1, hp_freeSpace = 12\<rparr>" "[]" 4 "[(12, True)]"]
    page_ok_2 by (auto simp del: layout.simps)

text \<open>C12: The copy into a block is as long as the block whatever byte it starts at. A write for which there are
blocks therefore stops the FileSystem exactly when the first of its copies runs over the end of the
last page of its block; otherwise it answers 1.\<close>

theorem write_crashes_exactly:
  assumes "writes_to d M path a off bs" "missing_blocks d a (off + length bs) \<le> card (free_blocks d)"
  shows "(guardarDatos (armarPathArchivo path d) (int off) (int (length bs)) bs d = Inl Buffer_Overflow) =
      (whole_pages (page_bytes (fsenv d)) (block_size d) < off mod block_size d + min (length bs) (block_size d))
    \<and> ((\<exists>d'. guardarDatos (armarPathArchivo path d) (int off) (int (length bs)) bs d = Inr (1, d')) =
      (off mod block_size d + min (length bs) (block_size d) \<le> whole_pages (page_bytes (fsenv d)) (block_size d)))"
proof (cases "off mod block_size d + min (length bs) (block_size d) \<le> whole_pages (page_bytes (fsenv d)) (block_size d)")
  case True
  then obtain d' where "guardarDatos (armarPathArchivo path d) (int off) (int (length bs)) bs d = Inr (1, d')"
    using guardar_spec [OF assms] by metis
  with True show ?thesis by auto
next
  case False
  then show ?thesis using guardar_crashes [OF assms] by simp
qed

theorem write_crashes_exactly_witness:
  "guardarDatos (armarPathArchivo (str ''a'') (sample_disk 8 0 (sock_of [] 0))) 3 7 [9, 9, 9, 9, 9, 9, 9]
      (sample_disk 8 0 (sock_of [] 0)) = Inl Buffer_Overflow"
proof -
  let ?d = "sample_disk 8 0 (sock_of [] 0)"
  have w: "writes_to ?d sample_files (str ''a'') sample_file 3 [9, 9, 9, 9, 9, 9, 9]" by (rule sample_writes) simp_all
  have "missing_blocks ?d sample_file (3 + length [9 :: byte, 9, 9, 9, 9, 9, 9]) \<le> card (free_blocks ?d)"
    by (simp add: missing_blocks_def)
  from write_crashes_exactly [OF w this] show ?thesis by (simp add: whole_pages_def sample_env_def)
qed

text \<open>C13: A caller that has a variable, calls a function that reads its argument once, and then declares a
second variable has both variables at the same address: the return took the slot of the first off the
stack.\<close>

theorem argument_read_aliases_variables:
  assumes "has_context c0" "\<not> is_argument x" "\<not> is_argument y" "x \<noteq> y" "int (stackPosition (cpcb c0)) < 2 ^ 31"
    "length (new_args (cenv c0)) = 10" "int (pc (cpcb c0)) < 2 ^ 31"
  shows "\<exists>v c c1 c2 c3 w c4. AnSISOP_definirVariable x c0 = Inr (v, c)
    \<and> define_all [48] (AnSISOP_llamarConRetorno f a c) = Inr c1 \<and> read_all [48] c1 = Inr c2
    \<and> AnSISOP_finalizar c2 = Inr c3 \<and> AnSISOP_definirVariable y c3 = Inr (w, c4)
    \<and> local_position c4 x = Some (stack_top c0) \<and> local_position c4 y = Some (stack_top c0)"
  by (rule argument_read_aliases [OF assms, of f a]) blast

theorem argument_read_aliases_variables_witness:
  "\<exists>c0 c4. local_position c4 97 = Some (stack_top c0) \<and> local_position c4 98 = Some (stack_top c0)"
  using argument_read_aliases_variables [of "cpu_1 [] []" 97 98 "[102]" 32] by auto

text \<open>C14: The burst of a process ends: from whatever state and whatever finitely many bytes the Kernel sends,
the loop over the instructions returns, because every turn takes two answers of the Kernel from the
connection and nothing a line can do puts any back.\<close>

theorem burst_terminates:
  assumes "\<And>line. ansisop_code (analizador line)"
  shows "\<exists>r. run_process analizador c = Some r"
  by (rule run_process_returns [OF assms])

theorem burst_terminates_witness:
  "\<exists>r. run_process (\<lambda>line. Inr) (cpu_1 (blob_frame (\<lambda>_. 0) (str ''PCB'' @ [0])) []) = Some r"
  by (rule burst_terminates) (rule idle_code)

text \<open>C15: The process on its way: what the Kernel sends when it gives a process to a CPU arrives there, up to
the arguments that were not in use; and what the CPU sends at the end of the burst makes the
Kernel store the process as the CPU left it, free the CPU, and end or queue it by the exit code.\<close>

theorem process_goes_out_and_back:
  assumes "current c k = Inr p" "c < length (cpus k)" "length (fresh_args (env k)) = 10" "length (new_args (cenv d)) = 10"
    "pcb_ok (pcb (programs k p))" "pcb_serialize (pcb (programs k p)) = Inr bs" "length bs < 2 ^ 31"
    "26 + length bs \<le> room (socks k (cpu_sock c k))"
    "pcb_ok (cpcb d)" "pcb_serialize (cpcb d) = Inr bs'" "length bs' < 2 ^ 31" "58 + length bs' \<le> room (serverKernel d)"
  shows "\<exists>k' d' out home. cpu_send_pcb c k = Inr k' \<and> tx (socks k' (cpu_sock c k)) = tx (socks k (cpu_sock c k)) @ out
    \<and> (rx (serverKernel d) = out \<longrightarrow>
         recv_pcb d = Inr (Some (pcb_arrived (new_args (cenv d)) (pcb (programs k p))), cpu_says [] [] d))
    \<and> cycle_send_pcv d = Inr d'
    \<and> tx (serverKernel d') = tx (serverKernel d) @ blob_frame (sjunk (serverKernel d)) (str ''end_burst'' @ [0]) @ home
    \<and> (rx (socks k (cpu_sock c k)) = home \<longrightarrow> handle_end_burst c k =
         and_then (end_burst_queue (ended d) p (exchange (cpu_sock c k) [] []
           (upd p (count_burst (pcb_arrived (fresh_args (env k)) (cpcb d))) (set_cpu c (\<lambda>u. u\<lparr>cpu_program := None\<rparr>) k)))) (assign_cpu c))"
proof (rule pcb_goes_out [OF assms(1,5,4,6-8)])
  fix out k'
  assume out: "cpu_send_pcb c k = Inr k'" "tx (socks k' (cpu_sock c k)) = tx (socks k (cpu_sock c k)) @ out"
    "\<And>more_bytes. rx (serverKernel d) = out @ more_bytes \<Longrightarrow>
       recv_pcb d = Inr (Some (pcb_arrived (new_args (cenv d)) (pcb (programs k p))), cpu_says more_bytes [] d)"
  show ?thesis
  proof (rule burst_ends [OF assms(1,3,2,9-12)])
    fix d' home
    assume "cycle_send_pcv d = Inr d'"
      "tx (serverKernel d') = tx (serverKernel d) @ blob_frame (sjunk (serverKernel d)) (str ''end_burst'' @ [0]) @ home"
      "\<And>left. rx (socks k (cpu_sock c k)) = home @ left \<Longrightarrow> handle_end_burst c k =
       and_then (end_burst_queue (ended d) p (exchange (cpu_sock c k) left []
         (upd p (count_burst (pcb_arrived (fresh_args (env k)) (cpcb d))) (set_cpu c (\<lambda>u. u\<lparr>cpu_program := None\<rparr>) k)))) (assign_cpu c)"
    then show ?thesis using out(1,2) out(3) [of "[]"] by (metis append_Nil2)
  qed
qed

theorem process_goes_out_and_back_witness:
  "\<exists>k' d'. cpu_send_pcb 0 (kernel_2 [] 500) = Inr k' \<and> cycle_send_pcv (cpu_1 [] []) = Inr d'"
proof -
  have p: "pcb program_3 = pcb_1" by (simp add: program_3_def program_1_def)
  show ?thesis
    using process_goes_out_and_back [OF current_2, of "[]" 500 "cpu_1 [] []" pcb_bytes pcb_bytes] pcb_1_sent
    unfolding p by (simp add: env_2_args(1) p) blast
qed



text \<open>C17: A program starts: what the thread of the Console sends behind its greeting makes the Kernel load exactly the
source that is in the file, and the number the Kernel answers and gives the process is the one the Console
keeps.\<close>

theorem program_reaches_kernel:
  assumes "file_of d (pathProgram (c_store d p)) = Some code" "code \<noteq> []" "length code < 2 ^ 31" "33 + length code \<le> room s"
    "rx s = int_header (sjunk (socks k sk)) (programID k + 1) @ more_bytes" "header_fits (programID k + 1)" "11 \<le> room (socks k sk)"
  shows "\<exists>d' k1 out. thread_start p (Some s) d = (True, d')
    \<and> tx (socketKernel_c (c_store d' p)) = tx s @ blob_frame (sjunk s) (str ''NewProgram'' @ [0]) @ out
    \<and> (rx (socks k sk) = out @ left \<longrightarrow> select_program_socket_recive_package sk (str ''NewProgram'') k
         = and_then (planificador_largo_plazo k1) cpu_inactive_planner)
    \<and> newQ k1 = newQ k @ [nextProgram k] \<and> p_code (programs k1 (nextProgram k)) = code
    \<and> pid (pcb (programs k1 (nextProgram k))) = c_pid (c_store d' p)
    \<and> tx (socks k1 sk) = tx (socks k sk) @ int_header (sjunk (socks k sk)) (c_pid (c_store d' p))"
proof (rule start_sends [OF assms(1,4,5,6)])
  fix d'
  assume d': "thread_start p (Some s) d = (True, d')" "pid_of d' p = programID k + 1"
    "socketKernel_c (c_store d' p) = said (s\<lparr>rx := more_bytes\<rparr>) (blob_frame (sjunk s) (str ''NewProgram'' @ [0]) @ blob_frame (sjunk s) code)"
  have pid: "c_pid (c_store d' p) = programID k + 1" using d'(2) by (simp add: pid_of_def)
  show ?thesis
    by (intro exI conjI impI, rule d'(1), simp add: d'(3), rule kernel_loads [where j = "sjunk s" and code = code and left = left])
      (use assms(2,3,7) in \<open>simp_all add: with_program_def loaded_fields pid\<close>)
qed

theorem program_reaches_kernel_witness:
  "\<exists>d' (k1 :: kernel). thread_start 0 (Some (sock_1 (int_header (\<lambda>_. 0) 1) 100)) (cons_1 [] 0 []) = (True, d')
    \<and> newQ k1 = [0] \<and> p_code (programs k1 0) = [7] \<and> pid (pcb (programs k1 0)) = c_pid (c_store d' 0)"
proof -
  have "programID kernel_0 = 0" "sjunk (socks kernel_0 9) = (\<lambda>_. 0)" "room (socks kernel_0 9) = 100" "newQ kernel_0 = []" "nextProgram kernel_0 = 0"
    by (simp_all add: kernel_0_def)
  then obtain d' and k1 :: kernel where "thread_start 0 (Some (sock_1 (int_header (\<lambda>_. 0) 1) 100)) (cons_1 [] 0 []) = (True, d')"
    "newQ k1 = [0]" "p_code (programs k1 0) = [7]" "pid (pcb (programs k1 0)) = c_pid (c_store d' 0)"
    using program_reaches_kernel [of "cons_1 [] 0 []" 0 "[7]" "sock_1 (int_header (\<lambda>_. 0) 1) 100" kernel_0 9 "[]" "[]"]
    by (simp add: header_fits_def) (elim exE conjE, rule that, assumption+)
  then show ?thesis by (intro exI conjI)
qed



text \<open>C19: Whatever is typed into the console of the Kernel, a turn of its loop that ends leaves the Kernel as it
was, or with another degree of multiprogramming: no process moves, and the state stays one the Kernel can
reach. In particular the command that should finish a process never does.\<close>

theorem console_changes_only_degree:
  assumes "kernel_reachable (kern d)" "kernel_turn d = Inr d'"
  shows "kernel_reachable (kern d') \<and> places (kern d') = places (kern d)
    \<and> (kern d' = kern d \<or> (\<exists>v. kern d' = console_multiprogram_degree v (kern d)))"
proof -
  have same: "kern d' = kern d \<or> (\<exists>v. kern d' = console_multiprogram_degree v (kern d))"
    by (rule kernel_turn_keeps [OF assms(2)])
  then have "kernel_reachable (kern d')" using assms(1) kernel_reachable.step [OF assms(1) kernel_step.degree] by auto
  moreover have "places (console_multiprogram_degree v k) = places k" for v k
    by (simp add: places_def running_def console_multiprogram_degree_def)
  ultimately show ?thesis using same by auto
qed

theorem console_changes_only_degree_witness:
  "\<exists>d'. kernel_turn (kcon_1 24 kernel_0 (str ''4'' @ 10 # sprintf_i 7 @ 10 # [])) = Inr d' \<and> kernel_reachable (kern d')
    \<and> grado_multiprog (config (kern d')) = 7"
proof -
  obtain d' where d: "kernel_turn (kcon_1 24 kernel_0 (str ''4'' @ 10 # sprintf_i 7 @ 10 # [])) = Inr d'"
    "kern d' = console_multiprogram_degree 7 kernel_0"
    using degree_typed by blast
  have "kernel_reachable (kern (kcon_1 24 kernel_0 (str ''4'' @ 10 # sprintf_i 7 @ 10 # [])))"
    by (simp add: kernel_reachable.start [OF kernel_started_0])
  from console_changes_only_degree [OF this d(1)] d show ?thesis by (auto simp: console_multiprogram_degree_def)
qed







text \<open>C23: A free CPU gets the process at the front of the ready queue (after the long-term planner ran), or
none when the queue is empty; the queue loses just that process, and the process gets the quantum
of the configured algorithm.\<close>

theorem dispatch_front:
  assumes "planificar k = Inr (r, k')"
  shows "\<exists>k1. planificador_largo_plazo k = Inr k1 \<and> readyQ k1 = opt r @ readyQ k'
    \<and> (r = None \<longrightarrow> readyQ k1 = [])
    \<and> (\<forall>p. r = Some p \<longrightarrow> quantum (programs k' p) = assigned_quantum (config k) (quantum (programs k1 p)))"
proof -
  obtain k1 where "planificador_largo_plazo k = Inr k1" "readyQ k1 = opt r @ readyQ k'"
    "\<And>p. r = Some p \<Longrightarrow> quantum (programs k' p) = assigned_quantum (config k) (quantum (programs k1 p))"
    using planificar_spec [OF assms] by blast
  moreover from assms this(1) have "r = None \<longrightarrow> readyQ k1 = []"
    by (auto simp: planificar_def split: list.split_asm)
  ultimately show ?thesis by blast
qed

theorem dispatch_front_witness:
  "\<exists>k'. planificar ((kernel_2 [] 100)\<lparr>readyQ := [1, 3]\<rparr>) = Inr (Some 1, k') \<and> readyQ k' = [3]"
proof -
  let ?k = "(kernel_2 [] 100)\<lparr>readyQ := [1, 3]\<rparr>"
  have plan: "planificador_largo_plazo ?k = Inr ?k" by (simp add: planificador_largo_plazo_def)
  then obtain k' where k': "planificar ?k = Inr (Some 1, k')" by (simp add: planificar_def)
  from dispatch_front [OF k'] plan k' show ?thesis by auto
qed

text \<open>C24: Round robin gives a process exactly its quantum: of the questions whether it may go on, the first
\<open>quantum - 1\<close> are answered yes and the next one no. Under FIFO every one is answered yes. A
process that waits for a semaphore is stopped at the first question.\<close>

theorem quantum_is_respected:
  assumes "waiting program \<noteq> 1" "cfg_quantum cfg = int n" "0 < n"
  shows "(algoritmo cfg = str ''RR'' \<longrightarrow>
      burst_answers n (set_quantum (assigned_quantum cfg old) program) = replicate (n - 1) 1 @ [0])
    \<and> (algoritmo cfg = str ''FIFO'' \<longrightarrow>
      burst_answers m (set_quantum (assigned_quantum cfg old) program) = replicate m 1)
    \<and> (waiting other = 1 \<longrightarrow> fst (burst other) = 0)"
proof -
  have neq: "str ''RR'' \<noteq> str ''FIFO''" by (simp add: str_def)
  show ?thesis
    using burst_round_robin [of "set_quantum (int n) program" n] burst_fifo [of "set_quantum (-1) program" m]
      burst_waiting [of other] assms neq
    by (auto simp: assigned_quantum_def)
qed

theorem quantum_is_respected_witness:
  "burst_answers 2 (set_quantum (assigned_quantum cfg_2 0) program_1) = [1, 0]"
  using quantum_is_respected [of program_1 cfg_2 2 0] by (simp add: program_1_def cfg_2_def)

text \<open>C25: A \<open>wait\<close> on a declared semaphore takes one from its value and answers 1; when the value was not
positive it answers 0 and the process is marked as waiting for that semaphore. Nothing else
changes but the two counters of system calls.\<close>

theorem semaphore_wait:
  assumes "current c k = Inr p" "request_ok c k name left"
    and "list_find (named_sem name) (semaforos (config k)) = Some s"
  shows "handle_cpu_wait c k = Inr (exchange (cpu_sock c k) left
      (success c k @ int_header (sjunk (socks k (cpu_sock c k))) (if 0 < sem_value s then 1 else 0))
      (upd_sem name (sem_value s - 1)
        (upd p (\<lambda>q. if 0 < sem_value s then count_syscall q else wait_on name (count_syscall q)) k)))"
  by (rule handle_cpu_wait_spec [OF assms])

theorem semaphore_wait_witness:
  "\<exists>k'. handle_cpu_wait 0 (kernel_2 (blob_frame (\<lambda>_. 0) (str ''s'' @ [0])) 30) = Inr k'
     \<and> waiting (programs k' 0) = 1"
  using semaphore_wait [OF current_2 request_ok_2, of "\<lparr>sem_nombre = str ''s'', sem_value = -1\<rparr>"] sem_2
  by (simp add: wait_on_def)



text \<open>C27: A program ends: the thread shows every text its process printed, in order, then the reason that belongs to
the exit code the Kernel sent with \<open>inform_console\<close>, then the statistics with the number of texts; the
program is taken out of the list and freed, and the thread ends.\<close>

theorem console_shows_texts_and_reason:
  assumes "cons_inv d" "p \<in> set (c_programs d)" "\<forall>t \<in> set ts. good_text t"
    "\<not> console_gone (interruptionCode (programs k q))" "\<not> console_gone (exitCode (pcb (programs k q)))"
    "header_fits (exitCode (pcb (programs k q)))" "35 \<le> room (socks k (p_socket (programs k q)))"
    "rx (socketKernel_c (c_store d p)) = print_bytes (sjunk (socks k (p_socket (programs k q)))) ts
       @ drop (length (tx (socks k (p_socket (programs k q))))) (tx (socks (inform_console q k) (p_socket (programs k q))))"
  shows "screen (thread_loop p d) = screen d @ map (said_text (pid_of d p)) ts @ end_text (pid_of d p) (exitCode (pcb (programs k q)))
      @ statistics_text ((c_store d p)\<lparr>cantImpresionesPantalla := cantImpresionesPantalla (c_store d p) + int (length ts)\<rparr>) d
    \<and> c_programs (thread_loop p d) = remove1 p (c_programs d) \<and> freed (thread_loop p d) = insert p (freed d)"
  by (rule loop_shows [OF _ assms(3,6,1,2), where j = "sjunk (socks k (p_socket (programs k q)))" and left = "[]"])
    (use assms(4,5,8) inform_console_spec(1) [OF assms(7)] in \<open>simp add: told_def Let_def\<close>)

theorem console_shows_texts_and_reason_witness:
  "\<exists>d. cons_inv d \<and> screen (thread_loop 0 d) = [said_text 1 (str ''x'')] @ end_text 1 1
     @ statistics_text ((c_store d 0)\<lparr>cantImpresionesPantalla := 1\<rparr>) d \<and> freed (thread_loop 0 d) = {0}"
proof -
  let ?k = "kernel_2 [] 100"
  let ?b = "print_bytes (\<lambda>_. 0) [str ''x''] @ drop (length (tx (socks ?k 4))) (tx (socks (inform_console 0 ?k) 4))"
  have facts: "p_socket program_3 = 4" "interruptionCode program_3 = 0" "exitCode (pcb program_3) = 1"
    by (simp_all add: program_3_def program_1_def pcb_1_def)
  have "\<forall>t \<in> set [str ''x'']. good_text t" by (simp add: good_text_def str_def)
  from console_shows_texts_and_reason [of "cons_1 ?b 1 [0]" 0 "[str ''x'']" ?k 0, OF _ _ this]
  show ?thesis
    by (intro exI [of _ "cons_1 ?b 1 [0]"])
      (simp add: cons_inv_1 facts console_gone_def ERROR_CONSOLE_DISCONNECTED_def ERROR_CONSOLE_FINISH_COMMAND_def header_fits_def,
       simp add: c_program_1_def)
qed



text \<open>C29: Whatever is typed into the console of the Memory process, no byte of any process changes, and the
memory stays in order: the commands only show, change the delay and drop what is cached.\<close>

theorem console_keeps_pages:
  assumes "debug_console ls d = Inr d'" "mem_inv (configMemory d) (cmem d)"
  shows "mem_inv (configMemory d') (cmem d') \<and> byte_at (configMemory d') (cmem d') = byte_at (configMemory d) (cmem d)"
  using pages_stay_bytes [OF debug_console_keeps [OF assms(1)] assms(2)] by simp

theorem console_keeps_pages_witness:
  "\<exists>d'. debug_console [str ''flu'' @ [10], str ''exit'' @ [10]] console_1 = Inr d'
    \<and> mem_inv (configMemory d') (cmem d') \<and> byte_at (configMemory d') (cmem d') = byte_at cfg_1 mem_1"
proof -
  obtain d' where d: "debug_console [str ''flu'' @ [10], str ''exit'' @ [10]] console_1 = Inr d'" using flush_and_exit_1 by blast
  show ?thesis using console_keeps_pages [OF d] d mem_inv_1 by simp
qed

text \<open>C30: Whatever the parser does with a line through the functions it is given, the process stays the same
one: its number, its code, its labels and the size of its stack are as they were, every context keeps
ten arguments, and the exit code is unchanged, 0 or the memory error.\<close>

theorem line_keeps_process:
  assumes "ansisop_code f" "f c = Inr c'"
  shows "same_process c c' \<and> answers_left c' \<le> answers_left c"
  using ansisop_code_moves [OF assms] by (simp add: moves_on_def)

theorem line_keeps_process_witness:
  "same_process (cpu_1 [] []) (AnSISOP_irAlLabel [97] (cpu_1 [] [])) \<and>
   answers_left (AnSISOP_irAlLabel [97] (cpu_1 [] [])) \<le> answers_left (cpu_1 [] [])"
proof (rule line_keeps_process)
  show "ansisop_code (\<lambda>c. and_then (Inr (AnSISOP_irAlLabel [97] c)) Inr)"
    by (rule code_plain [OF plain_primitive.intros(2) code_end])
  show "and_then (Inr (AnSISOP_irAlLabel [97] (cpu_1 [] []))) Inr = Inr (AnSISOP_irAlLabel [97] (cpu_1 [] []))" by simp
qed

text \<open>C31: The variables a context declares lie one behind the other, four bytes each, from the top of the stack
on, and looking one up answers its address and changes nothing.\<close>

theorem variables_lie_in_a_row:
  assumes "has_context c" "distinct xs" "\<forall>x \<in> set xs. \<not> is_argument x"
    "0 < page_size c" "top_address c + 4 * int (length xs) < 2 ^ 31"
  shows "\<exists>c'. define_all xs c = Inr c'
    \<and> (\<forall>i < length xs. AnSISOP_obtenerPosicionVariable (xs ! i) c' = Inr (top_address c + 4 * int i, c'))"
  by (rule define_all_addresses [OF assms]) blast

theorem variables_lie_in_a_row_witness:
  "\<exists>c'. define_all [97, 98] (cpu_1 [] []) = Inr c' \<and> AnSISOP_obtenerPosicionVariable 97 c' = Inr (32, c')
    \<and> AnSISOP_obtenerPosicionVariable 98 c' = Inr (36, c')"
proof -
  obtain c' where "define_all [97, 98] (cpu_1 [] []) = Inr c'"
    "\<forall>i < length [97, 98 :: byte]. AnSISOP_obtenerPosicionVariable ([97, 98] ! i) c' = Inr (32 + 4 * int i, c')"
    using variables_lie_in_a_row [of "cpu_1 [] []" "[97, 98]"] by (auto simp: top_address_1)
  from this(1) this(2) [rule_format, of 0] this(2) [rule_format, of 1] show ?thesis by simp
qed

text \<open>C32: A read answers with the bytes of the file from the offset on, at most the number asked for and never
more than the file has; an offset behind the end of the file is refused with -1. Nothing faults,
whatever the offset and the size, and the loop over the blocks ends.\<close>

theorem read_answers_content:
  assumes "fs_inv d M" "reads_metadata (fsenv d)" "plain_path path" "validar (armarPathArchivo path d) d = 1"
  shows "\<exists>a. M (components path) = Some a \<and>
    obtenerDatos (armarPathArchivo path d) (int off) (int sz) d =
       Inr (if int off \<le> tamanio a
            then (int (min sz (nat (tamanio a) - off)), take sz (drop off (file_bytes d a))) else (-1, []))"
  using obtener_spec [OF assms] by metis

theorem read_answers_content_witness:
  "obtenerDatos (armarPathArchivo (str ''a'') (sample_disk 64 0 (sock_of [] 0))) 2 9 (sample_disk 64 0 (sock_of [] 0)) = Inr (3, [3, 4, 5])
    \<and> obtenerDatos (armarPathArchivo (str ''a'') (sample_disk 64 0 (sock_of [] 0))) 6 1 (sample_disk 64 0 (sock_of [] 0)) = Inr (-1, [])"
proof -
  have "fs_inv (sample_disk 64 0 (sock_of [] 0)) sample_files" by (rule sample_inv) simp
  note read = read_answers_content [OF this _ sample_plain sample_valid]
  have M: "sample_files (components (str ''a'')) = Some sample_file" by (rule sample_named)
  show ?thesis
    using read [of 2 9] read [of 6 1] M sample_reads by (auto simp: sample_content)
qed

text \<open>C33: Creating a file where its directory is there and nothing else is, while a block is free, answers 1,
gives the new file the free block with the lowest number and size 0, marks just that block, touches
no block's bytes, and keeps the disk in order.\<close>

theorem create_keeps_order:
  assumes "fs_inv d M" "vacant d path" "free_blocks d \<noteq> {}"
  shows "\<exists>b d'. crear path (armarPathArchivo path d) d = Inr (1, d') \<and> b \<in> free_blocks d
    \<and> (\<forall>c \<in> free_blocks d. b \<le> c) \<and> fs_inv d' (M(components path \<mapsto> empty_file b))
    \<and> free_blocks d' = free_blocks d - {b} \<and> block_bytes d' = block_bytes d"
  using crear_spec [OF assms] by metis

theorem create_keeps_order_witness:
  "\<exists>d'. crear (str ''/b'') (armarPathArchivo (str ''/b'') (sample_disk 64 0 (sock_of [] 0))) (sample_disk 64 0 (sock_of [] 0)) = Inr (1, d')
    \<and> fs_inv d' (sample_files([str ''b''] \<mapsto> empty_file 1)) \<and> free_blocks d' = {2..<16}"
proof -
  have inv: "fs_inv (sample_disk 64 0 (sock_of [] 0)) sample_files" by (rule sample_inv) simp
  obtain b d' where c: "crear (str ''/b'') (armarPathArchivo (str ''/b'') (sample_disk 64 0 (sock_of [] 0))) (sample_disk 64 0 (sock_of [] 0)) = Inr (1, d')"
    "b \<in> {1..<16}" "\<forall>c \<in> {1..<16}. b \<le> c" "fs_inv d' (sample_files(components (str ''/b'') \<mapsto> empty_file b))"
    "free_blocks d' = {1..<16} - {b}"
    using create_keeps_order [OF inv sample_vacant] unfolding sample_free by auto
  have b: "b = 1" using c(2) bspec [OF c(3), of 1] by simp
  have "components (str ''/b'') = [str ''b'']" by (simp add: components_def str_def)
  moreover have "{1..<16} - {1} = {2..<(16 :: int)}" by auto
  ultimately show ?thesis using c(1,4,5) by (auto simp: b)
qed





text \<open>C36: The Kernel starts in a state from which all its events keep its invariant, with one semaphore for each name that has a
value, in the order of the file, and every shared variable 0 and free.\<close>

theorem kernel_starts_from_file:
  assumes "kernel_main E (Some f) outside heap conns fss ms = Inr k" "f (str ''SEM_IDS'') = Some ids" "f (str ''SEM_INIT'') = Some vals"
    "f (str ''SHARED_VARS'') = Some names"
  shows "kernel_reachable k \<and> kernel_inv k
    \<and> map sem_nombre (semaforos (config k)) = take (length (string_get_string_as_array E vals)) (string_get_string_as_array E ids)
    \<and> map sem_value (semaforos (config k)) = take (length (string_get_string_as_array E ids)) (map atoi (string_get_string_as_array E vals))
    \<and> map sv_nombre (shared_vars (config k)) = string_get_string_as_array E names
    \<and> (\<forall>v \<in> set (shared_vars (config k)). sv_value v = 0 \<and> \<not> sv_locked v)"
  using kernel_reachable.start [OF kernel_main_starts(1) [OF assms(1)]] kernel_reachable_inv
    config_read_lists [OF kernel_main_starts(2) [OF assms(1)] assms(2-4)] by blast

theorem kernel_starts_from_file_witness:
  "\<exists>k. kernel_main \<lparr>string_get_string_as_array = split_commas []\<rparr> (Some kernel_file) env_1 (\<lambda>_. program_1) (\<lambda>_. sock_1 [] 0) (sock_1 [] 30) remote_1 = Inr k
    \<and> kernel_reachable k \<and> map sem_nombre (semaforos (config k)) = [str ''m'', str ''b''] \<and> map sem_value (semaforos (config k)) = [1, 0]"
proof -
  obtain k where k: "kernel_main \<lparr>string_get_string_as_array = split_commas []\<rparr> (Some kernel_file) env_1 (\<lambda>_. program_1) (\<lambda>_. sock_1 [] 0)
      (sock_1 [] 30) remote_1 = Inr k"
    using kernel_file_read by blast
  from kernel_starts_from_file [OF k kernel_file_keys] k show ?thesis by (simp add: kernel_file_arrays)
qed

text \<open>C37: The threads that serve CPUs and consoles never deadlock on the mutexes of the queues, the
semaphores and the file table: whatever requests they serve and however the calls interleave, some thread can go on until all are done, because
every one takes the mutexes in the same order.\<close>

theorem select_threads_do_not_deadlock:
  assumes "\<forall>calls \<in> set traces. (\<exists>request broken. calls = cpu_request_trace request broken)
      \<or> (\<exists>outcomes idle. calls = new_program_trace outcomes idle)
      \<or> (\<exists>place files. calls = interrup_trace place files)"
    and "lock_step\<^sup>*\<^sup>* (started traces) ts"
  shows "\<not> deadlocked ts"
proof (rule ordered_never_deadlocks [OF assms(2)])
  show "\<forall>calls \<in> set traces. ordered [] calls"
  proof
    fix calls assume "calls \<in> set traces"
    with assms(1) have "(\<exists>request broken. calls = cpu_request_trace request broken)
      \<or> (\<exists>outcomes idle. calls = new_program_trace outcomes idle)
      \<or> (\<exists>place files. calls = interrup_trace place files)" by (rule bspec)
    then show "ordered [] calls"
      by (elim disjE exE) (simp_all only: neutral_ordered [OF cpu_request_neutral]
        neutral_ordered [OF new_program_neutral] neutral_ordered [OF interrup_neutral])
  qed
qed

theorem select_threads_do_not_deadlock_witness:
  "\<not> deadlocked (started [cpu_request_trace (End_Ready []) None, interrup_trace In_Blocked 2])"
proof (rule select_threads_do_not_deadlock)
  let ?traces = "[cpu_request_trace (End_Ready []) None, interrup_trace In_Blocked 2]"
  show "\<forall>calls \<in> set ?traces. (\<exists>request broken. calls = cpu_request_trace request broken)
      \<or> (\<exists>outcomes idle. calls = new_program_trace outcomes idle)
      \<or> (\<exists>place files. calls = interrup_trace place files)"
    by (simp only: list.set ball_simps simp_thms) (metis (no_types))
  show "lock_step\<^sup>*\<^sup>* (started ?traces) (started ?traces)" by (rule rtranclp.rtrancl_refl)
qed

text \<open>C38: A \<open>memory_read\<close> of the Kernel and the handler of the Memory process that serves it compute
together what the operation of the Memory process computes on the flat address space: the
handler answers with the bytes, the stub returns them.\<close>

theorem kernel_read_served:
  assumes "mem_inv cfg m" "PID \<noteq> -1" "0 \<le> off" "off < int (frameSize cfg)" "0 < sz"
    "sendable PID" "sendable page" "sendable off" "sendable sz"
  defines "data \<equiv> bytes_at cfg m PID (page * int (frameSize cfg) + off) (nat sz)"
  shows "\<exists>m'. served cfg h m (read_msgs PID page off sz) m' (read_reply sz data) \<and> mem_inv cfg m'
    \<and> (\<forall>k j remaining. \<not> mutex_held k \<longrightarrow> can_send (socket k) (read_msgs PID page off sz) \<longrightarrow>
         rx (socket k) = read_reply sz data j @ remaining \<longrightarrow>
         k_memory_read PID page off sz k
           = Inr (case data of None \<Rightarrow> (-5, None) | Some bs \<Rightarrow> (sz, Some bs),
              \<lparr>socket = exchanged (socket k) (read_msgs PID page off sz) remaining, mutex_held = (data = None)\<rparr>))"
proof -
  obtain m' where "served cfg h m (read_msgs PID page off sz) m' (read_reply sz data)" "mem_inv cfg m'"
    and len: "\<And>bs. data = Some bs \<Longrightarrow> int (length bs) = sz"
    unfolding data_def using remote_read [OF assms(1-9)] by metis
  then show ?thesis using k_memory_read_ok [OF _ _ assms(5,9) len] by blast
qed

theorem kernel_read_served_witness:
  "\<exists>m'. served cfg_1 hash_1 mem_1 (read_msgs 1 0 4 8) m' (read_reply 8 (Some (replicate 8 0)))"
  using kernel_read_served [OF mem_inv_1, of 1 4 8 0 hash_1] bytes_at_1 by (auto simp: sendable_def)

text \<open>C39: \<open>heap_defrag\<close> rewrites the headers of a page so that it is tiled by the merged blocks: each
maximal run of free blocks becomes one, used blocks stay where they are, and \<open>freeSpace\<close> is the
free space of the merged tiling.\<close>

theorem defrag_merges:
  assumes "heap_ready r (pid (pcb p))" "layout r (pid (pcb p)) page 0 bl" "bl \<noteq> []"
    "find_heapPage page p = Some hp" "hp_freeSpace hp = free_bytes bl"
    "free_bytes (coalesced bl) \<noteq> pageSize r - 8"
  shows "\<exists>r'. heap_defrag p page r = Inr (upd_heapPage page (set_free (free_bytes (coalesced bl))) p, r')
    \<and> layout r' (pid (pcb p)) page 0 (coalesced bl) \<and> merged (coalesced bl)
    \<and> used_bytes a (coalesced bl) = used_bytes a bl
    \<and> (\<forall>x \<in> used_bytes (page * pageSize r) bl. rbyte r' (pid (pcb p)) x = rbyte r (pid (pcb p)) x)"
proof -
  obtain r' where r': "layout r' (pid (pcb p)) page 0 (coalesced bl)"
    "edits r r' (pid (pcb p)) (page * pageSize r) (page * pageSize r + pageSize r)
        (used_bytes (page * pageSize r) bl)"
    "heap_defrag p page r =
      (let p1 = upd_heapPage page (set_free (free_bytes (coalesced bl))) p in
       if free_bytes (coalesced bl) = pageSize r - 8
       then and_then (remote_free_page r' (pid (pcb p)) page) (\<lambda>(resp, r3).
              Inr (if resp \<noteq> 0 then p1\<lparr>interruptionCode := resp\<rparr> else p1, r3))
       else Inr (p1, r'))"
    by (rule heap_defrag_spec [OF assms(1-5)])
  then show ?thesis
    using assms(6) coalesced_merged coalesced_used by (auto simp: edits_def)
qed

theorem defrag_merges_witness:
  "\<exists>p' r'. heap_defrag program_2 1 remote_2 = Inr (p', r') \<and> layout r' 1 1 0 [(4, False), (12, True)]"
proof -
  have e: "find_heapPage 1 program_2 = Some \<lparr>hp_page = 1, hp_freeSpace = 12\<rparr>"
    by (simp add: find_heapPage_def)
  have c: "coalesced [(4, False), (12, True)] = [(4, False), (12, True)]" by simp
  show ?thesis
    using defrag_merges [of remote_2 program_2 1 "[(4, False), (12, True)]" "\<lparr>hp_page = 1, hp_freeSpace = 12\<rparr>"]
      heap_inv_2 layout_2 e unfolding c heap_inv_def by (auto simp del: layout.simps)
qed



section \<open>Further theorems\<close>

text \<open>An allocation that needs a new page and would leave less than a header's 8 bytes on it makes the
Kernel exit: \<open>heap_alloc\<close> writes the second header across the end of the page, which Memory
refuses.\<close>

theorem heap_alloc_near_page_size_exits:
  assumes "heap_inv p r" "in_step cfg_k p r" "0 \<le> sz" "pageSize r - 16 < sz" "sz < pageSize r - 8"
    "\<forall>hp \<in> set (heapPages p). hp_freeSpace hp < sz" "freeFrameCount (mram (rmem r)) \<noteq> 0"
  shows "memory_heap_alloc cfg_k p sz r = Inl Exit_Failure"
  by (rule memory_heap_alloc_gap [OF assms])

text \<open>A heap page that was given back to Memory stays in \<open>heapPages\<close>; once Memory no longer caches
it, the next allocation that it seems to have room for finds no page behind it and the Kernel
exits.\<close>

theorem returned_page_exits:
  assumes "heap_ready r (pid (pcb p))" "0 < pageSize r" "heapPages p = hp # hps"
    "frame_of (mram (rmem r)) (pid (pcb p), hp_page hp) = None"
    "0 \<le> sz" "sz \<le> hp_freeSpace hp" "hp_freeSpace hp \<le> pageSize r - 8"
  shows "memory_heap_alloc cfg_k p sz r = Inl Exit_Failure"
proof -
  have ps: "8 \<le> pageSize r" "pageSize r < 2 ^ 31" using assms(1,5-7) by (simp_all add: heap_ready_def)
  have "\<not> size_t_of_int sz > size_t_of_int (pageSize r - sizeof_t_heapmetadata)"
    using assms(5-7) ps by (simp add: sizeof_t_heapmetadata_def)
  then show ?thesis
    using heap_alloc_returned_page [OF assms(1-3) _ assms(4), of "nat sz"] assms(5,6)
    by (simp add: memory_heap_alloc_def)
qed

text \<open>Allocations of a negative size or of more than a page less its header are refused with
\<open>ERROR_ALLOC_BIGGER_THAN_PAGE_SIZE\<close>, the memory untouched.\<close>

theorem heap_alloc_refused:
  assumes "8 < pageSize r" "pageSize r < 2 ^ 31" "- (2 ^ 31) \<le> sz" "sz < 2 ^ 31"
    "sz < 0 \<or> sz > pageSize r - 8"
  shows "memory_heap_alloc cfg_k p sz r = Inr (ERROR_ALLOC_BIGGER_THAN_PAGE_SIZE,
    p\<lparr>interruptionCode := ERROR_ALLOC_BIGGER_THAN_PAGE_SIZE\<rparr>, r)"
  by (rule memory_heap_alloc_rejects [OF assms])

text \<open>What the Kernel and the CPU send each other as a process control block is read back as the block
that was sent; only the unused slots behind \<open>argCount\<close> of each stack context are those of the
receiver's fresh memory, and \<open>pcb_compare\<close> accepts the copy.\<close>

theorem pcb_roundtrip:
  assumes "pcb_ok p" "length fresh = 10"
  shows "\<exists>bs. pcb_serialize p = Inr bs \<and> pcb_deserialize fresh bs = Inr (pcb_arrived fresh p)
    \<and> pcb_compare p (pcb_arrived fresh p) = Inr True"
  by (rule pcb_round [OF assms]) (use pcb_compare_arrived [OF assms(1)] in blast)

text \<open>A write request of the Kernel or of the CPU makes the Memory process store its bytes, and the
number it answers is what \<open>memory_write\<close> returned.\<close>

theorem kernel_write_served:
  assumes "mem_inv cfg m" "lru_ready cfg (mcache m)" "PID \<noteq> -1" "0 \<le> off" "off < int (frameSize cfg)"
    "bs \<noteq> []" "length bs < 2 ^ 31" "sendable PID" "sendable page" "sendable off"
  defines "ms \<equiv> [MStr (str ''write''), MInt PID, MInt page, MInt off, MBlob bs]"
  shows "\<exists>q m'. served cfg h m ms m' (\<lambda>j. int_header j q)
    \<and> written_spec cfg m PID (page * int (frameSize cfg) + off) bs q m'
    \<and> (\<forall>k j remaining. \<not> mutex_held k \<longrightarrow> can_send (socket k) ms \<longrightarrow> rx (socket k) = int_header j q @ remaining \<longrightarrow>
         k_memory_write PID page off bs k
           = Inr (q, \<lparr>socket = exchanged (socket k) ms remaining, mutex_held = False\<rparr>))"
proof -
  obtain q m' where "served cfg h m ms m' (\<lambda>j. int_header j q)" "header_fits q"
    "written_spec cfg m PID (page * int (frameSize cfg) + off) bs q m'"
    unfolding ms_def using remote_write [OF assms(1-10)] by metis
  then show ?thesis using stub_int_ok unfolding k_memory_write_def ms_def by blast
qed

text \<open>After a \<open>memory_read\<close> that Memory refused the Kernel's stub returns without unlocking
\<open>memoryServer.mutex\<close>: every later call of a stub waits for ever.\<close>

theorem refused_read_locks_memory:
  assumes "\<not> mutex_held k" "can_send (socket k) (read_msgs PID page off sz)" "0 < sz" "sendable sz"
    "rx (socket k) = read_reply sz None j @ remaining"
  shows "\<exists>k'. k_memory_read PID page off sz k = Inr ((-5, None), k')
    \<and> k_memory_read P q o' n k' = Inl Deadlock \<and> k_memory_write P q o' bs k' = Inl Deadlock
    \<and> k_memory_get_pages P n k' = Inl Deadlock \<and> k_memory_end_program P k' = Inl Deadlock"
  using k_memory_read_ok [OF assms(1-4) _ assms(5)]
  by (simp add: k_memory_read_def k_memory_write_def k_memory_get_pages_def k_memory_end_program_def
      with_memoryServer_held)

text \<open>A blob that was sent whole is received as it was sent (in one piece or in parts of 32768 bytes),
and so is the integer behind it; the receiver is left at the byte behind both.\<close>

theorem wire_roundtrip:
  assumes "22 + length bs \<le> room s" "length bs < 2 ^ 31" "header_fits v"
    "tx (snd (socket_send_int (snd (socket_send s bs)) v)) = tx s @ wire" "rx t = wire @ remaining"
  shows "\<exists>t'. socket_recv t = (int (length bs), Some bs, t')
    \<and> socket_recv_int t' = (4, v, t'\<lparr>rx := remaining\<rparr>)"
proof -
  have "wire = blob_frame (sjunk s) bs @ int_header (sjunk s) v"
    using assms(1,4) by (simp add: socket_send_ok socket_send_int_ok)
  then have "socket_recv t = (int (length bs), Some bs, t\<lparr>rx := int_header (sjunk s) v @ remaining\<rparr>)"
    using socket_recv_ok [OF assms(2), of t "sjunk s"] assms(5) by simp
  then show ?thesis using socket_recv_int_ok [OF assms(3)] by simp
qed

text \<open>The decimal text of a C \<open>int\<close> and its NUL fit the 11 bytes that \<open>socket_send_int\<close> allocates
for them exactly when the value is above \<open>-10^9\<close>; below, \<open>sprintf\<close> writes behind the block.\<close>

theorem int_header_overflow:
  assumes "- (2 ^ 31) \<le> v" "v < 2 ^ 31"
  shows "length (sprintf_i v) + 1 \<le> 11 \<longleftrightarrow> - 1000000000 < v"
  using sprintf_i_fits_iff [OF assms] by simp

text \<open>\<open>ram_get_pages\<close> gives a process the next \<open>k\<close> page numbers when there are \<open>k\<close> free frames, for
whatever hash function is configured: those pages and no others get a frame, no page moves, and
the free count drops by \<open>k\<close>. Otherwise it answers \<open>ERROR_NO_PAGES_FOR_PROCESS\<close> and changes
nothing. The frame table's invariant is kept.\<close>

theorem ram_get_pages_extends:
  assumes "ram_inv cfg r" "PID \<noteq> -1" "proccess_page_max r PID + 1 + k \<le> 2 ^ 31"
  shows "\<exists>r'. ram_get_pages h r PID k
      = Inr (if k \<le> freeFrameCount r then 0 else ERROR_NO_PAGES_FOR_PROCESS, r')
    \<and> ram_inv cfg r' \<and> proccessPages r' = proccessPages r \<and> frame_of r \<subseteq>\<^sub>m frame_of r'
    \<and> (if k \<le> freeFrameCount r
       then dom (frame_of r') = dom (frame_of r) \<union> new_pages PID (proccess_page_max r PID + 1) k
         \<and> freeFrameCount r = freeFrameCount r' + k
       else r' = r)"
  using ram_get_pages_spec [OF assms] by blast

text \<open>The open-addressing lookup finds the frame that the table holds for the page, whatever the hash
function, and reports its absence otherwise; the assertion at its end never fails.\<close>

theorem ram_lookup_correct:
  assumes "ram_inv cfg r" "PID \<noteq> -1"
  shows "ram_frame_lookup cfg h r PID page = Inr (map_option (get_frame cfg) (frame_of r (PID, page)))"
  using ram_frame_lookup_eq [of cfg r PID h page] assms by (simp add: ram_inv_def)

text \<open>\<open>ram_free_page\<close> takes exactly the frame of the page away, or answers \<open>-1\<close> and changes nothing
when the page has none.\<close>

theorem ram_free_page_removes:
  assumes "ram_inv cfg r" "PID \<noteq> -1"
  shows "\<exists>r'. ram_free_page h r PID page = Inr (if frame_of r (PID, page) = None then -1 else 0, r')
    \<and> ram_inv cfg r' \<and> frame_of r' = (frame_of r)((PID, page) := None)
    \<and> (frame_of r (PID, page) = None \<longrightarrow> r' = r)"
  using ram_free_page_spec [OF assms] by blast

text \<open>The end of a process removes all of its pages from the frames and from the cache, and no byte of
another process changes; the invariant of the Memory process is kept.\<close>

theorem program_end_removes:
  assumes "mem_inv cfg m" "PID \<noteq> -1"
  shows "\<exists>m'. program_end m PID = Inr m' \<and> mem_inv cfg m'
    \<and> (\<forall>P a. byte_at cfg m' P a = (if P = PID then None else byte_at cfg m P a))"
  using program_end_spec [OF assms] by blast

text \<open>The Memory process starts in a state that satisfies its invariant, with no page mapped and every
frame free.\<close>

theorem memory_init_establishes:
  assumes "memory_init cfg rmem0 cmem0 acc0 clk tim = Inr m" "0 < proccessPageCount (mram m)"
  shows "mem_inv cfg m \<and> (\<forall>PID a. byte_at cfg m PID a = None)
    \<and> freeFrameCount (mram m) = proccessPageCount (mram m)"
  using memory_init_spec [OF assms] by blast

text \<open>\<open>ram_free_page\<close> does not tell the cache: a page that was cached is unmapped afterwards, yet a
read of it still succeeds and returns its old bytes.\<close>

theorem freed_page_still_readable:
  assumes "mem_inv cfg m" "PID \<noteq> -1" "cached_at (mcache m) (PID, page) = Some i"
    "ram_free_page h (mram m) PID page = Inr (q, r)"
  shows "byte_at cfg (m\<lparr>mram := r\<rparr>) PID (page * int (frameSize cfg)) = None
    \<and> (\<exists>b m'. page_at cfg m (PID, page) = Some b
        \<and> memory_read cfg h (m\<lparr>mram := r\<rparr>) PID page 0 (int (frameSize cfg)) = Inr (Some b, m'))"
  using freed_page_read [OF assms] by blast

text \<open>Caching a page puts it into one entry, in the place of the page that was there, writes its bytes
into that entry only and keeps the cache's invariant: each process has at most
\<open>cachePerProccess\<close> entries and its list holds exactly them.\<close>

theorem cache_insert_correct:
  assumes "cache_inv cfg c" "PID \<noteq> -1" "cached_at c (PID, page) = None" "length content = frameSize cfg"
  shows "\<exists>r c'. cache_cache_contents cfg c PID page content = Inr (r, c') \<and> cache_inv cfg c'
    \<and> (case r of
         None \<Rightarrow> cached_at c' = cached_at c \<and> cacheContent c' = cacheContent c
       | Some i \<Rightarrow> i < length (entries c)
           \<and> cached_at c' = (cached_at c)(keys c ! i := None, (PID, page) \<mapsto> i)
           \<and> cacheContent c' = poke (i * frameSize cfg) content (cacheContent c))"
  using cache_cache_contents_spec [OF assms] by meson

text \<open>The victim of a process that has used up its entries is its least recently used one.\<close>

theorem lru_victim_oldest:
  assumes "length (pe_entries p) = cachePerProccess cfg" "0 < cachePerProccess cfg"
  shows "\<exists>i. lru cfg c p = (Some i, c) \<and> i \<in> set (pe_entries p)
    \<and> (\<forall>j \<in> set (pe_entries p). last_access c i \<le> last_access c j)"
proof -
  have "pe_entries p \<noteq> []" using assms by auto
  from lruProccess_min [OF this, of c] show ?thesis using assms(1) by (metis lru_def)
qed

text \<open>\<open>dictionary_compare\<close> on two dictionaries of positions decides whether they are equal as maps,
whatever the order in which the library iterates over them.\<close>

theorem dictionary_compare_decides:
  assumes "distinct (map fst a)" "distinct (map fst b)"
  shows "dictionary_compare position_compare a b = Inr (map_of a = map_of b)"
  by (rule dictionary_compare_iff [OF assms])

text \<open>While nothing wraps around 64 bits, \<open>ayudante_hash\<close> is the process number plus its page number
scaled by \<open>frameSize / proccessPageCount\<close>.\<close>

theorem ayudante_hash_spread:
  assumes "0 < n" "0 \<le> PID" "nat PID * n + unat page * fs < 2 ^ 64" "n < 2 ^ 64" "fs < 2 ^ 64" "PID < 2 ^ 64"
  shows "unat (ayudante_hash n fs PID page) = nat PID + unat page * fs div n"
  by (rule ayudante_hash_value [OF assms])

text \<open>Killing a process that is blocked on a semaphore takes it out of the blocked queue but leaves the
semaphore counting it: the configuration, with the negative value, is unchanged, so the next signal
is spent on a process that no longer exists.\<close>

theorem killed_waiter_still_counted:
  assumes "list_remove_by_condition (\<lambda>p. p_socket (programs k p) = sk) (blockedQ k) = (Some w, others)"
    and "\<forall>p \<in> set (newQ k). p_socket (programs k p) \<noteq> sk"
    and "\<forall>u \<in> set (cpus k). \<not> runs_socket k sk u"
    and "program_interrup sk code override k = Inr k'"
  shows "blockedQ k' = others \<and> semaforos (config k') = semaforos (config k)"
  using killed_waiter [OF assms] by simp

text \<open>A shared variable whose value could not be sent stays locked: when the connection takes the word
\<open>Success\<close> but not the value, the handler returns with the mutex held, and the next request for the
variable, of any process, waits for ever with the list of CPUs locked.\<close>

theorem shared_variable_lock_leaks:
  assumes "current c k = Inr p" "rx (socks k (cpu_sock c k)) = blob_frame j (name @ [0]) @ left"
    and "0 \<notin> set name" "length name + 1 < 2 ^ 31"
    and "19 \<le> room (socks k (cpu_sock c k))" "room (socks k (cpu_sock c k)) < 30"
    and "list_find (named_var name) (shared_vars (config k)) = Some v" "\<not> sv_locked v"
  shows "\<exists>k'. handle_cpu_get_shared_variable c k = Inr k'
    \<and> (\<forall>k2 c2 p2 j2 left2. config k2 = config k' \<longrightarrow> current c2 k2 = Inr p2 \<longrightarrow>
         rx (socks k2 (cpu_sock c2 k2)) = blob_frame j2 (name @ [0]) @ left2 \<longrightarrow>
         19 \<le> room (socks k2 (cpu_sock c2 k2)) \<longrightarrow> handle_cpu_get_shared_variable c2 k2 = Inl Deadlock)"
proof -
  obtain k' where k': "handle_cpu_get_shared_variable c k = Inr k'"
    "list_find (named_var name) (shared_vars (config k')) = Some (v\<lparr>sv_locked := True\<rparr>)"
    using leaked_variable_lock [OF assms] by blast
  then show ?thesis using locked_variable_blocks [OF _ _ assms(3,4)] by fastforce
qed

text \<open>No process is lost silently when its CPU gives it back: either it is put into a queue or ends, or,
when the connection broke between the PCB and the flag behind it, the Kernel stops at the null
pointer that \<open>_destroyDisconnectedCPU\<close> dereferences.\<close>

theorem end_burst_keeps_or_crashes:
  assumes "kernel_inv k" "c < length (cpus k)" "handle_end_burst c k = Inr k'"
  shows "mset (places k') = mset (places k) \<or> remove_disconnected k' = Inl Null_Deref"
proof -
  have "accounted [] (mset (places k)) {} k" using assms(1) by (simp add: kernel_inv_accounted)
  from handle_end_burst_accounted [OF assms(3) this assms(2)] show ?thesis
    using stranded_crashes by (auto simp: accounted_def)
qed

text \<open>Two commands of the Kernel's console do deadlock. Stopping the planning takes the blocked queue
before the list of CPUs, against the order of the other threads, and can block for ever with the
thread that serves a console; finishing a process asks for the list of CPUs while holding it, and
always blocks.\<close>

theorem console_commands_deadlock:
  "(\<exists>ts. lock_step\<^sup>*\<^sup>* (started [console_stop_planning, interrup_trace In_Blocked files]) ts \<and> deadlocked ts)
   \<and> (\<exists>ts. lock_step\<^sup>*\<^sup>* (started [console_finish_process place files]) ts \<and> deadlocked ts)"
  using stop_planning_deadlock finish_process_deadlock by blast+

text \<open>The stub for reading a file sends the request the FileSystem process expects (name, path, offset
and size, each framed) and hands over exactly the bytes of the answer.\<close>

theorem filesystem_read_exchange:
  assumes "58 + length path \<le> room s" "int offset < 2 ^ 31"
    and "rx s = int_header j (int (length bs)) @ blob_frame j bs @ left" "bs \<noteq> []" "length bs < 2 ^ 31"
  shows "filesystem_read path offset sz s
    = (int (length bs), Filled bs, said (s\<lparr>rx := left\<rparr>) (read_request s path (int offset) sz))"
  by (rule filesystem_read_ok [OF assms])

text \<open>What a process writes to a file it reads back, through the stubs of the Kernel, the bytes of the two
connections and two turns of the FileSystem's loop: the answer to the write is 1, the answer to the
read of the same place is the buffer, and the read changes nothing on the disk.\<close>

theorem written_bytes_come_back:
  assumes "writes_to d M path a off bs" "int off \<le> tamanio a" "request_fits path"
    "missing_blocks d a (off + length bs) \<le> card (free_blocks d)"
    "off mod block_size d + min (length bs) (block_size d) \<le> whole_pages (page_bytes (fsenv d)) (block_size d)"
    "rx (socketKernel d) = write_request s path (int off) bs @ read_request s path (int off) (int (length bs))"
    "33 + length bs \<le> room (socketKernel d)" "58 + length path + length bs \<le> room s"
  shows "\<exists>d1 d2 s1 s2. serve_kernel d = Inr (Some d1) \<and> serve_kernel d1 = Inr (Some d2)
    \<and> filesystem_write path (int off) bs (s\<lparr>rx := answer_bytes d d1\<rparr>) = (1, s1)
    \<and> filesystem_read path off (int (length bs)) (s\<lparr>rx := answer_bytes d1 d2\<rparr>) = (int (length bs), Filled bs, s2)
    \<and> tree d2 = tree d1 \<and> bitmap d2 = bitmap d1"
proof -
  obtain d1 d2 where d: "serve_kernel d = Inr (Some d1)" "serve_kernel d1 = Inr (Some d2)"
    "answer_bytes d d1 = int_header (sjunk (socketKernel d)) 1"
    "answer_bytes d1 d2 = int_header (sjunk (socketKernel d)) (int (length bs)) @ blob_frame (sjunk (socketKernel d)) bs"
    "tree d2 = tree d1" "bitmap d2 = bitmap d1"
    by (rule write_then_read [OF assms(1-5) _ assms(7), of s "[]"], simp add: assms(6), rule that)
  have "bs \<noteq> []" "off + length bs < 2 ^ 24" using writes_to_facts [OF assms(1)] by simp_all
  then show ?thesis
    using d stub_writes [OF assms(8), of 1] stub_reads [of path s off bs] assms(8)
    by (simp add: header_fits_def)
qed

text \<open>A write that would end with or behind the last byte of the disk, and a write that needs more blocks
than are free, are refused with ENOSPC and leave the whole state of the FileSystem as it was.\<close>

theorem write_refused_without_change:
  assumes "writes_to d M path a off bs" "card (free_blocks d) < missing_blocks d a (off + length bs)"
    "cantidadBloques d * tamanioBloques d \<le> int (off2 + length bs2)" "off2 + length bs2 < 2 ^ 63"
  shows "guardarDatos (armarPathArchivo path d) (int off) (int (length bs)) bs d = Inr (- ENOSPC, d)
    \<and> guardarDatos p (int off2) (int (length bs2)) bs2 d = Inr (- ENOSPC, d)"
  using guardar_full [OF assms(1,2)] guardar_beyond_disk [OF _ _ assms(3,4)] writes_to_facts(2) [OF assms(1)]
  by (simp add: fs_ready_def)

text \<open>The number of blocks a write adds is the exact quotient, rounded up, as long as the bytes that are
missing and the block size stay below 2^24, although it is computed in single precision; the first
byte behind that bound gets no block: 2^24 + 1 bytes in blocks of 64 are given 2^18 blocks.\<close>

theorem block_count_rounding:
  assumes "0 < x" "x < 2 ^ 24" "0 < t" "t < 2 ^ 24"
  shows "ceil_quotient x t = (x + t - 1) div t
    \<and> ceil_quotient (2 ^ 24 + 1) 64 = 2 ^ 18 \<and> 2 ^ 18 * 64 < 2 ^ 24 + (1 :: nat)"
  using ceil_quotient_exact [OF assms] ceil_quotient_short by simp

text \<open>Creating a file that is already there, or without a free block, answers ENOENT and changes nothing.
Where a file stands in the way of one of its directories the answer is ENOENT too, but one more block
stays marked, although no file has it.\<close>

theorem create_refused_or_leaks:
  assumes "bitmap_ok d"
  shows "(validar p d = 1 \<or> free_blocks d = {} \<longrightarrow> crear path p d = Inr (- ENOENT, d))
    \<and> (validar p d \<noteq> 1 \<and> free_blocks d \<noteq> {} \<and> (\<forall>txt. write_text p txt (tree d) = None)
        \<and> string_split (fsenv d) path \<noteq> []
        \<and> (\<forall>m. \<not> no_file_in_the_way (punto_montaje d @ str ''Archivos/'') (string_split (fsenv d) path) (d\<lparr>bitmap := m\<rparr>))
      \<longrightarrow> (\<exists>b d'. crear path p d = Inr (- ENOENT, d') \<and> b \<in> free_blocks d
            \<and> free_blocks d' = free_blocks d - {b} \<and> tree d' = tree d))"
proof (intro conjI impI; (elim conjE)?)
  assume "validar p d = 1 \<or> free_blocks d = {}"
  then show "crear path p d = Inr (- ENOENT, d)" by (rule crear_refused [OF assms])
next
  assume a: "validar p d \<noteq> 1" "free_blocks d \<noteq> {}" "\<forall>txt. write_text p txt (tree d) = None"
    "string_split (fsenv d) path \<noteq> []"
    "\<forall>m. \<not> no_file_in_the_way (punto_montaje d @ str ''Archivos/'') (string_split (fsenv d) path) (d\<lparr>bitmap := m\<rparr>)"
  show "\<exists>b d'. crear path p d = Inr (- ENOENT, d') \<and> b \<in> free_blocks d \<and> free_blocks d' = free_blocks d - {b} \<and> tree d' = tree d"
    by (rule crear_leaks [OF assms a(1,2) _ refl a(4)]) (use a(3,5) in blast)+
qed

text \<open>A variable is looked up in the context on top, then in that of the main program. One that neither
declares stops the CPU, because the line that logs its place reads through the null pointer.\<close>

theorem variable_lookup_exact:
  assumes "has_context c" "\<not> is_argument x"
  shows "AnSISOP_obtenerPosicionVariable x c = (case dictionary_get (vars (top_context c)) [x] of
      Some p \<Rightarrow> Inr (t_puntero (pos_page p * page_size c + pos_off p), c)
    | None \<Rightarrow> (case dictionary_get (vars (hd (indiceDeStack (cpcb c)))) [x] of
          Some p \<Rightarrow> Inr (t_puntero (pos_page p * page_size c + pos_off p), c)
        | None \<Rightarrow> Inl Null_Deref))"
  by (simp add: find_var [OF assms] var_position_def split: option.splits)

text \<open>An address outside the pages of the process: the assignment and the look-up are both answered, and
both set the exit code to the memory error; the look-up gives 0 and the loop over the instructions
stops.\<close>

theorem unmapped_address_ends_process:
  assumes "runs_on c cfg m" "0 \<le> p" "p < 2 ^ 31" "125 \<le> room (serverMemory c)" "bytes_at cfg m (pid (cpcb c)) p 4 = None"
  shows "\<exists>q m1 m2. served cfg h m (assign_msgs c p v) m1 (\<lambda>j. int_header j q)
    \<and> (\<forall>j. cpcb (AnSISOP_asignar p v (heard c (int_header j q))) = (cpcb c)\<lparr>exitCode := ERROR_MEMORY\<rparr>)
    \<and> served cfg h m (deref_msgs c p) m2 (read_reply 4 None)
    \<and> (\<forall>j. fst (AnSISOP_dereferenciar p (heard c (read_reply 4 None j))) = 0
        \<and> cpcb (snd (AnSISOP_dereferenciar p (heard c (read_reply 4 None j)))) = (cpcb c)\<lparr>exitCode := ERROR_MEMORY\<rparr>
        \<and> cycle_loop analizador k (snd (AnSISOP_dereferenciar p (heard c (read_reply 4 None j))))
            = Some (Inr (snd (AnSISOP_dereferenciar p (heard c (read_reply 4 None j))))))"
  by (rule unmapped_access [OF assms, of h v analizador k]) blast

text \<open>When the Kernel answers the question for interruptions with a negative code, the burst ends behind
this instruction with that exit code, whatever it then answers to the question whether to go on: that
answer overwrites \<open>continuoEjecucion\<close>, but the exit code ends the loop.\<close>

theorem interruption_ends_burst:
  assumes "exitCode (cpcb c) = 1" "current_instruction c = Inr i" "cycle_fetch i c = Inr (line, c1)"
    "analizador line (next_pc c1) = Inr c2" "47 \<le> room (serverKernel c2)"
    "rx (serverKernel c2) = int_header j code @ int_header j' b @ more_bytes"
    "code < 0" "header_fits code" "header_fits b"
  shows "\<exists>c'. cycle_loop analizador 1 c = Some (Inr c') \<and> cpcb c' = (cpcb c2)\<lparr>exitCode := code\<rparr>
    \<and> rx (serverKernel c') = more_bytes"
  by (rule interrupted_turn [where analizador = analizador and ?c1.0 = c1 and ?c2.0 = c2, OF assms]) blast

text \<open>The sizes the console of the Memory process prints are the true ones: as free and occupied it prints the
numbers of free and occupied frames, and as the size of a process the number of its pages.\<close>

theorem printed_sizes_are_true:
  assumes "ram_inv (configMemory d) (mram (cmem d))" "PID \<noteq> -1"
  shows "memory_size_str d = str ''Memory Size'' @ newline
      @ str ''frames totales = '' @ sprintf_i (int (frameCount (configMemory d))) @ newline
      @ str ''frames para procesos = '' @ sprintf_i (int (proccessPageCount (mram (cmem d)))) @ newline
      @ str ''frames libres = '' @ sprintf_i (int (frame_count (mram (cmem d)) is_frame_free)) @ newline
      @ str ''frames okupas = '' @ sprintf_i (int (frame_count (mram (cmem d)) is_frame_occupied)) @ newline
    \<and> proccess_size_str PID d = str ''El proceso '' @ sprintf_i PID @ str '' ocupa ''
      @ sprintf_i (int (card {page. page_at (configMemory d) (cmem d) (PID, page) \<noteq> None})) @ str '' frames'' @ newline"
  using occupied_frames [OF assms(1)] process_frames [OF assms] assms(1)
  by (simp add: memory_size_str_def Let_def proccess_size_str_def occupied_by_proccess_frame_count_def page_at_def ram_inv_def)

text \<open>\<open>dump cont *\<close> shows every frame with its owner and all its bytes as integers, and changes nothing, when
the size of a frame is a multiple of four; else it reads the last integer of the last frame behind the block.\<close>

theorem dump_exact:
  assumes "ram_inv (configMemory d) (mram (cmem d))" "frameSize (configMemory d) < 2 ^ 31"
  shows "proccess_command dump_all d =
    (if frameSize (configMemory d) mod 4 = 0
     then Inr (concat (map (shown_frame d (frameSize (configMemory d) div 4)) [0..<proccessPageCount (mram (cmem d))]), d)
     else Inl Buffer_Overflow)"
  using dump_all_shows [OF assms(1) _ assms(2), of "frameSize (configMemory d) div 4"] dump_all_stops [OF assms(1) _ assms(2)] by auto

text \<open>Where the console stops the Memory process: the dump of all frames when their size is no multiple of four
(the last integer of the last frame is read behind the block), every dump of a frame as characters (the end of the
string is written behind the buffer), and the commands \<open>dump\<close>, \<open>dump cont\<close> and \<open>size\<close> without
what they need (a null token is compared).\<close>

theorem console_stops_memory:
  assumes "ram_inv (configMemory d) (mram (cmem d))" "frameSize (configMemory d) mod 4 \<noteq> 0" "frameSize (configMemory d) < 2 ^ 31"
  shows "proccess_command dump_all d = Inl Buffer_Overflow \<and> stringify_frame_content_char F b a = Inl Buffer_Overflow
    \<and> proccess_command [str ''dump''] d = Inl Null_Deref \<and> proccess_command [str ''dump'', str ''cont''] d = Inl Null_Deref
    \<and> proccess_command [str ''size''] d = Inl Null_Deref"
  by (intro conjI bare_commands dump_char_overflows dump_all_stops [OF assms])

end
